(* ===== verification/Api_Errors.thy ===== *)
theory Api_Errors
  imports Prelude
begin

text \<open>
  The application's exception hierarchy (\<open>api/exceptions.py\<close>): the classes with the attributes
  each of them overrides, attribute lookup through the base class, the constructors, and the
  JSON body an error is rendered to. \<open>exn\<close> is what any modelled code may raise: an application
  error, or another Python exception known by its class name and text.
\<close>

datatype exc_class =
    APIError
  | ValidationError
  | InvalidImageError
  | UnsupportedFormatError
  | PayloadTooLargeError
  | BatchTooLargeError
  | AuthenticationError
  | AuthorizationError
  | RateLimitExceededError
  | ModelNotFoundError
  | JobNotFoundError
  | InferenceError
  | ModelUnavailableError
  | ServiceUnavailableError

fun exc_base :: "exc_class \<Rightarrow> exc_class" where
  "exc_base InvalidImageError = ValidationError"
| "exc_base UnsupportedFormatError = ValidationError"
| "exc_base BatchTooLargeError = ValidationError"
| "exc_base _ = APIError"

text \<open>Attributes a class body sets itself; \<open>None\<close> leaves the lookup to the base class.\<close>

fun own_status_code :: "exc_class \<Rightarrow> int option" where
  "own_status_code APIError = Some 500"
| "own_status_code ValidationError = Some 422"
| "own_status_code PayloadTooLargeError = Some 413"
| "own_status_code AuthenticationError = Some 401"
| "own_status_code AuthorizationError = Some 403"
| "own_status_code RateLimitExceededError = Some 429"
| "own_status_code ModelNotFoundError = Some 404"
| "own_status_code JobNotFoundError = Some 404"
| "own_status_code InferenceError = Some 500"
| "own_status_code ModelUnavailableError = Some 503"
| "own_status_code ServiceUnavailableError = Some 503"
| "own_status_code _ = None"

fun class_code :: "exc_class \<Rightarrow> string" where
  "class_code APIError = ''internal_error''"
| "class_code ValidationError = ''validation_error''"
| "class_code InvalidImageError = ''invalid_image''"
| "class_code UnsupportedFormatError = ''unsupported_format''"
| "class_code PayloadTooLargeError = ''payload_too_large''"
| "class_code BatchTooLargeError = ''batch_too_large''"
| "class_code AuthenticationError = ''authentication_required''"
| "class_code AuthorizationError = ''forbidden''"
| "class_code RateLimitExceededError = ''rate_limit_exceeded''"
| "class_code ModelNotFoundError = ''model_not_found''"
| "class_code JobNotFoundError = ''job_not_found''"
| "class_code InferenceError = ''inference_failed''"
| "class_code ModelUnavailableError = ''model_unavailable''"
| "class_code ServiceUnavailableError = ''service_unavailable''"

fun class_message :: "exc_class \<Rightarrow> string" where
  "class_message APIError = ''An internal error occurred.''"
| "class_message ValidationError = ''The request could not be processed.''"
| "class_message InvalidImageError = ''The uploaded file is not a valid image.''"
| "class_message UnsupportedFormatError = ''The image format is not supported.''"
| "class_message PayloadTooLargeError = ''The uploaded file is too large.''"
| "class_message BatchTooLargeError = ''The batch exceeds the maximum permitted size.''"
| "class_message AuthenticationError = ''Valid authentication credentials are required.''"
| "class_message AuthorizationError = ''You do not have permission to perform this action.''"
| "class_message RateLimitExceededError = ''Rate limit exceeded. Please retry later.''"
| "class_message ModelNotFoundError = ''The requested model is not available.''"
| "class_message JobNotFoundError = ''The requested job was not found.''"
| "class_message InferenceError = ''Inference failed. The request was not processed.''"
| "class_message ModelUnavailableError = ''The model is temporarily unavailable. Please retry.''"
| "class_message ServiceUnavailableError = ''A required service is temporarily unavailable.''"

text \<open>\<open>cls.status_code\<close>: the class's own value or that of its base.\<close>

definition class_status :: "exc_class \<Rightarrow> int" where
  "class_status c =
     (case own_status_code c of
        Some s \<Rightarrow> s
      | None \<Rightarrow> (case own_status_code (exc_base c) of Some s \<Rightarrow> s | None \<Rightarrow> 500))"

record api_error =
  err_class :: exc_class
  err_message :: string
  err_details :: "(string, pyval) dict"
  err_code :: string
  err_status :: int
  err_retry_after :: "int option"

text \<open>\<open>APIError.__init__\<close>. An empty message is falsy, so the class message replaces it; an absent
  \<open>details\<close> becomes the empty dictionary; code and status are overridden only when given.\<close>

definition api_error_init ::
  "exc_class \<Rightarrow> string option \<Rightarrow> (string, pyval) dict option \<Rightarrow> string option \<Rightarrow> int option
   \<Rightarrow> api_error" where
  "api_error_init c msg details code status =
     \<lparr>err_class = c,
      err_message = (case py_or_str msg (Some (class_message c)) of Some m \<Rightarrow> m | None \<Rightarrow> []),
      err_details = (case details of Some d \<Rightarrow> d | None \<Rightarrow> []),
      err_code = (case code of Some k \<Rightarrow> k | None \<Rightarrow> class_code c),
      err_status = (case status of Some s \<Rightarrow> s | None \<Rightarrow> class_status c),
      err_retry_after = None\<rparr>"

text \<open>\<open>RateLimitExceededError.__init__\<close>: the limit and the retry delay first, then whatever
  details the caller passed (\<open>dict.update\<close>).\<close>

fun dict_update :: "('k, 'v) dict \<Rightarrow> ('k, 'v) dict \<Rightarrow> ('k, 'v) dict" where
  "dict_update d [] = d"
| "dict_update d ((k, v) # kvs) = dict_update (dict_set k v d) kvs"

definition rate_limit_error_init ::
  "string option \<Rightarrow> int \<Rightarrow> int \<Rightarrow> (string, pyval) dict \<Rightarrow> api_error" where
  "rate_limit_error_init msg retry_after_seconds limit extra =
     (api_error_init RateLimitExceededError msg
        (Some (dict_update
                 [(''limit_per_minute'', PInt limit), (''retry_after_seconds'', PInt retry_after_seconds)]
                 extra))
        None None)
     \<lparr>err_retry_after := Some retry_after_seconds\<rparr>"

text \<open>\<open>APIError.to_dict\<close>.\<close>

definition error_to_dict :: "api_error \<Rightarrow> string option \<Rightarrow> pyval" where
  "error_to_dict e correlation_id =
     PDict [(''error'', PDict (
       [(''code'', PStr (err_code e)), (''message'', PStr (err_message e))]
       @ (if err_details e = [] then [] else [(''details'', PDict (err_details e))])
       @ (case correlation_id of
            Some c \<Rightarrow> if c = [] then [] else [(''correlation_id'', PStr c)]
          | None \<Rightarrow> [])))]"

text \<open>What modelled code may raise. The string of a non-application exception is its \<open>str\<close>.\<close>

datatype exn = ApiExc api_error | PyExc string string

type_synonym 'a result = "exn + 'a"

abbreviation raise_api :: "exc_class \<Rightarrow> string \<Rightarrow> (string, pyval) dict \<Rightarrow> 'a result" where
  "raise_api c msg details \<equiv> Inl (ApiExc (api_error_init c (Some msg) (Some details) None None))"

fun exn_type_name :: "exn \<Rightarrow> string" where
  "exn_type_name (PyExc t m) = t"
| "exn_type_name (ApiExc e) =
     (case err_class e of
        APIError \<Rightarrow> ''APIError''
      | ValidationError \<Rightarrow> ''ValidationError''
      | InvalidImageError \<Rightarrow> ''InvalidImageError''
      | UnsupportedFormatError \<Rightarrow> ''UnsupportedFormatError''
      | PayloadTooLargeError \<Rightarrow> ''PayloadTooLargeError''
      | BatchTooLargeError \<Rightarrow> ''BatchTooLargeError''
      | AuthenticationError \<Rightarrow> ''AuthenticationError''
      | AuthorizationError \<Rightarrow> ''AuthorizationError''
      | RateLimitExceededError \<Rightarrow> ''RateLimitExceededError''
      | ModelNotFoundError \<Rightarrow> ''ModelNotFoundError''
      | JobNotFoundError \<Rightarrow> ''JobNotFoundError''
      | InferenceError \<Rightarrow> ''InferenceError''
      | ModelUnavailableError \<Rightarrow> ''ModelUnavailableError''
      | ServiceUnavailableError \<Rightarrow> ''ServiceUnavailableError'')"

fun exn_str :: "exn \<Rightarrow> string" where
  "exn_str (PyExc t m) = m"
| "exn_str (ApiExc e) = err_message e"

text \<open>\<open>isinstance(exc, APIError)\<close> and the status of a raised application error.\<close>

fun is_api_exc :: "exn \<Rightarrow> bool" where
  "is_api_exc (ApiExc e) = True"
| "is_api_exc (PyExc t m) = False"

fun exn_is :: "exc_class \<Rightarrow> exn \<Rightarrow> bool" where
  "exn_is c (ApiExc e) = (err_class e = c)"
| "exn_is c (PyExc t m) = False"

section \<open>Facts\<close>

lemma api_error_init_class [simp]: "err_class (api_error_init c m d k s) = c"
  by (simp add: api_error_init_def)

lemma api_error_init_default_status [simp]:
  "err_status (api_error_init c m d k None) = class_status c"
  by (simp add: api_error_init_def)

lemma api_error_init_default_code [simp]: "err_code (api_error_init c m d None s) = class_code c"
  by (simp add: api_error_init_def)

lemma api_error_init_retry [simp]: "err_retry_after (api_error_init c m d k s) = None"
  by (simp add: api_error_init_def)

lemma api_error_init_details [simp]: "err_details (api_error_init c m (Some d) k s) = d"
  by (simp add: api_error_init_def)

lemma class_message_nonempty [simp]: "class_message c \<noteq> []"
  by (cases c) auto

lemma api_error_init_message_nonempty: "err_message (api_error_init c m d k s) \<noteq> []"
  by (auto simp: api_error_init_def py_or_str_def split: option.splits)

lemma class_code_inject: "class_code c = class_code c' \<longleftrightarrow> c = c'"
  by (cases c; cases c') simp_all

lemma dict_get_dict_update:
  "dict_get (dict_update d kvs) k = (case dict_get (rev kvs) k of Some v \<Rightarrow> Some v | None \<Rightarrow> dict_get d k)"
proof (induction kvs arbitrary: d)
  case Nil
  then show ?case by simp
next
  case (Cons p kvs)
  then show ?case by (cases p) (auto simp: dict_simps map_add_def split: option.splits)
qed

definition caller_error :: "exc_class \<Rightarrow> bool" where
  "caller_error c \<longleftrightarrow> c \<notin> {APIError, InferenceError, ModelUnavailableError, ServiceUnavailableError}"

text \<open>
  Error contract of the whole hierarchy: the machine-readable code identifies the exception
  class (no two classes share one), the status found by class-attribute lookup is a client error
  for exactly the caller-error classes and a server error for the others, and an error built
  with any constructor arguments renders a body with its code and a message that is never empty,
  and with details and correlation id exactly when there are any.
\<close>

theorem error_contract:
  "inj class_code
   \<and> (\<forall>c. if caller_error c then 400 \<le> class_status c \<and> class_status c < 500
          else 500 \<le> class_status c \<and> class_status c < 600)
   \<and> (\<forall>c msg details cid. \<exists>body.
        error_to_dict (api_error_init c msg details None None) cid = PDict [(''error'', PDict body)]
        \<and> dict_get body ''code'' = Some (PStr (class_code c))
        \<and> (\<exists>m. m \<noteq> [] \<and> dict_get body ''message'' = Some (PStr m))
        \<and> (dict_get body ''details'' \<noteq> None \<longleftrightarrow> details \<notin> {None, Some []})
        \<and> (dict_get body ''correlation_id'' \<noteq> None \<longleftrightarrow> cid \<notin> {None, Some []}))"
proof (intro conjI allI)
  show "inj class_code" by (simp add: inj_def class_code_inject)
next
  fix c
  show "if caller_error c then 400 \<le> class_status c \<and> class_status c < 500
        else 500 \<le> class_status c \<and> class_status c < 600"
    by (cases c) (simp_all add: caller_error_def class_status_def)
next
  fix c and msg cid :: "string option" and details :: "(string, pyval) dict option"
  let ?e = "api_error_init c msg details None None"
  show "\<exists>body. error_to_dict ?e cid = PDict [(''error'', PDict body)]
        \<and> dict_get body ''code'' = Some (PStr (class_code c))
        \<and> (\<exists>m. m \<noteq> [] \<and> dict_get body ''message'' = Some (PStr m))
        \<and> (dict_get body ''details'' \<noteq> None \<longleftrightarrow> details \<notin> {None, Some []})
        \<and> (dict_get body ''correlation_id'' \<noteq> None \<longleftrightarrow> cid \<notin> {None, Some []})"
    using api_error_init_message_nonempty [of c msg details None None]
    by (auto simp: error_to_dict_def api_error_init_def split: option.splits)
qed

end
