(* ===== verification/Config.thy ===== *)
theory Config
  imports Api_Errors
begin

text \<open>
  Application settings (\<open>api/config.py\<close>): the enumerations, the settings record, the derived
  properties and the two model validators that run when settings are built. The random signing
  key substituted outside production is an argument of the validator.
\<close>

datatype app_env_t = DEVELOPMENT | STAGING | PRODUCTION

datatype user_tier = FREE | PRO | ENTERPRISE

datatype backend = TORCH | ONNX | ONNX_INT8 | TENSORRT

fun app_env_value :: "app_env_t \<Rightarrow> string" where
  "app_env_value DEVELOPMENT = ''development''"
| "app_env_value STAGING = ''staging''"
| "app_env_value PRODUCTION = ''production''"

fun tier_value :: "user_tier \<Rightarrow> string" where
  "tier_value FREE = ''free''"
| "tier_value PRO = ''pro''"
| "tier_value ENTERPRISE = ''enterprise''"

fun backend_value :: "backend \<Rightarrow> string" where
  "backend_value TORCH = ''torch''"
| "backend_value ONNX = ''onnx''"
| "backend_value ONNX_INT8 = ''onnx-int8''"
| "backend_value TENSORRT = ''tensorrt''"

text \<open>\<open>UserTier(value)\<close>: construction from a string, \<open>None\<close> where the enum raises \<open>ValueError\<close>.\<close>

definition tier_of_value :: "string \<Rightarrow> user_tier option" where
  "tier_of_value s = find (\<lambda>t. tier_value t = s) [FREE, PRO, ENTERPRISE]"

definition placeholder_secret :: string where
  "placeholder_secret = ''CHANGE_ME_generate_with_openssl_rand_hex_32''"

definition dev_default_db_password :: string where
  "dev_default_db_password = ''mlapi''"

record settings =
  app_env :: app_env_t
  log_level :: string
  log_format :: string
  api_v1_prefix :: string
  jwt_secret_key :: string
  jwt_algorithm :: string
  jwt_access_token_ttl_seconds :: int
  postgres_user :: string
  postgres_password :: string
  postgres_db :: string
  postgres_host :: string
  postgres_port :: int
  redis_host :: string
  redis_port :: int
  redis_db :: int
  cache_ttl_seconds :: int
  celery_broker_url :: string
  celery_result_backend :: string
  artifacts_dir :: "string list"
  inference_backend :: backend
  enable_graceful_degradation :: bool
  allow_backend_override :: bool
  max_upload_bytes :: int
  max_image_pixels :: int
  max_batch_size :: int
  rate_limit_free_rpm :: int
  rate_limit_pro_rpm :: int
  rate_limit_enterprise_rpm :: int

definition default_settings :: settings where
  "default_settings =
     \<lparr>app_env = DEVELOPMENT,
      log_level = ''INFO'',
      log_format = ''json'',
      api_v1_prefix = ''/api/v1'',
      jwt_secret_key = placeholder_secret,
      jwt_algorithm = ''HS256'',
      jwt_access_token_ttl_seconds = 3600,
      postgres_user = ''mlapi'',
      postgres_password = dev_default_db_password,
      postgres_db = ''mlapi'',
      postgres_host = ''postgres'',
      postgres_port = 5432,
      redis_host = ''redis'',
      redis_port = 6379,
      redis_db = 0,
      cache_ttl_seconds = 3600,
      celery_broker_url = ''redis://redis:6379/1'',
      celery_result_backend = ''redis://redis:6379/2'',
      artifacts_dir = [''models'', ''artifacts''],
      inference_backend = ONNX,
      enable_graceful_degradation = True,
      allow_backend_override = False,
      max_upload_bytes = 10 * 1024 * 1024,
      max_image_pixels = 89478485,
      max_batch_size = 64,
      rate_limit_free_rpm = 10,
      rate_limit_pro_rpm = 120,
      rate_limit_enterprise_rpm = 1200\<rparr>"

definition is_production :: "settings \<Rightarrow> bool" where
  "is_production s \<longleftrightarrow> app_env s = PRODUCTION"

definition database_url :: "settings \<Rightarrow> string" where
  "database_url s =
     ''postgresql+asyncpg://'' @ postgres_user s @ '':'' @ postgres_password s
     @ ''@'' @ postgres_host s @ '':'' @ show_int (postgres_port s) @ ''/'' @ postgres_db s"

definition sync_database_url :: "settings \<Rightarrow> string" where
  "sync_database_url s =
     ''postgresql+psycopg://'' @ postgres_user s @ '':'' @ postgres_password s
     @ ''@'' @ postgres_host s @ '':'' @ show_int (postgres_port s) @ ''/'' @ postgres_db s"

definition redis_url :: "settings \<Rightarrow> string" where
  "redis_url s =
     ''redis://'' @ redis_host s @ '':'' @ show_int (redis_port s) @ ''/'' @ show_int (redis_db s)"

fun rate_limit_for :: "settings \<Rightarrow> user_tier \<Rightarrow> int" where
  "rate_limit_for s FREE = rate_limit_free_rpm s"
| "rate_limit_for s PRO = rate_limit_pro_rpm s"
| "rate_limit_for s ENTERPRISE = rate_limit_enterprise_rpm s"

text \<open>\<open>Settings._reject_insecure_defaults\<close>; \<open>fresh\<close> is \<open>secrets.token_hex(32)\<close>.\<close>

definition reject_insecure_defaults :: "string \<Rightarrow> settings \<Rightarrow> settings result" where
  "reject_insecure_defaults fresh s =
     (if is_production s then
        (let insecure =
               (if jwt_secret_key s = placeholder_secret
                then [''JWT_SECRET_KEY (generate with `openssl rand -hex 32`)''] else [])
               @ (if postgres_password s = dev_default_db_password
                  then [''POSTGRES_PASSWORD (still the development default)''] else [])
         in if insecure \<noteq> []
            then Inl (PyExc ''ValueError''
                   (''Refusing to start in production with insecure defaults: ''
                    @ join ''; '' insecure @ ''. Inject real values via the secret store.''))
            else Inr s)
      else if jwt_secret_key s = placeholder_secret then Inr (s\<lparr>jwt_secret_key := fresh\<rparr>)
      else Inr s)"

text \<open>\<open>Settings._validate_limits\<close>.\<close>

definition validate_limits :: "settings \<Rightarrow> settings result" where
  "validate_limits s =
     (if max_batch_size s < 1 then Inl (PyExc ''ValueError'' ''MAX_BATCH_SIZE must be at least 1'')
      else if max_upload_bytes s < 1024
      then Inl (PyExc ''ValueError'' ''MAX_UPLOAD_BYTES must be at least 1 KiB'')
      else Inr s)"

text \<open>Construction of a settings object runs the validators in their order of declaration.\<close>

definition build_settings :: "string \<Rightarrow> settings \<Rightarrow> settings result" where
  "build_settings fresh s = res_bind (reject_insecure_defaults fresh s) validate_limits"

section \<open>Facts\<close>

lemma tier_of_value_value [simp]: "tier_of_value (tier_value t) = Some t"
  by (cases t) (simp_all add: tier_of_value_def)

lemma tier_of_value_Some: "tier_of_value s = Some t \<Longrightarrow> s = tier_value t"
  by (auto simp: tier_of_value_def split: if_splits)

lemma tier_value_inject: "tier_value a = tier_value b \<longleftrightarrow> a = b"
  by (cases a; cases b) simp_all

lemma backend_value_inject: "backend_value a = backend_value b \<longleftrightarrow> a = b"
  by (cases a; cases b) simp_all

lemma backend_value_sep_free [simp]: "sep_free CHR '':'' (backend_value b)"
  by (cases b) (simp_all add: sep_free_def)

lemma tier_value_sep_free [simp]: "sep_free CHR '':'' (tier_value t)"
  by (cases t) (simp_all add: sep_free_def)

lemma validate_limits_Inr: "validate_limits s = Inr t \<longleftrightarrow> t = s \<and> 1 \<le> max_batch_size s \<and> 1024 \<le> max_upload_bytes s"
  by (auto simp: validate_limits_def)

lemma reject_insecure_Inr:
  "reject_insecure_defaults fresh s = Inr t \<Longrightarrow>
   (if is_production s then t = s \<and> jwt_secret_key s \<noteq> placeholder_secret
      \<and> postgres_password s \<noteq> dev_default_db_password
    else t = (if jwt_secret_key s = placeholder_secret then s\<lparr>jwt_secret_key := fresh\<rparr> else s))"
  by (auto simp: reject_insecure_defaults_def Let_def split: if_splits)

lemma build_settings_Inl_iff:
  "(\<exists>e. build_settings fresh s = Inl e) \<longleftrightarrow>
     (is_production s \<and> (jwt_secret_key s = placeholder_secret
                           \<or> postgres_password s = dev_default_db_password))
     \<or> max_batch_size s < 1 \<or> max_upload_bytes s < 1024"
  by (auto simp: build_settings_def reject_insecure_defaults_def validate_limits_def Let_def)

text \<open>
  Settings validation, on every branch. Construction fails exactly when a production
  configuration still carries the placeholder signing key or the development database password,
  or a limit is out of range; and every settings object that is built is safe to run with: it
  never signs with the placeholder key (outside production it has been replaced by the fresh
  random one), a production one has its own database password, and the limits are positive.
\<close>

theorem build_settings_secure:
  assumes "fresh \<noteq> placeholder_secret"
  shows "((\<exists>e. build_settings fresh s = Inl e) \<longleftrightarrow>
       (is_production s \<and> (jwt_secret_key s = placeholder_secret
                             \<or> postgres_password s = dev_default_db_password))
       \<or> max_batch_size s < 1 \<or> max_upload_bytes s < 1024)
    \<and> (\<forall>t. build_settings fresh s = Inr t \<longrightarrow>
         jwt_secret_key t \<noteq> placeholder_secret
         \<and> (is_production t \<longrightarrow> postgres_password t \<noteq> dev_default_db_password)
         \<and> is_production t = is_production s
         \<and> 1 \<le> max_batch_size t \<and> 1024 \<le> max_upload_bytes t)"
proof (intro conjI allI impI build_settings_Inl_iff)
  fix t assume "build_settings fresh s = Inr t"
  then obtain u where u: "reject_insecure_defaults fresh s = Inr u" "validate_limits u = Inr t"
    by (auto simp: build_settings_def res_bind_Inr_iff)
  note facts = reject_insecure_Inr [OF u(1)] u(2) [unfolded validate_limits_Inr] assms
  show "jwt_secret_key t \<noteq> placeholder_secret"
    and "is_production t = is_production s"
    and "1 \<le> max_batch_size t" and "1024 \<le> max_upload_bytes t"
    using facts by (auto simp: is_production_def split: if_splits)
  assume "is_production t"
  then show "postgres_password t \<noteq> dev_default_db_password"
    using facts by (auto simp: is_production_def split: if_splits)
qed

theorem build_settings_secure_witness:
  "build_settings ''deadbeef'' default_settings = Inr (default_settings\<lparr>jwt_secret_key := ''deadbeef''\<rparr>)
    \<and> jwt_secret_key (default_settings\<lparr>jwt_secret_key := ''deadbeef''\<rparr>) \<noteq> placeholder_secret
    \<and> (\<exists>e. build_settings ''deadbeef'' (default_settings\<lparr>app_env := PRODUCTION\<rparr>) = Inl e)"
proof -
  let ?t = "default_settings\<lparr>jwt_secret_key := ''deadbeef''\<rparr>"
  have f: "''deadbeef'' \<noteq> placeholder_secret" by (simp add: placeholder_secret_def)
  have b: "build_settings ''deadbeef'' default_settings = Inr ?t"
    by (simp add: build_settings_def reject_insecure_defaults_def validate_limits_def
        is_production_def default_settings_def)
  have p: "is_production (default_settings\<lparr>app_env := PRODUCTION\<rparr>)
      \<and> jwt_secret_key (default_settings\<lparr>app_env := PRODUCTION\<rparr>) = placeholder_secret"
    by (simp add: is_production_def default_settings_def)
  show ?thesis
    using build_settings_secure [OF f, of default_settings] b
      build_settings_secure [OF f, of "default_settings\<lparr>app_env := PRODUCTION\<rparr>"] p by blast
qed

end
