(* ===== verification/Validators.thy ===== *)
theory Validators
  imports Config
begin

text \<open>
  Upload validation (\<open>api/utils/validators.py\<close>). Pillow's header parser is not part of the
  repository: \<open>pil_header\<close> is the parameter that stands for opening the bytes and reading format,
  size and mode, with its three kinds of failure. The checks, their order and the error each
  of them raises are the code's.
\<close>

datatype pil_error = UnidentifiedImageError | DecompressionBombError | OtherPilError string

record pil_header_info =
  hdr_format :: "string option"
  hdr_width :: int
  hdr_height :: int
  hdr_mode :: string

type_synonym pil_open = "bytes \<Rightarrow> pil_error + pil_header_info"

definition supported_formats :: "string list" where
  "supported_formats = [''BMP'', ''JPEG'', ''PNG'', ''WEBP'']"

definition min_dimension :: int where
  "min_dimension = 16"

definition max_dimension :: int where
  "max_dimension = 10000"

record image_metadata =
  im_format :: string
  im_width :: int
  im_height :: int
  im_mode :: string
  im_size_bytes :: int

definition im_pixels :: "image_metadata \<Rightarrow> int" where
  "im_pixels m = im_width m * im_height m"

text \<open>\<open>str.upper\<close> on the ASCII letters, and \<open>f\"{n:,}\"\<close>.\<close>

definition upper_char :: "char \<Rightarrow> char" where
  "upper_char c = (let n = of_char c :: nat in if 97 \<le> n \<and> n \<le> 122 then char_of (n - 32) else c)"

definition to_upper :: "string \<Rightarrow> string" where
  "to_upper s = map upper_char s"

fun group3 :: "string \<Rightarrow> string" where
  "group3 (a # b # c # d # s) = a # b # c # CHR '','' # group3 (d # s)"
| "group3 s = s"

definition fmt_commas :: "int \<Rightarrow> string" where
  "fmt_commas i = (if i < 0 then ''-'' else []) @ rev (group3 (rev (show_nat (nat \<bar>i\<bar>))))"

definition mib :: "int \<Rightarrow> string" where
  "mib n = fmt_fixed 1 (of_int n / 1024 / 1024)"

definition validate_upload_size :: "bytes \<Rightarrow> int \<Rightarrow> unit result" where
  "validate_upload_size data max_bytes =
     (if int (length data) > max_bytes
      then raise_api PayloadTooLargeError
             (''Upload is '' @ mib (int (length data)) @ '' MiB, which exceeds the ''
              @ mib max_bytes @ '' MiB limit.'')
             [(''size_bytes'', PInt (int (length data))), (''max_bytes'', PInt max_bytes)]
      else if data = [] then raise_api InvalidImageError ''The uploaded file is empty.'' []
      else Inr ())"

definition inspect_image :: "pil_open \<Rightarrow> bytes \<Rightarrow> image_metadata result" where
  "inspect_image pil_header data =
     (case pil_header data of
        Inl UnidentifiedImageError \<Rightarrow>
          raise_api InvalidImageError ''The uploaded file could not be identified as an image.'' []
      | Inl DecompressionBombError \<Rightarrow>
          raise_api InvalidImageError
            ''The image declares dimensions large enough to be a decompression bomb.'' []
      | Inl (OtherPilError msg) \<Rightarrow>
          raise_api InvalidImageError ''The uploaded file could not be read as an image.'' []
      | Inr h \<Rightarrow>
          Inr \<lparr>im_format = (case hdr_format h of Some f \<Rightarrow> to_upper f | None \<Rightarrow> []),
               im_width = hdr_width h, im_height = hdr_height h, im_mode = hdr_mode h,
               im_size_bytes = int (length data)\<rparr>)"

definition validate_format :: "image_metadata \<Rightarrow> unit result" where
  "validate_format m =
     (if im_format m \<notin> set supported_formats
      then raise_api UnsupportedFormatError
             (''Format '' @ (if im_format m = [] then ''unknown'' else im_format m) @ '' is not supported.'')
             [(''detected_format'', if im_format m = [] then PNone else PStr (im_format m)),
              (''supported_formats'', PList (map PStr (sort supported_formats)))]
      else Inr ())"

definition dims_text :: "int \<Rightarrow> int \<Rightarrow> string" where
  "dims_text w h = show_int w @ ''x'' @ show_int h"

definition validate_dimensions :: "image_metadata \<Rightarrow> int \<Rightarrow> unit result" where
  "validate_dimensions m max_pixels =
     (if im_width m < min_dimension \<or> im_height m < min_dimension
      then raise_api InvalidImageError
             (''Image is '' @ dims_text (im_width m) (im_height m) @ ''; the minimum is ''
              @ dims_text min_dimension min_dimension @ ''.'')
             [(''width'', PInt (im_width m)), (''height'', PInt (im_height m))]
      else if im_width m > max_dimension \<or> im_height m > max_dimension
      then raise_api InvalidImageError
             (''Image is '' @ dims_text (im_width m) (im_height m) @ ''; the maximum edge length is ''
              @ show_int max_dimension @ ''.'')
             [(''width'', PInt (im_width m)), (''height'', PInt (im_height m))]
      else if im_pixels m > max_pixels
      then raise_api InvalidImageError
             (''Image has '' @ fmt_commas (im_pixels m) @ '' pixels, exceeding the ''
              @ fmt_commas max_pixels @ '' pixel limit.'')
             [(''pixels'', PInt (im_pixels m)), (''max_pixels'', PInt max_pixels)]
      else Inr ())"

definition validate_image_upload ::
  "pil_open \<Rightarrow> bytes \<Rightarrow> int \<Rightarrow> int \<Rightarrow> image_metadata result" where
  "validate_image_upload pil_header data max_bytes max_pixels =
     res_bind (validate_upload_size data max_bytes) (\<lambda>_.
     res_bind (inspect_image pil_header data) (\<lambda>metadata.
     res_bind (validate_format metadata) (\<lambda>_.
     res_bind (validate_dimensions metadata max_pixels) (\<lambda>_.
     Inr metadata))))"

section \<open>Facts\<close>

definition upload_acceptable :: "image_metadata \<Rightarrow> int \<Rightarrow> int \<Rightarrow> bool" where
  "upload_acceptable m max_bytes max_pixels \<longleftrightarrow>
     0 < im_size_bytes m \<and> im_size_bytes m \<le> max_bytes
     \<and> im_format m \<in> set supported_formats
     \<and> min_dimension \<le> im_width m \<and> im_width m \<le> max_dimension
     \<and> min_dimension \<le> im_height m \<and> im_height m \<le> max_dimension
     \<and> im_pixels m \<le> max_pixels"

lemma inspect_image_Inr:
  "inspect_image p data = Inr m \<longleftrightarrow>
     (\<exists>h. p data = Inr h \<and> m = \<lparr>im_format = (case hdr_format h of Some f \<Rightarrow> to_upper f | None \<Rightarrow> []),
        im_width = hdr_width h, im_height = hdr_height h, im_mode = hdr_mode h,
        im_size_bytes = int (length data)\<rparr>)"
  by (auto simp: inspect_image_def split: sum.splits pil_error.splits)

lemma inspect_image_size: "inspect_image p data = Inr m \<Longrightarrow> im_size_bytes m = int (length data)"
  by (auto simp: inspect_image_Inr)

lemma validate_Inr_iff:
  "validate_image_upload p data max_bytes max_pixels = Inr m \<longleftrightarrow>
     inspect_image p data = Inr m \<and> upload_acceptable m max_bytes max_pixels"
proof -
  have "validate_upload_size data max_bytes = Inr () \<longleftrightarrow> data \<noteq> [] \<and> int (length data) \<le> max_bytes"
    by (auto simp: validate_upload_size_def)
  moreover have "validate_format m = Inr () \<longleftrightarrow> im_format m \<in> set supported_formats"
    by (auto simp: validate_format_def)
  moreover have "validate_dimensions m max_pixels = Inr () \<longleftrightarrow>
     min_dimension \<le> im_width m \<and> im_width m \<le> max_dimension
     \<and> min_dimension \<le> im_height m \<and> im_height m \<le> max_dimension \<and> im_pixels m \<le> max_pixels"
    by (auto simp: validate_dimensions_def)
  ultimately show ?thesis
    by (auto simp: validate_image_upload_def res_bind_Inr_iff upload_acceptable_def
        dest: inspect_image_size)
qed

lemma validate_size_first:
  "int (length data) > max_bytes \<or> data = [] \<Longrightarrow>
   validate_image_upload p data max_bytes max_pixels = validate_image_upload q data max_bytes max_pixels"
  by (auto simp: validate_image_upload_def validate_upload_size_def)

lemma validate_upload_size_error:
  "validate_upload_size data mx = Inl e \<Longrightarrow>
   exn_is PayloadTooLargeError e \<or> exn_is InvalidImageError e"
  by (auto simp: validate_upload_size_def split: if_splits)

lemma inspect_image_error: "inspect_image p data = Inl e \<Longrightarrow> exn_is InvalidImageError e"
  by (auto simp: inspect_image_def split: sum.splits pil_error.splits)

lemma validate_format_error: "validate_format m = Inl e \<Longrightarrow> exn_is UnsupportedFormatError e"
  by (auto simp: validate_format_def split: if_splits)

lemma validate_dimensions_error: "validate_dimensions m mx = Inl e \<Longrightarrow> exn_is InvalidImageError e"
  by (auto simp: validate_dimensions_def split: if_splits)

lemma validate_error_class:
  "validate_image_upload p data mb mp = Inl e \<Longrightarrow>
   exn_is PayloadTooLargeError e \<or> exn_is InvalidImageError e \<or> exn_is UnsupportedFormatError e"
  unfolding validate_image_upload_def res_bind_Inl_iff
  using validate_upload_size_error inspect_image_error validate_format_error validate_dimensions_error
  by fastforce

lemma validate_oversized:
  "int (length data) > mb \<Longrightarrow> \<exists>e. validate_image_upload p data mb mp = Inl e \<and> exn_is PayloadTooLargeError e"
  by (auto simp: validate_image_upload_def validate_upload_size_def)

text \<open>
  Upload validation is a sound and complete gate. It accepts an upload exactly when the
  header can be read and the metadata derived from the bytes satisfies every limit, returning
  that metadata; every rejection is one of the three client errors; and an oversized or empty
  upload is rejected without consulting the image parser at all.
\<close>

theorem validate_image_upload_gate:
  "(validate_image_upload p data mb mp = Inr m \<longleftrightarrow>
      inspect_image p data = Inr m \<and> upload_acceptable m mb mp)
   \<and> (\<forall>e. validate_image_upload p data mb mp = Inl e \<longrightarrow>
        exn_is PayloadTooLargeError e \<or> exn_is InvalidImageError e \<or> exn_is UnsupportedFormatError e)
   \<and> (int (length data) > mb \<or> data = [] \<longrightarrow>
        validate_image_upload p data mb mp = validate_image_upload q data mb mp
        \<and> (\<exists>e. validate_image_upload p data mb mp = Inl e))"
proof (intro conjI impI allI)
  show "validate_image_upload p data mb mp = Inr m \<longleftrightarrow>
      inspect_image p data = Inr m \<and> upload_acceptable m mb mp"
    by (rule validate_Inr_iff)
next
  fix e assume "validate_image_upload p data mb mp = Inl e"
  then show "exn_is PayloadTooLargeError e \<or> exn_is InvalidImageError e \<or> exn_is UnsupportedFormatError e"
    by (rule validate_error_class)
next
  assume a: "int (length data) > mb \<or> data = []"
  then show "validate_image_upload p data mb mp = validate_image_upload q data mb mp"
    by (rule validate_size_first)
  show "\<exists>e. validate_image_upload p data mb mp = Inl e"
    using a by (auto simp: validate_image_upload_def validate_upload_size_def)
qed

lemma to_upper_png: "to_upper ''png'' = ''PNG''"
  by code_simp

definition demo_header :: pil_open where
  "demo_header data =
     (if length data < 2 then Inl UnidentifiedImageError
      else Inr \<lparr>hdr_format = Some ''png'', hdr_width = 32, hdr_height = 24, hdr_mode = ''RGB''\<rparr>)"

theorem validate_image_upload_gate_witness:
  "(\<exists>m. validate_image_upload demo_header [1, 2, 3] 10 10000 = Inr m \<and> im_width m = 32
       \<and> upload_acceptable m 10 10000)
   \<and> (\<exists>e. validate_image_upload demo_header [1, 2, 3] 2 10000 = Inl e)"
proof -
  let ?m = "\<lparr>im_format = ''PNG'', im_width = 32, im_height = 24, im_mode = ''RGB'', im_size_bytes = 3\<rparr>"
  have i: "inspect_image demo_header [1, 2, 3] = Inr ?m"
    by (simp add: inspect_image_Inr demo_header_def to_upper_png)
  have a: "upload_acceptable ?m 10 10000"
    by (simp add: upload_acceptable_def supported_formats_def min_dimension_def max_dimension_def im_pixels_def)
  show ?thesis
    using validate_image_upload_gate [of demo_header "[1, 2, 3]" 10 10000 ?m demo_header]
      validate_image_upload_gate [of demo_header "[1, 2, 3]" 2 10000 ?m demo_header] i a by auto
qed

end
