(* ===== verification/Image_Processing.thy ===== *)
theory Image_Processing
  imports Validators
begin

text \<open>
  Inference preprocessing and post-processing arithmetic (\<open>api/utils/image_processing.py\<close>).
  Pillow's images and NumPy's selection routines are parameters: \<open>pil\<close> is the record of the
  image operations the code calls, \<open>argpartition\<close> and \<open>argsort\<close> the two index routines, each
  with its documented contract as a named predicate. Array arithmetic is arithmetic on lists.
\<close>

type_synonym chw = "real list list list"

record preprocess_config =
  pc_image_size :: int
  pc_mean :: "real list"
  pc_std :: "real list"
  pc_crop_ratio :: real

definition imagenet_mean :: "real list" where
  "imagenet_mean = [0.485, 0.456, 0.406]"

definition imagenet_std :: "real list" where
  "imagenet_std = [0.229, 0.224, 0.225]"

definition crop_ratio :: real where
  "crop_ratio = 0.875"

definition default_preprocess :: "int \<Rightarrow> preprocess_config" where
  "default_preprocess sz =
     \<lparr>pc_image_size = sz, pc_mean = imagenet_mean, pc_std = imagenet_std, pc_crop_ratio = crop_ratio\<rparr>"

text \<open>The Pillow operations; \<open>'i\<close> is the image type, pixels are rows of channel values.\<close>

record 'i pil =
  pil_open_image :: "bytes \<Rightarrow> 'i result"
  pil_mode :: "'i \<Rightarrow> string"
  pil_convert :: "'i \<Rightarrow> string \<Rightarrow> 'i result"
  pil_size :: "'i \<Rightarrow> int \<times> int"
  pil_resize :: "'i \<Rightarrow> int \<times> int \<Rightarrow> 'i result"
  pil_crop :: "'i \<Rightarrow> int \<times> int \<times> int \<times> int \<Rightarrow> 'i"
  pil_pixels :: "'i \<Rightarrow> real list list list"

definition decode_image :: "'i pil \<Rightarrow> bytes \<Rightarrow> 'i result" where
  "decode_image P data =
     res_bind (pil_open_image P data) (\<lambda>opened.
       if pil_mode P opened \<noteq> ''RGB'' then pil_convert P opened ''RGB'' else Inr opened)"

text \<open>The size computed by \<open>resize_short_edge\<close>: the shorter edge becomes \<open>target\<close>.\<close>

definition short_edge_size :: "int \<times> int \<Rightarrow> int \<Rightarrow> int \<times> int" where
  "short_edge_size wh target =
     (case wh of (width, height) \<Rightarrow>
       if width \<le> height
       then (target, max 1 (round_half_even (of_int (height * target) / of_int width)))
       else (max 1 (round_half_even (of_int (width * target) / of_int height)), target))"

definition resize_short_edge :: "'i pil \<Rightarrow> 'i \<Rightarrow> int \<Rightarrow> 'i result" where
  "resize_short_edge P img target = pil_resize P img (short_edge_size (pil_size P img) target)"

definition crop_box :: "int \<times> int \<Rightarrow> int \<Rightarrow> int \<times> int \<times> int \<times> int" where
  "crop_box wh sz =
     (case wh of (width, height) \<Rightarrow>
       let left = round_half_even (of_int (width - sz) / 2);
           top = round_half_even (of_int (height - sz) / 2)
       in (left, top, left + sz, top + sz))"

definition center_crop :: "'i pil \<Rightarrow> 'i \<Rightarrow> int \<Rightarrow> 'i" where
  "center_crop P img sz = pil_crop P img (crop_box (pil_size P img) sz)"

text \<open>HWC pixels in \<open>0..255\<close> to a normalised CHW array.\<close>

definition to_normalised_array :: "real list list list \<Rightarrow> real list \<Rightarrow> real list \<Rightarrow> chw" where
  "to_normalised_array pixels mean std =
     map (\<lambda>c. map (map (\<lambda>px. (px ! c / 255 - mean ! c) / std ! c)) pixels) [0, 1, 2]"

definition preprocess_image :: "'i pil \<Rightarrow> preprocess_config \<Rightarrow> bytes \<Rightarrow> chw result" where
  "preprocess_image P config data =
     res_bind (decode_image P data) (\<lambda>img.
     let resize_target = \<lfloor>of_int (pc_image_size config) / pc_crop_ratio config\<rfloor> in
     res_bind (resize_short_edge P img resize_target) (\<lambda>img.
     let img = center_crop P img (pc_image_size config) in
     Inr (to_normalised_array (pil_pixels P img) (pc_mean config) (pc_std config))))"

text \<open>\<open>np.stack\<close> raises on an empty list (the code checks first) and on ragged shapes.\<close>

definition chw_shape :: "chw \<Rightarrow> nat list list" where
  "chw_shape a = map (map length) a"

definition stack_batch :: "chw list \<Rightarrow> chw list result" where
  "stack_batch arrays =
     (case arrays of
        [] \<Rightarrow> Inl (PyExc ''ValueError'' ''Cannot stack an empty batch'')
      | a # _ \<Rightarrow>
          if list_all (\<lambda>b. chw_shape b = chw_shape a) arrays then Inr arrays
          else Inl (PyExc ''ValueError'' ''all input arrays must have the same shape''))"

fun list_max :: "real list \<Rightarrow> real" where
  "list_max [] = 0"
| "list_max [x] = x"
| "list_max (x # y # ys) = max x (list_max (y # ys))"

definition softmax :: "real list \<Rightarrow> real list" where
  "softmax logits =
     (let m = list_max logits;
          exponentiated = map (\<lambda>x. exp (x - m)) logits
      in map (\<lambda>e. e / sum_list exponentiated) exponentiated)"

text \<open>NumPy's index routines and what the code relies on of them.\<close>

type_synonym argpartition_fn = "real list \<Rightarrow> int \<Rightarrow> nat list"
type_synonym argsort_fn = "real list \<Rightarrow> nat list"

definition argpartition_ok :: "argpartition_fn \<Rightarrow> bool" where
  "argpartition_ok f \<longleftrightarrow>
     (\<forall>xs k. 0 \<le> k \<and> k < int (length xs) \<longrightarrow>
        mset (f xs k) = mset [0..<length xs]
        \<and> (\<forall>a \<in> set (take (Suc (nat k)) (f xs k)). \<forall>b \<in> set (drop (Suc (nat k)) (f xs k)). xs ! a \<le> xs ! b))"

definition argsort_ok :: "argsort_fn \<Rightarrow> bool" where
  "argsort_ok g \<longleftrightarrow>
     (\<forall>xs. mset (g xs) = mset [0..<length xs] \<and> sorted (map (nth xs) (g xs)))"

definition top_k :: "argpartition_fn \<Rightarrow> argsort_fn \<Rightarrow> real list \<Rightarrow> int \<Rightarrow> real list \<times> nat list" where
  "top_k argpartition argsort probabilities k =
     (let k = min k (int (length probabilities));
          indices = take (nat k) (argpartition (map uminus probabilities) (k - 1));
          selected = map (nth probabilities) indices;
          order = argsort (map uminus selected)
      in (map (nth selected) order, map (nth indices) order))"

definition detection_image_size :: int where
  "detection_image_size = 640"

definition preprocess_for_detection :: "'i pil \<Rightarrow> bytes \<Rightarrow> int \<Rightarrow> (chw \<times> int \<times> int) result" where
  "preprocess_for_detection P data sz =
     res_bind (decode_image P data) (\<lambda>img.
     case pil_size P img of (original_width, original_height) \<Rightarrow>
     res_bind (pil_resize P img (sz, sz)) (\<lambda>resized.
     Inr (map (\<lambda>c. map (map (\<lambda>px. px ! c / 255)) (pil_pixels P resized)) [0, 1, 2],
          original_width, original_height)))"

definition np_clip :: "real \<Rightarrow> real \<Rightarrow> real \<Rightarrow> real" where
  "np_clip x lo hi = min hi (max lo x)"

record box =
  box_x0 :: real
  box_y0 :: real
  box_x1 :: real
  box_y1 :: real

text \<open>One row of \<open>boxes_to_absolute\<close>: \<open>(cx, cy, w, h)\<close> normalised to corners in pixels.\<close>

fun box_to_absolute :: "int \<Rightarrow> int \<Rightarrow> real \<times> real \<times> real \<times> real \<Rightarrow> box" where
  "box_to_absolute W H (cx, cy, w, h) =
     \<lparr>box_x0 = np_clip ((cx - w / 2) * of_int W) 0 (of_int W),
      box_y0 = np_clip ((cy - h / 2) * of_int H) 0 (of_int H),
      box_x1 = np_clip ((cx + w / 2) * of_int W) 0 (of_int W),
      box_y1 = np_clip ((cy + h / 2) * of_int H) 0 (of_int H)\<rparr>"

definition boxes_to_absolute ::
  "(real \<times> real \<times> real \<times> real) list \<Rightarrow> int \<Rightarrow> int \<Rightarrow> box list" where
  "boxes_to_absolute boxes W H = map (box_to_absolute W H) boxes"

section \<open>Geometry of the classification pipeline\<close>

definition sub_pixels :: "int \<times> int \<times> int \<times> int \<Rightarrow> 'a list list \<Rightarrow> 'a list list" where
  "sub_pixels b px =
     (case b of (l, t, r, bt) \<Rightarrow>
       map (\<lambda>row. take (nat (r - l)) (drop (nat l) row)) (take (nat (bt - t)) (drop (nat t) px)))"

text \<open>What the code relies on of Pillow: sizes and pixel content of converted, resized and
  cropped images. Cropping is only specified for a box inside the image: outside it Pillow pads
  with black pixels, which the pipeline must never trigger.\<close>

definition pillow_ok :: "'i pil \<Rightarrow> bool" where
  "pillow_ok P \<longleftrightarrow>
     (\<forall>i. 0 < fst (pil_size P i) \<and> 0 < snd (pil_size P i))
     \<and> (\<forall>i m j. pil_convert P i m = Inr j \<longrightarrow> pil_size P j = pil_size P i \<and> pil_mode P j = m)
     \<and> (\<forall>i wh j. pil_resize P i wh = Inr j \<longrightarrow> pil_size P j = wh \<and> pil_mode P j = pil_mode P i)
     \<and> (\<forall>i. length (pil_pixels P i) = nat (snd (pil_size P i))
            \<and> (\<forall>row \<in> set (pil_pixels P i). length row = nat (fst (pil_size P i))))
     \<and> (\<forall>i l t r b. 0 \<le> l \<and> l < r \<and> r \<le> fst (pil_size P i) \<and> 0 \<le> t \<and> t < b \<and> b \<le> snd (pil_size P i)
          \<longrightarrow> pil_pixels P (pil_crop P i (l, t, r, b)) = sub_pixels (l, t, r, b) (pil_pixels P i))"

lemma pillow_okD:
  assumes "pillow_ok P" and "pil_size P i = (w, h)"
  shows "0 < w" and "0 < h" and "length (pil_pixels P i) = nat h"
    and "\<forall>row \<in> set (pil_pixels P i). length row = nat w"
    and "0 \<le> l \<and> l < r \<and> r \<le> w \<and> 0 \<le> t \<and> t < b \<and> b \<le> h \<Longrightarrow>
      pil_pixels P (pil_crop P i (l, t, r, b)) = sub_pixels (l, t, r, b) (pil_pixels P i)"
  using assms unfolding pillow_ok_def by (metis fst_conv, metis snd_conv, metis snd_conv,
      metis fst_conv, simp)

lemma pillow_ok_resize: "pillow_ok P \<Longrightarrow> pil_resize P i wh = Inr j \<Longrightarrow> pil_size P j = wh"
  unfolding pillow_ok_def by blast

lemma resize_target_ge: "1 \<le> s \<Longrightarrow> s \<le> \<lfloor>of_int s / crop_ratio\<rfloor>"
  by (simp add: crop_ratio_def le_floor_iff field_simps)

lemma scaled_edge_ge:
  assumes "0 < w" "w \<le> h" "1 \<le> t"
  shows "t \<le> max 1 (round_half_even (of_int (h * t) / of_int w))"
proof -
  have "w * t \<le> h * t" using assms by (intro mult_right_mono) auto
  then have "(of_int t :: real) \<le> of_int (h * t) / of_int w"
    using assms(1) by (simp add: le_divide_eq ac_simps flip: of_int_mult)
  then have "round_half_even (of_int t) \<le> round_half_even (of_int (h * t) / of_int w)"
    by (rule round_half_even_mono)
  then show ?thesis by simp
qed

lemma short_edge_size_min:
  assumes "0 < w" "0 < h" "1 \<le> t"
  shows "min (fst (short_edge_size (w, h) t)) (snd (short_edge_size (w, h) t)) = t"
  using scaled_edge_ge [of w h t] scaled_edge_ge [of h w t] assms
  by (auto simp: short_edge_size_def)

lemma half_bounds:
  assumes "0 \<le> d"
  shows "0 \<le> round_half_even (of_int d / 2)" and "round_half_even (of_int d / 2) \<le> d"
    and "\<bar>2 * round_half_even (of_int d / 2) - d\<bar> \<le> 1"
proof -
  have near: "\<bar>of_int d / 2 - of_int (round_half_even (of_int d / 2))\<bar> \<le> (1/2 :: real)"
    by (rule round_half_even_near)
  then show c: "\<bar>2 * round_half_even (of_int d / 2) - d\<bar> \<le> 1" by linarith
  show "0 \<le> round_half_even (of_int d / 2)"
    using round_half_even_mono [of 0 "of_int d / 2"] round_half_even_of_int [of 0] assms by simp
  show "round_half_even (of_int d / 2) \<le> d"
  proof (cases "d = 0")
    case True
    then show ?thesis using round_half_even_of_int [of 0] by simp
  next
    case False
    with c assms show ?thesis by linarith
  qed
qed

lemma crop_box_inside:
  assumes "0 < s" "s \<le> w" "s \<le> h" "crop_box (w, h) s = (l, t, r, b)"
  shows "0 \<le> l \<and> l < r \<and> r \<le> w \<and> 0 \<le> t \<and> t < b \<and> b \<le> h \<and> r - l = s \<and> b - t = s
    \<and> \<bar>l - (w - r)\<bar> \<le> 1 \<and> \<bar>t - (h - b)\<bar> \<le> 1"
proof -
  have lt: "l = round_half_even (of_int (w - s) / 2)" "t = round_half_even (of_int (h - s) / 2)"
    "r = l + s" "b = t + s"
    using assms(4) by (auto simp: crop_box_def Let_def)
  show ?thesis
    using half_bounds [of "w - s"] half_bounds [of "h - s"] assms(1,2,3)
    unfolding lt(1,2) [symmetric] lt(3,4) by auto
qed

lemma chw_shape_normalised:
  assumes "length px = n" "\<forall>row \<in> set px. length row = m"
  shows "chw_shape (to_normalised_array px mean std) = replicate 3 (replicate n m)"
proof -
  have "map length px = map (\<lambda>_. m) px"
    using assms(2) by (intro map_cong) auto
  then have "map length px = replicate n m"
    using assms(1) by (simp add: map_replicate_const)
  then have "map length (map (map (\<lambda>p. (p ! c / 255 - mean ! c) / std ! c)) px) = replicate n m" for c
    by (simp add: comp_def)
  then show ?thesis by (simp add: chw_shape_def to_normalised_array_def numeral_3_eq_3)
qed

lemma length_sub_pixels:
  assumes "0 \<le> l" "l < r" "r \<le> w" "0 \<le> t" "t < b" "b \<le> h"
    and "length px = nat h" "\<forall>row \<in> set px. length row = nat w"
  shows "length (sub_pixels (l, t, r, b) px) = nat (b - t)
    \<and> (\<forall>row \<in> set (sub_pixels (l, t, r, b) px). length row = nat (r - l))"
  using assms by (auto simp: sub_pixels_def dest!: in_set_takeD in_set_dropD)

text \<open>
  Geometry of classification preprocessing, for every decodable image and every model input
  size. The resized image contains the crop window entirely, so no padding pixel can enter the
  model input; the window is centred up to one pixel; and the array returned is exactly the
  normalised content of that window, of shape 3 x size x size.
\<close>

theorem preprocess_image_geometry:
  assumes "pillow_ok P" and "1 \<le> sz"
    and "preprocess_image P (default_preprocess sz) data = Inr a"
  shows "\<exists>img resized w h l t.
      decode_image P data = Inr img
    \<and> resize_short_edge P img \<lfloor>of_int sz / crop_ratio\<rfloor> = Inr resized
    \<and> pil_size P resized = (w, h)
    \<and> 0 \<le> l \<and> l + sz \<le> w \<and> 0 \<le> t \<and> t + sz \<le> h
    \<and> \<bar>l - (w - (l + sz))\<bar> \<le> 1 \<and> \<bar>t - (h - (t + sz))\<bar> \<le> 1
    \<and> a = to_normalised_array (sub_pixels (l, t, l + sz, t + sz) (pil_pixels P resized))
            imagenet_mean imagenet_std
    \<and> chw_shape a = replicate 3 (replicate (nat sz) (nat sz))"
proof -
  define target where "target = \<lfloor>of_int sz / crop_ratio\<rfloor>"
  have target: "sz \<le> target" using resize_target_ge [OF assms(2)] by (simp add: target_def)
  obtain img resized where img: "decode_image P data = Inr img"
    and res: "resize_short_edge P img target = Inr resized"
    and a: "a = to_normalised_array (pil_pixels P (center_crop P resized sz)) imagenet_mean imagenet_std"
    using assms(3)
    by (auto simp: preprocess_image_def default_preprocess_def res_bind_Inr_iff target_def Let_def)
  obtain w0 h0 where wh0: "pil_size P img = (w0, h0)" by (cases "pil_size P img")
  note pos = pillow_okD(1,2) [OF assms(1) wh0]
  obtain w h where wh: "short_edge_size (w0, h0) target = (w, h)"
    by (cases "short_edge_size (w0, h0) target")
  have rsz: "pil_size P resized = (w, h)"
    using pillow_ok_resize [OF assms(1)] res wh wh0 by (simp add: resize_short_edge_def)
  have "min w h = target"
    using short_edge_size_min [OF pos, of target] target assms(2) wh by simp
  then have ge: "sz \<le> w" "sz \<le> h" using target by auto
  obtain l t r b where cb: "crop_box (w, h) sz = (l, t, r, b)" by (cases "crop_box (w, h) sz")
  have inside: "0 \<le> l \<and> l < r \<and> r \<le> w \<and> 0 \<le> t \<and> t < b \<and> b \<le> h \<and> r - l = sz \<and> b - t = sz
    \<and> \<bar>l - (w - r)\<bar> \<le> 1 \<and> \<bar>t - (h - b)\<bar> \<le> 1"
    using crop_box_inside [OF _ ge cb] assms(2) by simp
  then have rb: "r = l + sz" "b = t + sz" by auto
  have px: "pil_pixels P (center_crop P resized sz) = sub_pixels (l, t, r, b) (pil_pixels P resized)"
    using pillow_okD(5) [OF assms(1) rsz, of l r t b] inside by (simp add: center_crop_def rsz cb)
  note pxlen = pillow_okD(3,4) [OF assms(1) rsz]
  have "chw_shape a = replicate 3 (replicate (nat sz) (nat sz))"
    unfolding a px
    using length_sub_pixels [OF _ _ _ _ _ _ pxlen, of l r t b] inside
    by (intro chw_shape_normalised) (metis)+
  moreover have "a = to_normalised_array (sub_pixels (l, t, l + sz, t + sz) (pil_pixels P resized))
      imagenet_mean imagenet_std"
    by (simp only: a px rb [symmetric])
  ultimately show ?thesis
    using img res [unfolded target_def] rsz inside [unfolded rb]
    by blast
qed

text \<open>A concrete Pillow for witnesses: uniformly black RGB images, known by their size.\<close>

definition flat_pil :: "(int \<times> int) \<Rightarrow> (int \<times> int) pil" where
  "flat_pil wh =
     \<lparr>pil_open_image = (\<lambda>data. Inr wh),
      pil_mode = (\<lambda>i. ''RGB''),
      pil_convert = (\<lambda>i m. if m = ''RGB'' then Inr i else Inl (PyExc ''ValueError'' m)),
      pil_size = (\<lambda>i. (max 1 (fst i), max 1 (snd i))),
      pil_resize = (\<lambda>i wh. if 1 \<le> fst wh \<and> 1 \<le> snd wh then Inr wh else Inl (PyExc ''ValueError'' [])),
      pil_crop = (\<lambda>i (l, t, r, b). (r - l, b - t)),
      pil_pixels = (\<lambda>i. replicate (nat (max 1 (snd i))) (replicate (nat (max 1 (fst i))) [0, 0, 0]))\<rparr>"

lemma sub_pixels_replicate:
  assumes "0 \<le> l" "l < r" "r \<le> w" "0 \<le> t" "t < b" "b \<le> h"
  shows "sub_pixels (l, t, r, b) (replicate (nat h) (replicate (nat w) x)) =
    replicate (nat (b - t)) (replicate (nat (r - l)) x)"
proof -
  have "min (nat w - nat l) (nat (r - l)) = nat (r - l)" "min (nat h - nat t) (nat (b - t)) = nat (b - t)"
    "min (nat (r - l)) (nat w - nat l) = nat (r - l)" "min (nat (b - t)) (nat h - nat t) = nat (b - t)"
    using assms by linarith+
  then show ?thesis by (simp add: sub_pixels_def)
qed

lemma flat_pil_ok: "pillow_ok (flat_pil wh)"
proof -
  have "sub_pixels (l, t, r, b) (pil_pixels (flat_pil wh) i) = pil_pixels (flat_pil wh) (r - l, b - t)"
    if "0 \<le> l" "l < r" "r \<le> max 1 (fst i)" "0 \<le> t" "t < b" "b \<le> max 1 (snd i)" for i l t r b
    using sub_pixels_replicate [OF that, of "[0, 0, 0]"] that(2,5)
    by (simp add: flat_pil_def max_def)
  then show ?thesis
    unfolding pillow_ok_def by (auto simp: flat_pil_def split: if_splits)
qed

theorem preprocess_image_geometry_witness:
  "\<exists>a. preprocess_image (flat_pil (20, 16)) (default_preprocess 14) [] = Inr a
     \<and> chw_shape a = replicate 3 (replicate 14 14)"
proof -
  let ?P = "flat_pil (20, 16)"
  have e: "\<exists>a. preprocess_image ?P (default_preprocess 14) [] = Inr a"
    by (simp add: preprocess_image_def decode_image_def default_preprocess_def resize_short_edge_def
        short_edge_size_def flat_pil_def crop_ratio_def Let_def round_half_even_def)
  then obtain a where a: "preprocess_image ?P (default_preprocess 14) [] = Inr a" by blast
  show ?thesis using preprocess_image_geometry [OF flat_pil_ok _ a] a by auto
qed

section \<open>Softmax\<close>

lemma list_max_ge: "x \<in> set xs \<Longrightarrow> x \<le> list_max xs"
  by (induction xs rule: list_max.induct) auto

lemma sum_list_pos: "xs \<noteq> [] \<Longrightarrow> (\<And>x. x \<in> set xs \<Longrightarrow> 0 < (x::real)) \<Longrightarrow> 0 < sum_list xs"
  by (induction xs) (auto simp: add_pos_nonneg sum_list_nonneg less_imp_le)

lemma sum_list_divide: "sum_list (map (\<lambda>x. x / c) xs) = sum_list xs / (c::real)"
  by (induction xs) (simp_all add: add_divide_distrib)

lemma length_softmax [simp]: "length (softmax xs) = length xs"
  by (simp add: softmax_def Let_def)

lemma softmax_textbook: "softmax xs = map (\<lambda>x. exp x / (\<Sum>y\<leftarrow>xs. exp y)) xs"
proof -
  let ?m = "list_max xs"
  have s: "(\<Sum>y\<leftarrow>xs. exp (y - ?m)) = (\<Sum>y\<leftarrow>xs. exp y) / exp ?m"
    by (simp add: exp_diff sum_list_divide [of "exp ?m" "map exp xs", unfolded map_map comp_def])
  have "exp (x - ?m) / ((\<Sum>y\<leftarrow>xs. exp y) / exp ?m) = exp x / (\<Sum>y\<leftarrow>xs. exp y)" for x
    by (simp add: exp_diff)
  then show ?thesis by (simp add: softmax_def Let_def s comp_def)
qed

lemma softmax_exponents_bounded:
  "e \<in> set (map (\<lambda>x. exp (x - list_max xs)) xs) \<Longrightarrow> e \<le> 1"
  using list_max_ge by fastforce

lemma exp_sum_pos: "xs \<noteq> [] \<Longrightarrow> 0 < (\<Sum>y\<leftarrow>xs. exp (y::real))"
  by (intro sum_list_pos) auto

lemma softmax_pos: "p \<in> set (softmax xs) \<Longrightarrow> 0 < p"
  using exp_sum_pos [of xs] by (cases "xs = []") (auto simp: softmax_textbook)

lemma softmax_sum: "xs \<noteq> [] \<Longrightarrow> sum_list (softmax xs) = 1"
proof -
  assume ne: "xs \<noteq> []"
  have "0 < (\<Sum>y\<leftarrow>xs. exp y)" using ne by (rule exp_sum_pos)
  moreover have "sum_list (softmax xs) = (\<Sum>y\<leftarrow>xs. exp y) / (\<Sum>y\<leftarrow>xs. exp y)"
    unfolding softmax_textbook
    using sum_list_divide [of "\<Sum>y\<leftarrow>xs. exp y" "map exp xs"] by (simp add: comp_def)
  ultimately show ?thesis by simp
qed

lemma softmax_le_1: "p \<in> set (softmax xs) \<Longrightarrow> p \<le> 1"
proof -
  assume p: "p \<in> set (softmax xs)"
  then have "xs \<noteq> []" by (auto simp: softmax_def Let_def)
  have "p \<le> sum_list (softmax xs)"
    using p by (intro member_le_sum_list) (auto dest: softmax_pos intro: less_imp_le)
  then show ?thesis using softmax_sum [OF \<open>xs \<noteq> []\<close>] by simp
qed

lemma softmax_mono_nth:
  "i < length xs \<Longrightarrow> j < length xs \<Longrightarrow> softmax xs ! i \<le> softmax xs ! j \<longleftrightarrow> xs ! i \<le> xs ! j"
proof -
  assume ij: "i < length xs" "j < length xs"
  have "0 < (\<Sum>y\<leftarrow>xs. exp y)" using ij by (intro exp_sum_pos) auto
  then show ?thesis using ij by (simp add: softmax_textbook divide_le_cancel)
qed

text \<open>
  The stabilised softmax is the textbook softmax: it equals exp x / sum of exp y, it is a
  probability distribution, it ranks classes exactly as the logits do, and no exponential it
  evaluates exceeds one (which is why subtracting the maximum prevents overflow).
\<close>

theorem softmax_correct:
  assumes "logits \<noteq> []"
  shows "softmax logits = map (\<lambda>x. exp x / (\<Sum>y\<leftarrow>logits. exp y)) logits
    \<and> sum_list (softmax logits) = 1
    \<and> (\<forall>p \<in> set (softmax logits). 0 < p \<and> p \<le> 1)
    \<and> (\<forall>i < length logits. \<forall>j < length logits.
         softmax logits ! i \<le> softmax logits ! j \<longleftrightarrow> logits ! i \<le> logits ! j)
    \<and> (\<forall>x \<in> set logits. exp (x - list_max logits) \<le> 1)"
  using softmax_textbook softmax_sum [OF assms] softmax_pos softmax_le_1 softmax_mono_nth
    list_max_ge by auto

theorem softmax_correct_witness:
  "sum_list (softmax [1, 3, 2]) = 1 \<and> softmax [1, 3, 2] ! 0 \<le> softmax [1, 3, 2] ! 2"
proof -
  have ne: "[1, 3, 2 :: real] \<noteq> []" by simp
  note t = softmax_correct [OF ne]
  have "sum_list (softmax [1, 3, 2]) = 1" using t by blast
  moreover have "0 < length [1, 3, 2 :: real]" "2 < length [1, 3, 2 :: real]"
    "[1, 3, 2 :: real] ! 0 \<le> [1, 3, 2] ! 2" by simp_all
  then have "softmax [1, 3, 2] ! 0 \<le> softmax [1, 3, 2] ! 2" using t by blast
  ultimately show ?thesis by blast
qed

section \<open>Top-k selection\<close>

text \<open>Reference index routines: a stable argsort, which also is an argpartition.\<close>

definition ref_argsort :: argsort_fn where
  "ref_argsort xs = sort_key (nth xs) [0..<length xs]"

definition ref_argpartition :: argpartition_fn where
  "ref_argpartition xs k = ref_argsort xs"

lemma ref_argsort_ok: "argsort_ok ref_argsort"
  by (simp add: argsort_ok_def ref_argsort_def)

lemma sorted_map_take_drop:
  assumes "sorted (map f is)" "a \<in> set (take n is)" "b \<in> set (drop n is)"
  shows "f a \<le> f b"
proof -
  have "sorted (map f (take n is @ drop n is))" using assms(1) by simp
  then show ?thesis using assms(2,3) by (auto simp: sorted_append simp del: append_take_drop_id)
qed

lemma ref_argpartition_ok: "argpartition_ok ref_argpartition"
proof -
  have "sorted (map (nth xs) (ref_argsort xs))" for xs
    using ref_argsort_ok by (simp add: argsort_ok_def)
  then show ?thesis
    using ref_argsort_ok
    by (auto simp: argpartition_ok_def argsort_ok_def ref_argpartition_def intro: sorted_map_take_drop)
qed

lemma argsort_okD:
  assumes "argsort_ok g"
  shows "mset (g xs) = mset [0..<length xs]" and "sorted (map (nth xs) (g xs))"
    and "length (g xs) = length xs" and "set (g xs) = {0..<length xs}" and "distinct (g xs)"
proof -
  show m: "mset (g xs) = mset [0..<length xs]" and "sorted (map (nth xs) (g xs))"
    using assms by (auto simp: argsort_ok_def)
  show "length (g xs) = length xs" using arg_cong [OF m, of size] by simp
  show "set (g xs) = {0..<length xs}" using arg_cong [OF m, of set_mset] by simp
  show "distinct (g xs)" using mset_eq_imp_distinct_iff [OF m] by simp
qed

lemma argpartition_okD:
  assumes "argpartition_ok f" "0 \<le> k" "k < int (length xs)"
  shows "length (f xs k) = length xs" and "set (f xs k) = {0..<length xs}" and "distinct (f xs k)"
    and "a \<in> set (take (Suc (nat k)) (f xs k)) \<Longrightarrow> b \<in> set (drop (Suc (nat k)) (f xs k)) \<Longrightarrow> xs ! a \<le> xs ! b"
proof -
  have m: "mset (f xs k) = mset [0..<length xs]" using assms by (auto simp: argpartition_ok_def)
  show "length (f xs k) = length xs" using arg_cong [OF m, of size] by simp
  show "set (f xs k) = {0..<length xs}" using arg_cong [OF m, of set_mset] by simp
  show "distinct (f xs k)" using mset_eq_imp_distinct_iff [OF m] by simp
  show "a \<in> set (take (Suc (nat k)) (f xs k)) \<Longrightarrow> b \<in> set (drop (Suc (nat k)) (f xs k)) \<Longrightarrow> xs ! a \<le> xs ! b"
    using assms unfolding argpartition_ok_def by blast
qed

lemma top_k_spec:
  assumes "argpartition_ok ap" and "argsort_ok as" and "1 \<le> k" and "probs \<noteq> []"
    and "top_k ap as probs k = (scores, ids)"
  shows "length ids = min (nat k) (length probs) \<and> distinct ids \<and> set ids \<subseteq> {0..<length probs}
    \<and> scores = map (nth probs) ids
    \<and> sorted (rev scores)
    \<and> (\<forall>i < length probs. \<forall>j \<in> set ids. i \<notin> set ids \<longrightarrow> probs ! i \<le> probs ! j)"
proof -
  define n where "n = length probs"
  define kk where "kk = min k (int n)"
  define neg where "neg = map uminus probs"
  define part where "part = ap neg (kk - 1)"
  define sel where "sel = take (nat kk) part"
  define vals where "vals = map (nth probs) sel"
  define ord where "ord = as (map uminus vals)"
  have n: "0 < n" using assms(4) by (simp add: n_def)
  have len: "length neg = n" by (simp add: neg_def n_def)
  have kk: "0 \<le> kk - 1" "kk - 1 < int (length neg)" "Suc (nat (kk - 1)) = nat kk"
    "nat kk = min (nat k) n"
    unfolding len kk_def using assms(3) n by linarith+
  note P = argpartition_okD [OF assms(1) kk(1,2), folded part_def, unfolded kk(3)]
  note A = argsort_okD [OF assms(2), of "map uminus vals", folded ord_def]
  have lsel: "length sel = nat kk" using P(1) kk(2,4) len by (simp add: sel_def)
  have ids: "ids = map (nth sel) ord" and scores: "scores = map (nth vals) ord"
    using assms(5) by (auto simp: top_k_def Let_def sel_def part_def neg_def kk_def n_def vals_def ord_def)
  have lvals: "length vals = nat kk" using lsel by (simp add: vals_def)
  have ord_lt: "i \<in> set ord \<Longrightarrow> i < nat kk" for i using A(4) lvals by auto
  have sel_sub: "set sel \<subseteq> {0..<n}"
    using P(2) len by (auto simp: sel_def dest: in_set_takeD)
  have setids: "set ids = set sel"
    using A(4) lvals lsel by (auto simp: ids set_conv_nth [of sel] image_iff)
  have dsel: "distinct sel" using P(3) by (simp add: sel_def)
  have "inj_on (nth sel) (set ord)"
    using dsel lsel ord_lt by (auto intro!: inj_onI simp: nth_eq_iff_index_eq)
  then have dist: "distinct ids" using A(5) by (simp add: ids distinct_map)
  have sc: "scores = map (nth probs) ids"
    using ord_lt lsel by (auto simp: scores ids vals_def)
  have "sorted (map (nth (map uminus vals)) ord)" by (rule A(2))
  also have "map (nth (map uminus vals)) ord = map uminus scores"
    using ord_lt lvals by (auto simp: scores)
  finally have "sorted (rev scores)"
    by (simp add: sorted_iff_nth_mono_less sorted_wrt_iff_nth_less rev_nth)
  moreover have "probs ! i \<le> probs ! j" if "i < n" "j \<in> set ids" "i \<notin> set ids" for i j
  proof -
    have "set part = set sel \<union> set (drop (nat kk) part)"
      unfolding sel_def by (metis append_take_drop_id set_append)
    with P(2) len that setids have "i \<in> set (drop (nat kk) part)" by auto
    moreover have "j \<in> set (take (nat kk) part)" using that(2) setids by (simp add: sel_def)
    ultimately have "neg ! j \<le> neg ! i" by (intro P(4))
    then show ?thesis using that(1) sel_sub setids that(2) by (auto simp: neg_def n_def)
  qed
  ultimately show ?thesis
    using dist sc sel_sub setids A(3) lvals kk(4) by (simp add: ids n_def)
qed

text \<open>
  Top-k selection, for any index routines that keep NumPy's contract: it returns k (or all,
  if fewer) distinct class indices with their probabilities, most probable first, and no class
  left out is more probable than one returned.
\<close>

theorem top_k_correct:
  assumes "argpartition_ok ap" and "argsort_ok as" and "1 \<le> k" and "probs \<noteq> []"
    and "top_k ap as probs k = (scores, ids)"
  shows "length ids = min (nat k) (length probs) \<and> distinct ids \<and> set ids \<subseteq> {0..<length probs}
    \<and> scores = map (nth probs) ids
    \<and> sorted (rev scores)
    \<and> (\<forall>i < length probs. \<forall>j \<in> set ids. i \<notin> set ids \<longrightarrow> probs ! i \<le> probs ! j)"
  using assms by (rule top_k_spec)

theorem top_k_correct_witness:
  "top_k ref_argpartition ref_argsort [1/4, 1/2, 1/8, 1/8] 2 = ([1/2, 1/4], [1, 0])
   \<and> sorted (rev [1/2, 1/4 :: real])"
proof -
  have e: "top_k ref_argpartition ref_argsort [1/4, 1/2, 1/8, 1/8] 2 = ([1/2, 1/4], [1, 0])"
    by (simp add: top_k_def ref_argpartition_def ref_argsort_def Let_def upt_rec numeral_2_eq_2)
  show ?thesis
    using top_k_correct [OF ref_argpartition_ok ref_argsort_ok _ _ e] e by simp
qed

section \<open>Boxes\<close>

lemma np_clip_range: "0 \<le> hi \<Longrightarrow> 0 \<le> np_clip x 0 hi \<and> np_clip x 0 hi \<le> hi"
  by (auto simp: np_clip_def)

lemma np_clip_mono: "x \<le> y \<Longrightarrow> np_clip x lo hi \<le> np_clip y lo hi"
  by (auto simp: np_clip_def)

lemma np_clip_id: "lo \<le> x \<Longrightarrow> x \<le> hi \<Longrightarrow> np_clip x lo hi = x"
  by (simp add: np_clip_def)

definition box_ok :: "int \<Rightarrow> int \<Rightarrow> box \<Rightarrow> bool" where
  "box_ok W H b \<longleftrightarrow>
     0 \<le> box_x0 b \<and> box_x0 b \<le> box_x1 b \<and> box_x1 b \<le> of_int W
     \<and> 0 \<le> box_y0 b \<and> box_y0 b \<le> box_y1 b \<and> box_y1 b \<le> of_int H"

lemma box_to_absolute_ok:
  assumes "0 \<le> W" "0 \<le> H" "0 \<le> w" "0 \<le> h"
  shows "box_ok W H (box_to_absolute W H (cx, cy, w, h))"
proof -
  have "(cx - w / 2) * of_int W \<le> (cx + w / 2) * of_int W"
    "(cy - h / 2) * of_int H \<le> (cy + h / 2) * of_int H"
    using assms by (auto intro!: mult_right_mono)
  then show ?thesis
    using assms np_clip_range [of "of_int W"] np_clip_range [of "of_int H"]
    by (auto simp: box_ok_def intro: np_clip_mono)
qed

lemma box_to_absolute_exact:
  assumes "0 \<le> x0" "x0 \<le> x1" "x1 \<le> of_int W" "0 \<le> y0" "y0 \<le> y1" "y1 \<le> of_int H" "0 < W" "0 < H"
  shows "box_to_absolute W H
      ((x0 + x1) / 2 / of_int W, (y0 + y1) / 2 / of_int H, (x1 - x0) / of_int W, (y1 - y0) / of_int H)
    = \<lparr>box_x0 = x0, box_y0 = y0, box_x1 = x1, box_y1 = y1\<rparr>"
proof -
  have m: "((a + b) / 2 / c - (b - a) / c / 2) * c = a" "((a + b) / 2 / c + (b - a) / c / 2) * c = b"
    if "(c::real) \<noteq> 0" for a b c
    using that by (simp_all add: field_simps)
  have W: "(of_int W :: real) \<noteq> 0" and H: "(of_int H :: real) \<noteq> 0" using assms by auto
  show ?thesis
    unfolding box_to_absolute.simps m [OF W] m [OF H] using assms by (simp add: np_clip_id)
qed

text \<open>
  Detection boxes. Whatever the detector emits, every reported corner lies inside the
  uploaded image, and the corners are ordered when the predicted width and height are not
  negative; and normalising any box that lies inside the image the way the training data is
  normalised and converting it back returns exactly that box.
\<close>

theorem boxes_to_absolute_correct:
  assumes "0 < W" and "0 < H"
  shows "((\<forall>(cx, cy, w, h) \<in> set boxes. 0 \<le> w \<and> 0 \<le> h) \<longrightarrow>
      (\<forall>b \<in> set (boxes_to_absolute boxes W H). box_ok W H b))
    \<and> (\<forall>b. box_ok W H b \<longrightarrow> box_to_absolute W H
        ((box_x0 b + box_x1 b) / 2 / of_int W, (box_y0 b + box_y1 b) / 2 / of_int H,
         (box_x1 b - box_x0 b) / of_int W, (box_y1 b - box_y0 b) / of_int H) = b)"
proof (intro conjI impI allI)
  show "\<forall>b \<in> set (boxes_to_absolute boxes W H). box_ok W H b"
    if "\<forall>(cx, cy, w, h) \<in> set boxes. 0 \<le> w \<and> 0 \<le> h"
    using that assms box_to_absolute_ok [of W H] by (fastforce simp: boxes_to_absolute_def)
next
  fix b assume b: "box_ok W H b"
  show "box_to_absolute W H
        ((box_x0 b + box_x1 b) / 2 / of_int W, (box_y0 b + box_y1 b) / 2 / of_int H,
         (box_x1 b - box_x0 b) / of_int W, (box_y1 b - box_y0 b) / of_int H) = b"
    using b assms by (subst box_to_absolute_exact) (auto simp: box_ok_def)
qed

theorem boxes_to_absolute_correct_witness:
  "boxes_to_absolute [(1/2, 1/2, 1/2, 2)] 8 4 = [\<lparr>box_x0 = 2, box_y0 = 0, box_x1 = 6, box_y1 = 4\<rparr>]
   \<and> box_ok 8 4 \<lparr>box_x0 = 2, box_y0 = 0, box_x1 = 6, box_y1 = 4\<rparr>"
proof -
  have e: "boxes_to_absolute [(1/2, 1/2, 1/2, 2)] 8 4
      = [\<lparr>box_x0 = 2, box_y0 = 0, box_x1 = 6, box_y1 = 4\<rparr>]"
    by (simp add: boxes_to_absolute_def np_clip_def)
  have p: "(0::int) < 8" "(0::int) < 4" by simp_all
  show ?thesis
    using boxes_to_absolute_correct [OF p, of "[(1/2, 1/2, 1/2, 2)]"] e by simp
qed

end
