(* ===== verification/Runtime.thy ===== *)
theory Runtime
  imports Image_Processing
begin

text \<open>
  Session construction (\<open>api/services/runtime.py\<close>): preloading of GPU libraries, the CPU quota read
  from the cgroup files, and \<open>create_session\<close> with its provider check. The process state is the
  module's \<open>_PRELOADED\<close> flag and the libraries the linker has loaded so far. The file system, the
  linker and ONNX Runtime are parameters; ONNX Runtime sees which libraries were loaded before.
\<close>

type_synonym path = "string list"

record ndarray =
  nd_shape :: "nat list"
  nd_data :: "real list"

record session =
  sess_providers :: "string list"
  sess_inputs :: "string list"
  sess_run :: "string \<Rightarrow> chw list \<Rightarrow> ndarray list result"

record session_options =
  opt_graph_all :: bool
  opt_intra_threads :: int
  opt_inter_threads :: int

record runtime_state =
  rt_preloaded :: bool
  rt_libs :: "path list"

datatype file_state = Missing | Unreadable string | Text string

record runtime_env =
  env_site_packages :: "path option"
  env_path_exists :: "path \<Rightarrow> bool"
  env_cdll :: "path list \<Rightarrow> path \<Rightarrow> bool"
  env_affinity :: "nat option"
  env_cpu_count :: "nat option"
  env_read :: "path \<Rightarrow> file_state"
  env_available_providers :: "string list"
  env_new_session :: "path list \<Rightarrow> path \<Rightarrow> session_options \<Rightarrow> string list \<Rightarrow> session result"

section \<open>Library preloading\<close>

definition cuda_libraries :: "(path \<times> string) list" where
  "cuda_libraries =
     [([''nvidia'', ''cublas'', ''lib''], ''libcublas.so.12''),
      ([''nvidia'', ''cublas'', ''lib''], ''libcublasLt.so.12''),
      ([''nvidia'', ''cudnn'', ''lib''], ''libcudnn.so.9''),
      ([''nvidia'', ''cudnn'', ''lib''], ''libcudnn.so'')]"

definition tensorrt_libraries :: "(path \<times> string) list" where
  "tensorrt_libraries =
     [([''tensorrt_libs''], ''libnvinfer.so.10''), ([''tensorrt_libs''], ''libnvonnxparser.so.10'')]"

text \<open>The loop of \<open>_load\<close>: a missing file is skipped, a linker error is logged and skipped.\<close>

fun load_loop ::
  "runtime_env \<Rightarrow> path \<Rightarrow> (path \<times> string) list \<Rightarrow> path list \<Rightarrow> nat \<Rightarrow> path list \<times> nat" where
  "load_loop env site [] libs loaded = (libs, loaded)"
| "load_loop env site ((subdir, name) # rest) libs loaded =
     (let candidate = site @ subdir @ [name] in
      if \<not> env_path_exists env candidate then load_loop env site rest libs loaded
      else if env_cdll env libs candidate
      then load_loop env site rest (libs @ [candidate]) (Suc loaded)
      else load_loop env site rest libs loaded)"

definition load_libs ::
  "runtime_env \<Rightarrow> (path \<times> string) list \<Rightarrow> path list \<Rightarrow> path list \<times> bool" where
  "load_libs env paths libs =
     (case env_site_packages env of
        None \<Rightarrow> (libs, False)
      | Some site \<Rightarrow> (case load_loop env site paths libs 0 of (libs', loaded) \<Rightarrow> (libs', 0 < loaded)))"

definition preload_cuda_libraries :: "runtime_env \<Rightarrow> path list \<Rightarrow> path list \<times> bool" where
  "preload_cuda_libraries env libs = load_libs env cuda_libraries libs"

definition preload_tensorrt_libraries :: "runtime_env \<Rightarrow> path list \<Rightarrow> path list \<times> bool" where
  "preload_tensorrt_libraries env libs =
     (case preload_cuda_libraries env libs of (libs', _) \<Rightarrow> load_libs env tensorrt_libraries libs')"

section \<open>The CPU quota\<close>

definition is_space :: "char \<Rightarrow> bool" where
  "is_space c \<longleftrightarrow> c \<in> {CHR '' '', CHR 0x09, CHR 0x0A, CHR 0x0B, CHR 0x0C, CHR 0x0D}"

fun split_words :: "string \<Rightarrow> string \<Rightarrow> string list" where
  "split_words acc [] = (if acc = [] then [] else [acc])"
| "split_words acc (c # s) =
     (if is_space c then (if acc = [] then split_words [] s else acc # split_words [] s)
      else split_words (acc @ [c]) s)"

definition py_split :: "string \<Rightarrow> string list" where
  "py_split s = split_words [] s"

definition strip :: "string \<Rightarrow> string" where
  "strip s = rev (dropWhile is_space (rev (dropWhile is_space s)))"

text \<open>\<open>int(text)\<close> and \<open>float(text)\<close> on decimal notation (sign, digits, one point); \<open>None\<close> is
  \<open>ValueError\<close>. Underscores, exponents and \<open>inf\<close>/\<open>nan\<close>, which the kernel never writes, are read as
  errors.\<close>

definition parse_nat :: "string \<Rightarrow> nat option" where
  "parse_nat s = (if s \<noteq> [] \<and> list_all is_digit s then Some (read_nat s) else None)"

definition signed :: "(string \<Rightarrow> 'a::uminus option) \<Rightarrow> string \<Rightarrow> 'a option" where
  "signed p s =
     (case s of
        c # rest \<Rightarrow>
          if c = CHR ''-'' then map_option uminus (p rest)
          else if c = CHR ''+'' then p rest else p s
      | [] \<Rightarrow> p s)"

definition parse_int :: "string \<Rightarrow> int option" where
  "parse_int s = signed (\<lambda>t. map_option int (parse_nat t)) (strip s)"

definition parse_unsigned_float :: "string \<Rightarrow> real option" where
  "parse_unsigned_float s =
     (let whole = takeWhile (\<lambda>c. c \<noteq> CHR ''.'') s; rest = dropWhile (\<lambda>c. c \<noteq> CHR ''.'') s in
      case rest of
        [] \<Rightarrow> map_option of_nat (parse_nat whole)
      | _ # decimals \<Rightarrow>
          if list_all is_digit whole \<and> list_all is_digit decimals \<and> (whole \<noteq> [] \<or> decimals \<noteq> [])
          then Some (of_nat (read_nat whole) + of_nat (read_nat decimals) / 10 ^ length decimals)
          else None)"

definition parse_float :: "string \<Rightarrow> real option" where
  "parse_float s = signed parse_unsigned_float (strip s)"

definition py_trunc :: "real \<Rightarrow> int" where
  "py_trunc x = (if 0 \<le> x then \<lfloor>x\<rfloor> else \<lceil>x\<rceil>)"

definition cgroup_v2_quota :: path where
  "cgroup_v2_quota = [''sys'', ''fs'', ''cgroup'', ''cpu.max'']"

definition cgroup_v1_quota :: path where
  "cgroup_v1_quota = [''sys'', ''fs'', ''cgroup'', ''cpu'', ''cpu.cfs_quota_us'']"

definition cgroup_v1_period :: path where
  "cgroup_v1_period = [''sys'', ''fs'', ''cgroup'', ''cpu'', ''cpu.cfs_period_us'']"

text \<open>The handler of \<open>_cgroup_cpu_quota\<close> catches \<open>OSError\<close> and \<open>ValueError\<close>; the outer error here is
  the one it does not catch, a division by a zero period.\<close>

definition zero_division :: exn where
  "zero_division = PyExc ''ZeroDivisionError'' ''division by zero''"

definition cgroup_cpu_quota :: "runtime_env \<Rightarrow> int option result" where
  "cgroup_cpu_quota env =
     (if env_read env cgroup_v2_quota \<noteq> Missing then
        (case env_read env cgroup_v2_quota of
           Text text \<Rightarrow>
             (case py_split text of
                [raw_quota, raw_period] \<Rightarrow>
                  if raw_quota = ''max'' then Inr None
                  else (case (parse_float raw_quota, parse_float raw_period) of
                          (Some q, Some p) \<Rightarrow>
                            if p = 0 then Inl zero_division else Inr (Some (max 1 (py_trunc (q / p))))
                        | _ \<Rightarrow> Inr None)
              | _ \<Rightarrow> Inr None)
         | _ \<Rightarrow> Inr None)
      else if env_read env cgroup_v1_quota \<noteq> Missing \<and> env_read env cgroup_v1_period \<noteq> Missing then
        (case env_read env cgroup_v1_quota of
           Text text \<Rightarrow>
             (case parse_int text of
                Some micros \<Rightarrow>
                  if micros \<le> 0 then Inr None
                  else (case env_read env cgroup_v1_period of
                          Text ptext \<Rightarrow>
                            (case parse_int ptext of
                               Some p \<Rightarrow> if p = 0 then Inl zero_division else Inr (Some (max 1 (micros div p)))
                             | None \<Rightarrow> Inr None)
                        | _ \<Rightarrow> Inr None)
              | None \<Rightarrow> Inr None)
         | _ \<Rightarrow> Inr None)
      else Inr None)"

definition available_cpus :: "runtime_env \<Rightarrow> int result" where
  "available_cpus env =
     (let raw = (case env_affinity env of Some n \<Rightarrow> Some n | None \<Rightarrow> env_cpu_count env);
          limit = (case raw of Some n \<Rightarrow> if n = 0 then 1 else int n | None \<Rightarrow> 1)
      in res_bind (cgroup_cpu_quota env) (\<lambda>quota.
           Inr (max 1 (case quota of Some q \<Rightarrow> min limit q | None \<Rightarrow> limit))))"

section \<open>Session construction\<close>

fun contains :: "string \<Rightarrow> string \<Rightarrow> bool" where
  "contains sub [] = (sub = [])"
| "contains sub (c # s) = (starts_with (c # s) sub \<or> contains sub s)"

definition cpu_provider :: string where
  "cpu_provider = ''CPUExecutionProvider''"

definition cuda_provider :: string where
  "cuda_provider = ''CUDAExecutionProvider''"

definition tensorrt_provider :: string where
  "tensorrt_provider = ''TensorrtExecutionProvider''"

text \<open>The one-time preload at the head of \<open>create_session\<close>.\<close>

definition preload_once :: "runtime_env \<Rightarrow> string list \<Rightarrow> runtime_state \<Rightarrow> runtime_state" where
  "preload_once env requested st =
     (if \<not> rt_preloaded st \<and> list_ex (\<lambda>p. p \<noteq> cpu_provider) requested then
        \<lparr>rt_preloaded = True,
         rt_libs = fst (if list_ex (contains ''Tensorrt'') requested
                        then preload_tensorrt_libraries env (rt_libs st)
                        else preload_cuda_libraries env (rt_libs st))\<rparr>
      else st)"

definition usable_providers :: "runtime_env \<Rightarrow> string list \<Rightarrow> string list" where
  "usable_providers env requested =
     (let usable = filter (\<lambda>p. p \<in> set (env_available_providers env)) requested in
      if cpu_provider \<in> set usable then usable else usable @ [cpu_provider])"

text \<open>\<open>providers or [CPU]\<close>, and the providers that satisfy the caller's request.\<close>

definition requested_providers :: "string list option \<Rightarrow> string list" where
  "requested_providers providers = (case providers of Some (p # ps) \<Rightarrow> p # ps | _ \<Rightarrow> [cpu_provider])"

definition acceptable_providers :: "string list option \<Rightarrow> string list option \<Rightarrow> string list" where
  "acceptable_providers providers satisfied_by =
     (case satisfied_by of Some ps \<Rightarrow> ps | None \<Rightarrow> [hd (requested_providers providers)])"

definition index_error :: exn where
  "index_error = PyExc ''IndexError'' ''list index out of range''"

definition check_selected :: "string list \<Rightarrow> string list \<Rightarrow> session \<Rightarrow> unit result" where
  "check_selected acceptable available s =
     (case sess_providers s of
        [] \<Rightarrow> Inl index_error
      | selected # _ \<Rightarrow>
          if selected \<in> set acceptable then Inr ()
          else Inl (PyExc ''RuntimeError''
                 (''ONNX Runtime selected '' @ selected @ '', which does not satisfy the requested ''
                  @ repr_strs (sort (remdups acceptable)) @ '' (available: ''
                  @ repr_strs (sort available)
                  @ ''). Refusing to report a backend that is not in use.'')))"

definition first_input :: "session \<Rightarrow> string result" where
  "first_input s = (case sess_inputs s of [] \<Rightarrow> Inl index_error | n # _ \<Rightarrow> Inr n)"

definition create_session ::
  "runtime_env \<Rightarrow> path \<Rightarrow> string list option \<Rightarrow> string list option \<Rightarrow> bool \<Rightarrow> bool
   \<Rightarrow> runtime_state \<Rightarrow> runtime_state \<times> (session \<times> string) result" where
  "create_session env model_path providers satisfied_by graph_optimization verify_provider st =
     (let requested = requested_providers providers;
          st = preload_once env requested st;
          available = remdups (env_available_providers env);
          usable = usable_providers env requested
      in (st,
          res_bind (available_cpus env) (\<lambda>threads.
          res_bind (env_new_session env (rt_libs st) model_path
                      \<lparr>opt_graph_all = graph_optimization, opt_intra_threads = threads, opt_inter_threads = 1\<rparr>
                      usable) (\<lambda>session.
          res_bind (if verify_provider
                    then check_selected (acceptable_providers providers satisfied_by) available session
                    else Inr ()) (\<lambda>_.
          res_bind (first_input session) (\<lambda>input_name.
          Inr (session, input_name)))))))"

section \<open>Facts\<close>

lemma available_cpus_bounds:
  "available_cpus env = Inr n \<Longrightarrow>
     1 \<le> n
     \<and> (\<forall>a. env_affinity env = Some a \<and> 0 < a \<longrightarrow> n \<le> int a)
     \<and> (\<forall>q. cgroup_cpu_quota env = Inr (Some q) \<longrightarrow> n \<le> q)"
proof -
  assume a: "available_cpus env = Inr n"
  have "cgroup_cpu_quota env = Inr (Some q) \<Longrightarrow> 1 \<le> q" for q
    by (auto simp: cgroup_cpu_quota_def split: if_splits file_state.splits list.splits option.splits)
  then show ?thesis
    using a by (auto simp: available_cpus_def Let_def res_bind_Inr_iff split: option.splits)
qed

text \<open>
  The thread count handed to ONNX Runtime is at least one and never exceeds the CPUs the
  process may use: neither the scheduler affinity nor the cgroup quota, whichever is smaller.
  Reading it fails only through a zero quota period; every other unreadable or malformed
  cgroup file falls back to the affinity count.
\<close>

theorem available_cpus_sound:
  "(\<forall>n. available_cpus env = Inr n \<longrightarrow>
      1 \<le> n
      \<and> (\<forall>a. env_affinity env = Some a \<and> 0 < a \<longrightarrow> n \<le> int a)
      \<and> (\<forall>q. cgroup_cpu_quota env = Inr (Some q) \<longrightarrow> n \<le> q))
   \<and> (\<forall>e. available_cpus env = Inl e \<longrightarrow> e = zero_division)"
proof (intro conjI allI impI)
  fix e assume "available_cpus env = Inl e"
  then have "cgroup_cpu_quota env = Inl e"
    by (auto simp: available_cpus_def Let_def res_bind_Inl_iff)
  then show "e = zero_division"
    by (auto simp: cgroup_cpu_quota_def split: if_splits file_state.splits list.splits option.splits)
qed (use available_cpus_bounds in blast)+

definition demo_env :: "(path \<Rightarrow> file_state) \<Rightarrow> runtime_env" where
  "demo_env files =
     \<lparr>env_site_packages = Some [''site''],
      env_path_exists = (\<lambda>p. p \<noteq> []),
      env_cdll = (\<lambda>libs p. True),
      env_affinity = Some 32,
      env_cpu_count = Some 32,
      env_read = files,
      env_available_providers = [tensorrt_provider, cuda_provider, cpu_provider],
      env_new_session = (\<lambda>libs p opts provs.
         Inr \<lparr>sess_providers =
                 (if tensorrt_provider \<in> set provs
                     \<and> [''site'', ''tensorrt_libs'', ''libnvinfer.so.10''] \<notin> set libs
                  then filter (\<lambda>q. q \<noteq> tensorrt_provider) provs else provs),
              sess_inputs = [''input''], sess_run = (\<lambda>n b. Inr [])\<rparr>)\<rparr>"

definition quota_file :: "string \<Rightarrow> path \<Rightarrow> file_state" where
  "quota_file text p = (if p = cgroup_v2_quota then Text text else Missing)"

lemma quota_words: "py_split ''400000 100000'' = [''400000'', ''100000'']"
  by (simp add: py_split_def is_space_def)

lemma quota_floats: "parse_float ''400000'' = Some 400000" "parse_float ''100000'' = Some 100000"
  by (simp_all add: parse_float_def strip_def is_space_def signed_def parse_unsigned_float_def
      parse_nat_def read_nat_def digit_val_def is_digit_def)

lemma demo_quota: "cgroup_cpu_quota (demo_env (quota_file ''400000 100000'')) = Inr (Some 4)"
  by (simp add: cgroup_cpu_quota_def demo_env_def quota_file_def quota_words quota_floats py_trunc_def)

theorem available_cpus_sound_witness:
  "available_cpus (demo_env (quota_file ''400000 100000'')) = Inr 4 \<and> (1::int) \<le> 4 \<and> (4::int) \<le> 32"
proof -
  have e: "available_cpus (demo_env (quota_file ''400000 100000'')) = Inr 4"
    using demo_quota by (simp add: available_cpus_def demo_env_def)
  have a: "env_affinity (demo_env (quota_file ''400000 100000'')) = Some 32" by (simp add: demo_env_def)
  have "env_affinity (demo_env (quota_file ''400000 100000'')) = Some 32 \<and> (0::nat) < 32"
    using a by simp
  then have "(4::int) \<le> int 32" and "(1::int) \<le> 4"
    using available_cpus_sound [of "demo_env (quota_file ''400000 100000'')"] e by blast+
  then show ?thesis using e by simp
qed

lemma check_selected_Inr:
  "check_selected acc av s = Inr () \<Longrightarrow> \<exists>p ps. sess_providers s = p # ps \<and> p \<in> set acc"
  by (auto simp: check_selected_def split: list.splits if_splits)

lemma first_input_Inr: "first_input s = Inr n \<Longrightarrow> n \<in> set (sess_inputs s)"
  by (auto simp: first_input_def split: list.splits)

lemma create_session_Inr:
  "create_session env mp provs sat go True st = (st', Inr (s, n)) \<Longrightarrow>
     (\<exists>av. check_selected (acceptable_providers provs sat) av s = Inr ()) \<and> first_input s = Inr n"
  by (auto simp: create_session_def Let_def res_bind_Inr_iff)

lemma create_session_state:
  "fst (create_session env mp provs sat go v st) = preload_once env (requested_providers provs) st"
  by (simp add: create_session_def Let_def)

text \<open>What reaches ONNX Runtime: the providers of the build that were asked for, in their order, and
  a CPU entry; a thread count that respects the quota; one inter-op thread.\<close>

lemma usable_providers_cpu: "cpu_provider \<in> set (usable_providers env requested)"
  by (simp add: usable_providers_def Let_def)

lemma usable_providers_subset:
  "set (usable_providers env requested) \<subseteq> set requested \<inter> set (env_available_providers env) \<union> {cpu_provider}"
  by (auto simp: usable_providers_def Let_def)

text \<open>
  A verified session never misreports its backend: whenever \<open>create_session\<close> returns with
  verification on, the provider ONNX Runtime actually selected is one that satisfies the request
  (those named by \<open>satisfied_by\<close>, else exactly the first requested provider), so a silent fall
  back to CPU is an error rather than a session. The returned input name is the session's own.
\<close>

theorem create_session_honest:
  assumes "create_session env mp provs sat go True st = (st', Inr (s, n))"
  shows "(\<exists>selected rest. sess_providers s = selected # rest
           \<and> selected \<in> set (acceptable_providers provs sat))
    \<and> n \<in> set (sess_inputs s)
    \<and> (sat = None \<and> provs = Some [tensorrt_provider, cpu_provider] \<longrightarrow>
         hd (sess_providers s) \<noteq> cpu_provider)"
proof -
  obtain av where av: "check_selected (acceptable_providers provs sat) av s = Inr ()"
    and n: "first_input s = Inr n"
    using create_session_Inr [OF assms] by blast
  obtain p ps where p: "sess_providers s = p # ps" "p \<in> set (acceptable_providers provs sat)"
    using check_selected_Inr [OF av] by blast
  have "sat = None \<and> provs = Some [tensorrt_provider, cpu_provider] \<longrightarrow> p \<noteq> cpu_provider"
    using p(2) by (auto simp: acceptable_providers_def requested_providers_def
        tensorrt_provider_def cpu_provider_def)
  then show ?thesis using p first_input_Inr [OF n] by auto
qed

theorem create_session_honest_witness:
  "\<exists>st' s n. create_session (demo_env (\<lambda>_. Missing)) [''m.onnx''] (Some [tensorrt_provider, cpu_provider])
        None True True \<lparr>rt_preloaded = False, rt_libs = []\<rparr> = (st', Inr (s, n))
     \<and> hd (sess_providers s) \<noteq> cpu_provider"
proof -
  let ?c = "create_session (demo_env (\<lambda>_. Missing)) [''m.onnx''] (Some [tensorrt_provider, cpu_provider])
        None True True \<lparr>rt_preloaded = False, rt_libs = []\<rparr>"
  have "\<exists>st' s n. ?c = (st', Inr (s, n))"
    by (simp add: create_session_def requested_providers_def acceptable_providers_def
        check_selected_def first_input_def demo_env_def preload_once_def usable_providers_def
        available_cpus_def cgroup_cpu_quota_def tensorrt_provider_def cuda_provider_def
        cpu_provider_def starts_with_def preload_tensorrt_libraries_def
        preload_cuda_libraries_def load_libs_def cuda_libraries_def tensorrt_libraries_def Let_def)
  then obtain st' s n where c: "?c = (st', Inr (s, n))" by blast
  show ?thesis using create_session_honest [OF c] c by blast
qed

section \<open>Two divergences of the preloading code\<close>

lemma load_loop_count:
  "load_loop env site ps libs k = (libs', k') \<Longrightarrow> \<exists>new. libs' = libs @ new \<and> k' = k + length new"
proof (induction env site ps libs k arbitrary: libs' k' rule: load_loop.induct)
  case (1 env site libs loaded)
  then show ?case by simp
next
  case (2 env site subdir name rest libs loaded)
  then show ?case by (fastforce simp: Let_def split: if_splits)
qed

text \<open>
  What the flag returned by \<open>_load\<close> really says. It is true exactly when at least one library
  was newly loaded; it does not say that all of them were: in an environment where only the
  first TensorRT library is on disk the call still returns true, although its documentation
  reads "Returns whether all of them loaded".
\<close>

theorem load_libs_some_not_all:
  "(snd (load_libs env paths libs) \<longleftrightarrow> fst (load_libs env paths libs) \<noteq> libs)
   \<and> (let e = (demo_env (\<lambda>_. Missing))
              \<lparr>env_path_exists := (\<lambda>p. p = [''site'', ''tensorrt_libs'', ''libnvinfer.so.10''])\<rparr>
      in load_libs e tensorrt_libraries []
         = ([[''site'', ''tensorrt_libs'', ''libnvinfer.so.10'']], True))"
proof (intro conjI)
  show "snd (load_libs env paths libs) \<longleftrightarrow> fst (load_libs env paths libs) \<noteq> libs"
    using load_loop_count [of env _ paths libs 0]
    by (auto simp: load_libs_def split: option.splits prod.splits)
qed (simp add: load_libs_def demo_env_def tensorrt_libraries_def Let_def)

text \<open>
  The one-time preload depends on which provider comes first. Once a CUDA session has been
  requested, a later TensorRT request no longer loads the TensorRT libraries, because a single
  flag records both preloads; in an environment where TensorRT works when it is asked for first,
  the same request after a CUDA session therefore fails the provider check.
\<close>

theorem preload_flag_order_dependent:
  "(rt_preloaded st \<longrightarrow> preload_once env requested st = st)
   \<and> (\<exists>st1 s1 st2 e st3 s3.
        create_session (demo_env (\<lambda>_. Missing)) [''m''] (Some [cuda_provider, cpu_provider]) None True True
          \<lparr>rt_preloaded = False, rt_libs = []\<rparr> = (st1, Inr s1)
      \<and> create_session (demo_env (\<lambda>_. Missing)) [''m''] (Some [tensorrt_provider, cpu_provider]) None True True
          st1 = (st2, Inl e)
      \<and> create_session (demo_env (\<lambda>_. Missing)) [''m''] (Some [tensorrt_provider, cpu_provider]) None True True
          \<lparr>rt_preloaded = False, rt_libs = []\<rparr> = (st3, Inr s3))"
  by (simp add: create_session_def requested_providers_def acceptable_providers_def
        check_selected_def first_input_def demo_env_def preload_once_def usable_providers_def
      available_cpus_def cgroup_cpu_quota_def tensorrt_provider_def cuda_provider_def
      cpu_provider_def starts_with_def preload_tensorrt_libraries_def
      preload_cuda_libraries_def load_libs_def cuda_libraries_def tensorrt_libraries_def Let_def)

theorem preload_flag_order_dependent_witness:
  "preload_once (demo_env (\<lambda>_. Missing)) [tensorrt_provider] \<lparr>rt_preloaded = True, rt_libs = []\<rparr>
     = \<lparr>rt_preloaded = True, rt_libs = []\<rparr>"
proof -
  have "rt_preloaded \<lparr>rt_preloaded = True, rt_libs = []\<rparr>" by simp
  then show ?thesis
    using preload_flag_order_dependent [of "\<lparr>rt_preloaded = True, rt_libs = []\<rparr>" "demo_env (\<lambda>_. Missing)"
        "[tensorrt_provider]"] by blast
qed

end
