(* ===== verification/Schemas.thy ===== *)
theory Schemas
  imports Config
begin

text \<open>
  Request schemas (\<open>api/models/schemas.py\<close>): the shared enumerations, the option models with the
  bounds declared on their fields, and the validators of batch requests. Pydantic itself is not
  modelled: each definition states what the declared constraints and validators accept, on
  values of the declared types, after \<open>str_strip_whitespace\<close> has been applied by the caller.
\<close>

datatype task_type = CLASSIFICATION | DETECTION | EMBEDDING

datatype job_status = PENDING | RUNNING | COMPLETED | FAILED | CANCELLED

fun task_value :: "task_type \<Rightarrow> string" where
  "task_value CLASSIFICATION = ''classification''"
| "task_value DETECTION = ''detection''"
| "task_value EMBEDDING = ''embedding''"

definition task_of_value :: "string \<Rightarrow> task_type option" where
  "task_of_value s = find (\<lambda>t. task_value t = s) [CLASSIFICATION, DETECTION, EMBEDDING]"

fun job_status_value :: "job_status \<Rightarrow> string" where
  "job_status_value PENDING = ''pending''"
| "job_status_value RUNNING = ''running''"
| "job_status_value COMPLETED = ''completed''"
| "job_status_value FAILED = ''failed''"
| "job_status_value CANCELLED = ''cancelled''"

record classification_options =
  co_top_k :: int
  co_model_version :: "string option"
  co_include_probabilities :: bool

definition classification_options_valid :: "classification_options \<Rightarrow> bool" where
  "classification_options_valid o' \<longleftrightarrow> 1 \<le> co_top_k o' \<and> co_top_k o' \<le> 100"

record detection_options =
  do_confidence_threshold :: real
  do_max_detections :: int
  do_model_version :: "string option"

definition detection_options_valid :: "detection_options \<Rightarrow> bool" where
  "detection_options_valid o' \<longleftrightarrow>
     0 \<le> do_confidence_threshold o' \<and> do_confidence_threshold o' \<le> 1
     \<and> 1 \<le> do_max_detections o' \<and> do_max_detections o' \<le> 1000"

definition has_http_scheme :: "string \<Rightarrow> bool" where
  "has_http_scheme v \<longleftrightarrow> starts_with v ''http://'' \<or> starts_with v ''https://''"

record batch_item =
  bi_image_url :: string
  bi_item_id :: "string option"

text \<open>\<open>BatchItem._require_http_scheme\<close>.\<close>

definition validate_image_url :: "string \<Rightarrow> string result" where
  "validate_image_url v =
     (if \<not> has_http_scheme v
      then Inl (PyExc ''ValueError'' ''image_url must be an http:// or https:// URL'')
      else Inr v)"

record batch_request =
  br_task :: task_type
  br_items :: "batch_item list"
  br_classification_options :: "classification_options option"
  br_detection_options :: "detection_options option"
  br_callback_url :: "string option"

text \<open>\<open>BatchRequest._require_http_scheme\<close>.\<close>

definition validate_callback_url :: "string option \<Rightarrow> string option result" where
  "validate_callback_url v =
     (case v of
        None \<Rightarrow> Inr None
      | Some u \<Rightarrow>
          if \<not> has_http_scheme u
          then Inl (PyExc ''ValueError'' ''callback_url must be an http:// or https:// URL'')
          else Inr (Some u))"

definition batch_request_valid :: "batch_request \<Rightarrow> bool" where
  "batch_request_valid r \<longleftrightarrow>
     1 \<le> length (br_items r)
     \<and> list_all (\<lambda>i. validate_image_url (bi_image_url i) = Inr (bi_image_url i)) (br_items r)
     \<and> (case br_classification_options r of None \<Rightarrow> True | Some o' \<Rightarrow> classification_options_valid o')
     \<and> (case br_detection_options r of None \<Rightarrow> True | Some o' \<Rightarrow> detection_options_valid o')
     \<and> validate_callback_url (br_callback_url r) = Inr (br_callback_url r)"

definition token_request_valid :: "string \<Rightarrow> bool" where
  "token_request_valid api_key \<longleftrightarrow> 8 \<le> length api_key"

section \<open>Facts\<close>

lemma task_of_value_value [simp]: "task_of_value (task_value t) = Some t"
  by (cases t) (simp_all add: task_of_value_def)

lemma validate_image_url_Inr: "validate_image_url v = Inr w \<longleftrightarrow> w = v \<and> has_http_scheme v"
  by (auto simp: validate_image_url_def)

lemma http_scheme_not_file:
  "has_http_scheme v \<Longrightarrow> \<not> starts_with v ''file:'' \<and> \<not> starts_with v ''gopher:''"
  by (auto simp: has_http_scheme_def starts_with_def take_Suc_conv_app_nth numeral_eq_Suc
      dest!: arg_cong [where f = hd])

end
