(* ===== verification/Model_Service.thy ===== *)
theory Model_Service
  imports Runtime Schemas
begin

text \<open>
  Model loading, versioning and backend fallback, and the registry of loaded models
  (\<open>api/services/model_service.py\<close>). The file system is a parameter: which paths exist, what a
  directory holds, and the typed content of the JSON sidecar files. Sessions come from the
  modelled \<open>create_session\<close>. The service's state is the dictionary of loaded models and the
  dictionary of active versions; the lock makes each registry operation one atomic step.
\<close>

section \<open>Artefact files\<close>

text \<open>Content of \<open>labels.json\<close> and \<open>detection_labels.json\<close> after \<open>json.loads\<close>; a missing key is
  \<open>None\<close>.\<close>

record labels_file =
  lf_class_names :: "string list option"
  lf_wnids :: "string list option"
  lf_image_size :: "int option"

record det_labels_file =
  df_id2label :: "(string \<times> string) list option"
  df_num_classes :: "int option"
  df_image_size :: "int option"

record fs =
  fs_exists :: "path \<Rightarrow> bool"
  fs_entries :: "path \<Rightarrow> (string \<times> bool) list"
  fs_labels :: "path \<Rightarrow> labels_file result"
  fs_metrics :: "path \<Rightarrow> (string, pyval) dict result"
  fs_det_labels :: "path \<Rightarrow> det_labels_file result"
  fs_size :: "path \<Rightarrow> int"

definition default_version :: string where
  "default_version = ''v1''"

text \<open>\<open>_VERSION_PATTERN.match\<close>: \<open>v\<close>, then digit groups separated by single dots; the pattern's
  final \<open>$\<close> also matches before one trailing newline.\<close>

fun split_on :: "char \<Rightarrow> string \<Rightarrow> string \<Rightarrow> string list" where
  "split_on sep acc [] = [acc]"
| "split_on sep acc (c # s) =
     (if c = sep then acc # split_on sep [] s else split_on sep (acc @ [c]) s)"

definition chop_newline :: "string \<Rightarrow> string" where
  "chop_newline s = (if s \<noteq> [] \<and> last s = CHR 0x0A then butlast s else s)"

definition is_version :: "string \<Rightarrow> bool" where
  "is_version name =
     (case chop_newline name of
        c # rest \<Rightarrow>
          c = CHR ''v'' \<and> list_all (\<lambda>p. p \<noteq> [] \<and> list_all is_digit p) (split_on (CHR ''.'') [] rest)
      | [] \<Rightarrow> False)"

definition resolve_versioned_artifact :: "fs \<Rightarrow> path \<Rightarrow> string \<Rightarrow> string \<Rightarrow> path" where
  "resolve_versioned_artifact F onnx_dir filename version =
     (let versioned = onnx_dir @ [version, filename] in
      if fs_exists F versioned \<or> version \<noteq> default_version then versioned
      else onnx_dir @ [filename])"

definition resolve_versioned_metadata :: "fs \<Rightarrow> path \<Rightarrow> string \<Rightarrow> string \<Rightarrow> path option" where
  "resolve_versioned_metadata F art filename version =
     (let versioned = art @ [''onnx'', version, filename] in
      if fs_exists F versioned then Some versioned
      else if version = default_version
           then (let flat = art @ [filename] in if fs_exists F flat then Some flat else None)
      else None)"

text \<open>\<open>re.findall(r\"\\d+\", version)\<close>, as numbers: the natural sort key.\<close>

fun digit_groups :: "string \<Rightarrow> string \<Rightarrow> string list" where
  "digit_groups acc [] = (if acc = [] then [] else [acc])"
| "digit_groups acc (c # s) =
     (if is_digit c then digit_groups (acc @ [c]) s
      else if acc = [] then digit_groups [] s else acc # digit_groups [] s)"

definition version_key :: "string \<Rightarrow> nat list" where
  "version_key version = map read_nat (digit_groups [] version)"

definition discover_versions :: "fs \<Rightarrow> path \<Rightarrow> string list" where
  "discover_versions F onnx_dir =
     (let found = remdups (map fst (filter (\<lambda>(n, d). d \<and> is_version n) (fs_entries F onnx_dir)));
          flat = list_ex (\<lambda>(n, d). ends_with n ''.onnx'') (fs_entries F onnx_dir);
          found = (if flat \<and> default_version \<notin> set found then found @ [default_version] else found);
          ordered = sort_key version_key (filter (\<lambda>v. v \<noteq> default_version) found)
      in (if default_version \<in> set found then [default_version] else []) @ ordered)"

section \<open>Backends\<close>

fun fallback_chain :: "backend \<Rightarrow> backend list" where
  "fallback_chain TENSORRT = [TENSORRT, ONNX, ONNX_INT8]"
| "fallback_chain ONNX = [ONNX, ONNX_INT8]"
| "fallback_chain ONNX_INT8 = [ONNX_INT8, ONNX]"
| "fallback_chain TORCH = [TORCH, ONNX]"

text \<open>\<open>_PROVIDER_FOR_BACKEND.get(backend, [CPU])\<close> and \<open>_SATISFYING_PROVIDERS.get(backend, {CPU})\<close>.\<close>

fun provider_for_backend :: "backend \<Rightarrow> string list" where
  "provider_for_backend TENSORRT = [tensorrt_provider, cpu_provider]"
| "provider_for_backend ONNX = [cuda_provider, cpu_provider]"
| "provider_for_backend ONNX_INT8 = [cpu_provider]"
| "provider_for_backend TORCH = [cpu_provider]"

fun satisfying_providers :: "backend \<Rightarrow> string list" where
  "satisfying_providers TENSORRT = [tensorrt_provider]"
| "satisfying_providers ONNX = [cuda_provider, cpu_provider]"
| "satisfying_providers ONNX_INT8 = [cpu_provider]"
| "satisfying_providers TORCH = [cpu_provider]"

definition artifact_for :: "fs \<Rightarrow> path \<Rightarrow> backend \<Rightarrow> string \<Rightarrow> path option" where
  "artifact_for F art b version =
     map_option (\<lambda>filename. resolve_versioned_artifact F (art @ [''onnx'']) filename version)
       (case b of
          TENSORRT \<Rightarrow> Some ''classifier_fp32.onnx''
        | ONNX \<Rightarrow> Some ''classifier_fp32.onnx''
        | ONNX_INT8 \<Rightarrow> Some ''classifier_int8.onnx''
        | TORCH \<Rightarrow> None)"

definition create_backend_session ::
  "runtime_env \<Rightarrow> path \<Rightarrow> backend \<Rightarrow> runtime_state \<Rightarrow> runtime_state \<times> (session \<times> string) result" where
  "create_backend_session env artifact b st =
     create_session env artifact (Some (provider_for_backend b)) (Some (satisfying_providers b)) True True st"

definition zero_image :: "int \<Rightarrow> chw" where
  "zero_image sz = replicate 3 (replicate (nat sz) (replicate (nat sz) 0))"

text \<open>\<open>_warmup\<close>: one inference on a zero image must succeed with the expected number of dimensions.
  The error text lists the output shapes.\<close>

definition show_shape :: "nat list \<Rightarrow> string" where
  "show_shape sh = (case sh of [n] \<Rightarrow> ''('' @ show_nat n @ '',)'' | _ \<Rightarrow> ''('' @ join '', '' (map show_nat sh) @ '')'')"

definition warmup :: "session \<Rightarrow> string \<Rightarrow> int \<Rightarrow> backend \<Rightarrow> nat \<Rightarrow> unit result" where
  "warmup session input_name image_size b output_ndim =
     res_bind (sess_run session input_name [zero_image image_size]) (\<lambda>outputs.
       if outputs = [] \<or> length (nd_shape (hd outputs)) \<noteq> output_ndim
       then Inl (PyExc ''RuntimeError''
              (''Warmup produced an unexpected output shape for '' @ backend_value b @ '': ''
               @ ''['' @ join '', '' (map (show_shape \<circ> nd_shape) outputs) @ '']''))
       else Inr ())"

text \<open>The loop the three loaders share: try the candidates in order, record why each one failed.
  The image size is a result because the detector reads it from its metadata inside the
  \<open>try\<close>, where a missing key counts as one more failure of the candidate.\<close>

fun try_backends ::
  "runtime_env \<Rightarrow> fs \<Rightarrow> (backend \<Rightarrow> path option) \<Rightarrow> int result \<Rightarrow> nat \<Rightarrow> backend list \<Rightarrow> string list \<Rightarrow> runtime_state
   \<Rightarrow> runtime_state \<times> (string list + backend \<times> session \<times> string \<times> path)" where
  "try_backends env F art_of image_size ndim [] failures st = (st, Inl failures)"
| "try_backends env F art_of image_size ndim (candidate # rest) failures st =
     (case art_of candidate of
        None \<Rightarrow> try_backends env F art_of image_size ndim rest
                  (failures @ [backend_value candidate @ '': artefact not found'']) st
      | Some artifact \<Rightarrow>
          if \<not> fs_exists F artifact
          then try_backends env F art_of image_size ndim rest
                 (failures @ [backend_value candidate @ '': artefact not found'']) st
          else (case create_backend_session env artifact candidate st of (st', r) \<Rightarrow>
                 (case res_bind r (\<lambda>(s, input_name).
                         res_bind image_size (\<lambda>sz.
                         res_bind (warmup s input_name sz candidate ndim) (\<lambda>_. Inr (s, input_name)))) of
                    Inl e \<Rightarrow> try_backends env F art_of image_size ndim rest
                              (failures @ [backend_value candidate @ '': '' @ exn_type_name e @ '': '' @ exn_str e]) st'
                  | Inr (s, input_name) \<Rightarrow> (st', Inr (candidate, s, input_name, artifact)))))"

section \<open>Loaded models and the registry\<close>

record loaded_model =
  lm_name :: string
  lm_version :: string
  lm_task :: task_type
  lm_backend :: backend
  lm_session :: session
  lm_input_name :: string
  lm_class_names :: "string list"
  lm_wnids :: "string list"
  lm_image_size :: int
  lm_artifact_path :: path
  lm_loaded_at :: int
  lm_metrics :: "(string \<times> real) list"
  lm_degraded_from :: "backend option"

definition model_key :: "string \<Rightarrow> string \<Rightarrow> string" where
  "model_key name version = name @ '':'' @ version"

definition lm_key :: "loaded_model \<Rightarrow> string" where
  "lm_key m = model_key (lm_name m) (lm_version m)"

definition num_classes :: "loaded_model \<Rightarrow> nat" where
  "num_classes m = length (lm_class_names m)"

definition artifact_size_mb :: "fs \<Rightarrow> loaded_model \<Rightarrow> real" where
  "artifact_size_mb F m = py_round 1 (of_int (fs_size F (lm_artifact_path m)) / 10 ^ 6)"

record registry =
  reg_models :: "(string, loaded_model) dict"
  reg_active :: "(string, string) dict"

definition empty_registry :: registry where
  "empty_registry = \<lparr>reg_models = [], reg_active = []\<rparr>"

definition register :: "loaded_model \<Rightarrow> bool \<Rightarrow> registry \<Rightarrow> registry" where
  "register model make_active r =
     \<lparr>reg_models = dict_set (lm_key model) model (reg_models r),
      reg_active = (if make_active \<or> dict_get (reg_active r) (lm_name model) = None
                    then dict_set (lm_name model) (lm_version model) (reg_active r)
                    else reg_active r)\<rparr>"

definition get_model :: "registry \<Rightarrow> string \<Rightarrow> string option \<Rightarrow> loaded_model result" where
  "get_model r name version =
     (case py_or_str version (dict_get (reg_active r) name) of
        None \<Rightarrow>
          raise_api ModelNotFoundError (''No model registered under '' @ py_repr name @ ''.'')
            [(''available'', PList (map PStr (sort (dict_keys (reg_active r)))))]
      | Some resolved \<Rightarrow>
          (case dict_get (reg_models r) (model_key name resolved) of
             None \<Rightarrow>
               raise_api ModelNotFoundError
                 (''Model '' @ py_repr name @ '' version '' @ py_repr resolved @ '' is not registered.'')
                 [(''requested_version'', PStr resolved),
                  (''available_versions'',
                   PList (map PStr (sort (map lm_version
                     (filter (\<lambda>m. lm_name m = name) (dict_values (reg_models r)))))))]
           | Some m \<Rightarrow> Inr m))"

definition classifier_name :: string where "classifier_name = ''tiny-imagenet-classifier''"
definition detector_name :: string where "detector_name = ''rtdetr-coco-detector''"
definition embedder_name :: string where "embedder_name = ''tiny-imagenet-embedder''"

definition get_classifier :: "registry \<Rightarrow> string option \<Rightarrow> loaded_model result" where
  "get_classifier r version = get_model r classifier_name version"

definition get_detector :: "registry \<Rightarrow> string option \<Rightarrow> loaded_model result" where
  "get_detector r version = get_model r detector_name version"

definition get_embedder :: "registry \<Rightarrow> string option \<Rightarrow> loaded_model result" where
  "get_embedder r version = get_model r embedder_name version"

definition get_for_backend ::
  "registry \<Rightarrow> string \<Rightarrow> string option \<Rightarrow> backend option \<Rightarrow> loaded_model result" where
  "get_for_backend r name version b =
     res_bind (get_model r name version) (\<lambda>model.
       case b of
         None \<Rightarrow> Inr model
       | Some bk \<Rightarrow>
           if lm_backend model = bk then Inr model
           else raise_api ModelNotFoundError
                  (''Model '' @ py_repr name @ '' version '' @ py_repr (lm_version model) @ '' is loaded as ''
                   @ backend_value (lm_backend model) @ '', not '' @ backend_value bk
                   @ ''. Set INFERENCE_BACKEND='' @ backend_value bk @ '' to serve that runtime.'')
                  [(''requested_backend'', PStr (backend_value bk)),
                   (''loaded_backend'', PStr (backend_value (lm_backend model)))])"

definition list_models :: "registry \<Rightarrow> loaded_model list" where
  "list_models r = dict_values (reg_models r)"

definition is_active :: "registry \<Rightarrow> loaded_model \<Rightarrow> bool" where
  "is_active r m \<longleftrightarrow> dict_get (reg_active r) (lm_name m) = Some (lm_version m)"

definition set_active :: "string \<Rightarrow> string \<Rightarrow> registry \<Rightarrow> registry result" where
  "set_active name version r =
     (if model_key name version \<notin> set (dict_keys (reg_models r))
      then raise_api ModelNotFoundError
             (''Cannot activate '' @ model_key name version @ ''; it is not loaded.'') []
      else Inr (r\<lparr>reg_active := dict_set name version (reg_active r)\<rparr>))"

definition is_ready :: "registry \<Rightarrow> bool" where
  "is_ready r \<longleftrightarrow> reg_models r \<noteq> []"

section \<open>Loaders\<close>

record model_metadata =
  md_class_names :: "string list"
  md_wnids :: "string list"
  md_image_size :: int
  md_metrics :: "(string \<times> real) list"

text \<open>\<open>{k: float(v) for k, v in ... if isinstance(v, int | float)}\<close>; a bool is an int.\<close>

fun numeric_metrics :: "(string, pyval) dict \<Rightarrow> (string \<times> real) list" where
  "numeric_metrics [] = []"
| "numeric_metrics ((k, PInt i) # d) = (k, of_int i) # numeric_metrics d"
| "numeric_metrics ((k, PFloat x) # d) = (k, x) # numeric_metrics d"
| "numeric_metrics ((k, PBool b) # d) = (k, if b then 1 else 0) # numeric_metrics d"
| "numeric_metrics (_ # d) = numeric_metrics d"

definition path_str :: "path \<Rightarrow> string" where
  "path_str p = join ''/'' p"

definition labels_missing_error :: "path \<Rightarrow> string \<Rightarrow> exn" where
  "labels_missing_error art version =
     (let expected = (if version = default_version then art @ [''labels.json'']
                      else art @ [''onnx'', version, ''labels.json'']);
          detail =
            (if version = default_version
             then ''Model labels not found at '' @ path_str expected @ ''. Export artefacts with ''
                  @ ''`scripts/prepare_artifacts.py` before starting the API.''
             else ''Model labels not found for version '' @ version @ ''. A non-default ''
                  @ ''version must carry its own labels.json next to its graph, so ''
                  @ ''its predictions cannot be named from another version's class ''
                  @ ''list. Expected '' @ path_str expected @ ''. Copy it from the run that produced ''
                  @ ''the weights, or re-run `scripts/prepare_artifacts.py`.'')
      in ApiExc (api_error_init ModelUnavailableError (Some detail)
           (Some [(''expected_path'', PStr (path_str expected)), (''version'', PStr version)]) None None))"

definition key_error :: "string \<Rightarrow> exn" where
  "key_error k = PyExc ''KeyError'' (py_repr k)"

definition read_classifier_metadata :: "fs \<Rightarrow> path \<Rightarrow> string \<Rightarrow> model_metadata result" where
  "read_classifier_metadata F art version =
     (case resolve_versioned_metadata F art ''labels.json'' version of
        None \<Rightarrow> Inl (labels_missing_error art version)
      | Some labels_path \<Rightarrow>
          res_bind (fs_labels F labels_path) (\<lambda>labels.
          case lf_class_names labels of
            None \<Rightarrow> Inl (key_error ''class_names'')
          | Some class_names \<Rightarrow>
              let md = \<lparr>md_class_names = class_names,
                        md_wnids = (case lf_wnids labels of Some w \<Rightarrow> w | None \<Rightarrow> []),
                        md_image_size = (case lf_image_size labels of Some i \<Rightarrow> i | None \<Rightarrow> 224),
                        md_metrics = []\<rparr>
              in (case resolve_versioned_metadata F art ''metrics.json'' version of
                    None \<Rightarrow> Inr md
                  | Some metrics_path \<Rightarrow>
                      res_bind (fs_metrics F metrics_path) (\<lambda>d.
                      Inr (md\<lparr>md_metrics := numeric_metrics d\<rparr>)))))"

definition backend_chain :: "settings \<Rightarrow> backend list" where
  "backend_chain cfg =
     (if enable_graceful_degradation cfg then fallback_chain (inference_backend cfg)
      else [inference_backend cfg])"

text \<open>The embedder and the detector never fall back to INT8 from another backend.\<close>

definition chain_without_int8 :: "settings \<Rightarrow> backend list" where
  "chain_without_int8 cfg =
     (if inference_backend cfg \<noteq> ONNX_INT8 then filter (\<lambda>c. c \<noteq> ONNX_INT8) (backend_chain cfg)
      else backend_chain cfg)"

definition unavailable :: "string \<Rightarrow> string list \<Rightarrow> exn" where
  "unavailable what failures =
     ApiExc (api_error_init ModelUnavailableError
       (Some (''No inference backend could be initialised for the '' @ what @ ''.''))
       (Some [(''attempts'', PList (map PStr failures))]) None None)"

text \<open>State of the service: the linker and preload state, and the registry.\<close>

type_synonym model_state = "runtime_state \<times> registry"

definition load_classifier ::
  "runtime_env \<Rightarrow> fs \<Rightarrow> settings \<Rightarrow> int \<Rightarrow> string \<Rightarrow> string \<Rightarrow> bool \<Rightarrow> model_state
   \<Rightarrow> model_state \<times> loaded_model result" where
  "load_classifier env F cfg now name version make_active ms =
     (case ms of (st, reg) \<Rightarrow>
      case read_classifier_metadata F (artifacts_dir cfg) version of
        Inl e \<Rightarrow> ((st, reg), Inl e)
      | Inr md \<Rightarrow>
          (case try_backends env F (\<lambda>b. artifact_for F (artifacts_dir cfg) b version)
                  (Inr (md_image_size md)) 2 (backend_chain cfg) [] st of
             (st', Inl failures) \<Rightarrow> ((st', reg), Inl (unavailable ''classifier'' failures))
           | (st', Inr (candidate, s, input_name, artifact)) \<Rightarrow>
               let model = \<lparr>lm_name = name, lm_version = version, lm_task = CLASSIFICATION,
                            lm_backend = candidate, lm_session = s, lm_input_name = input_name,
                            lm_class_names = md_class_names md, lm_wnids = md_wnids md,
                            lm_image_size = md_image_size md, lm_artifact_path = artifact,
                            lm_loaded_at = now, lm_metrics = md_metrics md,
                            lm_degraded_from = (if candidate \<noteq> inference_backend cfg
                                                then Some (inference_backend cfg) else None)\<rparr>
               in ((st', register model make_active reg), Inr model)))"

definition embedder_artifact :: "fs \<Rightarrow> path \<Rightarrow> string \<Rightarrow> backend \<Rightarrow> path" where
  "embedder_artifact F art version b =
     resolve_versioned_artifact F (art @ [''onnx''])
       (if b = ONNX_INT8 then ''embedder_int8.onnx'' else ''embedder_fp32.onnx'') version"

definition load_embedder ::
  "runtime_env \<Rightarrow> fs \<Rightarrow> settings \<Rightarrow> int \<Rightarrow> string \<Rightarrow> string \<Rightarrow> bool \<Rightarrow> model_state
   \<Rightarrow> model_state \<times> loaded_model result" where
  "load_embedder env F cfg now name version make_active ms =
     (case ms of (st, reg) \<Rightarrow>
      case read_classifier_metadata F (artifacts_dir cfg) version of
        Inl e \<Rightarrow> ((st, reg), Inl e)
      | Inr md \<Rightarrow>
          (case try_backends env F (\<lambda>b. Some (embedder_artifact F (artifacts_dir cfg) version b))
                  (Inr (md_image_size md)) 2 (chain_without_int8 cfg) [] st of
             (st', Inl failures) \<Rightarrow> ((st', reg), Inl (unavailable ''embedder'' failures))
           | (st', Inr (candidate, s, input_name, artifact)) \<Rightarrow>
               let model = \<lparr>lm_name = name, lm_version = version, lm_task = EMBEDDING,
                            lm_backend = candidate, lm_session = s, lm_input_name = input_name,
                            lm_class_names = md_class_names md, lm_wnids = md_wnids md,
                            lm_image_size = md_image_size md, lm_artifact_path = artifact,
                            lm_loaded_at = now, lm_metrics = [],
                            lm_degraded_from = (if candidate \<noteq> inference_backend cfg
                                                then Some (inference_backend cfg) else None)\<rparr>
               in ((st', register model make_active reg), Inr model)))"

text \<open>\<open>{int(k): v ...}\<close>, then one name per class index, the index itself where there is none.\<close>

fun parse_id2label :: "(string \<times> string) list \<Rightarrow> (int, string) dict \<Rightarrow> (int, string) dict result" where
  "parse_id2label [] d = Inr d"
| "parse_id2label ((k, v) # rest) d =
     (case parse_int k of
        None \<Rightarrow> Inl (PyExc ''ValueError'' (''invalid literal for int() with base 10: '' @ py_repr k))
      | Some i \<Rightarrow> parse_id2label rest (dict_set i v d))"

definition detector_class_names :: "(int, string) dict \<Rightarrow> int \<Rightarrow> string list" where
  "detector_class_names id2label n =
     map (\<lambda>i. case dict_get id2label i of Some v \<Rightarrow> v | None \<Rightarrow> show_int i) (map int [0..<nat n])"

definition read_detector_metadata :: "fs \<Rightarrow> path \<Rightarrow> string \<Rightarrow> (string list \<times> int option) result" where
  "read_detector_metadata F art version =
     (case resolve_versioned_metadata F art ''detection_labels.json'' version of
        None \<Rightarrow>
          Inl (ApiExc (api_error_init ModelUnavailableError
            (Some (''Detection artefacts not found. Export them with ''
                   @ ''`python scripts/prepare_artifacts.py --with-detection`.''))
            (Some [(''expected'', PList
               [PStr (path_str (art @ [''onnx'', version, ''detector_fp32.onnx''])),
                PStr (path_str (art @ [''onnx'', version, ''detection_labels.json'']))])]) None None))
      | Some labels_path \<Rightarrow>
          res_bind (fs_det_labels F labels_path) (\<lambda>d.
          case df_id2label d of
            None \<Rightarrow> Inl (key_error ''id2label'')
          | Some kvs \<Rightarrow>
              res_bind (parse_id2label kvs []) (\<lambda>id2label.
              case df_num_classes d of
                None \<Rightarrow> Inl (key_error ''num_classes'')
              | Some n \<Rightarrow> Inr (detector_class_names id2label n, df_image_size d))))"

definition detector_artifact :: "fs \<Rightarrow> path \<Rightarrow> string \<Rightarrow> backend \<Rightarrow> path" where
  "detector_artifact F art version b =
     resolve_versioned_artifact F (art @ [''onnx''])
       (if b = ONNX_INT8 then ''detector_int8.onnx'' else ''detector_fp32.onnx'') version"

definition load_detector ::
  "runtime_env \<Rightarrow> fs \<Rightarrow> settings \<Rightarrow> int \<Rightarrow> string \<Rightarrow> string \<Rightarrow> bool \<Rightarrow> model_state
   \<Rightarrow> model_state \<times> loaded_model result" where
  "load_detector env F cfg now name version make_active ms =
     (case ms of (st, reg) \<Rightarrow>
      case read_detector_metadata F (artifacts_dir cfg) version of
        Inl e \<Rightarrow> ((st, reg), Inl e)
      | Inr (class_names, image_size) \<Rightarrow>
          let sz = (case image_size of None \<Rightarrow> Inl (key_error ''image_size'') | Some i \<Rightarrow> Inr i) in
          (case try_backends env F (\<lambda>b. Some (detector_artifact F (artifacts_dir cfg) version b))
                  sz 3 (chain_without_int8 cfg) [] st of
             (st', Inl failures) \<Rightarrow> ((st', reg), Inl (unavailable ''detector'' failures))
           | (st', Inr (candidate, s, input_name, artifact)) \<Rightarrow>
               (case sz of
                  Inl e \<Rightarrow> ((st', reg), Inl e)
                | Inr i \<Rightarrow>
                    let model = \<lparr>lm_name = name, lm_version = version, lm_task = DETECTION,
                                 lm_backend = candidate, lm_session = s, lm_input_name = input_name,
                                 lm_class_names = class_names, lm_wnids = [],
                                 lm_image_size = i, lm_artifact_path = artifact,
                                 lm_loaded_at = now, lm_metrics = [],
                                 lm_degraded_from = (if candidate \<noteq> inference_backend cfg
                                                     then Some (inference_backend cfg) else None)\<rparr>
                    in ((st', register model make_active reg), Inr model))))"

section \<open>Inference\<close>

definition execution_failed :: exn where
  "execution_failed =
     ApiExc (api_error_init ModelUnavailableError (Some ''The model failed to execute this request.'')
       None None None)"

definition run_multi :: "loaded_model \<Rightarrow> chw list \<Rightarrow> ndarray list result" where
  "run_multi model batch =
     (case sess_run (lm_session model) (lm_input_name model) batch of
        Inl _ \<Rightarrow> Inl execution_failed
      | Inr outputs \<Rightarrow> Inr outputs)"

definition run_model :: "loaded_model \<Rightarrow> chw list \<Rightarrow> ndarray result" where
  "run_model model batch =
     (case sess_run (lm_session model) (lm_input_name model) batch of
        Inl _ \<Rightarrow> Inl execution_failed
      | Inr [] \<Rightarrow> Inl index_error
      | Inr (out # _) \<Rightarrow> Inr out)"

section \<open>Version discovery\<close>

lemma set_remdups_filter: "set (remdups (map fst (filter P xs))) = fst ` {x \<in> set xs. P x}"
  by auto

lemma discover_versions_set:
  "set (discover_versions F d) =
     {n. (n, True) \<in> set (fs_entries F d) \<and> is_version n}
     \<union> {v. v = default_version \<and> (\<exists>n b. (n, b) \<in> set (fs_entries F d) \<and> ends_with n ''.onnx'')}"
  unfolding discover_versions_def Let_def
  by (auto simp: list_ex_iff image_iff)

lemma discover_versions_shape:
  "\<exists>rest. discover_versions F d =
       (if default_version \<in> set (discover_versions F d) then [default_version] else []) @ rest
     \<and> default_version \<notin> set rest \<and> sorted (map version_key rest) \<and> distinct rest"
  unfolding discover_versions_def Let_def
  by (intro exI conjI) auto

text \<open>
  Version discovery. The versions listed are exactly the version-named directories, plus
  the default version when a graph lies at the top level; no version is listed twice; the
  default version comes first if present, and the others follow in natural (numeric) order.
\<close>

theorem discover_versions_correct:
  "set (discover_versions F d) =
     {n. (n, True) \<in> set (fs_entries F d) \<and> is_version n}
     \<union> {v. v = default_version \<and> (\<exists>n b. (n, b) \<in> set (fs_entries F d) \<and> ends_with n ''.onnx'')}
   \<and> distinct (discover_versions F d)
   \<and> (\<exists>rest. discover_versions F d =
         (if default_version \<in> set (discover_versions F d) then [default_version] else []) @ rest
       \<and> default_version \<notin> set rest \<and> sorted (map version_key rest))"
proof -
  obtain rest where r: "discover_versions F d =
       (if default_version \<in> set (discover_versions F d) then [default_version] else []) @ rest"
     "default_version \<notin> set rest" "sorted (map version_key rest)" "distinct rest"
    using discover_versions_shape by blast
  have "distinct (discover_versions F d)" by (subst r(1)) (use r(2,4) in auto)
  then show ?thesis using r discover_versions_set by blast
qed

section \<open>The version contract on disk\<close>

text \<open>
  A version other than the default never resolves to the flat layout: the graph path lies
  in that version's own directory whether or not it exists, and a label or metric sidecar is
  either the one in that directory, existing there, or absent. So pinned weights are never
  another version's weights, and never another version's class list. Only the default version
  may use the flat files, and only when its own directory does not hold the file.
\<close>

theorem version_contract:
  "(version \<noteq> default_version \<longrightarrow>
      resolve_versioned_artifact F d filename version = d @ [version, filename]
      \<and> resolve_versioned_metadata F art filename version =
          (if fs_exists F (art @ [''onnx'', version, filename])
           then Some (art @ [''onnx'', version, filename]) else None))
   \<and> (\<forall>p. resolve_versioned_metadata F art filename version = Some p \<longrightarrow> fs_exists F p)
   \<and> (resolve_versioned_artifact F d filename default_version =
        (if fs_exists F (d @ [default_version, filename])
         then d @ [default_version, filename] else d @ [filename]))"
  by (auto simp: resolve_versioned_artifact_def resolve_versioned_metadata_def Let_def)

definition no_files :: "path \<Rightarrow> (string \<times> bool) list \<Rightarrow> fs" where
  "no_files present entries =
     \<lparr>fs_exists = (\<lambda>p. p = present), fs_entries = (\<lambda>p. entries),
      fs_labels = (\<lambda>p. Inr \<lparr>lf_class_names = Some [''goldfish'', ''bullfrog''], lf_wnids = None,
                             lf_image_size = Some 2\<rparr>),
      fs_metrics = (\<lambda>p. Inr [(''top1'', PFloat (4/5)), (''note'', PStr ''final'')]),
      fs_det_labels = (\<lambda>p. Inr \<lparr>df_id2label = Some [(''0'', ''person'')], df_num_classes = Some 2,
                                df_image_size = Some 2\<rparr>),
      fs_size = (\<lambda>p. 44700000)\<rparr>"

theorem version_contract_witness:
  "resolve_versioned_artifact (no_files [''a'', ''onnx'', ''g''] []) [''a'', ''onnx''] ''g'' ''v2''
     = [''a'', ''onnx'', ''v2'', ''g'']
   \<and> resolve_versioned_metadata (no_files [''a'', ''g''] []) [''a''] ''g'' ''v2'' = None"
  using version_contract [of "''v2''" "no_files [''a'', ''onnx'', ''g''] []" "[''a'', ''onnx'']" "''g''"]
    version_contract [of "''v2''" "no_files [''a'', ''g''] []" "[''a'']" "''g''"]
  by (simp add: default_version_def no_files_def)

section \<open>Backend selection\<close>

lemma create_backend_session_Inr:
  assumes "create_backend_session env art b st = (st', Inr (s, n))"
  shows "\<exists>p rest. sess_providers s = p # rest \<and> p \<in> set (satisfying_providers b)"
    and "first_input s = Inr n"
  using create_session_Inr [OF assms [unfolded create_backend_session_def]]
  by (cases "sess_providers s"; auto simp: acceptable_providers_def check_selected_def split: if_splits)+

lemma warmup_Inr:
  "warmup s n sz b nd = Inr u \<longleftrightarrow>
     (\<exists>out rest. sess_run s n [zero_image sz] = Inr (out # rest) \<and> length (nd_shape out) = nd)"
  by (auto simp: warmup_def res_bind_Inr_iff split: list.splits if_splits) (metis list.collapse)+

text \<open>What holds of a session the loop accepted: the provider in use satisfies the backend's
  label, and one inference on a zero image has succeeded with the right number of dimensions.\<close>

definition serves :: "backend \<Rightarrow> nat \<Rightarrow> session \<Rightarrow> string \<Rightarrow> int \<Rightarrow> bool" where
  "serves b nd s input_name sz \<longleftrightarrow>
     (case sess_providers s of [] \<Rightarrow> False | p # _ \<Rightarrow> p \<in> set (satisfying_providers b))
     \<and> first_input s = Inr input_name
     \<and> warmup s input_name sz b nd = Inr ()"

lemma try_backends_Inr:
  "try_backends env F art_of size_r nd chain fails st = (st', Inr (b, s, n, p)) \<Longrightarrow>
     b \<in> set chain \<and> art_of b = Some p \<and> fs_exists F p \<and> (\<exists>sz. size_r = Inr sz \<and> serves b nd s n sz)"
proof (induction env F art_of size_r nd chain fails st rule: try_backends.induct)
  case (1 env F art_of size_r nd fails st)
  then show ?case by simp
next
  case (2 env F art_of size_r nd c rest fails st)
  obtain q where q: "art_of c = Some q \<or> art_of c = None" by blast
  consider (skip) "art_of c = None" | (missing) q where "art_of c = Some q" "\<not> fs_exists F q"
    | (attempt) q where "art_of c = Some q" "fs_exists F q" by (cases "art_of c") auto
  then show ?case
  proof cases
    case attempt
    obtain st1 r where r: "create_backend_session env q c st = (st1, r)" by fastforce
    show ?thesis
    proof (cases "res_bind r (\<lambda>(s, input_name). res_bind size_r (\<lambda>sz.
                    res_bind (warmup s input_name sz c nd) (\<lambda>_. Inr (s, input_name))))")
      case (Inl e)
      with 2 attempt r show ?thesis by simp
    next
      case (Inr x)
      with 2 attempt r have x: "x = (s, n)" "c = b" "q = p" by (auto split: prod.splits)
      with Inr obtain sz where "r = Inr (s, n)" "size_r = Inr sz" "warmup s n sz c nd = Inr ()"
        by (auto simp: res_bind_Inr_iff split: prod.splits)
      with r x attempt show ?thesis
        using create_backend_session_Inr [of env q c st st1 s n] by (auto simp: serves_def)
    qed
  qed (use 2 in simp_all)
qed

lemma try_backends_Inl:
  "try_backends env F art_of size_r nd chain fails st = (st', Inl fs) \<Longrightarrow>
     length fs = length fails + length chain"
  by (induction env F art_of size_r nd chain fails st rule: try_backends.induct)
    (auto split: option.splits prod.splits sum.splits if_splits)

lemma fallback_chain_head: "\<exists>rest. fallback_chain b = b # rest"
  by (cases b) simp_all

lemma chain_without_int8_set:
  "b \<in> set (chain_without_int8 cfg) \<Longrightarrow> b \<in> set (backend_chain cfg) \<and> (b = ONNX_INT8 \<longrightarrow> inference_backend cfg = ONNX_INT8)"
  by (auto simp: chain_without_int8_def split: if_splits)

lemma backend_chain_no_degradation:
  "\<not> enable_graceful_degradation cfg \<Longrightarrow> b \<in> set (backend_chain cfg) \<longleftrightarrow> b = inference_backend cfg"
  by (simp add: backend_chain_def)

section \<open>What a load returns\<close>

text \<open>The parts of a loaded model the three loaders fix in the same way.\<close>

definition honestly_loaded ::
  "settings \<Rightarrow> fs \<Rightarrow> backend list \<Rightarrow> nat \<Rightarrow> string \<Rightarrow> string \<Rightarrow> loaded_model \<Rightarrow> bool" where
  "honestly_loaded cfg F chain nd name version m \<longleftrightarrow>
     lm_name m = name \<and> lm_version m = version
     \<and> lm_backend m \<in> set chain
     \<and> lm_degraded_from m = (if lm_backend m = inference_backend cfg then None
                              else Some (inference_backend cfg))
     \<and> fs_exists F (lm_artifact_path m)
     \<and> serves (lm_backend m) nd (lm_session m) (lm_input_name m) (lm_image_size m)"

lemma load_classifier_Inr:
  assumes "load_classifier env F cfg now name version act (st, reg) = ((st', reg'), Inr m)"
  shows "honestly_loaded cfg F (backend_chain cfg) 2 name version m \<and> reg' = register m act reg
         \<and> lm_task m = CLASSIFICATION
         \<and> artifact_for F (artifacts_dir cfg) (lm_backend m) version = Some (lm_artifact_path m)
         \<and> (\<exists>md. read_classifier_metadata F (artifacts_dir cfg) version = Inr md
                 \<and> lm_class_names m = md_class_names md)"
  using assms
  by (auto simp: load_classifier_def Let_def honestly_loaded_def split: sum.splits prod.splits
      dest!: try_backends_Inr)

lemma load_embedder_Inr:
  assumes "load_embedder env F cfg now name version act (st, reg) = ((st', reg'), Inr m)"
  shows "honestly_loaded cfg F (chain_without_int8 cfg) 2 name version m \<and> reg' = register m act reg
         \<and> lm_task m = EMBEDDING
         \<and> embedder_artifact F (artifacts_dir cfg) version (lm_backend m) = lm_artifact_path m"
  using assms
  by (auto simp: load_embedder_def Let_def honestly_loaded_def split: sum.splits prod.splits
      dest!: try_backends_Inr)

lemma load_detector_Inr:
  assumes "load_detector env F cfg now name version act (st, reg) = ((st', reg'), Inr m)"
  shows "honestly_loaded cfg F (chain_without_int8 cfg) 3 name version m \<and> reg' = register m act reg
         \<and> lm_task m = DETECTION
         \<and> detector_artifact F (artifacts_dir cfg) version (lm_backend m) = lm_artifact_path m"
  using assms
  by (auto simp: load_detector_def Let_def honestly_loaded_def split: sum.splits prod.splits
      option.splits dest!: try_backends_Inr)

lemma register_get_pinned:
  "lm_version m \<noteq> [] \<Longrightarrow> get_model (register m act r) (lm_name m) (Some (lm_version m)) = Inr m"
  by (simp add: get_model_def register_def py_or_str_def lm_key_def dict_simps)

lemma register_get_active: "get_model (register m True r) (lm_name m) None = Inr m"
  by (simp add: get_model_def register_def py_or_str_def lm_key_def dict_simps)

text \<open>
  C25. An honest classifier load. A load that succeeds returns a model under the requested name
  and version whose backend is one of the configured chain (exactly the preferred one when
  graceful degradation is off), marked degraded iff it is not the preferred backend; the
  execution provider in use satisfies the backend's label and a warmup inference succeeded; the
  graph is the version's own artefact; and the registry serves exactly this model for the pinned
  version, and for unpinned requests when it was made active. A load that fails leaves the
  registry unchanged, and once the labels are read it lists one failure per backend of the chain.
\<close>

theorem load_classifier_honest:
  assumes "load_classifier env F cfg now name version act (st, reg) = ((st', reg'), r)"
  shows "case r of
      Inr m \<Rightarrow>
        honestly_loaded cfg F (backend_chain cfg) 2 name version m
        \<and> (\<not> enable_graceful_degradation cfg \<longrightarrow> lm_backend m = inference_backend cfg)
        \<and> artifact_for F (artifacts_dir cfg) (lm_backend m) version = Some (lm_artifact_path m)
        \<and> (version \<noteq> [] \<longrightarrow> get_model reg' name (Some version) = Inr m)
        \<and> (act \<longrightarrow> get_model reg' name None = Inr m)
    | Inl e \<Rightarrow>
        reg' = reg
        \<and> (\<forall>md. read_classifier_metadata F (artifacts_dir cfg) version = Inr md \<longrightarrow>
             (\<exists>failures. e = unavailable ''classifier'' failures
                \<and> length failures = length (backend_chain cfg)))"
proof (cases r)
  case (Inr m)
  note * = load_classifier_Inr [OF assms [unfolded Inr]]
  then have n: "lm_name m = name" "lm_version m = version" by (simp_all add: honestly_loaded_def)
  with * Inr show ?thesis
    using register_get_pinned [of m act reg] register_get_active [of m reg]
      backend_chain_no_degradation [of cfg "lm_backend m"]
    by (auto simp: honestly_loaded_def)
next
  case (Inl e)
  with assms show ?thesis
    by (auto simp: load_classifier_def Let_def split: sum.splits prod.splits dest!: try_backends_Inl)
qed

definition demo_model_env :: runtime_env where
  "demo_model_env = (demo_env (\<lambda>p. Missing))
     \<lparr>env_new_session := (\<lambda>libs p opts ps.
        Inr \<lparr>sess_providers = [cpu_provider], sess_inputs = [''pixel_values''],
             sess_run = (\<lambda>n batch. Inr [\<lparr>nd_shape = [1, 2], nd_data = [0, 1]\<rparr>])\<rparr>)\<rparr>"

definition demo_fs :: fs where
  "demo_fs = (no_files [] [])\<lparr>fs_exists := (\<lambda>p. True)\<rparr>"

definition demo_rt :: runtime_state where
  "demo_rt = \<lparr>rt_preloaded = False, rt_libs = []\<rparr>"

definition demo_session :: session where
  "demo_session = \<lparr>sess_providers = [cpu_provider], sess_inputs = [''pixel_values''],
     sess_run = (\<lambda>n batch. Inr [\<lparr>nd_shape = [1, 2], nd_data = [0, 1]\<rparr>])\<rparr>"

lemma demo_backend_session:
  "\<exists>st' e. create_backend_session demo_model_env p b st =
     (st', if cpu_provider \<in> set (satisfying_providers b) then Inr (demo_session, ''pixel_values'') else Inl e)"
proof -
  have "available_cpus demo_model_env = Inr 32"
    by (simp add: available_cpus_def cgroup_cpu_quota_def demo_model_env_def demo_env_def)
  then show ?thesis
    by (cases b) (auto simp: create_backend_session_def create_session_def demo_model_env_def
        demo_session_def acceptable_providers_def check_selected_def first_input_def Let_def
        tensorrt_provider_def cpu_provider_def cuda_provider_def)
qed

lemma demo_warmup: "warmup demo_session ''pixel_values'' sz b 2 = Inr ()"
  by (simp add: warmup_def demo_session_def)

definition tensorrt_settings :: settings where
  "tensorrt_settings = default_settings\<lparr>inference_backend := TENSORRT\<rparr>"

lemma demo_load_classifier:
  "\<exists>ms' m. load_classifier demo_model_env demo_fs tensorrt_settings 0 ''c'' ''v2'' True (demo_rt, empty_registry)
     = (ms', Inr m) \<and> lm_backend m = ONNX"
proof -
  obtain st1 e where 1: "create_backend_session demo_model_env
      [''models'', ''artifacts'', ''onnx'', ''v2'', ''classifier_fp32.onnx''] TENSORRT demo_rt = (st1, Inl e)"
    using demo_backend_session [of "[''models'', ''artifacts'', ''onnx'', ''v2'', ''classifier_fp32.onnx'']" TENSORRT demo_rt]
    by (auto simp: cpu_provider_def tensorrt_provider_def)
  obtain st2 where 2: "create_backend_session demo_model_env
      [''models'', ''artifacts'', ''onnx'', ''v2'', ''classifier_fp32.onnx''] ONNX st1
        = (st2, Inr (demo_session, ''pixel_values''))"
    using demo_backend_session [of "[''models'', ''artifacts'', ''onnx'', ''v2'', ''classifier_fp32.onnx'']" ONNX st1]
    by (auto simp: cpu_provider_def cuda_provider_def)
  show ?thesis
    by (simp add: load_classifier_def read_classifier_metadata_def resolve_versioned_metadata_def
        demo_fs_def no_files_def backend_chain_def tensorrt_settings_def default_settings_def
        artifact_for_def resolve_versioned_artifact_def default_version_def 1 2 demo_warmup Let_def)
qed

theorem load_classifier_honest_witness:
  "\<exists>st' reg' m. load_classifier demo_model_env demo_fs tensorrt_settings 0 ''c'' ''v2'' True
       (demo_rt, empty_registry) = ((st', reg'), Inr m)
     \<and> lm_degraded_from m = Some TENSORRT \<and> get_model reg' ''c'' (Some ''v2'') = Inr m"
proof -
  obtain st' reg' m where l: "load_classifier demo_model_env demo_fs tensorrt_settings 0 ''c'' ''v2'' True
       (demo_rt, empty_registry) = ((st', reg'), Inr m)" "lm_backend m = ONNX"
    using demo_load_classifier by fastforce
  show ?thesis
    using load_classifier_honest [OF l(1)] l
    by (auto simp: honestly_loaded_def tensorrt_settings_def default_settings_def)
qed

text \<open>
  INT8 is never a silent substitute where it was measured to be inaccurate: the embedder and
  the detector run the quantised backend only if it is the configured one, whatever fails before,
  although the classifier's chain would reach it. The model they return is otherwise as honest
  as the classifier's: its backend is in the chain, degradation is recorded, and the registry
  serves it.
\<close>

theorem int8_never_silent:
  assumes "load_embedder env F cfg now name version act (st, reg) = ((st', reg'), Inr m)
           \<or> load_detector env F cfg now name version act (st, reg) = ((st', reg'), Inr m)"
  shows "(lm_backend m = ONNX_INT8 \<longrightarrow> inference_backend cfg = ONNX_INT8)
         \<and> honestly_loaded cfg F (chain_without_int8 cfg) (if lm_task m = DETECTION then 3 else 2) name version m
         \<and> (act \<longrightarrow> get_model reg' name None = Inr m)"
proof -
  have h: "honestly_loaded cfg F (chain_without_int8 cfg) (if lm_task m = DETECTION then 3 else 2) name version m
           \<and> reg' = register m act reg"
    using assms by (auto dest!: load_embedder_Inr load_detector_Inr)
  then have n: "lm_name m = name" "lm_backend m \<in> set (chain_without_int8 cfg)"
    by (simp_all add: honestly_loaded_def)
  have "act \<longrightarrow> get_model reg' name None = Inr m"
    using h n(1) register_get_active [of m reg] by auto
  with h show ?thesis
    using chain_without_int8_set [OF n(2)] by blast
qed

lemma demo_load_embedder:
  "\<exists>ms' m. load_embedder demo_model_env demo_fs tensorrt_settings 0 ''e'' ''v1'' True (demo_rt, empty_registry)
     = (ms', Inr m) \<and> lm_backend m = ONNX"
proof -
  let ?p = "[''models'', ''artifacts'', ''onnx'', ''v1'', ''embedder_fp32.onnx'']"
  obtain st1 e where 1: "create_backend_session demo_model_env ?p TENSORRT demo_rt = (st1, Inl e)"
    using demo_backend_session [of ?p TENSORRT demo_rt] by (auto simp: cpu_provider_def tensorrt_provider_def)
  obtain st2 where 2: "create_backend_session demo_model_env ?p ONNX st1
        = (st2, Inr (demo_session, ''pixel_values''))"
    using demo_backend_session [of ?p ONNX st1] by (auto simp: cpu_provider_def cuda_provider_def)
  show ?thesis
    by (simp add: load_embedder_def read_classifier_metadata_def resolve_versioned_metadata_def
        demo_fs_def no_files_def backend_chain_def chain_without_int8_def tensorrt_settings_def
        default_settings_def embedder_artifact_def resolve_versioned_artifact_def
        default_version_def 1 2 demo_warmup Let_def)
qed

theorem int8_never_silent_witness:
  "\<exists>ms' m. load_embedder demo_model_env demo_fs tensorrt_settings 0 ''e'' ''v1'' True
       (demo_rt, empty_registry) = (ms', Inr m) \<and> lm_backend m \<noteq> ONNX_INT8
     \<and> get_model (snd ms') ''e'' None = Inr m"
proof -
  obtain st' reg' m where l: "load_embedder demo_model_env demo_fs tensorrt_settings 0 ''e'' ''v1'' True
       (demo_rt, empty_registry) = ((st', reg'), Inr m)"
    using demo_load_embedder by fastforce
  show ?thesis
    using int8_never_silent [of demo_model_env demo_fs tensorrt_settings 0 "''e''" "''v1''" True demo_rt empty_registry st' reg' m] l
    by (auto simp: tensorrt_settings_def default_settings_def)
qed

text \<open>
  The \<open>torch\<close> backend label is not honest for the embedder and the detector: with \<open>torch\<close>
  configured, their loaders hand the FP32 ONNX graph to an ONNX Runtime session on the CPU, and
  when that warms up they report backend \<open>torch\<close> with no degradation. The classifier's loader
  has no artefact for \<open>torch\<close> and can only report it degraded, as \<open>onnx\<close>.
\<close>

theorem torch_label_not_torch:
  assumes "inference_backend cfg = TORCH"
    and "load_embedder env F cfg now name version act (st, reg) = ((st', reg'), Inr m)"
    and "lm_backend m = TORCH"
  shows "lm_degraded_from m = None
         \<and> (\<exists>rest. sess_providers (lm_session m) = cpu_provider # rest)
         \<and> lm_artifact_path m = embedder_artifact F (artifacts_dir cfg) version ONNX
         \<and> (\<forall>env' now' n act' st1 reg1 st2 reg2 k.
              load_classifier env' F cfg now' n version act' (st1, reg1) = ((st2, reg2), Inr k) \<longrightarrow>
              lm_backend k = ONNX \<and> lm_degraded_from k = Some TORCH)"
proof -
  note l = load_embedder_Inr [OF assms(2)]
  have "lm_backend k = ONNX \<and> lm_degraded_from k = Some TORCH"
    if "load_classifier env' F cfg now' n version act' (st1, reg1) = ((st2, reg2), Inr k)"
    for env' now' n act' st1 reg1 st2 reg2 k
  proof -
    note c = load_classifier_Inr [OF that]
    then have "lm_backend k \<noteq> TORCH" by (auto simp: artifact_for_def)
    with c assms(1) show ?thesis
      by (auto simp: honestly_loaded_def backend_chain_def split: if_splits)
  qed
  with l assms show ?thesis
    by (auto simp: honestly_loaded_def serves_def embedder_artifact_def split: list.splits)
qed

definition torch_settings :: settings where
  "torch_settings = default_settings\<lparr>inference_backend := TORCH\<rparr>"

lemma demo_load_torch:
  "\<exists>ms' m. load_embedder demo_model_env demo_fs torch_settings 0 ''e'' ''v1'' True (demo_rt, empty_registry)
     = (ms', Inr m) \<and> lm_backend m = TORCH"
proof -
  let ?p = "[''models'', ''artifacts'', ''onnx'', ''v1'', ''embedder_fp32.onnx'']"
  obtain st1 where 1: "create_backend_session demo_model_env ?p TORCH demo_rt
        = (st1, Inr (demo_session, ''pixel_values''))"
    using demo_backend_session [of ?p TORCH demo_rt] by (auto simp: cpu_provider_def)
  show ?thesis
    by (simp add: load_embedder_def read_classifier_metadata_def resolve_versioned_metadata_def
        demo_fs_def no_files_def backend_chain_def chain_without_int8_def torch_settings_def
        default_settings_def embedder_artifact_def resolve_versioned_artifact_def
        default_version_def 1 demo_warmup Let_def)
qed

theorem torch_label_not_torch_witness:
  "\<exists>ms' m rest. load_embedder demo_model_env demo_fs torch_settings 0 ''e'' ''v1'' True (demo_rt, empty_registry)
     = (ms', Inr m) \<and> lm_degraded_from m = None \<and> sess_providers (lm_session m) = cpu_provider # rest"
proof -
  obtain st' reg' m where l: "load_embedder demo_model_env demo_fs torch_settings 0 ''e'' ''v1'' True
       (demo_rt, empty_registry) = ((st', reg'), Inr m)" "lm_backend m = TORCH"
    using demo_load_torch by fastforce
  have "inference_backend torch_settings = TORCH" by (simp add: torch_settings_def)
  from torch_label_not_torch [OF this l] l show ?thesis by blast
qed

section \<open>The registry\<close>

text \<open>A model whose name has no colon, as the three configured names, and a non-empty version.\<close>

definition well_named :: "loaded_model \<Rightarrow> bool" where
  "well_named m \<longleftrightarrow> sep_free (CHR '':'') (lm_name m) \<and> lm_version m \<noteq> []"

definition registry_ok :: "registry \<Rightarrow> bool" where
  "registry_ok r \<longleftrightarrow>
     dict_wf (reg_models r)
     \<and> (\<forall>k m. dict_get (reg_models r) k = Some m \<longrightarrow> k = lm_key m \<and> well_named m)
     \<and> (\<forall>n v. dict_get (reg_active r) n = Some v \<longrightarrow>
          (\<exists>m. dict_get (reg_models r) (model_key n v) = Some m \<and> lm_name m = n \<and> lm_version m = v))
     \<and> (\<forall>k m. dict_get (reg_models r) k = Some m \<longrightarrow> dict_get (reg_active r) (lm_name m) \<noteq> None)"

lemma model_key_inject:
  "sep_free (CHR '':'') n \<Longrightarrow> sep_free (CHR '':'') n' \<Longrightarrow> model_key n v = model_key n' v' \<longleftrightarrow> n = n' \<and> v = v'"
  using sep_split_iff [of "CHR '':''" n n' v v'] by (simp add: model_key_def)

lemma registry_ok_key:
  "registry_ok r \<Longrightarrow> dict_get (reg_models r) (model_key n v) = Some m \<Longrightarrow> sep_free (CHR '':'') n \<Longrightarrow>
     lm_name m = n \<and> lm_version m = v"
  unfolding registry_ok_def lm_key_def well_named_def by (metis model_key_inject)

lemma registry_ok_empty: "registry_ok empty_registry"
  by (simp add: registry_ok_def empty_registry_def)

lemma registry_ok_active:
  "registry_ok r \<Longrightarrow> dict_get (reg_active r) n = Some v \<Longrightarrow>
     \<exists>m. dict_get (reg_models r) (model_key n v) = Some m \<and> lm_name m = n \<and> lm_version m = v \<and> well_named m"
  unfolding registry_ok_def by blast

lemma registry_ok_model:
  "registry_ok r \<Longrightarrow> dict_get (reg_models r) k = Some m \<Longrightarrow>
     k = lm_key m \<and> well_named m \<and> dict_get (reg_active r) (lm_name m) \<noteq> None"
  unfolding registry_ok_def by blast

lemma registry_ok_register:
  assumes r: "registry_ok r" and m: "well_named m"
  shows "registry_ok (register m act r)"
proof -
  let ?r = "register m act r"
  have models: "dict_get (reg_models ?r) k = (if k = lm_key m then Some m else dict_get (reg_models r) k)" for k
    by (simp add: register_def dict_simps)
  have active: "dict_get (reg_active ?r) n =
      (if n = lm_name m \<and> (act \<or> dict_get (reg_active r) n = None) then Some (lm_version m)
       else dict_get (reg_active r) n)" for n
    by (auto simp: register_def dict_simps)
  have "\<exists>m'. dict_get (reg_models ?r) (model_key n v) = Some m' \<and> lm_name m' = n \<and> lm_version m' = v"
    if "dict_get (reg_active ?r) n = Some v" for n v
  proof (cases "n = lm_name m \<and> v = lm_version m")
    case True
    then show ?thesis by (simp add: models lm_key_def)
  next
    case False
    with that have "dict_get (reg_active r) n = Some v" by (auto simp: active split: if_splits)
    from registry_ok_active [OF r this] obtain m' where
      m': "dict_get (reg_models r) (model_key n v) = Some m'" "lm_name m' = n" "lm_version m' = v" "well_named m'"
      by blast
    then have "model_key n v \<noteq> lm_key m"
      using m False by (auto simp: lm_key_def well_named_def model_key_inject)
    with m' show ?thesis by (simp add: models)
  qed
  moreover have "dict_wf (reg_models ?r)" using r by (simp add: registry_ok_def register_def dict_wf_set)
  moreover have "k = lm_key m' \<and> well_named m' \<and> dict_get (reg_active ?r) (lm_name m') \<noteq> None"
    if "dict_get (reg_models ?r) k = Some m'" for k m'
  proof (cases "k = lm_key m")
    case True
    with that have e: "m' = m" by (simp add: models)
    show ?thesis unfolding e using True m
      by (cases "dict_get (reg_active r) (lm_name m)") (auto simp: active)
  next
    case False
    with that have "dict_get (reg_models r) k = Some m'" by (simp add: models)
    from registry_ok_model [OF r this] show ?thesis by (auto simp: active)
  qed
  ultimately show ?thesis unfolding registry_ok_def by blast
qed

lemma registry_ok_set_active:
  assumes "registry_ok r" "sep_free (CHR '':'') n" "set_active n v r = Inr r'"
  shows "registry_ok r'"
proof -
  have r': "r' = r\<lparr>reg_active := dict_set n v (reg_active r)\<rparr>"
    and mem: "model_key n v \<in> set (dict_keys (reg_models r))"
    using assms(3) by (auto simp: set_active_def split: if_splits)
  from mem obtain m where m: "dict_get (reg_models r) (model_key n v) = Some m"
    by (metis dict_get_None_iff not_None_eq)
  with assms(1,2) have "lm_name m = n" "lm_version m = v" using registry_ok_key by blast+
  with m assms(1) show ?thesis by (auto simp: r' registry_ok_def dict_simps)
qed

text \<open>The contract a deployment relies on: versions stay pinnable, the active one serves unpinned
  requests, and activation moves only the unpinned traffic.\<close>

locale version_registry =
  fixes ok :: "'r \<Rightarrow> bool"
    and good :: "'m \<Rightarrow> bool"
    and add :: "'m \<Rightarrow> bool \<Rightarrow> 'r \<Rightarrow> 'r"
    and lookup :: "'r \<Rightarrow> string \<Rightarrow> string option \<Rightarrow> 'e + 'm"
    and switch :: "string \<Rightarrow> string \<Rightarrow> 'r \<Rightarrow> 'e + 'r"
    and name_of :: "'m \<Rightarrow> string"
    and version_of :: "'m \<Rightarrow> string"
  assumes ok_add: "ok r \<Longrightarrow> good m \<Longrightarrow> ok (add m act r)"
    and lookup_added: "good m \<Longrightarrow> lookup (add m act r) (name_of m) (Some (version_of m)) = Inr m"
    and lookup_added_active: "lookup (add m True r) (name_of m) None = Inr m"
    and lookup_kept:
      "ok r \<Longrightarrow> good m \<Longrightarrow> good m' \<Longrightarrow> name_of m' \<noteq> name_of m \<or> version_of m' \<noteq> version_of m \<Longrightarrow>
       lookup r (name_of m) (Some (version_of m)) = Inr m \<Longrightarrow>
       lookup (add m' act r) (name_of m) (Some (version_of m)) = Inr m"
    and lookup_kept_active:
      "ok r \<Longrightarrow> good m \<Longrightarrow> good m' \<Longrightarrow> name_of m' \<noteq> name_of m \<or> version_of m' \<noteq> version_of m \<Longrightarrow>
       lookup r (name_of m) None = Inr m \<Longrightarrow> lookup (add m' False r) (name_of m) None = Inr m"
    and switch_to:
      "ok r \<Longrightarrow> good m \<Longrightarrow> lookup r (name_of m) (Some (version_of m)) = Inr m \<Longrightarrow>
       \<exists>r'. switch (name_of m) (version_of m) r = Inr r' \<and> ok r' \<and> lookup r' (name_of m) None = Inr m"
    and switch_pinned:
      "switch n v r = Inr r' \<Longrightarrow> v' \<noteq> [] \<Longrightarrow> lookup r' n' (Some v') = lookup r n' (Some v')"
    and good_version: "good m \<Longrightarrow> version_of m \<noteq> []"
begin

lemma canary:
  assumes "ok r" "good cur" "good cand" "name_of cand = name_of cur" "version_of cand \<noteq> version_of cur"
  shows "\<exists>r3 r4. (let r2 = add cand False (add cur True r); n = name_of cur in
     lookup r2 n None = Inr cur \<and> lookup r2 n (Some (version_of cand)) = Inr cand
     \<and> switch n (version_of cand) r2 = Inr r3 \<and> lookup r3 n None = Inr cand
     \<and> lookup r3 n (Some (version_of cur)) = Inr cur
     \<and> switch n (version_of cur) r3 = Inr r4 \<and> lookup r4 n None = Inr cur
     \<and> lookup r4 n (Some (version_of cand)) = Inr cand)"
proof -
  let ?r1 = "add cur True r"
  let ?r2 = "add cand False ?r1"
  have ok2: "ok ?r2" and ok1: "ok ?r1" using assms by (simp_all add: ok_add)
  have s2: "lookup ?r2 (name_of cur) None = Inr cur"
    using assms ok1 lookup_added_active lookup_kept_active by metis
  have p2: "lookup ?r2 (name_of cur) (Some (version_of cur)) = Inr cur"
    using assms ok1 lookup_added lookup_kept by metis
  have n2: "lookup ?r2 (name_of cand) (Some (version_of cand)) = Inr cand"
    using assms lookup_added by blast
  from switch_to [OF ok2 assms(3) n2] obtain r3 where
    r3: "switch (name_of cand) (version_of cand) ?r2 = Inr r3" "ok r3" "lookup r3 (name_of cand) None = Inr cand"
    by blast
  have p3: "lookup r3 (name_of cur) (Some (version_of cur)) = Inr cur"
    using switch_pinned [OF r3(1)] p2 good_version [OF assms(2)] by simp
  have n3: "lookup r3 (name_of cand) (Some (version_of cand)) = Inr cand"
    using switch_pinned [OF r3(1)] n2 good_version [OF assms(3)] by simp
  from switch_to [OF r3(2) assms(2) p3] obtain r4 where
    r4: "switch (name_of cur) (version_of cur) r3 = Inr r4" "lookup r4 (name_of cur) None = Inr cur"
    by blast
  have "lookup r4 (name_of cand) (Some (version_of cand)) = Inr cand"
    using switch_pinned [OF r4(1)] n3 good_version [OF assms(3)] by simp
  with r3 r4 s2 n2 p3 show ?thesis unfolding Let_def assms(4) by blast
qed

end

lemma get_model_pinned:
  "v \<noteq> [] \<Longrightarrow> get_model r n (Some v) = Inr m \<longleftrightarrow> dict_get (reg_models r) (model_key n v) = Some m"
  by (simp add: get_model_def py_or_str_def split: option.splits)

lemma get_model_unpinned:
  "get_model r n None = Inr m \<longleftrightarrow>
     (\<exists>v. dict_get (reg_active r) n = Some v \<and> dict_get (reg_models r) (model_key n v) = Some m)"
  by (simp add: get_model_def py_or_str_def split: option.splits)

lemma set_active_models: "set_active n v r = Inr r' \<Longrightarrow> reg_models r' = reg_models r"
  by (auto simp: set_active_def split: if_splits)

interpretation reg: version_registry registry_ok well_named register get_model set_active lm_name lm_version
proof
  fix r m act assume "registry_ok r" "well_named m"
  then show "registry_ok (register m act r)" by (rule registry_ok_register)
next
  fix r and m m' :: loaded_model and act
  assume "registry_ok r" "well_named m" "well_named m'"
    "lm_name m' \<noteq> lm_name m \<or> lm_version m' \<noteq> lm_version m"
    "get_model r (lm_name m) (Some (lm_version m)) = Inr m"
  then show "get_model (register m' act r) (lm_name m) (Some (lm_version m)) = Inr m"
    by (auto simp: get_model_pinned well_named_def register_def dict_simps lm_key_def model_key_inject)
next
  fix r and m m' :: loaded_model
  assume r: "registry_ok r" and m: "well_named m" "well_named m'"
    and d: "lm_name m' \<noteq> lm_name m \<or> lm_version m' \<noteq> lm_version m"
    and g: "get_model r (lm_name m) None = Inr m"
  from g obtain v where v: "dict_get (reg_active r) (lm_name m) = Some v"
    "dict_get (reg_models r) (model_key (lm_name m) v) = Some m"
    by (auto simp: get_model_unpinned)
  have "v = lm_version m" using registry_ok_key [OF r v(2)] m(1) by (simp add: well_named_def)
  with v d m show "get_model (register m' False r) (lm_name m) None = Inr m"
    by (auto simp: get_model_unpinned register_def dict_simps lm_key_def well_named_def model_key_inject)
next
  fix r and m :: loaded_model
  assume r: "registry_ok r" and m: "well_named m" and g: "get_model r (lm_name m) (Some (lm_version m)) = Inr m"
  then have k: "dict_get (reg_models r) (lm_key m) = Some m"
    by (simp add: get_model_pinned well_named_def lm_key_def)
  let ?r' = "r\<lparr>reg_active := dict_set (lm_name m) (lm_version m) (reg_active r)\<rparr>"
  have "lm_key m \<in> set (dict_keys (reg_models r))" using k by (metis dict_get_None_iff option.simps(3))
  then have r': "set_active (lm_name m) (lm_version m) r = Inr ?r'"
    by (simp add: set_active_def lm_key_def)
  then show "\<exists>r'. set_active (lm_name m) (lm_version m) r = Inr r' \<and> registry_ok r'
      \<and> get_model r' (lm_name m) None = Inr m"
    using k registry_ok_set_active [OF r _ r'] m
    by (simp add: get_model_unpinned dict_simps lm_key_def well_named_def)
next
  fix n v v' n' :: string and r r'
  assume s: "set_active n v r = Inr r'" and "v' \<noteq> []"
  then show "get_model r' n' (Some v') = get_model r n' (Some v')"
    unfolding get_model_def set_active_models [OF s] by (simp add: py_or_str_def)
qed (auto simp: register_get_active intro: register_get_pinned simp: well_named_def)

text \<open>
  Canary and rollback. Registering a second version inactive leaves unpinned traffic on the
  stable version while the new one can be pinned; activating it moves unpinned traffic and keeps
  the stable version pinnable; activating the stable version again rolls back, and no step needs
  a reload.
\<close>

theorem canary_and_rollback:
  assumes "registry_ok r" "well_named cur" "well_named cand"
    and "lm_name cand = lm_name cur" "lm_version cand \<noteq> lm_version cur"
  shows "\<exists>r3 r4. (let r2 = register cand False (register cur True r); n = lm_name cur in
     get_model r2 n None = Inr cur \<and> get_model r2 n (Some (lm_version cand)) = Inr cand
     \<and> set_active n (lm_version cand) r2 = Inr r3 \<and> get_model r3 n None = Inr cand
     \<and> get_model r3 n (Some (lm_version cur)) = Inr cur
     \<and> set_active n (lm_version cur) r3 = Inr r4 \<and> get_model r4 n None = Inr cur
     \<and> get_model r4 n (Some (lm_version cand)) = Inr cand)"
  using assms by (rule reg.canary)

definition demo_model :: "string \<Rightarrow> loaded_model" where
  "demo_model v = \<lparr>lm_name = ''c'', lm_version = v, lm_task = CLASSIFICATION, lm_backend = ONNX,
     lm_session = demo_session, lm_input_name = ''pixel_values'',
     lm_class_names = [''goldfish'', ''bullfrog''], lm_wnids = [], lm_image_size = 2,
     lm_artifact_path = [], lm_loaded_at = 0, lm_metrics = [], lm_degraded_from = None\<rparr>"

theorem canary_and_rollback_witness:
  "get_model (register (demo_model ''v2'') False (register (demo_model ''v1'') True empty_registry)) ''c'' None
     = Inr (demo_model ''v1'')"
  using canary_and_rollback [OF registry_ok_empty, of "demo_model ''v1''" "demo_model ''v2''"]
  by (auto simp: Let_def demo_model_def well_named_def sep_free_def)

text \<open>Every registry the service can reach from start-up by loads and activations.\<close>

inductive registry_step :: "registry \<Rightarrow> registry \<Rightarrow> bool" where
  load: "well_named m \<Longrightarrow> registry_step r (register m act r)"
| activate: "sep_free (CHR '':'') n \<Longrightarrow> set_active n v r = Inr r' \<Longrightarrow> registry_step r r'"

inductive_cases registry_stepE: "registry_step r r'"

interpretation registry_run: step_system "\<lambda>r. r = empty_registry" registry_step registry_ok
  by unfold_locales
    (auto simp: registry_ok_empty elim!: registry_stepE intro: registry_ok_register registry_ok_set_active)

text \<open>
  C26. In every registry reachable from the empty one, every name that has a loaded model resolves
  without a pinned version, to a loaded model of that name, which \<open>is_active\<close>; every listed
  model is what pinning its version returns; and exactly one listed model of a name is active.
\<close>

theorem registry_reachable_serves:
  assumes "registry_step\<^sup>*\<^sup>* empty_registry r" "m \<in> set (list_models r)"
  shows "get_model r (lm_name m) (Some (lm_version m)) = Inr m
         \<and> (\<exists>!a. a \<in> set (list_models r) \<and> lm_name a = lm_name m \<and> is_active r a)
         \<and> (\<exists>a. get_model r (lm_name m) None = Inr a \<and> lm_name a = lm_name m \<and> is_active r a)"
proof -
  have ok: "registry_ok r" using registry_run.inv_reachable [OF refl assms(1)] .
  have listed: "dict_get (reg_models r) (lm_key a) = Some a \<and> well_named a
      \<and> dict_get (reg_active r) (lm_name a) \<noteq> None" if "a \<in> set (list_models r)" for a
  proof -
    from that ok obtain k where "dict_get (reg_models r) k = Some a"
      by (auto simp: list_models_def registry_ok_def dict_get_iff)
    with registry_ok_model [OF ok this] show ?thesis by auto
  qed
  from listed [OF assms(2)] obtain v where v: "dict_get (reg_active r) (lm_name m) = Some v" by auto
  from registry_ok_active [OF ok v] obtain a where
    a: "dict_get (reg_models r) (model_key (lm_name m) v) = Some a" "lm_name a = lm_name m" "lm_version a = v"
    by blast
  then have "a \<in> set (list_models r)" by (auto simp: list_models_def dest: map_of_SomeD intro: rev_image_eqI)
  moreover have "b = a" if "b \<in> set (list_models r)" "lm_name b = lm_name m" "is_active r b" for b
    using that listed [OF that(1)] v a by (auto simp: is_active_def lm_key_def)
  moreover have "is_active r a" using a v by (simp add: is_active_def)
  ultimately have "\<exists>!a. a \<in> set (list_models r) \<and> lm_name a = lm_name m \<and> is_active r a"
    using a(2) by blast
  moreover have "get_model r (lm_name m) None = Inr a" using a(1) v by (simp add: get_model_unpinned)
  moreover have "get_model r (lm_name m) (Some (lm_version m)) = Inr m"
    using listed [OF assms(2)] by (simp add: get_model_pinned well_named_def lm_key_def)
  ultimately show ?thesis using \<open>is_active r a\<close> a(2) by blast
qed

theorem registry_reachable_serves_witness:
  "\<exists>a. get_model (register (demo_model ''v1'') False empty_registry) ''c'' None = Inr a \<and> lm_name a = ''c''"
proof -
  have "well_named (demo_model ''v1'')" by (simp add: demo_model_def well_named_def sep_free_def)
  then have "registry_step\<^sup>*\<^sup>* empty_registry (register (demo_model ''v1'') False empty_registry)"
    by (intro r_into_rtranclp registry_step.load)
  from registry_reachable_serves [OF this, of "demo_model ''v1''"] show ?thesis
    by (auto simp: list_models_def register_def empty_registry_def demo_model_def)
qed

end
