(* ===== verification/Cache_Service.thy ===== *)
theory Cache_Service
  imports Schemas
begin

text \<open>
  The result cache (\<open>api/services/cache_service.py\<close>). Redis is a parameter: a record of the four
  commands used, each of which may fail with a Redis error, over a store of type \<open>'r\<close>; what the
  code relies on of them is \<open>redis_ok\<close>. SHA-256 is a parameter, known by the hexadecimal digest it
  returns. \<open>json.dumps\<close> with compact separators and sorted keys is modelled in full except for
  the text of floats; the decoder for stored payloads is a parameter with the encoder as its
  inverse.
\<close>

section \<open>JSON text\<close>

definition json_escape :: "char \<Rightarrow> string" where
  "json_escape c =
     (let n = of_char c :: nat in
      if c = CHR 0x22 \<or> c = CHR 0x5C then [CHR 0x5C, c]
      else if n = 10 then [CHR 0x5C, CHR ''n'']
      else if n = 13 then [CHR 0x5C, CHR ''r'']
      else if n = 9 then [CHR 0x5C, CHR ''t'']
      else if n = 8 then [CHR 0x5C, CHR ''b'']
      else if n = 12 then [CHR 0x5C, CHR ''f'']
      else if n < 32 \<or> 126 < n
      then [CHR 0x5C, CHR ''u'', CHR ''0'', CHR ''0'', hex_char (n div 16), hex_char (n mod 16)]
      else [c])"

definition json_string :: "string \<Rightarrow> string" where
  "json_string s = [CHR 0x22] @ concat (map json_escape s) @ [CHR 0x22]"

fun json_compact :: "(real \<Rightarrow> string) \<Rightarrow> pyval \<Rightarrow> string" where
  "json_compact float_repr PNone = ''null''"
| "json_compact float_repr (PBool b) = (if b then ''true'' else ''false'')"
| "json_compact float_repr (PInt i) = show_int i"
| "json_compact float_repr (PFloat x) = float_repr x"
| "json_compact float_repr (PStr s) = json_string s"
| "json_compact float_repr (PList vs) = ''['' @ join '','' (map (json_compact float_repr) vs) @ '']''"
| "json_compact float_repr (PDict kvs) =
     ''{'' @ join '','' (map (\<lambda>(k, t). json_string k @ '':'' @ t)
                (sort_key fst (map (\<lambda>(k, v). (k, json_compact float_repr v)) kvs))) @ ''}''"

section \<open>Keys\<close>

definition cache_schema_version :: string where
  "cache_schema_version = ''v1''"

definition encode_text :: "string \<Rightarrow> bytes" where
  "encode_text s = map (\<lambda>c. word_of_nat (of_char c)) s"

definition build_key ::
  "(bytes \<Rightarrow> string) \<Rightarrow> (real \<Rightarrow> string) \<Rightarrow> bytes \<Rightarrow> string \<Rightarrow> string \<Rightarrow> string
   \<Rightarrow> (string, pyval) dict option \<Rightarrow> string" where
  "build_key sha256 float_repr image_bytes model_name model_version backend options =
     (let digest = sha256 image_bytes;
          option_repr = json_compact float_repr (PDict (case options of Some d \<Rightarrow> d | None \<Rightarrow> []));
          option_digest = take 16 (sha256 (encode_text option_repr))
      in ''infer:'' @ cache_schema_version @ '':'' @ model_name @ '':'' @ model_version
         @ '':'' @ backend @ '':'' @ digest @ '':'' @ option_digest)"

section \<open>The service\<close>

type_synonym 'a redis_reply = "string + 'a"

record 'r redis =
  rd_get :: "string \<Rightarrow> 'r \<Rightarrow> 'r \<times> string option redis_reply"
  rd_set :: "string \<Rightarrow> string \<Rightarrow> int \<Rightarrow> 'r \<Rightarrow> 'r \<times> unit redis_reply"
  rd_delete :: "string \<Rightarrow> 'r \<Rightarrow> 'r \<times> unit redis_reply"
  rd_ping :: "'r \<Rightarrow> 'r \<times> unit redis_reply"

text \<open>\<open>json.loads\<close> and \<open>json.dumps(..., default=str)\<close>; \<open>None\<close> is \<open>ValueError\<close> or \<open>TypeError\<close>.\<close>

record json_codec =
  js_loads :: "string \<Rightarrow> pyval option"
  js_dumps :: "pyval \<Rightarrow> string option"

record 'r cache_service =
  cs_redis :: "'r redis option"
  cs_ttl_seconds :: int
  cs_available :: bool
  cs_hits :: int
  cs_misses :: int
  cs_errors :: int

definition cache_init :: "'r redis option \<Rightarrow> int \<Rightarrow> 'r cache_service" where
  "cache_init client ttl =
     \<lparr>cs_redis = client, cs_ttl_seconds = ttl, cs_available = (client \<noteq> None),
      cs_hits = 0, cs_misses = 0, cs_errors = 0\<rparr>"

definition cache_enabled :: "'r cache_service \<Rightarrow> 'r redis option" where
  "cache_enabled c = (if cs_available c then cs_redis c else None)"

text \<open>State of every operation: the service's counters and the Redis store.\<close>

type_synonym 'r cache_state = "'r cache_service \<times> 'r"

definition count_error :: "'r cache_service \<Rightarrow> 'r cache_service" where
  "count_error c = c\<lparr>cs_errors := cs_errors c + 1\<rparr>"

definition cache_delete :: "string \<Rightarrow> 'r cache_state \<Rightarrow> 'r cache_state" where
  "cache_delete key s =
     (case s of (c, db) \<Rightarrow>
      case cache_enabled c of
        None \<Rightarrow> (c, db)
      | Some client \<Rightarrow>
          (case rd_delete client key db of
             (db', Inl _) \<Rightarrow> (count_error c, db')
           | (db', Inr _) \<Rightarrow> (c, db')))"

text \<open>A payload of \<open>null\<close> is counted as a hit but returned as \<open>None\<close>, which callers read as a miss.\<close>

definition cache_get :: "json_codec \<Rightarrow> string \<Rightarrow> 'r cache_state \<Rightarrow> 'r cache_state \<times> pyval option" where
  "cache_get J key s =
     (case s of (c, db) \<Rightarrow>
      case cache_enabled c of
        None \<Rightarrow> ((c, db), None)
      | Some client \<Rightarrow>
          (case rd_get client key db of
             (db', Inl _) \<Rightarrow> ((count_error c, db'), None)
           | (db', Inr None) \<Rightarrow> ((c\<lparr>cs_misses := cs_misses c + 1\<rparr>, db'), None)
           | (db', Inr (Some raw)) \<Rightarrow>
               (case js_loads J raw of
                  None \<Rightarrow> (cache_delete key (count_error c, db'), None)
                | Some payload \<Rightarrow>
                    ((c\<lparr>cs_hits := cs_hits c + 1\<rparr>, db'), if payload = PNone then None else Some payload))))"

definition cache_set ::
  "json_codec \<Rightarrow> string \<Rightarrow> pyval \<Rightarrow> int option \<Rightarrow> 'r cache_state \<Rightarrow> 'r cache_state \<times> bool" where
  "cache_set J key value ttl_seconds s =
     (case s of (c, db) \<Rightarrow>
      case cache_enabled c of
        None \<Rightarrow> ((c, db), False)
      | Some client \<Rightarrow>
          (case js_dumps J value of
             None \<Rightarrow> ((count_error c, db), False)
           | Some text \<Rightarrow>
               (let ttl = (case ttl_seconds of Some t \<Rightarrow> if t = 0 then cs_ttl_seconds c else t
                           | None \<Rightarrow> cs_ttl_seconds c) in
                case rd_set client key text ttl db of
                  (db', Inl _) \<Rightarrow> ((count_error c, db'), False)
                | (db', Inr _) \<Rightarrow> ((c, db'), True))))"

definition cache_ping :: "'r cache_state \<Rightarrow> 'r \<times> bool \<times> string option" where
  "cache_ping s =
     (case s of (c, db) \<Rightarrow>
      case cs_redis c of
        None \<Rightarrow> (db, False, Some ''cache not configured'')
      | Some client \<Rightarrow>
          (case rd_ping client db of
             (db', Inl msg) \<Rightarrow> (db', False, Some msg)
           | (db', Inr _) \<Rightarrow> (db', True, None)))"

definition hit_rate :: "'r cache_service \<Rightarrow> real" where
  "hit_rate c =
     (let total = cs_hits c + cs_misses c in
      if total \<noteq> 0 then of_int (cs_hits c) / of_int total else 0)"

definition cache_stats :: "'r cache_service \<Rightarrow> (string, pyval) dict" where
  "cache_stats c =
     [(''enabled'', PBool (cache_enabled c \<noteq> None)),
      (''hits'', PInt (cs_hits c)),
      (''misses'', PInt (cs_misses c)),
      (''errors'', PInt (cs_errors c)),
      (''hit_rate'', PFloat (py_round 4 (hit_rate c)))]"

section \<open>Keys determine the request\<close>

lemma show_nat_no_minus: "show_nat n \<noteq> CHR ''-'' # s"
  using show_nat_digits [of "CHR ''-''" n] by (auto simp: is_digit_def)

lemma show_int_inject [simp]: "show_int i = show_int j \<longleftrightarrow> i = j"
  using show_nat_no_minus show_nat_no_minus [THEN not_sym]
  by (auto simp: show_int_def)

text \<open>The options the classifier passes.\<close>

definition classify_options :: "int \<Rightarrow> bool \<Rightarrow> (string, pyval) dict" where
  "classify_options top_k_results include_probabilities =
     [(''top_k'', PInt top_k_results), (''include_probabilities'', PBool include_probabilities)]"

lemma classify_options_json:
  "json_compact fr (PDict (classify_options k b)) =
     ''{'' @ json_string ''include_probabilities'' @ '':'' @ (if b then ''true'' else ''false'')
     @ '','' @ json_string ''top_k'' @ '':'' @ show_int k @ ''}''"
  by (simp add: classify_options_def)

lemma classify_options_json_inject:
  "json_compact fr (PDict (classify_options k b)) = json_compact fr (PDict (classify_options k' b'))
     \<longleftrightarrow> k = k' \<and> b = b'"
  unfolding classify_options_json by (cases b; cases b') auto

lemma encode_text_inject: "encode_text s = encode_text t \<longleftrightarrow> s = t"
proof -
  have "unat (word_of_nat (of_char c) :: 8 word) = of_char c" for c
    using nat_of_char_less_256 [of c] by (simp add: unat_of_nat)
  then have "inj (\<lambda>c. word_of_nat (of_char c) :: 8 word)"
    by (metis (no_types, lifting) injI of_char_eq_iff)
  then show ?thesis by (simp add: encode_text_def inj_map_eq_map)
qed

lemma build_key_parts:
  assumes "build_key sha fr img n v bk o1 = build_key sha fr img' n' v' bk' o2"
    and "\<forall>s \<in> {n, n', v, v', bk, bk'}. sep_free (CHR '':'') s"
    and "\<And>d. sep_free (CHR '':'') (sha d)"
  shows "n = n' \<and> v = v' \<and> bk = bk' \<and> sha img = sha img'
    \<and> take 16 (sha (encode_text (json_compact fr (PDict (case o1 of Some d \<Rightarrow> d | None \<Rightarrow> [])))))
      = take 16 (sha (encode_text (json_compact fr (PDict (case o2 of Some d \<Rightarrow> d | None \<Rightarrow> [])))))"
  using assms by (auto simp: build_key_def Let_def sep_split_iff)

text \<open>
  C36. The cache key determines everything that affects a classification. Provided the digest
  does not collide on the two images, nor on the two option texts within the 16 digits kept, and
  no component contains the separator, equal keys mean the same image bytes, model name, model
  version, backend and options; so an entry is never served for another image, version, runtime
  or option set. In particular the compact option text itself loses nothing.
\<close>

theorem cache_key_determines_request:
  assumes "build_key sha fr img n v bk (Some (classify_options k b))
             = build_key sha fr img' n' v' bk' (Some (classify_options k' b'))"
    and "\<forall>s \<in> {n, n', v, v', bk, bk'}. sep_free (CHR '':'') s"
    and "\<And>d. sep_free (CHR '':'') (sha d)"
    and "sha img = sha img' \<Longrightarrow> img = img'"
    and "let t = encode_text (json_compact fr (PDict (classify_options k b)));
             t' = encode_text (json_compact fr (PDict (classify_options k' b')))
         in take 16 (sha t) = take 16 (sha t') \<longrightarrow> t = t'"
  shows "img = img' \<and> n = n' \<and> v = v' \<and> bk = bk' \<and> k = k' \<and> b = b'"
proof -
  note p = build_key_parts [OF assms(1-3), simplified]
  then have "json_compact fr (PDict (classify_options k b)) = json_compact fr (PDict (classify_options k' b'))"
    using assms(5) encode_text_inject by (simp add: Let_def)
  with p assms(4) show ?thesis by (simp only: classify_options_json_inject)
qed

section \<open>Failing open\<close>

text \<open>
  The cache never fails a request and never miscounts one. Whatever Redis answers, a lookup
  returns a payload only as a counted hit; a lookup on an enabled cache counts exactly one hit
  or miss, or else only errors (a corrupt entry may add a second one for its failed deletion); a
  disabled cache is left untouched; and the configuration of the service never changes. A store
  reports success only if nothing was counted as an error.
\<close>

theorem cache_fail_open:
  "(case cache_get J key (c, db) of ((c', db'), r) \<Rightarrow>
      cs_redis c' = cs_redis c \<and> cs_available c' = cs_available c \<and> cs_ttl_seconds c' = cs_ttl_seconds c
      \<and> (if cache_enabled c = None then c' = c \<and> db' = db \<and> r = None
         else (cs_hits c' + cs_misses c' = cs_hits c + cs_misses c + 1 \<and> cs_errors c' = cs_errors c
                 \<and> (r = None \<or> cs_hits c' = cs_hits c + 1))
              \<or> (cs_hits c' = cs_hits c \<and> cs_misses c' = cs_misses c \<and> r = None
                 \<and> cs_errors c' \<in> {cs_errors c + 1, cs_errors c + 2})))
   \<and> (case cache_set J key v ttl (c, db) of ((c', db'), ok) \<Rightarrow>
        cs_hits c' = cs_hits c \<and> cs_misses c' = cs_misses c
        \<and> cs_errors c' = cs_errors c + (if ok \<or> cache_enabled c = None then 0 else 1)
        \<and> \<not> (cache_enabled c = None \<and> ok))"
  by (auto simp: cache_get_def cache_set_def cache_delete_def cache_enabled_def count_error_def Let_def
      split: option.splits sum.splits prod.splits if_splits)

text \<open>What the code relies on of Redis, through the content it can be seen to hold: a lookup that
  answers gives the stored text; a command changes no other key, except that entries may expire;
  a successful store replaces the entry; a failed command may or may not have been executed.\<close>

definition redis_ok :: "'r redis \<Rightarrow> ('r \<Rightarrow> string \<Rightarrow> string option) \<Rightarrow> bool" where
  "redis_ok client view \<longleftrightarrow>
     (\<forall>k db db' r. rd_get client k db = (db', r) \<longrightarrow>
        view db' \<subseteq>\<^sub>m view db \<and> (\<forall>t. r = Inr (Some t) \<longrightarrow> view db k = Some t))
     \<and> (\<forall>k t ttl db db' w. rd_set client k t ttl db = (db', w) \<longrightarrow>
          (view db' \<subseteq>\<^sub>m (view db)(k \<mapsto> t)) \<or> ((\<exists>e. w = Inl e) \<and> view db' \<subseteq>\<^sub>m view db))
     \<and> (\<forall>k db db' w. rd_delete client k db = (db', w) \<longrightarrow> view db' \<subseteq>\<^sub>m view db)"

lemma redis_okD:
  assumes "redis_ok client view"
  shows "rd_get client k db = (db', r) \<Longrightarrow> view db' \<subseteq>\<^sub>m view db"
    and "rd_get client k db = (db', Inr (Some t)) \<Longrightarrow> view db k = Some t"
    and "rd_set client k t ttl db = (db', Inr u) \<Longrightarrow> view db' \<subseteq>\<^sub>m (view db)(k \<mapsto> t)"
    and "rd_set client k t ttl db = (db', w) \<Longrightarrow> view db' \<subseteq>\<^sub>m (view db)(k \<mapsto> t) \<or> view db' \<subseteq>\<^sub>m view db"
    and "rd_delete client k db = (db', w) \<Longrightarrow> view db' \<subseteq>\<^sub>m view db"
  using assms unfolding redis_ok_def by blast+

lemma cache_delete_view:
  assumes "redis_ok client view" "cache_delete key (c, db) = (c', db')" "cs_redis c = Some client"
  shows "view db' \<subseteq>\<^sub>m view db \<and> cs_redis c' = cs_redis c"
proof -
  obtain db1 w where w: "rd_delete client key db = (db1, w)" by fastforce
  note v = redis_okD(5) [OF assms(1) w]
  show ?thesis
    using assms(2,3) v
    by (cases "cs_available c"; cases w) (auto simp: cache_delete_def cache_enabled_def count_error_def w)
qed

lemma cache_get_view:
  assumes "redis_ok client view" "cs_redis c = Some client" "cache_get J key (c, db) = ((c', db'), r)"
  shows "view db' \<subseteq>\<^sub>m view db"
    and "r = Some p \<Longrightarrow> \<exists>t. view db key = Some t \<and> js_loads J t = Some p"
proof -
  obtain db1 w where w: "rd_get client key db = (db1, w)" by fastforce
  note v = redis_okD(1) [OF assms(1) w]
  show "view db' \<subseteq>\<^sub>m view db"
  proof (cases "\<exists>raw. w = Inr (Some raw) \<and> js_loads J raw = None \<and> cs_available c")
    case True
    then have "cache_delete key (count_error c, db1) = (c', db')"
      using assms(2,3) w by (auto simp: cache_get_def cache_enabled_def)
    from cache_delete_view [OF assms(1) this] assms(2) v show ?thesis
      by (auto simp: count_error_def intro: map_le_trans)
  next
    case False
    with assms(2,3) w v show ?thesis
      by (auto simp: cache_get_def cache_enabled_def split: option.splits sum.splits if_splits)
  qed
  show "r = Some p \<Longrightarrow> \<exists>t. view db key = Some t \<and> js_loads J t = Some p"
    using assms
    by (auto simp: cache_get_def cache_enabled_def dest!: redis_okD(2) [OF assms(1)]
        split: option.splits prod.splits sum.splits if_splits)
qed

lemma cache_set_view:
  assumes "redis_ok client view" "cs_redis c = Some client" "cache_set J key v ttl (c, db) = ((c', db'), b)"
  shows "view db' \<subseteq>\<^sub>m view db \<or> (\<exists>t. js_dumps J v = Some t \<and> view db' \<subseteq>\<^sub>m (view db)(key \<mapsto> t))"
    and "b \<Longrightarrow> \<exists>t. js_dumps J v = Some t \<and> view db' \<subseteq>\<^sub>m (view db)(key \<mapsto> t)"
    and "cs_redis c' = cs_redis c"
  using assms
  by (auto simp: cache_set_def cache_enabled_def count_error_def Let_def
      dest: redis_okD(3) [OF assms(1)] redis_okD(4) [OF assms(1)]
      split: option.splits prod.splits sum.splits if_splits)

definition length_digest :: "bytes \<Rightarrow> string" where
  "length_digest d = show_nat (length d)"

theorem cache_key_determines_request_witness:
  "build_key length_digest (\<lambda>x. []) [1, 2] ''c'' ''v1'' ''onnx'' (Some (classify_options 5 True))
     \<noteq> build_key length_digest (\<lambda>x. []) [1, 2] ''c'' ''v2'' ''onnx'' (Some (classify_options 5 True))"
proof
  have sep: "sep_free (CHR '':'') (length_digest d)" for d
    using show_nat_digits by (force simp: length_digest_def sep_free_def is_digit_def)
  assume "build_key length_digest (\<lambda>x. []) [1, 2] ''c'' ''v1'' ''onnx'' (Some (classify_options 5 True))
     = build_key length_digest (\<lambda>x. []) [1, 2] ''c'' ''v2'' ''onnx'' (Some (classify_options 5 True))"
  from cache_key_determines_request [OF this _ sep] show False
    by (simp add: sep_free_def Let_def)
qed

section \<open>A Redis for witnesses\<close>

definition map_redis :: "(string \<Rightarrow> string option) redis" where
  "map_redis = \<lparr>rd_get = (\<lambda>k db. (db, Inr (db k))),
     rd_set = (\<lambda>k t ttl db. (db(k \<mapsto> t), Inr ())),
     rd_delete = (\<lambda>k db. (db(k := None), Inr ())),
     rd_ping = (\<lambda>db. (db, Inr ()))\<rparr>"

lemma map_redis_ok: "redis_ok map_redis (\<lambda>db. db)"
  by (auto simp: redis_ok_def map_redis_def map_le_def)

lemma cache_get_client: "cache_get J key (c, db) = ((c', db'), r) \<Longrightarrow> cs_redis c' = cs_redis c"
  by (auto simp: cache_get_def cache_delete_def count_error_def
      split: option.splits sum.splits prod.splits)

end
