(* ===== verification/AB_Testing.thy ===== *)
theory AB_Testing
  imports Model_Service Cache_Service
begin

text \<open>
  A/B testing across model versions (\<open>models/validation/ab_testing.py\<close>): experiments and their
  validation, the deterministic assignment of users to arms, the summary of an arm, the two
  comparisons and the recommendation. The raw SHA-256 digest, NumPy's percentile, SciPy's
  t-test and its normal distribution function are parameters; a t-test that returns NaN is
  \<open>None\<close>, which no comparison with the significance level accepts.
\<close>

definition min_arm_samples :: nat where
  "min_arm_samples = 100"

record variant =
  vt_name :: string
  vt_model_version :: string
  vt_weight :: real

definition value_error :: "string \<Rightarrow> exn" where
  "value_error m = PyExc ''ValueError'' m"

text \<open>\<open>Variant.__post_init__\<close>\<close>

definition make_variant :: "string \<Rightarrow> string \<Rightarrow> real \<Rightarrow> variant result" where
  "make_variant n v w =
     (if 0 \<le> w \<and> w \<le> 1 then Inr \<lparr>vt_name = n, vt_model_version = v, vt_weight = w\<rparr>
      else Inl (value_error ''weight must be in [0, 1]''))"

record ab_experiment =
  ex_name :: string
  ex_variants :: "variant list"
  ex_enabled :: bool

text \<open>\<open>math.isclose(a, b, abs_tol=t)\<close> with the default relative tolerance.\<close>

definition isclose :: "real \<Rightarrow> real \<Rightarrow> real \<Rightarrow> bool" where
  "isclose a b t \<longleftrightarrow> \<bar>a - b\<bar> \<le> max (max \<bar>a\<bar> \<bar>b\<bar> / 10 ^ 9) t"

text \<open>\<open>Experiment.__post_init__\<close>\<close>

definition make_experiment :: "string \<Rightarrow> variant list \<Rightarrow> bool \<Rightarrow> ab_experiment result" where
  "make_experiment n vs enabled =
     (if vs = [] then Inl (value_error ''An experiment needs at least one variant'')
      else if \<not> isclose (sum_list (map vt_weight vs)) 1 (1 / 10 ^ 6)
      then Inl (value_error ''Variant weights must sum to 1.0'')
      else if length (map vt_name vs) \<noteq> card (set (map vt_name vs))
      then Inl (value_error ''Variant names must be unique'')
      else Inr \<lparr>ex_name = n, ex_variants = vs, ex_enabled = enabled\<rparr>)"

definition from_bytes_big :: "bytes \<Rightarrow> nat" where
  "from_bytes_big bs = foldl (\<lambda>acc b. acc * 256 + unat b) 0 bs"

definition position :: "(bytes \<Rightarrow> bytes) \<Rightarrow> string \<Rightarrow> string \<Rightarrow> real" where
  "position digest experiment_name user_id =
     of_nat (from_bytes_big (take 8 (digest (encode_text (experiment_name @ '':'' @ user_id))))) / 2 ^ 64"

text \<open>The loop of \<open>assign\<close>: the first variant whose cumulative weight exceeds the position; the
  last one when none does.\<close>

fun assign_from :: "real \<Rightarrow> real \<Rightarrow> variant list \<Rightarrow> variant option" where
  "assign_from pos cumulative [] = None"
| "assign_from pos cumulative (v # vs) =
     (if pos < cumulative + vt_weight v then Some v
      else assign_from pos (cumulative + vt_weight v) vs)"

definition assign :: "(bytes \<Rightarrow> bytes) \<Rightarrow> ab_experiment \<Rightarrow> string \<Rightarrow> variant" where
  "assign digest e user_id =
     (if \<not> ex_enabled e then hd (ex_variants e)
      else case assign_from (position digest (ex_name e) user_id) 0 (ex_variants e) of
             Some v \<Rightarrow> v
           | None \<Rightarrow> last (ex_variants e))"

definition control :: "ab_experiment \<Rightarrow> variant" where
  "control e = hd (ex_variants e)"

section \<open>Comparing arms\<close>

text \<open>One row of the audit trail, as the analysis reads it; a missing key is \<open>None\<close>.\<close>

record arm_row =
  ar_latency_ms :: "real option"
  ar_status :: "string option"
  ar_top_probability :: "real option"

record arm_metrics =
  am_variant :: string
  am_model_version :: string
  am_count :: nat
  am_success_rate :: real
  am_mean_latency_ms :: real
  am_p95_latency_ms :: real
  am_mean_confidence :: "real option"

record comparison =
  cp_metric :: string
  cp_control_value :: real
  cp_treatment_value :: real
  cp_absolute :: real
  cp_relative :: real
  cp_interval :: "real \<times> real"
  cp_p_value :: "real option"
  cp_significant :: bool
  cp_material :: bool

record experiment_report =
  er_experiment :: string
  er_arms :: "arm_metrics list"
  er_comparisons :: "comparison list"
  er_recommendation :: string

record stats =
  sp_percentile :: "real list \<Rightarrow> real \<Rightarrow> real"
  sp_ttest :: "real list \<Rightarrow> real list \<Rightarrow> real option"
  sp_norm_cdf :: "real \<Rightarrow> real"

definition mean :: "real list \<Rightarrow> real" where
  "mean xs = sum_list xs / of_nat (length xs)"

text \<open>\<open>var(ddof=1)\<close>, on the at least two observations its callers pass.\<close>

definition sample_var :: "real list \<Rightarrow> real" where
  "sample_var xs = sum_list (map (\<lambda>x. (x - mean xs)\<^sup>2) xs) / (of_nat (length xs) - 1)"

definition latencies :: "arm_row list \<Rightarrow> real list result" where
  "latencies records =
     map_res (\<lambda>r. case ar_latency_ms r of None \<Rightarrow> Inl (key_error ''latency_ms'') | Some x \<Rightarrow> Inr x) records"

definition successes :: "arm_row list \<Rightarrow> nat" where
  "successes records = length (filter (\<lambda>r. ar_status r = Some ''success'') records)"

definition summarise_arm :: "stats \<Rightarrow> string \<Rightarrow> string \<Rightarrow> arm_row list \<Rightarrow> arm_metrics result" where
  "summarise_arm S vname version records =
     res_bind (latencies records) (\<lambda>ls.
     let confidences = concat (map (\<lambda>r. case ar_top_probability r of None \<Rightarrow> [] | Some p \<Rightarrow> [p]) records) in
     Inr \<lparr>am_variant = vname, am_model_version = version, am_count = length records,
          am_success_rate = (if records \<noteq> [] then of_nat (successes records) / of_nat (length records) else 0),
          am_mean_latency_ms = (if ls \<noteq> [] then mean ls else 0),
          am_p95_latency_ms = (if ls \<noteq> [] then sp_percentile S ls 95 else 0),
          am_mean_confidence = (if confidences \<noteq> [] then Some (mean confidences) else None)\<rparr>)"

definition significant_at_5 :: "real option \<Rightarrow> bool" where
  "significant_at_5 p = (case p of None \<Rightarrow> False | Some x \<Rightarrow> x < 5 / 100)"

definition compare_means :: "stats \<Rightarrow> string \<Rightarrow> real list \<Rightarrow> real list \<Rightarrow> real \<Rightarrow> comparison" where
  "compare_means S metric ctl trt material_threshold =
     (let control_mean = mean ctl; treatment_mean = mean trt;
          absolute = treatment_mean - control_mean;
          relative = (if control_mean \<noteq> 0 then absolute / control_mean else 0);
          p = sp_ttest S trt ctl;
          standard_error = sqrt (sample_var ctl / of_nat (length ctl) + sample_var trt / of_nat (length trt));
          margin = 196 / 100 * standard_error
      in \<lparr>cp_metric = metric, cp_control_value = control_mean, cp_treatment_value = treatment_mean,
          cp_absolute = absolute, cp_relative = relative,
          cp_interval = (absolute - margin, absolute + margin),
          cp_p_value = p, cp_significant = significant_at_5 p,
          cp_material = (material_threshold \<le> \<bar>relative\<bar>)\<rparr>)"

definition rate :: "nat \<Rightarrow> nat \<Rightarrow> real" where
  "rate s n = (if n \<noteq> 0 then of_nat s / of_nat n else 0)"

definition compare_proportions ::
  "stats \<Rightarrow> string \<Rightarrow> nat \<Rightarrow> nat \<Rightarrow> nat \<Rightarrow> nat \<Rightarrow> real \<Rightarrow> comparison" where
  "compare_proportions S metric control_successes control_total treatment_successes treatment_total
     material_threshold =
     (let control_rate = rate control_successes control_total;
          treatment_rate = rate treatment_successes treatment_total;
          absolute = treatment_rate - control_rate;
          relative = (if control_rate \<noteq> 0 then absolute / control_rate else 0);
          nc = of_nat (max control_total 1); nt = of_nat (max treatment_total 1);
          pooled = of_nat (control_successes + treatment_successes)
                     / of_nat (max (control_total + treatment_total) 1);
          pooled_se = sqrt (pooled * (1 - pooled) * (1 / nc + 1 / nt));
          z = (if pooled_se \<noteq> 0 then absolute / pooled_se else 0);
          p_value = 2 * (1 - sp_norm_cdf S \<bar>z\<bar>);
          unpooled_se = sqrt (control_rate * (1 - control_rate) / nc + treatment_rate * (1 - treatment_rate) / nt);
          margin = 196 / 100 * unpooled_se
      in \<lparr>cp_metric = metric, cp_control_value = control_rate, cp_treatment_value = treatment_rate,
          cp_absolute = absolute, cp_relative = relative,
          cp_interval = (absolute - margin, absolute + margin),
          cp_p_value = Some p_value, cp_significant = significant_at_5 (Some p_value),
          cp_material = (material_threshold \<le> \<bar>absolute\<bar>)\<rparr>)"

definition is_regression :: "comparison \<Rightarrow> bool" where
  "is_regression c \<longleftrightarrow>
     cp_significant c \<and> cp_material c
     \<and> ((ends_with (cp_metric c) ''latency_ms'' \<and> 0 < cp_absolute c)
        \<or> (ends_with (cp_metric c) ''success_rate'' \<and> cp_absolute c < 0))"

definition safe_to_promote :: string where
  "safe_to_promote = ''Safe to promote: significant and material improvement, no regressions.''"

definition no_material_difference :: string where
  "no_material_difference =
     ''No material difference detected. Either arm is acceptable; prefer the simpler or cheaper one.''"

definition do_not_promote :: string where
  "do_not_promote = ''Do not promote: significant and material regression in ''"

definition recommend :: "comparison list \<Rightarrow> string" where
  "recommend comparisons =
     (if comparisons = [] then ''Insufficient data in one or more challenger arms.''
      else
       (let regressions = filter is_regression comparisons in
        if regressions \<noteq> []
        then do_not_promote @ join '', '' (map cp_metric regressions) @ ''.''
        else if filter (\<lambda>c. cp_significant c \<and> cp_material c) comparisons \<noteq> []
        then safe_to_promote else no_material_difference))"

definition variant_records :: "(string, arm_row list) dict \<Rightarrow> variant \<Rightarrow> arm_row list" where
  "variant_records d v = (case dict_get d (vt_name v) of None \<Rightarrow> [] | Some rs \<Rightarrow> rs)"

definition compare_arm :: "stats \<Rightarrow> arm_row list \<Rightarrow> variant \<Rightarrow> arm_row list \<Rightarrow> comparison list result" where
  "compare_arm S control_records v treatment_records =
     res_bind (latencies control_records) (\<lambda>cl.
     res_bind (latencies treatment_records) (\<lambda>tl'.
     Inr [compare_means S (vt_name v @ ''.latency_ms'') cl tl' (5 / 100),
          compare_proportions S (vt_name v @ ''.success_rate'') (successes control_records) (length control_records)
            (successes treatment_records) (length treatment_records) (1 / 100)]))"

definition analyse_experiment :: "stats \<Rightarrow> ab_experiment \<Rightarrow> (string, arm_row list) dict \<Rightarrow> experiment_report result" where
  "analyse_experiment S e d =
     res_bind (map_res (\<lambda>v. summarise_arm S (vt_name v) (vt_model_version v) (variant_records d v))
                 (filter (\<lambda>v. variant_records d v \<noteq> []) (ex_variants e))) (\<lambda>arms.
     let control_records = variant_records d (control e) in
     if length control_records < min_arm_samples
     then Inr \<lparr>er_experiment = ex_name e, er_arms = arms, er_comparisons = [],
               er_recommendation = ''Insufficient data: the control arm has '' @ show_nat (length control_records)
                 @ '' observations, below the '' @ show_nat min_arm_samples @ '' required.''\<rparr>
     else
       res_bind (map_res (\<lambda>v. compare_arm S control_records v (variant_records d v))
                   (filter (\<lambda>v. min_arm_samples \<le> length (variant_records d v)) (tl (ex_variants e)))) (\<lambda>css.
       Inr \<lparr>er_experiment = ex_name e, er_arms = arms, er_comparisons = concat css,
            er_recommendation = recommend (concat css)\<rparr>))"

section \<open>Assignment\<close>

lemma from_bytes_big_bound: "from_bytes_big bs < 256 ^ length bs"
proof -
  have "foldl (\<lambda>acc b. acc * 256 + unat b) a bs < (a + 1) * 256 ^ length bs" for a :: nat and bs :: bytes
  proof (induction bs arbitrary: a)
    case (Cons b bs)
    have b: "unat b < 256" using unsigned_less [of b, where 'a = nat] by simp
    have "foldl (\<lambda>acc b. acc * 256 + unat b) a (b # bs) < (a * 256 + unat b + 1) * 256 ^ length bs"
      using Cons [of "a * 256 + unat b"] by simp
    also have "\<dots> \<le> ((a + 1) * 256) * 256 ^ length bs" using b by (intro mult_right_mono) auto
    finally show ?case by (simp add: algebra_simps)
  qed simp
  from this [of 0] show ?thesis by (simp add: from_bytes_big_def)
qed

lemma position_bounds: "0 \<le> position digest n u \<and> position digest n u < 1"
proof -
  let ?b = "take 8 (digest (encode_text (n @ '':'' @ u)))"
  have "from_bytes_big ?b < 256 ^ length ?b" by (rule from_bytes_big_bound)
  also have "\<dots> \<le> (256::nat) ^ 8" by (rule power_increasing) auto
  also have "\<dots> = 2 ^ 64" by simp
  finally have "real (from_bytes_big ?b) < 2 ^ 64"
    by (metis of_nat_less_iff of_nat_numeral of_nat_power)
  then show ?thesis by (simp add: position_def)
qed

lemma assign_from_Some:
  "assign_from p c vs = Some v \<Longrightarrow> c \<le> p \<Longrightarrow>
     \<exists>i < length vs. v = vs ! i \<and> c + sum_list (map vt_weight (take i vs)) \<le> p
       \<and> p < c + sum_list (map vt_weight (take (Suc i) vs))"
proof (induction vs arbitrary: c)
  case (Cons w ws)
  show ?case
  proof (cases "p < c + vt_weight w")
    case True
    then show ?thesis using Cons.prems by (intro exI [of _ 0]) auto
  next
    case False
    then obtain i where "i < length ws" "v = ws ! i"
      "c + vt_weight w + sum_list (map vt_weight (take i ws)) \<le> p"
      "p < c + vt_weight w + sum_list (map vt_weight (take (Suc i) ws))"
      using Cons.IH [of "c + vt_weight w"] Cons.prems False by auto
    then show ?thesis by (intro exI [of _ "Suc i"]) (auto simp: add.assoc)
  qed
qed simp

lemma assign_from_None:
  "assign_from p c vs = None \<Longrightarrow> c \<le> p \<Longrightarrow> i \<le> length vs \<Longrightarrow> c + sum_list (map vt_weight (take i vs)) \<le> p"
proof (induction vs arbitrary: c i)
  case (Cons w ws)
  then show ?case by (cases i) (auto split: if_splits simp: add.assoc [symmetric])
qed simp

lemma make_experiment_Inr:
  "make_experiment n vs en = Inr e \<longleftrightarrow>
     vs \<noteq> [] \<and> isclose (sum_list (map vt_weight vs)) 1 (1 / 10 ^ 6) \<and> distinct (map vt_name vs)
     \<and> e = \<lparr>ex_name = n, ex_variants = vs, ex_enabled = en\<rparr>"
proof -
  have "length (map vt_name vs) = card (set (map vt_name vs)) \<longleftrightarrow> distinct (map vt_name vs)"
    by (metis card_distinct distinct_card)
  then show ?thesis unfolding make_experiment_def by (auto simp del: length_map set_map)
qed

lemma isclose_1: "isclose t 1 (1 / 10 ^ 6) \<Longrightarrow> \<bar>t - 1\<bar> \<le> 1 / 10 ^ 6"
  unfolding isclose_def max_def abs_if by (simp split: if_splits)

text \<open>
  C33. Assignment by share. Every user of a valid, enabled experiment gets exactly one arm, which
  depends on nothing but the experiment's name and the user: the arm whose interval of the
  cumulative weights contains the user's hash position in \<open>[0, 1)\<close> (the last arm also takes what
  lies above the sum of the weights). So an arm's share of the positions is its weight, and an
  arm of weight zero other than the last gets no traffic. A disabled experiment gives everybody
  the control arm.
\<close>

theorem assign_by_share:
  fixes n u digest vs
  assumes "make_experiment n vs en = Inr e" "\<forall>v \<in> set vs. 0 \<le> vt_weight v \<and> vt_weight v \<le> 1"
  defines "pos \<equiv> position digest n u" and "cum \<equiv> \<lambda>i. sum_list (map vt_weight (take i vs))"
  shows "0 \<le> pos \<and> pos < 1 \<and> \<bar>cum (length vs) - 1\<bar> \<le> 1 / 10 ^ 6
    \<and> (if en
       then \<exists>i < length vs. assign digest e u = vs ! i
              \<and> (\<forall>j < length vs. assign digest e u = vs ! j \<longrightarrow> j = i)
              \<and> cum i \<le> pos \<and> (Suc i = length vs \<or> pos < cum (Suc i))
              \<and> cum (Suc i) = cum i + vt_weight (vs ! i)
              \<and> (Suc i = length vs \<or> 0 < vt_weight (vs ! i))
       else assign digest e u = control e)"
proof -
  have e: "vs \<noteq> []" "isclose (sum_list (map vt_weight vs)) 1 (1 / 10 ^ 6)" "distinct (map vt_name vs)"
    "e = \<lparr>ex_name = n, ex_variants = vs, ex_enabled = en\<rparr>"
    using assms(1) by (auto simp: make_experiment_Inr)
  have tot: "\<bar>cum (length vs) - 1\<bar> \<le> 1 / 10 ^ 6"
    using isclose_1 [OF e(2)] by (simp add: cum_def)
  have dv: "distinct vs" using e(3) by (simp add: distinct_map)
  have pb: "0 \<le> pos" "pos < 1" using position_bounds by (simp_all add: pos_def)
  have step: "cum (Suc i) = cum i + vt_weight (vs ! i)" if "i < length vs" for i
    using that by (simp add: cum_def take_Suc_conv_app_nth)
  have arm: "\<exists>i < length vs. assign digest e u = vs ! i \<and> cum i \<le> pos \<and> (Suc i = length vs \<or> pos < cum (Suc i))" if en
  proof (cases "assign_from pos 0 vs")
    case None
    then have "assign digest e u = vs ! (length vs - 1)"
      using that e(1) by (simp add: assign_def e(4) pos_def last_conv_nth)
    moreover have "cum (length vs - 1) \<le> pos"
      using assign_from_None [OF None pb(1), of "length vs - 1"] by (simp add: cum_def)
    ultimately show ?thesis using e(1) by (intro exI [of _ "length vs - 1"]) auto
  next
    case (Some v)
    with assign_from_Some [OF Some pb(1)] that show ?thesis
      by (auto simp: assign_def e(4) pos_def cum_def)
  qed
  have "\<exists>i < length vs. assign digest e u = vs ! i
              \<and> (\<forall>j < length vs. assign digest e u = vs ! j \<longrightarrow> j = i)
              \<and> cum i \<le> pos \<and> (Suc i = length vs \<or> pos < cum (Suc i))
              \<and> cum (Suc i) = cum i + vt_weight (vs ! i)
              \<and> (Suc i = length vs \<or> 0 < vt_weight (vs ! i))" if en
  proof -
    from arm [OF that] obtain i where i: "i < length vs" "assign digest e u = vs ! i" "cum i \<le> pos"
      "Suc i = length vs \<or> pos < cum (Suc i)" by blast
    moreover from this step [OF i(1)] have "Suc i = length vs \<or> 0 < vt_weight (vs ! i)" by auto
    moreover have "\<forall>j < length vs. assign digest e u = vs ! j \<longrightarrow> j = i"
      using i(1,2) dv by (auto simp: nth_eq_iff_index_eq)
    ultimately show ?thesis using step [OF i(1)] by blast
  qed
  moreover have "assign digest e u = control e" if "\<not> en"
    using that by (simp add: assign_def control_def e(4))
  ultimately show ?thesis using pb tot by auto
qed

theorem assign_by_share_witness:
  "\<exists>e. make_experiment ''x'' [\<lparr>vt_name = ''a'', vt_model_version = ''v1'', vt_weight = 1/2\<rparr>,
        \<lparr>vt_name = ''b'', vt_model_version = ''v2'', vt_weight = 1/2\<rparr>] False = Inr e
     \<and> assign (\<lambda>bs. bs) e ''ada'' = control e"
proof -
  let ?vs = "[\<lparr>vt_name = ''a'', vt_model_version = ''v1'', vt_weight = 1/2\<rparr>,
        \<lparr>vt_name = ''b'', vt_model_version = ''v2'', vt_weight = 1/2\<rparr>]"
  have e: "make_experiment ''x'' ?vs False = Inr \<lparr>ex_name = ''x'', ex_variants = ?vs, ex_enabled = False\<rparr>"
    by (simp add: make_experiment_Inr isclose_def)
  from assign_by_share [OF e, of "\<lambda>bs. bs" "''ada''"] e show ?thesis by auto
qed

section \<open>The recommendation\<close>

lemma ends_with_append: "ends_with (s @ t) t"
  by (simp add: py_simps)

lemma ends_with_last: "ends_with s t \<Longrightarrow> t \<noteq> [] \<Longrightarrow> last s = last t"
  by (metis append_take_drop_id drop_eq_Nil ends_with_def last_appendR)

lemma latency_metric: "ends_with (n @ ''.latency_ms'') ''latency_ms''" "\<not> ends_with (n @ ''.latency_ms'') ''success_rate''"
  using ends_with_append [of "n @ ''.''" "''latency_ms''"] ends_with_last [of "n @ ''.latency_ms''" "''success_rate''"]
  by auto

lemma success_metric: "ends_with (n @ ''.success_rate'') ''success_rate''" "\<not> ends_with (n @ ''.success_rate'') ''latency_ms''"
  using ends_with_append [of "n @ ''.''" "''success_rate''"] ends_with_last [of "n @ ''.success_rate''" "''latency_ms''"]
  by auto

text \<open>The latency column of a list of complete records.\<close>

definition latency_values :: "arm_row list \<Rightarrow> real list" where
  "latency_values rs = map (\<lambda>r. the (ar_latency_ms r)) rs"

lemma latencies_complete: "\<forall>r \<in> set rs. ar_latency_ms r \<noteq> None \<Longrightarrow> latencies rs = Inr (latency_values rs)"
  unfolding latencies_def latency_values_def by (rule map_res_all_Inr) auto

text \<open>A challenger is slower: significantly by the t-test, and by at least five per cent of the
  control's mean; or it fails more: significantly by the z-test, and by at least one point.\<close>

definition slower :: "stats \<Rightarrow> arm_row list \<Rightarrow> arm_row list \<Rightarrow> bool" where
  "slower S ctl trt \<longleftrightarrow>
     significant_at_5 (sp_ttest S (latency_values trt) (latency_values ctl))
     \<and> mean (latency_values ctl) * (105 / 100) \<le> mean (latency_values trt)"

definition z_score :: "arm_row list \<Rightarrow> arm_row list \<Rightarrow> real" where
  "z_score ctl trt =
     (let pooled = of_nat (successes ctl + successes trt) / of_nat (max (length ctl + length trt) 1);
          se = sqrt (pooled * (1 - pooled) * (1 / of_nat (max (length ctl) 1) + 1 / of_nat (max (length trt) 1)))
      in if se \<noteq> 0 then (rate (successes trt) (length trt) - rate (successes ctl) (length ctl)) / se else 0)"

definition fails_more :: "stats \<Rightarrow> arm_row list \<Rightarrow> arm_row list \<Rightarrow> bool" where
  "fails_more S ctl trt \<longleftrightarrow>
     2 * (1 - sp_norm_cdf S \<bar>z_score ctl trt\<bar>) < 5 / 100
     \<and> rate (successes trt) (length trt) \<le> rate (successes ctl) (length ctl) - 1 / 100"

lemma regression_means:
  assumes "0 < mean (latency_values ctl)"
  shows "is_regression (compare_means S (n @ ''.latency_ms'') (latency_values ctl) (latency_values trt) (5 / 100))
    \<longleftrightarrow> slower S ctl trt"
proof -
  have "(5 / 100 \<le> \<bar>(mean (latency_values trt) - mean (latency_values ctl)) / mean (latency_values ctl)\<bar>
         \<and> 0 < mean (latency_values trt) - mean (latency_values ctl))
    \<longleftrightarrow> mean (latency_values ctl) * (105 / 100) \<le> mean (latency_values trt)"
    using assms by (auto simp: abs_if field_simps)
  then show ?thesis
    using assms by (auto simp: is_regression_def compare_means_def slower_def Let_def latency_metric)
qed

lemma regression_proportions:
  "is_regression (compare_proportions S (n @ ''.success_rate'') (successes ctl) (length ctl)
       (successes trt) (length trt) (1 / 100))
    \<longleftrightarrow> fails_more S ctl trt"
  by (auto simp: is_regression_def compare_proportions_def fails_more_def z_score_def Let_def
      success_metric significant_at_5_def abs_if)

lemma recommend_do_not: "(take (length do_not_promote) (recommend cs) = do_not_promote)
    = list_ex is_regression cs"
proof (cases "list_ex is_regression cs")
  case True
  then have "cs \<noteq> []" "filter is_regression cs \<noteq> []" by (auto simp: filter_empty_conv list_ex_iff)
  then show ?thesis using True by (simp add: recommend_def Let_def)
next
  case False
  then have "filter is_regression cs = []" by (auto simp: filter_empty_conv list_ex_iff)
  then show ?thesis using False
    by (simp add: recommend_def Let_def do_not_promote_def safe_to_promote_def no_material_difference_def)
qed

lemma recommend_safe: "recommend cs = safe_to_promote \<longleftrightarrow>
    \<not> list_ex is_regression cs \<and> list_ex (\<lambda>c. cp_significant c \<and> cp_material c) cs"
proof (cases "list_ex is_regression cs")
  case True
  then have "cs \<noteq> []" "filter is_regression cs \<noteq> []" by (auto simp: filter_empty_conv list_ex_iff)
  then show ?thesis using True by (simp add: recommend_def Let_def do_not_promote_def safe_to_promote_def)
next
  case False
  then have "filter is_regression cs = []" by (auto simp: filter_empty_conv list_ex_iff)
  then show ?thesis using False
    by (auto simp: recommend_def Let_def safe_to_promote_def no_material_difference_def list_ex_iff filter_empty_conv)
qed

text \<open>The challengers with enough observations to be compared.\<close>

definition measured :: "ab_experiment \<Rightarrow> (string, arm_row list) dict \<Rightarrow> variant list" where
  "measured e d = filter (\<lambda>v. min_arm_samples \<le> length (variant_records d v)) (tl (ex_variants e))"

definition arm_comparisons :: "stats \<Rightarrow> ab_experiment \<Rightarrow> (string, arm_row list) dict \<Rightarrow> variant \<Rightarrow> comparison list" where
  "arm_comparisons S e d v =
     (let ctl = variant_records d (control e); trt = variant_records d v in
      [compare_means S (vt_name v @ ''.latency_ms'') (latency_values ctl) (latency_values trt) (5 / 100),
       compare_proportions S (vt_name v @ ''.success_rate'') (successes ctl) (length ctl)
         (successes trt) (length trt) (1 / 100)])"

lemma analyse_experiment_Inr:
  assumes "\<forall>v \<in> set (control e # ex_variants e). \<forall>r \<in> set (variant_records d v). ar_latency_ms r \<noteq> None"
    and "min_arm_samples \<le> length (variant_records d (control e))" "ex_variants e \<noteq> []"
  shows "\<exists>arms. analyse_experiment S e d = Inr
     \<lparr>er_experiment = ex_name e, er_arms = arms,
      er_comparisons = concat (map (arm_comparisons S e d) (measured e d)),
      er_recommendation = recommend (concat (map (arm_comparisons S e d) (measured e d)))\<rparr>"
proof -
  have l: "latencies (variant_records d v) = Inr (latency_values (variant_records d v))"
    if "v \<in> set (control e # ex_variants e)" for v
    using assms(1) that by (intro latencies_complete) blast
  have "map_res (\<lambda>v. compare_arm S (variant_records d (control e)) v (variant_records d v)) (measured e d)
      = Inr (map (arm_comparisons S e d) (measured e d))"
  proof (rule map_res_all_Inr)
    fix v assume "v \<in> set (measured e d)"
    then have "v \<in> set (control e # ex_variants e)"
      using assms(3) by (auto simp: measured_def dest: list.set_sel(2))
    then show "compare_arm S (variant_records d (control e)) v (variant_records d v) = Inr (arm_comparisons S e d v)"
      using l [of v] l [of "control e"] by (simp add: compare_arm_def arm_comparisons_def Let_def)
  qed
  moreover have "\<exists>arms. map_res (\<lambda>v. summarise_arm S (vt_name v) (vt_model_version v) (variant_records d v))
                 (filter (\<lambda>v. variant_records d v \<noteq> []) (ex_variants e)) = Inr arms"
    using l by (intro map_res_total) (auto simp: summarise_arm_def Let_def)
  ultimately show ?thesis
    using assms(2) by (auto simp: analyse_experiment_def Let_def measured_def [symmetric])
qed

text \<open>
  C40. The recommendation says what the data say. For complete records and a control arm with
  enough observations and a positive mean latency, the analysis returns a report whose
  comparisons are two per measured challenger. It advises against promotion exactly when some
  measured challenger is significantly and materially slower or fails significantly and
  materially more than control; it declares promotion safe exactly when none does and some
  difference is significant and material.
\<close>

theorem recommendation_sound:
  assumes "\<forall>v \<in> set (control e # ex_variants e). \<forall>r \<in> set (variant_records d v). ar_latency_ms r \<noteq> None"
    and "min_arm_samples \<le> length (variant_records d (control e))" "ex_variants e \<noteq> []"
    and "0 < mean (latency_values (variant_records d (control e)))"
  shows "\<exists>rep. analyse_experiment S e d = Inr rep
    \<and> length (er_comparisons rep) = 2 * length (measured e d)
    \<and> (starts_with (er_recommendation rep) do_not_promote \<longleftrightarrow>
         (\<exists>v \<in> set (measured e d). slower S (variant_records d (control e)) (variant_records d v)
            \<or> fails_more S (variant_records d (control e)) (variant_records d v)))
    \<and> (er_recommendation rep = safe_to_promote \<longleftrightarrow>
         \<not> (\<exists>v \<in> set (measured e d). slower S (variant_records d (control e)) (variant_records d v)
            \<or> fails_more S (variant_records d (control e)) (variant_records d v))
         \<and> (\<exists>c \<in> set (er_comparisons rep). cp_significant c \<and> cp_material c))"
proof -
  let ?cs = "concat (map (arm_comparisons S e d) (measured e d))"
  obtain arms where a: "analyse_experiment S e d = Inr
     \<lparr>er_experiment = ex_name e, er_arms = arms, er_comparisons = ?cs, er_recommendation = recommend ?cs\<rparr>"
    using analyse_experiment_Inr [OF assms(1-3)] by blast
  have reg: "list_ex is_regression ?cs \<longleftrightarrow>
      (\<exists>v \<in> set (measured e d). slower S (variant_records d (control e)) (variant_records d v)
            \<or> fails_more S (variant_records d (control e)) (variant_records d v))"
    using regression_means [OF assms(4)] regression_proportions
    by (auto simp: list_ex_iff arm_comparisons_def Let_def)
  have len: "length ?cs = 2 * length (measured e d)"
    by (induction "measured e d") (auto simp: length_concat arm_comparisons_def Let_def o_def sum_list_triv)
  show ?thesis
    using a reg len recommend_do_not [of ?cs] recommend_safe [of ?cs]
    by (auto simp: starts_with_def list_ex_iff)
qed

definition demo_arms :: ab_experiment where
  "demo_arms = \<lparr>ex_name = ''x'', ex_variants = [\<lparr>vt_name = ''a'', vt_model_version = ''v1'', vt_weight = 1/2\<rparr>,
                    \<lparr>vt_name = ''b'', vt_model_version = ''v2'', vt_weight = 1/2\<rparr>], ex_enabled = True\<rparr>"

definition demo_rows :: "(string, arm_row list) dict" where
  "demo_rows =
     [(''a'', replicate 100 \<lparr>ar_latency_ms = Some 10, ar_status = Some ''success'', ar_top_probability = None\<rparr>),
      (''b'', replicate 100 \<lparr>ar_latency_ms = Some 11, ar_status = Some ''success'', ar_top_probability = None\<rparr>)]"

definition demo_stats :: stats where
  "demo_stats = \<lparr>sp_percentile = (\<lambda>xs p. hd xs), sp_ttest = (\<lambda>a b. Some 0), sp_norm_cdf = (\<lambda>z. 1/2)\<rparr>"

theorem recommendation_sound_witness:
  "\<exists>rep. analyse_experiment demo_stats demo_arms demo_rows = Inr rep
     \<and> starts_with (er_recommendation rep) do_not_promote"
proof -
  have mean_rep: "mean (replicate n x) = x" if "0 < n" for n x
    using that by (simp add: mean_def sum_list_replicate)
  have ctl: "variant_records demo_rows (control demo_arms)
      = replicate 100 \<lparr>ar_latency_ms = Some 10, ar_status = Some ''success'', ar_top_probability = None\<rparr>"
    by (simp add: demo_rows_def variant_records_def control_def demo_arms_def)
  have meas: "measured demo_arms demo_rows = [\<lparr>vt_name = ''b'', vt_model_version = ''v2'', vt_weight = 1/2\<rparr>]"
    by (simp add: measured_def demo_arms_def demo_rows_def variant_records_def min_arm_samples_def)
  have slow: "\<exists>v \<in> set (measured demo_arms demo_rows).
      slower demo_stats (variant_records demo_rows (control demo_arms)) (variant_records demo_rows v)"
    unfolding meas ctl
    by (simp add: slower_def latency_values_def variant_records_def demo_rows_def demo_stats_def
        significant_at_5_def mean_rep)
  have "\<forall>v \<in> set (control demo_arms # ex_variants demo_arms). \<forall>r \<in> set (variant_records demo_rows v). ar_latency_ms r \<noteq> None"
    "min_arm_samples \<le> length (variant_records demo_rows (control demo_arms))" "ex_variants demo_arms \<noteq> []"
    "0 < mean (latency_values (variant_records demo_rows (control demo_arms)))"
    by (auto simp: demo_arms_def control_def demo_rows_def variant_records_def min_arm_samples_def
        latency_values_def mean_rep)
  from recommendation_sound [OF this, of demo_stats] slow show ?thesis by blast
qed

end
