(* ===== verification/Experiment_Service.thy ===== *)
theory Experiment_Service
  imports AB_Testing
begin

text \<open>
  Experiment configuration and variant routing (\<open>api/services/experiment_service.py\<close>): reading
  \<open>experiments.json\<close>, dropping what cannot be served, and resolving a caller to a version. The
  file's content is the parsed JSON value; \<open>float(text)\<close> is a parameter (\<open>None\<close> for what is not a
  number in range, NaN and the infinities included, all of which end in \<open>ValueError\<close>). An
  experiment or variant \<open>name\<close> that is not text is outside the model.
\<close>

type_synonym experiment_registry = "(string, ab_experiment) dict"

definition empty_experiments :: experiment_registry where
  "empty_experiments = []"

definition type_error :: "string \<Rightarrow> exn" where
  "type_error m = PyExc ''TypeError'' m"

definition attribute_error :: "string \<Rightarrow> exn" where
  "attribute_error m = PyExc ''AttributeError'' m"

text \<open>\<open>value[key]\<close> with a text key.\<close>

definition subscript :: "pyval \<Rightarrow> string \<Rightarrow> pyval result" where
  "subscript v key =
     (case v of
        PDict d \<Rightarrow> (case dict_get d key of None \<Rightarrow> Inl (key_error key) | Some x \<Rightarrow> Inr x)
      | _ \<Rightarrow> Inl (type_error ''indices must be integers''))"

text \<open>The elements a \<open>for\<close> loop yields.\<close>

definition iterate :: "pyval \<Rightarrow> pyval list result" where
  "iterate v =
     (case v of
        PList vs \<Rightarrow> Inr vs
      | PDict d \<Rightarrow> Inr (map PStr (dict_keys d))
      | PStr s \<Rightarrow> Inr (map (\<lambda>c. PStr [c]) s)
      | _ \<Rightarrow> Inl (type_error ''object is not iterable''))"

definition to_float :: "(string \<Rightarrow> real option) \<Rightarrow> pyval \<Rightarrow> real result" where
  "to_float parse v =
     (case v of
        PInt i \<Rightarrow> Inr (of_int i)
      | PFloat x \<Rightarrow> Inr x
      | PBool b \<Rightarrow> Inr (if b then 1 else 0)
      | PStr s \<Rightarrow> (case parse s of None \<Rightarrow> Inl (value_error s) | Some x \<Rightarrow> Inr x)
      | _ \<Rightarrow> Inl (type_error ''float() argument''))"

definition truthy :: "pyval \<Rightarrow> bool" where
  "truthy v =
     (case v of
        PNone \<Rightarrow> False | PBool b \<Rightarrow> b | PInt i \<Rightarrow> i \<noteq> 0 | PFloat x \<Rightarrow> x \<noteq> 0
      | PStr s \<Rightarrow> s \<noteq> [] | PList vs \<Rightarrow> vs \<noteq> [] | PDict d \<Rightarrow> d \<noteq> [])"

definition as_text :: "pyval \<Rightarrow> string result" where
  "as_text v = (case v of PStr s \<Rightarrow> Inr s | _ \<Rightarrow> Inl (type_error ''text expected''))"

fun hashable :: "pyval \<Rightarrow> bool" where
  "hashable (PList vs) = False"
| "hashable (PDict d) = False"
| "hashable v = True"

text \<open>One variant of an entry: the arm, and the version as it stands in the file.\<close>

definition parse_variant :: "(string \<Rightarrow> real option) \<Rightarrow> pyval \<Rightarrow> (variant \<times> pyval) result" where
  "parse_variant parse v =
     res_bind (subscript v ''name'') (\<lambda>n.
     res_bind (as_text n) (\<lambda>vname.
     res_bind (subscript v ''model_version'') (\<lambda>version.
     res_bind (subscript v ''weight'') (\<lambda>w.
     res_bind (to_float parse w) (\<lambda>weight.
     res_bind (make_variant vname (case version of PStr s \<Rightarrow> s | _ \<Rightarrow> []) weight) (\<lambda>vt.
     Inr (vt, version)))))))"

text \<open>The body of the \<open>try\<close> for one entry.\<close>

definition parse_entry ::
  "(string \<Rightarrow> real option) \<Rightarrow> pyval \<Rightarrow> (pyval \<times> ab_experiment \<times> pyval list) result" where
  "parse_entry parse entry =
     res_bind (subscript entry ''model_name'') (\<lambda>model_name.
     res_bind (subscript entry ''name'') (\<lambda>n.
     res_bind (as_text n) (\<lambda>ename.
     res_bind (subscript entry ''variants'') (\<lambda>vs.
     res_bind (iterate vs) (\<lambda>items.
     res_bind (map_res (parse_variant parse) items) (\<lambda>parsed.
     res_bind (make_experiment ename (map fst parsed)
        (case entry of PDict d \<Rightarrow> (case dict_get d ''enabled'' of None \<Rightarrow> True | Some b \<Rightarrow> truthy b) | _ \<Rightarrow> True))
        (\<lambda>e. Inr (model_name, e, map snd parsed))))))))"

definition available :: "(string, string list) dict \<Rightarrow> pyval \<Rightarrow> string list" where
  "available av name =
     (case name of PStr s \<Rightarrow> (case dict_get av s of None \<Rightarrow> [] | Some vs \<Rightarrow> vs) | _ \<Rightarrow> [])"

definition servable :: "string list \<Rightarrow> pyval \<Rightarrow> bool" where
  "servable loaded version = (case version of PStr s \<Rightarrow> s \<in> set loaded | _ \<Rightarrow> False)"

text \<open>One iteration of the loop over the entries: an exception that escapes, or the registry with
  or without the entry. The handler of a failed parse reads \<open>entry.get\<close>, which a value that is not
  a dictionary does not have; looking up an unhashable name or version raises outside the \<open>try\<close>.\<close>

definition load_entry ::
  "(string \<Rightarrow> real option) \<Rightarrow> (string, string list) dict \<Rightarrow> pyval \<Rightarrow> experiment_registry
   \<Rightarrow> experiment_registry result" where
  "load_entry parse av entry acc =
     (case parse_entry parse entry of
        Inl e \<Rightarrow>
          (case entry of PDict d \<Rightarrow> Inr acc | _ \<Rightarrow> Inl (attribute_error ''object has no attribute get''))
      | Inr (model_name, e, versions) \<Rightarrow>
          if \<not> hashable model_name \<or> list_ex (\<lambda>v. \<not> hashable v) versions
          then Inl (type_error ''unhashable type'')
          else if list_ex (\<lambda>v. \<not> servable (available av model_name) v) versions
          then Inr acc
          else Inr (case model_name of PStr s \<Rightarrow> dict_set s e acc | _ \<Rightarrow> acc))"

fun load_entries ::
  "(string \<Rightarrow> real option) \<Rightarrow> (string, string list) dict \<Rightarrow> experiment_registry \<Rightarrow> pyval list
   \<Rightarrow> experiment_registry result" where
  "load_entries parse av acc [] = Inr acc"
| "load_entries parse av acc (entry # rest) =
     res_bind (load_entry parse av entry acc) (\<lambda>acc'. load_entries parse av acc' rest)"

text \<open>\<open>ExperimentRegistry.load\<close>: \<open>content\<close> is \<open>None\<close> for a missing file and an error for one that
  cannot be read or parsed.\<close>

definition experiments_load ::
  "(string \<Rightarrow> real option) \<Rightarrow> pyval result option \<Rightarrow> (string, string list) dict
   \<Rightarrow> experiment_registry result" where
  "experiments_load parse content av =
     (case content of
        None \<Rightarrow> Inr empty_experiments
      | Some (Inl _) \<Rightarrow> Inr empty_experiments
      | Some (Inr raw) \<Rightarrow>
          (case raw of
             PDict d \<Rightarrow>
               res_bind (case dict_get d ''experiments'' of None \<Rightarrow> Inr [] | Some v \<Rightarrow> iterate v)
                 (load_entries parse av empty_experiments)
           | _ \<Rightarrow> Inl (attribute_error ''object has no attribute get'')))"

definition resolve_version ::
  "(bytes \<Rightarrow> bytes) \<Rightarrow> experiment_registry \<Rightarrow> string \<Rightarrow> string \<Rightarrow> string option \<times> string option" where
  "resolve_version digest er model_name user_id =
     (case dict_get er model_name of
        None \<Rightarrow> (None, None)
      | Some e \<Rightarrow>
          let v = assign digest e user_id in (Some (vt_model_version v), Some (vt_name v)))"

definition active_count :: "experiment_registry \<Rightarrow> nat" where
  "active_count er = length er"

text \<open>\<open>available_versions\<close> as start-up builds it from the loaded models (\<open>api/main.py\<close>).\<close>

fun versions_by_name :: "(string, string list) dict \<Rightarrow> loaded_model list \<Rightarrow> (string, string list) dict" where
  "versions_by_name acc [] = acc"
| "versions_by_name acc (m # ms) =
     versions_by_name
       (dict_set (lm_name m)
          ((case dict_get acc (lm_name m) of None \<Rightarrow> [] | Some vs \<Rightarrow> vs) @ [lm_version m]) acc) ms"

definition available_versions :: "registry \<Rightarrow> (string, string list) dict" where
  "available_versions r = versions_by_name [] (list_models r)"

section \<open>What is loaded can be served\<close>

definition experiment_served :: "(string, string list) dict \<Rightarrow> string \<Rightarrow> ab_experiment \<Rightarrow> bool" where
  "experiment_served av n e \<longleftrightarrow>
     make_experiment (ex_name e) (ex_variants e) (ex_enabled e) = Inr e
     \<and> (\<forall>v \<in> set (ex_variants e). 0 \<le> vt_weight v \<and> vt_weight v \<le> 1
          \<and> vt_model_version v \<in> set (available av (PStr n)))"

definition experiments_ok :: "(string, string list) dict \<Rightarrow> experiment_registry \<Rightarrow> bool" where
  "experiments_ok av er \<longleftrightarrow> (\<forall>n e. dict_get er n = Some e \<longrightarrow> experiment_served av n e)"

lemma parse_variant_Inr:
  "parse_variant parse v = Inr (vt, version) \<Longrightarrow> 0 \<le> vt_weight vt \<and> vt_weight vt \<le> 1
     \<and> (servable loaded version \<longrightarrow> vt_model_version vt \<in> set loaded)"
  by (auto simp: parse_variant_def res_bind_Inr_iff make_variant_def servable_def split: if_splits pyval.splits)

lemma parse_entry_Inr:
  assumes "parse_entry parse entry = Inr (mn, e, versions)"
  shows "make_experiment (ex_name e) (ex_variants e) (ex_enabled e) = Inr e"
    and "list_all (servable loaded) versions \<Longrightarrow> v \<in> set (ex_variants e) \<Longrightarrow>
         0 \<le> vt_weight v \<and> vt_weight v \<le> 1 \<and> vt_model_version v \<in> set loaded"
proof -
  obtain n en items parsed where p: "map_res (parse_variant parse) items = Inr parsed"
    "make_experiment n (map fst parsed) en = Inr e" "versions = map snd parsed"
    using assms unfolding parse_entry_def res_bind_Inr_iff by blast
  then have e: "e = \<lparr>ex_name = n, ex_variants = map fst parsed, ex_enabled = en\<rparr>"
    by (simp add: make_experiment_Inr)
  then show "make_experiment (ex_name e) (ex_variants e) (ex_enabled e) = Inr e" using p(2) by simp
  assume s: "list_all (servable loaded) versions" and "v \<in> set (ex_variants e)"
  then obtain version where vv: "(v, version) \<in> set parsed" by (auto simp: e)
  then obtain x where "parse_variant parse x = Inr (v, version)" using map_res_Inr_set [OF p(1)] by blast
  moreover have "servable loaded version" using s vv p(3) by (force simp: list_all_iff)
  ultimately show "0 \<le> vt_weight v \<and> vt_weight v \<le> 1 \<and> vt_model_version v \<in> set loaded"
    using parse_variant_Inr by blast
qed

lemma load_entry_ok:
  assumes "load_entry parse av entry acc = Inr acc'" "experiments_ok av acc"
  shows "experiments_ok av acc'"
proof (cases "parse_entry parse entry")
  case (Inl a)
  then show ?thesis using assms by (auto simp: load_entry_def split: pyval.splits)
next
  case (Inr b)
  then obtain mn e versions where p: "parse_entry parse entry = Inr (mn, e, versions)" by (cases b) auto
  show ?thesis
  proof (cases "list_ex (\<lambda>v. \<not> servable (available av mn) v) versions")
    case True
    then show ?thesis using assms p by (auto simp: load_entry_def split: if_splits)
  next
    case False
    then have s: "list_all (servable (available av mn)) versions" by (auto simp: list_ex_iff list_all_iff)
    have a: "acc' = (case mn of PStr s \<Rightarrow> dict_set s e acc | _ \<Rightarrow> acc)"
      using assms(1) p False by (auto simp: load_entry_def split: if_splits)
    show ?thesis
    proof (cases "\<exists>n. mn = PStr n")
      case True
      then obtain n where n: "mn = PStr n" by blast
      then have "experiment_served av n e"
        using parse_entry_Inr [OF p] s by (auto simp: experiment_served_def)
      then show ?thesis using assms(2) a n by (auto simp: experiments_ok_def dict_simps)
    next
      case False
      then have "acc' = acc" using a by (auto split: pyval.splits)
      then show ?thesis using assms(2) by simp
    qed
  qed
qed

lemma load_entries_ok:
  "load_entries parse av acc es = Inr er \<Longrightarrow> experiments_ok av acc \<Longrightarrow> experiments_ok av er"
proof (induction es arbitrary: acc)
  case (Cons e es)
  then show ?case by (auto simp: res_bind_Inr_iff intro: load_entry_ok)
qed simp

lemma experiments_load_ok: "experiments_load parse content av = Inr er \<Longrightarrow> experiments_ok av er"
proof -
  have e: "experiments_ok av empty_experiments" by (simp add: experiments_ok_def empty_experiments_def)
  assume "experiments_load parse content av = Inr er"
  then show ?thesis
    using e load_entries_ok [OF _ e] unfolding experiments_load_def
    by (auto simp: res_bind_Inr_iff split: option.splits sum.splits pyval.splits)
qed

lemma assign_in: "ex_variants e \<noteq> [] \<Longrightarrow> assign digest e u \<in> set (ex_variants e)"
  using assign_from_Some [of "position digest (ex_name e) u" 0 "ex_variants e"] position_bounds
  by (auto simp: assign_def split: option.splits)

lemma versions_by_name_get:
  "set (available (versions_by_name acc ms) (PStr n))
     = set (available acc (PStr n)) \<union> {lm_version m |m. m \<in> set ms \<and> lm_name m = n}"
proof (induction ms arbitrary: acc)
  case (Cons m ms)
  show ?case unfolding versions_by_name.simps Cons.IH by (auto simp: available_def dict_simps)
qed simp

lemma available_versions_get:
  "set (available (available_versions r) (PStr n)) = {lm_version m |m. m \<in> set (list_models r) \<and> lm_name m = n}"
  unfolding available_versions_def versions_by_name_get by (simp add: available_def)

lemma registry_step_keeps:
  assumes "registry_step\<^sup>*\<^sup>* r r'" "dict_get (reg_models r) k \<noteq> None"
  shows "dict_get (reg_models r') k \<noteq> None"
  using assms
proof (induction rule: rtranclp_induct)
  case (step y z)
  then have "dict_get (reg_models y) k \<noteq> None" by blast
  with step.hyps(2) show ?case
    by (cases rule: registry_step.cases)
      (simp_all add: register_def dict_simps, metis set_active_models)
qed simp

lemma resolve_version_served:
  assumes "registry_step\<^sup>*\<^sup>* empty_registry r" "registry_step\<^sup>*\<^sup>* r r'"
    and "experiments_load parse content (available_versions r) = Inr er"
  shows "if dict_get er n = None then resolve_version digest er n u = (None, None)
    else \<exists>e v m. dict_get er n = Some e \<and> v \<in> set (ex_variants e)
      \<and> make_experiment (ex_name e) (ex_variants e) (ex_enabled e) = Inr e
      \<and> resolve_version digest er n u = (Some (vt_model_version v), Some (vt_name v))
      \<and> get_model r' n (Some (vt_model_version v)) = Inr m
      \<and> lm_name m = n \<and> lm_version m = vt_model_version v"
proof (cases "dict_get er n")
  case (Some e)
  have served: "experiment_served (available_versions r) n e"
    using experiments_load_ok [OF assms(3)] Some by (auto simp: experiments_ok_def)
  define v where "v = assign digest e u"
  have v: "v \<in> set (ex_variants e)"
    using served assign_in by (auto simp: v_def experiment_served_def make_experiment_Inr)
  have ok: "registry_ok r" "registry_ok r'"
    using registry_run.inv_reachable [OF refl] assms(1,2) by (auto intro: rtranclp_trans)
  obtain m0 where m0: "m0 \<in> set (list_models r)" "lm_name m0 = n" "lm_version m0 = vt_model_version v"
    using served v available_versions_get [of r n] by (auto simp: experiment_served_def)
  then obtain k where "dict_get (reg_models r) k = Some m0"
    using ok(1) by (auto simp: list_models_def registry_ok_def dict_get_iff)
  with registry_ok_model [OF ok(1) this] have k: "dict_get (reg_models r) (lm_key m0) \<noteq> None"
    and w: "well_named m0" by auto
  obtain m where m: "dict_get (reg_models r') (lm_key m0) = Some m"
    using registry_step_keeps [OF assms(2) k] by blast
  then have nm: "lm_name m = n" "lm_version m = vt_model_version v"
    using registry_ok_key [OF ok(2), of "lm_name m0" "lm_version m0" m] w m0
    by (auto simp: lm_key_def well_named_def)
  have "get_model r' n (Some (vt_model_version v)) = Inr m"
    using m m0 w by (simp add: get_model_pinned well_named_def lm_key_def)
  with nm v served Some show ?thesis
    by (auto simp: resolve_version_def v_def Let_def experiment_served_def)
qed (simp add: resolve_version_def)

text \<open>
  C32. A misrouted caller is impossible. Whatever the experiment file holds, if it loads against
  the models present, then for every later registry (loads and activations included) and every
  caller: either no experiment applies to the model and the active version serves, or the caller
  is sent to an arm of a valid experiment, and pinning that arm's version finds a loaded model of
  that name and version.
\<close>

theorem experiments_always_served:
  assumes "registry_step\<^sup>*\<^sup>* empty_registry r" "registry_step\<^sup>*\<^sup>* r r'"
    and "experiments_load parse content (available_versions r) = Inr er"
  shows "if dict_get er n = None then resolve_version digest er n u = (None, None)
    else \<exists>e v m. dict_get er n = Some e \<and> v \<in> set (ex_variants e)
      \<and> make_experiment (ex_name e) (ex_variants e) (ex_enabled e) = Inr e
      \<and> resolve_version digest er n u = (Some (vt_model_version v), Some (vt_name v))
      \<and> get_model r' n (Some (vt_model_version v)) = Inr m
      \<and> lm_name m = n \<and> lm_version m = vt_model_version v"
  using assms by (rule resolve_version_served)

definition demo_experiment_file :: pyval where
  "demo_experiment_file = PDict [(''experiments'', PList [PDict
     [(''name'', PStr ''x''), (''model_name'', PStr ''c''),
      (''variants'', PList [PDict [(''name'', PStr ''a''), (''model_version'', PStr ''v1''), (''weight'', PInt 1)]])]])]"

definition demo_loaded :: registry where
  "demo_loaded = register (demo_model ''v1'') True empty_registry"

definition demo_ab :: ab_experiment where
  "demo_ab = \<lparr>ex_name = ''x'', ex_variants = [\<lparr>vt_name = ''a'', vt_model_version = ''v1'', vt_weight = 1\<rparr>],
     ex_enabled = True\<rparr>"

lemma demo_experiments:
  "experiments_load (\<lambda>s. None) (Some (Inr demo_experiment_file)) (available_versions demo_loaded)
     = Inr [(''c'', demo_ab)]"
proof -
  have "available (available_versions demo_loaded) (PStr ''c'') = [''v1'']"
    by (simp add: available_versions_def demo_loaded_def list_models_def register_def empty_registry_def
        demo_model_def available_def)
  then show ?thesis
    by (simp add: experiments_load_def demo_experiment_file_def iterate_def load_entry_def parse_entry_def
        subscript_def as_text_def parse_variant_def to_float_def make_variant_def make_experiment_def isclose_def
        servable_def empty_experiments_def demo_ab_def)
qed

lemma demo_loaded_reach: "registry_step\<^sup>*\<^sup>* empty_registry demo_loaded"
proof -
  have "well_named (demo_model ''v1'')" by (simp add: demo_model_def well_named_def sep_free_def)
  then show ?thesis unfolding demo_loaded_def by (intro r_into_rtranclp registry_step.load)
qed

theorem experiments_always_served_witness:
  "\<exists>m. resolve_version (\<lambda>bs. bs) [(''c'', demo_ab)] ''c'' ''ada'' = (Some ''v1'', Some ''a'')
     \<and> get_model demo_loaded ''c'' (Some ''v1'') = Inr m \<and> lm_version m = ''v1''"
proof -
  have g: "dict_get [(''c'', demo_ab)] ''c'' = Some demo_ab" by simp
  from experiments_always_served [OF demo_loaded_reach rtranclp.rtrancl_refl demo_experiments,
      of "''c''" "\<lambda>bs. bs" "''ada''"]
  show ?thesis unfolding g by (auto simp: demo_ab_def)
qed

text \<open>An entry that is an object and, if it parses at all, names its model and versions by scalars.\<close>

definition entry_shaped :: "(string \<Rightarrow> real option) \<Rightarrow> pyval \<Rightarrow> bool" where
  "entry_shaped parse entry \<longleftrightarrow>
     (case entry of PDict d \<Rightarrow> True | _ \<Rightarrow> False)
     \<and> (case parse_entry parse entry of
          Inl e \<Rightarrow> True
        | Inr r \<Rightarrow> hashable (fst r) \<and> list_all hashable (snd (snd r)))"

text \<open>
  A misconfigured experiment is dropped, up to the shape of the file. Any file that is missing,
  unreadable, or whose top level is an object with a list of objects, each naming its model and
  its variants' versions by scalars, loads without an exception, whatever else is wrong with it.
  A top level or an entry that is not an object escapes the handlers and raises.
\<close>

theorem experiments_load_total:
  assumes "list_all (entry_shaped parse) entries"
  shows "experiments_load parse None av = Inr empty_experiments
   \<and> experiments_load parse (Some (Inl err)) av = Inr empty_experiments
   \<and> (\<exists>er. experiments_load parse (Some (Inr (PDict [(''experiments'', PList entries)]))) av = Inr er)
   \<and> experiments_load parse (Some (Inr (PList entries))) av = Inl (attribute_error ''object has no attribute get'')
   \<and> experiments_load parse (Some (Inr (PDict [(''experiments'', PList [PStr s])]))) av
       = Inl (attribute_error ''object has no attribute get'')"
proof -
  have one: "\<exists>acc'. load_entry parse av entry acc = Inr acc'" if "entry_shaped parse entry" for entry acc
  proof (cases "parse_entry parse entry")
    case (Inl a)
    then show ?thesis using that by (auto simp: load_entry_def entry_shaped_def split: pyval.splits)
  next
    case (Inr b)
    then obtain mn e versions where p: "parse_entry parse entry = Inr (mn, e, versions)" by (cases b) auto
    then have "hashable mn" "\<not> list_ex (\<lambda>v. \<not> hashable v) versions"
      using that by (auto simp: list_ex_iff list_all_iff entry_shaped_def)
    then show ?thesis using p by (auto simp: load_entry_def)
  qed
  have all: "list_all (entry_shaped parse) es \<Longrightarrow> \<exists>er. load_entries parse av acc es = Inr er" for es acc
  proof (induction es arbitrary: acc)
    case (Cons entry es)
    then obtain acc' where "load_entry parse av entry acc = Inr acc'" using one [of entry acc] by auto
    moreover obtain er where "load_entries parse av acc' es = Inr er" using Cons by fastforce
    ultimately show ?case by simp
  qed simp
  have bad: "load_entry parse av (PStr s) acc = Inl (attribute_error ''object has no attribute get'')" for acc
    by (simp add: load_entry_def parse_entry_def subscript_def)
  show ?thesis
    using all [OF assms, of empty_experiments]
    by (auto simp: experiments_load_def iterate_def bad)
qed

theorem experiments_load_total_witness:
  "\<exists>er. experiments_load (\<lambda>s. None) (Some (Inr (PDict [(''experiments'', PList [PDict []])]))) [] = Inr er"
  using experiments_load_total [of "\<lambda>s. None" "[PDict []]" "[]"]
  by (simp add: entry_shaped_def parse_entry_def subscript_def)

end
