(* ===== verification/Monitoring.thy ===== *)
theory Monitoring
  imports Model_Service
begin

text \<open>
  Request correlation and metrics (\<open>api/middleware/monitoring.py\<close>). A metric family is the
  dictionary of its series, by label values; the handler below the middleware is seen through the
  status it answers with, \<open>None\<close> for an exception. Requests overlap, so a request is two steps, one
  before the handler runs and one after it.
\<close>

section \<open>Correlation\<close>

definition is_space :: "char \<Rightarrow> bool" where
  "is_space c \<longleftrightarrow> (of_char c :: nat) \<in> {9, 10, 11, 12, 13, 28, 29, 30, 31, 32, 133, 160}"

text \<open>\<open>incoming[:64] if incoming and incoming.strip() else new_correlation_id()\<close>\<close>

definition adopt_correlation_id :: "string option \<Rightarrow> string \<Rightarrow> string" where
  "adopt_correlation_id incoming fresh =
     (case incoming of
        Some s \<Rightarrow> if s \<noteq> [] \<and> dropWhile is_space s \<noteq> [] then take 64 s else fresh
      | None \<Rightarrow> fresh)"

section \<open>Metric families\<close>

record metrics =
  mt_in_progress :: "(string \<times> string, int) dict"
  mt_count :: "(string \<times> string \<times> string, nat) dict"
  mt_latency :: "(string \<times> string, real list) dict"
  mt_inference :: "(string \<times> string \<times> string \<times> string, nat) dict"
  mt_inference_latency :: "(string \<times> string \<times> string, real list) dict"
  mt_cache :: "(string \<times> string, nat) dict"
  mt_model_info :: "(string \<times> string \<times> string \<times> string, int) dict"

definition no_metrics :: metrics where
  "no_metrics = \<lparr>mt_in_progress = [], mt_count = [], mt_latency = [], mt_inference = [],
     mt_inference_latency = [], mt_cache = [], mt_model_info = []\<rparr>"

text \<open>\<open>labels(\<dots>).inc()\<close> and \<open>labels(\<dots>).observe(x)\<close> create the series on first use.\<close>

definition series :: "('k, 'v) dict \<Rightarrow> 'v \<Rightarrow> 'k \<Rightarrow> 'v" where
  "series d z k = (case dict_get d k of None \<Rightarrow> z | Some v \<Rightarrow> v)"

definition bump :: "'v::ab_group_add \<Rightarrow> 'k \<Rightarrow> ('k, 'v) dict \<Rightarrow> ('k, 'v) dict" where
  "bump by k d = dict_set k (series d 0 k + by) d"

definition tick :: "'k \<Rightarrow> ('k, nat) dict \<Rightarrow> ('k, nat) dict" where
  "tick k d = dict_set k (Suc (series d 0 k)) d"

definition observe :: "real \<Rightarrow> 'k \<Rightarrow> ('k, real list) dict \<Rightarrow> ('k, real list) dict" where
  "observe x k d = dict_set k (series d [] k @ [x]) d"

text \<open>What the middleware reads of a request; the route, once matched, is its \<open>path_format\<close> and
  its \<open>path\<close>.\<close>

record http_request =
  hq_method :: string
  hq_path :: string
  hq_route :: "(string option \<times> string option) option"

definition route_template :: "http_request \<Rightarrow> string" where
  "route_template rq =
     (case hq_route rq of
        None \<Rightarrow> ''unmatched''
      | Some (path_format, p) \<Rightarrow>
          (case py_or_str (py_or_str path_format p) None of
             Some t \<Rightarrow> t
           | None \<Rightarrow> ''unmatched''))"

text \<open>\<open>MetricsMiddleware.dispatch\<close>, up to \<open>call_next\<close> and from its return or exception on.\<close>

definition dispatch_begin :: "string set \<Rightarrow> http_request \<Rightarrow> metrics \<Rightarrow> metrics" where
  "dispatch_begin exclude_paths rq m =
     (if hq_path rq \<in> exclude_paths then m
      else m\<lparr>mt_in_progress := bump 1 (hq_method rq, hq_path rq) (mt_in_progress m)\<rparr>)"

definition status_label :: "nat option \<Rightarrow> string" where
  "status_label status = show_nat (case status of None \<Rightarrow> 500 | Some s \<Rightarrow> s)"

definition dispatch_end :: "string set \<Rightarrow> http_request \<Rightarrow> nat option \<Rightarrow> real \<Rightarrow> metrics \<Rightarrow> metrics" where
  "dispatch_end exclude_paths rq status duration m =
     (if hq_path rq \<in> exclude_paths then m
      else
        (let endpoint = route_template rq in
         m\<lparr>mt_in_progress := bump (-1) (hq_method rq, hq_path rq) (mt_in_progress m),
           mt_latency := observe duration (hq_method rq, endpoint) (mt_latency m),
           mt_count := tick (hq_method rq, endpoint, status_label status) (mt_count m)\<rparr>))"

definition record_inference :: "string \<Rightarrow> string \<Rightarrow> string \<Rightarrow> real \<Rightarrow> bool \<Rightarrow> metrics \<Rightarrow> metrics" where
  "record_inference model version b duration_seconds ok m =
     (let m' = m\<lparr>mt_inference := tick (model, version, b, if ok then ''success'' else ''failure'') (mt_inference m)\<rparr>
      in if ok then m'\<lparr>mt_inference_latency := observe duration_seconds (model, version, b) (mt_inference_latency m')\<rparr>
         else m')"

definition record_cache :: "string \<Rightarrow> string \<Rightarrow> metrics \<Rightarrow> metrics" where
  "record_cache operation outcome m = m\<lparr>mt_cache := tick (operation, outcome) (mt_cache m)\<rparr>"

definition record_model_loaded :: "loaded_model \<Rightarrow> metrics \<Rightarrow> metrics" where
  "record_model_loaded lm m =
     m\<lparr>mt_model_info := dict_set (lm_name lm, lm_version lm, backend_value (lm_backend lm),
         if lm_degraded_from lm \<noteq> None then ''true'' else ''false'') 1 (mt_model_info m)\<rparr>"

section \<open>Overlapping requests\<close>

text \<open>The metrics, the requests in flight, and (for the statements only) those finished, with the
  status each got.\<close>

type_synonym traffic = "metrics \<times> http_request list \<times> (http_request \<times> nat option) list"

inductive traffic_step :: "string set \<Rightarrow> traffic \<Rightarrow> traffic \<Rightarrow> bool" for ex where
  arrive: "traffic_step ex (m, fs, fin) (dispatch_begin ex rq m, rq # fs, fin)"
| leave: "rq \<in> set fs \<Longrightarrow>
    traffic_step ex (m, fs, fin) (dispatch_end ex rq status dur m, remove1 rq fs, (rq, status) # fin)"

inductive_cases traffic_stepE: "traffic_step ex s t"

definition in_flight :: "string set \<Rightarrow> string \<times> string \<Rightarrow> http_request list \<Rightarrow> nat" where
  "in_flight ex k fs = length (filter (\<lambda>rq. hq_path rq \<notin> ex \<and> (hq_method rq, hq_path rq) = k) fs)"

definition answered :: "string set \<Rightarrow> string \<times> string \<times> string \<Rightarrow> (http_request \<times> nat option) list \<Rightarrow> nat" where
  "answered ex k fin =
     length (filter (\<lambda>(rq, s). hq_path rq \<notin> ex \<and> (hq_method rq, route_template rq, status_label s) = k) fin)"

definition traffic_inv :: "string set \<Rightarrow> traffic \<Rightarrow> bool" where
  "traffic_inv ex s \<longleftrightarrow>
     (case s of (m, fs, fin) \<Rightarrow>
        (\<forall>k. series (mt_in_progress m) 0 k = int (in_flight ex k fs))
        \<and> (\<forall>k. series (mt_count m) 0 k = answered ex k fin)
        \<and> (\<forall>k. dict_get (mt_count m) k = None \<longleftrightarrow> answered ex k fin = 0)
        \<and> (\<forall>k. dict_get (mt_in_progress m) k = None \<longleftrightarrow>
              in_flight ex k fs = 0 \<and> in_flight ex k (map fst fin) = 0))"

lemma series_bump [dict_simps]: "series (bump by k d) 0 k' = (if k' = k then series d 0 k + by else series d 0 k')"
  by (simp add: series_def bump_def dict_simps)

lemma series_tick [dict_simps]: "series (tick k d) 0 k' = (if k' = k then Suc (series d 0 k) else series d 0 k')"
  by (simp add: series_def tick_def dict_simps)

lemma get_bump [dict_simps]: "dict_get (bump by k d) k' = None \<longleftrightarrow> k' \<noteq> k \<and> dict_get d k' = None"
  by (simp add: bump_def dict_simps)

lemma get_tick [dict_simps]: "dict_get (tick k d) k' = None \<longleftrightarrow> k' \<noteq> k \<and> dict_get d k' = None"
  by (simp add: tick_def dict_simps)

lemma in_flight_Cons [simp]:
  "in_flight ex k (rq # fs) =
     (if hq_path rq \<notin> ex \<and> (hq_method rq, hq_path rq) = k then Suc (in_flight ex k fs) else in_flight ex k fs)"
  by (simp add: in_flight_def)

lemma in_flight_remove1:
  "rq \<in> set fs \<Longrightarrow> in_flight ex k fs =
     (if hq_path rq \<notin> ex \<and> (hq_method rq, hq_path rq) = k then Suc (in_flight ex k (remove1 rq fs))
      else in_flight ex k (remove1 rq fs))"
  by (induction fs) (auto split: if_splits)

lemma answered_Cons [simp]:
  "answered ex k ((rq, s) # fin) =
     (if hq_path rq \<notin> ex \<and> (hq_method rq, route_template rq, status_label s) = k
      then Suc (answered ex k fin) else answered ex k fin)"
  by (simp add: answered_def)

lemma traffic_inv_begin:
  "traffic_inv ex (m, fs, fin) \<Longrightarrow> traffic_inv ex (dispatch_begin ex rq m, rq # fs, fin)"
  unfolding traffic_inv_def dispatch_begin_def by (auto simp: dict_simps)

lemma traffic_inv_end:
  assumes "traffic_inv ex (m, fs, fin)" "rq \<in> set fs"
  shows "traffic_inv ex (dispatch_end ex rq status dur m, remove1 rq fs, (rq, status) # fin)"
proof -
  have r: "in_flight ex k fs =
     (if hq_path rq \<notin> ex \<and> (hq_method rq, hq_path rq) = k then Suc (in_flight ex k (remove1 rq fs))
      else in_flight ex k (remove1 rq fs))" for k
    by (rule in_flight_remove1 [OF assms(2)])
  show ?thesis
    using assms(1) unfolding traffic_inv_def dispatch_end_def Let_def
    by (auto simp: dict_simps r)
qed

interpretation traffic_run: step_system "\<lambda>s. s = (no_metrics, [], [])" "traffic_step ex" "traffic_inv ex" for ex
proof unfold_locales
  show "traffic_inv ex s" if "s = (no_metrics, [], [])" for s
    using that by (simp add: traffic_inv_def no_metrics_def series_def in_flight_def answered_def)
  show "traffic_inv ex t" if "traffic_step ex s t" "traffic_inv ex s" for s t
    using that by (auto elim!: traffic_stepE intro: traffic_inv_begin traffic_inv_end)
qed


definition job_request :: "string \<Rightarrow> http_request" where
  "job_request p = \<lparr>hq_method = ''GET'', hq_path = p, hq_route = Some (Some ''/batch/{job_id}'', None)\<rparr>"

definition two_jobs :: "(http_request \<times> nat option) list" where
  "two_jobs = [(job_request ''/batch/2'', Some 200), (job_request ''/batch/1'', Some 200)]"

lemma two_jobs_run: "\<exists>m. (traffic_step {})\<^sup>*\<^sup>* (no_metrics, [], []) (m, [], two_jobs)"
proof -
  have two: "\<exists>m'. (traffic_step {})\<^sup>*\<^sup>* (m, [], fin) (m', [], (rq, s) # fin)" for m fin rq s
  proof -
    let ?b = "dispatch_begin {} rq m"
    have "traffic_step {} (m, [], fin) (?b, [rq], fin)" by (rule traffic_step.arrive)
    moreover have "traffic_step {} (?b, [rq], fin) (dispatch_end {} rq s 1 ?b, [], (rq, s) # fin)"
      using traffic_step.leave [of rq "[rq]" "{}" ?b fin s 1] by simp
    ultimately show ?thesis by (meson converse_rtranclp_into_rtranclp r_into_rtranclp)
  qed
  obtain m1 where "(traffic_step {})\<^sup>*\<^sup>* (no_metrics, [], []) (m1, [], [(job_request ''/batch/1'', Some 200)])"
    using two by blast
  moreover obtain m2 where "(traffic_step {})\<^sup>*\<^sup>* (m1, [], [(job_request ''/batch/1'', Some 200)]) (m2, [], two_jobs)"
    unfolding two_jobs_def using two by blast
  ultimately show ?thesis by (meson rtranclp_trans)
qed


text \<open>
  Correlation. The identifier a request carries is the caller's, cut to 64 characters, exactly
  when the caller sent one that is not blank, and the fresh one otherwise; so it is never longer
  than 64 characters unless the fresh one is.
\<close>

theorem correlation_bounded:
  "length (adopt_correlation_id incoming fresh) \<le> max 64 (length fresh)
   \<and> adopt_correlation_id None fresh = fresh
   \<and> adopt_correlation_id (Some (replicate n (CHR '' ''))) fresh = fresh
   \<and> adopt_correlation_id (Some (CHR ''a'' # s)) fresh = take 64 (CHR ''a'' # s)"
proof -
  have sp: "is_space (CHR '' '')" "\<not> is_space (CHR ''a'')" by (simp_all add: is_space_def)
  have "dropWhile is_space (replicate n (CHR '' '')) = []" using sp(1) by (induction n) simp_all
  moreover have "length (adopt_correlation_id incoming fresh) \<le> max 64 (length fresh)"
    by (cases incoming) (auto simp: adopt_correlation_id_def)
  ultimately show ?thesis using sp(2) by (simp add: adopt_correlation_id_def)
qed

end
