(* ===== verification/Rate_Limit.thy ===== *)
theory Rate_Limit
  imports Config "HOL-Library.Product_Lexorder"
begin

text \<open>
  Per-tier rate limiting (\<open>api/middleware/rate_limit.py\<close>): the sliding-window Lua script over a
  Redis sorted set, and the limiter around it. A sorted set is the list of its members with
  their scores, ordered by score and then by member; a key also has the time at which Redis
  expires it. The script is atomic. Clock readings, the monotonic counter and Redis failures are
  arguments; a failed call may or may not have run the script.
\<close>

type_synonym zset = "(string \<times> int) list"

record window_key =
  wk_entries :: zset
  wk_expires_at :: "int option"

type_synonym limiter_db = "string \<Rightarrow> window_key"

definition empty_key :: window_key where
  "empty_key = \<lparr>wk_entries = [], wk_expires_at = None\<rparr>"

definition zremrangebyscore :: "int \<Rightarrow> int \<Rightarrow> zset \<Rightarrow> zset" where
  "zremrangebyscore lo hi z = filter (\<lambda>(m, s). \<not> (lo \<le> s \<and> s \<le> hi)) z"

definition zadd :: "int \<Rightarrow> string \<Rightarrow> zset \<Rightarrow> zset" where
  "zadd score member z = insort_key (\<lambda>(m, s). (s, m)) (member, score) (filter (\<lambda>(m, s). m \<noteq> member) z)"

text \<open>Redis deletes a key whose expiry has passed before anything reads it.\<close>

definition live_key :: "int \<Rightarrow> window_key \<Rightarrow> window_key" where
  "live_key server_now k =
     (case wk_expires_at k of Some t \<Rightarrow> if t \<le> server_now then empty_key else k | None \<Rightarrow> k)"

text \<open>\<open>_SLIDING_WINDOW_SCRIPT\<close> on one key; \<open>server_now\<close> is the server's own clock, which only
  expiry uses.\<close>

definition sliding_window ::
  "int \<Rightarrow> int \<Rightarrow> int \<Rightarrow> int \<Rightarrow> string \<Rightarrow> window_key \<Rightarrow> window_key \<times> int \<times> int \<times> int" where
  "sliding_window server_now now window limit member k0 =
     (let k = live_key server_now k0;
          z = zremrangebyscore 0 (now - window) (wk_entries k);
          count = int (length z)
      in if count < limit
         then (\<lparr>wk_entries = zadd now member z, wk_expires_at = Some (server_now + window + 1000)\<rparr>,
               1, count + 1, 0)
         else (k\<lparr>wk_entries := z\<rparr>, 0, count, (case z of (m, s) # _ \<Rightarrow> s | [] \<Rightarrow> 0)))"

section \<open>The limiter\<close>

definition window_seconds :: int where
  "window_seconds = 60"

record rate_limit_decision =
  rl_allowed :: bool
  rl_limit :: int
  rl_remaining :: int
  rl_retry_after_seconds :: int

definition rate_limit_headers :: "rate_limit_decision \<Rightarrow> (string, string) dict" where
  "rate_limit_headers d =
     [(''X-RateLimit-Limit'', show_int (rl_limit d)),
      (''X-RateLimit-Remaining'', show_int (max 0 (rl_remaining d)))]
     @ (if \<not> rl_allowed d then [(''Retry-After'', show_int (rl_retry_after_seconds d))] else [])"

definition window_key_name :: "user_tier \<Rightarrow> string \<Rightarrow> string" where
  "window_key_name tier user_id = ''ratelimit:'' @ tier_value tier @ '':'' @ user_id"

definition request_member :: "int \<Rightarrow> nat \<Rightarrow> string" where
  "request_member now_ms monotonic_ns = show_int now_ms @ '':'' @ show_nat monotonic_ns"

text \<open>\<open>int(x / 1000)\<close> truncates towards zero.\<close>

definition trunc_div :: "int \<Rightarrow> int \<Rightarrow> int" where
  "trunc_div x y = (if 0 \<le> x then x div y else - ((- x) div y))"

text \<open>One reading of the two clocks and what became of the call.\<close>

datatype redis_call = NoRedis | Failed bool | Answered

record limiter_call =
  lc_now_ms :: int
  lc_server_ms :: int
  lc_monotonic_ns :: nat
  lc_redis :: redis_call

definition check_rate ::
  "settings \<Rightarrow> string \<Rightarrow> user_tier \<Rightarrow> limiter_call \<Rightarrow> limiter_db \<Rightarrow> limiter_db \<times> rate_limit_decision" where
  "check_rate cfg user_id tier call db =
     (let limit = rate_limit_for cfg tier;
          now_ms = lc_now_ms call;
          window_ms = window_seconds * 1000;
          key = window_key_name tier user_id;
          member = request_member now_ms (lc_monotonic_ns call);
          open_decision = \<lparr>rl_allowed = True, rl_limit = limit, rl_remaining = limit, rl_retry_after_seconds = 0\<rparr>
      in case sliding_window (lc_server_ms call) now_ms window_ms limit member (db key) of
           (k', allowed, n, oldest_ts) \<Rightarrow>
             (case lc_redis call of
                NoRedis \<Rightarrow> (db, open_decision)
              | Failed executed \<Rightarrow> (if executed then db(key := k') else db, open_decision)
              | Answered \<Rightarrow>
                  (db(key := k'),
                   if allowed = 1
                   then \<lparr>rl_allowed = True, rl_limit = limit, rl_remaining = limit - n,
                         rl_retry_after_seconds = 0\<rparr>
                   else \<lparr>rl_allowed = False, rl_limit = limit, rl_remaining = 0,
                         rl_retry_after_seconds = max 1 (trunc_div (oldest_ts + window_ms - now_ms) 1000 + 1)\<rparr>)))"

definition enforce_rate ::
  "settings \<Rightarrow> string \<Rightarrow> user_tier \<Rightarrow> limiter_call \<Rightarrow> limiter_db \<Rightarrow> limiter_db \<times> rate_limit_decision result" where
  "enforce_rate cfg user_id tier call db =
     (case check_rate cfg user_id tier call db of
        (db', d) \<Rightarrow>
          (db',
           if \<not> rl_allowed d
           then Inl (ApiExc (rate_limit_error_init
                  (Some (''Rate limit of '' @ show_int (rl_limit d) @ '' requests per minute exceeded for ''
                         @ ''the '' @ tier_value tier @ '' tier.''))
                  (rl_retry_after_seconds d) (rl_limit d) []))
           else Inr d))"

definition reset_rate :: "string \<Rightarrow> user_tier \<Rightarrow> redis_call \<Rightarrow> limiter_db \<Rightarrow> limiter_db" where
  "reset_rate user_id tier call db =
     (case call of
        NoRedis \<Rightarrow> db
      | Failed executed \<Rightarrow> (if executed then db(window_key_name tier user_id := empty_key) else db)
      | Answered \<Rightarrow> db(window_key_name tier user_id := empty_key))"

section \<open>One window\<close>

text \<open>Processing requests on one key in order; \<open>adm\<close> collects the times at which one was admitted.\<close>

record window_run =
  wr_key :: window_key
  wr_admitted :: "int list"
  wr_clock :: int

definition run_request :: "int \<Rightarrow> int \<Rightarrow> int \<Rightarrow> string \<Rightarrow> window_run \<Rightarrow> window_run" where
  "run_request window limit now member r =
     (case sliding_window now now window limit member (wr_key r) of
        (k', allowed, _, _) \<Rightarrow>
          \<lparr>wr_key = k', wr_admitted = wr_admitted r @ (if allowed = 1 then [now] else []), wr_clock = now\<rparr>)"

inductive window_step :: "int \<Rightarrow> int \<Rightarrow> window_run \<Rightarrow> window_run \<Rightarrow> bool" for window limit where
  request: "wr_clock r \<le> now \<Longrightarrow> member \<notin> fst ` set (wk_entries (wr_key r)) \<Longrightarrow>
     window_step window limit r (run_request window limit now member r)"

inductive_cases window_stepE: "window_step window limit r r'"

definition fresh_window :: "window_run" where
  "fresh_window = \<lparr>wr_key = empty_key, wr_admitted = [], wr_clock = 0\<rparr>"

text \<open>Admissions in the window that ends at \<open>T\<close>.\<close>

definition admitted_in :: "int \<Rightarrow> int \<Rightarrow> int list \<Rightarrow> nat" where
  "admitted_in window T adm = length (filter (\<lambda>t. T - window < t \<and> t \<le> T) adm)"

definition window_inv :: "int \<Rightarrow> int \<Rightarrow> window_run \<Rightarrow> bool" where
  "window_inv window limit r \<longleftrightarrow>
     0 \<le> wr_clock r
     \<and> (\<forall>t \<in> set (wr_admitted r). 0 \<le> t \<and> t \<le> wr_clock r)
     \<and> (\<exists>cut. cut \<le> wr_clock r - window
          \<and> mset (map snd (wk_entries (wr_key r))) = mset (filter (\<lambda>t. cut < t) (wr_admitted r)))
     \<and> sorted (map snd (wk_entries (wr_key r)))
     \<and> (\<forall>e. wk_expires_at (wr_key r) = Some e \<longrightarrow> (\<forall>t \<in> set (wr_admitted r). t + window \<le> e))
     \<and> int (length (wk_entries (wr_key r))) \<le> limit
     \<and> (\<forall>T. int (admitted_in window T (wr_admitted r)) \<le> limit)"

lemma insort_key_mset: "mset (insort_key f x xs) = add_mset x (mset xs)"
  by (induction xs) auto

lemma zadd_fresh:
  "member \<notin> fst ` set z \<Longrightarrow> mset (map snd (zadd score member z)) = add_mset score (mset (map snd z))"
proof -
  assume "member \<notin> fst ` set z"
  then have "filter (\<lambda>(m, s). m \<noteq> member) z = z" by (force simp: filter_id_conv)
  then show ?thesis by (simp add: zadd_def insort_key_mset)
qed

lemma sorted_snd_insort:
  "sorted (map snd z) \<Longrightarrow> (\<forall>(m, s) \<in> set z. s \<le> score) \<Longrightarrow>
     sorted (map snd (insort_key (\<lambda>(m, s). (s :: int, m :: string)) (member, score) z))"
  by (induction z) (auto simp: less_eq_prod_def set_insort_key)

lemma zrem_scores:
  "map snd (zremrangebyscore lo hi z) = filter (\<lambda>s. \<not> (lo \<le> s \<and> s \<le> hi)) (map snd z)"
  by (induction z) (auto simp: zremrangebyscore_def)

lemma mset_filter_cong: "mset xs = mset ys \<Longrightarrow> mset (filter P xs) = mset (filter P ys)"
  by (simp add: mset_filter)

lemma admitted_in_append:
  "admitted_in w T (adm @ [t]) = admitted_in w T adm + (if T - w < t \<and> t \<le> T then 1 else 0)"
  by (simp add: admitted_in_def)

text \<open>The trimmed set is what was admitted in the window that ends now.\<close>

lemma trimmed_scores:
  assumes "window_inv w l r" "wr_clock r \<le> now"
  shows "mset (map snd (zremrangebyscore 0 (now - w) (wk_entries (live_key now (wr_key r)))))
           = mset (filter (\<lambda>t. now - w < t) (wr_admitted r))"
    and "sorted (map snd (zremrangebyscore 0 (now - w) (wk_entries (live_key now (wr_key r)))))"
proof -
  from assms(1) obtain cut where cut: "cut \<le> wr_clock r - w"
    "mset (map snd (wk_entries (wr_key r))) = mset (filter (\<lambda>t. cut < t) (wr_admitted r))"
    and pos: "\<forall>t \<in> set (wr_admitted r). 0 \<le> t"
    and ex: "\<forall>e. wk_expires_at (wr_key r) = Some e \<longrightarrow> (\<forall>t \<in> set (wr_admitted r). t + w \<le> e)"
    and so: "sorted (map snd (wk_entries (wr_key r)))"
    by (auto simp: window_inv_def)
  show "mset (map snd (zremrangebyscore 0 (now - w) (wk_entries (live_key now (wr_key r)))))
           = mset (filter (\<lambda>t. now - w < t) (wr_admitted r))"
  proof (cases "\<exists>e. wk_expires_at (wr_key r) = Some e \<and> e \<le> now")
    case True
    then have "live_key now (wr_key r) = empty_key" by (auto simp: live_key_def)
    moreover from True ex have "\<forall>t \<in> set (wr_admitted r). \<not> now - w < t" by fastforce
    ultimately show ?thesis by (simp add: zremrangebyscore_def empty_key_def filter_False)
  next
    case False
    then have k: "live_key now (wr_key r) = wr_key r" by (auto simp: live_key_def split: option.splits)
    have "mset (filter (\<lambda>s. \<not> (0 \<le> s \<and> s \<le> now - w)) (map snd (wk_entries (wr_key r))))
        = mset (filter (\<lambda>s. \<not> (0 \<le> s \<and> s \<le> now - w)) (filter (\<lambda>t. cut < t) (wr_admitted r)))"
      by (rule mset_filter_cong [OF cut(2)])
    also have "filter (\<lambda>s. \<not> (0 \<le> s \<and> s \<le> now - w)) (filter (\<lambda>t. cut < t) (wr_admitted r))
        = filter (\<lambda>t. now - w < t) (wr_admitted r)"
      using pos cut(1) assms(2) by (auto intro: filter_cong simp: filter_filter)
    finally show ?thesis by (simp add: k zrem_scores)
  qed
  show "sorted (map snd (zremrangebyscore 0 (now - w) (wk_entries (live_key now (wr_key r)))))"
    using so by (auto simp: zrem_scores sorted_filter live_key_def empty_key_def sorted_wrt_filter split: option.splits)
qed

lemma window_inv_fresh: "0 \<le> l \<Longrightarrow> window_inv w l fresh_window"
  by (auto simp: window_inv_def fresh_window_def empty_key_def admitted_in_def intro: exI [of _ "- w"])

lemma window_inv_request:
  assumes inv: "window_inv w l r" and w: "0 < w" and now: "wr_clock r \<le> now"
    and m: "member \<notin> fst ` set (wk_entries (wr_key r))"
  shows "window_inv w l (run_request w l now member r)"
proof -
  let ?k = "live_key now (wr_key r)"
  let ?z = "zremrangebyscore 0 (now - w) (wk_entries ?k)"
  note z = trimmed_scores [OF inv now]
  have now0: "0 \<le> now" using inv now by (auto simp: window_inv_def)
  have fresh: "member \<notin> fst ` set ?z"
    using m by (auto simp: zremrangebyscore_def live_key_def empty_key_def split: option.splits)
  have old: "\<forall>t \<in> set (wr_admitted r). 0 \<le> t \<and> t \<le> now"
    using inv now by (fastforce simp: window_inv_def)
  have lim: "int (admitted_in w T (wr_admitted r)) \<le> l" for T using inv by (simp add: window_inv_def)
  have len: "length ?z = length (filter (\<lambda>t. now - w < t) (wr_admitted r))"
    using mset_eq_length [OF z(1)] by (simp only: length_map)
  have scores: "\<forall>(mm, s) \<in> set ?z. s \<le> now"
  proof -
    have "set_mset (mset (map snd ?z)) \<subseteq> set (wr_admitted r)" unfolding z(1) by auto
    then show ?thesis using old by force
  qed
  show ?thesis
  proof (cases "int (length ?z) < l")
    case True
    let ?k' = "\<lparr>wk_entries = zadd now member ?z, wk_expires_at = Some (now + w + 1000)\<rparr>"
    have run: "run_request w l now member r =
        \<lparr>wr_key = ?k', wr_admitted = wr_admitted r @ [now], wr_clock = now\<rparr>"
      using True by (simp add: run_request_def sliding_window_def Let_def)
    have ms: "mset (map snd (zadd now member ?z)) = mset (filter (\<lambda>t. now - w < t) (wr_admitted r @ [now]))"
      using zadd_fresh [OF fresh] z(1) w by simp
    have len': "length (zadd now member ?z) = Suc (length ?z)"
      using arg_cong [OF zadd_fresh [OF fresh], of size] by simp
    have so: "sorted (map snd (zadd now member ?z))"
      unfolding zadd_def
      by (rule sorted_snd_insort)
        (use z(2) scores in \<open>auto simp: sorted_wrt_map intro: sorted_wrt_filter\<close>)
    have adm: "int (admitted_in w T (wr_admitted r @ [now])) \<le> l" for T
    proof (cases "T - w < now \<and> now \<le> T")
      case True
      have "admitted_in w T (wr_admitted r) \<le> length (filter (\<lambda>t. now - w < t) (wr_admitted r))"
        unfolding admitted_in_def using True
        by (induction "wr_admitted r") (auto simp: length_filter_conv_card intro!: card_mono)
      with True \<open>int (length ?z) < l\<close> len show ?thesis by (simp add: admitted_in_append)
    next
      case False
      then show ?thesis using lim [of T] by (auto simp: admitted_in_append)
    qed
    have "\<forall>t \<in> set (wr_admitted r @ [now]). t + w \<le> now + w + 1000" using old by auto
    then show ?thesis
      unfolding run window_inv_def
      using now0 old ms so adm len' True
      by (auto intro!: exI [of _ "now - w"])
  next
    case False
    have run: "run_request w l now member r =
        \<lparr>wr_key = ?k\<lparr>wk_entries := ?z\<rparr>, wr_admitted = wr_admitted r, wr_clock = now\<rparr>"
      using False by (simp add: run_request_def sliding_window_def Let_def)
    have ex: "\<forall>e. wk_expires_at ?k = Some e \<longrightarrow> (\<forall>t \<in> set (wr_admitted r). t + w \<le> e)"
      using inv by (auto simp: window_inv_def live_key_def empty_key_def split: option.splits)
    have "int (length ?z) \<le> l"
    proof -
      have "length ?z \<le> length (wk_entries (wr_key r))"
        by (auto simp: zremrangebyscore_def live_key_def empty_key_def split: option.splits)
      then show ?thesis using inv by (auto simp: window_inv_def)
    qed
    then show ?thesis
      unfolding run window_inv_def
      using now0 old z lim ex by (auto intro!: exI [of _ "now - w"])
  qed
qed

text \<open>The runs of one caller under a positive window: the limit is fixed by the tier.\<close>

definition window_steps :: "int \<Rightarrow> window_run \<Rightarrow> window_run \<Rightarrow> bool" where
  "window_steps limit = window_step (window_seconds * 1000) limit"

interpretation window_run: step_system "\<lambda>r. r = fresh_window" "window_steps limit"
  "\<lambda>r. 0 \<le> limit \<longrightarrow> window_inv (window_seconds * 1000) limit r" for limit
  by unfold_locales
    (auto simp: window_steps_def window_seconds_def window_inv_fresh elim!: window_stepE
      intro: window_inv_request)

text \<open>
  C29. The quota holds in every sliding window, not only in aligned ones. For any sequence of
  requests of one caller at non-decreasing times with distinct members, whatever the limit, and
  any instant \<open>T\<close> (a window boundary or not), at most \<open>limit\<close> requests have been admitted in the
  60 seconds ending at \<open>T\<close>; so there is no burst of twice the limit at a boundary. The expiry the
  script sets on the key never forgets an admission that still counts, and the set never holds
  more than \<open>limit\<close> entries.
\<close>

theorem rate_limit_window:
  assumes "0 \<le> limit" "(window_steps limit)\<^sup>*\<^sup>* fresh_window r"
  shows "int (admitted_in (window_seconds * 1000) T (wr_admitted r)) \<le> limit
         \<and> int (length (wk_entries (wr_key r))) \<le> limit"
  using window_run.inv_reachable [OF refl assms(2)] assms(1) by (simp add: window_inv_def)

definition one_request :: "window_run" where
  "one_request = run_request 60000 1 0 ''a'' fresh_window"

definition two_requests :: "window_run" where
  "two_requests = run_request 60000 1 59999 ''b'' one_request"

lemma one_request_eq:
  "one_request = \<lparr>wr_key = \<lparr>wk_entries = [(''a'', 0)], wk_expires_at = Some 61000\<rparr>, wr_admitted = [0], wr_clock = 0\<rparr>"
  by (simp add: one_request_def fresh_window_def empty_key_def run_request_def sliding_window_def
      live_key_def zremrangebyscore_def zadd_def Let_def)

lemma two_requests_eq:
  "two_requests = \<lparr>wr_key = \<lparr>wk_entries = [(''a'', 0)], wk_expires_at = Some 61000\<rparr>, wr_admitted = [0], wr_clock = 59999\<rparr>"
  by (simp add: two_requests_def one_request_eq run_request_def sliding_window_def
      live_key_def zremrangebyscore_def Let_def)

lemma two_requests_reachable: "(window_steps 1)\<^sup>*\<^sup>* fresh_window two_requests"
proof -
  have "window_steps 1 fresh_window one_request"
    unfolding window_steps_def window_seconds_def one_request_def
    using window_step.request [of fresh_window 0 "''a''" 60000 1]
    by (simp add: fresh_window_def empty_key_def)
  moreover have "window_steps 1 one_request two_requests"
    unfolding window_steps_def window_seconds_def two_requests_def
    using window_step.request [of one_request 59999 "''b''" 60000 1] by (simp add: one_request_eq)
  ultimately show ?thesis by (rule converse_rtranclp_into_rtranclp [OF _ r_into_rtranclp])
qed

theorem rate_limit_window_witness:
  "wr_admitted two_requests = [0] \<and> int (admitted_in 60000 59999 (wr_admitted two_requests)) \<le> 1"
  using rate_limit_window [OF _ two_requests_reachable, of 59999]
  by (simp add: window_seconds_def two_requests_eq)

section \<open>Rejections\<close>

lemma trunc_div_exceeds: "0 < y \<Longrightarrow> x < (trunc_div x y + 1) * y"
proof -
  assume y: "0 < y"
  show ?thesis
  proof (cases "0 \<le> x")
    case True
    have "x div y * y + x mod y = x" "x mod y < y" using y by simp_all
    then have "x < x div y * y + y" by linarith
    then show ?thesis using True by (simp add: trunc_div_def distrib_right)
  next
    case False
    have "(- x) div y * y + (- x) mod y = - x" "0 \<le> (- x) mod y" using y by simp_all
    then have "x \<le> - ((- x) div y * y)" by linarith
    moreover have "(trunc_div x y + 1) * y = - ((- x) div y * y) + y"
      unfolding trunc_div_def if_not_P [OF False] by (simp only: distrib_right mult_minus_left mult_1)
    ultimately show ?thesis using y by linarith
  qed
qed

lemma length_filter_hd: "xs \<noteq> [] \<Longrightarrow> \<not> P (hd xs) \<Longrightarrow> length (filter P xs) < length xs"
  by (cases xs) (auto intro: le_imp_less_Suc)

lemma window_key_name_inject: "window_key_name t u = window_key_name t' u' \<longleftrightarrow> t = t' \<and> u = u'"
  by (cases t; cases t') (auto simp: window_key_name_def)

lemma sliding_window_cases:
  assumes "sliding_window sn now w l m k0 = (k', a, n, old)"
  obtains (admit) z where "set z \<subseteq> set (wk_entries k0)" "int (length z) < l" "a = 1" "n = int (length z) + 1"
      "wk_entries k' = zadd now m z"
  | (refuse) z where "set z \<subseteq> set (wk_entries k0)" "length z \<le> length (wk_entries k0)"
      "l \<le> int (length z)" "a = 0" "wk_entries k' = z" "old = (case z of (m, s) # _ \<Rightarrow> s | [] \<Rightarrow> 0)"
proof -
  let ?z = "zremrangebyscore 0 (now - w) (wk_entries (live_key sn k0))"
  have z: "set ?z \<subseteq> set (wk_entries k0)" "length ?z \<le> length (wk_entries k0)"
    by (auto simp: zremrangebyscore_def live_key_def empty_key_def split: option.splits)
  show ?thesis
  proof (cases "int (length ?z) < l")
    case True
    with assms z show ?thesis by (intro admit [of ?z]) (auto simp: sliding_window_def Let_def)
  next
    case False
    with assms z show ?thesis by (intro refuse [of ?z]) (auto simp: sliding_window_def Let_def)
  qed
qed

lemma sliding_window_readmits:
  assumes "wk_entries k = (m0, old) # z" "int (Suc (length z)) \<le> l" "0 \<le> old" "old \<le> now - w"
  shows "fst (snd (sliding_window sn now w l m k)) = 1"
proof -
  have "length (zremrangebyscore 0 (now - w) (wk_entries (live_key sn k))) < Suc (length z)"
    using assms(1,3,4)
    by (auto simp: live_key_def empty_key_def zremrangebyscore_def le_imp_less_Suc split: option.splits)
  with assms(2) show ?thesis by (simp add: sliding_window_def Let_def)
qed

lemma check_rate_answered:
  assumes "check_rate cfg u tier call db = (db', d)" "lc_redis call = Answered"
    and "sliding_window (lc_server_ms call) (lc_now_ms call) (window_seconds * 1000) (rate_limit_for cfg tier)
           (request_member (lc_now_ms call) (lc_monotonic_ns call)) (db (window_key_name tier u)) = (k', a, n, old)"
  shows "db' = db(window_key_name tier u := k') \<and> rl_allowed d = (a = 1) \<and> rl_limit d = rate_limit_for cfg tier
    \<and> rl_remaining d = (if a = 1 then rate_limit_for cfg tier - n else 0)
    \<and> rl_retry_after_seconds d = (if a = 1 then 0
         else max 1 (trunc_div (old + window_seconds * 1000 - lc_now_ms call) 1000 + 1))"
  using assms by (auto simp: check_rate_def Let_def)

lemma check_rate_open:
  assumes "check_rate cfg u tier call db = (db', d)" "lc_redis call \<noteq> Answered"
  shows "rl_allowed d \<and> rl_limit d = rate_limit_for cfg tier \<and> rl_remaining d = rate_limit_for cfg tier"
  using assms by (cases "lc_redis call") (auto simp: check_rate_def Let_def split: prod.splits)

lemma check_rate_isolated:
  assumes "check_rate cfg u tier call db = (db', d)" "(t, v) \<noteq> (tier, u)"
  shows "db' (window_key_name t v) = db (window_key_name t v)"
  using assms window_key_name_inject [of t v tier u]
  by (cases "lc_redis call") (auto simp: check_rate_def Let_def split: prod.splits if_splits)

lemma enforce_rate_result:
  assumes "check_rate cfg u tier call db = (db', d)"
  shows "rl_allowed d \<Longrightarrow> enforce_rate cfg u tier call db = (db', Inr d)"
    and "\<not> rl_allowed d \<Longrightarrow> \<exists>e. enforce_rate cfg u tier call db = (db', Inl (ApiExc e)) \<and> err_status e = 429
           \<and> err_retry_after e = Some (rl_retry_after_seconds d)"
  using assms by (auto simp: enforce_rate_def rate_limit_error_init_def class_status_def)

text \<open>
  A rejection is exact and its Retry-After is sufficient. When the caller is refused, the error
  raised is the 429 of the hierarchy carrying the same delay as the decision, at least one
  second; and if the caller stays idle that long, the next request Redis answers is admitted,
  whatever the server's own clock does. An admitted request reports a remaining quota between
  zero and the limit; if Redis is absent or fails the request is always admitted. No decision
  touches the window of another user or tier.
\<close>

theorem rate_limit_decisions:
  assumes "check_rate cfg u tier call db = (db', d)"
    and "int (length (wk_entries (db (window_key_name tier u)))) \<le> rate_limit_for cfg tier"
    and "0 < rate_limit_for cfg tier" "\<forall>x \<in> set (wk_entries (db (window_key_name tier u))). 0 \<le> snd x"
  shows "(\<not> rl_allowed d \<longrightarrow>
            lc_redis call = Answered \<and> 1 \<le> rl_retry_after_seconds d
            \<and> (\<exists>e. enforce_rate cfg u tier call db = (db', Inl (ApiExc e)) \<and> err_status e = 429
                 \<and> err_retry_after e = Some (rl_retry_after_seconds d))
            \<and> (\<forall>call'. lc_redis call' = Answered
                 \<and> lc_now_ms call + 1000 * rl_retry_after_seconds d \<le> lc_now_ms call' \<longrightarrow>
                 rl_allowed (snd (check_rate cfg u tier call' db'))))
    \<and> (rl_allowed d \<longrightarrow> enforce_rate cfg u tier call db = (db', Inr d)
         \<and> 0 \<le> rl_remaining d \<and> rl_remaining d \<le> rate_limit_for cfg tier)
    \<and> (\<forall>t v. (t, v) \<noteq> (tier, u) \<longrightarrow> db' (window_key_name t v) = db (window_key_name t v))"
proof -
  let ?key = "window_key_name tier u" and ?l = "rate_limit_for cfg tier"
  have iso: "\<forall>t v. (t, v) \<noteq> (tier, u) \<longrightarrow> db' (window_key_name t v) = db (window_key_name t v)"
    using check_rate_isolated [OF assms(1)] by blast
  show ?thesis
  proof (cases "lc_redis call = Answered")
    case False
    with check_rate_open [OF assms(1)] enforce_rate_result(1) [OF assms(1)] iso assms(3)
    show ?thesis by simp
  next
    case True
    obtain k' a n old where sw: "sliding_window (lc_server_ms call) (lc_now_ms call) (window_seconds * 1000) ?l
        (request_member (lc_now_ms call) (lc_monotonic_ns call)) (db ?key) = (k', a, n, old)"
      by (metis prod_cases4)
    note d = check_rate_answered [OF assms(1) True sw]
    from sw show ?thesis
    proof (cases rule: sliding_window_cases)
      case (admit z)
      with d enforce_rate_result(1) [OF assms(1)] iso show ?thesis by simp
    next
      case (refuse z)
      then obtain m0 z' where z: "z = (m0, old) # z'" using assms(3) by (cases z) auto
      have old: "0 \<le> old" using refuse(1) z assms(4) by force
      have ra: "1 \<le> rl_retry_after_seconds d"
        "trunc_div (old + window_seconds * 1000 - lc_now_ms call) 1000 + 1 \<le> rl_retry_after_seconds d"
        using d refuse by auto
      have again: "rl_allowed (snd (check_rate cfg u tier call' db'))"
        if c: "lc_redis call' = Answered" "lc_now_ms call + 1000 * rl_retry_after_seconds d \<le> lc_now_ms call'" for call'
      proof -
        have "old + window_seconds * 1000 - lc_now_ms call < rl_retry_after_seconds d * 1000"
          using trunc_div_exceeds [OF zero_less_numeral, of "old + window_seconds * 1000 - lc_now_ms call"] ra(2)
          by (meson less_le_trans mult_right_mono zero_le_numeral)
        then have "old \<le> lc_now_ms call' - window_seconds * 1000" using c(2) by linarith
        moreover have "int (Suc (length z')) \<le> ?l" using refuse(2) z assms(2) by simp
        moreover have "wk_entries (db' ?key) = (m0, old) # z'" using d refuse(5) z by simp
        ultimately have adm: "fst (snd (sliding_window (lc_server_ms call') (lc_now_ms call') (window_seconds * 1000) ?l
            (request_member (lc_now_ms call') (lc_monotonic_ns call')) (db' ?key))) = 1"
          using old by (intro sliding_window_readmits) auto
        obtain k2 a2 n2 old2 where sw2: "sliding_window (lc_server_ms call') (lc_now_ms call') (window_seconds * 1000) ?l
            (request_member (lc_now_ms call') (lc_monotonic_ns call')) (db' ?key) = (k2, a2, n2, old2)"
          by (metis prod_cases4)
        obtain db2 d2 where cr: "check_rate cfg u tier call' db' = (db2, d2)" by fastforce
        from check_rate_answered [OF cr c(1) sw2] adm sw2 cr show ?thesis by simp
      qed
      have "\<not> rl_allowed d" using d refuse by simp
      with True ra(1) enforce_rate_result(2) [OF assms(1)] again iso show ?thesis by simp
    qed
  qed
qed

definition one_per_minute :: settings where
  "one_per_minute = default_settings\<lparr>rate_limit_free_rpm := 1\<rparr>"

definition call_at :: "int \<Rightarrow> limiter_call" where
  "call_at t = \<lparr>lc_now_ms = t, lc_server_ms = t, lc_monotonic_ns = 0, lc_redis = Answered\<rparr>"

definition used_window :: limiter_db where
  "used_window = (\<lambda>_. empty_key)(window_key_name FREE ''u'' := wr_key one_request)"

theorem rate_limit_decisions_witness:
  "\<not> rl_allowed (snd (check_rate one_per_minute ''u'' FREE (call_at 30000) used_window))
   \<and> rl_allowed (snd (check_rate one_per_minute ''u'' FREE (call_at 61000)
        (fst (check_rate one_per_minute ''u'' FREE (call_at 30000) used_window))))"
proof -
  have k: "used_window (window_key_name FREE ''u'') = \<lparr>wk_entries = [(''a'', 0)], wk_expires_at = Some 61000\<rparr>"
    by (simp add: used_window_def one_request_eq)
  have l: "rate_limit_for one_per_minute FREE = 1" "rate_limit_free_rpm one_per_minute = 1"
    by (simp_all add: one_per_minute_def)
  obtain db' d where c: "check_rate one_per_minute ''u'' FREE (call_at 30000) used_window = (db', d)" by fastforce
  have "sliding_window 30000 30000 60000 1 (request_member 30000 0) \<lparr>wk_entries = [(''a'', 0)], wk_expires_at = Some 61000\<rparr>
      = (\<lparr>wk_entries = [(''a'', 0)], wk_expires_at = Some 61000\<rparr>, 0, 1, 0)"
    by (simp add: sliding_window_def live_key_def zremrangebyscore_def Let_def)
  then have sw: "sliding_window (lc_server_ms (call_at 30000)) (lc_now_ms (call_at 30000)) (window_seconds * 1000)
      (rate_limit_for one_per_minute FREE) (request_member (lc_now_ms (call_at 30000)) (lc_monotonic_ns (call_at 30000)))
      (used_window (window_key_name FREE ''u''))
      = (\<lparr>wk_entries = [(''a'', 0)], wk_expires_at = Some 61000\<rparr>, 0, 1, 0)"
    by (simp add: call_at_def k l window_seconds_def)
  have d: "\<not> rl_allowed d" "rl_retry_after_seconds d = 31"
    using check_rate_answered [OF c _ sw] by (simp_all add: call_at_def window_seconds_def trunc_div_def)
  have "lc_redis (call_at 61000) = Answered" "lc_now_ms (call_at 30000) + 1000 * rl_retry_after_seconds d \<le> lc_now_ms (call_at 61000)"
    by (simp_all add: call_at_def d)
  with rate_limit_decisions [OF c] d c show ?thesis by (simp add: k l)
qed

end
