(* ===== verification/Responses.thy ===== *)
theory Responses
  imports Schemas
begin

text \<open>
  Response schemas (\<open>api/models/responses.py\<close>) and the audit row (\<open>api/db/models.py\<close>). A response
  is a record of its declared fields; constructing one checks the bounds its fields declare and
  raises pydantic's \<open>ValidationError\<close> (\<open>invalid_response\<close>) when one is violated.
\<close>

definition invalid_response :: exn where
  "invalid_response = PyExc ''ValidationError'' ''validation error for response model''"

record model_provenance =
  pv_model_name :: string
  pv_model_version :: string
  pv_backend :: string

record prediction =
  pr_label :: string
  pr_class_id :: int
  pr_wnid :: "string option"
  pr_probability :: "real option"

definition prediction_ok :: "prediction \<Rightarrow> bool" where
  "prediction_ok p \<longleftrightarrow> (case pr_probability p of None \<Rightarrow> True | Some x \<Rightarrow> 0 \<le> x \<and> x \<le> 1)"

definition make_prediction :: "prediction \<Rightarrow> prediction result" where
  "make_prediction p = (if prediction_ok p then Inr p else Inl invalid_response)"

definition prediction_dump :: "prediction \<Rightarrow> pyval" where
  "prediction_dump p =
     PDict [(''label'', PStr (pr_label p)), (''class_id'', PInt (pr_class_id p)),
            (''wnid'', py_opt_str (pr_wnid p)),
            (''probability'', case pr_probability p of None \<Rightarrow> PNone | Some x \<Rightarrow> PFloat x)]"

record classification_response =
  cr_predictions :: "prediction list"
  cr_inference_time_ms :: real
  cr_correlation_id :: string
  cr_provenance :: model_provenance
  cr_cached :: bool

record bounding_box =
  bb_x_min :: real
  bb_y_min :: real
  bb_x_max :: real
  bb_y_max :: real

definition bb_width :: "bounding_box \<Rightarrow> real" where
  "bb_width b = bb_x_max b - bb_x_min b"

definition bb_height :: "bounding_box \<Rightarrow> real" where
  "bb_height b = bb_y_max b - bb_y_min b"

record detection =
  dt_label :: string
  dt_class_id :: int
  dt_confidence :: real
  dt_box :: bounding_box

definition detection_ok :: "detection \<Rightarrow> bool" where
  "detection_ok d \<longleftrightarrow>
     0 \<le> dt_confidence d \<and> dt_confidence d \<le> 1
     \<and> 0 \<le> bb_x_min (dt_box d) \<and> 0 \<le> bb_y_min (dt_box d)
     \<and> 0 \<le> bb_x_max (dt_box d) \<and> 0 \<le> bb_y_max (dt_box d)"

definition make_detection :: "detection \<Rightarrow> detection result" where
  "make_detection d = (if detection_ok d then Inr d else Inl invalid_response)"

record detection_response =
  dr_detections :: "detection list"
  dr_image_width :: int
  dr_image_height :: int
  dr_inference_time_ms :: real
  dr_correlation_id :: string
  dr_provenance :: model_provenance
  dr_cached :: bool

record similar_image =
  si_rank :: int
  si_similarity :: real
  si_label :: string
  si_class_id :: int
  si_reference :: string

definition similar_ok :: "similar_image \<Rightarrow> bool" where
  "similar_ok s \<longleftrightarrow> -1 \<le> si_similarity s \<and> si_similarity s \<le> 1"

definition make_similar :: "similar_image \<Rightarrow> similar_image result" where
  "make_similar s = (if similar_ok s then Inr s else Inl invalid_response)"

record similarity_response =
  sr_results :: "similar_image list"
  sr_index_size :: int
  sr_inference_time_ms :: real
  sr_correlation_id :: string
  sr_provenance :: model_provenance

record batch_item_result =
  ir_item_id :: "string option"
  ir_image_url :: string
  ir_status :: string
  ir_result :: "pyval option"
  ir_error :: "pyval option"

record batch_job_response =
  bj_job_id :: string
  bj_status :: job_status
  bj_task :: task_type
  bj_total_items :: int
  bj_submitted_at :: int
  bj_status_url :: string

record batch_job_status =
  bs_job_id :: string
  bs_status :: job_status
  bs_task :: task_type
  bs_total_items :: int
  bs_completed_items :: int
  bs_failed_items :: int
  bs_submitted_at :: int
  bs_started_at :: "int option"
  bs_finished_at :: "int option"
  bs_results :: "batch_item_result list option"
  bs_error :: "string option"

definition job_progress :: "batch_job_status \<Rightarrow> real" where
  "job_progress s =
     (if bs_total_items s = 0 then 1
      else of_int (bs_completed_items s + bs_failed_items s) / of_int (bs_total_items s))"

record model_info =
  mi_name :: string
  mi_version :: string
  mi_task :: task_type
  mi_backend :: string
  mi_loaded :: bool
  mi_is_active :: bool
  mi_num_classes :: "int option"
  mi_input_size :: "int option"
  mi_artifact_size_mb :: "real option"
  mi_metrics :: "(string \<times> real) list"
  mi_loaded_at :: "int option"

record models_response =
  ms_models :: "model_info list"
  ms_default_backend :: string

record component_health =
  ch_name :: string
  ch_healthy :: bool
  ch_detail :: "string option"
  ch_latency_ms :: "real option"

record health_response =
  hr_status :: string
  hr_version :: string
  hr_uptime_seconds :: real
  hr_components :: "component_health list"

record token_response =
  tr_access_token :: string
  tr_token_type :: string
  tr_expires_in :: int
  tr_tier :: string

section \<open>The audit row\<close>

text \<open>The columns a record sets; \<open>id\<close>, \<open>created_at\<close> and \<open>notes\<close> are filled in by the database.\<close>

record inference_log =
  il_correlation_id :: string
  il_user_id :: "string option"
  il_user_tier :: "string option"
  il_model_name :: string
  il_model_version :: string
  il_backend :: string
  il_task :: string
  il_status :: string
  il_error_code :: "string option"
  il_latency_ms :: real
  il_cached :: bool
  il_batch_size :: int
  il_image_sha256 :: "string option"
  il_variant :: "string option"
  il_image_bytes :: "int option"
  il_image_width :: "int option"
  il_image_height :: "int option"
  il_image_format :: "string option"
  il_top_label :: "string option"
  il_top_class_id :: "int option"
  il_top_probability :: "real option"

section \<open>Facts\<close>

lemma make_prediction_Inr: "make_prediction p = Inr q \<longleftrightarrow> q = p \<and> prediction_ok p"
  by (auto simp: make_prediction_def)

lemma make_detection_Inr: "make_detection d = Inr e \<longleftrightarrow> e = d \<and> detection_ok d"
  by (auto simp: make_detection_def)

lemma make_similar_Inr: "make_similar s = Inr t \<longleftrightarrow> t = s \<and> similar_ok s"
  by (auto simp: make_similar_def)

lemma prediction_ok_rounded: "0 \<le> x \<Longrightarrow> x \<le> 1 \<Longrightarrow> prediction_ok \<lparr>pr_label = l, pr_class_id = c, pr_wnid = w, pr_probability = Some (py_round n x)\<rparr>"
  using py_round_between [of 0 x 1 n] by (simp add: prediction_ok_def)

lemma job_progress_bounds:
  "0 \<le> bs_completed_items s \<Longrightarrow> 0 \<le> bs_failed_items s \<Longrightarrow>
   bs_completed_items s + bs_failed_items s \<le> bs_total_items s \<Longrightarrow> 0 \<le> job_progress s \<and> job_progress s \<le> 1"
  by (auto simp: job_progress_def divide_le_eq_1 zero_le_divide_iff simp flip: of_int_add)

end
