(* ===== verification/Auth.thy ===== *)
theory Auth
  imports Responses Cache_Service
begin

text \<open>
  Authentication and authorisation (\<open>api/middleware/auth.py\<close>), token issuance
  (\<open>api/routers/auth.py\<close>) and the seeding of development keys (\<open>api/main.py\<close>). SHA-256 and the
  JWT library are parameters; what is relied on of the latter is \<open>jwt_ok\<close>: a token decodes to the
  claims it was made from, under the same secret and algorithm and before its expiry, and
  nothing else decodes. Times are seconds; the random token identifier is an argument. The
  store is a dictionary from digests to records, behind the interface \<open>key_store\<close>.
\<close>

record principal =
  pn_user_id :: string
  pn_tier :: user_tier

definition is_enterprise :: "principal \<Rightarrow> bool" where
  "is_enterprise p \<longleftrightarrow> pn_tier p = ENTERPRISE"

record api_key_record =
  ak_user_id :: string
  ak_tier :: user_tier
  ak_key_hash :: string

definition hash_api_key :: "(bytes \<Rightarrow> string) \<Rightarrow> string \<Rightarrow> string" where
  "hash_api_key sha256 api_key = sha256 (encode_text api_key)"

type_synonym api_key_store = "(string, api_key_record) dict"

text \<open>\<open>APIKeyStore.__init__\<close>: a dictionary comprehension, later records winning.\<close>

definition store_init :: "api_key_record list \<Rightarrow> api_key_store" where
  "store_init records = fold (\<lambda>r d. dict_set (ak_key_hash r) r d) records []"

definition store_add ::
  "(bytes \<Rightarrow> string) \<Rightarrow> string \<Rightarrow> string \<Rightarrow> user_tier \<Rightarrow> api_key_store \<Rightarrow> api_key_store" where
  "store_add sha256 api_key user_id tier store =
     (let h = hash_api_key sha256 api_key in
      dict_set h \<lparr>ak_user_id = user_id, ak_tier = tier, ak_key_hash = h\<rparr> store)"

text \<open>\<open>APIKeyStore.resolve\<close>: every record is compared, the last match is returned.\<close>

fun scan_records :: "string \<Rightarrow> api_key_store \<Rightarrow> api_key_record option \<Rightarrow> api_key_record option" where
  "scan_records candidate [] matched = matched"
| "scan_records candidate ((stored_hash, r) # rest) matched =
     scan_records candidate rest (if stored_hash = candidate then Some r else matched)"

definition store_resolve :: "(bytes \<Rightarrow> string) \<Rightarrow> api_key_store \<Rightarrow> string \<Rightarrow> api_key_record option" where
  "store_resolve sha256 store api_key = scan_records (hash_api_key sha256 api_key) store None"

section \<open>Tokens\<close>

type_synonym claims = "(string, pyval) dict"

datatype jwt_error = ExpiredSignature | InvalidToken string

record jwt =
  jw_encode :: "claims \<Rightarrow> string \<Rightarrow> string \<Rightarrow> string"
  jw_decode :: "int \<Rightarrow> string \<Rightarrow> string \<Rightarrow> string \<Rightarrow> jwt_error + claims"
  jw_str :: "pyval \<Rightarrow> string"

definition create_access_token ::
  "jwt \<Rightarrow> principal \<Rightarrow> settings \<Rightarrow> int option \<Rightarrow> int \<Rightarrow> string \<Rightarrow> string \<times> int" where
  "create_access_token J p cfg expires_in now jti =
     (let lifetime = (case expires_in of Some t \<Rightarrow> if t = 0 then jwt_access_token_ttl_seconds cfg else t
                      | None \<Rightarrow> jwt_access_token_ttl_seconds cfg);
          payload = [(''sub'', PStr (pn_user_id p)), (''tier'', PStr (tier_value (pn_tier p))),
                     (''iat'', PInt now), (''exp'', PInt (now + lifetime)), (''jti'', PStr jti)]
      in (jw_encode J payload (jwt_secret_key cfg) (jwt_algorithm cfg), lifetime))"

definition decode_access_token :: "jwt \<Rightarrow> int \<Rightarrow> string \<Rightarrow> settings \<Rightarrow> claims result" where
  "decode_access_token J now token cfg =
     (case jw_decode J now token (jwt_secret_key cfg) (jwt_algorithm cfg) of
        Inl ExpiredSignature \<Rightarrow> raise_api AuthenticationError ''The access token has expired.'' []
      | Inl (InvalidToken reason) \<Rightarrow> raise_api AuthenticationError ''The access token is invalid.'' []
      | Inr c \<Rightarrow> Inr c)"

text \<open>\<open>UserTier(claims.get(\"tier\", \"free\"))\<close>, an unrecognised value being the free tier.\<close>

definition tier_of_claims :: "claims \<Rightarrow> user_tier" where
  "tier_of_claims c =
     (case dict_get c ''tier'' of
        None \<Rightarrow> FREE
      | Some (PStr s) \<Rightarrow> (case tier_of_value s of Some t \<Rightarrow> t | None \<Rightarrow> FREE)
      | Some _ \<Rightarrow> FREE)"

definition authenticate ::
  "jwt \<Rightarrow> int \<Rightarrow> string option \<Rightarrow> settings \<Rightarrow> principal result" where
  "authenticate J now credentials cfg =
     (case py_or_str credentials None of
        None \<Rightarrow> raise_api AuthenticationError ''An Authorization: Bearer <token> header is required.'' []
      | Some token \<Rightarrow>
          res_bind (decode_access_token J now token cfg) (\<lambda>c.
          case dict_get c ''sub'' of
            None \<Rightarrow> Inl (PyExc ''KeyError'' (py_repr ''sub''))
          | Some sub \<Rightarrow>
              Inr \<lparr>pn_user_id = (case sub of PStr s \<Rightarrow> s | v \<Rightarrow> jw_str J v), pn_tier = tier_of_claims c\<rparr>))"

definition require_tier :: "user_tier list \<Rightarrow> principal result \<Rightarrow> principal result" where
  "require_tier allowed authenticated =
     res_bind authenticated (\<lambda>p.
       if pn_tier p \<notin> set allowed
       then raise_api AuthorizationError
              (''This endpoint requires one of: '' @ join '', '' (map tier_value allowed) @ ''.'')
              [(''your_tier'', PStr (tier_value (pn_tier p)))]
       else Inr p)"

definition issue_token ::
  "(bytes \<Rightarrow> string) \<Rightarrow> jwt \<Rightarrow> api_key_store \<Rightarrow> settings \<Rightarrow> string \<Rightarrow> int \<Rightarrow> string \<Rightarrow> token_response result" where
  "issue_token sha256 J store cfg api_key now jti =
     (case store_resolve sha256 store api_key of
        None \<Rightarrow> raise_api AuthenticationError ''The API key is not recognised.'' []
      | Some r \<Rightarrow>
          (case create_access_token J \<lparr>pn_user_id = ak_user_id r, pn_tier = ak_tier r\<rparr> cfg None now jti of
             (token, lifetime) \<Rightarrow>
               Inr \<lparr>tr_access_token = token, tr_token_type = ''bearer'', tr_expires_in = lifetime,
                    tr_tier = tier_value (ak_tier r)\<rparr>))"

text \<open>\<open>_seed_api_keys\<close>\<close>

definition seed_api_keys :: "(bytes \<Rightarrow> string) \<Rightarrow> settings \<Rightarrow> api_key_store" where
  "seed_api_keys sha256 cfg =
     (if app_env cfg = PRODUCTION then store_init []
      else fold (\<lambda>t. store_add sha256 (''dev-key-'' @ tier_value t) (''dev-'' @ tier_value t) t)
             [FREE, PRO, ENTERPRISE] (store_init []))"

section \<open>The key store\<close>

text \<open>Any store the middleware may be given: a later key replaces an earlier one with the same
  digest, and nothing else is affected.\<close>

locale key_store =
  fixes ok :: "'s \<Rightarrow> bool"
    and digest :: "string \<Rightarrow> string"
    and empty_store :: 's
    and add :: "string \<Rightarrow> string \<Rightarrow> user_tier \<Rightarrow> 's \<Rightarrow> 's"
    and resolve :: "'s \<Rightarrow> string \<Rightarrow> (string \<times> user_tier) option"
  assumes ok_empty: "ok empty_store"
    and ok_add: "ok s \<Longrightarrow> ok (add k u t s)"
    and resolve_empty: "resolve empty_store k = None"
    and resolve_add: "ok s \<Longrightarrow>
      resolve (add k u t s) k' = (if digest k = digest k' then Some (u, t) else resolve s k')"
begin

definition add_all :: "(string \<times> string \<times> user_tier) list \<Rightarrow> 's" where
  "add_all ks = fold (\<lambda>(k, u, t). add k u t) ks empty_store"

lemma ok_add_all: "ok (add_all ks)"
  by (induction ks rule: rev_induct) (auto simp: add_all_def ok_empty ok_add split: prod.splits)

lemma resolve_add_all:
  "resolve (add_all ks) k =
     map_of (rev (map (\<lambda>(k, u, t). (digest k, (u, t))) ks)) (digest k)"
proof (induction ks rule: rev_induct)
  case Nil
  then show ?case by (simp add: add_all_def resolve_empty)
next
  case (snoc x ks)
  obtain k0 u t where x: "x = (k0, u, t)" by (cases x)
  have "add_all (ks @ [x]) = add k0 u t (add_all ks)" by (simp add: add_all_def x)
  then show ?case using snoc resolve_add [OF ok_add_all] by (simp add: x)
qed

lemma unknown_key: "(\<And>k u t. (k, u, t) \<in> set ks \<Longrightarrow> digest k \<noteq> digest q) \<Longrightarrow> resolve (add_all ks) q = None"
  by (force simp: resolve_add_all map_of_eq_None_iff)

end

lemma scan_records_map_of:
  "distinct (dict_keys d) \<Longrightarrow> scan_records c d m = (case dict_get d c of Some r \<Rightarrow> Some r | None \<Rightarrow> m)"
proof (induction d arbitrary: m)
  case Nil
  then show ?case by simp
next
  case (Cons p d)
  obtain h r where p: "p = (h, r)" by (cases p)
  show ?case
  proof (cases "h = c")
    case True
    with Cons.prems p have "dict_get d c = None" by (auto simp: map_of_eq_None_iff)
    with True Cons p show ?thesis by simp
  next
    case False
    with Cons p show ?thesis by simp
  qed
qed

definition holder :: "api_key_record option \<Rightarrow> (string \<times> user_tier) option" where
  "holder r = map_option (\<lambda>r. (ak_user_id r, ak_tier r)) r"

lemma store_resolve_get:
  "dict_wf s \<Longrightarrow> store_resolve sha s k = dict_get s (hash_api_key sha k)"
  by (simp add: store_resolve_def scan_records_map_of dict_wf_def split: option.split)

interpretation api_keys: key_store dict_wf "hash_api_key sha" "store_init []" "store_add sha"
  "\<lambda>s k. holder (store_resolve sha s k)" for sha
proof
  fix s :: api_key_store and k u t k'
  assume s: "dict_wf s"
  then show s': "dict_wf (store_add sha k u t s)" by (simp add: store_add_def Let_def dict_wf_set)
  show "holder (store_resolve sha (store_add sha k u t s) k') =
      (if hash_api_key sha k = hash_api_key sha k' then Some (u, t) else holder (store_resolve sha s k'))"
    unfolding store_resolve_get [OF s'] store_resolve_get [OF s]
    by (simp add: store_add_def Let_def dict_simps holder_def)
qed (simp_all add: store_init_def store_resolve_def holder_def)

section \<open>Issuing and accepting tokens\<close>

definition issued_claims :: "principal \<Rightarrow> int \<Rightarrow> int \<Rightarrow> string \<Rightarrow> claims" where
  "issued_claims p iat ex jti =
     [(''sub'', PStr (pn_user_id p)), (''tier'', PStr (tier_value (pn_tier p))),
      (''iat'', PInt iat), (''exp'', PInt ex), (''jti'', PStr jti)]"

text \<open>What is relied on of the JWT library under one secret and algorithm, where \<open>C\<close> are the
  tokens made with that secret (for whom, when, until when, identifier): each of them decodes
  from its issue until its expiry and then fails as expired; nothing else decodes.\<close>

definition jwt_ok :: "jwt \<Rightarrow> string \<Rightarrow> string \<Rightarrow> (principal \<times> int \<times> int \<times> string) set \<Rightarrow> bool" where
  "jwt_ok J key alg C \<longleftrightarrow>
     (\<forall>p iat ex jti now. (p, iat, ex, jti) \<in> C \<and> iat \<le> now \<longrightarrow>
        jw_decode J now (jw_encode J (issued_claims p iat ex jti) key alg) key alg =
          (if now < ex then Inr (issued_claims p iat ex jti) else Inl ExpiredSignature))
     \<and> (\<forall>now t c. jw_decode J now t key alg = Inr c \<longrightarrow>
          (\<exists>p iat ex jti. (p, iat, ex, jti) \<in> C \<and> c = issued_claims p iat ex jti \<and> now < ex
             \<and> t = jw_encode J c key alg))"

lemma tier_of_issued: "tier_of_claims (issued_claims p iat ex jti) = pn_tier p"
  by (simp add: tier_of_claims_def issued_claims_def)

lemma authenticate_decoded:
  assumes "jw_decode J now t (jwt_secret_key cfg) (jwt_algorithm cfg) = Inr (issued_claims p iat ex jti)" "t \<noteq> []"
  shows "authenticate J now (Some t) cfg = Inr \<lparr>pn_user_id = pn_user_id p, pn_tier = pn_tier p\<rparr>"
  using assms tier_of_issued [of p iat ex jti]
  by (simp add: authenticate_def decode_access_token_def py_or_str_def issued_claims_def)

lemma authenticate_Inl_401:
  assumes "\<And>c. jw_decode J now t (jwt_secret_key cfg) (jwt_algorithm cfg) \<noteq> Inr c"
  shows "\<exists>e. authenticate J now (Some t) cfg = Inl (ApiExc e) \<and> err_class e = AuthenticationError"
proof (cases "jw_decode J now t (jwt_secret_key cfg) (jwt_algorithm cfg)")
  case (Inl err)
  then show ?thesis
    by (cases err) (simp_all add: authenticate_def decode_access_token_def py_or_str_def)
next
  case (Inr c)
  with assms show ?thesis by blast
qed

lemma issue_token_Inr:
  assumes "store_resolve sha store api_key = Some r"
  shows "issue_token sha J store cfg api_key now jti = Inr
     \<lparr>tr_access_token = jw_encode J
        (issued_claims \<lparr>pn_user_id = ak_user_id r, pn_tier = ak_tier r\<rparr> now (now + jwt_access_token_ttl_seconds cfg) jti)
        (jwt_secret_key cfg) (jwt_algorithm cfg),
      tr_token_type = ''bearer'', tr_expires_in = jwt_access_token_ttl_seconds cfg,
      tr_tier = tier_value (ak_tier r)\<rparr>"
  using assms by (simp add: issue_token_def create_access_token_def issued_claims_def Let_def)

text \<open>
  C34. A key buys exactly its holder's identity, for exactly the token's lifetime. Exchanging a
  registered key yields a token, with the configured lifetime, which authenticates as the key's
  user and tier at every instant from its issue until it expires, and is refused with a 401 error
  from then on. An unregistered key is refused with one and the same 401 error whatever it is.
\<close>

theorem token_lifecycle:
  assumes "issue_token sha J store cfg api_key now jti = r"
    and "jwt_ok J (jwt_secret_key cfg) (jwt_algorithm cfg) C" "now \<le> later"
    and "\<And>k. store_resolve sha store api_key = Some k \<Longrightarrow>
      (\<lparr>pn_user_id = ak_user_id k, pn_tier = ak_tier k\<rparr>, now, now + jwt_access_token_ttl_seconds cfg, jti) \<in> C"
  shows "case store_resolve sha store api_key of
      None \<Rightarrow> r = raise_api AuthenticationError ''The API key is not recognised.'' []
    | Some k \<Rightarrow> \<exists>resp. r = Inr resp
        \<and> tr_expires_in resp = jwt_access_token_ttl_seconds cfg \<and> tr_tier resp = tier_value (ak_tier k)
        \<and> (if tr_access_token resp = [] \<or> now + tr_expires_in resp \<le> later
           then \<exists>e. authenticate J later (Some (tr_access_token resp)) cfg = Inl (ApiExc e)
                  \<and> err_class e = AuthenticationError
           else authenticate J later (Some (tr_access_token resp)) cfg
                  = Inr \<lparr>pn_user_id = ak_user_id k, pn_tier = ak_tier k\<rparr>)"
proof (cases "store_resolve sha store api_key")
  case None
  with assms(1) show ?thesis by (auto simp: issue_token_def)
next
  case (Some k)
  let ?p = "\<lparr>pn_user_id = ak_user_id k, pn_tier = ak_tier k\<rparr>"
  let ?ex = "now + jwt_access_token_ttl_seconds cfg"
  let ?t = "jw_encode J (issued_claims ?p now ?ex jti) (jwt_secret_key cfg) (jwt_algorithm cfg)"
  from assms(4) [OF Some] have dec:
    "jw_decode J later ?t (jwt_secret_key cfg) (jwt_algorithm cfg)
       = (if later < ?ex then Inr (issued_claims ?p now ?ex jti) else Inl ExpiredSignature)"
    using assms(2,3) unfolding jwt_ok_def by blast
  have r: "r = Inr \<lparr>tr_access_token = ?t, tr_token_type = ''bearer'',
      tr_expires_in = jwt_access_token_ttl_seconds cfg, tr_tier = tier_value (ak_tier k)\<rparr>"
    using assms(1) issue_token_Inr [OF Some] by simp
  show ?thesis
  proof (cases "?t = [] \<or> ?ex \<le> later")
    case True
    have "\<exists>e. authenticate J later (Some ?t) cfg = Inl (ApiExc e) \<and> err_class e = AuthenticationError"
    proof (cases "?t = []")
      case True
      then show ?thesis by (simp add: authenticate_def py_or_str_def)
    next
      case False
      with True dec show ?thesis by (intro authenticate_Inl_401) auto
    qed
    with Some r True show ?thesis by (simp add: not_less)
  next
    case False
    with dec have "authenticate J later (Some ?t) cfg = Inr \<lparr>pn_user_id = pn_user_id ?p, pn_tier = pn_tier ?p\<rparr>"
      by (intro authenticate_decoded [where iat = now and ex = ?ex and jti = jti]) auto
    with Some r False show ?thesis by simp
  qed
qed

text \<open>
  C35. Nothing but a token made with this service's secret authenticates: whoever is accepted
  presented the encoding of claims that were issued, has not reached their expiry, and gets the
  user and the tier those claims were issued for, no other. Without a credential, or with an
  empty one, the caller is refused with a 401 error. A tier guard lets through exactly the
  accepted callers of the tiers it lists, and refuses the others with a 403 error.
\<close>

theorem authenticate_sound:
  assumes "jwt_ok J (jwt_secret_key cfg) (jwt_algorithm cfg) C"
  shows "(case authenticate J now credentials cfg of
      Inr p \<Rightarrow> \<exists>q iat ex j. (q, iat, ex, j) \<in> C \<and> now < ex \<and> p = \<lparr>pn_user_id = pn_user_id q, pn_tier = pn_tier q\<rparr>
        \<and> credentials = Some (jw_encode J (issued_claims q iat ex j) (jwt_secret_key cfg) (jwt_algorithm cfg))
        \<and> (if pn_tier p \<in> set allowed then require_tier allowed (Inr p) = Inr p
           else \<exists>e. require_tier allowed (Inr p) = Inl (ApiExc e) \<and> err_status e = 403)
    | Inl e \<Rightarrow> \<exists>a. e = ApiExc a \<and> err_status a = 401)
    \<and> (\<exists>a. authenticate J now None cfg = Inl (ApiExc a) \<and> err_status a = 401)"
proof -
  have none: "\<exists>a. authenticate J now None cfg = Inl (ApiExc a) \<and> err_status a = 401"
    by (simp add: authenticate_def py_or_str_def class_status_def)
  show ?thesis
  proof (cases "py_or_str credentials None")
    case None
    then have "\<exists>a. authenticate J now credentials cfg = Inl (ApiExc a) \<and> err_status a = 401"
      by (simp add: authenticate_def class_status_def)
    with none show ?thesis by auto
  next
    case (Some t)
    then have t: "credentials = Some t" "t \<noteq> []"
      by (auto simp: py_or_str_def split: option.splits if_splits)
    show ?thesis
    proof (cases "jw_decode J now t (jwt_secret_key cfg) (jwt_algorithm cfg)")
      case (Inl e)
      then have "\<exists>a. authenticate J now credentials cfg = Inl (ApiExc a) \<and> err_status a = 401"
        using Some by (cases e) (simp_all add: authenticate_def decode_access_token_def class_status_def)
      with none show ?thesis by auto
    next
      case (Inr c)
      then obtain q iat ex j where c: "(q, iat, ex, j) \<in> C" "c = issued_claims q iat ex j" "now < ex"
        "t = jw_encode J c (jwt_secret_key cfg) (jwt_algorithm cfg)"
        using assms unfolding jwt_ok_def by metis
      from authenticate_decoded [OF Inr [unfolded c(2)] t(2)] c t none show ?thesis
        by (auto simp: require_tier_def class_status_def)
    qed
  qed
qed

definition demo_principal :: principal where
  "demo_principal = \<lparr>pn_user_id = ''ada'', pn_tier = PRO\<rparr>"

text \<open>A JWT library with a single token, for the witnesses.\<close>

definition demo_jwt :: jwt where
  "demo_jwt =
     \<lparr>jw_encode = (\<lambda>c key alg. if c = issued_claims demo_principal 100 3700 ''j'' then ''token'' else ''other''),
      jw_decode = (\<lambda>now t key alg.
        if t = ''token'' then if now < 3700 then Inr (issued_claims demo_principal 100 3700 ''j'')
                              else Inl ExpiredSignature
        else Inl (InvalidToken ''Not enough segments'')),
      jw_str = (\<lambda>v. [])\<rparr>"

lemma demo_jwt_ok: "jwt_ok demo_jwt key alg {(demo_principal, 100, 3700, ''j'')}"
  by (auto simp: jwt_ok_def demo_jwt_def split: if_splits)

definition demo_keys :: api_key_store where
  "demo_keys = store_add length_digest ''secret-key'' ''ada'' PRO (store_init [])"

lemma demo_keys_resolve:
  "store_resolve length_digest demo_keys ''secret-key''
     = Some \<lparr>ak_user_id = ''ada'', ak_tier = PRO, ak_key_hash = hash_api_key length_digest ''secret-key''\<rparr>"
  by (simp add: demo_keys_def store_resolve_def store_add_def store_init_def Let_def)

theorem token_lifecycle_witness:
  "\<exists>resp. issue_token length_digest demo_jwt demo_keys default_settings ''secret-key'' 100 ''j'' = Inr resp
     \<and> authenticate demo_jwt 3699 (Some (tr_access_token resp)) default_settings = Inr demo_principal"
proof -
  have ttl: "jwt_access_token_ttl_seconds default_settings = 3600" by (simp add: default_settings_def)
  from token_lifecycle [OF refl demo_jwt_ok, of 100 3699 length_digest demo_keys "''secret-key''" default_settings "''j''"]
  have "\<exists>resp. issue_token length_digest demo_jwt demo_keys default_settings ''secret-key'' 100 ''j'' = Inr resp
      \<and> tr_expires_in resp = 3600
      \<and> (if tr_access_token resp = [] \<or> 100 + tr_expires_in resp \<le> 3699
           then \<exists>e. authenticate demo_jwt 3699 (Some (tr_access_token resp)) default_settings = Inl (ApiExc e)
                  \<and> err_class e = AuthenticationError
           else authenticate demo_jwt 3699 (Some (tr_access_token resp)) default_settings
                  = Inr demo_principal)"
    by (auto simp: demo_keys_resolve demo_principal_def ttl)
  moreover have "tr_access_token resp \<noteq> []"
    if "issue_token length_digest demo_jwt demo_keys default_settings ''secret-key'' 100 ''j'' = Inr resp" for resp
    using that issue_token_Inr [OF demo_keys_resolve, of demo_jwt default_settings 100 "''j''"]
    by (auto simp: demo_jwt_def)
  ultimately show ?thesis by (smt (verit, best))
qed

theorem authenticate_sound_witness:
  "\<exists>a. authenticate demo_jwt 3700 (Some ''token'') default_settings = Inl (ApiExc a) \<and> err_status a = 401"
proof -
  note s = authenticate_sound [OF demo_jwt_ok, of 3700 "Some ''token''" default_settings "[]"]
  show ?thesis
  proof (cases "authenticate demo_jwt 3700 (Some ''token'') default_settings")
    case (Inl e)
    with s show ?thesis by auto
  next
    case (Inr p)
    with s show ?thesis by auto
  qed
qed

section \<open>Development keys\<close>

lemma seed_api_keys_add_all:
  "app_env cfg \<noteq> PRODUCTION \<Longrightarrow> seed_api_keys sha cfg =
     api_keys.add_all sha (map (\<lambda>t. (''dev-key-'' @ tier_value t, ''dev-'' @ tier_value t, t)) [FREE, PRO, ENTERPRISE])"
  by (simp add: seed_api_keys_def api_keys.add_all_def)

text \<open>
  No known key works in production. There the store starts empty, so every API key is
  refused; in any other environment exactly the keys with the digest of one of the three
  development keys are accepted, each as the development user of its own tier.
\<close>

theorem seeded_keys:
  "holder (store_resolve sha (seed_api_keys sha cfg) k) =
     (if app_env cfg = PRODUCTION then None
      else map_of [(hash_api_key sha ''dev-key-enterprise'', (''dev-enterprise'', ENTERPRISE)),
                   (hash_api_key sha ''dev-key-pro'', (''dev-pro'', PRO)),
                   (hash_api_key sha ''dev-key-free'', (''dev-free'', FREE))] (hash_api_key sha k))"
proof (cases "app_env cfg = PRODUCTION")
  case True
  then show ?thesis using api_keys.resolve_empty [of sha k] by (simp add: seed_api_keys_def)
next
  case False
  then show ?thesis
    unfolding seed_api_keys_add_all [OF False] using api_keys.resolve_add_all [of sha _ k] by simp
qed

end
