(* ===== verification/Audit_Service.thy ===== *)
theory Audit_Service
  imports Responses
begin

text \<open>
  The audit writer (\<open>api/services/audit_service.py\<close>) as a state machine. The state is the bounded
  queue, the writer task (with the record its pending \<open>Queue.get\<close> already holds, or the batch it
  is committing under the write lock), the stop event, the batches drains are committing, and
  the counters. One step is a stretch of code without a suspension point, so every interleaving
  of the event loop is a sequence of steps. The database only decides whether a commit succeeds.
  The last five fields are history: no operation reads them.
\<close>

datatype 'r writer =
    NoTask
  | Collecting "'r option"
  | Writing "'r list"
  | Exited

record audit_stats =
  st_queued :: nat
  st_written :: nat
  st_dropped :: nat
  st_failed :: nat

record 'r audit =
  au_enabled :: bool
  au_queue :: "'r list"
  au_capacity :: nat
  au_batch_size :: nat
  au_writer :: "'r writer"
  au_stopping :: bool
  au_drains :: "'r list list"
  au_stats :: audit_stats
  gh_offered :: "'r list"
  gh_committed :: "'r list"
  gh_rejected :: "'r list"
  gh_discarded :: "'r list"
  gh_abandoned :: "'r list"

definition default_queue_size :: nat where "default_queue_size = 10000"
definition default_batch_size :: nat where "default_batch_size = 50"

definition audit_init :: "bool \<Rightarrow> nat \<Rightarrow> nat \<Rightarrow> 'r audit" where
  "audit_init enabled queue_size batch_size =
     \<lparr>au_enabled = enabled, au_queue = [], au_capacity = queue_size, au_batch_size = batch_size,
      au_writer = NoTask, au_stopping = False, au_drains = [],
      au_stats = \<lparr>st_queued = 0, st_written = 0, st_dropped = 0, st_failed = 0\<rparr>,
      gh_offered = [], gh_committed = [], gh_rejected = [], gh_discarded = [], gh_abandoned = []\<rparr>"

definition stats_dict :: "audit_stats \<Rightarrow> (string, pyval) dict" where
  "stats_dict s =
     [(''queued'', PInt (int (st_queued s))), (''written'', PInt (int (st_written s))),
      (''dropped'', PInt (int (st_dropped s))), (''failed'', PInt (int (st_failed s)))]"

section \<open>Operations\<close>

text \<open>\<open>asyncio.Queue\<close>: a size of zero is unbounded.\<close>

definition queue_full :: "'r audit \<Rightarrow> bool" where
  "queue_full a \<longleftrightarrow> au_capacity a \<noteq> 0 \<and> au_capacity a \<le> length (au_queue a)"

text \<open>\<open>put_nowait\<close> and the counter, where the queue has room.\<close>

definition push :: "'r \<Rightarrow> 'r audit \<Rightarrow> 'r audit" where
  "push r a = a\<lparr>au_queue := au_queue a @ [r],
      au_stats := (au_stats a)\<lparr>st_queued := st_queued (au_stats a) + 1\<rparr>,
      gh_offered := gh_offered a @ [r]\<rparr>"

definition drop_oldest :: "'r audit \<Rightarrow> 'r audit" where
  "drop_oldest a =
     (case au_queue a of
        [] \<Rightarrow> a
      | x # q \<Rightarrow> a\<lparr>au_queue := q,
          au_stats := (au_stats a)\<lparr>st_dropped := st_dropped (au_stats a) + 1\<rparr>,
          gh_discarded := gh_discarded a @ [x]\<rparr>)"

definition record_entry :: "'r \<Rightarrow> 'r audit \<Rightarrow> 'r audit" where
  "record_entry r a =
     (if \<not> au_enabled a then a
      else if \<not> queue_full a then push r a
      else (let a' = drop_oldest a in if queue_full a' then a' else push r a'))"

definition start_writer :: "'r audit \<Rightarrow> 'r audit" where
  "start_writer a =
     (if \<not> au_enabled a \<or> au_writer a \<noteq> NoTask then a else a\<lparr>au_writer := Collecting None\<rparr>)"

text \<open>\<open>_write\<close>: the counters after a commit that succeeded or failed.\<close>

definition commit :: "bool \<Rightarrow> 'r list \<Rightarrow> 'r audit \<Rightarrow> 'r audit" where
  "commit ok batch a =
     (if \<not> au_enabled a then a
      else if ok
      then a\<lparr>au_stats := (au_stats a)\<lparr>st_written := st_written (au_stats a) + length batch\<rparr>,
             gh_committed := gh_committed a @ batch\<rparr>
      else a\<lparr>au_stats := (au_stats a)\<lparr>st_failed := st_failed (au_stats a) + length batch\<rparr>,
             gh_rejected := gh_rejected a @ batch\<rparr>)"

text \<open>The pending \<open>Queue.get\<close> of \<open>_collect\<close> takes the oldest record out of the queue.\<close>

definition getter_takes :: "'r audit \<Rightarrow> 'r audit option" where
  "getter_takes a =
     (case (au_writer a, au_queue a) of
        (Collecting None, x # q) \<Rightarrow> Some (a\<lparr>au_writer := Collecting (Some x), au_queue := q\<rparr>)
      | _ \<Rightarrow> None)"

text \<open>The rest of \<open>_collect\<close> after the wait (a record, the interval or the stop event), and the branch
  of \<open>_run\<close> on an empty batch.\<close>

definition opt_list :: "'a option \<Rightarrow> 'a list" where
  "opt_list x = (case x of None \<Rightarrow> [] | Some y \<Rightarrow> [y])"

definition finish_collect :: "'r audit \<Rightarrow> 'r audit option" where
  "finish_collect a =
     (case au_writer a of
        Collecting g \<Rightarrow>
          let k = au_batch_size a - length (opt_list g);
              batch = opt_list g @ take k (au_queue a);
              a' = a\<lparr>au_queue := drop k (au_queue a)\<rparr>
          in Some (a'\<lparr>au_writer := (if batch \<noteq> [] then Writing batch
                                    else if au_stopping a then Exited else Collecting None)\<rparr>)
      | _ \<Rightarrow> None)"

definition finish_write :: "bool \<Rightarrow> 'r audit \<Rightarrow> 'r audit option" where
  "finish_write ok a =
     (case au_writer a of
        Writing batch \<Rightarrow>
          Some ((commit ok batch a)\<lparr>au_writer := (if au_stopping a then Exited else Collecting None)\<rparr>)
      | _ \<Rightarrow> None)"

text \<open>\<open>stop\<close>: ask the writer to stop; after the timeout cancel it, losing the batch being
  committed; once the task has ended, forget it and clear the event. The drain follows.\<close>

definition request_stop :: "'r audit \<Rightarrow> 'r audit" where
  "request_stop a = (if au_writer a \<noteq> NoTask then a\<lparr>au_stopping := True\<rparr> else a)"

definition cancel_writer :: "'r audit \<Rightarrow> 'r audit option" where
  "cancel_writer a =
     (case au_writer a of
        Writing batch \<Rightarrow>
          if au_stopping a
          then Some (a\<lparr>au_writer := Exited, gh_abandoned := gh_abandoned a @ batch\<rparr>) else None
      | _ \<Rightarrow> None)"

definition stop_joined :: "'r audit \<Rightarrow> 'r audit option" where
  "stop_joined a = (if au_writer a = Exited then Some (a\<lparr>au_writer := NoTask, au_stopping := False\<rparr>) else None)"

text \<open>\<open>_drain\<close>: one batch leaves the queue, then it is committed.\<close>

definition drain_begin :: "'r audit \<Rightarrow> 'r audit option" where
  "drain_begin a =
     (if au_queue a = [] then None
      else (let k = max 1 (au_batch_size a) in
            Some (a\<lparr>au_queue := drop k (au_queue a), au_drains := au_drains a @ [take k (au_queue a)]\<rparr>)))"

definition remove_nth :: "nat \<Rightarrow> 'a list \<Rightarrow> 'a list" where
  "remove_nth i xs = take i xs @ drop (Suc i) xs"

definition drain_end :: "nat \<Rightarrow> bool \<Rightarrow> 'r audit \<Rightarrow> 'r audit option" where
  "drain_end i ok a =
     (if i < length (au_drains a)
      then Some ((commit ok (au_drains a ! i) a)\<lparr>au_drains := remove_nth i (au_drains a)\<rparr>)
      else None)"

inductive audit_step :: "'r audit \<Rightarrow> 'r audit \<Rightarrow> bool" where
  step_record: "audit_step a (record_entry r a)"
| step_start: "audit_step a (start_writer a)"
| step_getter: "getter_takes a = Some b \<Longrightarrow> audit_step a b"
| step_collect: "finish_collect a = Some b \<Longrightarrow> audit_step a b"
| step_write: "finish_write ok a = Some b \<Longrightarrow> audit_step a b"
| step_stop: "audit_step a (request_stop a)"
| step_cancel: "cancel_writer a = Some b \<Longrightarrow> audit_step a b"
| step_joined: "stop_joined a = Some b \<Longrightarrow> audit_step a b"
| step_drain: "drain_begin a = Some b \<Longrightarrow> audit_step a b"
| step_drained: "drain_end i ok a = Some b \<Longrightarrow> audit_step a b"

inductive_cases audit_stepE: "audit_step a b"

text \<open>A whole drain that nothing interrupts, \<open>ok n\<close> telling whether its \<open>n\<close>-th commit succeeds;
  and \<open>flush\<close>, which blocks (\<open>None\<close>) while the writer holds the lock.\<close>

function chunks :: "nat \<Rightarrow> 'a list \<Rightarrow> 'a list list" where
  "chunks k xs = (if xs = [] then [] else take (max 1 k) xs # chunks k (drop (max 1 k) xs))"
  by pat_completeness auto
termination
  by (relation "measure (length \<circ> snd)") auto

declare chunks.simps [simp del]

fun commit_all :: "(nat \<Rightarrow> bool) \<Rightarrow> nat \<Rightarrow> 'r list list \<Rightarrow> 'r audit \<Rightarrow> 'r audit" where
  "commit_all ok n [] a = a"
| "commit_all ok n (b # bs) a = commit_all ok (Suc n) bs (commit (ok n) b a)"

definition drain :: "(nat \<Rightarrow> bool) \<Rightarrow> 'r audit \<Rightarrow> 'r audit" where
  "drain ok a = commit_all ok 0 (chunks (au_batch_size a) (au_queue a)) (a\<lparr>au_queue := []\<rparr>)"

definition flush :: "(nat \<Rightarrow> bool) \<Rightarrow> 'r audit \<Rightarrow> 'r audit option" where
  "flush ok a = (case au_writer a of Writing _ \<Rightarrow> None | _ \<Rightarrow> Some (drain ok a))"

section \<open>The queue keeps the newest records\<close>

locale bounded_queue =
  fixes ok :: "'q \<Rightarrow> bool"
    and put :: "'a \<Rightarrow> 'q \<Rightarrow> 'q"
    and items :: "'q \<Rightarrow> 'a list"
    and cap :: "'q \<Rightarrow> nat"
  assumes ok_put: "ok q \<Longrightarrow> ok (put x q)"
    and cap_put: "cap (put x q) = cap q"
    and items_put: "ok q \<Longrightarrow> items (put x q) =
      (if cap q \<noteq> 0 \<and> cap q \<le> length (items q) then drop 1 (items q) @ [x] else items q @ [x])"
begin

lemma items_put_all:
  "ok q \<Longrightarrow> 0 < cap q \<Longrightarrow> length (items q) \<le> cap q \<Longrightarrow>
     items (fold put xs q) = drop (length (items q) + length xs - cap q) (items q @ xs)
     \<and> ok (fold put xs q) \<and> cap (fold put xs q) = cap q"
proof (induction xs rule: rev_induct)
  case Nil
  then show ?case by simp
next
  case (snoc x xs)
  let ?n = "length (items q) + length xs"
  from snoc have i: "items (fold put xs q) = drop (?n - cap q) (items q @ xs)"
    and o: "ok (fold put xs q)" and c: "cap (fold put xs q) = cap q" by auto
  have "items (put x (fold put xs q)) = drop (Suc ?n - cap q) (items q @ xs @ [x])"
  proof (cases "?n < cap q")
    case True
    with i c items_put [OF o, of x] show ?thesis by simp
  next
    case False
    define zs where "zs = items q @ xs"
    have zs: "length zs = ?n" by (simp add: zs_def)
    have iz: "items (fold put xs q) = drop (?n - cap q) zs" using i by (simp add: zs_def)
    then have "length (items (fold put xs q)) = cap q" using False zs by simp
    then have "items (put x (fold put xs q)) = drop (Suc ?n - cap q) zs @ [x]"
      using False iz c items_put [OF o, of x] snoc(3) by (simp add: Suc_diff_le)
    also have "\<dots> = drop (Suc ?n - cap q) (zs @ [x])" using snoc(3) zs by simp
    finally show ?thesis by (simp add: zs_def)
  qed
  with o c show ?case by (simp add: ok_put cap_put)
qed

lemma stays_bounded:
  "ok q \<Longrightarrow> 0 < cap q \<Longrightarrow> length (items q) \<le> cap q \<Longrightarrow> length (items (fold put xs q)) \<le> cap q"
  using items_put_all [of q xs] by auto

end

definition queue_ok :: "'r audit \<Rightarrow> bool" where
  "queue_ok a \<longleftrightarrow> au_enabled a \<and> (au_capacity a \<noteq> 0 \<longrightarrow> length (au_queue a) \<le> au_capacity a)"

lemma record_entry_enabled: "au_enabled (record_entry r a) = au_enabled a"
  by (simp add: record_entry_def push_def drop_oldest_def Let_def split: list.split)

lemma record_entry_capacity: "au_capacity (record_entry r a) = au_capacity a"
  by (simp add: record_entry_def push_def drop_oldest_def Let_def split: list.split)

lemma record_entry_queue:
  "queue_ok a \<Longrightarrow> au_queue (record_entry r a) =
     (if au_capacity a \<noteq> 0 \<and> au_capacity a \<le> length (au_queue a)
      then drop 1 (au_queue a) @ [r] else au_queue a @ [r])"
  by (cases "au_queue a")
    (auto simp: record_entry_def queue_full_def push_def drop_oldest_def queue_ok_def Let_def)

lemma record_entry_stats:
  "queue_ok a \<Longrightarrow>
     st_dropped (au_stats (record_entry r a)) = st_dropped (au_stats a)
       + (if au_capacity a \<noteq> 0 \<and> au_capacity a \<le> length (au_queue a) then 1 else 0)
     \<and> st_queued (au_stats (record_entry r a)) = st_queued (au_stats a) + 1"
  by (cases "au_queue a")
    (auto simp: record_entry_def queue_full_def push_def drop_oldest_def queue_ok_def Let_def)

interpretation audit_queue: bounded_queue queue_ok record_entry au_queue au_capacity
proof
  fix q :: "'r audit" and x
  assume "queue_ok q"
  then show "queue_ok (record_entry x q)"
    using record_entry_queue [of q x]
    by (auto simp: queue_ok_def record_entry_enabled record_entry_capacity)
qed (simp_all add: record_entry_capacity record_entry_queue)

text \<open>
  Backpressure keeps the newest records. However many records are queued while nothing is
  written, an enabled bounded queue holds exactly the most recent ones in order, never more than
  its capacity; the records dropped are counted, and with the queue they are all that was
  offered.
\<close>

theorem record_keeps_newest:
  assumes "0 < cap"
  shows "let a = fold record_entry rs (audit_init True cap bs) in
     au_queue a = drop (length rs - cap) rs \<and> length (au_queue a) \<le> cap
     \<and> st_dropped (au_stats a) = length rs - cap \<and> st_queued (au_stats a) = length rs"
proof -
  let ?i = "audit_init True cap bs"
  have ok: "queue_ok ?i" by (simp add: queue_ok_def audit_init_def)
  note i = audit_queue.items_put_all [OF ok]
  have c: "au_capacity ?i = cap" "au_queue ?i = []" by (simp_all add: audit_init_def)
  have q: "au_queue (fold record_entry rs ?i) = drop (length rs - cap) rs" for rs
    using i [of rs] assms by (simp add: c)
  have "st_dropped (au_stats (fold record_entry rs ?i)) = length rs - cap
      \<and> st_queued (au_stats (fold record_entry rs ?i)) = length rs"
  proof (induction rs rule: rev_induct)
    case Nil
    then show ?case by (simp add: audit_init_def)
  next
    case (snoc x rs)
    let ?a = "fold record_entry rs ?i"
    have a: "queue_ok ?a" "au_capacity ?a = cap" using i [of rs] assms by (simp_all add: c)
    have l: "length (au_queue ?a) = min cap (length rs)" using q [of rs] by simp
    show ?case using snoc record_entry_stats [OF a(1), of x] assms by (auto simp: a(2) l min_def)
  qed
  then show ?thesis using q [of rs] by (simp add: Let_def)
qed

theorem record_keeps_newest_witness:
  "au_queue (fold record_entry [1, 2, 3::nat] (audit_init True 2 50)) = [2, 3]"
  using record_keeps_newest [of 2 "[1, 2, 3::nat]" 50] by (simp add: Let_def)

section \<open>No record is lost silently or written twice\<close>

fun held :: "'r writer \<Rightarrow> 'r list" where
  "held NoTask = []"
| "held (Collecting g) = opt_list g"
| "held (Writing b) = b"
| "held Exited = []"

text \<open>Records taken out of the queue that are not settled yet.\<close>

definition in_flight :: "'r audit \<Rightarrow> 'r list" where
  "in_flight a = held (au_writer a) @ concat (au_drains a)"

text \<open>Every record offered is in exactly one place.\<close>

definition accounted :: "'r audit \<Rightarrow> bool" where
  "accounted a \<longleftrightarrow>
     mset (gh_offered a) = mset (gh_committed a) + mset (gh_rejected a) + mset (gh_discarded a)
        + mset (gh_abandoned a) + mset (au_queue a) + mset (in_flight a)"

definition counted :: "'r audit \<Rightarrow> bool" where
  "counted a \<longleftrightarrow>
     st_queued (au_stats a) = length (gh_offered a)
     \<and> st_written (au_stats a) = length (gh_committed a)
     \<and> st_failed (au_stats a) = length (gh_rejected a)
     \<and> st_dropped (au_stats a) = length (gh_discarded a)"

definition batches :: "'r audit \<Rightarrow> 'r list list" where
  "batches a = (case au_writer a of Writing b \<Rightarrow> [b] | _ \<Rightarrow> []) @ au_drains a"

definition bounded :: "'r audit \<Rightarrow> bool" where
  "bounded a \<longleftrightarrow>
     (au_capacity a \<noteq> 0 \<longrightarrow> length (au_queue a) \<le> au_capacity a)
     \<and> (\<forall>b \<in> set (batches a). b \<noteq> [] \<and> length b \<le> max 1 (au_batch_size a))"

text \<open>A disabled service never holds anything.\<close>

definition idle_if_disabled :: "'r audit \<Rightarrow> bool" where
  "idle_if_disabled a \<longleftrightarrow>
     au_enabled a \<or> (au_queue a = [] \<and> au_writer a = NoTask \<and> au_drains a = [])"

definition audit_inv :: "'r audit \<Rightarrow> bool" where
  "audit_inv a \<longleftrightarrow> accounted a \<and> counted a \<and> bounded a \<and> idle_if_disabled a"

lemmas audit_inv_simps =
  audit_inv_def accounted_def counted_def bounded_def batches_def idle_if_disabled_def in_flight_def
  opt_list_def

lemma audit_inv_init: "audit_inv (audit_init e cap bs)"
  by (simp add: audit_inv_simps audit_init_def)

lemma audit_inv_push:
  assumes "audit_inv a" "au_enabled a" "\<not> queue_full a"
  shows "audit_inv (push r a)"
proof -
  have "accounted (push r a)" using assms by (simp add: audit_inv_def accounted_def in_flight_def push_def)
  moreover have "counted (push r a)" using assms by (simp add: audit_inv_def counted_def push_def)
  moreover have "bounded (push r a)"
    using assms by (auto simp: audit_inv_def bounded_def batches_def push_def queue_full_def)
  ultimately show ?thesis using assms(2) by (simp add: audit_inv_def idle_if_disabled_def push_def)
qed

lemma audit_inv_drop_oldest:
  assumes "audit_inv a"
  shows "audit_inv (drop_oldest a)"
proof (cases "au_queue a")
  case Nil
  with assms show ?thesis by (simp add: drop_oldest_def)
next
  case (Cons x q)
  let ?b = "drop_oldest a"
  have "accounted ?b"
    using assms Cons by (simp add: audit_inv_def accounted_def in_flight_def drop_oldest_def)
  moreover have "counted ?b" using assms Cons by (simp add: audit_inv_def counted_def drop_oldest_def)
  moreover have "bounded ?b" using assms Cons
    by (auto simp: audit_inv_def bounded_def batches_def drop_oldest_def)
  ultimately show ?thesis using assms Cons
    by (simp add: audit_inv_def idle_if_disabled_def drop_oldest_def)
qed

lemma audit_inv_record:
  assumes "audit_inv a"
  shows "audit_inv (record_entry r a)"
proof -
  have "au_enabled (drop_oldest a) = au_enabled a" by (simp add: drop_oldest_def split: list.split)
  then show ?thesis
    using assms audit_inv_drop_oldest [OF assms] audit_inv_push [OF assms]
      audit_inv_push [OF audit_inv_drop_oldest [OF assms]]
    by (simp add: record_entry_def Let_def)
qed

text \<open>Steps that only move records between the queue and the batches in flight.\<close>

lemma audit_inv_move:
  assumes "audit_inv a" "au_enabled a"
    and "mset (au_queue b) + mset (in_flight b) = mset (au_queue a) + mset (in_flight a)"
    and "b = a\<lparr>au_queue := q, au_writer := w, au_drains := ds, au_stopping := st\<rparr>"
    and "length q \<le> length (au_queue a)"
    and "\<forall>x \<in> set (batches b). x \<noteq> [] \<and> length x \<le> max 1 (au_batch_size a)"
  shows "audit_inv b"
proof -
  have "accounted b" using assms(1,3) by (simp add: audit_inv_def accounted_def assms(4))
  moreover have "counted b" using assms(1) by (simp add: audit_inv_def counted_def assms(4))
  moreover have "bounded b" using assms(1,5,6) by (auto simp: audit_inv_def bounded_def assms(4))
  ultimately show ?thesis using assms(2) by (simp add: audit_inv_def idle_if_disabled_def assms(4))
qed

lemma audit_inv_batches:
  "audit_inv a \<Longrightarrow> x \<in> set (batches a) \<Longrightarrow> x \<noteq> [] \<and> length x \<le> max 1 (au_batch_size a)"
  unfolding audit_inv_def bounded_def by blast

lemma audit_inv_enabled: "audit_inv a \<Longrightarrow> au_writer a \<noteq> NoTask \<or> au_queue a \<noteq> [] \<or> au_drains a \<noteq> [] \<Longrightarrow> au_enabled a"
  unfolding audit_inv_def idle_if_disabled_def by blast

lemma audit_inv_start:
  assumes "audit_inv a" shows "audit_inv (start_writer a)"
proof (cases "au_enabled a \<and> au_writer a = NoTask")
  case True
  then show ?thesis
    using audit_inv_batches [OF assms]
    by (intro audit_inv_move [OF assms, where q = "au_queue a" and w = "Collecting None"
          and ds = "au_drains a" and st = "au_stopping a"])
      (simp_all add: start_writer_def in_flight_def opt_list_def batches_def)
next
  case False
  then show ?thesis using assms by (simp add: start_writer_def)
qed

lemma audit_inv_getter:
  assumes "audit_inv a" "getter_takes a = Some b" shows "audit_inv b"
proof -
  from assms(2) obtain x q where
    w: "au_writer a = Collecting None" and q: "au_queue a = x # q"
    and b: "b = a\<lparr>au_writer := Collecting (Some x), au_queue := q\<rparr>"
    by (auto simp: getter_takes_def split: writer.splits list.splits option.splits)
  show ?thesis
    using audit_inv_batches [OF assms(1)] audit_inv_enabled [OF assms(1)] w q
    by (intro audit_inv_move [OF assms(1), where q = q and w = "Collecting (Some x)"
          and ds = "au_drains a" and st = "au_stopping a"])
      (simp_all add: b in_flight_def opt_list_def batches_def)
qed

lemma mset_take_drop: "mset (take k xs) + mset (drop k xs) = mset xs"
  by (metis append_take_drop_id mset_append)

lemma audit_inv_collect:
  assumes "audit_inv a" "finish_collect a = Some b"
  shows "audit_inv b"
proof -
  obtain g where w: "au_writer a = Collecting g"
    using assms(2) by (auto simp: finish_collect_def split: writer.splits)
  define k where "k = au_batch_size a - length (opt_list g)"
  define batch where "batch = opt_list g @ take k (au_queue a)"
  define w' where "w' = (if batch \<noteq> [] then Writing batch else if au_stopping a then Exited else Collecting None)"
  have b: "b = a\<lparr>au_queue := drop k (au_queue a), au_writer := w'\<rparr>"
  proof -
    have "finish_collect a = Some (a\<lparr>au_queue := drop k (au_queue a), au_writer := w'\<rparr>)"
      by (simp add: finish_collect_def w Let_def k_def batch_def w'_def)
    with assms(2) show ?thesis by simp
  qed
  have len: "length batch \<le> max 1 (au_batch_size a)"
    by (cases g) (auto simp: batch_def k_def opt_list_def)
  have held: "held w' = batch" by (simp add: w'_def opt_list_def)
  have bt: "set (batches b) \<subseteq> insert batch (set (au_drains a))" "batch = [] \<Longrightarrow> batches b = au_drains a"
    by (auto simp: batches_def b w'_def)
  show ?thesis
  proof (rule audit_inv_move [OF assms(1), where q = "drop k (au_queue a)" and w = w'
        and ds = "au_drains a" and st = "au_stopping a"])
    show "au_enabled a" using audit_inv_enabled [OF assms(1)] w by simp
    show "mset (au_queue b) + mset (in_flight b) = mset (au_queue a) + mset (in_flight a)"
      using mset_take_drop [of k "au_queue a"] by (simp add: in_flight_def b held w batch_def ac_simps)
    show "\<forall>x\<in>set (batches b). x \<noteq> [] \<and> length x \<le> max 1 (au_batch_size a)"
      using bt len audit_inv_batches [OF assms(1)] by (cases "batch = []") (auto simp: batches_def w)
  qed (simp_all add: b)
qed

lemma commit_simps [simp]:
  "au_queue (commit ok b a) = au_queue a" "au_capacity (commit ok b a) = au_capacity a"
  "au_batch_size (commit ok b a) = au_batch_size a" "au_writer (commit ok b a) = au_writer a"
  "au_drains (commit ok b a) = au_drains a" "au_stopping (commit ok b a) = au_stopping a"
  "au_enabled (commit ok b a) = au_enabled a" "gh_offered (commit ok b a) = gh_offered a"
  "gh_discarded (commit ok b a) = gh_discarded a" "gh_abandoned (commit ok b a) = gh_abandoned a"
  "st_queued (au_stats (commit ok b a)) = st_queued (au_stats a)"
  "st_dropped (au_stats (commit ok b a)) = st_dropped (au_stats a)"
  by (simp_all add: commit_def)

lemma commit_settles:
  "au_enabled a \<Longrightarrow>
     gh_committed (commit ok b a) = gh_committed a @ (if ok then b else [])
     \<and> gh_rejected (commit ok b a) = gh_rejected a @ (if ok then [] else b)
     \<and> st_written (au_stats (commit ok b a)) = st_written (au_stats a) + (if ok then length b else 0)
     \<and> st_failed (au_stats (commit ok b a)) = st_failed (au_stats a) + (if ok then 0 else length b)"
  by (simp add: commit_def)

lemma audit_inv_settle:
  assumes "audit_inv a" "au_enabled a"
    and "mset (in_flight a) = mset batch + mset (in_flight b)"
    and "b = (commit ok batch a)\<lparr>au_writer := w, au_drains := ds\<rparr>"
    and "set (batches b) \<subseteq> set (batches a)"
  shows "audit_inv b"
proof -
  note c = commit_settles [OF assms(2), of ok batch]
  have "accounted b" using assms(1,3) c by (simp add: audit_inv_def accounted_def assms(4))
  moreover have "counted b" using assms(1) c by (simp add: audit_inv_def counted_def assms(4))
  moreover have "bounded b" using assms(1,5) by (auto simp: audit_inv_def bounded_def assms(4))
  ultimately show ?thesis using assms(2) by (simp add: audit_inv_def idle_if_disabled_def assms(4))
qed

lemma audit_inv_write:
  assumes "audit_inv a" "finish_write ok a = Some b" shows "audit_inv b"
proof -
  from assms(2) obtain batch where w: "au_writer a = Writing batch"
    and b: "b = (commit ok batch a)\<lparr>au_writer := (if au_stopping a then Exited else Collecting None)\<rparr>"
    by (auto simp: finish_write_def split: writer.splits)
  show ?thesis
    using audit_inv_enabled [OF assms(1)] w
    by (intro audit_inv_settle [OF assms(1), where batch = batch and ok = ok
          and w = "if au_stopping a then Exited else Collecting None" and ds = "au_drains a"])
      (auto simp: b in_flight_def batches_def opt_list_def)
qed

lemma mset_remove_nth: "i < length xss \<Longrightarrow> mset (concat xss) = mset (xss ! i) + mset (concat (remove_nth i xss))"
  by (subst id_take_nth_drop [of i xss]) (simp_all add: remove_nth_def ac_simps del: append_take_drop_id)

lemma audit_inv_drained:
  assumes "audit_inv a" "drain_end i ok a = Some b" shows "audit_inv b"
proof -
  from assms(2) have i: "i < length (au_drains a)"
    and b: "b = (commit ok (au_drains a ! i) a)\<lparr>au_drains := remove_nth i (au_drains a)\<rparr>"
    by (auto simp: drain_end_def split: if_splits)
  have "set (remove_nth i (au_drains a)) \<subseteq> set (au_drains a)"
    by (auto simp: remove_nth_def dest: in_set_takeD in_set_dropD)
  moreover have "au_enabled a" using audit_inv_enabled [OF assms(1)] i by fastforce
  ultimately show ?thesis
    using i mset_remove_nth [OF i]
    by (intro audit_inv_settle [OF assms(1), where batch = "au_drains a ! i" and ok = ok
          and w = "au_writer a" and ds = "remove_nth i (au_drains a)"])
      (auto simp: b in_flight_def batches_def ac_simps)
qed

lemma audit_inv_drain:
  assumes "audit_inv a" "drain_begin a = Some b" shows "audit_inv b"
proof -
  let ?k = "max 1 (au_batch_size a)"
  from assms(2) have q: "au_queue a \<noteq> []"
    and b: "b = a\<lparr>au_queue := drop ?k (au_queue a), au_drains := au_drains a @ [take ?k (au_queue a)]\<rparr>"
    by (auto simp: drain_begin_def Let_def split: if_splits)
  show ?thesis
    using audit_inv_enabled [OF assms(1)] audit_inv_batches [OF assms(1)] q
      mset_take_drop [of ?k "au_queue a"]
    by (intro audit_inv_move [OF assms(1), where q = "drop ?k (au_queue a)" and w = "au_writer a"
          and ds = "au_drains a @ [take ?k (au_queue a)]" and st = "au_stopping a"])
      (auto simp: b in_flight_def batches_def ac_simps)
qed

lemma audit_inv_stop: "audit_inv a \<Longrightarrow> audit_inv (request_stop a)"
  by (cases "au_writer a = NoTask") (auto simp: audit_inv_simps request_stop_def)

lemma audit_inv_cancel:
  assumes "audit_inv a" "cancel_writer a = Some b" shows "audit_inv b"
proof -
  from assms(2) obtain batch where w: "au_writer a = Writing batch"
    and b: "b = a\<lparr>au_writer := Exited, gh_abandoned := gh_abandoned a @ batch\<rparr>"
    by (auto simp: cancel_writer_def split: writer.splits if_splits)
  show ?thesis
    using assms(1) w by (simp add: audit_inv_simps b ac_simps)
qed

lemma audit_inv_joined:
  assumes "audit_inv a" "stop_joined a = Some b" shows "audit_inv b"
proof -
  from assms(2) have w: "au_writer a = Exited" and b: "b = a\<lparr>au_writer := NoTask, au_stopping := False\<rparr>"
    by (simp_all add: stop_joined_def split: if_splits)
  show ?thesis using assms(1) w by (simp add: audit_inv_simps b)
qed

interpretation audit_run: step_system "\<lambda>a. \<exists>e cap bs. a = audit_init e cap bs" audit_step audit_inv
  by unfold_locales
    (auto simp: audit_inv_init elim!: audit_stepE
      intro: audit_inv_record audit_inv_start audit_inv_getter audit_inv_collect audit_inv_write
        audit_inv_stop audit_inv_cancel audit_inv_joined audit_inv_drain audit_inv_drained)

text \<open>
  C30. In every reachable state of the audit service, under any interleaving of requests, writer,
  drains, flushes, stops and restarts and any database failures: every record offered is in
  exactly one of committed, rejected by the database, dropped as oldest, abandoned by a
  cancelled shutdown, still queued, or in flight (so none is lost silently and none is written
  twice); the exposed counters are exactly those of their kind; the queue never exceeds its
  bound; and no batch being written is empty or larger than the configured size.
\<close>

theorem audit_accounting:
  assumes "audit_step\<^sup>*\<^sup>* (audit_init e cap bs) a"
  shows "mset (gh_offered a) = mset (gh_committed a) + mset (gh_rejected a) + mset (gh_discarded a)
           + mset (gh_abandoned a) + mset (au_queue a) + mset (in_flight a)
         \<and> st_queued (au_stats a) = st_written (au_stats a) + st_failed (au_stats a)
             + st_dropped (au_stats a) + length (gh_abandoned a) + length (au_queue a) + length (in_flight a)
         \<and> (distinct (gh_offered a) \<longrightarrow> distinct (gh_committed a @ au_queue a @ in_flight a))
         \<and> (au_capacity a \<noteq> 0 \<longrightarrow> length (au_queue a) \<le> au_capacity a)
         \<and> (\<forall>b \<in> set (batches a). 1 \<le> length b \<and> length b \<le> max 1 (au_batch_size a))"
proof -
  have inv: "audit_inv a"
    by (rule audit_run.inv_reachable [OF _ assms]) blast
  then have acc: "mset (gh_offered a) = mset (gh_committed a) + mset (gh_rejected a) + mset (gh_discarded a)
           + mset (gh_abandoned a) + mset (au_queue a) + mset (in_flight a)"
    by (simp add: audit_inv_def accounted_def)
  have len: "length (gh_offered a) = length (gh_committed a) + length (gh_rejected a) + length (gh_discarded a)
           + length (gh_abandoned a) + length (au_queue a) + length (in_flight a)"
    using arg_cong [OF acc, of "size"] by simp
  have dist: "distinct (gh_committed a @ au_queue a @ in_flight a)" if d: "distinct (gh_offered a)"
  proof -
    have "mset (gh_offered a) = mset (gh_rejected a @ gh_discarded a @ gh_abandoned a @ gh_committed a @ au_queue a @ in_flight a)"
      using acc by (simp add: ac_simps)
    then have "distinct (gh_rejected a @ gh_discarded a @ gh_abandoned a @ gh_committed a @ au_queue a @ in_flight a)"
      using d mset_eq_imp_distinct_iff by blast
    then show ?thesis by auto
  qed
  have c: "counted a" and b: "bounded a" using inv by (simp_all add: audit_inv_def)
  have "1 \<le> length x \<and> length x \<le> max 1 (au_batch_size a)" if "x \<in> set (batches a)" for x
    using audit_inv_batches [OF inv that] by (cases x) auto
  moreover have "st_queued (au_stats a) = st_written (au_stats a) + st_failed (au_stats a)
             + st_dropped (au_stats a) + length (gh_abandoned a) + length (au_queue a) + length (in_flight a)"
    using c len by (simp add: counted_def)
  ultimately show ?thesis using acc dist b by (simp add: bounded_def)
qed

theorem audit_accounting_witness:
  "distinct (gh_committed (record_entry 7 (audit_init True 2 50))
             @ au_queue (record_entry 7 (audit_init True 2 50)) @ in_flight (record_entry (7::nat) (audit_init True 2 50)))"
proof -
  have "audit_step\<^sup>*\<^sup>* (audit_init True 2 50) (record_entry (7::nat) (audit_init True 2 50))"
    by (rule r_into_rtranclp) (rule step_record)
  moreover have "distinct (gh_offered (record_entry (7::nat) (audit_init True 2 50)))"
    by (simp add: record_entry_def queue_full_def push_def audit_init_def)
  ultimately show ?thesis using audit_accounting by blast
qed

section \<open>Stopping\<close>

lemma concat_chunks: "concat (chunks k xs) = xs"
  by (induction k xs rule: chunks.induct) (subst chunks.simps, auto)

lemma commit_all_keeps:
  "au_queue (commit_all ok n bs a) = au_queue a \<and> au_writer (commit_all ok n bs a) = au_writer a
   \<and> au_drains (commit_all ok n bs a) = au_drains a \<and> gh_offered (commit_all ok n bs a) = gh_offered a
   \<and> gh_discarded (commit_all ok n bs a) = gh_discarded a
   \<and> gh_abandoned (commit_all ok n bs a) = gh_abandoned a \<and> au_enabled (commit_all ok n bs a) = au_enabled a"
  by (induction bs arbitrary: n a) simp_all

lemma commit_all_settles:
  "au_enabled a \<Longrightarrow>
     mset (gh_committed (commit_all ok n bs a)) + mset (gh_rejected (commit_all ok n bs a))
       = mset (gh_committed a) + mset (gh_rejected a) + mset (concat bs)"
  by (induction bs arbitrary: n a) (simp_all add: commit_settles)

lemma drain_settles:
  assumes "audit_inv a"
  shows "au_queue (drain ok a) = [] \<and> in_flight (drain ok a) = in_flight a
    \<and> gh_abandoned (drain ok a) = gh_abandoned a
    \<and> gh_offered (drain ok a) = gh_offered a
    \<and> mset (gh_offered a) = mset (gh_committed (drain ok a)) + mset (gh_rejected (drain ok a))
        + mset (gh_discarded (drain ok a)) + mset (gh_abandoned a) + mset (in_flight a)"
proof -
  have "mset (gh_committed (drain ok a)) + mset (gh_rejected (drain ok a))
      = mset (gh_committed a) + mset (gh_rejected a) + mset (au_queue a)"
  proof (cases "au_enabled a")
    case True
    then show ?thesis
      using commit_all_settles [of "a\<lparr>au_queue := []\<rparr>" ok 0 "chunks (au_batch_size a) (au_queue a)"]
      by (simp add: drain_def concat_chunks)
  next
    case False
    then have "au_queue a = []" using audit_inv_enabled [OF assms] by blast
    then show ?thesis by (simp add: drain_def chunks.simps [of _ "[]"])
  qed
  then have "mset (gh_offered a) = mset (gh_committed (drain ok a)) + mset (gh_rejected (drain ok a))
        + mset (gh_discarded a) + mset (gh_abandoned a) + mset (in_flight a)"
    using assms by (simp add: audit_inv_def accounted_def ac_simps)
  then show ?thesis by (simp add: drain_def commit_all_keeps in_flight_def)
qed

text \<open>The writer's own steps after the stop event: finish the collection, then the commit.\<close>

definition wind_down :: "bool \<Rightarrow> 'r audit \<Rightarrow> 'r audit" where
  "wind_down ok a =
     (let b = (case finish_collect a of Some b \<Rightarrow> b | None \<Rightarrow> a)
      in case finish_write ok b of Some c \<Rightarrow> c | None \<Rightarrow> b)"

lemma wind_down_steps: "audit_step\<^sup>*\<^sup>* a (wind_down ok a)"
proof -
  let ?b = "case finish_collect a of Some b \<Rightarrow> b | None \<Rightarrow> a"
  have "audit_step\<^sup>*\<^sup>* a ?b" by (auto split: option.splits intro: step_collect)
  moreover have "audit_step\<^sup>*\<^sup>* ?b (wind_down ok a)"
    by (auto simp: wind_down_def Let_def split: option.splits intro: step_write)
  ultimately show ?thesis by (rule rtranclp_trans)
qed

lemma wind_down_exits:
  assumes "au_stopping a" "au_writer a \<noteq> NoTask"
  shows "au_writer (wind_down ok a) = Exited \<and> gh_abandoned (wind_down ok a) = gh_abandoned a
    \<and> gh_offered (wind_down ok a) = gh_offered a \<and> au_drains (wind_down ok a) = au_drains a"
  using assms
  by (cases "au_writer a") (auto simp: wind_down_def finish_collect_def finish_write_def Let_def)


definition stop_demo :: "nat audit" where
  "stop_demo = record_entry 7 (start_writer (audit_init True 2 50))"

lemma stop_demo_reachable: "audit_step\<^sup>*\<^sup>* (audit_init True 2 50) stop_demo"
  unfolding stop_demo_def by (rule rtranclp.rtrancl_into_rtrancl [OF r_into_rtranclp]) (rule step_start, rule step_record)

lemma stop_demo_eq:
  "stop_demo = (audit_init True 2 50)\<lparr>au_writer := Collecting None, au_queue := [7], gh_offered := [7],
     au_stats := \<lparr>st_queued = 1, st_written = 0, st_dropped = 0, st_failed = 0\<rparr>\<rparr>"
  by (simp add: stop_demo_def record_entry_def queue_full_def push_def audit_init_def start_writer_def)


text \<open>
  \<open>flush\<close> can miss a queued record. Its documentation promises everything queued, including a
  batch mid-commit; but a record that the writer's pending \<open>Queue.get\<close> has already taken, before
  the writer resumes, is neither in the queue nor under the lock. There is a reachable state in
  which a flush completes, with no database failure, and a record queued before it is still not
  committed.
\<close>

theorem flush_misses_taken_record:
  "\<exists>a b. audit_step\<^sup>*\<^sup>* (audit_init True 2 50) a \<and> flush (\<lambda>_. True) a = Some b
     \<and> (7::nat) \<in> set (gh_offered b) \<and> 7 \<notin> set (gh_committed b) \<and> au_queue b = []"
proof -
  let ?a = "stop_demo\<lparr>au_writer := Collecting (Some 7), au_queue := []\<rparr>"
  have g: "getter_takes stop_demo = Some ?a"
    by (simp add: getter_takes_def stop_demo_eq audit_init_def)
  have "audit_step\<^sup>*\<^sup>* (audit_init True 2 50) ?a"
    by (rule rtranclp.rtrancl_into_rtrancl [OF stop_demo_reachable step_getter [OF g]])
  moreover have "flush (\<lambda>_. True) ?a = Some ?a"
    by (simp add: flush_def drain_def chunks.simps [of _ "[]"])
  ultimately show ?thesis
    by (intro exI [of _ ?a]) (simp add: stop_demo_eq audit_init_def)
qed

end
