(* ===== verification/Inference_Service.thy ===== *)
theory Inference_Service
  imports Model_Service Cache_Service Audit_Service
begin

text \<open>
  Inference orchestration (\<open>api/services/inference_service.py\<close>): validate, consult the cache,
  preprocess and run, decode, store, audit. The clock readings, the digest, Pillow, NumPy's index
  routines, the JSON codec and pydantic's parser of a cached prediction are parameters, gathered
  in \<open>infer_env\<close>. The registry is only read; the state is that of the cache and of the audit
  service.
\<close>

record 'i infer_env =
  ie_header :: pil_open
  ie_pil :: "'i pil"
  ie_argpartition :: argpartition_fn
  ie_argsort :: argsort_fn
  ie_sha256 :: "bytes \<Rightarrow> string"
  ie_float_repr :: "real \<Rightarrow> string"
  ie_json :: json_codec
  ie_parse_prediction :: "pyval \<Rightarrow> prediction result"
  ie_clock :: "nat \<Rightarrow> real"

definition elapsed_ms :: "'i infer_env \<Rightarrow> nat \<Rightarrow> real" where
  "elapsed_ms E n = py_round 2 ((ie_clock E n - ie_clock E 0) * 1000)"

section \<open>Decoding\<close>

text \<open>The rows of a two-dimensional output, which warmup has established; indexing any other
  shape is an error here.\<close>

fun rows_of :: "nat \<Rightarrow> nat \<Rightarrow> real list \<Rightarrow> real list list" where
  "rows_of 0 c xs = []"
| "rows_of (Suc n) c xs = take c xs # rows_of n c (drop c xs)"

definition nd_rows :: "ndarray \<Rightarrow> real list list result" where
  "nd_rows a =
     (case nd_shape a of
        [n, c] \<Rightarrow> Inr (rows_of n c (nd_data a))
      | _ \<Rightarrow> Inl index_error)"

definition label_prediction :: "loaded_model \<Rightarrow> bool \<Rightarrow> real \<times> nat \<Rightarrow> prediction result" where
  "label_prediction model include_probabilities si =
     (case si of (score, class_id) \<Rightarrow>
      if class_id < length (lm_class_names model)
      then make_prediction
             \<lparr>pr_label = lm_class_names model ! class_id,
              pr_class_id = int class_id,
              pr_wnid = (if class_id < length (lm_wnids model) then Some (lm_wnids model ! class_id) else None),
              pr_probability = (if include_probabilities then Some (py_round 6 score) else None)\<rparr>
      else Inl index_error)"

definition decode_classification ::
  "'i infer_env \<Rightarrow> real list \<Rightarrow> loaded_model \<Rightarrow> int \<Rightarrow> bool \<Rightarrow> prediction list result" where
  "decode_classification E logits model top_k_results include_probabilities =
     (case top_k (ie_argpartition E) (ie_argsort E) (softmax logits) top_k_results of
        (scores, indices) \<Rightarrow>
          map_res (label_prediction model include_probabilities) (zip scores indices))"

definition run_batch :: "'i infer_env \<Rightarrow> loaded_model \<Rightarrow> bytes list \<Rightarrow> ndarray result" where
  "run_batch E model images =
     res_bind (map_res (preprocess_image (ie_pil E) (default_preprocess (lm_image_size model))) images)
       (\<lambda>arrays. res_bind (stack_batch arrays) (\<lambda>batch. run_model model batch))"

definition provenance_of :: "loaded_model \<Rightarrow> model_provenance" where
  "provenance_of m =
     \<lparr>pv_model_name = lm_name m, pv_model_version = lm_version m, pv_backend = backend_value (lm_backend m)\<rparr>"

definition summarise_predictions :: "prediction list \<Rightarrow> pyval" where
  "summarise_predictions ps =
     PDict [(''predictions'', PList (map (\<lambda>p.
       PDict [(''label'', PStr (pr_label p)), (''class_id'', PInt (pr_class_id p)),
              (''probability'', case pr_probability p of None \<Rightarrow> PNone | Some x \<Rightarrow> PFloat x)]) ps))]"

section \<open>Auditing\<close>

text \<open>The caller's identity and the experiment arm that accompany a request.\<close>

record request_context =
  rc_correlation_id :: string
  rc_user_id :: "string option"
  rc_user_tier :: "string option"
  rc_variant :: "string option"

definition audit_row ::
  "request_context \<Rightarrow> loaded_model \<Rightarrow> prediction list \<Rightarrow> real \<Rightarrow> image_metadata \<Rightarrow> bool \<Rightarrow> string
   \<Rightarrow> string \<Rightarrow> string option \<Rightarrow> inference_log" where
  "audit_row rc model predictions latency_ms metadata cached image_sha256 status error_code =
     (let top = (case predictions of [] \<Rightarrow> None | p # _ \<Rightarrow> Some p) in
     \<lparr>il_correlation_id = rc_correlation_id rc, il_user_id = rc_user_id rc,
      il_user_tier = rc_user_tier rc, il_model_name = lm_name model,
      il_model_version = lm_version model, il_backend = backend_value (lm_backend model),
      il_task = task_value (lm_task model), il_status = status, il_error_code = error_code,
      il_latency_ms = latency_ms, il_cached = cached, il_batch_size = 1,
      il_image_sha256 = Some image_sha256, il_variant = rc_variant rc,
      il_image_bytes = Some (im_size_bytes metadata), il_image_width = Some (im_width metadata),
      il_image_height = Some (im_height metadata), il_image_format = Some (im_format metadata),
      il_top_label = map_option pr_label top, il_top_class_id = map_option pr_class_id top,
      il_top_probability = (case top of None \<Rightarrow> None | Some p \<Rightarrow> pr_probability p)\<rparr>)"

text \<open>\<open>getattr(exc, \"code\", type(exc).__name__)\<close>\<close>

fun audit_error_code :: "exn \<Rightarrow> string" where
  "audit_error_code (ApiExc e) = err_code e"
| "audit_error_code (PyExc t m) = t"

section \<open>Classification\<close>

type_synonym 'r infer_state = "'r cache_state \<times> inference_log audit"

text \<open>\<open>[Prediction(**p) for p in cached[\"predictions\"]]\<close>: a payload that is not a dictionary with
  a list of predictions raises.\<close>

definition cached_predictions :: "'i infer_env \<Rightarrow> pyval \<Rightarrow> prediction list result" where
  "cached_predictions E payload =
     (case payload of
        PDict d \<Rightarrow>
          (case dict_get d ''predictions'' of
             None \<Rightarrow> Inl (key_error ''predictions'')
           | Some (PList ps) \<Rightarrow> map_res (ie_parse_prediction E) ps
           | Some _ \<Rightarrow> Inl (PyExc ''TypeError'' ''predictions is not a list''))
      | _ \<Rightarrow> Inl (PyExc ''TypeError'' ''payload is not a dictionary''))"

definition predictions_payload :: "prediction list \<Rightarrow> pyval" where
  "predictions_payload ps = PDict [(''predictions'', PList (map prediction_dump ps))]"

definition classify_key :: "'i infer_env \<Rightarrow> loaded_model \<Rightarrow> bytes \<Rightarrow> int \<Rightarrow> bool \<Rightarrow> string" where
  "classify_key E model image_bytes top_k_results include_probabilities =
     build_key (ie_sha256 E) (ie_float_repr E) image_bytes (lm_name model) (lm_version model)
       (backend_value (lm_backend model)) (Some (classify_options top_k_results include_probabilities))"

definition classification_of ::
  "model_provenance \<Rightarrow> string \<Rightarrow> prediction list \<Rightarrow> real \<Rightarrow> bool \<Rightarrow> classification_response" where
  "classification_of pv cid ps ms cached =
     \<lparr>cr_predictions = ps, cr_inference_time_ms = ms, cr_correlation_id = cid, cr_provenance = pv,
      cr_cached = cached\<rparr>"

text \<open>The part after a cache miss: run, decode, store, audit.\<close>

definition classify_fresh ::
  "'i infer_env \<Rightarrow> request_context \<Rightarrow> loaded_model \<Rightarrow> image_metadata \<Rightarrow> bytes \<Rightarrow> int \<Rightarrow> bool \<Rightarrow> bool
   \<Rightarrow> 'r infer_state \<Rightarrow> 'r infer_state \<times> classification_response result" where
  "classify_fresh E rc model metadata image_bytes top_k_results include_probabilities use_cache st =
     (case st of (cst, au) \<Rightarrow>
      let sha = ie_sha256 E image_bytes;
          row = (\<lambda>ps ms status code. audit_row rc model ps ms metadata False sha status code)
      in
      case run_batch E model [image_bytes] of
        Inl e \<Rightarrow> ((cst, record_entry (row [] (elapsed_ms E 1) ''failure'' (Some (audit_error_code e))) au), Inl e)
      | Inr out \<Rightarrow>
          (case res_bind (nd_rows out) (\<lambda>rows.
                  case rows of
                    [] \<Rightarrow> Inl index_error
                  | r # _ \<Rightarrow> decode_classification E r model top_k_results include_probabilities) of
             Inl e \<Rightarrow> ((cst, au), Inl e)
           | Inr predictions \<Rightarrow>
               let response = classification_of (provenance_of model) (rc_correlation_id rc) predictions
                                (elapsed_ms E 1) False;
                   cst' = (if use_cache
                           then fst (cache_set (ie_json E)
                                  (classify_key E model image_bytes top_k_results include_probabilities)
                                  (predictions_payload predictions) None cst)
                           else cst)
               in ((cst', record_entry (row predictions (elapsed_ms E 1) ''success'' None) au), Inr response)))"

definition classify ::
  "'i infer_env \<Rightarrow> settings \<Rightarrow> registry \<Rightarrow> request_context \<Rightarrow> bytes \<Rightarrow> int \<Rightarrow> string option \<Rightarrow> backend option
   \<Rightarrow> bool \<Rightarrow> bool \<Rightarrow> 'r infer_state \<Rightarrow> 'r infer_state \<times> classification_response result" where
  "classify E cfg reg rc image_bytes top_k_results model_version b include_probabilities use_cache st =
     (case st of (cst, au) \<Rightarrow>
      case res_bind (validate_image_upload (ie_header E) image_bytes (max_upload_bytes cfg) (max_image_pixels cfg))
             (\<lambda>metadata. res_bind (get_for_backend reg classifier_name model_version b)
             (\<lambda>model. Inr (metadata, model))) of
        Inl e \<Rightarrow> ((cst, au), Inl e)
      | Inr (metadata, model) \<Rightarrow>
          (case (if use_cache
                 then cache_get (ie_json E) (classify_key E model image_bytes top_k_results include_probabilities) cst
                 else (cst, None)) of
             (cst', None) \<Rightarrow>
               classify_fresh E rc model metadata image_bytes top_k_results include_probabilities use_cache (cst', au)
           | (cst', Some cached) \<Rightarrow>
               (case cached_predictions E cached of
                  Inl e \<Rightarrow> ((cst', au), Inl e)
                | Inr predictions \<Rightarrow>
                    ((cst', record_entry (audit_row rc model predictions (elapsed_ms E 1) metadata True
                              (ie_sha256 E image_bytes) ''success'' None) au),
                     Inr (classification_of (provenance_of model) (rc_correlation_id rc) predictions
                            (elapsed_ms E 1) True)))))"

definition classify_many ::
  "'i infer_env \<Rightarrow> settings \<Rightarrow> registry \<Rightarrow> bytes list \<Rightarrow> int \<Rightarrow> string option \<Rightarrow> bool \<Rightarrow> prediction list list result" where
  "classify_many E cfg reg images top_k_results model_version include_probabilities =
     (if images = [] then Inr []
      else if int (length images) > max_batch_size cfg
      then raise_api BatchTooLargeError
             (''Batch of '' @ show_nat (length images) @ '' exceeds the limit of '' @ show_int (max_batch_size cfg) @ ''.'')
             [(''submitted'', PInt (int (length images))), (''max'', PInt (max_batch_size cfg))]
      else res_bind (map_res (\<lambda>i. validate_image_upload (ie_header E) i (max_upload_bytes cfg) (max_image_pixels cfg)) images) (\<lambda>_.
           res_bind (get_classifier reg model_version) (\<lambda>model.
           res_bind (run_batch E model images) (\<lambda>out.
           res_bind (nd_rows out) (\<lambda>rows.
           map_res (\<lambda>row. decode_classification E row model top_k_results include_probabilities) rows)))))"

section \<open>Decoded predictions\<close>

lemma sorted_map_transfer:
  "sorted (map f xs) \<Longrightarrow> (\<And>x y. x \<in> set xs \<Longrightarrow> y \<in> set xs \<Longrightarrow> f x \<le> f y \<Longrightarrow> g x \<le> g y) \<Longrightarrow>
     sorted (map g xs)"
  by (induction xs) auto

lemma label_prediction_Inr:
  assumes "c < length (lm_class_names model)" "0 \<le> x" "x \<le> 1"
  shows "\<exists>p. label_prediction model ip (x, c) = Inr p \<and> pr_class_id p = int c
    \<and> pr_label p = lm_class_names model ! c \<and> prediction_ok p
    \<and> pr_probability p = (if ip then Some (py_round 6 x) else None)"
  using assms py_round_between [of 0 x 1 6]
  by (auto simp: label_prediction_def make_prediction_def prediction_ok_def)

lemma decoded_ok:
  "decode_classification E logits model k ip = Inr ps \<Longrightarrow> p \<in> set ps \<Longrightarrow> prediction_ok p"
  by (auto simp: decode_classification_def label_prediction_def make_prediction_Inr
      split: prod.splits if_splits dest!: map_res_Inr_set)

text \<open>
  Decoding is total and ranked. With at least as many labels as logits, decoding returns
  the \<open>min k n\<close> classes with the largest logits, distinct, best first, each with the label of its
  own index, and with a probability in \<open>[0, 1]\<close> that is the rounded softmax score, or with
  none when probabilities were not asked for. No class left out scores above one returned.
\<close>

theorem decode_classification_ranked:
  assumes "argpartition_ok (ie_argpartition E)" "argsort_ok (ie_argsort E)" "1 \<le> k" "logits \<noteq> []"
    and "length logits \<le> length (lm_class_names model)"
  shows "\<exists>ps ids. decode_classification E logits model k ip = Inr ps
    \<and> length ps = min (nat k) (length logits)
    \<and> map pr_class_id ps = map int ids \<and> distinct ids \<and> set ids \<subseteq> {0..<length logits}
    \<and> (\<forall>i < length ps. pr_label (ps ! i) = lm_class_names model ! (ids ! i)
         \<and> pr_probability (ps ! i) = (if ip then Some (py_round 6 (softmax logits ! (ids ! i))) else None)
         \<and> prediction_ok (ps ! i))
    \<and> sorted (rev (map (nth logits) ids))
    \<and> (\<forall>i < length logits. \<forall>j \<in> set ids. i \<notin> set ids \<longrightarrow> logits ! i \<le> logits ! j)"
proof -
  let ?q = "softmax logits"
  obtain scores ids where t: "top_k (ie_argpartition E) (ie_argsort E) ?q k = (scores, ids)" by fastforce
  have ne: "?q \<noteq> []" using assms(4) by (metis length_0_conv length_softmax)
  note spec = top_k_spec [OF assms(1-3) ne t, unfolded length_softmax]
  then have ids: "length ids = min (nat k) (length logits)" "distinct ids" "set ids \<subseteq> {0..<length logits}"
    "scores = map (nth ?q) ids" by auto
  have mono: "i < length logits \<Longrightarrow> j < length logits \<Longrightarrow> ?q ! i \<le> ?q ! j \<longleftrightarrow> logits ! i \<le> logits ! j" for i j
    by (rule softmax_mono_nth)
  have lab: "\<exists>p. label_prediction model ip (?q ! c, c) = Inr p \<and> pr_class_id p = int c
      \<and> pr_label p = lm_class_names model ! c \<and> prediction_ok p
      \<and> pr_probability p = (if ip then Some (py_round 6 (?q ! c)) else None)" if "c \<in> set ids" for c
  proof -
    have c: "c < length logits" using ids(3) that by auto
    then have "?q ! c \<in> set ?q" by simp
    from softmax_pos [OF this] softmax_le_1 [OF this] c assms(5) show ?thesis
      by (intro label_prediction_Inr) auto
  qed
  then obtain f where f: "\<And>c. c \<in> set ids \<Longrightarrow> label_prediction model ip (?q ! c, c) = Inr (f c)
      \<and> pr_class_id (f c) = int c \<and> pr_label (f c) = lm_class_names model ! c \<and> prediction_ok (f c)
      \<and> pr_probability (f c) = (if ip then Some (py_round 6 (?q ! c)) else None)"
    by metis
  have z: "zip scores ids = map (\<lambda>c. (?q ! c, c)) ids" by (simp add: ids(4) zip_map1 zip_same_conv_map)
  have "map_res (label_prediction model ip) (zip scores ids) = Inr (map f ids)"
    unfolding z using f by (induction ids) auto
  then have d: "decode_classification E logits model k ip = Inr (map f ids)"
    by (simp add: decode_classification_def t)
  have "sorted (rev (map (nth logits) ids))"
  proof -
    have "sorted (rev scores)" using spec by blast
    then have "sorted (map (nth ?q) (rev ids))" by (simp only: ids(4) rev_map)
    then have "sorted (map (nth logits) (rev ids))"
      by (rule sorted_map_transfer) (use ids(3) mono in \<open>force simp: subset_iff\<close>)
    then show ?thesis by (simp add: rev_map)
  qed
  moreover have "\<forall>i < length logits. \<forall>j \<in> set ids. i \<notin> set ids \<longrightarrow> logits ! i \<le> logits ! j"
    using spec ids(3) mono by (auto simp: subset_iff)
  ultimately show ?thesis
    using d ids f by (intro exI [of _ "map f ids"] exI [of _ ids]) auto
qed

definition demo_infer :: "(int \<times> int) infer_env" where
  "demo_infer =
     \<lparr>ie_header = demo_header, ie_pil = flat_pil (16, 16),
      ie_argpartition = ref_argpartition, ie_argsort = ref_argsort,
      ie_sha256 = length_digest, ie_float_repr = (\<lambda>x. []),
      ie_json = \<lparr>js_loads = (\<lambda>s. None), js_dumps = (\<lambda>v. None)\<rparr>,
      ie_parse_prediction = (\<lambda>v. case v of
        PDict [(_, PStr l), (_, PInt c), (_, w), (_, x)] \<Rightarrow>
          Inr \<lparr>pr_label = l, pr_class_id = c,
               pr_wnid = (case w of PStr s \<Rightarrow> Some s | _ \<Rightarrow> None),
               pr_probability = (case x of PFloat r \<Rightarrow> Some r | _ \<Rightarrow> None)\<rparr>
      | _ \<Rightarrow> Inl invalid_response),
      ie_clock = (\<lambda>n. of_nat n / 1000)\<rparr>"

theorem decode_classification_ranked_witness:
  "\<exists>p. decode_classification demo_infer [0, 2] (demo_model ''v1'') 1 True = Inr [p] \<and> prediction_ok p"
proof -
  have c: "argpartition_ok (ie_argpartition demo_infer)" "argsort_ok (ie_argsort demo_infer)"
    by (simp_all add: demo_infer_def ref_argpartition_ok ref_argsort_ok)
  have l: "length [0, 2 :: real] \<le> length (lm_class_names (demo_model ''v1''))" by (simp add: demo_model_def)
  obtain ps where ps: "decode_classification demo_infer [0, 2] (demo_model ''v1'') 1 True = Inr ps"
    "length ps = 1" "prediction_ok (ps ! 0)"
    using decode_classification_ranked [OF c _ _ l, of 1 True] by auto
  then show ?thesis by (cases ps) auto
qed

section \<open>The cache is transparent\<close>

text \<open>What a request computes when nothing is cached.\<close>

definition fresh_predictions ::
  "'i infer_env \<Rightarrow> loaded_model \<Rightarrow> bytes \<Rightarrow> int \<Rightarrow> bool \<Rightarrow> prediction list result" where
  "fresh_predictions E model image_bytes k ip =
     res_bind (run_batch E model [image_bytes]) (\<lambda>out.
     res_bind (nd_rows out) (\<lambda>rows.
       case rows of [] \<Rightarrow> Inl index_error | r # _ \<Rightarrow> decode_classification E r model k ip))"

text \<open>Requests of a set \<open>R\<close> (image, number of classes, whether probabilities) on which the digest
  does not collide, and whose digests do not contain the separator.\<close>

definition options_bytes :: "'i infer_env \<Rightarrow> int \<Rightarrow> bool \<Rightarrow> bytes" where
  "options_bytes E k b = encode_text (json_compact (ie_float_repr E) (PDict (classify_options k b)))"

definition collision_free :: "'i infer_env \<Rightarrow> (bytes \<times> int \<times> bool) set \<Rightarrow> bool" where
  "collision_free E R \<longleftrightarrow>
     (\<forall>d. sep_free (CHR '':'') (ie_sha256 E d))
     \<and> (\<forall>i k b i' k' b'. (i, k, b) \<in> R \<and> (i', k', b') \<in> R \<longrightarrow>
          (ie_sha256 E i = ie_sha256 E i' \<longrightarrow> i = i')
          \<and> (take 16 (ie_sha256 E (options_bytes E k b)) = take 16 (ie_sha256 E (options_bytes E k' b'))
               \<longrightarrow> options_bytes E k b = options_bytes E k' b'))"

text \<open>Everything the cache holds under a request's key is that request's own answer.\<close>

definition coherent ::
  "'i infer_env \<Rightarrow> registry \<Rightarrow> (bytes \<times> int \<times> bool) set \<Rightarrow> (string \<Rightarrow> string option) \<Rightarrow> bool" where
  "coherent E reg R content \<longleftrightarrow>
     (\<forall>m i k b t. m \<in> set (list_models reg) \<and> (i, k, b) \<in> R
        \<and> content (classify_key E m i k b) = Some t \<longrightarrow>
        (\<exists>ps. fresh_predictions E m i k b = Inr ps \<and> js_loads (ie_json E) t = Some (predictions_payload ps)))"

text \<open>The codec reads back what it wrote, and pydantic accepts a dumped prediction.\<close>

definition codec_ok :: "'i infer_env \<Rightarrow> bool" where
  "codec_ok E \<longleftrightarrow>
     (\<forall>ps t. js_dumps (ie_json E) (predictions_payload ps) = Some t \<longrightarrow>
        js_loads (ie_json E) t = Some (predictions_payload ps))
     \<and> (\<forall>p. prediction_ok p \<longrightarrow> ie_parse_prediction E (prediction_dump p) = Inr p)"

definition plain_registry :: "registry \<Rightarrow> bool" where
  "plain_registry reg \<longleftrightarrow> registry_ok reg \<and> (\<forall>m \<in> set (list_models reg). sep_free (CHR '':'') (lm_version m))"

lemma plain_registry_model:
  assumes "plain_registry reg" "m \<in> set (list_models reg)"
  shows "sep_free (CHR '':'') (lm_name m)" "sep_free (CHR '':'') (lm_version m)"
    "dict_get (reg_models reg) (lm_key m) = Some m"
proof -
  have ok: "registry_ok reg" using assms(1) by (simp add: plain_registry_def)
  from assms(2) obtain k where "(k, m) \<in> set (reg_models reg)" by (auto simp: list_models_def)
  then have "dict_get (reg_models reg) k = Some m"
    using ok by (simp add: registry_ok_def dict_get_iff)
  with registry_ok_model [OF ok this] show "dict_get (reg_models reg) (lm_key m) = Some m"
    "sep_free (CHR '':'') (lm_name m)" by (auto simp: well_named_def)
  show "sep_free (CHR '':'') (lm_version m)" using assms by (simp add: plain_registry_def)
qed

lemma collision_freeD:
  assumes "collision_free E R" "(i, k, b) \<in> R" "(i', k', b') \<in> R"
  shows "ie_sha256 E i = ie_sha256 E i' \<Longrightarrow> i = i'"
    and "take 16 (ie_sha256 E (options_bytes E k b)) = take 16 (ie_sha256 E (options_bytes E k' b'))
         \<Longrightarrow> options_bytes E k b = options_bytes E k' b'"
  using assms unfolding collision_free_def by blast+

lemma options_bytes_inject: "options_bytes E k b = options_bytes E k' b' \<longleftrightarrow> k = k' \<and> b = b'"
  by (simp only: options_bytes_def encode_text_inject classify_options_json_inject)

lemma classify_key_inject:
  assumes "plain_registry reg" "collision_free E R" "m \<in> set (list_models reg)" "m' \<in> set (list_models reg)"
    and "(i, k, b) \<in> R" "(i', k', b') \<in> R" "classify_key E m i k b = classify_key E m' i' k' b'"
  shows "m = m' \<and> i = i' \<and> k = k' \<and> b = b'"
proof -
  note m = plain_registry_model [OF assms(1,3)] and m' = plain_registry_model [OF assms(1,4)]
  have sha: "sep_free (CHR '':'') (ie_sha256 E d)" for d
    using assms(2) by (simp add: collision_free_def)
  note p = build_key_parts [OF assms(7) [unfolded classify_key_def] _ sha]
  have names: "lm_name m = lm_name m' \<and> lm_version m = lm_version m'
      \<and> ie_sha256 E i = ie_sha256 E i'
      \<and> take 16 (ie_sha256 E (options_bytes E k b)) = take 16 (ie_sha256 E (options_bytes E k' b'))"
    using p m m' by (simp add: backend_value_sep_free options_bytes_def)
  then have "lm_key m = lm_key m'" by (simp add: lm_key_def)
  with m(3) have "dict_get (reg_models reg) (lm_key m') = Some m" by (simp only:)
  with m'(3) have "m = m'" by (simp only: option.inject)
  moreover have "i = i'" using collision_freeD(1) [OF assms(2,5,6)] names by simp
  moreover have "options_bytes E k b = options_bytes E k' b'"
    using collision_freeD(2) [OF assms(2,5,6)] names by simp
  ultimately show ?thesis by (simp only: options_bytes_inject simp_thms)
qed

lemma fresh_ok:
  assumes "fresh_predictions E m i k b = Inr ps" "p \<in> set ps"
  shows "prediction_ok p"
proof -
  obtain out rows where "nd_rows out = Inr rows"
    and r: "(case rows of [] \<Rightarrow> Inl index_error | r # _ \<Rightarrow> decode_classification E r m k b) = Inr ps"
    using assms(1) by (auto simp: fresh_predictions_def res_bind_Inr_iff)
  from r obtain row where "decode_classification E row m k b = Inr ps" by (cases rows) auto
  then show ?thesis using assms(2) by (rule decoded_ok)
qed

lemma map_res_inverse: "(\<And>x. x \<in> set xs \<Longrightarrow> f (g x) = Inr x) \<Longrightarrow> map_res f (map g xs) = Inr xs"
  by (induction xs) auto

lemma cached_fresh:
  assumes "codec_ok E" "fresh_predictions E m i k b = Inr ps"
  shows "cached_predictions E (predictions_payload ps) = Inr ps"
proof -
  have "map_res (ie_parse_prediction E) (map prediction_dump ps) = Inr ps"
    using assms(1) fresh_ok [OF assms(2)] by (intro map_res_inverse) (simp add: codec_ok_def)
  then show ?thesis by (simp add: cached_predictions_def predictions_payload_def)
qed

lemma get_for_backend_listed:
  assumes "get_for_backend reg n v bk = Inr m" shows "m \<in> set (list_models reg)"
proof -
  have "get_model reg n v = Inr m"
    using assms by (auto simp: get_for_backend_def res_bind_Inr_iff split: option.splits if_splits)
  then obtain k where "dict_get (reg_models reg) k = Some m"
    by (auto simp: get_model_def split: option.splits)
  then show ?thesis unfolding list_models_def by (rule dict_get_in_values)
qed

lemma coherent_subset: "coherent E reg R content \<Longrightarrow> content' \<subseteq>\<^sub>m content \<Longrightarrow> coherent E reg R content'"
  unfolding coherent_def map_le_def by (metis domI)

lemma coherent_update:
  assumes "plain_registry reg" "collision_free E R" "codec_ok E" "coherent E reg R content"
    and "m \<in> set (list_models reg)" "(i, k, b) \<in> R" "fresh_predictions E m i k b = Inr ps"
    and "js_dumps (ie_json E) (predictions_payload ps) = Some t"
  shows "coherent E reg R (content(classify_key E m i k b \<mapsto> t))"
proof -
  have "\<exists>qs. fresh_predictions E m' i' k' b' = Inr qs \<and> js_loads (ie_json E) u = Some (predictions_payload qs)"
    if "m' \<in> set (list_models reg)" "(i', k', b') \<in> R"
      "(content(classify_key E m i k b \<mapsto> t)) (classify_key E m' i' k' b') = Some u" for m' i' k' b' u
  proof (cases "classify_key E m' i' k' b' = classify_key E m i k b")
    case True
    from classify_key_inject [OF assms(1,2) that(1) assms(5) that(2) assms(6) True]
    have "m' = m" "i' = i" "k' = k" "b' = b" by auto
    moreover have "js_loads (ie_json E) t = Some (predictions_payload ps)"
      using assms(3,8) by (simp add: codec_ok_def)
    ultimately show ?thesis using assms(7) that(3) True by auto
  next
    case False
    with that assms(4) show ?thesis unfolding coherent_def by auto
  qed
  then show ?thesis unfolding coherent_def by blast
qed

lemma classify_fresh_result:
  assumes "classify_fresh E rc m md i k b uc (cst, au) = ((cst', au'), r)"
  shows "(\<exists>ps. fresh_predictions E m i k b = Inr ps
            \<and> r = Inr (classification_of (provenance_of m) (rc_correlation_id rc) ps (elapsed_ms E 1) False)
            \<and> cst' = (if uc then fst (cache_set (ie_json E) (classify_key E m i k b) (predictions_payload ps) None cst) else cst)
            \<and> au' = record_entry (audit_row rc m ps (elapsed_ms E 1) md False (ie_sha256 E i) ''success'' None) au)
         \<or> (\<exists>e. fresh_predictions E m i k b = Inl e \<and> r = Inl e \<and> cst' = cst
              \<and> au' = (case run_batch E m [i] of
                   Inl e \<Rightarrow> record_entry (audit_row rc m [] (elapsed_ms E 1) md False (ie_sha256 E i)
                              ''failure'' (Some (audit_error_code e))) au
                 | Inr _ \<Rightarrow> au))"
proof (cases "run_batch E m [i]")
  case (Inl e)
  with assms show ?thesis by (simp add: classify_fresh_def fresh_predictions_def Let_def)
next
  case (Inr out)
  let ?d = "res_bind (nd_rows out) (\<lambda>rows. case rows of [] \<Rightarrow> Inl index_error
              | r # _ \<Rightarrow> decode_classification E r m k b)"
  have "fresh_predictions E m i k b = ?d" by (simp add: fresh_predictions_def Inr)
  with assms Inr show ?thesis by (cases ?d) (auto simp: classify_fresh_def Let_def)
qed

text \<open>The two ways past validation: an answer from the cache, or the fresh path.\<close>

lemma classify_cases:
  assumes "classify E cfg reg rc i k v bk b uc ((c, db), au) = ((cst', au'), r)"
  obtains (rejected) e where "r = Inl e" "cst' = (c, db)" "au' = au"
      "res_bind (validate_image_upload (ie_header E) i (max_upload_bytes cfg) (max_image_pixels cfg))
         (\<lambda>md. res_bind (get_for_backend reg classifier_name v bk) (\<lambda>m. Inr (md, m))) = Inl e"
  | (hit) md m payload where
      "validate_image_upload (ie_header E) i (max_upload_bytes cfg) (max_image_pixels cfg) = Inr md"
      "get_for_backend reg classifier_name v bk = Inr m" "uc"
      "cache_get (ie_json E) (classify_key E m i k b) (c, db) = (cst', Some payload)"
      "(\<exists>e. cached_predictions E payload = Inl e \<and> r = Inl e \<and> au' = au)
       \<or> (\<exists>ps. cached_predictions E payload = Inr ps
            \<and> r = Inr (classification_of (provenance_of m) (rc_correlation_id rc) ps (elapsed_ms E 1) True)
            \<and> au' = record_entry (audit_row rc m ps (elapsed_ms E 1) md True (ie_sha256 E i) ''success'' None) au)"
  | (miss) md m cst1 where
      "validate_image_upload (ie_header E) i (max_upload_bytes cfg) (max_image_pixels cfg) = Inr md"
      "get_for_backend reg classifier_name v bk = Inr m"
      "cst1 = (if uc then fst (cache_get (ie_json E) (classify_key E m i k b) (c, db)) else (c, db))"
      "classify_fresh E rc m md i k b uc (cst1, au) = ((cst', au'), r)"
proof (cases "res_bind (validate_image_upload (ie_header E) i (max_upload_bytes cfg) (max_image_pixels cfg))
         (\<lambda>md. res_bind (get_for_backend reg classifier_name v bk) (\<lambda>m. Inr (md, m)))")
  case (Inl e)
  with assms show ?thesis by (intro rejected [of e]) (simp_all add: classify_def)
next
  case (Inr x)
  then obtain md m where m: "x = (md, m)"
      "validate_image_upload (ie_header E) i (max_upload_bytes cfg) (max_image_pixels cfg) = Inr md"
      "get_for_backend reg classifier_name v bk = Inr m"
    by (auto simp: res_bind_Inr_iff)
  let ?g = "if uc then cache_get (ie_json E) (classify_key E m i k b) (c, db) else ((c, db), None)"
  obtain cst1 found where g: "?g = (cst1, found)" by fastforce
  show ?thesis
  proof (cases found)
    case None
    with g have "cst1 = (if uc then fst (cache_get (ie_json E) (classify_key E m i k b) (c, db)) else (c, db))"
      by (auto split: if_splits)
    moreover have "classify_fresh E rc m md i k b uc (cst1, au) = ((cst', au'), r)"
      using assms Inr m g None by (simp add: classify_def)
    ultimately show ?thesis using m by (intro miss [of md m cst1]) auto
  next
    case (Some payload)
    with g have "uc" "cache_get (ie_json E) (classify_key E m i k b) (c, db) = (cst1, Some payload)"
      by (auto split: if_splits)
    moreover have "cst' = cst1 \<and> ((\<exists>e. cached_predictions E payload = Inl e \<and> r = Inl e \<and> au' = au)
       \<or> (\<exists>ps. cached_predictions E payload = Inr ps
            \<and> r = Inr (classification_of (provenance_of m) (rc_correlation_id rc) ps (elapsed_ms E 1) True)
            \<and> au' = record_entry (audit_row rc m ps (elapsed_ms E 1) md True (ie_sha256 E i) ''success'' None) au))"
      using assms Inr m g Some by (cases "cached_predictions E payload") (auto simp: classify_def)
    ultimately show ?thesis using m by (intro hit [of md m payload]) auto
  qed
qed

text \<open>
  C27. The cache is transparent. Suppose everything Redis holds for this service's requests is the
  answer to the request whose key it is filed under (true of an empty store), and the digest
  does not collide on those requests. Then a classification that succeeds returns, cached or not
  and whatever Redis failed to do, exactly the predictions a fresh run of the resolved model
  computes for this image and these options, with that model's provenance; and the store still
  holds only correct answers afterwards.
\<close>

theorem classify_cache_transparent:
  assumes "plain_registry reg" "collision_free E R" "codec_ok E"
    and "redis_ok client view" "cs_redis c = Some client"
    and "coherent E reg R (view db)" "(i, k, b) \<in> R"
    and "classify E cfg reg rc i k v bk b uc ((c, db), au) = (((c', db'), au'), r)"
  shows "coherent E reg R (view db')
    \<and> (\<forall>resp. r = Inr resp \<longrightarrow>
         (\<exists>m. get_for_backend reg classifier_name v bk = Inr m
            \<and> fresh_predictions E m i k b = Inr (cr_predictions resp)
            \<and> cr_provenance resp = provenance_of m))"
  using assms(8)
proof (cases rule: classify_cases)
  case (rejected e)
  then show ?thesis using assms(6) by simp
next
  case (hit md m payload)
  note listed = get_for_backend_listed [OF hit(2)]
  note g = cache_get_view [OF assms(4,5) hit(4)]
  have coh: "coherent E reg R (view db')" using assms(6) g(1) by (rule coherent_subset)
  obtain t where t: "view db (classify_key E m i k b) = Some t" "js_loads (ie_json E) t = Some payload"
    using g(2) by blast
  then obtain ps where ps: "fresh_predictions E m i k b = Inr ps" "payload = predictions_payload ps"
    using assms(6,7) listed unfolding coherent_def by fastforce
  with hit(2,5) coh show ?thesis
    by (auto simp: cached_fresh [OF assms(3) ps(1)] classification_of_def)
next
  case (miss md m cst1)
  note listed = get_for_backend_listed [OF miss(2)]
  obtain c1 db1 where c1: "cst1 = (c1, db1)" by fastforce
  have "cs_redis c1 = Some client \<and> coherent E reg R (view db1)"
  proof (cases uc)
    case True
    obtain f where g: "cache_get (ie_json E) (classify_key E m i k b) (c, db) = ((c1, db1), f)"
      using miss(3) c1 True by (cases "cache_get (ie_json E) (classify_key E m i k b) (c, db)") auto
    have "cs_redis c1 = Some client" using cache_get_client [OF g] assms(5) by simp
    moreover have "coherent E reg R (view db1)"
      using coherent_subset [OF assms(6) cache_get_view(1) [OF assms(4,5) g]] .
    ultimately show ?thesis by simp
  next
    case False
    with miss(3) c1 assms(5,6) show ?thesis by simp
  qed
  note c1' = conjunct1 [OF this] conjunct2 [OF this]
  from classify_fresh_result [OF miss(4)] show ?thesis
  proof (elim disjE exE conjE)
    fix ps assume ps: "fresh_predictions E m i k b = Inr ps"
      "r = Inr (classification_of (provenance_of m) (rc_correlation_id rc) ps (elapsed_ms E 1) False)"
      "(c', db') = (if uc then fst (cache_set (ie_json E) (classify_key E m i k b) (predictions_payload ps) None cst1) else cst1)"
    have "coherent E reg R (view db')"
    proof (cases uc)
      case True
      obtain ok where s: "cache_set (ie_json E) (classify_key E m i k b) (predictions_payload ps) None (c1, db1) = ((c', db'), ok)"
        using ps(3) c1 True by (cases "cache_set (ie_json E) (classify_key E m i k b) (predictions_payload ps) None (c1, db1)") auto
      from cache_set_view(1) [OF assms(4) c1'(1) s] show ?thesis
        using coherent_subset c1'(2)
          coherent_update [OF assms(1-3) c1'(2) listed assms(7) ps(1)] by metis
    next
      case False
      with ps(3) c1 c1'(2) show ?thesis by simp
    qed
    with ps miss(2) show ?thesis by (auto simp: classification_of_def)
  next
    fix e assume "r = Inl e" "(c', db') = cst1"
    with c1 c1'(2) show ?thesis by simp
  qed
qed

text \<open>A working codec for the witnesses: texts are looked up in a table of one entry.\<close>

definition one_codec :: "prediction list \<Rightarrow> json_codec" where
  "one_codec ps =
     \<lparr>js_loads = (\<lambda>s. if s = ''payload'' then Some (predictions_payload ps) else None),
      js_dumps = (\<lambda>v. if v = predictions_payload ps then Some ''payload'' else None)\<rparr>"

definition demo_prediction :: prediction where
  "demo_prediction = \<lparr>pr_label = ''bullfrog'', pr_class_id = 1, pr_wnid = None, pr_probability = None\<rparr>"

definition cached_infer :: "(int \<times> int) infer_env" where
  "cached_infer = demo_infer\<lparr>ie_json := one_codec [demo_prediction]\<rparr>"

definition served_model :: loaded_model where
  "served_model = (demo_model ''v1'')\<lparr>lm_name := classifier_name\<rparr>"

definition demo_registry :: registry where
  "demo_registry = register served_model True empty_registry"

lemma demo_registry_plain: "plain_registry demo_registry"
proof -
  have "well_named served_model"
    by (simp add: well_named_def served_model_def demo_model_def classifier_name_def sep_free_def)
  from registry_ok_register [OF registry_ok_empty this] show ?thesis
    by (simp add: plain_registry_def demo_registry_def list_models_def register_def empty_registry_def
        served_model_def demo_model_def sep_free_def)
qed

lemma cached_infer_parses: "ie_parse_prediction cached_infer (prediction_dump p) = Inr p"
  by (cases p; cases "pr_wnid p"; cases "pr_probability p")
    (simp_all add: cached_infer_def demo_infer_def prediction_dump_def)

lemma cached_infer_codec: "codec_ok cached_infer"
  by (auto simp: codec_ok_def cached_infer_parses) (auto simp: cached_infer_def one_codec_def split: if_splits)

lemma cached_infer_collision_free: "collision_free cached_infer {([1, 2], 1, False)}"
  using show_nat_digits by (force simp: collision_free_def cached_infer_def demo_infer_def
      length_digest_def sep_free_def is_digit_def)

lemma demo_decode:
  assumes "lm_class_names m = [''goldfish'', ''bullfrog'']" "lm_wnids m = []"
  shows "decode_classification cached_infer [0, 1] m 1 False = Inr [demo_prediction]"
proof -
  obtain a b where q: "softmax [0, 1] = [a, b]" by (simp add: softmax_def Let_def)
  have "\<not> softmax [0, 1] ! 1 \<le> softmax [0, 1 :: real] ! 0"
    using softmax_mono_nth [of 1 "[0, 1]" 0] by simp
  then have "a < b" by (simp add: q)
  then have "top_k ref_argpartition ref_argsort [a, b] 1 = ([b], [1])"
    by (simp add: top_k_def ref_argpartition_def ref_argsort_def Let_def upt_rec)
  then show ?thesis
    by (simp add: decode_classification_def cached_infer_def demo_infer_def q label_prediction_def
        make_prediction_def prediction_ok_def assms demo_prediction_def)
qed

lemma demo_fresh:
  "fresh_predictions cached_infer served_model [1, 2] 1 False
     = Inr [demo_prediction]"
proof -
  obtain a where a: "preprocess_image (flat_pil (16, 16)) (default_preprocess 2) [1, 2] = Inr a"
    by (simp add: preprocess_image_def decode_image_def default_preprocess_def resize_short_edge_def
        short_edge_size_def flat_pil_def crop_ratio_def Let_def round_half_even_def)
  have m: "lm_class_names served_model = [''goldfish'', ''bullfrog'']" "lm_wnids served_model = []"
    "lm_image_size served_model = 2" "ie_pil cached_infer = flat_pil (16, 16)"
    "run_model served_model batch = Inr \<lparr>nd_shape = [1, 2], nd_data = [0, 1]\<rparr>" for batch
    by (simp_all add: served_model_def demo_model_def cached_infer_def demo_infer_def run_model_def demo_session_def)
  show ?thesis
    by (simp add: fresh_predictions_def run_batch_def m a stack_batch_def nd_rows_def
        demo_decode [OF m(1,2)] numeral_2_eq_2)
qed

lemma demo_valid:
  "\<exists>md. validate_image_upload (ie_header cached_infer) [1, 2] (max_upload_bytes default_settings)
     (max_image_pixels default_settings) = Inr md"
  by (simp add: cached_infer_def demo_infer_def demo_header_def validate_image_upload_def
      validate_upload_size_def inspect_image_def validate_format_def validate_dimensions_def
      supported_formats_def to_upper_png min_dimension_def max_dimension_def
      default_settings_def im_pixels_def)

lemma demo_resolves: "get_for_backend demo_registry classifier_name None None = Inr served_model"
proof -
  have "lm_name served_model = classifier_name" by (simp add: served_model_def)
  then have "get_model demo_registry classifier_name None = Inr served_model"
    unfolding demo_registry_def using register_get_active [of served_model empty_registry] by simp
  then show ?thesis by (simp add: get_for_backend_def)
qed

definition demo_context :: request_context where
  "demo_context = \<lparr>rc_correlation_id = ''r1'', rc_user_id = None, rc_user_tier = Some ''free'', rc_variant = None\<rparr>"

definition demo_store :: "string \<Rightarrow> string option" where
  "demo_store = [classify_key cached_infer served_model [1, 2] 1 False \<mapsto> ''payload'']"

lemma demo_models: "m \<in> set (list_models demo_registry) \<Longrightarrow> m = served_model"
  by (simp add: demo_registry_def list_models_def register_def empty_registry_def)

lemma demo_coherent: "coherent cached_infer demo_registry {([1, 2], 1, False)} demo_store"
proof -
  have "js_loads (ie_json cached_infer) ''payload'' = Some (predictions_payload [demo_prediction])"
    by (simp add: cached_infer_def one_codec_def)
  then show ?thesis by (auto simp: coherent_def demo_store_def demo_fresh dest!: demo_models split: if_splits)
qed

lemma demo_classify:
  "\<exists>s r. classify cached_infer default_settings demo_registry rc [1, 2] 1 None None False True
     ((cache_init (Some map_redis) 3600, demo_store), audit_init True 2 50) = (s, Inr r)"
proof -
  obtain md where md: "validate_image_upload (ie_header cached_infer) [1, 2] (max_upload_bytes default_settings)
     (max_image_pixels default_settings) = Inr md" using demo_valid by blast
  have g: "\<exists>c'. cache_get (ie_json cached_infer) (classify_key cached_infer served_model [1, 2] 1 False)
      (cache_init (Some map_redis) 3600, demo_store) = (c', Some (predictions_payload [demo_prediction]))"
    by (simp add: cache_get_def cache_enabled_def cache_init_def map_redis_def demo_store_def
        cached_infer_def one_codec_def predictions_payload_def)
  show ?thesis
    using md g
    by (auto simp: classify_def demo_resolves cached_fresh [OF cached_infer_codec demo_fresh])
qed

theorem classify_cache_transparent_witness:
  "\<exists>c' db' au' r. classify cached_infer default_settings demo_registry demo_context [1, 2] 1 None None False True
     ((cache_init (Some map_redis) 3600, demo_store), audit_init True 2 50) = (((c', db'), au'), Inr r)
     \<and> cr_predictions r = [demo_prediction]"
proof -
  obtain c' db' au' r where e: "classify cached_infer default_settings demo_registry demo_context [1, 2] 1 None None False True
     ((cache_init (Some map_redis) 3600, demo_store), audit_init True 2 50) = (((c', db'), au'), Inr r)"
    using demo_classify by fastforce
  have "cs_redis (cache_init (Some map_redis) 3600) = Some map_redis" by (simp add: cache_init_def)
  from classify_cache_transparent [OF demo_registry_plain cached_infer_collision_free cached_infer_codec
      map_redis_ok this demo_coherent _ e]
  have "cr_predictions r = [demo_prediction]" using demo_resolves demo_fresh by auto
  with e show ?thesis by blast
qed

section \<open>What the audit trail records\<close>

text \<open>
  C28. One audit record per attempt, except where decoding fails. A request rejected before a
  model is resolved queues nothing. After that, a successful answer queues exactly one record
  marked success, with the request's identity, the resolved model's provenance, the digest of
  the upload and the top prediction of the answer; a failure to preprocess or run queues exactly
  one marked failure with the error's code. An error raised after the model ran (a label index
  out of range, a malformed cached payload) leaves no record at all, although failures during
  inference are documented as recorded.
\<close>

theorem classify_audit_trail:
  assumes "classify E cfg reg rc i k v bk b uc ((c, db), au) = ((cst', au'), r)"
  shows "case r of
      Inr resp \<Rightarrow> \<exists>m md.
        get_for_backend reg classifier_name v bk = Inr m
        \<and> au' = record_entry (audit_row rc m (cr_predictions resp) (cr_inference_time_ms resp) md
                   (cr_cached resp) (ie_sha256 E i) ''success'' None) au
        \<and> cr_provenance resp = provenance_of m \<and> cr_correlation_id resp = rc_correlation_id rc
    | Inl e \<Rightarrow>
        (\<exists>m md. get_for_backend reg classifier_name v bk = Inr m \<and> run_batch E m [i] = Inl e
             \<and> au' = record_entry (audit_row rc m [] (elapsed_ms E 1) md False (ie_sha256 E i)
                        ''failure'' (Some (audit_error_code e))) au)
        \<or> (au' = au
            \<and> (validate_image_upload (ie_header E) i (max_upload_bytes cfg) (max_image_pixels cfg) = Inl e
               \<or> get_for_backend reg classifier_name v bk = Inl e
               \<or> (\<exists>m. get_for_backend reg classifier_name v bk = Inr m
                    \<and> ((\<exists>payload. cached_predictions E payload = Inl e)
                       \<or> (\<exists>out. run_batch E m [i] = Inr out \<and> fresh_predictions E m i k b = Inl e)))))"
  using assms
proof (cases rule: classify_cases)
  case (rejected e)
  then show ?thesis by (auto simp: res_bind_Inl_iff)
next
  case (hit md m payload)
  then show ?thesis by (auto simp: classification_of_def)
next
  case (miss md m cst1)
  from classify_fresh_result [OF miss(4)] show ?thesis
  proof (elim disjE exE conjE)
    fix ps assume "r = Inr (classification_of (provenance_of m) (rc_correlation_id rc) ps (elapsed_ms E 1) False)"
      "au' = record_entry (audit_row rc m ps (elapsed_ms E 1) md False (ie_sha256 E i) ''success'' None) au"
    with miss(2) show ?thesis by (auto simp: classification_of_def)
  next
    fix e assume f: "fresh_predictions E m i k b = Inl e" "r = Inl e"
      "au' = (case run_batch E m [i] of
                   Inl e \<Rightarrow> record_entry (audit_row rc m [] (elapsed_ms E 1) md False (ie_sha256 E i)
                              ''failure'' (Some (audit_error_code e))) au
                 | Inr _ \<Rightarrow> au)"
    show ?thesis
    proof (cases "run_batch E m [i]")
      case (Inl e')
      with f(1) have "e' = e" by (simp add: fresh_predictions_def)
      with f Inl miss(2) show ?thesis by auto
    next
      case (Inr out)
      with f miss(2) show ?thesis by auto
    qed
  qed
qed

theorem classify_audit_trail_witness:
  "\<exists>s au' r m md. classify cached_infer default_settings demo_registry demo_context [1, 2] 1 None None False True
     ((cache_init (Some map_redis) 3600, demo_store), audit_init True 2 50) = ((s, au'), Inr r)
     \<and> au' = record_entry (audit_row demo_context m (cr_predictions r) (cr_inference_time_ms r) md (cr_cached r)
              (ie_sha256 cached_infer [1, 2]) ''success'' None) (audit_init True 2 50)"
proof -
  obtain s au' r where e: "classify cached_infer default_settings demo_registry demo_context [1, 2] 1 None None False True
     ((cache_init (Some map_redis) 3600, demo_store), audit_init True 2 50) = ((s, au'), Inr r)"
    using demo_classify by fastforce
  from classify_audit_trail [OF e] e show ?thesis by fastforce
qed

section \<open>Batches\<close>

text \<open>What batching relies on of the exported graph: each row of the output depends only on the
  same row of the input.\<close>

definition row_wise :: "loaded_model \<Rightarrow> (chw \<Rightarrow> real list) \<Rightarrow> bool" where
  "row_wise m f \<longleftrightarrow>
     (\<forall>batch. batch \<noteq> [] \<longrightarrow> (\<exists>out. run_model m batch = Inr out \<and> nd_rows out = Inr (map f batch)))"

lemma stack_batch_Inr: "stack_batch arrays = Inr batch \<Longrightarrow> batch = arrays"
  by (auto simp: stack_batch_def split: list.splits if_splits)

lemma classify_many_Inr:
  assumes "row_wise m f" "get_classifier reg v = Inr m"
    and r: "classify_many E cfg reg images k v b = Inr pss" and ne: "images \<noteq> []"
  shows "length pss = length images" and "int (length images) \<le> max_batch_size cfg"
    and "i < length images \<Longrightarrow> fresh_predictions E m (images ! i) k b = Inr (pss ! i)"
    and "i < length images \<Longrightarrow> \<exists>md. validate_image_upload (ie_header E) (images ! i)
           (max_upload_bytes cfg) (max_image_pixels cfg) = Inr md"
proof -
  let ?pre = "preprocess_image (ie_pil E) (default_preprocess (lm_image_size m))"
  from r ne assms(2) obtain mds out arrays rows where
    v: "map_res (\<lambda>i. validate_image_upload (ie_header E) i (max_upload_bytes cfg) (max_image_pixels cfg)) images = Inr mds"
    and p: "map_res ?pre images = Inr arrays" and s: "stack_batch arrays = Inr arrays"
    and o': "run_model m arrays = Inr out" "nd_rows out = Inr rows"
    and d: "map_res (\<lambda>row. decode_classification E row m k b) rows = Inr pss"
    and lim: "int (length images) \<le> max_batch_size cfg"
    by (auto simp: classify_many_def run_batch_def res_bind_Inr_iff split: if_splits)
      (metis stack_batch_Inr)
  have len: "length arrays = length images" using map_res_Inr_length [OF p] .
  have rows: "rows = map f arrays"
  proof -
    have "arrays \<noteq> []" using len ne by auto
    with assms(1) obtain out2 where "run_model m arrays = Inr out2" "nd_rows out2 = Inr (map f arrays)"
      unfolding row_wise_def by blast
    with o' show ?thesis by simp
  qed
  have lp: "length pss = length images" using map_res_Inr_length [OF d] rows len by simp
  show "length pss = length images" by (rule lp)
  show "int (length images) \<le> max_batch_size cfg" by (rule lim)
  show "\<exists>md. validate_image_upload (ie_header E) (images ! i) (max_upload_bytes cfg)
                         (max_image_pixels cfg) = Inr md" if "i < length images"
    using map_res_Inr_nth [OF v that] by blast
  assume i: "i < length images"
  have a: "?pre (images ! i) = Inr (arrays ! i)" using map_res_Inr_nth [OF p i] .
  obtain out' where single: "run_model m [arrays ! i] = Inr out'" "nd_rows out' = Inr [f (arrays ! i)]"
    using assms(1) [unfolded row_wise_def, rule_format, of "[arrays ! i]"] by auto
  have "decode_classification E (f (arrays ! i)) m k b = Inr (pss ! i)"
    using map_res_Inr_nth [OF d, of i] i len by (simp add: rows)
  then show "fresh_predictions E m (images ! i) k b = Inr (pss ! i)"
    using a single by (simp add: fresh_predictions_def run_batch_def stack_batch_def)
qed

text \<open>
  One forward pass over a batch gives each image the answer it would have got alone: when
  \<open>classify_many\<close> returns, the resolved classifier is the one used, there is one list of
  predictions per image in order, every image passed upload validation, the batch was within the
  configured limit, and each list is what a single classification of that image computes. A
  batch over the limit is refused before anything is validated or run.
\<close>

theorem classify_many_pointwise:
  assumes "row_wise m f" "get_classifier reg v = Inr m"
  shows "(\<forall>pss. classify_many E cfg reg images k v b = Inr pss \<longrightarrow>
            length pss = length images
            \<and> (images = [] \<or> int (length images) \<le> max_batch_size cfg)
            \<and> (\<forall>i < length images. fresh_predictions E m (images ! i) k b = Inr (pss ! i)
                 \<and> (\<exists>md. validate_image_upload (ie_header E) (images ! i) (max_upload_bytes cfg)
                           (max_image_pixels cfg) = Inr md)))
         \<and> (images \<noteq> [] \<and> max_batch_size cfg < int (length images) \<longrightarrow>
              (\<exists>e. classify_many E cfg reg images k v b = Inl (ApiExc e) \<and> err_class e = BatchTooLargeError))"
proof (intro conjI allI impI)
  fix pss assume r: "classify_many E cfg reg images k v b = Inr pss"
  show "length pss = length images"
    using classify_many_Inr(1) [OF assms r] r by (cases "images = []") (auto simp: classify_many_def)
  show "images = [] \<or> int (length images) \<le> max_batch_size cfg"
    using classify_many_Inr(2) [OF assms r] by blast
  fix i assume i: "i < length images"
  then have ne: "images \<noteq> []" by auto
  show "fresh_predictions E m (images ! i) k b = Inr (pss ! i)"
    by (rule classify_many_Inr(3) [OF assms r ne i])
  show "\<exists>md. validate_image_upload (ie_header E) (images ! i) (max_upload_bytes cfg)
                           (max_image_pixels cfg) = Inr md"
    by (rule classify_many_Inr(4) [OF assms r ne i])
next
  assume "images \<noteq> [] \<and> max_batch_size cfg < int (length images)"
  then show "\<exists>e. classify_many E cfg reg images k v b = Inl (ApiExc e) \<and> err_class e = BatchTooLargeError"
    by (simp add: classify_many_def)
qed

definition row_session :: session where
  "row_session = \<lparr>sess_providers = [cpu_provider], sess_inputs = [''pixel_values''],
     sess_run = (\<lambda>n batch. Inr [\<lparr>nd_shape = [length batch, 2], nd_data = concat (map (\<lambda>_. [0, 1]) batch)\<rparr>])\<rparr>"

definition row_model :: loaded_model where
  "row_model = served_model\<lparr>lm_session := row_session\<rparr>"

lemma rows_of_const: "rows_of (length xs) 2 (concat (map (\<lambda>_. [0, 1]) xs)) = map (\<lambda>_. [0, 1]) xs"
  by (induction xs) simp_all

lemma row_model_row_wise: "row_wise row_model (\<lambda>_. [0, 1])"
  by (simp add: row_wise_def run_model_def row_model_def row_session_def nd_rows_def rows_of_const)

theorem classify_many_pointwise_witness:
  "\<exists>e. classify_many cached_infer (default_settings\<lparr>max_batch_size := 1\<rparr>)
      (register row_model True empty_registry) [[1, 2], [1, 2, 3]] 1 None False = Inl (ApiExc e)
    \<and> err_class e = BatchTooLargeError"
proof -
  have "lm_name row_model = classifier_name" by (simp add: row_model_def served_model_def)
  then have "get_classifier (register row_model True empty_registry) None = Inr row_model"
    unfolding get_classifier_def using register_get_active [of row_model empty_registry] by simp
  from classify_many_pointwise [OF row_model_row_wise this,
      of cached_infer "default_settings\<lparr>max_batch_size := 1\<rparr>" "[[1, 2], [1, 2, 3]]" 1 False]
  show ?thesis by simp
qed

end
