(* ===== verification/Detection_Service.thy ===== *)
theory Detection_Service
  imports Inference_Service
begin

text \<open>
  Object detection (\<open>api/services/detection_service.py\<close>). The detector's two outputs are score
  rows, one per query, and boxes; NumPy's \<open>argsort\<close> is the parameter of the image-processing
  model. An empty class axis, on which NumPy raises, cannot come out of the exported graph and is
  an error here.
\<close>

text \<open>\<open>argmax\<close> and \<open>max\<close> along the class axis: the first index of a maximal score.\<close>

fun argmax_from :: "nat \<Rightarrow> nat \<Rightarrow> real \<Rightarrow> real list \<Rightarrow> nat" where
  "argmax_from i best m [] = best"
| "argmax_from i best m (x # xs) =
     (if m < x then argmax_from (Suc i) i x xs else argmax_from (Suc i) best m xs)"

definition argmax :: "real list \<Rightarrow> nat" where
  "argmax xs = (case xs of [] \<Rightarrow> 0 | x # r \<Rightarrow> argmax_from 1 0 x r)"

definition class_label :: "string list \<Rightarrow> nat \<Rightarrow> string" where
  "class_label names class_id = (if class_id < length names then names ! class_id else show_nat class_id)"

text \<open>\<open>keep[np.argsort(-best_score[keep])][:max_detections]\<close>\<close>

definition kept_queries :: "argsort_fn \<Rightarrow> real list list \<Rightarrow> real \<Rightarrow> int \<Rightarrow> nat list" where
  "kept_queries argsort scores threshold max_detections =
     (let best_score = map list_max scores;
          keep = filter (\<lambda>q. threshold \<le> best_score ! q) [0..<length scores];
          order = argsort (map (\<lambda>q. - (best_score ! q)) keep)
      in take (nat max_detections) (map (nth keep) order))"

definition decode_detections ::
  "argsort_fn \<Rightarrow> real list list \<Rightarrow> (real \<times> real \<times> real \<times> real) list \<Rightarrow> loaded_model \<Rightarrow> int \<Rightarrow> int \<Rightarrow> real \<Rightarrow> int
   \<Rightarrow> detection list result" where
  "decode_detections argsort scores boxes model width height threshold max_detections =
     (if list_ex (\<lambda>s. s = []) scores
      then Inl (PyExc ''ValueError'' ''attempt to get argmax of an empty sequence'')
      else
      (let keep = kept_queries argsort scores threshold max_detections in
       if list_ex (\<lambda>q. length boxes \<le> q) keep then Inl index_error
       else
       map_res (\<lambda>(q, b).
         make_detection
           \<lparr>dt_label = class_label (lm_class_names model) (argmax (scores ! q)),
            dt_class_id = int (argmax (scores ! q)),
            dt_confidence = py_round 6 (list_max (scores ! q)),
            dt_box = \<lparr>bb_x_min = py_round 2 (box_x0 b), bb_y_min = py_round 2 (box_y0 b),
                      bb_x_max = py_round 2 (box_x1 b), bb_y_max = py_round 2 (box_y1 b)\<rparr>\<rparr>)
         (zip keep (boxes_to_absolute (map (nth boxes) keep) width height))))"

text \<open>The detector's session result, as score rows and boxes of the first batch element; a graph
  with another number of outputs fails the tuple assignment.\<close>

definition detector_rows :: "ndarray \<Rightarrow> real list list result" where
  "detector_rows a =
     (case nd_shape a of
        [n, q, c] \<Rightarrow> if n = 0 then Inl index_error else Inr (rows_of q c (nd_data a))
      | _ \<Rightarrow> Inl index_error)"

fun quad :: "real list \<Rightarrow> (real \<times> real \<times> real \<times> real) result" where
  "quad [a, b, c, d] = Inr (a, b, c, d)"
| "quad _ = Inl index_error"

definition run_detector ::
  "loaded_model \<Rightarrow> chw \<Rightarrow> (real list list \<times> (real \<times> real \<times> real \<times> real) list) result" where
  "run_detector model array =
     res_bind (run_multi model [array]) (\<lambda>outputs.
     case outputs of
       [scores, boxes] \<Rightarrow>
         res_bind (detector_rows scores) (\<lambda>srows.
         res_bind (detector_rows boxes) (\<lambda>brows.
         res_bind (map_res quad brows) (\<lambda>bs. Inr (srows, bs))))
     | _ \<Rightarrow> Inl (PyExc ''ValueError'' ''not enough values to unpack''))"

definition detect ::
  "'i infer_env \<Rightarrow> settings \<Rightarrow> registry \<Rightarrow> bytes \<Rightarrow> string \<Rightarrow> real \<Rightarrow> int \<Rightarrow> string option \<Rightarrow> detection_response result" where
  "detect E cfg reg image_bytes correlation_id threshold max_detections model_version =
     res_bind (validate_image_upload (ie_header E) image_bytes (max_upload_bytes cfg) (max_image_pixels cfg)) (\<lambda>_.
     res_bind (get_detector reg model_version) (\<lambda>model.
     res_bind (preprocess_for_detection (ie_pil E) image_bytes (lm_image_size model)) (\<lambda>(array, width, height).
     res_bind (run_detector model array) (\<lambda>(scores, boxes).
     res_bind (decode_detections (ie_argsort E) scores boxes model width height threshold max_detections) (\<lambda>ds.
     Inr \<lparr>dr_detections = ds, dr_image_width = width, dr_image_height = height,
          dr_inference_time_ms = elapsed_ms E 1, dr_correlation_id = correlation_id,
          dr_provenance = provenance_of model, dr_cached = False\<rparr>)))))"

section \<open>Facts\<close>

lemma argmax_from_correct:
  "best < i \<Longrightarrow> argmax_from i best m xs < i + length xs
   \<and> (argmax_from i best m xs = best \<and> (\<forall>x \<in> set xs. x \<le> m)
      \<or> (i \<le> argmax_from i best m xs \<and> m < xs ! (argmax_from i best m xs - i)
          \<and> (\<forall>x \<in> set xs. x \<le> xs ! (argmax_from i best m xs - i))))"
proof (induction xs arbitrary: i best m)
  case Nil
  then show ?case by simp
next
  case (Cons x xs)
  show ?case
  proof (cases "m < x")
    case True
    let ?r = "argmax_from (Suc i) i x xs"
    have e: "argmax_from i best m (x # xs) = ?r" using True by simp
    from Cons.IH [of i "Suc i" x] consider
      "?r = i" "\<forall>y \<in> set xs. y \<le> x" | "Suc i \<le> ?r" "x < xs ! (?r - Suc i)" "\<forall>y \<in> set xs. y \<le> xs ! (?r - Suc i)"
      by blast
    then show ?thesis
    proof cases
      case 1
      then show ?thesis unfolding e using True by auto
    next
      case 2
      then have "(x # xs) ! (?r - i) = xs ! (?r - Suc i)" by (simp add: nth_Cons' Suc_diff_le)
      with 2 True Cons.IH [of i "Suc i" x] show ?thesis unfolding e by auto
    qed
  next
    case False
    let ?r = "argmax_from (Suc i) best m xs"
    have e: "argmax_from i best m (x # xs) = ?r" using False by simp
    from Cons.IH [of best "Suc i" m] Cons.prems consider
      "?r = best" "\<forall>y \<in> set xs. y \<le> m" | "Suc i \<le> ?r" "m < xs ! (?r - Suc i)" "\<forall>y \<in> set xs. y \<le> xs ! (?r - Suc i)"
      by auto
    then show ?thesis
    proof cases
      case 1
      then show ?thesis unfolding e using False Cons.prems by auto
    next
      case 2
      then have "(x # xs) ! (?r - i) = xs ! (?r - Suc i)" by (simp add: nth_Cons' Suc_diff_le)
      with 2 False Cons.IH [of best "Suc i" m] Cons.prems show ?thesis unfolding e by auto
    qed
  qed
qed

lemma argmax_correct: "xs \<noteq> [] \<Longrightarrow> argmax xs < length xs \<and> (\<forall>x \<in> set xs. x \<le> xs ! argmax xs)"
proof (cases xs)
  case (Cons x r)
  assume "xs \<noteq> []"
  have "0 < (1::nat)" by simp
  from argmax_from_correct [OF this, of x r] Cons show ?thesis
    by (auto simp: argmax_def nth_Cons')
qed simp

lemma list_max_in: "xs \<noteq> [] \<Longrightarrow> list_max xs \<in> set xs"
  by (induction xs rule: list_max.induct) (auto simp: max_def)

lemma argmax_list_max: "xs \<noteq> [] \<Longrightarrow> xs ! argmax xs = list_max xs"
  using argmax_correct [of xs] list_max_ge [of _ xs] list_max_in [of xs]
  by (meson antisym nth_mem)

lemma sorted_wrt_take_drop:
  "sorted_wrt P xs \<Longrightarrow> a \<in> set (take n xs) \<Longrightarrow> b \<in> set (drop n xs) \<Longrightarrow> P a b"
  by (metis append_take_drop_id sorted_wrt_append)

lemma kept_queries_spec:
  fixes scores threshold
  defines "best \<equiv> \<lambda>q. list_max (scores ! q)"
    and "over \<equiv> filter (\<lambda>q. threshold \<le> list_max (scores ! q)) [0..<length scores]"
  assumes "argsort_ok as"
  shows "distinct (kept_queries as scores threshold k)"
    and "set (kept_queries as scores threshold k) \<subseteq> set over"
    and "length (kept_queries as scores threshold k) = min (nat k) (length over)"
    and "sorted_wrt (\<lambda>p q. best q \<le> best p) (kept_queries as scores threshold k)"
    and "p \<in> set (kept_queries as scores threshold k) \<Longrightarrow> q \<in> set over \<Longrightarrow>
         q \<notin> set (kept_queries as scores threshold k) \<Longrightarrow> best q \<le> best p"
proof -
  let ?keep = "filter (\<lambda>q. threshold \<le> map list_max scores ! q) [0..<length scores]"
  have keep: "?keep = over" unfolding over_def by (rule filter_cong) auto
  let ?negs = "map (\<lambda>q. - (map list_max scores ! q)) ?keep"
  define all where "all = map (nth over) (as ?negs)"
  have kq: "kept_queries as scores threshold k = take (nat k) all"
    by (simp only: kept_queries_def Let_def all_def keep)
  have ms: "mset (as ?negs) = mset [0..<length over]" and so: "sorted (map (nth ?negs) (as ?negs))"
    using assms(3) unfolding argsort_ok_def by (simp_all add: keep)
  have idx: "set (as ?negs) = {0..<length over}" using mset_eq_setD [OF ms] by simp
  have "mset all = mset (map (nth over) [0..<length over])"
    unfolding all_def by (simp only: mset_map ms)
  then have all: "mset all = mset over" by (simp add: map_nth)
  have dist: "distinct all" using all by (metis distinct_filter distinct_upt mset_eq_imp_distinct_iff over_def)
  have negs: "nth ?negs i = - best (over ! i)" if "i < length over" for i
  proof -
    have "over ! i < length scores" using that nth_mem [of i over] by (auto simp: over_def)
    then show ?thesis using that by (simp add: keep best_def)
  qed
  have "sorted_wrt (\<lambda>i j. - best (over ! i) \<le> - best (over ! j)) (as ?negs)"
  proof (rule sorted_wrt_mono_rel)
    show "sorted_wrt (\<lambda>i j. nth ?negs i \<le> nth ?negs j) (as ?negs)"
      using so by (simp only: sorted_map)
  next
    fix i j assume "i \<in> set (as ?negs)" "j \<in> set (as ?negs)" "nth ?negs i \<le> nth ?negs j"
    then show "- best (over ! i) \<le> - best (over ! j)" using idx negs [of i] negs [of j] by simp
  qed
  then have sall: "sorted_wrt (\<lambda>p q. best q \<le> best p) all"
    unfolding all_def sorted_wrt_map by simp
  have len: "length all = length over" using mset_eq_length [OF all] .
  show "distinct (kept_queries as scores threshold k)" unfolding kq using dist by simp
  show "set (kept_queries as scores threshold k) \<subseteq> set over"
    unfolding kq using mset_eq_setD [OF all] by (metis set_take_subset)
  show "length (kept_queries as scores threshold k) = min (nat k) (length over)"
    unfolding kq by (simp add: len min.commute)
  show "sorted_wrt (\<lambda>p q. best q \<le> best p) (kept_queries as scores threshold k)"
    unfolding kq using sall by (rule sorted_wrt_take)
  show "best q \<le> best p" if "p \<in> set (kept_queries as scores threshold k)" "q \<in> set over"
      "q \<notin> set (kept_queries as scores threshold k)"
  proof -
    have "q \<in> set (drop (nat k) all)"
      using that(2,3) mset_eq_setD [OF all] unfolding kq by (metis append_take_drop_id set_append Un_iff)
    with that(1) sorted_wrt_take_drop [OF sall] show ?thesis unfolding kq by blast
  qed
qed

lemma np_clip_bounds: "lo \<le> hi \<Longrightarrow> lo \<le> np_clip x lo hi \<and> np_clip x lo hi \<le> hi"
  by (auto simp: np_clip_def)

lemma box_in_image:
  "0 \<le> W \<Longrightarrow> 0 \<le> H \<Longrightarrow> b = box_to_absolute W H q \<Longrightarrow>
     0 \<le> box_x0 b \<and> box_x0 b \<le> of_int W \<and> 0 \<le> box_x1 b \<and> box_x1 b \<le> of_int W
     \<and> 0 \<le> box_y0 b \<and> box_y0 b \<le> of_int H \<and> 0 \<le> box_y1 b \<and> box_y1 b \<le> of_int H"
  by (cases q) (auto simp: np_clip_bounds)

text \<open>One decoded query: its best class under its label, its best score, and its box.\<close>

definition query_detection ::
  "loaded_model \<Rightarrow> int \<Rightarrow> int \<Rightarrow> real list \<Rightarrow> real \<times> real \<times> real \<times> real \<Rightarrow> detection" where
  "query_detection model W H s bx =
     (let b = box_to_absolute W H bx in
      \<lparr>dt_label = class_label (lm_class_names model) (argmax s), dt_class_id = int (argmax s),
       dt_confidence = py_round 6 (list_max s),
       dt_box = \<lparr>bb_x_min = py_round 2 (box_x0 b), bb_y_min = py_round 2 (box_y0 b),
                 bb_x_max = py_round 2 (box_x1 b), bb_y_max = py_round 2 (box_y1 b)\<rparr>\<rparr>)"

lemma query_detection_ok:
  assumes "0 \<le> W" "0 \<le> H" "0 \<le> list_max s" "list_max s \<le> 1"
  shows "detection_ok (query_detection model W H s bx)
    \<and> bb_x_max (dt_box (query_detection model W H s bx)) \<le> of_int W
    \<and> bb_y_max (dt_box (query_detection model W H s bx)) \<le> of_int H"
proof -
  note b = box_in_image [OF assms(1,2) refl, of bx]
  note r = py_round_between [of 0 _ W 2] py_round_between [of 0 _ H 2] py_round_between [of 0 _ 1 6]
  show ?thesis
    using b r(1) [of "box_x0 (box_to_absolute W H bx)"] r(1) [of "box_x1 (box_to_absolute W H bx)"]
      r(2) [of "box_y0 (box_to_absolute W H bx)"] r(2) [of "box_y1 (box_to_absolute W H bx)"]
      r(3) [of "list_max s"] assms(3,4)
    by (simp add: detection_ok_def query_detection_def Let_def)
qed

text \<open>
  C38. Detection decoding. For scores in \<open>[0, 1]\<close> and a box per query, decoding never fails, and
  what it returns comes from distinct queries whose best score reaches the threshold: all of
  them if the cap allows, otherwise as many as the cap, most confident first, no query left out
  scoring above one returned. Each detection carries its query's best class once (with its own
  label), that score, and a box inside the uploaded image.
\<close>

theorem decode_detections_correct:
  fixes scores threshold
  defines "best \<equiv> \<lambda>q. list_max (scores ! q)"
  assumes "argsort_ok as" "\<forall>s \<in> set scores. s \<noteq> [] \<and> (\<forall>x \<in> set s. 0 \<le> x \<and> x \<le> 1)"
    and "length scores \<le> length boxes" "0 \<le> W" "0 \<le> H"
  shows "\<exists>ds qs. decode_detections as scores boxes model W H threshold k = Inr ds
    \<and> length ds = length qs \<and> distinct qs
    \<and> set qs \<subseteq> {q. q < length scores \<and> threshold \<le> best q}
    \<and> length qs = min (nat k) (card {q. q < length scores \<and> threshold \<le> best q})
    \<and> sorted_wrt (\<lambda>p q. best q \<le> best p) qs
    \<and> (\<forall>p \<in> set qs. \<forall>q < length scores. threshold \<le> best q \<and> q \<notin> set qs \<longrightarrow> best q \<le> best p)
    \<and> (\<forall>i < length ds. ds ! i = query_detection model W H (scores ! (qs ! i)) (boxes ! (qs ! i))
         \<and> scores ! (qs ! i) ! argmax (scores ! (qs ! i)) = best (qs ! i)
         \<and> detection_ok (ds ! i)
         \<and> bb_x_max (dt_box (ds ! i)) \<le> of_int W \<and> bb_y_max (dt_box (ds ! i)) \<le> of_int H)"
proof -
  let ?qs = "kept_queries as scores threshold k"
  let ?over = "filter (\<lambda>q. threshold \<le> list_max (scores ! q)) [0..<length scores]"
  note spec = kept_queries_spec [OF assms(2), where scores = scores and threshold = threshold and k = k]
  have over: "set ?over = {q. q < length scores \<and> threshold \<le> best q}" by (auto simp: best_def)
  have card: "length ?over = card {q. q < length scores \<and> threshold \<le> best q}"
    using distinct_card [of ?over] over by simp
  have q: "q < length scores" if "q \<in> set ?qs" for q using spec(2) that by auto
  have ok: "detection_ok (query_detection model W H (scores ! q) bx)
      \<and> bb_x_max (dt_box (query_detection model W H (scores ! q) bx)) \<le> of_int W
      \<and> bb_y_max (dt_box (query_detection model W H (scores ! q) bx)) \<le> of_int H
      \<and> scores ! q ! argmax (scores ! q) = best q" if "q \<in> set ?qs" for q bx
  proof -
    have s: "scores ! q \<in> set scores" using q [OF that] by simp
    then have "scores ! q \<noteq> []" using assms(3) by blast
    moreover from this have "list_max (scores ! q) \<in> set (scores ! q)" by (rule list_max_in)
    ultimately show ?thesis
      using s assms(3) query_detection_ok [OF assms(5,6)] argmax_list_max by (simp add: best_def)
  qed
  let ?f = "\<lambda>q. query_detection model W H (scores ! q) (boxes ! q)"
  have "map_res (\<lambda>(q, b). make_detection
           \<lparr>dt_label = class_label (lm_class_names model) (argmax (scores ! q)),
            dt_class_id = int (argmax (scores ! q)),
            dt_confidence = py_round 6 (list_max (scores ! q)),
            dt_box = \<lparr>bb_x_min = py_round 2 (box_x0 b), bb_y_min = py_round 2 (box_y0 b),
                      bb_x_max = py_round 2 (box_x1 b), bb_y_max = py_round 2 (box_y1 b)\<rparr>\<rparr>)
         (map (\<lambda>q. (q, box_to_absolute W H (boxes ! q))) qs) = Inr (map ?f qs)" if "set qs \<subseteq> set ?qs" for qs
    using that ok by (induction qs) (auto simp: make_detection_def query_detection_def Let_def)
  moreover have "zip ?qs (boxes_to_absolute (map (nth boxes) ?qs) W H)
      = map (\<lambda>q. (q, box_to_absolute W H (boxes ! q))) ?qs"
    by (simp add: boxes_to_absolute_def zip_map2 zip_same_conv_map)
  moreover have "\<not> list_ex (\<lambda>s. s = []) scores" using assms(3) by (auto simp: list_ex_iff)
  moreover have "\<not> list_ex (\<lambda>q. length boxes \<le> q) ?qs" using q assms(4) by (force simp: list_ex_iff)
  ultimately have dec: "decode_detections as scores boxes model W H threshold k = Inr (map ?f ?qs)"
    by (simp add: decode_detections_def)
  show ?thesis
    using dec spec(1,3,4) over card q ok spec(2) spec(5)
    by (intro exI [of _ "map ?f ?qs"] exI [of _ ?qs]) (auto simp: best_def)
qed

theorem decode_detections_correct_witness:
  "\<exists>ds. decode_detections ref_argsort [[1/4, 3/4], [1/8, 1/8]] [(1/2, 1/2, 1, 1), (1/2, 1/2, 1, 1)]
           (demo_model ''v1'') 64 64 (1/2) 5 = Inr ds \<and> length ds = 1"
proof -
  have one: "{q. q < length [[1/4, 3/4 :: real], [1/8, 1/8]] \<and> (1/2 :: real) \<le> list_max ([[1/4, 3/4], [1/8, 1/8]] ! q)} = {0}"
    by (auto simp: less_Suc_eq numeral_2_eq_2)
  from decode_detections_correct [OF ref_argsort_ok, where scores = "[[1/4, 3/4], [1/8, 1/8]]"
      and boxes = "[(1/2, 1/2, 1, 1), (1/2, 1/2, 1, 1)]" and W = 64 and H = 64 and threshold = "1/2"
      and model = "demo_model ''v1''" and k = 5]
  show ?thesis unfolding one by auto
qed

end
