(* ===== verification/Similarity_Service.thy ===== *)
theory Similarity_Service
  imports Inference_Service
begin

text \<open>
  Image similarity search (\<open>api/services/similarity_service.py\<close>): loading the index with its
  manifest, and the nearest-neighbour query. FAISS is a parameter: \<open>fx_search\<close> takes the query
  rows and the number of neighbours and returns the score rows and the row numbers.
\<close>

record faiss_index =
  fx_ntotal :: int
  fx_search :: "real list list \<Rightarrow> int \<Rightarrow> real list list \<times> int list list"

text \<open>\<open>json.loads\<close> of the manifest, a missing key being \<open>None\<close>.\<close>

record manifest_file =
  mf_labels :: "int list option"
  mf_paths :: "string list option"

record index_files =
  xf_exists :: "path \<Rightarrow> bool"
  xf_index :: "path \<Rightarrow> faiss_index result"
  xf_manifest :: "path \<Rightarrow> manifest_file result"
  xf_metadata :: "path \<Rightarrow> pyval result"

record similarity_index =
  sx_index :: faiss_index
  sx_labels :: "int list"
  sx_paths :: "string list"
  sx_metadata :: pyval

definition index_size :: "similarity_index \<Rightarrow> int" where
  "index_size ix = fx_ntotal (sx_index ix)"

definition required :: "string \<Rightarrow> 'a option \<Rightarrow> 'a result" where
  "required key v = (case v of None \<Rightarrow> Inl (key_error key) | Some x \<Rightarrow> Inr x)"

definition similarity_load :: "index_files \<Rightarrow> path \<Rightarrow> similarity_index result" where
  "similarity_load F artifacts =
     (let index_path = artifacts @ [''similarity.index''];
          manifest_path = artifacts @ [''similarity_manifest.json''];
          metadata_path = artifacts @ [''similarity_metadata.json''];
          missing = filter (\<lambda>p. \<not> xf_exists F p) [index_path, manifest_path, metadata_path]
      in
      if missing \<noteq> []
      then raise_api ModelUnavailableError
             ''Similarity index not found. Build it with `python scripts/build_similarity_index.py`.''
             [(''missing'', PList (map (\<lambda>p. PStr (join ''/'' p)) missing))]
      else
        res_bind (xf_index F index_path) (\<lambda>index.
        res_bind (xf_manifest F manifest_path) (\<lambda>manifest.
        res_bind (xf_metadata F metadata_path) (\<lambda>metadata.
        res_bind (required ''labels'' (mf_labels manifest)) (\<lambda>labels.
        if fx_ntotal index \<noteq> int (length labels)
        then raise_api ModelUnavailableError
               (''Similarity index has '' @ show_int (fx_ntotal index) @ '' vectors but the manifest describes ''
                @ show_nat (length labels) @ ''. They are out of sync.'') []
        else
          res_bind (required ''paths'' (mf_paths manifest)) (\<lambda>paths.
          Inr \<lparr>sx_index = index, sx_labels = labels, sx_paths = paths, sx_metadata = metadata\<rparr>))))))"

text \<open>Python's indexing: a negative index counts from the end.\<close>

definition py_nth :: "'a list \<Rightarrow> int \<Rightarrow> 'a result" where
  "py_nth xs i =
     (let n = int (length xs) in
      if 0 \<le> i \<and> i < n then Inr (xs ! nat i)
      else if - n \<le> i \<and> i < 0 then Inr (xs ! nat (n + i))
      else Inl index_error)"

definition class_name_of :: "string list \<Rightarrow> int \<Rightarrow> string result" where
  "class_name_of class_names label_index =
     (if label_index < int (length class_names) then py_nth class_names label_index
      else Inr (show_int label_index))"

text \<open>The loop of \<open>find_similar\<close> over the paired scores and rows.\<close>

fun collect_similar ::
  "similarity_index \<Rightarrow> string list \<Rightarrow> real \<Rightarrow> similar_image list \<Rightarrow> (real \<times> int) list
   \<Rightarrow> similar_image list result" where
  "collect_similar ix class_names min_similarity results [] = Inr results"
| "collect_similar ix class_names min_similarity results ((score, row) # rest) =
     (if row < 0 \<or> score < min_similarity
      then collect_similar ix class_names min_similarity results rest
      else
        res_bind (py_nth (sx_labels ix) row) (\<lambda>label_index.
        res_bind (class_name_of class_names label_index) (\<lambda>label.
        res_bind (py_nth (sx_paths ix) row) (\<lambda>ref.
        res_bind (make_similar
          \<lparr>si_rank = int (length results) + 1, si_similarity = py_round 6 score, si_label = label,
           si_class_id = label_index, si_reference = ref\<rparr>) (\<lambda>s.
        collect_similar ix class_names min_similarity (results @ [s]) rest)))))"

text \<open>\<open>_work\<close>: preprocess, embed, search.\<close>

definition similarity_work ::
  "'i infer_env \<Rightarrow> similarity_index \<Rightarrow> loaded_model \<Rightarrow> bytes \<Rightarrow> int \<Rightarrow> (real list list \<times> int list list) result" where
  "similarity_work E ix model image_bytes k =
     res_bind (preprocess_image (ie_pil E) (default_preprocess (lm_image_size model)) image_bytes) (\<lambda>array.
     res_bind (run_model model [array]) (\<lambda>embedding.
     res_bind (nd_rows embedding) (\<lambda>query.
     Inr (fx_search (sx_index ix) query k))))"

text \<open>\<open>zip(scores[0], indices[0], strict=True)\<close> raises on rows of different lengths once the
  shorter one is exhausted.\<close>

definition first_row :: "'a list list \<Rightarrow> 'a list result" where
  "first_row rows = (case rows of [] \<Rightarrow> Inl index_error | r # _ \<Rightarrow> Inr r)"

definition similar_results ::
  "similarity_index \<Rightarrow> string list \<Rightarrow> real \<Rightarrow> real list list \<times> int list list \<Rightarrow> similar_image list result" where
  "similar_results ix class_names min_similarity found =
     res_bind (first_row (fst found)) (\<lambda>scores.
     res_bind (first_row (snd found)) (\<lambda>rows.
     res_bind (collect_similar ix class_names min_similarity [] (zip scores rows)) (\<lambda>results.
     if length scores = length rows then Inr results
     else Inl (PyExc ''ValueError'' ''zip() arguments have different lengths''))))"

definition find_similar ::
  "'i infer_env \<Rightarrow> settings \<Rightarrow> registry \<Rightarrow> similarity_index \<Rightarrow> string list \<Rightarrow> bytes \<Rightarrow> string \<Rightarrow> int \<Rightarrow> real
   \<Rightarrow> similarity_response result" where
  "find_similar E cfg reg ix class_names image_bytes correlation_id k min_similarity =
     res_bind (validate_image_upload (ie_header E) image_bytes (max_upload_bytes cfg) (max_image_pixels cfg)) (\<lambda>_.
     res_bind (get_embedder reg None) (\<lambda>model.
     res_bind (similarity_work E ix model image_bytes k) (\<lambda>found.
     res_bind (similar_results ix class_names min_similarity found) (\<lambda>results.
     Inr \<lparr>sr_results = results, sr_index_size = index_size ix, sr_inference_time_ms = elapsed_ms E 1,
          sr_correlation_id = correlation_id, sr_provenance = provenance_of model\<rparr>))))"

section \<open>Facts\<close>

lemma py_nth_in: "0 \<le> i \<Longrightarrow> i < int (length xs) \<Longrightarrow> py_nth xs i = Inr (xs ! nat i)"
  by (simp add: py_nth_def)

text \<open>What \<open>IndexFlatIP.search\<close> documents for one query row: \<open>k\<close> scores and row numbers; the rows
  found come first, best first, without repetition, each a row of the index with its cosine; the
  rest is padding with \<open>-1\<close>.\<close>

definition search_ok :: "faiss_index \<Rightarrow> bool" where
  "search_ok ix \<longleftrightarrow> (\<forall>q k. 1 \<le> k \<longrightarrow>
     (\<exists>hits pad. fx_search ix [q] k =
          ([map fst hits @ pad], [map snd hits @ replicate (length pad) (-1)])
        \<and> length hits + length pad = nat k
        \<and> distinct (map snd hits) \<and> sorted (rev (map fst hits))
        \<and> (\<forall>h \<in> set hits. 0 \<le> snd h \<and> snd h < fx_ntotal ix \<and> -1 \<le> fst h \<and> fst h \<le> 1)))"

text \<open>The response entry for one hit of the search.\<close>

definition similar_entry :: "similarity_index \<Rightarrow> string list \<Rightarrow> nat \<Rightarrow> real \<times> int \<Rightarrow> similar_image" where
  "similar_entry ix class_names i h =
     (let l = sx_labels ix ! nat (snd h) in
      \<lparr>si_rank = int i + 1, si_similarity = py_round 6 (fst h),
       si_label = (if l < int (length class_names) then class_names ! nat l else show_int l),
       si_class_id = l, si_reference = sx_paths ix ! nat (snd h)\<rparr>)"

definition index_synced :: "similarity_index \<Rightarrow> bool" where
  "index_synced ix \<longleftrightarrow>
     fx_ntotal (sx_index ix) = int (length (sx_labels ix)) \<and> length (sx_paths ix) = length (sx_labels ix)
     \<and> (\<forall>l \<in> set (sx_labels ix). 0 \<le> l)"

lemma collect_similar_map:
  assumes ok: "\<forall>h \<in> set hs. snd h < 0 \<or> fst h < t \<or>
      (snd h < int (length (sx_labels ix)) \<and> -1 \<le> fst h \<and> fst h \<le> 1)"
    and s: "index_synced ix"
  shows "collect_similar ix names t acc hs = Inr (acc @
     map (\<lambda>(i, h). similar_entry ix names i h)
       (enumerate (length acc) (filter (\<lambda>h. 0 \<le> snd h \<and> t \<le> fst h) hs)))"
  using ok
proof (induction hs arbitrary: acc)
  case (Cons h hs)
  obtain x r where h: "h = (x, r)" by fastforce
  show ?case
  proof (cases "r < 0 \<or> x < t")
    case True
    then show ?thesis using Cons unfolding h by auto
  next
    case False
    then have r: "0 \<le> r" "r < int (length (sx_labels ix))" "r < int (length (sx_paths ix))" "-1 \<le> x" "x \<le> 1"
      using Cons.prems s by (auto simp: h index_synced_def)
    then have l: "0 \<le> sx_labels ix ! nat r" using s by (auto simp: index_synced_def)
    have n: "class_name_of names (sx_labels ix ! nat r) = Inr (si_label (similar_entry ix names i (x, r)))" for i
      using l by (simp add: class_name_of_def similar_entry_def py_nth_in Let_def)
    have "similar_ok (similar_entry ix names (length acc) (x, r))"
      using py_round_between [of "-1" x 1 6] r(4,5) by (simp add: similar_ok_def similar_entry_def Let_def)
    then have m: "make_similar \<lparr>si_rank = int (length acc) + 1, si_similarity = py_round 6 x,
        si_label = si_label (similar_entry ix names (length acc) (x, r)),
        si_class_id = sx_labels ix ! nat r, si_reference = sx_paths ix ! nat r\<rparr>
      = Inr (similar_entry ix names (length acc) (x, r))"
      by (simp add: make_similar_Inr similar_entry_def Let_def)
    have "collect_similar ix names t acc (h # hs)
      = collect_similar ix names t (acc @ [similar_entry ix names (length acc) (x, r)]) hs"
      using False r by (simp add: h py_nth_in n [of "length acc"] m)
    then show ?thesis using Cons False by (auto simp: h)
  qed
qed simp

lemma similarity_load_Inr:
  "similarity_load F d = Inr ix \<Longrightarrow> fx_ntotal (sx_index ix) = int (length (sx_labels ix))
     \<and> (\<forall>f \<in> {''similarity.index'', ''similarity_manifest.json'', ''similarity_metadata.json''}. xf_exists F (d @ [f]))"
  by (auto simp: similarity_load_def Let_def res_bind_Inr_iff split: if_splits)


text \<open>An index of two rows whose search ranks the second row first.\<close>

definition demo_faiss :: faiss_index where
  "demo_faiss =
     \<lparr>fx_ntotal = 2,
      fx_search = (\<lambda>q k.
        let hits = take (nat k) [(3/4, 1), (1/2, 0)]; pad = replicate (nat k - length hits) 0
        in ([map fst hits @ pad], [map snd hits @ replicate (length pad) (-1)]))\<rparr>"

lemma demo_faiss_ok: "search_ok demo_faiss"
  unfolding search_ok_def
proof (intro allI impI)
  fix q :: "real list" and k :: int
  assume k: "1 \<le> k"
  let ?hits = "take (nat k) [(3/4 :: real, 1 :: int), (1/2, 0)]"
  consider "nat k = 1" | "2 \<le> nat k" using k by linarith
  then have "distinct (map snd ?hits) \<and> sorted (rev (map fst ?hits))
      \<and> (\<forall>h \<in> set ?hits. 0 \<le> snd h \<and> snd h < fx_ntotal demo_faiss \<and> -1 \<le> fst h \<and> fst h \<le> 1)"
    by cases (auto simp: demo_faiss_def)
  moreover have "length ?hits + length (replicate (nat k - length ?hits) (0 :: real)) = nat k" by simp
  ultimately show "\<exists>hits pad. fx_search demo_faiss [q] k =
          ([map fst hits @ pad], [map snd hits @ replicate (length pad) (-1)])
        \<and> length hits + length pad = nat k
        \<and> distinct (map snd hits) \<and> sorted (rev (map fst hits))
        \<and> (\<forall>h \<in> set hits. 0 \<le> snd h \<and> snd h < fx_ntotal demo_faiss \<and> -1 \<le> fst h \<and> fst h \<le> 1)"
    by (intro exI [of _ ?hits] exI [of _ "replicate (nat k - length ?hits) 0"])
      (simp add: demo_faiss_def Let_def)
qed

definition demo_files :: index_files where
  "demo_files =
     \<lparr>xf_exists = (\<lambda>p. True), xf_index = (\<lambda>p. Inr demo_faiss),
      xf_manifest = (\<lambda>p. Inr \<lparr>mf_labels = Some [1, 0], mf_paths = Some [''a.png'', ''b.png'']\<rparr>),
      xf_metadata = (\<lambda>p. Inr (PDict []))\<rparr>"

definition embedding_registry :: registry where
  "embedding_registry = register ((demo_model ''v1'')\<lparr>lm_name := embedder_name\<rparr>) True empty_registry"


end
