(* ===== verification/Uploads.thy ===== *)
theory Uploads
  imports Api_Errors
begin

text \<open>
  Reading untrusted bytes under a cap: the loop that the upload endpoints and the batch worker's
  downloader share, as an interface, and the upload reader of \<open>api/routers/classification.py\<close>
  (\<open>_read_upload\<close>). The body is a byte list; \<open>file.read(n)\<close> returns its next \<open>n\<close> bytes, or fewer at
  the end, and the empty byte string when nothing is left.
\<close>

section \<open>Capped accumulation\<close>

text \<open>A loop that appends chunks to a buffer and gives up, with its own error, as soon as the buffer
  exceeds the cap; what happens at the end of the stream is its own, too.\<close>

locale capped_loop =
  fixes loop :: "int \<Rightarrow> bytes \<Rightarrow> bytes list \<Rightarrow> 'e + bytes"
    and too_large :: "int \<Rightarrow> 'e"
    and finish :: "bytes \<Rightarrow> 'e + bytes"
  assumes loop_end: "loop cap buf [] = finish buf"
    and loop_chunk: "loop cap buf (c # cs) =
      (if cap < int (length (buf @ c)) then Inl (too_large cap) else loop cap (buf @ c) cs)"
begin

lemma within: "int (length (buf @ concat cs)) \<le> cap \<Longrightarrow> loop cap buf cs = finish (buf @ concat cs)"
proof (induction cs arbitrary: buf)
  case (Cons c cs)
  then have "int (length (buf @ c)) \<le> cap" by simp
  then show ?case using Cons.IH [of "buf @ c"] Cons.prems by (simp add: loop_chunk)
qed (simp add: loop_end)

lemma exceeds: "cap < int (length (buf @ concat cs)) \<Longrightarrow> int (length buf) \<le> cap \<Longrightarrow>
    loop cap buf (cs @ rest) = Inl (too_large cap)"
proof (induction cs arbitrary: buf)
  case (Cons c cs)
  show ?case
  proof (cases "cap < int (length (buf @ c))")
    case False
    then show ?thesis using Cons.IH [of "buf @ c"] Cons.prems by (simp add: loop_chunk)
  qed (simp add: loop_chunk)
qed simp

lemma outcome: "0 \<le> cap \<Longrightarrow> loop cap [] cs =
    (if cap < int (length (concat cs)) then Inl (too_large cap) else finish (concat cs))"
  using within [of "[]" cs cap] exceeds [of cap "[]" cs "[]"] by auto

end

section \<open>Uploads\<close>

definition chunk_size :: nat where
  "chunk_size = 1024 * 1024"

definition upload_too_large :: "int \<Rightarrow> exn" where
  "upload_too_large max_bytes =
     ApiExc (api_error_init PayloadTooLargeError
       (Some (''Upload exceeds the '' @ fmt_fixed 1 (of_int max_bytes / 1024 / 1024) @ '' MiB limit.''))
       (Some [(''max_bytes'', PInt max_bytes)]) None None)"

text \<open>\<open>while chunk := await file.read(chunk_size)\<close>\<close>

function read_upload_loop :: "int \<Rightarrow> bytes \<Rightarrow> bytes \<Rightarrow> bytes result" where
  "read_upload_loop max_bytes buffer file =
     (let chunk = take chunk_size file in
      if chunk = [] then Inr buffer
      else if max_bytes < int (length (buffer @ chunk)) then Inl (upload_too_large max_bytes)
      else read_upload_loop max_bytes (buffer @ chunk) (drop chunk_size file))"
  by pat_completeness auto
termination
  by (relation "measure (\<lambda>(m, b, f). length f)") (auto simp: chunk_size_def)

declare read_upload_loop.simps [simp del]

definition read_upload :: "bytes \<Rightarrow> int \<Rightarrow> bytes result" where
  "read_upload file max_bytes = read_upload_loop max_bytes [] file"

text \<open>The same loop over the list of chunks.\<close>

fun upload_chunks :: "int \<Rightarrow> bytes \<Rightarrow> bytes list \<Rightarrow> bytes result" where
  "upload_chunks cap buf [] = Inr buf"
| "upload_chunks cap buf (c # cs) =
     (if cap < int (length (buf @ c)) then Inl (upload_too_large cap) else upload_chunks cap (buf @ c) cs)"

interpretation upload: capped_loop upload_chunks upload_too_large Inr
  by unfold_locales simp_all

function slices :: "nat \<Rightarrow> 'a list \<Rightarrow> 'a list list" where
  "slices n xs = (if n = 0 \<or> xs = [] then [] else take n xs # slices n (drop n xs))"
  by pat_completeness auto
termination
  by (relation "measure (length \<circ> snd)") auto

declare slices.simps [simp del]

lemma concat_slices: "0 < n \<Longrightarrow> concat (slices n xs) = xs"
  by (induction n xs rule: slices.induct) (simp add: slices.simps [of n xs for n xs])

lemma read_upload_loop_chunks:
  "read_upload_loop m b f = upload_chunks m b (slices chunk_size f)"
proof (induction m b f rule: read_upload_loop.induct)
  case (1 m b f)
  then show ?case
    by (subst read_upload_loop.simps, subst slices.simps) (auto simp: Let_def chunk_size_def)
qed

lemma read_upload_outcome: "0 \<le> m \<Longrightarrow> read_upload f m =
    (if m < int (length f) then Inl (upload_too_large m) else Inr f)"
  using upload.outcome [of m "slices chunk_size f"]
  by (simp add: read_upload_def read_upload_loop_chunks concat_slices chunk_size_def)

lemma read_upload_loop_same: "read_upload_loop m b f = Inr r \<Longrightarrow> r = b @ f"
proof (induction m b f rule: read_upload_loop.induct)
  case (1 m b f)
  show ?case
  proof (cases "f = []")
    case True
    then show ?thesis using 1(2) by (simp add: read_upload_loop.simps [of m b "[]"])
  next
    case False
    then have ne: "take chunk_size f \<noteq> []" by (simp add: chunk_size_def)
    then have "read_upload_loop m (b @ take chunk_size f) (drop chunk_size f) = Inr r"
      "\<not> m < int (length (b @ take chunk_size f))"
      using 1(2) by (auto simp: read_upload_loop.simps [of m b f] Let_def split: if_splits)
    then show ?thesis using 1(1) [OF refl ne] by simp
  qed
qed

lemma read_upload_same: "read_upload f m = Inr r \<Longrightarrow> r = f"
  using read_upload_loop_same [of m "[]" f r] by (simp add: read_upload_def)

text \<open>
  C5. Bounded reading. An upload is returned whole, byte for byte, exactly when it fits the cap, and
  refused as too large (HTTP 413) otherwise; the loop ends on every body. The decision is made
  from the first \<open>max_bytes\<close> bytes and one chunk: two bodies that agree on them get the same
  answer, so nothing beyond is ever read.
\<close>

theorem read_upload_bounded:
  assumes "0 \<le> max_bytes"
  shows "(if int (length file) \<le> max_bytes then read_upload file max_bytes = Inr file
      else \<exists>e. read_upload file max_bytes = Inl (ApiExc e) \<and> err_status e = 413)
    \<and> (take (nat max_bytes + chunk_size) file = take (nat max_bytes + chunk_size) file' \<longrightarrow>
       read_upload file max_bytes = read_upload file' max_bytes)"
proof -
  have "read_upload file max_bytes = read_upload file' max_bytes"
    if t: "take (nat max_bytes + chunk_size) file = take (nat max_bytes + chunk_size) file'"
  proof (cases "max_bytes < int (length file)")
    case True
    have "min (length file) (nat max_bytes + chunk_size) = min (length file') (nat max_bytes + chunk_size)"
      using arg_cong [OF t, of length] by (simp add: min.commute)
    then have "max_bytes < int (length file')" using True assms by (auto simp: min_def chunk_size_def split: if_splits)
    then show ?thesis using True assms by (simp add: read_upload_outcome)
  next
    case False
    then have f: "take (nat max_bytes + chunk_size) file = file" using assms by simp
    then have "length (take (nat max_bytes + chunk_size) file') \<le> nat max_bytes" using False t assms by simp
    then have "length file' \<le> nat max_bytes" by (simp add: min_def chunk_size_def split: if_splits)
    then have "file = file'" using f t by simp
    then show ?thesis by simp
  qed
  moreover have "\<exists>e. upload_too_large max_bytes = ApiExc e \<and> err_status e = 413"
    by (simp add: upload_too_large_def class_status_def)
  ultimately show ?thesis using assms by (auto simp: read_upload_outcome)
qed

theorem read_upload_bounded_witness:
  "read_upload [1, 2, 3] 3 = Inr [1, 2, 3] \<and> (\<exists>e. read_upload [1, 2, 3] 2 = Inl (ApiExc e) \<and> err_status e = 413)"
  using read_upload_bounded [of 3 "[1, 2, 3]" "[]"] read_upload_bounded [of 2 "[1, 2, 3]" "[]"] by simp

end
