(* ===== verification/Endpoints.thy ===== *)
theory Endpoints
  imports Experiment_Service Monitoring Rate_Limit Auth Detection_Service Similarity_Service Uploads
begin

text \<open>
  The inference endpoints (\<open>api/routers/classification.py\<close>, \<open>detection.py\<close>, \<open>similarity.py\<close>) and the
  dependencies that hand them their services (\<open>api/dependencies.py\<close>). A request is a step on the
  state of the process: the limiter's database, the metrics, the cache and the audit service. The
  clock difference reported to the metrics is a parameter; FastAPI resolves a handler's
  dependencies in the order of its parameters, authentication first.
\<close>

section \<open>Dependencies\<close>

text \<open>\<open>app.state\<close>, as far as the requests read it; \<open>None\<close> is an attribute that start-up did not set.\<close>

record app_state =
  ap_settings :: settings
  ap_models :: "registry option"
  ap_experiments :: "experiment_registry option"
  ap_detection :: bool
  ap_similarity :: "(similarity_index \<times> string list) option"
  ap_limiter :: bool

definition get_model_service :: "app_state \<Rightarrow> registry result" where
  "get_model_service app =
     (case ap_models app of
        None \<Rightarrow> raise_api ServiceUnavailableError ''The model service is not initialised.'' []
      | Some reg \<Rightarrow> Inr reg)"

definition get_inference_service :: "app_state \<Rightarrow> registry result" where
  "get_inference_service app =
     (case ap_models app of
        None \<Rightarrow> raise_api ServiceUnavailableError ''The inference service is not initialised.'' []
      | Some reg \<Rightarrow> Inr reg)"

definition get_detection_service :: "app_state \<Rightarrow> registry result" where
  "get_detection_service app =
     (case (ap_detection app, ap_models app) of
        (True, Some reg) \<Rightarrow> Inr reg
      | _ \<Rightarrow> raise_api ModelUnavailableError
           (''No detection model is deployed in this environment. Classification ''
            @ ''is available at POST /api/v1/classify.'') [])"

definition get_similarity_service :: "app_state \<Rightarrow> (similarity_index \<times> string list) result" where
  "get_similarity_service app =
     (case ap_similarity app of
        None \<Rightarrow> raise_api ModelUnavailableError
           (''Similarity search is not available in this environment. Build the ''
            @ ''index with `python scripts/build_similarity_index.py`.'') []
      | Some s \<Rightarrow> Inr s)"

definition get_experiment_registry :: "app_state \<Rightarrow> experiment_registry" where
  "get_experiment_registry app =
     (case ap_experiments app of None \<Rightarrow> empty_experiments | Some er \<Rightarrow> er)"

definition get_rate_limiter :: "app_state \<Rightarrow> unit result" where
  "get_rate_limiter app =
     (if ap_limiter app then Inr ()
      else raise_api ServiceUnavailableError ''The rate limiter is not initialised.'' [])"

section \<open>Classification\<close>

type_synonym 'r process_state = "limiter_db \<times> metrics \<times> 'r infer_state"

text \<open>What one call brings along besides its upload: the credentials, the clocks, the limiter's call,
  and the time the inference took.\<close>

record request_env =
  re_credentials :: "string option"
  re_now :: int
  re_call :: limiter_call
  re_correlation_id :: string
  re_duration :: real

record classify_query =
  cq_top_k :: int
  cq_model_version :: "string option"
  cq_backend :: "backend option"
  cq_include_probabilities :: bool
  cq_use_cache :: bool

definition route_version ::
  "(bytes \<Rightarrow> bytes) \<Rightarrow> experiment_registry \<Rightarrow> principal \<Rightarrow> string option \<Rightarrow> string option \<times> string option" where
  "route_version digest er who model_version =
     (case model_version of
        None \<Rightarrow> resolve_version digest er ''tiny-imagenet-classifier'' (pn_user_id who)
      | Some v \<Rightarrow> (Some v, None))"

definition record_model :: "loaded_model \<Rightarrow> real \<Rightarrow> bool \<Rightarrow> metrics \<Rightarrow> metrics" where
  "record_model m dur ok mt =
     record_inference (lm_name m) (lm_version m) (backend_value (lm_backend m)) dur ok mt"

definition record_provenance :: "model_provenance \<Rightarrow> real \<Rightarrow> metrics \<Rightarrow> metrics" where
  "record_provenance pv dur mt =
     record_inference (pv_model_name pv) (pv_model_version pv) (pv_backend pv) dur True mt"

definition classify_image ::
  "'i infer_env \<Rightarrow> (bytes \<Rightarrow> bytes) \<Rightarrow> settings \<Rightarrow> registry \<Rightarrow> experiment_registry \<Rightarrow> principal \<Rightarrow> request_env
   \<Rightarrow> classify_query \<Rightarrow> bytes \<Rightarrow> 'r process_state
   \<Rightarrow> 'r process_state \<times> (classification_response \<times> (string, string) dict) result" where
  "classify_image E digest cfg reg er who rq q file st =
     (case st of (db, mt, ist) \<Rightarrow>
      case enforce_rate cfg (pn_user_id who) (pn_tier who) (re_call rq) db of
        (db', Inl e) \<Rightarrow> ((db', mt, ist), Inl e)
      | (db', Inr decision) \<Rightarrow>
          (case route_version digest er who (cq_model_version q) of (version, arm) \<Rightarrow>
           case read_upload file (max_upload_bytes cfg) of
             Inl e \<Rightarrow> ((db', mt, ist), Inl e)
           | Inr image_bytes \<Rightarrow>
               (case classify E cfg reg
                       \<lparr>rc_correlation_id = re_correlation_id rq, rc_user_id = Some (pn_user_id who),
                        rc_user_tier = Some (tier_value (pn_tier who)), rc_variant = arm\<rparr>
                       image_bytes (cq_top_k q) version
                       (if allow_backend_override cfg then cq_backend q else None)
                       (cq_include_probabilities q) (cq_use_cache q) ist of
                  (ist', Inl e) \<Rightarrow>
                    (case get_classifier reg version of
                       Inl e' \<Rightarrow> ((db', mt, ist'), Inl e')
                     | Inr model \<Rightarrow> ((db', record_model model (re_duration rq) False mt, ist'), Inl e))
                | (ist', Inr response) \<Rightarrow>
                    ((db', record_provenance (cr_provenance response) (re_duration rq) mt, ist'),
                     Inr (response, rate_limit_headers decision)))))"

text \<open>The endpoint with its dependencies, in the order of the handler's parameters.\<close>

definition classify_request ::
  "'i infer_env \<Rightarrow> (bytes \<Rightarrow> bytes) \<Rightarrow> jwt \<Rightarrow> app_state \<Rightarrow> request_env \<Rightarrow> classify_query \<Rightarrow> bytes \<Rightarrow> 'r process_state
   \<Rightarrow> 'r process_state \<times> (classification_response \<times> (string, string) dict) result" where
  "classify_request E digest J app rq q file st =
     (case res_bind (authenticate J (re_now rq) (re_credentials rq) (ap_settings app)) (\<lambda>who.
            res_bind (get_inference_service app) (\<lambda>reg.
            res_bind (get_rate_limiter app) (\<lambda>_. Inr (who, reg)))) of
        Inl e \<Rightarrow> (st, Inl e)
      | Inr (who, reg) \<Rightarrow>
          classify_image E digest (ap_settings app) reg (get_experiment_registry app) who rq q file st)"

section \<open>Detection and similarity\<close>

definition detect_objects ::
  "'i infer_env \<Rightarrow> settings \<Rightarrow> registry \<Rightarrow> principal \<Rightarrow> request_env \<Rightarrow> real \<Rightarrow> int \<Rightarrow> string option \<Rightarrow> bytes
   \<Rightarrow> limiter_db \<times> metrics \<Rightarrow> (limiter_db \<times> metrics) \<times> (detection_response \<times> (string, string) dict) result" where
  "detect_objects E cfg reg who rq threshold max_detections model_version file st =
     (case st of (db, mt) \<Rightarrow>
      case enforce_rate cfg (pn_user_id who) (pn_tier who) (re_call rq) db of
        (db', Inl e) \<Rightarrow> ((db', mt), Inl e)
      | (db', Inr decision) \<Rightarrow>
          (case read_upload file (max_upload_bytes cfg) of
             Inl e \<Rightarrow> ((db', mt), Inl e)
           | Inr image_bytes \<Rightarrow>
               (case detect E cfg reg image_bytes (re_correlation_id rq) threshold max_detections model_version of
                  Inl (ApiExc e) \<Rightarrow>
                    if err_class e = ModelUnavailableError then ((db', mt), Inl (ApiExc e))
                    else ((db', record_inference ''rtdetr-coco-detector''
                                  (case py_or_str model_version (Some ''unknown'') of Some v \<Rightarrow> v | None \<Rightarrow> []) ''unknown''
                                  (re_duration rq) False mt), Inl (ApiExc e))
                | Inl (PyExc t m) \<Rightarrow>
                    ((db', record_inference ''rtdetr-coco-detector''
                             (case py_or_str model_version (Some ''unknown'') of Some v \<Rightarrow> v | None \<Rightarrow> []) ''unknown''
                             (re_duration rq) False mt), Inl (PyExc t m))
                | Inr response \<Rightarrow>
                    ((db', record_provenance (dr_provenance response) (re_duration rq) mt),
                     Inr (response, rate_limit_headers decision)))))"

definition similar_images ::
  "'i infer_env \<Rightarrow> settings \<Rightarrow> registry \<Rightarrow> similarity_index \<times> string list \<Rightarrow> principal \<Rightarrow> request_env \<Rightarrow> int \<Rightarrow> real
   \<Rightarrow> bytes \<Rightarrow> limiter_db \<times> metrics
   \<Rightarrow> (limiter_db \<times> metrics) \<times> (similarity_response \<times> (string, string) dict) result" where
  "similar_images E cfg reg sim who rq k min_similarity file st =
     (case st of (db, mt) \<Rightarrow>
      case enforce_rate cfg (pn_user_id who) (pn_tier who) (re_call rq) db of
        (db', Inl e) \<Rightarrow> ((db', mt), Inl e)
      | (db', Inr decision) \<Rightarrow>
          (case res_bind (read_upload file (max_upload_bytes cfg)) (\<lambda>image_bytes.
                  find_similar E cfg reg (fst sim) (snd sim) image_bytes (re_correlation_id rq) k min_similarity) of
             Inl e \<Rightarrow> ((db', mt), Inl e)
           | Inr response \<Rightarrow>
               ((db', record_provenance (sr_provenance response) (re_duration rq) mt),
                Inr (response, rate_limit_headers decision))))"

section \<open>Who is served by what\<close>

lemma classify_provenance:
  assumes "classify E cfg reg rc i k v bk b uc ist = (ist', Inr resp)"
  shows "\<exists>m. get_for_backend reg classifier_name v bk = Inr m \<and> cr_provenance resp = provenance_of m
    \<and> cr_correlation_id resp = rc_correlation_id rc
    \<and> (\<exists>md. snd ist' = record_entry (audit_row rc m (cr_predictions resp) (cr_inference_time_ms resp) md
                   (cr_cached resp) (ie_sha256 E i) ''success'' None) (snd ist))"
proof -
  obtain c db au where ist: "ist = ((c, db), au)" by (metis prod.exhaust)
  obtain cst' au' where ist': "ist' = (cst', au')" by fastforce
  from assms [unfolded ist ist'] show ?thesis
  proof (cases rule: classify_cases)
    case (hit md m payload)
    then show ?thesis by (auto simp: classification_of_def ist ist')
  next
    case (miss md m cst1)
    from classify_fresh_result [OF miss(4)] miss(2) show ?thesis by (auto simp: classification_of_def ist ist')
  qed simp
qed

lemma get_for_backend_get: "get_for_backend reg n v b = Inr m \<Longrightarrow> get_model reg n v = Inr m"
  by (auto simp: get_for_backend_def res_bind_Inr_iff split: option.splits if_splits)

lemma registry_get:
  assumes "registry_ok reg" "sep_free (CHR '':'') n" "get_model reg n v = Inr m"
  shows "lm_name m = n \<and> (case v of Some w \<Rightarrow> w = [] \<or> lm_version m = w | None \<Rightarrow> is_active reg m)"
proof (cases "v = None \<or> v = Some []")
  case True
  then have "get_model reg n None = Inr m" using assms(3) by (auto simp: get_model_def py_or_str_def)
  then obtain w where w: "dict_get (reg_active reg) n = Some w" "dict_get (reg_models reg) (model_key n w) = Some m"
    by (auto simp: get_model_unpinned)
  then have "lm_name m = n" "lm_version m = w" using registry_ok_key [OF assms(1) w(2) assms(2)] by auto
  then show ?thesis using True w by (auto simp: is_active_def)
next
  case False
  then obtain w where w: "v = Some w" "w \<noteq> []" by auto
  then have "dict_get (reg_models reg) (model_key n w) = Some m" using assms(3) by (simp add: get_model_pinned)
  from registry_ok_key [OF assms(1) this assms(2)] w show ?thesis by simp
qed

lemma classify_image_Inr:
  assumes "classify_image E digest cfg reg er who rq q file (db, mt, ist) = ((db', mt', ist'), Inr (resp, headers))"
  obtains d where "enforce_rate cfg (pn_user_id who) (pn_tier who) (re_call rq) db = (db', Inr d)"
    "headers = rate_limit_headers d" "read_upload file (max_upload_bytes cfg) = Inr file"
    "classify E cfg reg
       \<lparr>rc_correlation_id = re_correlation_id rq, rc_user_id = Some (pn_user_id who),
        rc_user_tier = Some (tier_value (pn_tier who)),
        rc_variant = snd (route_version digest er who (cq_model_version q))\<rparr>
       file (cq_top_k q) (fst (route_version digest er who (cq_model_version q)))
       (if allow_backend_override cfg then cq_backend q else None)
       (cq_include_probabilities q) (cq_use_cache q) ist = (ist', Inr resp)"
    "mt' = record_provenance (cr_provenance resp) (re_duration rq) mt"
proof -
  have r: "read_upload file (max_upload_bytes cfg) = Inr b \<Longrightarrow> b = file" for b
    by (simp add: read_upload_same)
  from assms that show ?thesis
    by (auto simp: classify_image_def split: prod.splits sum.splits dest!: r)
qed

lemma classifier_sep_free: "sep_free (CHR '':'') classifier_name"
  by (simp add: classifier_name_def sep_free_def)


definition demo_rq :: request_env where
  "demo_rq = \<lparr>re_credentials = Some ''token'', re_now = 0,
     re_call = \<lparr>lc_now_ms = 0, lc_server_ms = 0, lc_monotonic_ns = 0, lc_redis = NoRedis\<rparr>,
     re_correlation_id = ''r1'', re_duration = 1\<rparr>"

definition demo_query :: classify_query where
  "demo_query = \<lparr>cq_top_k = 1, cq_model_version = None, cq_backend = None, cq_include_probabilities = False,
     cq_use_cache = True\<rparr>"

lemma demo_admitted: "\<exists>d. enforce_rate cfg u t (re_call demo_rq) db = (db, Inr d)"
  by (auto simp: enforce_rate_def check_rate_def demo_rq_def Let_def split: prod.splits)

lemma demo_classify_image:
  "\<exists>st' resp h. classify_image cached_infer (\<lambda>b. b) default_settings demo_registry empty_experiments demo_principal
     demo_rq demo_query [1, 2]
     (\<lambda>k. empty_key, no_metrics, (cache_init (Some map_redis) 3600, demo_store), audit_init True 2 50) = (st', Inr (resp, h))"
proof -
  let ?rc = "\<lparr>rc_correlation_id = re_correlation_id demo_rq, rc_user_id = Some (pn_user_id demo_principal),
     rc_user_tier = Some (tier_value (pn_tier demo_principal)), rc_variant = None\<rparr>"
  obtain s r where c: "classify cached_infer default_settings demo_registry ?rc [1, 2] 1 None None False True
     ((cache_init (Some map_redis) 3600, demo_store), audit_init True 2 50) = (s, Inr r)"
    using demo_classify [of ?rc] by blast
  obtain d where d: "enforce_rate default_settings (pn_user_id demo_principal) (pn_tier demo_principal) (re_call demo_rq)
      (\<lambda>k. empty_key) = (\<lambda>k. empty_key, Inr d)"
    using demo_admitted by blast
  have u: "read_upload [1, 2] (max_upload_bytes default_settings) = Inr [1, 2]"
    by (simp add: read_upload_outcome default_settings_def)
  have b: "(if allow_backend_override default_settings then cq_backend demo_query else None) = None"
    by (simp add: demo_query_def)
  have v: "route_version (\<lambda>b. b) empty_experiments demo_principal (cq_model_version demo_query) = (None, None)"
    by (simp add: route_version_def demo_query_def resolve_version_def empty_experiments_def)
  have q: "cq_top_k demo_query = 1" "cq_include_probabilities demo_query = False" "cq_use_cache demo_query = True"
    by (simp_all add: demo_query_def)
  show ?thesis unfolding classify_image_def by (simp add: d u v b q c del: One_nat_def)
qed


section \<open>Guards\<close>

text \<open>
  Nothing happens for a caller who is not let in. Whatever a classification request does, if it
  changed the metrics, the cache or the audit trail, then the caller was authenticated, the
  limiter admitted the request, and the upload was within the size limit; and if it changed
  anything at all, the caller was authenticated.
\<close>

theorem classification_guarded:
  assumes "classify_request E digest J app rq q file (db, mt, ist) = ((db', mt', ist'), r)"
  shows "if mt' = mt \<and> ist' = ist
    then db' = db \<or> (\<exists>who. authenticate J (re_now rq) (re_credentials rq) (ap_settings app) = Inr who)
    else \<exists>who d. authenticate J (re_now rq) (re_credentials rq) (ap_settings app) = Inr who
      \<and> enforce_rate (ap_settings app) (pn_user_id who) (pn_tier who) (re_call rq) db = (db', Inr d)
      \<and> read_upload file (max_upload_bytes (ap_settings app)) = Inr file"
proof -
  let ?cfg = "ap_settings app"
  show ?thesis
  proof (cases "res_bind (authenticate J (re_now rq) (re_credentials rq) ?cfg) (\<lambda>who.
            res_bind (get_inference_service app) (\<lambda>reg.
            res_bind (get_rate_limiter app) (\<lambda>_. Inr (who, reg))))")
    case (Inl e)
    then show ?thesis using assms by (simp add: classify_request_def)
  next
    case (Inr x)
    then obtain who reg where x: "x = (who, reg)"
      and a: "authenticate J (re_now rq) (re_credentials rq) ?cfg = Inr who"
      by (auto simp: res_bind_Inr_iff)
    have c: "classify_image E digest ?cfg reg (get_experiment_registry app) who rq q file (db, mt, ist)
        = ((db', mt', ist'), r)"
      using assms Inr x by (simp add: classify_request_def)
    show ?thesis
    proof (cases "\<exists>db1 d b. enforce_rate ?cfg (pn_user_id who) (pn_tier who) (re_call rq) db = (db1, Inr d)
        \<and> read_upload file (max_upload_bytes ?cfg) = Inr b")
      case True
      then obtain db1 d b where t: "enforce_rate ?cfg (pn_user_id who) (pn_tier who) (re_call rq) db = (db1, Inr d)"
        "read_upload file (max_upload_bytes ?cfg) = Inr b" by blast
      then have "b = file" using read_upload_same by blast
      moreover have "db1 = db'" using c t by (auto simp: classify_image_def split: prod.splits sum.splits)
      ultimately show ?thesis using t a by auto
    next
      case False
      then have "mt' = mt \<and> ist' = ist"
        using c by (auto simp: classify_image_def split: prod.splits sum.splits)
      then show ?thesis using a by simp
    qed
  qed
qed

theorem classification_guarded_witness:
  "\<exists>app. \<not> (\<exists>db' mt' ist' r. classify_request cached_infer (\<lambda>b. b) demo_jwt app (demo_rq\<lparr>re_credentials := None\<rparr>)
       demo_query [1, 2] (\<lambda>k. empty_key, no_metrics, (cache_init (Some map_redis) 3600, demo_store), audit_init True 2 50)
       = ((db', mt', ist'), r) \<and> mt' \<noteq> no_metrics)"
proof -
  let ?app = "\<lparr>ap_settings = default_settings, ap_models = Some demo_registry, ap_experiments = None,
     ap_detection = False, ap_similarity = None, ap_limiter = True\<rparr>"
  have "mt' = no_metrics" if r: "classify_request cached_infer (\<lambda>b. b) demo_jwt ?app (demo_rq\<lparr>re_credentials := None\<rparr>)
       demo_query [1, 2] (\<lambda>k. empty_key, no_metrics, (cache_init (Some map_redis) 3600, demo_store), audit_init True 2 50)
       = ((db', mt', ist'), r)" for db' mt' ist' r
    using classification_guarded [OF r] by (auto simp: authenticate_def py_or_str_def split: if_splits)
  then show ?thesis by blast
qed

section \<open>Failures in the handlers\<close>

text \<open>
  When classification fails, the handler resolves the model again to label the failure. If the
  version the request is routed to is not loaded, that second lookup raises, and the caller gets
  its error (model not found, HTTP 404) instead of the original one, whatever was wrong with the
  upload; nothing is counted. Otherwise the original error is returned and one failure is counted
  for the model.
\<close>

theorem classify_error_reported:
  assumes "enforce_rate cfg (pn_user_id who) (pn_tier who) (re_call rq) db = (db', Inr d)"
    and "read_upload file (max_upload_bytes cfg) = Inr file"
    and "route_version digest er who (cq_model_version q) = (v, arm)"
    and "classify E cfg reg
       \<lparr>rc_correlation_id = re_correlation_id rq, rc_user_id = Some (pn_user_id who),
        rc_user_tier = Some (tier_value (pn_tier who)), rc_variant = arm\<rparr>
       file (cq_top_k q) v (if allow_backend_override cfg then cq_backend q else None)
       (cq_include_probabilities q) (cq_use_cache q) ist = (ist', Inl e)"
  shows "classify_image E digest cfg reg er who rq q file (db, mt, ist) =
    (case get_model reg classifier_name v of
       Inl e' \<Rightarrow> ((db', mt, ist'), Inl e')
     | Inr m \<Rightarrow> ((db', record_model m (re_duration rq) False mt, ist'), Inl e))
    \<and> (\<forall>e'. get_model reg classifier_name v = Inl e' \<longrightarrow> (\<exists>a. e' = ApiExc a \<and> err_status a = 404))"
  using assms
  by (auto simp: classify_image_def get_classifier_def get_model_def class_status_def split: option.splits sum.splits)

theorem classify_error_reported_witness:
  "\<exists>a b. validate_image_upload (ie_header cached_infer) [7] (max_upload_bytes default_settings)
        (max_image_pixels default_settings) = Inl (ApiExc a) \<and> err_status a = 422
     \<and> snd (classify_image cached_infer (\<lambda>b. b) default_settings demo_registry empty_experiments demo_principal demo_rq
         (demo_query\<lparr>cq_model_version := Some ''v9''\<rparr>) [7]
         (\<lambda>k. empty_key, no_metrics, (cache_init (Some map_redis) 3600, demo_store), audit_init True 2 50)) = Inl (ApiExc b)
     \<and> err_status b = 404"
proof -
  let ?q = "demo_query\<lparr>cq_model_version := Some ''v9''\<rparr>"
  let ?ist = "((cache_init (Some map_redis) 3600, demo_store), audit_init True 2 50)"
  let ?e = "validate_image_upload (ie_header cached_infer) [7] (max_upload_bytes default_settings)
        (max_image_pixels default_settings)"
  have "\<exists>a. ?e = Inl (ApiExc a) \<and> err_status a = 422"
    by (simp add: validate_image_upload_def validate_upload_size_def inspect_image_def cached_infer_def demo_infer_def
        demo_header_def default_settings_def class_status_def)
  then obtain a where a: "?e = Inl (ApiExc a)" "err_status a = 422" by blast
  obtain d where d: "enforce_rate default_settings (pn_user_id demo_principal) (pn_tier demo_principal) (re_call demo_rq)
      (\<lambda>k. empty_key) = (\<lambda>k. empty_key, Inr d)"
    using demo_admitted by blast
  have u: "read_upload [7] (max_upload_bytes default_settings) = Inr [7]"
    by (simp add: read_upload_outcome default_settings_def)
  have v: "route_version (\<lambda>b. b) empty_experiments demo_principal (cq_model_version ?q) = (Some ''v9'', None)"
    by (simp add: route_version_def)
  have c: "classify cached_infer default_settings demo_registry
       \<lparr>rc_correlation_id = re_correlation_id demo_rq, rc_user_id = Some (pn_user_id demo_principal),
        rc_user_tier = Some (tier_value (pn_tier demo_principal)), rc_variant = None\<rparr>
       [7] (cq_top_k ?q) (Some ''v9'') (if allow_backend_override default_settings then cq_backend ?q else None)
       (cq_include_probabilities ?q) (cq_use_cache ?q) ?ist = (?ist, Inl (ApiExc a))"
    by (simp add: classify_def a)
  have n: "\<exists>e'. get_model demo_registry classifier_name (Some ''v9'') = Inl e'"
    by (simp add: get_model_def demo_registry_def register_def empty_registry_def py_or_str_def served_model_def
        demo_model_def lm_key_def model_key_def classifier_name_def)
  from classify_error_reported [OF d u v c, of no_metrics] n a show ?thesis by auto
qed

text \<open>
  A failed detection is counted under the version the caller wrote in the query, whether it exists
  or not: every unknown version is a new series of the inference counter.
\<close>

theorem detection_failure_series:
  assumes "enforce_rate cfg (pn_user_id who) (pn_tier who) (re_call rq) db = (db', Inr d)"
    and "read_upload file (max_upload_bytes cfg) = Inr file"
    and "validate_image_upload (ie_header E) file (max_upload_bytes cfg) (max_image_pixels cfg) = Inr md"
    and "v \<noteq> []" "dict_get (reg_models reg) (model_key detector_name v) = None"
  shows "\<exists>mt' e. detect_objects E cfg reg who rq threshold k (Some v) file (db, mt) = ((db', mt'), Inl e)
    \<and> dict_get (mt_inference mt') (''rtdetr-coco-detector'', v, ''unknown'', ''failure'') \<noteq> None"
proof -
  have "\<exists>a. get_detector reg (Some v) = Inl (ApiExc a) \<and> err_class a = ModelNotFoundError"
    using assms(4,5) by (simp add: get_detector_def get_model_def py_or_str_def api_error_init_def)
  then obtain a where a: "get_detector reg (Some v) = Inl (ApiExc a)" "err_class a = ModelNotFoundError" by blast
  have "detect E cfg reg file (re_correlation_id rq) threshold k (Some v) = Inl (ApiExc a)"
    by (simp add: detect_def assms(3) a)
  then show ?thesis
    using assms(1,2,4) a
    by (simp add: detect_objects_def record_inference_def Let_def py_or_str_def tick_def dict_simps)
qed

end
