(* ===== verification/Application.thy ===== *)
theory Application
  imports Endpoints
begin

text \<open>
  The application around the endpoints (\<open>api/main.py\<close>) and its operational endpoints
  (\<open>api/routers/health.py\<close>): start-up and shutdown, the middleware stack, the exception handlers,
  health, readiness and the model listing. Redis, the database, the index and the experiment file
  are seen through what connecting to them or reading them yields.
\<close>

section \<open>Error responses\<close>

record http_response =
  hs_status :: int
  hs_body :: pyval
  hs_headers :: "(string, string) dict"

definition handle_api_error :: "api_error \<Rightarrow> string option \<Rightarrow> http_response" where
  "handle_api_error e correlation_id =
     \<lparr>hs_status = err_status e, hs_body = error_to_dict e correlation_id,
      hs_headers = (if err_class e = RateLimitExceededError
                    then [(''Retry-After'', case err_retry_after e of None \<Rightarrow> ''None'' | Some s \<Rightarrow> show_int s)]
                    else [])\<rparr>"

text \<open>One error of pydantic's list: its location, whose parts are names and positions, and its
  message, either of which may be missing.\<close>

datatype loc_part = Loc_Name string | Loc_Index int

record validation_entry =
  ve_loc :: "loc_part list option"
  ve_msg :: "string option"

fun loc_str :: "loc_part \<Rightarrow> string" where
  "loc_str (Loc_Name s) = s"
| "loc_str (Loc_Index i) = show_int i"

definition summarise_validation :: "validation_entry list \<Rightarrow> pyval list" where
  "summarise_validation errors =
     map (\<lambda>e.
       let location = join ''.'' (map loc_str (filter (\<lambda>part. part \<noteq> Loc_Name ''body'')
                        (case ve_loc e of None \<Rightarrow> [] | Some l \<Rightarrow> l)))
       in PDict [(''field'', PStr (if location \<noteq> [] then location else ''body'')),
                 (''message'', PStr (case ve_msg e of None \<Rightarrow> ''invalid'' | Some m \<Rightarrow> m))]) errors"

definition handle_validation_error :: "validation_entry list \<Rightarrow> string option \<Rightarrow> http_response" where
  "handle_validation_error errors correlation_id =
     \<lparr>hs_status = 422,
      hs_body = PDict [(''error'', PDict
        [(''code'', PStr ''validation_error''),
         (''message'', PStr ''The request payload failed validation.''),
         (''details'', PDict [(''fields'', PList (summarise_validation errors))]),
         (''correlation_id'', py_opt_str correlation_id)])],
      hs_headers = []\<rparr>"

definition handle_http_exception :: "int \<Rightarrow> string \<Rightarrow> string option \<Rightarrow> http_response" where
  "handle_http_exception status_code detail correlation_id =
     \<lparr>hs_status = status_code,
      hs_body = PDict [(''error'', PDict
        [(''code'', PStr (''http_'' @ show_int status_code)), (''message'', PStr detail),
         (''correlation_id'', py_opt_str correlation_id)])],
      hs_headers = []\<rparr>"

definition handle_unexpected :: "string option \<Rightarrow> http_response" where
  "handle_unexpected correlation_id =
     \<lparr>hs_status = 500,
      hs_body = PDict [(''error'', PDict
        [(''code'', PStr ''internal_error''),
         (''message'', PStr (''An unexpected error occurred. Quote the correlation ID ''
            @ ''when reporting this.'')),
         (''correlation_id'', py_opt_str correlation_id)])],
      hs_headers = []\<rparr>"

text \<open>Starlette picks the handler of the most specific registered class.\<close>

fun error_response :: "exn \<Rightarrow> string option \<Rightarrow> http_response" where
  "error_response (ApiExc e) cid = handle_api_error e cid"
| "error_response (PyExc t m) cid = handle_unexpected cid"

section \<open>The middleware stack\<close>

datatype middleware = Metrics_Middleware "string set" | Correlation_Middleware | Cors_Middleware

text \<open>\<open>add_middleware\<close> puts each new middleware around the earlier ones: the list is outermost
  first.\<close>

definition add_middleware :: "middleware \<Rightarrow> middleware list \<Rightarrow> middleware list" where
  "add_middleware m stack = m # stack"

definition middleware_stack :: "settings \<Rightarrow> middleware list" where
  "middleware_stack cfg =
     (let stack = add_middleware (Metrics_Middleware {api_v1_prefix cfg @ ''/metrics'', ''/health/live''}) [];
          stack = add_middleware Correlation_Middleware stack
      in if \<not> is_production cfg then add_middleware Cors_Middleware stack else stack)"

section \<open>Health\<close>

definition api_version :: string where
  "api_version = ''1.0.0''"

definition fallback_detail :: "loaded_model \<Rightarrow> string" where
  "fallback_detail m =
     lm_key m @ '' using '' @ backend_value (lm_backend m) @ '' (requested ''
     @ (case lm_degraded_from m of None \<Rightarrow> ''?'' | Some b \<Rightarrow> backend_value b) @ '')''"

definition or_connected :: "string option \<Rightarrow> string option" where
  "or_connected detail = py_or_str detail (Some ''connected'')"

text \<open>\<open>health\<close>: \<open>ping\<close> is the answer of the cache, \<open>database\<close> that of the connection check where an
  engine exists; the two latencies and the uptime are readings of the clock.\<close>

definition health ::
  "registry \<Rightarrow> bool \<times> string option \<Rightarrow> (bool \<times> string option) option \<Rightarrow> real \<Rightarrow> real \<Rightarrow> real \<Rightarrow> health_response" where
  "health reg ping database cache_seconds database_seconds uptime =
     (let loaded = list_models reg;
          degraded = filter (\<lambda>m. lm_degraded_from m \<noteq> None) loaded;
          database_healthy = (case database of None \<Rightarrow> True | Some (ok, _) \<Rightarrow> ok);
          components =
            [\<lparr>ch_name = ''models'', ch_healthy = (loaded \<noteq> []),
              ch_detail = Some (if loaded \<noteq> [] then show_nat (length loaded) @ '' model(s) loaded''
                                else ''no models loaded; inference unavailable''),
              ch_latency_ms = None\<rparr>,
             \<lparr>ch_name = ''cache'', ch_healthy = fst ping, ch_detail = or_connected (snd ping),
              ch_latency_ms = Some (py_round 2 (cache_seconds * 1000))\<rparr>]
            @ (case database of
                 None \<Rightarrow> []
               | Some (ok, detail) \<Rightarrow>
                   [\<lparr>ch_name = ''database'', ch_healthy = ok, ch_detail = or_connected detail,
                     ch_latency_ms = Some (py_round 2 (database_seconds * 1000))\<rparr>])
            @ (if degraded \<noteq> []
               then [\<lparr>ch_name = ''inference_backend'', ch_healthy = True,
                      ch_detail = Some (''running on a fallback backend: ''
                        @ join '', '' (map fallback_detail degraded)),
                      ch_latency_ms = None\<rparr>]
               else [])
      in \<lparr>hr_status = (if loaded = [] then ''unhealthy''
                       else if \<not> fst ping \<or> degraded \<noteq> [] \<or> \<not> database_healthy then ''degraded''
                       else ''healthy''),
          hr_version = api_version, hr_uptime_seconds = py_round 1 uptime, hr_components = components\<rparr>)"

definition liveness :: pyval where
  "liveness = PDict [(''status'', PStr ''alive'')]"

definition readiness :: "registry \<Rightarrow> int \<times> pyval" where
  "readiness reg =
     (if is_ready reg then 200 else 503,
      PDict [(''ready'', PBool (is_ready reg)), (''models_loaded'', PInt (int (length (list_models reg))))])"

definition models_endpoint :: "fs \<Rightarrow> settings \<Rightarrow> registry \<Rightarrow> models_response" where
  "models_endpoint F cfg reg =
     \<lparr>ms_models = map (\<lambda>m.
        \<lparr>mi_name = lm_name m, mi_version = lm_version m, mi_task = lm_task m,
         mi_backend = backend_value (lm_backend m), mi_loaded = True, mi_is_active = is_active reg m,
         mi_num_classes = Some (int (num_classes m)), mi_input_size = Some (lm_image_size m),
         mi_artifact_size_mb = Some (artifact_size_mb F m), mi_metrics = lm_metrics m,
         mi_loaded_at = Some (lm_loaded_at m)\<rparr>) (list_models reg),
      ms_default_backend = backend_value (inference_backend cfg)\<rparr>"

section \<open>Start-up\<close>

text \<open>What the process finds when it starts: the run-time environment and the artefacts, whether
  Redis answered the ping, and the outcome of the database's connection check and, outside
  production, of creating the schema.\<close>

record deployment =
  de_runtime :: runtime_env
  de_fs :: fs
  de_settings :: settings
  de_now :: int
  de_index :: index_files
  de_experiments :: "pyval result option"
  de_parse :: "string \<Rightarrow> real option"
  de_redis_ok :: bool
  de_db_check :: "(bool \<times> string option) result"
  de_create_all_ok :: bool

definition create_redis :: "deployment \<Rightarrow> bool" where
  "create_redis D = de_redis_ok D"

text \<open>\<open>_create_database\<close>: whether there are an engine and a session factory.\<close>

definition create_database :: "deployment \<Rightarrow> bool" where
  "create_database D =
     (case de_db_check D of
        Inl e \<Rightarrow> False
      | Inr (healthy, detail) \<Rightarrow>
          if \<not> healthy then False
          else if \<not> is_production (de_settings D) then de_create_all_ok D
          else True)"

definition load_default :: "deployment \<Rightarrow> string \<Rightarrow> bool \<Rightarrow> model_state \<Rightarrow> model_state \<times> loaded_model result" where
  "load_default D version make_active ms =
     load_classifier (de_runtime D) (de_fs D) (de_settings D) (de_now D) classifier_name version make_active ms"

text \<open>The loop over the versions found on disk: a version that fails to load is skipped.\<close>

fun load_extras :: "deployment \<Rightarrow> string \<Rightarrow> string list \<Rightarrow> model_state \<times> metrics \<Rightarrow> model_state \<times> metrics" where
  "load_extras D main [] st = st"
| "load_extras D main (extra # rest) (ms, mt) =
     (if extra = main then load_extras D main rest (ms, mt)
      else
        (case load_default D extra False ms of
           (ms', Inl e) \<Rightarrow> load_extras D main rest (ms', mt)
         | (ms', Inr alternate) \<Rightarrow> load_extras D main rest (ms', record_model_loaded alternate mt)))"

definition start_detection :: "deployment \<Rightarrow> model_state \<times> metrics \<Rightarrow> (model_state \<times> metrics) \<times> bool" where
  "start_detection D st =
     (case st of (ms, mt) \<Rightarrow>
      case load_detector (de_runtime D) (de_fs D) (de_settings D) (de_now D) detector_name default_version True ms of
        (ms', Inl e) \<Rightarrow> ((ms', mt), False)
      | (ms', Inr detector) \<Rightarrow> ((ms', record_model_loaded detector mt), True))"

definition start_similarity ::
  "deployment \<Rightarrow> model_state \<times> metrics \<Rightarrow> (model_state \<times> metrics) \<times> (similarity_index \<times> string list) option" where
  "start_similarity D st =
     (case st of (ms, mt) \<Rightarrow>
      case load_embedder (de_runtime D) (de_fs D) (de_settings D) (de_now D) embedder_name default_version True ms of
        (ms', Inl e) \<Rightarrow> ((ms', mt), None)
      | (ms', Inr embedder) \<Rightarrow>
          (case similarity_load (de_index D) (artifacts_dir (de_settings D)) of
             Inl e \<Rightarrow> ((ms', mt), None)
           | Inr index \<Rightarrow> ((ms', record_model_loaded embedder mt), Some (index, lm_class_names embedder))))"

text \<open>\<open>lifespan\<close> up to the \<open>yield\<close>. An exception of the first load or of the experiment file ends
  the start-up; the classifier is loaded under its default version.\<close>

definition startup :: "deployment \<Rightarrow> runtime_state \<Rightarrow> (app_state \<times> metrics) result" where
  "startup D st0 =
     (case load_default D default_version True (st0, empty_registry) of
        (ms, Inl e) \<Rightarrow> Inl e
      | (ms, Inr model) \<Rightarrow>
          (case load_extras D (lm_version model)
                  (discover_versions (de_fs D) (artifacts_dir (de_settings D) @ [''onnx'']))
                  (ms, record_model_loaded model no_metrics) of
             st1 \<Rightarrow>
           case start_detection D st1 of (st2, detection) \<Rightarrow>
           case start_similarity D st2 of (((rt, reg), mt), similarity) \<Rightarrow>
             res_bind (experiments_load (de_parse D) (de_experiments D) (available_versions reg)) (\<lambda>er.
             Inr (\<lparr>ap_settings = de_settings D, ap_models = Some reg, ap_experiments = Some er,
                   ap_detection = detection, ap_similarity = similarity, ap_limiter = True\<rparr>, mt))))"

section \<open>Shutdown\<close>

datatype release = Audit_Stopped | Audit_Failed | Engine_Disposed | Redis_Closed

definition shutdown :: "bool \<Rightarrow> bool \<Rightarrow> bool \<Rightarrow> release list" where
  "shutdown audit_stop_ok engine redis =
     [if audit_stop_ok then Audit_Stopped else Audit_Failed]
     @ (if engine then [Engine_Disposed] else []) @ (if redis then [Redis_Closed] else [])"

section \<open>What start-up leaves behind\<close>

lemma load_step:
  assumes "registry_step\<^sup>*\<^sup>* empty_registry reg" "sep_free (CHR '':'') (lm_name m)" "lm_version m \<noteq> []"
  shows "registry_step\<^sup>*\<^sup>* empty_registry (register m act reg)"
  using assms by (meson registry_step.load rtranclp.rtrancl_into_rtrancl well_named_def)

lemma names_sep_free:
  "sep_free (CHR '':'') classifier_name" "sep_free (CHR '':'') detector_name" "sep_free (CHR '':'') embedder_name"
  by (simp_all add: classifier_name_def detector_name_def embedder_name_def sep_free_def)

lemma names_differ: "detector_name \<noteq> classifier_name" "embedder_name \<noteq> classifier_name" "embedder_name \<noteq> detector_name"
  by (simp_all add: classifier_name_def detector_name_def embedder_name_def)

text \<open>Registering another name, or another version without activating it, leaves the model that
  serves a name alone.\<close>

lemma register_keeps:
  assumes "registry_ok reg" "get_model reg n None = Inr m" "sep_free (CHR '':'') n" "sep_free (CHR '':'') (lm_name m')"
    and "lm_name m' \<noteq> n \<or> (\<not> act \<and> lm_version m' \<noteq> lm_version m)"
  shows "get_model (register m' act reg) n None = Inr m"
proof -
  obtain v where v: "dict_get (reg_active reg) n = Some v" "dict_get (reg_models reg) (model_key n v) = Some m"
    using assms(2) by (auto simp: get_model_unpinned)
  then have "lm_version m = v" using registry_ok_key [OF assms(1) v(2) assms(3)] by simp
  then have "model_key n v \<noteq> lm_key m'"
    using assms(3-5) by (auto simp: lm_key_def model_key_inject)
  then show ?thesis using v assms(5)
    by (auto simp: get_model_unpinned register_def dict_simps)
qed

definition serves_main :: "string \<Rightarrow> loaded_model \<Rightarrow> registry \<Rightarrow> bool" where
  "serves_main n m reg \<longleftrightarrow> registry_step\<^sup>*\<^sup>* empty_registry reg \<and> get_model reg n None = Inr m"

lemma serves_main_register:
  assumes "serves_main n m reg" "sep_free (CHR '':'') n" "sep_free (CHR '':'') (lm_name m')" "lm_version m' \<noteq> []"
    and "lm_name m' \<noteq> n \<or> (\<not> act \<and> lm_version m' \<noteq> lm_version m)"
  shows "serves_main n m (register m' act reg)"
  using assms register_keeps load_step registry_run.inv_reachable [OF refl]
  unfolding serves_main_def by blast

lemma load_default_cases:
  assumes "load_default D v act (rt, reg) = ((rt', reg'), r)"
  shows "(\<exists>e. r = Inl e \<and> reg' = reg)
    \<or> (\<exists>m. r = Inr m \<and> reg' = register m act reg \<and> lm_name m = classifier_name \<and> lm_version m = v)"
proof (cases r)
  case (Inr m)
  then show ?thesis
    using load_classifier_Inr [of "de_runtime D" "de_fs D" "de_settings D" "de_now D" classifier_name v act rt reg rt' reg' m] assms
    by (simp add: load_default_def honestly_loaded_def)
next
  case (Inl e)
  then show ?thesis using assms
    by (auto simp: load_default_def load_classifier_def Let_def split: sum.splits prod.splits)
qed

lemma dict_values_set: "set (dict_values (dict_set k v d)) \<subseteq> insert v (set (dict_values d))"
  by (induction d) auto

lemma register_models_set: "set (list_models (register m act reg)) \<subseteq> insert m (set (list_models reg))"
  unfolding list_models_def register_def registry.simps by (rule dict_values_set)

lemma load_extras_keeps:
  assumes "load_extras D main vs ((rt, reg), mt) = ((rt', reg'), mt')" "[] \<notin> set vs"
    and "serves_main classifier_name m reg" "lm_version m = main"
    and "\<forall>a \<in> set (list_models reg). lm_name a = classifier_name"
  shows "serves_main classifier_name m reg' \<and> (\<forall>a \<in> set (list_models reg'). lm_name a = classifier_name)"
  using assms
proof (induction vs arbitrary: rt reg mt)
  case (Cons v vs)
  show ?case
  proof (cases "v = main")
    case False
    obtain rt1 reg1 r where l: "load_default D v False (rt, reg) = ((rt1, reg1), r)" by (metis prod.exhaust)
    from load_default_cases [OF l] show ?thesis
    proof (elim disjE exE conjE)
      fix e assume "r = Inl e" "reg1 = reg"
      then show ?thesis using Cons l False by auto
    next
      fix a assume a: "r = Inr a" "reg1 = register a False reg" "lm_name a = classifier_name" "lm_version a = v"
      have "serves_main classifier_name m reg1"
        using serves_main_register [OF Cons.prems(3) names_sep_free(1), of a False] a Cons.prems(2,4) False names_sep_free
        by auto
      moreover have "\<forall>b \<in> set (list_models reg1). lm_name b = classifier_name"
        using Cons.prems(5) a register_models_set [of a False reg] by auto
      ultimately show ?thesis using Cons.IH [of rt1 reg1] Cons.prems l a False by auto
    qed
  qed (use Cons in auto)
qed simp

lemma load_detector_cases:
  assumes "load_detector env F cfg now name v act (rt, reg) = ((rt', reg'), r)"
  shows "(\<exists>e. r = Inl e \<and> reg' = reg)
    \<or> (\<exists>m. r = Inr m \<and> reg' = register m act reg \<and> lm_name m = name \<and> lm_version m = v)"
proof (cases r)
  case (Inr m)
  then show ?thesis using load_detector_Inr [of env F cfg now name v act rt reg rt' reg' m] assms
    by (simp add: honestly_loaded_def)
next
  case (Inl e)
  then show ?thesis using assms
    by (auto simp: load_detector_def Let_def split: sum.splits prod.splits option.splits)
qed

lemma load_embedder_cases:
  assumes "load_embedder env F cfg now name v act (rt, reg) = ((rt', reg'), r)"
  shows "(\<exists>e. r = Inl e \<and> reg' = reg)
    \<or> (\<exists>m. r = Inr m \<and> reg' = register m act reg \<and> lm_name m = name \<and> lm_version m = v)"
proof (cases r)
  case (Inr m)
  then show ?thesis using load_embedder_Inr [of env F cfg now name v act rt reg rt' reg' m] assms
    by (simp add: honestly_loaded_def)
next
  case (Inl e)
  then show ?thesis using assms
    by (auto simp: load_embedder_def Let_def split: sum.splits prod.splits)
qed

lemma not_listed: "registry_ok reg \<Longrightarrow> \<forall>a \<in> set (list_models reg). lm_name a \<noteq> n \<Longrightarrow> get_model reg n None \<noteq> Inr m"
proof
  assume r: "registry_ok reg" "\<forall>a \<in> set (list_models reg). lm_name a \<noteq> n" "get_model reg n None = Inr m"
  then obtain v where "dict_get (reg_active reg) n = Some v" by (auto simp: get_model_unpinned)
  from registry_ok_active [OF r(1) this] obtain a k where "dict_get (reg_models reg) k = Some a" "lm_name a = n" by blast
  then have "a \<in> set (list_models reg)" unfolding list_models_def by (metis dict_get_in_values)
  with r(2) \<open>lm_name a = n\<close> show False by blast
qed

lemma default_version_nonempty: "default_version \<noteq> []"
  by (simp add: default_version_def)

lemma start_detection_spec:
  assumes "start_detection D ((rt, reg), mt) = (((rt', reg'), mt'), detection)"
    and "serves_main classifier_name m reg" "\<forall>a \<in> set (list_models reg). lm_name a = classifier_name"
  shows "serves_main classifier_name m reg'
    \<and> (detection \<longleftrightarrow> (\<exists>d. get_model reg' detector_name None = Inr d))"
proof -
  obtain rt1 reg1 r where l: "load_detector (de_runtime D) (de_fs D) (de_settings D) (de_now D) detector_name
      default_version True (rt, reg) = ((rt1, reg1), r)" by (metis prod.exhaust)
  from load_detector_cases [OF l] show ?thesis
  proof (elim disjE exE conjE)
    fix e assume e: "r = Inl e" "reg1 = reg"
    have ok: "registry_ok reg" using assms(2) registry_run.inv_reachable [OF refl] by (auto simp: serves_main_def)
    have "get_model reg detector_name None \<noteq> Inr d" for d
      using not_listed [OF ok] assms(3) names_differ(1) by fastforce
    then show ?thesis using assms l e by (auto simp: start_detection_def)
  next
    fix a assume a: "r = Inr a" "reg1 = register a True reg" "lm_name a = detector_name" "lm_version a = default_version"
    have "serves_main classifier_name m reg1"
      unfolding a(2) by (rule serves_main_register [OF assms(2)])
        (use a names_sep_free names_differ default_version_nonempty in auto)
    moreover have "get_model reg1 detector_name None = Inr a"
      using register_get_active [of a reg] a by simp
    ultimately show ?thesis using assms(1) l a by (auto simp: start_detection_def)
  qed
qed

lemma start_similarity_spec:
  assumes "start_similarity D ((rt, reg), mt) = (((rt', reg'), mt'), sim)"
    and "serves_main classifier_name m reg"
  shows "serves_main classifier_name m reg'
    \<and> ((\<exists>d. get_model reg' detector_name None = Inr d) \<longleftrightarrow> (\<exists>d. get_model reg detector_name None = Inr d))
    \<and> (case sim of None \<Rightarrow> True
       | Some (ix, names) \<Rightarrow> (\<exists>e. get_model reg' embedder_name None = Inr e \<and> names = lm_class_names e)
           \<and> fx_ntotal (sx_index ix) = int (length (sx_labels ix)))"
proof -
  obtain rt1 reg1 r where l: "load_embedder (de_runtime D) (de_fs D) (de_settings D) (de_now D) embedder_name
      default_version True (rt, reg) = ((rt1, reg1), r)" by (metis prod.exhaust)
  from load_embedder_cases [OF l] show ?thesis
  proof (elim disjE exE conjE)
    fix e assume "r = Inl e" "reg1 = reg"
    then show ?thesis using assms l by (auto simp: start_similarity_def)
  next
    fix a assume a: "r = Inr a" "reg1 = register a True reg" "lm_name a = embedder_name" "lm_version a = default_version"
    have reg': "reg' = reg1" using assms(1) l a by (auto simp: start_similarity_def split: sum.splits)
    have "serves_main classifier_name m reg1"
      unfolding a(2) by (rule serves_main_register [OF assms(2)])
        (use a names_sep_free names_differ default_version_nonempty in auto)
    moreover have "get_model reg1 detector_name None = Inr d \<longleftrightarrow> get_model reg detector_name None = Inr d" for d
      using a names_differ names_sep_free
      by (auto simp: get_model_unpinned register_def dict_simps lm_key_def model_key_inject)
    moreover have "get_model reg1 embedder_name None = Inr a" using register_get_active [of a reg] a by simp
    ultimately show ?thesis using assms(1) l a reg'
      by (auto simp: start_similarity_def split: sum.splits dest!: similarity_load_Inr)
  qed
qed


section \<open>What the operational endpoints report\<close>

lemma list_models_empty: "list_models reg = [] \<longleftrightarrow> \<not> is_ready reg"
  by (cases "reg_models reg") (auto simp: list_models_def is_ready_def)

lemma health_status:
  "hr_status (health reg ping database c d u) =
     (if \<not> is_ready reg then ''unhealthy''
      else if \<not> fst ping \<or> filter (\<lambda>m. lm_degraded_from m \<noteq> None) (list_models reg) \<noteq> []
              \<or> \<not> (case database of None \<Rightarrow> True | Some (ok, _) \<Rightarrow> ok) then ''degraded''
      else ''healthy'')"
  unfolding health_def Let_def health_response.simps list_models_empty by simp

lemma health_components:
  "map (\<lambda>x. (ch_name x, ch_healthy x)) (hr_components (health reg ping database c d u)) =
     [(''models'', is_ready reg), (''cache'', fst ping)]
     @ (case database of None \<Rightarrow> [] | Some (ok, _) \<Rightarrow> [(''database'', ok)])
     @ (if filter (\<lambda>m. lm_degraded_from m \<noteq> None) (list_models reg) \<noteq> [] then [(''inference_backend'', True)] else [])"
proof -
  have "(list_models reg \<noteq> []) = is_ready reg" by (simp add: list_models_empty)
  then show ?thesis by (cases database) (auto simp: health_def Let_def)
qed

text \<open>
  Health is truthful. The service is unhealthy exactly when it cannot infer, which is exactly when
  readiness answers 503. It is healthy exactly when every component listed is healthy and no model
  runs on a fallback backend, which exactly then is listed as a component of its own. So an outage
  of the cache or of the database degrades a service that stays ready. Each component is listed
  once, and the database is listed only when there is an engine.
\<close>

theorem health_truthful:
  "let h = health reg ping database c d u; listed = map ch_name (hr_components h)
   in (hr_status h = ''unhealthy'') = (\<not> is_ready reg)
      \<and> (fst (readiness reg) = 503) = (hr_status h = ''unhealthy'')
      \<and> (hr_status h = ''healthy'')
         = (list_all ch_healthy (hr_components h) \<and> list_all (\<lambda>m. lm_degraded_from m = None) (list_models reg))
      \<and> hr_status h \<in> {''healthy'', ''degraded'', ''unhealthy''}
      \<and> (''inference_backend'' \<in> set listed) = (\<exists>m. m \<in> set (list_models reg) \<and> lm_degraded_from m \<noteq> None)
      \<and> (''database'' \<in> set listed) = (database \<noteq> None)
      \<and> distinct listed"
proof -
  define h where "h = health reg ping database c d u"
  define low where "low = filter (\<lambda>m. lm_degraded_from m \<noteq> None) (list_models reg)"
  define db_ok where "db_ok = (case database of None \<Rightarrow> True | Some (ok, _) \<Rightarrow> ok)"
  let ?cs = "[(''models'', is_ready reg), (''cache'', fst ping)]
     @ (case database of None \<Rightarrow> [] | Some (ok, _) \<Rightarrow> [(''database'', ok)])
     @ (if low \<noteq> [] then [(''inference_backend'', True)] else [])"
  have cs: "map (\<lambda>x. (ch_name x, ch_healthy x)) (hr_components h) = ?cs"
    unfolding h_def low_def by (rule health_components)
  have names: "map ch_name (hr_components h) = map fst ?cs" unfolding cs [symmetric] by simp
  have "list_all ch_healthy (hr_components h) = list_all snd ?cs"
    unfolding cs [symmetric] by (simp add: list.pred_map comp_def)
  then have all: "list_all ch_healthy (hr_components h) = (is_ready reg \<and> fst ping \<and> db_ok)"
    by (cases database) (auto simp: db_ok_def)
  have st: "hr_status h = (if \<not> is_ready reg then ''unhealthy''
      else if \<not> fst ping \<or> low \<noteq> [] \<or> \<not> db_ok then ''degraded'' else ''healthy'')"
    unfolding h_def low_def db_ok_def by (rule health_status)
  have low: "list_all (\<lambda>m. lm_degraded_from m = None) (list_models reg) = (low = [])"
    "(\<exists>m. m \<in> set (list_models reg) \<and> lm_degraded_from m \<noteq> None) = (low \<noteq> [])"
    by (auto simp: low_def filter_empty_conv list_all_iff)
  have "(''inference_backend'' \<in> set (map fst ?cs)) = (low \<noteq> [])"
    "(''database'' \<in> set (map fst ?cs)) = (database \<noteq> None)" "distinct (map fst ?cs)"
    by (cases database; auto)+
  then show ?thesis unfolding Let_def h_def [symmetric] names all low st by (auto simp: readiness_def)
qed

section \<open>What a refused caller receives\<close>

text \<open>
  A rate-limited request is answered, not dropped: the response has status 429, the code of the
  rate limit, and one header only, the delay to wait, which is the number of seconds of the
  decision and at least one. The limit and the remaining quota, which an admitted response carries
  in headers, are not among its headers; the limit is in its body.
\<close>

theorem rejection_response:
  assumes "enforce_rate cfg u tier call db = (db', Inl e)"
  shows "let r = error_response e cid
         in hs_status r = 429
            \<and> (\<exists>d m. check_rate cfg u tier call db = (db', d) \<and> 1 \<le> rl_retry_after_seconds d
                 \<and> hs_headers r = [(''Retry-After'', show_int (rl_retry_after_seconds d))]
                 \<and> rate_limit_headers d
                     = [(''X-RateLimit-Limit'', show_int (rate_limit_for cfg tier)), (''X-RateLimit-Remaining'', show_int 0)]
                       @ hs_headers r
                 \<and> hs_body r = PDict [(''error'', PDict
                     ([(''code'', PStr ''rate_limit_exceeded''), (''message'', PStr m),
                       (''details'', PDict [(''limit_per_minute'', PInt (rate_limit_for cfg tier)),
                          (''retry_after_seconds'', PInt (rl_retry_after_seconds d))])]
                      @ (case cid of None \<Rightarrow> [] | Some c \<Rightarrow> if c = [] then [] else [(''correlation_id'', PStr c)])))])"
proof -
  obtain d where c: "check_rate cfg u tier call db = (db', d)" and a: "\<not> rl_allowed d"
    and e: "e = ApiExc (rate_limit_error_init
                  (Some (''Rate limit of '' @ show_int (rl_limit d) @ '' requests per minute exceeded for ''
                         @ ''the '' @ tier_value tier @ '' tier.''))
                  (rl_retry_after_seconds d) (rl_limit d) [])"
    using assms by (auto simp: enforce_rate_def split: prod.splits if_splits)
  have answered: "lc_redis call = Answered" using check_rate_open [OF c] a by blast
  obtain k' al n old where sw: "sliding_window (lc_server_ms call) (lc_now_ms call) (window_seconds * 1000)
      (rate_limit_for cfg tier) (request_member (lc_now_ms call) (lc_monotonic_ns call)) (db (window_key_name tier u))
      = (k', al, n, old)" by (metis prod_cases4)
  from check_rate_answered [OF c answered sw] a
  have d: "rl_limit d = rate_limit_for cfg tier" "rl_remaining d = 0" "1 \<le> rl_retry_after_seconds d" by auto
  show ?thesis unfolding Let_def e using c d a
    by (auto simp: handle_api_error_def rate_limit_error_init_def api_error_init_def error_to_dict_def
        py_or_str_def class_status_def rate_limit_headers_def)
qed

definition closed_settings :: settings where
  "closed_settings = default_settings\<lparr>rate_limit_free_rpm := 0\<rparr>"

theorem rejection_response_witness:
  "hs_status (error_response (case snd (enforce_rate closed_settings ''u'' FREE (call_at 30000) (\<lambda>_. empty_key)) of
      Inl e \<Rightarrow> e | Inr d \<Rightarrow> PyExc [] []) (Some ''c'')) = 429"
proof -
  have l: "rate_limit_for closed_settings FREE = 0" by (simp add: closed_settings_def)
  obtain db' d where c: "check_rate closed_settings ''u'' FREE (call_at 30000) (\<lambda>_. empty_key) = (db', d)" by fastforce
  have "sliding_window 30000 30000 60000 0 (request_member 30000 0) empty_key = (empty_key, 0, 0, 0)"
    by (simp add: sliding_window_def live_key_def zremrangebyscore_def empty_key_def Let_def)
  then have "\<not> rl_allowed d" using c l by (auto simp: check_rate_def call_at_def window_seconds_def Let_def)
  then obtain e where e: "enforce_rate closed_settings ''u'' FREE (call_at 30000) (\<lambda>_. empty_key) = (db', Inl e)"
    using enforce_rate_result(2) [OF c] by blast
  show ?thesis using rejection_response [OF e, of "Some ''c''"] e by (simp add: Let_def)
qed

text \<open>An unexpected exception tells the caller nothing but the correlation identifier.\<close>

lemma unexpected_hides_exception: "error_response (PyExc t m) cid = error_response (PyExc t' m') cid"
  by simp

text \<open>Outside production the correlation middleware is not the outermost one.\<close>

lemma correlation_outermost: "hd (middleware_stack cfg) = Correlation_Middleware \<longleftrightarrow> is_production cfg"
  by (simp add: middleware_stack_def add_middleware_def Let_def)

end
