(* ===== verification/Worker.thy ===== *)
theory Worker
  imports Inference_Service Uploads
begin

text \<open>
  The batch worker (\<open>worker/tasks.py\<close>): downloading an image under the size cap, processing a batch
  item by item, progress and the final payload, and the error object an item records. The HTTP
  client is a parameter that answers a URL with a response or an error; a response is its status,
  its \<open>Content-Length\<close> header, its body in chunks, and the error that may cut it short.
\<close>

section \<open>Fetching\<close>

datatype worker_exn = AppExc exn | HttpStatusError nat | HttpRequestError string

record http_reply =
  hp_status :: nat
  hp_content_length :: "string option"
  hp_chunks :: "bytes list"
  hp_cut :: "worker_exn option"

type_synonym http_client = "string \<Rightarrow> worker_exn + http_reply"

definition worker_value_error :: "string \<Rightarrow> worker_exn" where
  "worker_value_error m = AppExc (PyExc ''ValueError'' m)"

definition body_too_large :: "int \<Rightarrow> worker_exn" where
  "body_too_large max_bytes =
     worker_value_error (''Image exceeds the '' @ show_int max_bytes @ '' byte limit'')"

text \<open>The \<open>for chunk in response.iter_bytes\<close> loop; \<open>finish\<close> is what follows the last chunk.\<close>

fun fetch_chunks :: "(bytes \<Rightarrow> worker_exn + bytes) \<Rightarrow> int \<Rightarrow> bytes \<Rightarrow> bytes list \<Rightarrow> worker_exn + bytes" where
  "fetch_chunks finish max_bytes buffer [] = finish buffer"
| "fetch_chunks finish max_bytes buffer (c # cs) =
     (if max_bytes < int (length (buffer @ c)) then Inl (body_too_large max_bytes)
      else fetch_chunks finish max_bytes (buffer @ c) cs)"

interpretation fetch: capped_loop "fetch_chunks finish" body_too_large finish for finish
  by unfold_locales simp_all

definition body_end :: "worker_exn option \<Rightarrow> bytes \<Rightarrow> worker_exn + bytes" where
  "body_end broken buffer = (case broken of None \<Rightarrow> Inr buffer | Some e \<Rightarrow> Inl e)"

definition fetch_body :: "http_reply \<Rightarrow> int \<Rightarrow> worker_exn + bytes" where
  "fetch_body r max_bytes = fetch_chunks (body_end (hp_cut r)) max_bytes [] (hp_chunks r)"

definition fetch_image :: "http_client \<Rightarrow> string \<Rightarrow> int \<Rightarrow> worker_exn + bytes" where
  "fetch_image client url max_bytes =
     (case client url of
        Inl e \<Rightarrow> Inl e
      | Inr r \<Rightarrow>
          if \<not> (200 \<le> hp_status r \<and> hp_status r < 300) then Inl (HttpStatusError (hp_status r))
          else
            (case hp_content_length r of
               None \<Rightarrow> fetch_body r max_bytes
             | Some declared \<Rightarrow>
                 (case parse_int declared of
                    None \<Rightarrow> Inl (worker_value_error
                              (''invalid literal for int() with base 10: '' @ py_repr declared))
                  | Some n \<Rightarrow>
                      if max_bytes < n
                      then Inl (worker_value_error
                             (''Image is '' @ show_int n @ '' bytes, exceeding the '' @ show_int max_bytes
                              @ '' byte limit''))
                      else fetch_body r max_bytes)))"

section \<open>One item\<close>

text \<open>The classes of the modelled exceptions that are subclasses of \<open>ValueError\<close>; pydantic's
  \<open>ValidationError\<close> is one.\<close>

definition is_value_error :: "string \<Rightarrow> bool" where
  "is_value_error t \<longleftrightarrow> t \<in> set [''ValueError'', ''ValidationError'', ''JSONDecodeError'', ''UnicodeDecodeError'']"

definition error_object :: "string \<Rightarrow> string \<Rightarrow> pyval" where
  "error_object code message = PDict [(''code'', PStr code), (''message'', PStr message)]"

fun describe_error :: "worker_exn \<Rightarrow> pyval" where
  "describe_error (AppExc (ApiExc e)) = error_object (err_code e) (err_message e)"
| "describe_error (HttpStatusError s) =
     error_object ''fetch_failed'' (''The image URL returned HTTP '' @ show_nat s @ ''.'')"
| "describe_error (HttpRequestError m) = error_object ''fetch_failed'' ''The image URL could not be reached.''"
| "describe_error (AppExc (PyExc t m)) =
     (if is_value_error t then error_object ''invalid_image'' m
      else error_object ''internal_error'' ''The item could not be processed.'')"

text \<open>The options of a job, as \<open>model_dump(exclude_none=True)\<close> of the request's classification options,
  or none at all.\<close>

record job_options =
  jo_top_k :: "int option"
  jo_model_version :: "string option"
  jo_include_probabilities :: "bool option"

definition no_options :: job_options where
  "no_options = \<lparr>jo_top_k = None, jo_model_version = None, jo_include_probabilities = None\<rparr>"

definition item_prediction ::
  "'i infer_env \<Rightarrow> settings \<Rightarrow> registry \<Rightarrow> http_client \<Rightarrow> job_options \<Rightarrow> batch_item \<Rightarrow> worker_exn + pyval" where
  "item_prediction E cfg reg client opts item =
     (case fetch_image client (bi_image_url item) (max_upload_bytes cfg) of
        Inl e \<Rightarrow> Inl e
      | Inr image_bytes \<Rightarrow>
          (case classify_many E cfg reg [image_bytes]
                  (case jo_top_k opts of None \<Rightarrow> 5 | Some k \<Rightarrow> k) (jo_model_version opts) True of
             Inl e \<Rightarrow> Inl (AppExc e)
           | Inr [] \<Rightarrow> Inl (AppExc index_error)
           | Inr (ps # _) \<Rightarrow> Inr (summarise_predictions ps)))"

definition item_result :: "batch_item \<Rightarrow> worker_exn + pyval \<Rightarrow> batch_item_result" where
  "item_result item outcome =
     (case outcome of
        Inr v \<Rightarrow> \<lparr>ir_item_id = bi_item_id item, ir_image_url = bi_image_url item, ir_status = ''succeeded'',
                   ir_result = Some v, ir_error = None\<rparr>
      | Inl e \<Rightarrow> \<lparr>ir_item_id = bi_item_id item, ir_image_url = bi_image_url item, ir_status = ''failed'',
                   ir_result = None, ir_error = Some (describe_error e)\<rparr>)"

section \<open>The job\<close>

record job_meta =
  jm_total_items :: int
  jm_completed_items :: int
  jm_failed_items :: int
  jm_current_index :: int

record job_payload =
  jp_task :: string
  jp_total_items :: int
  jp_completed_items :: int
  jp_failed_items :: int
  jp_started_at :: string
  jp_finished_at :: string
  jp_results :: "batch_item_result list"

text \<open>The loop over the items, with the two counters and the results so far; it also yields the
  states published on the way.\<close>

fun process_items ::
  "(batch_item \<Rightarrow> worker_exn + pyval) \<Rightarrow> int \<Rightarrow> int \<Rightarrow> int \<Rightarrow> int \<Rightarrow> batch_item_result list \<Rightarrow> batch_item list
   \<Rightarrow> job_meta list \<times> int \<times> int \<times> batch_item_result list" where
  "process_items run n_items index completed failed results [] = ([], completed, failed, results)"
| "process_items run n_items index completed failed results (item # items) =
     (let outcome = run item;
          completed' = (case outcome of Inr v \<Rightarrow> completed + 1 | Inl e \<Rightarrow> completed);
          failed' = (case outcome of Inr v \<Rightarrow> failed | Inl e \<Rightarrow> failed + 1);
          meta = \<lparr>jm_total_items = n_items, jm_completed_items = completed', jm_failed_items = failed',
                  jm_current_index = index + 1\<rparr>
      in case process_items run n_items (index + 1) completed' failed' (results @ [item_result item outcome]) items of
           (metas, c, f, rs) \<Rightarrow> (meta # metas, c, f, rs))"

definition process_batch ::
  "'i infer_env \<Rightarrow> settings \<Rightarrow> registry \<Rightarrow> http_client \<Rightarrow> batch_item list \<Rightarrow> string \<Rightarrow> job_options \<Rightarrow> string \<Rightarrow> string
   \<Rightarrow> job_meta list \<times> job_payload" where
  "process_batch E cfg reg client items task_type opts started_at finished_at =
     (case process_items (item_prediction E cfg reg client opts) (int (length items)) 0 0 0 [] items of
        (metas, completed, failed, results) \<Rightarrow>
          (metas,
           \<lparr>jp_task = task_type, jp_total_items = int (length items), jp_completed_items = completed,
            jp_failed_items = failed, jp_started_at = started_at, jp_finished_at = finished_at,
            jp_results = results\<rparr>))"

text \<open>\<open>_get_services\<close>, cached per process once it has succeeded: one classifier, version \<open>v1\<close>.\<close>

definition get_services ::
  "runtime_env \<Rightarrow> fs \<Rightarrow> settings \<Rightarrow> int \<Rightarrow> runtime_state \<times> registry option
   \<Rightarrow> (runtime_state \<times> registry option) \<times> registry result" where
  "get_services env F cfg now cached =
     (case cached of
        (st, Some reg) \<Rightarrow> ((st, Some reg), Inr reg)
      | (st, None) \<Rightarrow>
          (case load_classifier env F cfg now classifier_name default_version True (st, empty_registry) of
             ((st', reg), Inr model) \<Rightarrow> ((st', Some reg), Inr reg)
           | ((st', reg), Inl e) \<Rightarrow> ((st', None), Inl e)))"

section \<open>One bad item does not fail the job\<close>

lemma process_items_spec:
  "process_items run n_items index completed failed results items =
     (map (\<lambda>i. \<lparr>jm_total_items = n_items,
            jm_completed_items = completed + int (length (filter (\<lambda>x. \<exists>v. run x = Inr v) (take (Suc i) items))),
            jm_failed_items = failed + int (length (filter (\<lambda>x. \<exists>e. run x = Inl e) (take (Suc i) items))),
            jm_current_index = index + int i + 1\<rparr>) [0..<length items],
      completed + int (length (filter (\<lambda>x. \<exists>v. run x = Inr v) items)),
      failed + int (length (filter (\<lambda>x. \<exists>e. run x = Inl e) items)),
      results @ map (\<lambda>x. item_result x (run x)) items)"
proof (induction items arbitrary: index completed failed results)
  case (Cons item items)
  have up: "[0..<Suc (length items)] = 0 # map Suc [0..<length items]"
    by (simp add: upt_conv_Cons map_Suc_upt del: upt_Suc)
  show ?case
    by (cases "run item") (simp_all add: Cons.IH up Let_def o_def del: upt_Suc)
qed simp

lemma succeeded_failed: "length (filter (\<lambda>x. \<exists>v. run x = Inr v) xs) + length (filter (\<lambda>x. \<exists>e. run x = Inl e) xs)
    = length xs"
proof (induction xs)
  case (Cons x xs)
  then show ?case by (cases "run x") auto
qed simp

lemma filter_take_sorted: "sorted (map (\<lambda>i. int (length (filter P (take (Suc i) xs)))) [0..<length xs])"
proof -
  have "length (filter P (take i xs)) \<le> length (filter P (take j xs))" if "i \<le> j" for i j
  proof -
    have "take j xs = take i xs @ drop i (take j xs)"
      using that by (metis append_take_drop_id min.absorb1 take_take)
    then show ?thesis by (metis filter_append le_add1 length_append)
  qed
  then show ?thesis by (simp add: sorted_iff_nth_mono)
qed

text \<open>
  C3. One bad item does not fail the job. A batch always produces a payload: as many results as
  items, in their order, each with its item's identifier and URL, and each decided by its own item
  alone; the two counters are the numbers of succeeded and failed results and add up to the total.
  A state is published after every item, its counters never decrease, and its progress is the
  share of the items already handled.
\<close>

theorem process_batch_isolates:
  fixes E cfg reg client opts
  defines "run \<equiv> item_prediction E cfg reg client opts"
  shows "(case process_batch E cfg reg client items task opts t0 t1 of (metas, payload) \<Rightarrow>
       jp_results payload = map (\<lambda>x. item_result x (run x)) items
     \<and> jp_total_items payload = int (length items)
     \<and> jp_completed_items payload = int (length (filter (\<lambda>r. ir_status r = ''succeeded'') (jp_results payload)))
     \<and> jp_failed_items payload = int (length (filter (\<lambda>r. ir_status r = ''failed'') (jp_results payload)))
     \<and> jp_completed_items payload + jp_failed_items payload = jp_total_items payload
     \<and> map jm_current_index metas = map (\<lambda>i. int i + 1) [0..<length items]
     \<and> map (\<lambda>m. jm_completed_items m + jm_failed_items m) metas = map jm_current_index metas
     \<and> sorted (map jm_completed_items metas) \<and> sorted (map jm_failed_items metas))"
proof -
  let ?s = "\<lambda>x. \<exists>v. run x = Inr v" and ?f = "\<lambda>x. \<exists>e. run x = Inl e"
  obtain metas payload where b: "process_batch E cfg reg client items task opts t0 t1 = (metas, payload)"
    by fastforce
  have s: "filter (\<lambda>r. ir_status r = ''succeeded'') (map (\<lambda>x. item_result x (run x)) xs)
      = map (\<lambda>x. item_result x (run x)) (filter ?s xs)"
    and f: "filter (\<lambda>r. ir_status r = ''failed'') (map (\<lambda>x. item_result x (run x)) xs)
      = map (\<lambda>x. item_result x (run x)) (filter ?f xs)" for xs
    by (induction xs) (auto simp: item_result_def split: sum.splits)
  have metas: "metas = map (\<lambda>i. \<lparr>jm_total_items = int (length items),
        jm_completed_items = 0 + int (length (filter ?s (take (Suc i) items))),
        jm_failed_items = 0 + int (length (filter ?f (take (Suc i) items))),
        jm_current_index = 0 + int i + 1\<rparr>) [0..<length items]"
    and pay: "payload = \<lparr>jp_task = task, jp_total_items = int (length items),
        jp_completed_items = 0 + int (length (filter ?s items)),
        jp_failed_items = 0 + int (length (filter ?f items)), jp_started_at = t0, jp_finished_at = t1,
        jp_results = [] @ map (\<lambda>x. item_result x (run x)) items\<rparr>"
    using b by (simp_all add: process_batch_def process_items_spec run_def)
  have sum: "int (length (filter ?s (take (Suc i) items))) + int (length (filter ?f (take (Suc i) items))) = int i + 1"
    if "i < length items" for i
    using succeeded_failed [of run "take (Suc i) items"] that by simp
  have "map (\<lambda>m. jm_completed_items m + jm_failed_items m) metas = map jm_current_index metas"
    by (simp add: metas sum)
  moreover have "sorted (map jm_completed_items metas)" "sorted (map jm_failed_items metas)"
    using filter_take_sorted [of ?s items] filter_take_sorted [of ?f items] by (simp_all add: metas o_def)
  moreover have "int (length (filter ?s items)) + int (length (filter ?f items)) = int (length items)"
    using succeeded_failed [of run items] by simp
  ultimately show ?thesis unfolding b prod.case by (simp add: pay s f) (simp add: metas)
qed

text \<open>
  The task named in a job does not influence its processing: whatever it is, the items are
  classified, and the payload repeats the name. The flag that asks for probabilities has no effect
  either.
\<close>

theorem batch_ignores_task:
  "jp_results (snd (process_batch E cfg reg client items task opts t0 t1))
     = jp_results (snd (process_batch E cfg reg client items (task_value CLASSIFICATION)
         (opts\<lparr>jo_include_probabilities := flag\<rparr>) t0 t1))
   \<and> jp_task (snd (process_batch E cfg reg client items task opts t0 t1)) = task"
proof -
  have o: "jo_top_k (opts\<lparr>jo_include_probabilities := flag\<rparr>) = jo_top_k opts"
    "jo_model_version (opts\<lparr>jo_include_probabilities := flag\<rparr>) = jo_model_version opts" by simp_all
  have "item_prediction E cfg reg client (opts\<lparr>jo_include_probabilities := flag\<rparr>) = item_prediction E cfg reg client opts"
    unfolding item_prediction_def o ..
  then show ?thesis by (simp add: process_batch_def process_items_spec)
qed

text \<open>
  A fetch is bounded and honest. What it returns is the whole body of a successful response, no
  longer than the cap and not announced to be longer; a body over the cap is refused whatever
  follows it and whatever the header said; redirects and errors never yield bytes.
\<close>

theorem fetch_image_bounded:
  assumes "0 \<le> max_bytes" "client url = Inr r"
  shows "(case fetch_image client url max_bytes of
       Inr b \<Rightarrow> b = concat (hp_chunks r) \<and> int (length b) \<le> max_bytes \<and> hp_cut r = None
           \<and> 200 \<le> hp_status r \<and> hp_status r < 300
     | Inl e \<Rightarrow> \<not> (200 \<le> hp_status r \<and> hp_status r < 300) \<or> hp_content_length r \<noteq> None
           \<or> max_bytes < int (length (concat (hp_chunks r))) \<or> hp_cut r \<noteq> None)"
proof -
  have body: "fetch_body r max_bytes =
      (if max_bytes < int (length (concat (hp_chunks r))) then Inl (body_too_large max_bytes)
       else body_end (hp_cut r) (concat (hp_chunks r)))"
    using fetch.outcome [OF assms(1)] by (simp add: fetch_body_def)
  show ?thesis
    by (auto simp: fetch_image_def assms(2) body body_end_def split: option.splits sum.splits if_splits)
qed

definition demo_client :: http_client where
  "demo_client url =
     Inr \<lparr>hp_status = 200, hp_content_length = None, hp_chunks = [[1, 2], [3]], hp_cut = None\<rparr>"

theorem fetch_image_bounded_witness:
  "fetch_image demo_client ''http://h/i'' 3 = Inr [1, 2, 3] \<and> (\<exists>e. fetch_image demo_client ''http://h/i'' 2 = Inl e)"
proof -
  let ?r = "\<lparr>hp_status = 200, hp_content_length = None, hp_chunks = [[1, 2], [3]], hp_cut = None\<rparr>"
  have r: "demo_client ''http://h/i'' = Inr ?r" by (simp add: demo_client_def)
  have "fetch_image demo_client ''http://h/i'' 3 \<noteq> Inl e" for e
    using fetch_image_bounded [of 3 demo_client "''http://h/i''" ?r, OF _ r] by auto
  then obtain b where b: "fetch_image demo_client ''http://h/i'' 3 = Inr b"
    by (cases "fetch_image demo_client ''http://h/i'' 3") auto
  then have "b = [1, 2, 3]" using fetch_image_bounded [of 3 demo_client "''http://h/i''" ?r, OF _ r] by auto
  moreover have "fetch_image demo_client ''http://h/i'' 2 \<noteq> Inr b" for b
    using fetch_image_bounded [of 2 demo_client "''http://h/i''" ?r, OF _ r] by auto
  ultimately show ?thesis using b by (cases "fetch_image demo_client ''http://h/i'' 2") auto
qed

end
