(* ===== verification/Batch.thy ===== *)
theory Batch
  imports Worker Rate_Limit Auth
begin

text \<open>
  The batch endpoints (\<open>api/routers/batch.py\<close>): submission and status. Celery is a parameter: the
  broker is the list of jobs it has accepted (or an error), and a result is what \<open>AsyncResult\<close> and
  its backend report. \<open>datetime.fromisoformat\<close> and \<open>url_for\<close> are parameters; \<open>now\<close> is the clock.
\<close>

section \<open>Submission\<close>

record batch_job =
  bt_job_id :: string
  bt_items :: "batch_item list"
  bt_task :: string
  bt_options :: job_options

definition dump_options :: "classification_options option \<Rightarrow> job_options" where
  "dump_options o' =
     (case o' of
        None \<Rightarrow> no_options
      | Some c \<Rightarrow> \<lparr>jo_top_k = Some (co_top_k c), jo_model_version = co_model_version c,
                   jo_include_probabilities = Some (co_include_probabilities c)\<rparr>)"

text \<open>What Celery says to \<open>delay\<close>: the identifier of the job, or the broker's error.\<close>

definition submit_batch ::
  "settings \<Rightarrow> principal \<Rightarrow> limiter_call \<Rightarrow> string result \<Rightarrow> (string \<Rightarrow> string) \<Rightarrow> int \<Rightarrow> batch_request
   \<Rightarrow> limiter_db \<times> batch_job list
   \<Rightarrow> (limiter_db \<times> batch_job list) \<times> (batch_job_response \<times> (string, string) dict) result" where
  "submit_batch cfg who call delay url_for now payload st =
     (case st of (db, queue) \<Rightarrow>
      case enforce_rate cfg (pn_user_id who) (pn_tier who) call db of
        (db', Inl e) \<Rightarrow> ((db', queue), Inl e)
      | (db', Inr decision) \<Rightarrow>
          let max_items = max_batch_size cfg * 10; n = length (br_items payload) in
          if max_items < int n
          then ((db', queue),
                raise_api BatchTooLargeError
                  (''Batch contains '' @ show_nat n @ '' items; the maximum is '' @ show_int max_items @ ''.'')
                  [(''submitted'', PInt (int n)), (''max_items'', PInt max_items)])
          else
            (case delay of
               Inl e \<Rightarrow> ((db', queue), Inl e)
             | Inr job_id \<Rightarrow>
                 ((db', queue @ [\<lparr>bt_job_id = job_id, bt_items = br_items payload,
                                  bt_task = task_value (br_task payload),
                                  bt_options = dump_options (br_classification_options payload)\<rparr>]),
                  Inr (\<lparr>bj_job_id = job_id, bj_status = PENDING, bj_task = br_task payload,
                        bj_total_items = int n, bj_submitted_at = now, bj_status_url = url_for job_id\<rparr>,
                       rate_limit_headers decision))))"

section \<open>Status\<close>

definition state_map :: "string \<Rightarrow> job_status option" where
  "state_map s = map_of
     [(''PENDING'', PENDING), (''RECEIVED'', PENDING), (''STARTED'', RUNNING), (''PROGRESS'', RUNNING),
      (''RETRY'', RUNNING), (''SUCCESS'', COMPLETED), (''FAILURE'', FAILED), (''REVOKED'', CANCELLED)] s"

text \<open>\<open>AsyncResult\<close>: its state, the \<open>status\<close> entry of the backend's record, and \<open>info\<close> or \<open>result\<close>
  where they are dictionaries.\<close>

record async_result =
  rs_state :: string
  rs_meta_status :: "string option"
  rs_info :: "job_meta option"
  rs_payload :: "job_payload option"

definition parse_time :: "(string \<Rightarrow> int option) \<Rightarrow> int \<Rightarrow> string option \<Rightarrow> int" where
  "parse_time from_iso now v =
     (case v of
        None \<Rightarrow> now
      | Some s \<Rightarrow> if s = [] then now else (case from_iso s of None \<Rightarrow> now | Some t \<Rightarrow> t))"

definition empty_payload :: "string \<Rightarrow> job_payload" where
  "empty_payload task = \<lparr>jp_task = task, jp_total_items = 0, jp_completed_items = 0, jp_failed_items = 0,
     jp_started_at = [], jp_finished_at = [], jp_results = []\<rparr>"

definition get_batch_status ::
  "(string \<Rightarrow> int option) \<Rightarrow> int \<Rightarrow> string \<Rightarrow> async_result \<Rightarrow> batch_job_status result" where
  "get_batch_status from_iso now job_id r =
     (if rs_state r = ''PENDING'' \<and> (case rs_meta_status r of None \<Rightarrow> True | Some s \<Rightarrow> s = [])
      then raise_api JobNotFoundError
             (''No job found with ID '' @ py_repr job_id @ ''. It may have expired.'') [(''job_id'', PStr job_id)]
      else
      (let job_status = (case state_map (rs_state r) of None \<Rightarrow> PENDING | Some s \<Rightarrow> s);
           n = (\<lambda>f. case rs_info r of None \<Rightarrow> 0 | Some m \<Rightarrow> f m)
       in
       if job_status = COMPLETED
       then
         (let payload = (case rs_payload r of None \<Rightarrow> empty_payload (task_value CLASSIFICATION) | Some p \<Rightarrow> p) in
          case task_of_value (jp_task payload) of
            None \<Rightarrow> Inl (PyExc ''ValueError'' (jp_task payload))
          | Some task \<Rightarrow>
              Inr \<lparr>bs_job_id = job_id, bs_status = job_status, bs_task = task,
                   bs_total_items = jp_total_items payload, bs_completed_items = jp_completed_items payload,
                   bs_failed_items = jp_failed_items payload,
                   bs_submitted_at = parse_time from_iso now (Some (jp_started_at payload)),
                   bs_started_at = Some (parse_time from_iso now (Some (jp_started_at payload))),
                   bs_finished_at = Some (parse_time from_iso now (Some (jp_finished_at payload))),
                   bs_results = Some (jp_results payload), bs_error = None\<rparr>)
       else
         Inr \<lparr>bs_job_id = job_id, bs_status = job_status, bs_task = CLASSIFICATION,
              bs_total_items = n jm_total_items, bs_completed_items = n jm_completed_items,
              bs_failed_items = n jm_failed_items, bs_submitted_at = now,
              bs_started_at = None, bs_finished_at = None, bs_results = None,
              bs_error = (if job_status = FAILED
                          then Some ''The job failed. Contact support with this job ID.'' else None)\<rparr>))"

section \<open>From submission to result\<close>

lemma enforce_rate_Inr: "enforce_rate cfg u t call db = (db', Inr d) \<Longrightarrow> rl_allowed d"
  by (auto simp: enforce_rate_def split: prod.splits if_splits)

lemma submit_batch_Inr:
  assumes "submit_batch cfg who call delay url_for now payload (db, queue) = ((db', queue'), Inr (resp, headers))"
  shows "queue' = queue @ [\<lparr>bt_job_id = bj_job_id resp, bt_items = br_items payload,
      bt_task = task_value (br_task payload), bt_options = dump_options (br_classification_options payload)\<rparr>]
    \<and> delay = Inr (bj_job_id resp) \<and> bj_status resp = PENDING
    \<and> int (length (br_items payload)) \<le> max_batch_size cfg * 10
    \<and> bj_total_items resp = int (length (br_items payload))"
  using assms by (auto simp: submit_batch_def Let_def split: prod.splits sum.splits if_splits)

lemma process_batch_payload:
  "process_batch E cfg reg client items task opts t0 t1 = (metas, p) \<Longrightarrow>
     jp_task p = task \<and> jp_total_items p = int (length items) \<and> jp_started_at p = t0 \<and> jp_finished_at p = t1
     \<and> jp_results p = map (\<lambda>x. item_result x (item_prediction E cfg reg client opts x)) items
     \<and> jp_completed_items p + jp_failed_items p = int (length items)
     \<and> 0 \<le> jp_completed_items p \<and> 0 \<le> jp_failed_items p
     \<and> (\<forall>m \<in> set metas. jm_total_items m = int (length items) \<and> 0 \<le> jm_completed_items m \<and> 0 \<le> jm_failed_items m
          \<and> jm_completed_items m + jm_failed_items m \<le> int (length items))"
proof -
  let ?run = "item_prediction E cfg reg client opts"
  have le: "length (filter (\<lambda>x. \<exists>v. ?run x = Inr v) (take i items)) + length (filter (\<lambda>x. \<exists>e. ?run x = Inl e) (take i items))
      \<le> length items" for i
    using succeeded_failed [of ?run "take i items"] by simp
  assume "process_batch E cfg reg client items task opts t0 t1 = (metas, p)"
  then show ?thesis
    using succeeded_failed [of ?run items] le
    by (auto simp: process_batch_def process_items_spec simp flip: of_nat_add)
qed


text \<open>
  An identifier Celery does not know is not reported as unknown: Celery answers it with the state
  \<open>PENDING\<close> and a record whose \<open>status\<close> says so too, and the endpoint returns a pending job.
\<close>

theorem unknown_job_is_pending:
  "\<exists>s. get_batch_status from_iso now job_id
      \<lparr>rs_state = ''PENDING'', rs_meta_status = Some ''PENDING'', rs_info = None, rs_payload = None\<rparr> = Inr s
    \<and> bs_status s = PENDING \<and> bs_total_items s = 0"
  by (simp add: get_batch_status_def state_map_def)

definition demo_request :: batch_request where
  "demo_request = \<lparr>br_task = DETECTION, br_items = [\<lparr>bi_image_url = ''http://h/i'', bi_item_id = None\<rparr>],
     br_classification_options = None, br_detection_options = None, br_callback_url = None\<rparr>"

definition offline_call :: limiter_call where
  "offline_call = \<lparr>lc_now_ms = 0, lc_server_ms = 0, lc_monotonic_ns = 0, lc_redis = NoRedis\<rparr>"

lemma demo_submit:
  "\<exists>db' queue' resp headers. submit_batch default_settings demo_principal offline_call (Inr ''j'') (\<lambda>i. i) 0 demo_request
     (\<lambda>k. empty_key, []) = ((db', queue'), Inr (resp, headers))"
  by (auto simp: submit_batch_def enforce_rate_def check_rate_def offline_call_def demo_request_def
      default_settings_def Let_def split: prod.splits)


end
