(* ===== verification/Regression.thy ===== *)
theory Regression
  imports Experiment_Service
begin

text \<open>
  The release gate: comparing the metrics of a candidate with a committed baseline
  (\<open>models/validation/regression.py\<close>) and the script that gathers them and decides
  (\<open>scripts/check_regression.py\<close>). A metric read from JSON may be infinite or not a number, and the
  comparisons of the gate meet them, so numbers here are IEEE's kinds of values over exact reals.
\<close>

section \<open>Floating point values\<close>

datatype flt = Fin real | Inf bool | NaN

text \<open>\<open>Inf True\<close> is minus infinity. Every comparison with \<open>NaN\<close> is false.\<close>

fun flt_less :: "flt \<Rightarrow> flt \<Rightarrow> bool" where
  "flt_less (Fin x) (Fin y) = (x < y)"
| "flt_less (Fin x) (Inf neg) = (\<not> neg)"
| "flt_less (Inf neg) (Fin y) = neg"
| "flt_less (Inf m) (Inf n) = (m \<and> \<not> n)"
| "flt_less _ _ = False"

definition flt_neg :: "flt \<Rightarrow> flt" where
  "flt_neg x = (case x of Fin r \<Rightarrow> Fin (- r) | Inf n \<Rightarrow> Inf (\<not> n) | NaN \<Rightarrow> NaN)"

fun flt_add :: "flt \<Rightarrow> flt \<Rightarrow> flt" where
  "flt_add (Fin x) (Fin y) = Fin (x + y)"
| "flt_add (Fin x) (Inf n) = Inf n"
| "flt_add (Inf m) (Fin y) = Inf m"
| "flt_add (Inf m) (Inf n) = (if m = n then Inf m else NaN)"
| "flt_add _ _ = NaN"

definition flt_sub :: "flt \<Rightarrow> flt \<Rightarrow> flt" where
  "flt_sub x y = flt_add x (flt_neg y)"

fun flt_mult :: "flt \<Rightarrow> flt \<Rightarrow> flt" where
  "flt_mult (Fin x) (Fin y) = Fin (x * y)"
| "flt_mult (Fin x) (Inf n) = (if x = 0 then NaN else Inf ((x < 0) \<noteq> n))"
| "flt_mult (Inf m) (Fin y) = (if y = 0 then NaN else Inf (m \<noteq> (y < 0)))"
| "flt_mult (Inf m) (Inf n) = Inf (m \<noteq> n)"
| "flt_mult _ _ = NaN"

text \<open>Division; the code never divides by zero, which raises in Python.\<close>

fun flt_div :: "flt \<Rightarrow> flt \<Rightarrow> flt" where
  "flt_div (Fin x) (Fin y) = Fin (x / y)"
| "flt_div (Fin x) (Inf n) = Fin 0"
| "flt_div (Inf m) (Fin y) = Inf (m \<noteq> (y < 0))"
| "flt_div _ _ = NaN"

definition fmt_flt :: "nat \<Rightarrow> flt \<Rightarrow> string" where
  "fmt_flt n x =
     (case x of Fin r \<Rightarrow> fmt_fixed n r | Inf neg \<Rightarrow> if neg then ''-inf'' else ''inf'' | NaN \<Rightarrow> ''nan'')"

section \<open>One metric\<close>

datatype direction = HIGHER_IS_BETTER | LOWER_IS_BETTER

record metric_spec =
  sp_name :: string
  sp_direction :: direction
  sp_tolerance :: real
  sp_absolute_floor :: "real option"

text \<open>The degradation relative to the baseline; a baseline of zero is falsy.\<close>

definition relative_change :: "flt \<Rightarrow> flt \<Rightarrow> flt" where
  "relative_change change baseline =
     (if baseline = Fin 0 then Fin 0 else flt_div change baseline)"

text \<open>\<open>MetricSpec.regressed\<close>: the tail that checks the relative tolerance, for each direction.\<close>

definition higher_tolerance :: "metric_spec \<Rightarrow> flt \<Rightarrow> flt \<Rightarrow> bool \<times> string" where
  "higher_tolerance sp baseline candidate =
     (let permitted = flt_mult baseline (Fin (1 - sp_tolerance sp))
      in if flt_less candidate permitted
         then (let drop = relative_change (flt_sub baseline candidate) baseline
               in (True, ''dropped '' @ fmt_flt 2 (flt_mult drop (Fin 100)) @ ''% ('' @ fmt_flt 4 baseline
                    @ '' -> '' @ fmt_flt 4 candidate @ ''), tolerance is ''
                    @ fmt_fixed 1 (sp_tolerance sp * 100) @ ''%''))
         else (False, []))"

definition lower_tolerance :: "metric_spec \<Rightarrow> flt \<Rightarrow> flt \<Rightarrow> bool \<times> string" where
  "lower_tolerance sp baseline candidate =
     (let permitted = flt_mult baseline (Fin (1 + sp_tolerance sp))
      in if flt_less permitted candidate
         then (let increase = relative_change (flt_sub candidate baseline) baseline
               in (True, ''increased '' @ fmt_flt 2 (flt_mult increase (Fin 100)) @ ''% ('' @ fmt_flt 2 baseline
                    @ '' -> '' @ fmt_flt 2 candidate @ ''), tolerance is ''
                    @ fmt_fixed 1 (sp_tolerance sp * 100) @ ''%''))
         else (False, []))"

definition regressed :: "metric_spec \<Rightarrow> flt \<Rightarrow> flt \<Rightarrow> bool \<times> string" where
  "regressed sp baseline candidate =
     (case (sp_direction sp, sp_absolute_floor sp) of
        (HIGHER_IS_BETTER, Some bound) \<Rightarrow>
          if flt_less candidate (Fin bound)
          then (True, fmt_flt 4 candidate @ '' is below the absolute floor of '' @ fmt_fixed 4 bound)
          else higher_tolerance sp baseline candidate
      | (HIGHER_IS_BETTER, None) \<Rightarrow> higher_tolerance sp baseline candidate
      | (LOWER_IS_BETTER, Some bound) \<Rightarrow>
          if flt_less (Fin bound) candidate
          then (True, fmt_flt 2 candidate @ '' exceeds the absolute ceiling of '' @ fmt_fixed 2 bound)
          else lower_tolerance sp baseline candidate
      | (LOWER_IS_BETTER, None) \<Rightarrow> lower_tolerance sp baseline candidate)"

definition default_specs :: "metric_spec list" where
  "default_specs =
     [\<lparr>sp_name = ''acc_top1'', sp_direction = HIGHER_IS_BETTER, sp_tolerance = 2/100, sp_absolute_floor = Some (80/100)\<rparr>,
      \<lparr>sp_name = ''acc_top5'', sp_direction = HIGHER_IS_BETTER, sp_tolerance = 2/100, sp_absolute_floor = Some (93/100)\<rparr>,
      \<lparr>sp_name = ''latency_p50_ms'', sp_direction = LOWER_IS_BETTER, sp_tolerance = 20/100, sp_absolute_floor = None\<rparr>,
      \<lparr>sp_name = ''latency_p95_ms'', sp_direction = LOWER_IS_BETTER, sp_tolerance = 25/100, sp_absolute_floor = None\<rparr>,
      \<lparr>sp_name = ''artifact_size_mb'', sp_direction = LOWER_IS_BETTER, sp_tolerance = 10/100, sp_absolute_floor = None\<rparr>]"

section \<open>The comparison\<close>

record regression_result =
  rr_metric :: string
  rr_baseline :: flt
  rr_candidate :: flt
  rr_regressed :: bool
  rr_detail :: string
  rr_improved :: bool

record regression_report =
  rp_model_name :: string
  rp_baseline_version :: string
  rp_candidate_version :: string
  rp_results :: "regression_result list"
  rp_missing_metrics :: "string list"

definition rp_passed :: "regression_report \<Rightarrow> bool" where
  "rp_passed r \<longleftrightarrow> rp_missing_metrics r = [] \<and> \<not> list_ex rr_regressed (rp_results r)"

definition regressions :: "regression_report \<Rightarrow> regression_result list" where
  "regressions r = filter rr_regressed (rp_results r)"

definition rp_summary :: "regression_report \<Rightarrow> string" where
  "rp_summary r =
     (if rp_missing_metrics r \<noteq> []
      then ''FAILED: metrics missing from the candidate: '' @ join '', '' (rp_missing_metrics r)
      else if regressions r \<noteq> []
      then join [CHR 0x0A]
             ((''FAILED: '' @ show_nat (length (regressions r)) @ '' regression(s)'')
              # map (\<lambda>x. ''  '' @ rr_metric x @ '': '' @ rr_detail x) (regressions r))
      else (let improved = filter rr_improved (rp_results r);
                suffix = (if improved \<noteq> [] then '' ('' @ show_nat (length improved) @ '' improved)'' else [])
            in ''PASSED: '' @ show_nat (length (rp_results r)) @ '' metrics within tolerance'' @ suffix))"

text \<open>What \<open>float(...)\<close> meets in a JSON document, and a document as \<open>compare_to_baseline\<close> reads it:
  the metrics under their own key or, in a flat document, beside the others. A \<open>metrics\<close> entry that
  is not an object is outside the model.\<close>

datatype metric_value = MNum flt | MText string | MOther

record document =
  dc_model_name :: "string option"
  dc_version :: "string option"
  dc_metrics :: "(string, metric_value) dict option"
  dc_flat :: "(string, metric_value) dict"

definition metrics_of :: "document \<Rightarrow> (string, metric_value) dict" where
  "metrics_of d = (case dc_metrics d of Some m \<Rightarrow> m | None \<Rightarrow> dc_flat d)"

definition metric_float :: "(string \<Rightarrow> flt option) \<Rightarrow> metric_value \<Rightarrow> flt result" where
  "metric_float parse v =
     (case v of
        MNum x \<Rightarrow> Inr x
      | MText s \<Rightarrow> (case parse s of Some x \<Rightarrow> Inr x | None \<Rightarrow> Inl (value_error s))
      | MOther \<Rightarrow> Inl (type_error ''float() argument must be a string or a real number''))"

definition compare_metric :: "metric_spec \<Rightarrow> flt \<Rightarrow> flt \<Rightarrow> regression_result" where
  "compare_metric sp baseline_value candidate_value =
     (case regressed sp baseline_value candidate_value of (worse, detail) \<Rightarrow>
      let improved = (if sp_direction sp = HIGHER_IS_BETTER then flt_less baseline_value candidate_value
                      else flt_less candidate_value baseline_value)
      in \<lparr>rr_metric = sp_name sp, rr_baseline = baseline_value, rr_candidate = candidate_value,
          rr_regressed = worse,
          rr_detail = (if detail \<noteq> [] then detail
                       else fmt_flt 4 baseline_value @ '' -> '' @ fmt_flt 4 candidate_value
                            @ (if improved then '' (improved)'' else [])),
          rr_improved = improved \<and> \<not> worse\<rparr>)"

fun compare_specs ::
  "(string \<Rightarrow> flt option) \<Rightarrow> (string, metric_value) dict \<Rightarrow> (string, metric_value) dict \<Rightarrow> metric_spec list
   \<Rightarrow> regression_report \<Rightarrow> regression_report result" where
  "compare_specs parse bm cm [] report = Inr report"
| "compare_specs parse bm cm (sp # sps) report =
     (case dict_get bm (sp_name sp) of
        None \<Rightarrow> compare_specs parse bm cm sps report
      | Some bv \<Rightarrow>
          (case dict_get cm (sp_name sp) of
             None \<Rightarrow> compare_specs parse bm cm sps
                       (report\<lparr>rp_missing_metrics := rp_missing_metrics report @ [sp_name sp]\<rparr>)
           | Some cv \<Rightarrow>
               res_bind (metric_float parse bv) (\<lambda>b.
               res_bind (metric_float parse cv) (\<lambda>c.
               compare_specs parse bm cm sps
                 (report\<lparr>rp_results := rp_results report @ [compare_metric sp b c]\<rparr>)))))"

definition compare_to_baseline ::
  "(string \<Rightarrow> flt option) \<Rightarrow> document \<Rightarrow> document \<Rightarrow> metric_spec list \<Rightarrow> string \<Rightarrow> regression_report result" where
  "compare_to_baseline parse baseline candidate specs model_name =
     compare_specs parse (metrics_of baseline) (metrics_of candidate) specs
       \<lparr>rp_model_name = (if model_name \<noteq> [] then model_name
                         else case dc_model_name baseline of Some n \<Rightarrow> n | None \<Rightarrow> []),
        rp_baseline_version = (case dc_version baseline of Some v \<Rightarrow> v | None \<Rightarrow> ''unknown''),
        rp_candidate_version = (case dc_version candidate of Some v \<Rightarrow> v | None \<Rightarrow> ''candidate''),
        rp_results = [], rp_missing_metrics = []\<rparr>"

definition load_baseline :: "(string \<Rightarrow> document option) \<Rightarrow> string \<Rightarrow> document result" where
  "load_baseline files path =
     (case files path of
        None \<Rightarrow> Inl (PyExc ''FileNotFoundError'' (''No baseline at '' @ path
          @ ''. Record one with `write_baseline` after a release you are willing to be measured against.''))
      | Some d \<Rightarrow> Inr d)"

text \<open>\<open>write_baseline\<close>: the time and the notes it records beside are never read back.\<close>

definition write_baseline ::
  "string \<Rightarrow> string \<Rightarrow> string \<Rightarrow> (string, flt) dict \<Rightarrow> (string \<Rightarrow> document option) \<Rightarrow> (string \<Rightarrow> document option)" where
  "write_baseline path model_name version metrics files =
     files(path \<mapsto> \<lparr>dc_model_name = Some model_name, dc_version = Some version,
                    dc_metrics = Some (map (\<lambda>(n, x). (n, MNum x)) metrics), dc_flat = []\<rparr>)"

section \<open>The script\<close>

record benchmark_row =
  br_backend :: string
  br_batch_size :: int
  br_p50_ms :: flt
  br_p95_ms :: flt

text \<open>What the script finds: the runs of the directory in the order of the listing with whether they
  have a configuration and their modification time, each run's metrics, the size of the classifier,
  the benchmark report and the baselines.\<close>

record gate_files =
  gf_runs :: "(string \<times> bool \<times> int) list"
  gf_run_metrics :: "string \<Rightarrow> (string, metric_value) dict option"
  gf_classifier_bytes :: "int option"
  gf_benchmark :: "benchmark_row list option"
  gf_baselines :: "string \<Rightarrow> document option"

record gate_args =
  ga_baseline :: string
  ga_candidate :: "string option"
  ga_update_baseline :: bool

text \<open>\<open>max(candidates, key=mtime)\<close> keeps the first of equal keys.\<close>

fun latest :: "(string \<times> bool \<times> int) \<Rightarrow> (string \<times> bool \<times> int) list \<Rightarrow> string \<times> bool \<times> int" where
  "latest best [] = best"
| "latest best (r # rs) = latest (if snd (snd best) < snd (snd r) then r else best) rs"

definition find_latest_run :: "(string \<times> bool \<times> int) list \<Rightarrow> string result" where
  "find_latest_run runs =
     (case filter (\<lambda>r. fst (snd r)) runs of
        [] \<Rightarrow> Inl (PyExc ''SystemExit'' ''No training runs found'')
      | r # rs \<Rightarrow> Inr (fst (latest r rs)))"

definition flt_round :: "nat \<Rightarrow> flt \<Rightarrow> flt" where
  "flt_round n x = (case x of Fin r \<Rightarrow> Fin (py_round n r) | _ \<Rightarrow> x)"

definition copy_metric ::
  "(string \<Rightarrow> flt option) \<Rightarrow> (string, metric_value) dict \<Rightarrow> string \<times> string \<Rightarrow> (string, flt) dict
   \<Rightarrow> (string, flt) dict result" where
  "copy_metric parse run_metrics st metrics =
     (case dict_get run_metrics (fst st) of
        None \<Rightarrow> Inr metrics
      | Some v \<Rightarrow> res_bind (metric_float parse v) (\<lambda>x. Inr (dict_set (snd st) x metrics)))"

definition serving_rows :: "benchmark_row list \<Rightarrow> benchmark_row list" where
  "serving_rows rows = filter (\<lambda>r. br_backend r = ''onnxruntime-cuda'' \<and> br_batch_size r = 1) rows"

definition add_size :: "int option \<Rightarrow> (string, flt) dict \<Rightarrow> (string, flt) dict" where
  "add_size bytes metrics =
     (case bytes of None \<Rightarrow> metrics
      | Some n \<Rightarrow> dict_set ''artifact_size_mb'' (Fin (py_round 1 (of_int n / 1000000))) metrics)"

definition add_latency :: "benchmark_row list option \<Rightarrow> (string, flt) dict \<Rightarrow> (string, flt) dict" where
  "add_latency benchmark metrics =
     (case benchmark of
        None \<Rightarrow> metrics
      | Some rows \<Rightarrow>
          (case serving_rows rows of
             [] \<Rightarrow> metrics
           | r # _ \<Rightarrow> dict_set ''latency_p95_ms'' (flt_round 2 (br_p95_ms r))
                        (dict_set ''latency_p50_ms'' (flt_round 2 (br_p50_ms r)) metrics)))"

definition collect_candidate_metrics ::
  "(string \<Rightarrow> flt option) \<Rightarrow> gate_files \<Rightarrow> string \<Rightarrow> (string, flt) dict result" where
  "collect_candidate_metrics parse F run_dir =
     (case gf_run_metrics F run_dir of
        None \<Rightarrow> Inl (PyExc ''SystemExit'' (''No metrics.json in '' @ run_dir))
      | Some run_metrics \<Rightarrow>
          res_bind (copy_metric parse run_metrics (''final_acc_top1'', ''acc_top1'') []) (\<lambda>m1.
          res_bind (copy_metric parse run_metrics (''final_acc_top5'', ''acc_top5'') m1) (\<lambda>m2.
          Inr (add_latency (gf_benchmark F) (add_size (gf_classifier_bytes F) m2)))))"

text \<open>\<open>Path.name\<close> of a run directory: what follows the last slash.\<close>

definition path_name :: "string \<Rightarrow> string" where
  "path_name p = rev (takeWhile (\<lambda>c. c \<noteq> CHR ''/'') (rev p))"

definition check_regression ::
  "(string \<Rightarrow> flt option) \<Rightarrow> gate_args \<Rightarrow> gate_files \<Rightarrow> (gate_files \<times> int) result" where
  "check_regression parse args F =
     res_bind (case ga_candidate args of Some d \<Rightarrow> Inr d | None \<Rightarrow> find_latest_run (gf_runs F)) (\<lambda>run_dir.
     res_bind (collect_candidate_metrics parse F run_dir) (\<lambda>candidate_metrics.
     if ga_update_baseline args
     then Inr (F\<lparr>gf_baselines := write_baseline (ga_baseline args) ''tiny-imagenet-classifier''
                   (path_name run_dir) candidate_metrics (gf_baselines F)\<rparr>, 0)
     else
       res_bind (load_baseline (gf_baselines F) (ga_baseline args)) (\<lambda>baseline.
       res_bind (compare_to_baseline parse baseline
           \<lparr>dc_model_name = None, dc_version = Some (path_name run_dir),
            dc_metrics = Some (map (\<lambda>(n, x). (n, MNum x)) candidate_metrics), dc_flat = []\<rparr> default_specs []) (\<lambda>report.
       Inr (F, if rp_passed report then 0 else 1)))))"

section \<open>What the gate lets through\<close>

definition breaches_bound :: "metric_spec \<Rightarrow> real \<Rightarrow> bool" where
  "breaches_bound sp y =
     (case sp_absolute_floor sp of None \<Rightarrow> False
      | Some b \<Rightarrow> (case sp_direction sp of HIGHER_IS_BETTER \<Rightarrow> y < b | LOWER_IS_BETTER \<Rightarrow> b < y))"

definition beyond_tolerance :: "metric_spec \<Rightarrow> real \<Rightarrow> real \<Rightarrow> bool" where
  "beyond_tolerance sp x y =
     (case sp_direction sp of
        HIGHER_IS_BETTER \<Rightarrow> y < x * (1 - sp_tolerance sp)
      | LOWER_IS_BETTER \<Rightarrow> x * (1 + sp_tolerance sp) < y)"

definition at_least_as_good :: "metric_spec \<Rightarrow> real \<Rightarrow> real \<Rightarrow> bool" where
  "at_least_as_good sp x y = (case sp_direction sp of HIGHER_IS_BETTER \<Rightarrow> x \<le> y | LOWER_IS_BETTER \<Rightarrow> y \<le> x)"

lemma regressed_finite: "fst (regressed sp (Fin x) (Fin y)) \<longleftrightarrow> breaches_bound sp y \<or> beyond_tolerance sp x y"
  by (cases "sp_direction sp"; cases "sp_absolute_floor sp")
    (auto simp: regressed_def higher_tolerance_def lower_tolerance_def breaches_bound_def beyond_tolerance_def Let_def)

lemma regressed_bound:
  assumes "sp_absolute_floor sp = Some b" "\<not> fst (regressed sp x y)"
  shows "\<not> (case sp_direction sp of HIGHER_IS_BETTER \<Rightarrow> flt_less y (Fin b) | LOWER_IS_BETTER \<Rightarrow> flt_less (Fin b) y)"
  using assms by (cases "sp_direction sp") (auto simp: regressed_def)

lemma better_within:
  assumes "0 \<le> x" "0 \<le> sp_tolerance sp" "at_least_as_good sp x y"
  shows "\<not> beyond_tolerance sp x y"
proof -
  have "x * (1 - sp_tolerance sp) \<le> x" "x \<le> x * (1 + sp_tolerance sp)"
    using assms(1,2) by (auto simp: algebra_simps)
  then show ?thesis using assms(3) by (cases "sp_direction sp") (auto simp: beyond_tolerance_def at_least_as_good_def)
qed

lemma better_keeps:
  assumes "at_least_as_good sp y z" "fst (regressed sp (Fin x) (Fin z))"
  shows "fst (regressed sp (Fin x) (Fin y))"
  using assms unfolding regressed_finite
  by (cases "sp_direction sp"; cases "sp_absolute_floor sp")
    (auto simp: breaches_bound_def beyond_tolerance_def at_least_as_good_def)

text \<open>
  The gate is directional. For finite measurements, a candidate at least as good as a
  non-negative baseline is rejected only for breaching the absolute bound, and then it is
  rejected although it improves on the baseline. A better candidate is never rejected where a worse
  one is accepted, and a rejection always says why.
\<close>

theorem gate_directional:
  assumes "0 \<le> x" "0 \<le> sp_tolerance sp" "at_least_as_good sp x y" "at_least_as_good sp y z"
  shows "fst (regressed sp (Fin x) (Fin y)) = breaches_bound sp y
    \<and> (fst (regressed sp (Fin w) (Fin z)) \<longrightarrow> fst (regressed sp (Fin w) (Fin y)))
    \<and> fst (regressed sp v u) = (snd (regressed sp v u) \<noteq> [])"
proof (intro conjI impI)
  show "fst (regressed sp (Fin x) (Fin y)) = breaches_bound sp y"
    using better_within [OF assms(1-3)] by (simp add: regressed_finite)
  show "fst (regressed sp (Fin w) (Fin y))" if "fst (regressed sp (Fin w) (Fin z))"
    by (rule better_keeps [OF assms(4) that])
  show "fst (regressed sp v u) = (snd (regressed sp v u) \<noteq> [])"
    by (cases "sp_direction sp"; cases "sp_absolute_floor sp")
      (auto simp: regressed_def higher_tolerance_def lower_tolerance_def Let_def)
qed

definition accuracy_spec :: metric_spec where
  "accuracy_spec = \<lparr>sp_name = ''acc_top1'', sp_direction = HIGHER_IS_BETTER, sp_tolerance = 2/100,
     sp_absolute_floor = Some (80/100)\<rparr>"

theorem gate_directional_witness:
  "fst (regressed accuracy_spec (Fin (1/2)) (Fin (7/10))) \<and> \<not> fst (regressed accuracy_spec (Fin (1/2)) (Fin (9/10)))"
proof -
  have r: "fst (regressed accuracy_spec (Fin (1/2)) (Fin y)) = breaches_bound accuracy_spec y" if "1/2 \<le> y" for y
    using gate_directional [of "1/2" accuracy_spec y y 0 NaN NaN] that
    by (simp add: accuracy_spec_def at_least_as_good_def)
  show ?thesis unfolding r [of "7/10", simplified] r [of "9/10", simplified]
    by (simp add: accuracy_spec_def breaches_bound_def)
qed

text \<open>What a metric must show where the baseline tracks it.\<close>

definition accepted ::
  "(string \<Rightarrow> flt option) \<Rightarrow> (string, metric_value) dict \<Rightarrow> (string, metric_value) dict \<Rightarrow> metric_spec \<Rightarrow> bool" where
  "accepted parse bm cm sp =
     (case (dict_get bm (sp_name sp), dict_get cm (sp_name sp)) of
        (None, _) \<Rightarrow> True
      | (Some bv, None) \<Rightarrow> False
      | (Some bv, Some cv) \<Rightarrow>
          (case (metric_float parse bv, metric_float parse cv) of
             (Inr b, Inr c) \<Rightarrow> \<not> fst (regressed sp b c)
           | _ \<Rightarrow> False))"

lemma compare_metric_fields [simp]:
  "rr_metric (compare_metric sp b c) = sp_name sp" "rr_regressed (compare_metric sp b c) = fst (regressed sp b c)"
  "rr_baseline (compare_metric sp b c) = b" "rr_candidate (compare_metric sp b c) = c"
  by (auto simp: compare_metric_def Let_def split: prod.splits)

lemma compare_specs_lists:
  assumes "compare_specs parse bm cm sps r = Inr r'"
  shows "rp_missing_metrics r' = rp_missing_metrics r
      @ map sp_name (filter (\<lambda>sp. dict_get bm (sp_name sp) \<noteq> None \<and> dict_get cm (sp_name sp) = None) sps)
    \<and> map rr_metric (rp_results r') = map rr_metric (rp_results r)
      @ map sp_name (filter (\<lambda>sp. dict_get bm (sp_name sp) \<noteq> None \<and> dict_get cm (sp_name sp) \<noteq> None) sps)
    \<and> rp_passed r' = (rp_passed r \<and> list_all (accepted parse bm cm) sps)"
  using assms
proof (induction sps arbitrary: r)
  case (Cons sp sps)
  show ?case
  proof (cases "dict_get bm (sp_name sp)")
    case None
    then show ?thesis using Cons by (simp add: accepted_def)
  next
    case (Some bv)
    note b = Some
    show ?thesis
    proof (cases "dict_get cm (sp_name sp)")
      case None
      have "compare_specs parse bm cm sps (r\<lparr>rp_missing_metrics := rp_missing_metrics r @ [sp_name sp]\<rparr>) = Inr r'"
        using Cons.prems b None by simp
      from Cons.IH [OF this] show ?thesis using b None by (simp add: accepted_def rp_passed_def)
    next
      case (Some cv)
      obtain x y where f: "metric_float parse bv = Inr x" "metric_float parse cv = Inr y"
        and "compare_specs parse bm cm sps (r\<lparr>rp_results := rp_results r @ [compare_metric sp x y]\<rparr>) = Inr r'"
        using Cons.prems b Some by (auto simp: res_bind_Inr_iff)
      from Cons.IH [OF this(3)] show ?thesis using b Some f by (auto simp: accepted_def rp_passed_def)
    qed
  qed
qed simp

lemma compare_to_baseline_Inr:
  assumes "compare_to_baseline parse d d' specs n = Inr r"
  shows "rp_missing_metrics r
      = map sp_name (filter (\<lambda>sp. dict_get (metrics_of d) (sp_name sp) \<noteq> None
                                   \<and> dict_get (metrics_of d') (sp_name sp) = None) specs)"
    and "map rr_metric (rp_results r)
      = map sp_name (filter (\<lambda>sp. dict_get (metrics_of d) (sp_name sp) \<noteq> None
                                   \<and> dict_get (metrics_of d') (sp_name sp) \<noteq> None) specs)"
    and "rp_passed r \<longleftrightarrow> list_all (accepted parse (metrics_of d) (metrics_of d')) specs"
proof -
  note l = compare_specs_lists [OF assms [unfolded compare_to_baseline_def]]
  show "rp_missing_metrics r
      = map sp_name (filter (\<lambda>sp. dict_get (metrics_of d) (sp_name sp) \<noteq> None
                                   \<and> dict_get (metrics_of d') (sp_name sp) = None) specs)"
    and "map rr_metric (rp_results r)
      = map sp_name (filter (\<lambda>sp. dict_get (metrics_of d) (sp_name sp) \<noteq> None
                                   \<and> dict_get (metrics_of d') (sp_name sp) \<noteq> None) specs)"
    using l by simp_all
  show "rp_passed r \<longleftrightarrow> list_all (accepted parse (metrics_of d) (metrics_of d')) specs"
    using l [THEN conjunct2, THEN conjunct2] by (simp add: rp_passed_def [of "regression_report.make _ _ _ _ _", unfolded regression_report.make_def])
qed

section \<open>A chain of releases\<close>

text \<open>Each release was compared with the previous one and passed, and is the next baseline.\<close>

inductive release_step :: "(string \<Rightarrow> flt option) \<Rightarrow> metric_spec list \<Rightarrow> document \<Rightarrow> document \<Rightarrow> bool"
  for parse specs where
  release: "compare_to_baseline parse d d' specs n = Inr r \<Longrightarrow> rp_passed r \<Longrightarrow> release_step parse specs d d'"

inductive_cases release_stepE: "release_step parse specs d d'"

lemma release_step_accepted: "release_step parse specs d d' \<Longrightarrow> sp \<in> set specs
    \<Longrightarrow> accepted parse (metrics_of d) (metrics_of d') sp"
  by (auto elim!: release_stepE simp: compare_to_baseline_Inr(3) list_all_iff)

definition tracked_within_bound :: "(string \<Rightarrow> flt option) \<Rightarrow> metric_spec \<Rightarrow> document \<Rightarrow> bool" where
  "tracked_within_bound parse sp d \<longleftrightarrow>
     (case dict_get (metrics_of d) (sp_name sp) of
        None \<Rightarrow> False
      | Some v \<Rightarrow>
          (case metric_float parse v of
             Inl e \<Rightarrow> False
           | Inr x \<Rightarrow>
               (case sp_absolute_floor sp of
                  None \<Rightarrow> True
                | Some b \<Rightarrow> (case sp_direction sp of
                               HIGHER_IS_BETTER \<Rightarrow> \<not> flt_less x (Fin b) | LOWER_IS_BETTER \<Rightarrow> \<not> flt_less (Fin b) x))))"

lemma accepted_tracked:
  assumes "accepted parse (metrics_of d) (metrics_of d') sp" "dict_get (metrics_of d) (sp_name sp) \<noteq> None"
  shows "tracked_within_bound parse sp d'"
proof -
  obtain bv cv b c where v: "dict_get (metrics_of d) (sp_name sp) = Some bv" "dict_get (metrics_of d') (sp_name sp) = Some cv"
      "metric_float parse bv = Inr b" "metric_float parse cv = Inr c" "\<not> fst (regressed sp b c)"
    using assms by (auto simp: accepted_def split: option.splits sum.splits)
  then show ?thesis
    using regressed_bound [of sp _ b c] by (auto simp: tracked_within_bound_def split: option.splits direction.splits)
qed

text \<open>
  The floor holds across releases. Once a gated metric is in a baseline, however many releases
  follow, each compared only with the one before, every one of them reports the metric and none
  is below its absolute floor (above its ceiling): relative tolerances cannot add up past it.
\<close>

theorem release_chain_floor:
  assumes "(release_step parse specs)\<^sup>+\<^sup>+ d d'" "sp \<in> set specs" "dict_get (metrics_of d) (sp_name sp) \<noteq> None"
  shows "tracked_within_bound parse sp d'"
  using assms(1)
proof induction
  case (base d1)
  then show ?case using accepted_tracked release_step_accepted assms(2,3) by blast
next
  case (step d1 d2)
  then have "dict_get (metrics_of d1) (sp_name sp) \<noteq> None"
    by (auto simp: tracked_within_bound_def split: option.splits)
  with step show ?case using accepted_tracked release_step_accepted assms(2) by blast
qed

definition measured :: "real \<Rightarrow> document" where
  "measured x = \<lparr>dc_model_name = None, dc_version = None, dc_metrics = Some [(''acc_top1'', MNum (Fin x))], dc_flat = []\<rparr>"

lemma measured_step: "80/100 \<le> y \<Longrightarrow> x * (98/100) \<le> y \<Longrightarrow> release_step parse [accuracy_spec] (measured x) (measured y)"
  by (rule release_step.release [where n = "[]", OF compare_to_baseline_def [THEN trans]])
    (auto simp: metrics_of_def measured_def accuracy_spec_def metric_float_def rp_passed_def compare_metric_def
      regressed_def higher_tolerance_def Let_def)

theorem release_chain_floor_witness: "tracked_within_bound (\<lambda>s. None) accuracy_spec (measured (80/100))"
proof -
  have "release_step (\<lambda>s. None) [accuracy_spec] (measured (82/100)) (measured (81/100))"
    "release_step (\<lambda>s. None) [accuracy_spec] (measured (81/100)) (measured (80/100))"
    by (auto intro!: measured_step)
  then have "(release_step (\<lambda>s. None) [accuracy_spec])\<^sup>+\<^sup>+ (measured (82/100)) (measured (80/100))" by auto
  from release_chain_floor [OF this, of accuracy_spec] show ?thesis
    by (simp add: measured_def metrics_of_def accuracy_spec_def)
qed

section \<open>The decision\<close>

lemma dict_get_wrap: "dict_get (map (\<lambda>(n, x). (n, MNum x)) m) k = map_option MNum (dict_get m k)"
  by (induction m) auto

lemma check_regression_decided:
  assumes "check_regression parse args F = Inr (F', code)" "\<not> ga_update_baseline args"
  obtains run_dir cm baseline where
    "(case ga_candidate args of Some d \<Rightarrow> Inr d | None \<Rightarrow> find_latest_run (gf_runs F)) = Inr run_dir"
    "collect_candidate_metrics parse F run_dir = Inr cm" "gf_baselines F (ga_baseline args) = Some baseline" "F' = F"
    "code = (if list_all (accepted parse (metrics_of baseline) (map (\<lambda>(n, x). (n, MNum x)) cm)) default_specs then 0 else 1)"
proof -
  from assms obtain run_dir cm baseline r where *:
    "(case ga_candidate args of Some d \<Rightarrow> Inr d | None \<Rightarrow> find_latest_run (gf_runs F)) = Inr run_dir"
    "collect_candidate_metrics parse F run_dir = Inr cm" "load_baseline (gf_baselines F) (ga_baseline args) = Inr baseline"
    "compare_to_baseline parse baseline
           \<lparr>dc_model_name = None, dc_version = Some (path_name run_dir),
            dc_metrics = Some (map (\<lambda>(n, x). (n, MNum x)) cm), dc_flat = []\<rparr> default_specs [] = Inr r"
    "F' = F" "code = (if rp_passed r then 0 else 1)"
    unfolding check_regression_def by (auto simp: res_bind_Inr_iff)
  have "metrics_of \<lparr>dc_model_name = None, dc_version = Some (path_name run_dir),
            dc_metrics = Some (map (\<lambda>(n, x). (n, MNum x)) cm), dc_flat = []\<rparr> = map (\<lambda>(n, x). (n, MNum x)) cm"
    by (simp add: metrics_of_def)
  with compare_to_baseline_Inr(3) [OF *(4)] * that show ?thesis
    by (auto simp: load_baseline_def split: option.splits)
qed

text \<open>What an accepted candidate shows for a metric with a finite baseline.\<close>

definition meets_baseline :: "(string, metric_value) dict \<Rightarrow> (string, flt) dict \<Rightarrow> metric_spec \<Rightarrow> bool" where
  "meets_baseline bm cm sp =
     (case dict_get bm (sp_name sp) of
        Some (MNum (Fin x)) \<Rightarrow>
          (case dict_get cm (sp_name sp) of
             None \<Rightarrow> False
           | Some (Fin y) \<Rightarrow> \<not> breaches_bound sp y \<and> \<not> beyond_tolerance sp x y
           | Some _ \<Rightarrow> True)
      | _ \<Rightarrow> True)"

lemma accepted_meets: "accepted parse bm (map (\<lambda>(n, x). (n, MNum x)) cm) sp \<Longrightarrow> meets_baseline bm cm sp"
  by (auto simp: accepted_def meets_baseline_def dict_get_wrap metric_float_def regressed_finite
      split: option.splits metric_value.splits flt.splits)


definition gate_demo :: "flt \<Rightarrow> gate_files" where
  "gate_demo accuracy =
     \<lparr>gf_runs = [(''runs/a'', True, 1), (''runs/b'', True, 2)],
      gf_run_metrics = (\<lambda>d. if d = ''runs/b'' then Some [(''final_acc_top1'', MNum accuracy)] else None),
      gf_classifier_bytes = None, gf_benchmark = None, gf_baselines = (\<lambda>p. Some (measured (86/100)))\<rparr>"

lemma gate_demo_run:
  "check_regression parse \<lparr>ga_baseline = ''b'', ga_candidate = None, ga_update_baseline = False\<rparr> (gate_demo x)
   = Inr (gate_demo x, if fst (regressed accuracy_spec (Fin (86/100)) x) then 1 else 0)"
proof -
  have c: "collect_candidate_metrics parse (gate_demo x) ''runs/b'' = Inr [(''acc_top1'', x)]"
    by (simp add: collect_candidate_metrics_def gate_demo_def copy_metric_def metric_float_def add_latency_def add_size_def)
  have l: "find_latest_run (gf_runs (gate_demo x)) = Inr ''runs/b''"
    by (simp add: find_latest_run_def gate_demo_def)
  have b: "load_baseline (gf_baselines (gate_demo x)) ''b'' = Inr (measured (86/100))"
    by (simp add: load_baseline_def gate_demo_def)
  show ?thesis
    unfolding check_regression_def gate_args.simps option.case if_False l c b res_bind.simps
    by (simp add: compare_to_baseline_def metrics_of_def measured_def default_specs_def metric_float_def rp_passed_def
        accuracy_spec_def compare_metric_fields [unfolded compare_metric_def])
qed


text \<open>A measurement that is not a number passes every check of the gate.\<close>

theorem nan_passes_gate:
  "check_regression parse \<lparr>ga_baseline = ''b'', ga_candidate = None, ga_update_baseline = False\<rparr> (gate_demo NaN)
   = Inr (gate_demo NaN, 0)"
  unfolding gate_demo_run by (simp add: regressed_def accuracy_spec_def higher_tolerance_def)

section \<open>Recording a baseline\<close>

lemma compare_specs_defined:
  assumes "\<And>sp v. sp \<in> set sps \<Longrightarrow> dict_get bm (sp_name sp) = Some v \<Longrightarrow> \<exists>x. metric_float parse v = Inr x"
    and "\<And>sp v. sp \<in> set sps \<Longrightarrow> dict_get cm (sp_name sp) = Some v \<Longrightarrow> \<exists>x. metric_float parse v = Inr x"
  shows "\<exists>r'. compare_specs parse bm cm sps r = Inr r'"
  using assms
proof (induction sps arbitrary: r)
  case (Cons sp sps)
  have rest: "\<exists>r'. compare_specs parse bm cm sps q = Inr r'" for q
    by (rule Cons.IH) (use Cons.prems in \<open>metis list.set_intros(2)\<close>)+
  obtain x where "dict_get bm (sp_name sp) = Some v \<Longrightarrow> metric_float parse v = Inr (x v)" for v
    using Cons.prems(1) [of sp] by (metis list.set_intros(1))
  moreover obtain y where "dict_get cm (sp_name sp) = Some v \<Longrightarrow> metric_float parse v = Inr (y v)" for v
    using Cons.prems(2) [of sp] by (metis list.set_intros(1))
  ultimately show ?case using rest by (auto split: option.splits)
qed simp

lemma wrapped_defined: "dict_get (map (\<lambda>(n, x). (n, MNum x)) m) k = Some v \<Longrightarrow> \<exists>x. metric_float parse v = Inr x"
  by (auto simp: dict_get_wrap metric_float_def)

lemma accepted_self:
  assumes "\<And>v. dict_get m (sp_name sp) = Some v \<Longrightarrow> \<exists>x. v = Fin x \<and> 0 \<le> x" "0 \<le> sp_tolerance sp"
  shows "accepted parse (map (\<lambda>(n, x). (n, MNum x)) m) (map (\<lambda>(n, x). (n, MNum x)) m) sp
     \<longleftrightarrow> (case dict_get m (sp_name sp) of Some (Fin y) \<Rightarrow> \<not> breaches_bound sp y | _ \<Rightarrow> True)"
proof (cases "dict_get m (sp_name sp)")
  case (Some v)
  then obtain x where "v = Fin x" "0 \<le> x" using assms(1) by blast
  moreover have "at_least_as_good sp x x" by (cases "sp_direction sp") (auto simp: at_least_as_good_def)
  ultimately show ?thesis using Some better_within [of x sp x] assms(2)
    by (simp add: accepted_def dict_get_wrap metric_float_def regressed_finite)
qed (simp add: accepted_def dict_get_wrap)

lemma default_tolerances: "sp \<in> set default_specs \<Longrightarrow> 0 \<le> sp_tolerance sp"
  by (auto simp: default_specs_def)

lemma collect_frame: "collect_candidate_metrics parse (F\<lparr>gf_baselines := b\<rparr>) d = collect_candidate_metrics parse F d"
proof -
  have "gf_run_metrics (F\<lparr>gf_baselines := b\<rparr>) = gf_run_metrics F" "gf_benchmark (F\<lparr>gf_baselines := b\<rparr>) = gf_benchmark F"
    "gf_classifier_bytes (F\<lparr>gf_baselines := b\<rparr>) = gf_classifier_bytes F" by simp_all
  then show ?thesis unfolding collect_candidate_metrics_def by metis
qed

text \<open>
  A recorded baseline is the one measured against. Updating the baseline with a run and then
  checking the same run compares every metric with itself: when the measurements are finite and
  not negative, the check exits with 0 unless one of them breaches its absolute bound. Other
  baselines are untouched. A metric the run did not have is no longer gated afterwards: any later
  candidate is accepted for it, measured or not.
\<close>

theorem baseline_roundtrip:
  assumes "check_regression parse args F = Inr (F', code)" "ga_update_baseline args" "ga_candidate args = Some run_dir"
    and "collect_candidate_metrics parse F run_dir = Inr cm"
    and "\<And>sp v. sp \<in> set default_specs \<Longrightarrow> dict_get cm (sp_name sp) = Some v \<Longrightarrow> \<exists>x. v = Fin x \<and> 0 \<le> x"
  shows "check_regression parse (args\<lparr>ga_update_baseline := False\<rparr>) F'
      = Inr (F', if list_all (\<lambda>sp. case dict_get cm (sp_name sp) of Some (Fin y) \<Rightarrow> \<not> breaches_bound sp y | _ \<Rightarrow> True)
                      default_specs then 0 else 1)
    \<and> (\<forall>p. p \<noteq> ga_baseline args \<longrightarrow> gf_baselines F' p = gf_baselines F p)
    \<and> (\<exists>b. gf_baselines F' (ga_baseline args) = Some b
         \<and> (\<forall>sp other. dict_get cm (sp_name sp) = None \<longrightarrow> accepted parse (metrics_of b) other sp))"
proof -
  let ?m = "map (\<lambda>(n, x). (n, MNum x)) cm"
  define b where "b = \<lparr>dc_model_name = Some ''tiny-imagenet-classifier'', dc_version = Some (path_name run_dir),
      dc_metrics = Some ?m, dc_flat = []\<rparr>"
  have F': "F' = F\<lparr>gf_baselines := (gf_baselines F)(ga_baseline args \<mapsto> b)\<rparr>"
    using assms(1-4) by (simp add: check_regression_def write_baseline_def b_def)
  have get: "gf_baselines F' (ga_baseline args) = Some b" by (simp add: F')
  have bm: "metrics_of b = ?m" by (simp add: b_def metrics_of_def)
  define d where "d = \<lparr>dc_model_name = None, dc_version = Some (path_name run_dir), dc_metrics = Some ?m, dc_flat = []\<rparr>"
  have dm: "metrics_of d = ?m" by (simp add: d_def metrics_of_def)
  obtain r where r: "compare_to_baseline parse b d default_specs [] = Inr r"
    using compare_specs_defined [of default_specs ?m parse ?m] wrapped_defined
    unfolding compare_to_baseline_def bm dm by metis
  have "rp_passed r = list_all (accepted parse ?m ?m) default_specs"
    using compare_to_baseline_Inr(3) [OF r] by (simp add: bm dm)
  also have "\<dots> = list_all (\<lambda>sp. case dict_get cm (sp_name sp) of Some (Fin y) \<Rightarrow> \<not> breaches_bound sp y | _ \<Rightarrow> True)
                      default_specs"
    by (intro list.pred_cong refl accepted_self assms(5) default_tolerances)
  finally have passed: "rp_passed r = \<dots>" .
  have col: "collect_candidate_metrics parse F' run_dir = Inr cm" using assms(4) by (simp add: F' collect_frame)
  have "check_regression parse (args\<lparr>ga_update_baseline := False\<rparr>) F' = Inr (F', if rp_passed r then 0 else 1)"
    using assms(3) col get r unfolding d_def by (simp add: check_regression_def load_baseline_def)
  then have "check_regression parse (args\<lparr>ga_update_baseline := False\<rparr>) F'
      = Inr (F', if list_all (\<lambda>sp. case dict_get cm (sp_name sp) of Some (Fin y) \<Rightarrow> \<not> breaches_bound sp y | _ \<Rightarrow> True)
                      default_specs then 0 else 1)" unfolding passed .
  moreover have "accepted parse (metrics_of b) other sp" if "dict_get cm (sp_name sp) = None" for sp other
    using that by (simp add: accepted_def bm dict_get_wrap)
  ultimately show ?thesis using get by (auto simp: F')
qed

theorem baseline_roundtrip_witness:
  "\<exists>F'. check_regression (\<lambda>s. None) \<lparr>ga_baseline = ''b'', ga_candidate = Some ''runs/b'', ga_update_baseline = False\<rparr> F'
     = Inr (F', 0) \<and> gf_runs F' = gf_runs (gate_demo (Fin (9/10)))"
proof -
  let ?args = "\<lparr>ga_baseline = ''b'', ga_candidate = Some ''runs/b'', ga_update_baseline = True\<rparr>"
  have c: "collect_candidate_metrics (\<lambda>s. None) (gate_demo (Fin (9/10))) ''runs/b'' = Inr [(''acc_top1'', Fin (9/10))]"
    by (simp add: collect_candidate_metrics_def gate_demo_def copy_metric_def metric_float_def add_latency_def add_size_def)
  obtain F' where u: "check_regression (\<lambda>s. None) ?args (gate_demo (Fin (9/10))) = Inr (F', 0)"
    and r: "gf_runs F' = gf_runs (gate_demo (Fin (9/10)))"
    using c by (simp add: check_regression_def)
  have "\<exists>x. v = Fin x \<and> 0 \<le> x" if "sp \<in> set default_specs" "dict_get [(''acc_top1'', Fin (9/10))] (sp_name sp) = Some v" for sp v
    using that(2) by (auto split: if_splits)
  from baseline_roundtrip [OF u _ _ c this, THEN conjunct1]
  have "check_regression (\<lambda>s. None) (?args\<lparr>ga_update_baseline := False\<rparr>) F' = Inr (F', 0)"
    by (simp add: default_specs_def breaches_bound_def)
  then show ?thesis using r by auto
qed

end
