(* ===== verification/Drift.thy ===== *)
theory Drift
  imports Prelude
begin

text \<open>
  Drift between two windows of the audit trail (\<open>models/validation/drift.py\<close>) and the job that reads
  them and decides (\<open>scripts/analyse_drift.py\<close>). SciPy's Kolmogorov-Smirnov test, NumPy's median and
  the order in which a Python set is iterated are parameters.
\<close>

section \<open>Severity\<close>

datatype drift_severity = INSUFFICIENT_DATA | NONE | MODERATE | SIGNIFICANT

fun severity_value :: "drift_severity \<Rightarrow> string" where
  "severity_value NONE = ''none''"
| "severity_value MODERATE = ''moderate''"
| "severity_value SIGNIFICANT = ''significant''"
| "severity_value INSUFFICIENT_DATA = ''insufficient_data''"

text \<open>How much a severity says: the worst of several is their maximum.\<close>

fun severity_rank :: "drift_severity \<Rightarrow> nat" where
  "severity_rank INSUFFICIENT_DATA = 0"
| "severity_rank NONE = 1"
| "severity_rank MODERATE = 2"
| "severity_rank SIGNIFICANT = 3"

lemma severity_rank_inject: "severity_rank a = severity_rank b \<longleftrightarrow> a = b"
  by (cases a; cases b) auto

instantiation drift_severity :: linorder
begin

definition less_eq_drift_severity :: "drift_severity \<Rightarrow> drift_severity \<Rightarrow> bool" where
  "a \<le> b \<longleftrightarrow> severity_rank a \<le> severity_rank b"

definition less_drift_severity :: "drift_severity \<Rightarrow> drift_severity \<Rightarrow> bool" where
  "a < b \<longleftrightarrow> severity_rank a < severity_rank b"

instance
  by standard (auto simp: less_eq_drift_severity_def less_drift_severity_def severity_rank_inject)

end

record drift_result =
  dr_feature :: string
  dr_statistic :: real
  dr_method :: string
  dr_severity :: drift_severity
  dr_p_value :: "real option"
  dr_baseline_size :: nat
  dr_current_size :: nat
  dr_detail :: string

definition drifted :: "drift_result \<Rightarrow> bool" where
  "drifted r \<longleftrightarrow> dr_severity r \<in> {MODERATE, SIGNIFICANT}"

record drift_report =
  dp_results :: "drift_result list"
  dp_model_name :: string
  dp_model_version :: string

definition drifted_features :: "drift_report \<Rightarrow> drift_result list" where
  "drifted_features r = filter drifted (dp_results r)"

definition overall_severity :: "drift_report \<Rightarrow> drift_severity" where
  "overall_severity r =
     (if dp_results r = [] then INSUFFICIENT_DATA
      else if list_ex (\<lambda>x. dr_severity x = SIGNIFICANT) (dp_results r) then SIGNIFICANT
      else if list_ex (\<lambda>x. dr_severity x = MODERATE) (dp_results r) then MODERATE
      else if list_all (\<lambda>x. dr_severity x = INSUFFICIENT_DATA) (dp_results r) then INSUFFICIENT_DATA
      else NONE)"

section \<open>Population stability index\<close>

definition psi_no_shift :: real where
  "psi_no_shift = 10/100"

definition psi_moderate_shift :: real where
  "psi_moderate_shift = 25/100"

definition ks_material_statistic :: real where
  "ks_material_statistic = 15/100"

definition min_samples :: nat where
  "min_samples = 100"

text \<open>A category's share of a window, never below \<open>epsilon\<close>.\<close>

definition category_share :: "real \<Rightarrow> 'c list \<Rightarrow> 'c \<Rightarrow> real" where
  "category_share epsilon xs category = max (real (count_list xs category) / real (max (length xs) 1)) epsilon"

definition psi_contribution :: "real \<Rightarrow> 'c list \<Rightarrow> 'c list \<Rightarrow> 'c \<Rightarrow> real" where
  "psi_contribution epsilon baseline current category =
     (let baseline_share = category_share epsilon baseline category;
          current_share = category_share epsilon current category
      in (current_share - baseline_share) * ln (current_share / baseline_share))"

text \<open>\<open>iter xs\<close> lists the set of the elements of \<open>xs\<close> in the order of its iteration; \<open>to_str\<close> is
  \<open>str\<close> on categories. Contributions are keyed by the text, the index sums over categories.\<close>

definition population_stability_index ::
  "('c list \<Rightarrow> 'c list) \<Rightarrow> ('c \<Rightarrow> string) \<Rightarrow> 'c list \<Rightarrow> 'c list \<Rightarrow> real \<Rightarrow> real \<times> (string, real) dict" where
  "population_stability_index iter to_str baseline current epsilon =
     foldl (\<lambda>(psi, contributions) category.
         let contribution = psi_contribution epsilon baseline current category
         in (psi + contribution, dict_set (to_str category) contribution contributions))
       (0, []) (iter (baseline @ current))"

section \<open>One feature\<close>

definition fmt_signed :: "nat \<Rightarrow> real \<Rightarrow> string" where
  "fmt_signed n x = (if x < 0 then fmt_fixed n x else ''+'' @ fmt_fixed n x)"

text \<open>\<open>f\"{x:.ne}\"\<close>: rounding may carry into the next power of ten.\<close>

definition fmt_exponent :: "int \<Rightarrow> string" where
  "fmt_exponent e = (if e < 0 then ''-'' else ''+'') @ pad_zeros 2 (show_nat (nat \<bar>e\<bar>))"

definition fmt_sci :: "nat \<Rightarrow> real \<Rightarrow> string" where
  "fmt_sci n x =
     (let e0 = (if x = 0 then 0 else \<lfloor>log 10 \<bar>x\<bar>\<rfloor>);
          m0 = round_half_even (\<bar>x\<bar> * 10 powi (int n - e0));
          carry = (10 ^ Suc n \<le> m0);
          m = (if carry then m0 div 10 else m0);
          e = (if carry then e0 + 1 else e0)
      in (if x < 0 then ''-'' else []) @ fmt_fixed n (of_int m / 10 ^ n) @ ''e'' @ fmt_exponent e)"

definition insufficient :: "string \<Rightarrow> string \<Rightarrow> nat \<Rightarrow> nat \<Rightarrow> drift_result" where
  "insufficient feature method b c =
     \<lparr>dr_feature = feature, dr_statistic = 0, dr_method = method, dr_severity = INSUFFICIENT_DATA, dr_p_value = None,
      dr_baseline_size = b, dr_current_size = c,
      dr_detail = ''Need at least '' @ show_nat min_samples @ '' samples in each period.''\<rparr>"

definition detect_categorical_drift ::
  "('c list \<Rightarrow> 'c list) \<Rightarrow> ('c \<Rightarrow> string) \<Rightarrow> string \<Rightarrow> 'c list \<Rightarrow> 'c list \<Rightarrow> drift_result" where
  "detect_categorical_drift iter to_str feature baseline current =
     (if length baseline < min_samples \<or> length current < min_samples
      then insufficient feature ''psi'' (length baseline) (length current)
      else
        (case population_stability_index iter to_str baseline current (1 / 1000000) of (psi, contributions) \<Rightarrow>
         let severity = (if psi_moderate_shift \<le> psi then SIGNIFICANT
                         else if psi_no_shift \<le> psi then MODERATE else NONE);
             top = take 3 (sort_key (\<lambda>kv. - \<bar>snd kv\<bar>) contributions);
             detail = join '', '' (map (\<lambda>(name, value). name @ '' ('' @ fmt_signed 3 value @ '')'') top)
         in \<lparr>dr_feature = feature, dr_statistic = psi, dr_method = ''psi'', dr_severity = severity,
             dr_p_value = None, dr_baseline_size = length baseline, dr_current_size = length current,
             dr_detail = (if top \<noteq> [] then ''Largest contributors: '' @ detail else [])\<rparr>))"

definition detect_continuous_drift ::
  "(real list \<Rightarrow> real list \<Rightarrow> real \<times> real) \<Rightarrow> (real list \<Rightarrow> real) \<Rightarrow> string \<Rightarrow> real list \<Rightarrow> real list \<Rightarrow> drift_result"
where
  "detect_continuous_drift kolmogorov_smirnov median feature baseline current =
     (if length baseline < min_samples \<or> length current < min_samples
      then insufficient feature ''ks'' (length baseline) (length current)
      else
        (case kolmogorov_smirnov baseline current of (statistic, p_value) \<Rightarrow>
         let severity = (if ks_material_statistic * 2 \<le> statistic then SIGNIFICANT
                         else if ks_material_statistic \<le> statistic then MODERATE else NONE)
         in \<lparr>dr_feature = feature, dr_statistic = statistic, dr_method = ''ks'', dr_severity = severity,
             dr_p_value = Some p_value, dr_baseline_size = length baseline, dr_current_size = length current,
             dr_detail = ''median '' @ fmt_fixed 1 (median baseline) @ '' -> '' @ fmt_fixed 1 (median current)
               @ ''; p='' @ fmt_sci 2 p_value @ '' (statistic drives severity, not p)''\<rparr>))"

section \<open>Two windows\<close>

text \<open>The columns of \<open>inference_logs\<close> the analysis reads; a column may be null.\<close>

record log_row =
  lr_created_at :: real
  lr_top_label :: "string option"
  lr_image_format :: "string option"
  lr_image_width :: "real option"
  lr_image_height :: "real option"
  lr_image_bytes :: "real option"
  lr_latency_ms :: "real option"
  lr_model_name :: string
  lr_model_version :: string

definition categorical_features :: "(string \<times> (log_row \<Rightarrow> string option)) list" where
  "categorical_features = [(''top_label'', lr_top_label), (''image_format'', lr_image_format)]"

definition continuous_features :: "(string \<times> (log_row \<Rightarrow> real option)) list" where
  "continuous_features =
     [(''image_width'', lr_image_width), (''image_height'', lr_image_height),
      (''image_bytes'', lr_image_bytes), (''latency_ms'', lr_latency_ms)]"

definition column :: "(log_row \<Rightarrow> 'v option) \<Rightarrow> log_row list \<Rightarrow> 'v list" where
  "column f rows = map (\<lambda>r. the (f r)) (filter (\<lambda>r. f r \<noteq> None) rows)"

record drift_tools =
  dt_iter :: "string list \<Rightarrow> string list"
  dt_ks :: "real list \<Rightarrow> real list \<Rightarrow> real \<times> real"
  dt_median :: "real list \<Rightarrow> real"

definition compare_feature ::
  "('v list \<Rightarrow> 'v list \<Rightarrow> drift_result) \<Rightarrow> (log_row \<Rightarrow> 'v option) \<Rightarrow> log_row list \<Rightarrow> log_row list \<Rightarrow> drift_result list"
where
  "compare_feature detect f baseline current =
     (let baseline_values = column f baseline; current_values = column f current
      in if baseline_values \<noteq> [] \<or> current_values \<noteq> [] then [detect baseline_values current_values] else [])"

definition compare_windows ::
  "drift_tools \<Rightarrow> log_row list \<Rightarrow> log_row list \<Rightarrow> string \<Rightarrow> string \<Rightarrow> drift_report" where
  "compare_windows T baseline current model_name model_version =
     \<lparr>dp_results =
        concat (map (\<lambda>(feature, f). compare_feature (detect_categorical_drift (dt_iter T) id feature) f baseline current)
                  categorical_features)
        @ concat (map (\<lambda>(feature, f). compare_feature (detect_continuous_drift (dt_ks T) (dt_median T) feature) f
                                        baseline current)
                  continuous_features),
      dp_model_name = model_name, dp_model_version = model_version\<rparr>"

section \<open>The job\<close>

record drift_args =
  da_model :: "string option"
  da_version :: "string option"
  da_baseline_days :: real
  da_current_days :: real
  da_limit :: nat
  da_fail_on_drift :: bool

text \<open>The query of \<open>fetch_window\<close>; time is in days.\<close>

definition in_window :: "real \<Rightarrow> real \<Rightarrow> drift_args \<Rightarrow> log_row \<Rightarrow> bool" where
  "in_window start stop args r \<longleftrightarrow>
     start \<le> lr_created_at r \<and> lr_created_at r < stop
     \<and> (case da_model args of None \<Rightarrow> True | Some m \<Rightarrow> lr_model_name r = m)
     \<and> (case da_version args of None \<Rightarrow> True | Some v \<Rightarrow> lr_model_version r = v)"

definition fetch_window :: "log_row list \<Rightarrow> real \<Rightarrow> real \<Rightarrow> drift_args \<Rightarrow> log_row list" where
  "fetch_window table start stop args =
     take (da_limit args) (sort_key (\<lambda>r. - lr_created_at r) (filter (in_window start stop args) table))"

definition or_text :: "string option \<Rightarrow> string \<Rightarrow> string" where
  "or_text a b = (case a of Some s \<Rightarrow> if s = [] then b else s | None \<Rightarrow> b)"

definition run_drift :: "drift_tools \<Rightarrow> log_row list \<Rightarrow> real \<Rightarrow> drift_args \<Rightarrow> drift_report option \<times> int" where
  "run_drift T table now args =
     (let current_start = now - da_current_days args;
          baseline_start = current_start - da_baseline_days args;
          baseline = fetch_window table baseline_start current_start args;
          current = fetch_window table current_start now args
      in if baseline = [] \<or> current = [] then (None, 0)
         else (let report = compare_windows T baseline current
                     (or_text (da_model args) (lr_model_name (hd baseline)))
                     (or_text (da_version args) (lr_model_version (hd baseline)))
               in (Some report,
                   if da_fail_on_drift args \<and> overall_severity report = SIGNIFICANT then 1 else 0)))"

text \<open>The values of the gauge pushed for alerting.\<close>

fun severity_gauge :: "drift_severity \<Rightarrow> real" where
  "severity_gauge NONE = 0"
| "severity_gauge INSUFFICIENT_DATA = 0"
| "severity_gauge MODERATE = 1"
| "severity_gauge SIGNIFICANT = 2"

section \<open>The index as a divergence\<close>

text \<open>What a Python set promises of its iteration.\<close>

definition iterates :: "('c list \<Rightarrow> 'c list) \<Rightarrow> bool" where
  "iterates iter \<longleftrightarrow> (\<forall>xs. distinct (iter xs) \<and> set (iter xs) = set xs)"

lemma iterates_remdups: "iterates remdups"
  by (simp add: iterates_def)

lemma psi_foldl:
  "fst (foldl (\<lambda>(psi, contributions) category.
         let contribution = psi_contribution e b c category
         in (psi + contribution, dict_set (to_str category) contribution contributions)) (p, d) cs)
   = p + (\<Sum>x\<leftarrow>cs. psi_contribution e b c x)"
  by (induction cs arbitrary: p d) (auto simp: Let_def)

lemma psi_sum:
  assumes "iterates iter"
  shows "fst (population_stability_index iter to_str b c e) = (\<Sum>x \<in> set b \<union> set c. psi_contribution e b c x)"
proof -
  have "distinct (iter (b @ c))" "set (iter (b @ c)) = set b \<union> set c"
    using assms by (auto simp: iterates_def)
  then show ?thesis unfolding population_stability_index_def psi_foldl
    by (simp add: sum_list_distinct_conv_sum_set)
qed

lemma category_share_bounds:
  assumes "0 < e" "e \<le> 1" shows "e \<le> category_share e xs x" "category_share e xs x \<le> 1"
proof -
  have "real (count_list xs x) \<le> real (max (length xs) 1)" using count_le_length [of xs x] by simp
  then show "category_share e xs x \<le> 1" using assms by (simp add: category_share_def)
qed (simp add: category_share_def)

lemma diff_ln_nonneg:
  assumes "0 < b" "0 < (c :: real)" shows "0 \<le> (c - b) * ln (c / b)" "(c - b) * ln (c / b) = 0 \<longleftrightarrow> c = b"
proof -
  consider "c = b" | "b < c" | "c < b" by linarith
  then have "(c = b \<longrightarrow> (c - b) * ln (c / b) = 0) \<and> (c \<noteq> b \<longrightarrow> 0 < (c - b) * ln (c / b))"
  proof cases
    case 2
    with assms have "0 < ln (c / b)" by simp
    with 2 show ?thesis by simp
  next
    case 3
    with assms have "ln (c / b) < 0" by (simp add: ln_less_zero_iff)
    with 3 show ?thesis by (simp add: mult_neg_neg)
  qed simp
  then show "0 \<le> (c - b) * ln (c / b)" "(c - b) * ln (c / b) = 0 \<longleftrightarrow> c = b" by force+
qed

lemma psi_contribution_nonneg:
  assumes "0 < e" "e \<le> 1"
  shows "0 \<le> psi_contribution e b c x"
    and "psi_contribution e b c x = 0 \<longleftrightarrow> category_share e b x = category_share e c x"
  using diff_ln_nonneg [of "category_share e b x" "category_share e c x"]
    category_share_bounds(1) [OF assms, of b x] category_share_bounds(1) [OF assms, of c x] assms(1)
  by (auto simp: psi_contribution_def Let_def)

lemma psi_contribution_sym:
  assumes "0 < e" "e \<le> 1" shows "psi_contribution e b c x = psi_contribution e c b x"
proof -
  have "0 < category_share e b x" "0 < category_share e c x"
    using category_share_bounds(1) [OF assms, of b x] category_share_bounds(1) [OF assms, of c x] assms(1) by linarith+
  then show ?thesis by (simp add: psi_contribution_def Let_def ln_div algebra_simps)
qed

lemma psi_contribution_le:
  assumes "0 < e" "e \<le> 1" shows "psi_contribution e b c x \<le> ln (1 / e)"
proof -
  have bound: "(q - p) * ln (q / p) \<le> ln (1 / e)" if "e \<le> p" "p \<le> q" "q \<le> 1" for p q :: real
  proof -
    have "1 * ln (q / p) \<le> 1 * ln (1 / e)"
      using that assms by (intro mult_left_mono) (auto intro!: frac_le simp: ln_le_cancel_iff)
    moreover have "0 \<le> ln (q / p)" using that assms by simp
    then have "(q - p) * ln (q / p) \<le> 1 * ln (q / p)" using that assms by (intro mult_right_mono) auto
    ultimately show ?thesis by linarith
  qed
  have s: "e \<le> category_share e b x" "category_share e b x \<le> 1" "e \<le> category_share e c x" "category_share e c x \<le> 1"
    by (intro category_share_bounds assms)+
  show ?thesis
  proof (cases "category_share e b x \<le> category_share e c x")
    case True
    then show ?thesis using bound [of "category_share e b x" "category_share e c x"] s
      by (simp add: psi_contribution_def Let_def)
  next
    case False
    then have "psi_contribution e c b x \<le> ln (1 / e)"
      using bound [of "category_share e c x" "category_share e b x"] s by (simp add: psi_contribution_def Let_def)
    then show ?thesis by (simp only: psi_contribution_sym [OF assms, of b c])
  qed
qed

lemma category_share_replicate:
  "0 < k \<Longrightarrow> category_share e (concat (replicate k xs)) x = category_share e xs x"
proof -
  assume k: "0 < k"
  have c: "count_list (concat (replicate k xs)) x = k * count_list xs x" by (induction k) auto
  have l: "length (concat (replicate k xs)) = k * length xs" by (induction k) auto
  show ?thesis
  proof (cases "xs = []")
    case False
    then have "max (length xs) 1 = length xs" "max (k * length xs) 1 = k * length xs"
      using k by (cases k; cases xs; simp)+
    then show ?thesis using k by (simp only: category_share_def c l) simp
  qed (use k in \<open>simp add: category_share_def c l\<close>)
qed

text \<open>
  The stability index is a divergence. Whatever the order in which categories are visited, it is
  never negative; it is zero exactly when every category has the same share of both windows (up to
  the floor), and the same with the windows exchanged. It stays finite: each category adds at most
  the logarithm of 1/epsilon. And it depends on shares only: repeating either window any number
  of times does not change it.
\<close>

theorem psi_divergence:
  assumes "iterates iter" "0 < e" "e \<le> 1" "0 < k" "0 < l"
  shows "let psi = (\<lambda>b c. fst (population_stability_index iter to_str b c e))
     in 0 \<le> psi b c
        \<and> (psi b c = 0) = (\<forall>x \<in> set b \<union> set c. category_share e b x = category_share e c x)
        \<and> psi b c = psi c b
        \<and> psi b c \<le> real (card (set b \<union> set c)) * ln (1 / e)
        \<and> psi (concat (replicate k b)) (concat (replicate l c)) = psi b c"
proof -
  let ?f = "psi_contribution e b c"
  have nn: "0 \<le> ?f x" for x by (rule psi_contribution_nonneg(1) [OF assms(2,3)])
  have "(sum ?f (set b \<union> set c) = 0) = (\<forall>x \<in> set b \<union> set c. ?f x = 0)"
    by (rule sum_nonneg_eq_0_iff) (use nn in auto)
  moreover have "sum ?f (set b \<union> set c) \<le> real (card (set b \<union> set c)) * ln (1 / e)"
    using sum_mono [of "set b \<union> set c" ?f "\<lambda>_. ln (1 / e)", OF psi_contribution_le [OF assms(2,3)]] by simp
  moreover have "set (concat (replicate k b)) = set b" "set (concat (replicate l c)) = set c"
    using assms(4,5) by (auto simp: set_replicate_conv_if)
  moreover have "psi_contribution e (concat (replicate k b)) (concat (replicate l c)) x = ?f x" for x
    using assms(4,5) by (simp add: psi_contribution_def category_share_replicate)
  ultimately show ?thesis
    unfolding Let_def psi_sum [OF assms(1)]
    using sum_nonneg [of "set b \<union> set c" ?f, OF nn]
    by (simp add: Un_commute [of "set c"] psi_contribution_sym [OF assms(2,3), of c b] psi_contribution_nonneg(2) [OF assms(2,3)])
qed

theorem psi_divergence_witness:
  "fst (population_stability_index remdups id [''cat'', ''dog''] [''dog'', ''cat'', ''cat'', ''dog''] (1/10)) = 0"
  using psi_divergence [OF iterates_remdups, of "1/10" 1 1 id "[''cat'', ''dog'']" "[''dog'', ''cat'', ''cat'', ''dog'']"]
  by (simp add: Let_def category_share_def)

section \<open>Severity of a report\<close>

lemma severity_bot: "INSUFFICIENT_DATA \<le> s" and severity_top: "s \<le> SIGNIFICANT"
  by (cases s; simp add: less_eq_drift_severity_def)+

lemma fold_max_le: "foldr max xs (a :: 'a::linorder) \<le> b \<longleftrightarrow> a \<le> b \<and> (\<forall>x \<in> set xs. x \<le> b)"
  by (induction xs) auto

text \<open>
  The overall severity is the worst one. A report's severity is the maximum of the severities of
  its features, in the order insufficient, none, moderate, significant; so nothing is averaged
  away, and the report is significant exactly when some feature is.
\<close>

theorem overall_severity_worst:
  "overall_severity r = foldr max (map dr_severity (dp_results r)) INSUFFICIENT_DATA
   \<and> (overall_severity r = SIGNIFICANT) = list_ex (\<lambda>x. dr_severity x = SIGNIFICANT) (dp_results r)"
proof -
  let ?w = "foldr max (map dr_severity (dp_results r)) INSUFFICIENT_DATA"
  have le: "?w \<le> s \<longleftrightarrow> (\<forall>x \<in> set (dp_results r). dr_severity x \<le> s)" for s
    by (simp add: fold_max_le severity_bot)
  have r: "a \<le> b \<longleftrightarrow> severity_rank a \<le> severity_rank b" for a b :: drift_severity
    by (simp add: less_eq_drift_severity_def)
  have "overall_severity r = ?w"
  proof (rule antisym)
    show "?w \<le> overall_severity r"
    proof -
      have "dr_severity x \<le> overall_severity r" if "x \<in> set (dp_results r)" for x
        using that by (cases "dr_severity x") (auto simp: overall_severity_def r list_ex_iff list_all_iff intro: bexI [of _ x])
      then show ?thesis using le by blast
    qed
    have up: "dr_severity x \<le> ?w" if "x \<in> set (dp_results r)" for x using le [of ?w] that by simp
    show "overall_severity r \<le> ?w"
    proof (cases "overall_severity r")
      case NONE
      then obtain x where "x \<in> set (dp_results r)" "dr_severity x \<noteq> INSUFFICIENT_DATA"
        by (auto simp: overall_severity_def list_all_iff split: if_splits)
      with up [of x] NONE show ?thesis by (cases "dr_severity x") (auto simp: r)
    next
      case MODERATE
      then obtain x where "x \<in> set (dp_results r)" "dr_severity x = MODERATE"
        by (auto simp: overall_severity_def list_ex_iff split: if_splits)
      with up [of x] MODERATE show ?thesis by simp
    next
      case SIGNIFICANT
      then obtain x where "x \<in> set (dp_results r)" "dr_severity x = SIGNIFICANT"
        by (auto simp: overall_severity_def list_ex_iff split: if_splits)
      with up [of x] SIGNIFICANT show ?thesis by simp
    qed (simp add: severity_bot)
  qed
  moreover have "(overall_severity r = SIGNIFICANT) = list_ex (\<lambda>x. dr_severity x = SIGNIFICANT) (dp_results r)"
    by (cases "dp_results r") (auto simp: overall_severity_def)
  ultimately show ?thesis by blast
qed

section \<open>When a feature is flagged\<close>

lemma detect_categorical_severity:
  assumes "iterates iter"
  shows "dr_severity (detect_categorical_drift iter to_str f b c) =
    (if length b < min_samples \<or> length c < min_samples then INSUFFICIENT_DATA
     else if 25/100 \<le> (\<Sum>x \<in> set b \<union> set c. psi_contribution (1/1000000) b c x) then SIGNIFICANT
     else if 10/100 \<le> (\<Sum>x \<in> set b \<union> set c. psi_contribution (1/1000000) b c x) then MODERATE else NONE)"
proof -
  obtain p d where p: "population_stability_index iter to_str b c (1/1000000) = (p, d)" by fastforce
  then have "p = (\<Sum>x \<in> set b \<union> set c. psi_contribution (1/1000000) b c x)"
    using psi_sum [OF assms, of to_str b c "1/1000000"] by simp
  then show ?thesis
    unfolding detect_categorical_drift_def p
    by (simp add: insufficient_def psi_moderate_shift_def psi_no_shift_def Let_def)
qed

lemma ln_50000: "6 \<le> ln (50000 :: real)"
proof -
  have "exp 6 = exp (1 :: real) ^ 6" by (simp add: exp_of_nat_mult [symmetric])
  also have "\<dots> \<le> 3 ^ 6" using exp_le by (intro power_mono) auto
  finally have "exp 6 \<le> (50000 :: real)" by simp
  then show ?thesis by (metis exp_ln_iff exp_le_cancel_iff zero_less_numeral)
qed

lemma vanished_contribution:
  assumes "5/100 \<le> category_share (1/1000000) b x" "category_share (1/1000000) c x = 1/1000000"
  shows "25/100 \<le> psi_contribution (1/1000000) b c x"
proof -
  let ?p = "category_share (1/1000000) b x" and ?e = "1/1000000 :: real"
  have "6 \<le> ln (?p / ?e)"
  proof -
    have "ln 50000 \<le> ln (?p / ?e)" using assms(1) by (subst ln_le_cancel_iff) auto
    with ln_50000 show ?thesis by linarith
  qed
  moreover have "499/10000 \<le> ?p - ?e" using assms(1) by simp
  ultimately have "499/10000 * 6 \<le> (?p - ?e) * ln (?p / ?e)" using assms(1) by (intro mult_mono) auto
  moreover have "psi_contribution ?e b c x = (?p - ?e) * ln (?p / ?e)"
  proof -
    have "ln (?e / ?p) = - ln (?p / ?e)" using assms(1) by (simp add: ln_div)
    then show ?thesis unfolding psi_contribution_def Let_def assms(2) by (simp add: algebra_simps)
  qed
  ultimately show ?thesis by simp
qed

lemma share_absent: "x \<notin> set xs \<Longrightarrow> 0 < e \<Longrightarrow> category_share e xs x = e"
  by (simp add: category_share_def count_list_0_iff)

lemma share_at_least:
  "length xs \<noteq> 0 \<Longrightarrow> 5 * length xs \<le> 100 * count_list xs x \<Longrightarrow> 5/100 \<le> category_share e xs x"
proof -
  assume a: "length xs \<noteq> 0" "5 * length xs \<le> 100 * count_list xs x"
  have "real (5 * length xs) \<le> real (100 * count_list xs x)" using a(2) by (rule of_nat_mono)
  then have "5/100 \<le> real (count_list xs x) / real (length xs)" using a(1) by (simp add: field_simps)
  moreover have "max (length xs) 1 = length xs" using a(1) by (cases xs) auto
  ultimately show ?thesis unfolding category_share_def by (simp only: le_max_iff_disj simp_thms)
qed

lemma count_list_replicate_same: "count_list (replicate n x) x = n"
  by (induction n) auto

text \<open>
  Categorical drift is flagged when it should be. With fewer than a hundred samples in a window
  nothing is concluded. Otherwise windows with equal shares are never flagged, and a class that
  had at least five percent of one window and is missing from the other always makes the
  feature significantly drifted, whatever the other classes do. The verdict does not depend on
  which of the windows is called the baseline.
\<close>

theorem categorical_drift_flagged:
  assumes "iterates iter" "min_samples \<le> length b" "min_samples \<le> length c"
  shows "((\<forall>x. category_share (1/1000000) b x = category_share (1/1000000) c x)
           \<longrightarrow> dr_severity (detect_categorical_drift iter to_str f b c) = NONE)
    \<and> (5 * length b \<le> 100 * count_list b x \<and> x \<notin> set c
         \<longrightarrow> dr_severity (detect_categorical_drift iter to_str f b c) = SIGNIFICANT
           \<and> dr_severity (detect_categorical_drift iter to_str f c b) = SIGNIFICANT)
    \<and> dr_severity (detect_categorical_drift iter to_str f b c) = dr_severity (detect_categorical_drift iter to_str f c b)
    \<and> dr_severity (detect_categorical_drift iter to_str f (take 99 b) c) = INSUFFICIENT_DATA"
proof -
  let ?e = "1/1000000 :: real" and ?S = "\<lambda>b c. \<Sum>x \<in> set b \<union> set c. psi_contribution (1/1000000) b c x"
  have e: "0 < ?e" "?e \<le> 1" by simp_all
  have sym: "?S c b = ?S b c" by (simp only: psi_contribution_sym [OF e, of c b] Un_commute [of "set c"])
  have same: "?S b c = 0" if "\<forall>x. category_share ?e b x = category_share ?e c x"
    using that psi_contribution_nonneg(2) [OF e, of b c] by (intro sum.neutral) auto
  have gone: "25/100 \<le> ?S b c" if "5 * length b \<le> 100 * count_list b x" "x \<notin> set c"
  proof -
    have ne: "length b \<noteq> 0" using assms(2) by (auto simp: min_samples_def)
    then have "x \<in> set b" using that(1) by (metis count_list_0_iff le_zero_eq mult_0_right mult_eq_0_iff zero_neq_numeral)
    moreover have "25/100 \<le> psi_contribution ?e b c x"
      by (rule vanished_contribution [OF share_at_least [OF ne that(1)] share_absent [OF that(2) e(1)]])
    moreover have "psi_contribution ?e b c x \<le> ?S b c" if "x \<in> set b"
      by (rule member_le_sum) (use that psi_contribution_nonneg(1) [OF e] in auto)
    ultimately show ?thesis by linarith
  qed
  have short: "length (take 99 b) < min_samples" by (simp add: min_samples_def)
  show ?thesis
    unfolding detect_categorical_severity [OF assms(1)] sym
    using assms(2,3) same gone short by auto
qed

theorem categorical_drift_flagged_witness:
  "dr_severity (detect_categorical_drift remdups id ''f'' (replicate 100 ''cat'') (replicate 100 ''dog'')) = SIGNIFICANT"
  using categorical_drift_flagged [OF iterates_remdups, of "replicate 100 ''cat''" "replicate 100 ''dog''" id "''f''" "''cat''"]
  by (simp add: min_samples_def count_list_replicate_same)

section \<open>The job's verdict\<close>

lemma fetch_window_within: "r \<in> set (fetch_window table start stop args) \<Longrightarrow> r \<in> set table \<and> in_window start stop args r"
  by (auto simp: fetch_window_def dest: in_set_takeD)

lemma in_compared:
  "x \<in> set (concat (map (\<lambda>(f, g). compare_feature (D f) g b c) fs)) \<longleftrightarrow>
     (\<exists>f g. (f, g) \<in> set fs \<and> (column g b \<noteq> [] \<or> column g c \<noteq> []) \<and> x = D f (column g b) (column g c))"
  by (induction fs) (auto simp: compare_feature_def Let_def)

lemma in_dp_results:
  "x \<in> set (dp_results (compare_windows T b c n v)) \<longleftrightarrow>
     (\<exists>f col. (f, col) \<in> set categorical_features \<and> (column col b \<noteq> [] \<or> column col c \<noteq> [])
        \<and> x = detect_categorical_drift (dt_iter T) id f (column col b) (column col c))
   \<or> (\<exists>f col. (f, col) \<in> set continuous_features \<and> (column col b \<noteq> [] \<or> column col c \<noteq> [])
        \<and> x = detect_continuous_drift (dt_ks T) (dt_median T) f (column col b) (column col c))"
  by (simp add: compare_windows_def in_compared del: set_concat)

lemma detect_sizes:
  "dr_baseline_size (detect_categorical_drift iter s f xs ys) = length xs"
  "dr_current_size (detect_categorical_drift iter s f xs ys) = length ys"
  "dr_baseline_size (detect_continuous_drift ks md f us ws) = length us"
  "dr_current_size (detect_continuous_drift ks md f us ws) = length ws"
  by (auto simp: detect_categorical_drift_def detect_continuous_drift_def insufficient_def Let_def split: prod.splits)

lemma detect_significant_samples:
  "dr_severity (detect_categorical_drift iter s f xs ys) = SIGNIFICANT \<Longrightarrow> 100 \<le> length xs \<and> 100 \<le> length ys"
  "dr_severity (detect_continuous_drift ks md f us ws) = SIGNIFICANT \<Longrightarrow> 100 \<le> length us \<and> 100 \<le> length ws"
  by (auto simp: detect_categorical_drift_def detect_continuous_drift_def insufficient_def min_samples_def Let_def
      split: prod.splits if_splits)

text \<open>
  The drift job fails only on evidence. An exit with 1 means that failing was asked for and that
  some feature is significantly drifted with at least a hundred values in each of the two windows.
  The windows are disjoint and ordered: every record of the baseline is older than every record
  compared with it. Each is at most as long as the limit, and all records are of the requested
  model.
\<close>

theorem drift_job_evidence:
  assumes "0 \<le> da_current_days args" "0 \<le> da_baseline_days args"
  shows "let b = fetch_window table (now - da_current_days args - da_baseline_days args) (now - da_current_days args) args;
             c = fetch_window table (now - da_current_days args) now args
     in set b \<inter> set c = {} \<and> length b \<le> da_limit args \<and> length c \<le> da_limit args
        \<and> (\<forall>r s. r \<in> set b \<and> s \<in> set c \<longrightarrow> lr_created_at r < lr_created_at s)
        \<and> (\<forall>r m. r \<in> set b \<union> set c \<and> da_model args = Some m \<longrightarrow> lr_model_name r = m)
        \<and> (snd (run_drift T table now args) = 1 \<longrightarrow> da_fail_on_drift args
             \<and> (\<exists>rep x. fst (run_drift T table now args) = Some rep \<and> x \<in> set (dp_results rep)
                  \<and> dr_severity x = SIGNIFICANT \<and> 100 \<le> dr_baseline_size x \<and> 100 \<le> dr_current_size x))"
proof -
  let ?b = "fetch_window table (now - da_current_days args - da_baseline_days args) (now - da_current_days args) args"
  let ?c = "fetch_window table (now - da_current_days args) now args"
  have order: "lr_created_at r < lr_created_at s" if "r \<in> set ?b" "s \<in> set ?c" for r s
    using that by (auto dest!: fetch_window_within simp: in_window_def)
  then have "set ?b \<inter> set ?c = {}" by fastforce
  moreover have "length ?b \<le> da_limit args" "length ?c \<le> da_limit args" by (auto simp: fetch_window_def)
  moreover have "lr_model_name r = m" if "r \<in> set ?b \<union> set ?c" "da_model args = Some m" for r m
    using that by (auto dest!: fetch_window_within simp: in_window_def)
  moreover have "da_fail_on_drift args
             \<and> (\<exists>rep x. fst (run_drift T table now args) = Some rep \<and> x \<in> set (dp_results rep)
                  \<and> dr_severity x = SIGNIFICANT \<and> 100 \<le> dr_baseline_size x \<and> 100 \<le> dr_current_size x)"
    if e: "snd (run_drift T table now args) = 1"
  proof -
    define rep where "rep = compare_windows T ?b ?c (or_text (da_model args) (lr_model_name (hd ?b)))
        (or_text (da_version args) (lr_model_version (hd ?b)))"
    have r: "run_drift T table now args = (if ?b = [] \<or> ?c = [] then (None, 0)
        else (Some rep, if da_fail_on_drift args \<and> overall_severity rep = SIGNIFICANT then 1 else 0))"
      by (simp add: run_drift_def rep_def Let_def)
    then have f: "da_fail_on_drift args" "overall_severity rep = SIGNIFICANT" "fst (run_drift T table now args) = Some rep"
      using e by (auto split: if_splits)
    then obtain x where x: "x \<in> set (dp_results rep)" "dr_severity x = SIGNIFICANT"
      by (auto simp: overall_severity_def list_ex_iff split: if_splits)
    then have "100 \<le> dr_baseline_size x \<and> 100 \<le> dr_current_size x"
      unfolding rep_def in_dp_results by (auto simp: detect_sizes dest: detect_significant_samples)
    with f x show ?thesis by blast
  qed
  ultimately show ?thesis using order unfolding Let_def by blast
qed

definition drift_row :: "real \<Rightarrow> string \<Rightarrow> log_row" where
  "drift_row t label = \<lparr>lr_created_at = t, lr_top_label = Some label, lr_image_format = None, lr_image_width = None,
     lr_image_height = None, lr_image_bytes = None, lr_latency_ms = None, lr_model_name = ''m'', lr_model_version = ''v1''\<rparr>"

theorem drift_job_evidence_witness:
  "let args = \<lparr>da_model = Some ''m'', da_version = None, da_baseline_days = 7, da_current_days = 1, da_limit = 10,
       da_fail_on_drift = True\<rparr>;
       table = [drift_row 1 ''cat'', drift_row 8 ''dog'', drift_row 7 ''cat'']
   in length (fetch_window table 0 7 args) = 1 \<and> set (fetch_window table 0 7 args) \<inter> set (fetch_window table 7 8 args) = {}"
  using drift_job_evidence [of "\<lparr>da_model = Some ''m'', da_version = None, da_baseline_days = 7, da_current_days = 1,
       da_limit = 10, da_fail_on_drift = True\<rparr>" "[drift_row 1 ''cat'', drift_row 8 ''dog'', drift_row 7 ''cat'']" 8
       "\<lparr>dt_iter = remdups, dt_ks = (\<lambda>b c. (0, 1)), dt_median = (\<lambda>b. 0)\<rparr>"]
  by (simp add: Let_def) (simp add: fetch_window_def in_window_def drift_row_def)

end
