(* ===== verification/Augmentation.thy ===== *)
theory Augmentation
  imports Image_Processing
begin

text \<open>
  The augmentation of training batches (\<open>models/data/augmentation.py\<close>): its configuration, the order
  of the transforms, PCA lighting, and the MixUp/CutMix collator. An image is a function of channel,
  row and column, a batch a list of images of one height and width. The random draws are
  parameters, and torchvision's own transforms are names.
\<close>

section \<open>Configuration and transforms\<close>

definition tiny_imagenet_mean :: "real list" where
  "tiny_imagenet_mean = [0.4802, 0.4481, 0.3975]"

definition tiny_imagenet_std :: "real list" where
  "tiny_imagenet_std = [0.2302, 0.2265, 0.2262]"

record augmentation_config =
  ac_image_size :: int
  ac_crop_scale :: "real \<times> real"
  ac_crop_ratio :: "real \<times> real"
  ac_horizontal_flip_prob :: real
  ac_randaugment_num_ops :: int
  ac_randaugment_magnitude :: int
  ac_use_randaugment :: bool
  ac_pca_lighting_std :: real
  ac_random_erasing_prob :: real
  ac_mixup_alpha :: real
  ac_cutmix_alpha :: real
  ac_mix_prob :: real
  ac_label_smoothing :: real
  ac_normalisation :: string
  ac_mean :: "real list"
  ac_std :: "real list"

definition default_augmentation :: augmentation_config where
  "default_augmentation =
     \<lparr>ac_image_size = 224, ac_crop_scale = (65/100, 1), ac_crop_ratio = (3/4, 4/3), ac_horizontal_flip_prob = 1/2,
      ac_randaugment_num_ops = 2, ac_randaugment_magnitude = 9, ac_use_randaugment = True,
      ac_pca_lighting_std = 1/10, ac_random_erasing_prob = 25/100, ac_mixup_alpha = 2/10, ac_cutmix_alpha = 1,
      ac_mix_prob = 1/2, ac_label_smoothing = 1/10, ac_normalisation = ''imagenet'', ac_mean = [], ac_std = []\<rparr>"

text \<open>\<open>__post_init__\<close>, which fills in the statistics.\<close>

definition augmentation_post_init :: "augmentation_config \<Rightarrow> augmentation_config result" where
  "augmentation_post_init c =
     (if ac_image_size c < 32
      then Inl (PyExc ''ValueError'' (''image_size must be at least 32, got '' @ show_int (ac_image_size c)))
      else if \<not> (0 < fst (ac_crop_scale c) \<and> fst (ac_crop_scale c) \<le> snd (ac_crop_scale c) \<and> snd (ac_crop_scale c) \<le> 1)
      then Inl (PyExc ''ValueError'' ''crop_scale must satisfy 0 < lo <= hi <= 1'')
      else if ac_normalisation c = ''imagenet''
      then Inr (c\<lparr>ac_mean := imagenet_mean, ac_std := imagenet_std\<rparr>)
      else Inr (c\<lparr>ac_mean := tiny_imagenet_mean, ac_std := tiny_imagenet_std\<rparr>))"

datatype transform =
    Random_Resized_Crop int "real \<times> real" "real \<times> real"
  | Random_Horizontal_Flip real
  | Rand_Augment int int
  | To_Image
  | To_Float
  | PCA_Lighting real
  | Normalize "real list" "real list"
  | Random_Erasing real
  | Resize_Short_Edge int
  | Center_Crop int

definition build_train_transform :: "augmentation_config \<Rightarrow> transform list" where
  "build_train_transform c =
     [Random_Resized_Crop (ac_image_size c) (ac_crop_scale c) (ac_crop_ratio c),
      Random_Horizontal_Flip (ac_horizontal_flip_prob c)]
     @ (if ac_use_randaugment c then [Rand_Augment (ac_randaugment_num_ops c) (ac_randaugment_magnitude c)] else [])
     @ [To_Image, To_Float]
     @ (if 0 < ac_pca_lighting_std c then [PCA_Lighting (ac_pca_lighting_std c)] else [])
     @ [Normalize (ac_mean c) (ac_std c)]
     @ (if 0 < ac_random_erasing_prob c then [Random_Erasing (ac_random_erasing_prob c)] else [])"

definition build_eval_transform :: "augmentation_config \<Rightarrow> transform list" where
  "build_eval_transform c =
     [Resize_Short_Edge \<lfloor>of_int (ac_image_size c) / (0.875 :: real)\<rfloor>, Center_Crop (ac_image_size c),
      To_Image, To_Float, Normalize (ac_mean c) (ac_std c)]"

section \<open>PCA lighting\<close>

type_synonym tensor_image = "nat \<Rightarrow> nat \<Rightarrow> nat \<Rightarrow> real"

definition pca_eigvals :: "real list" where
  "pca_eigvals = [0.2175, 0.0188, 0.0045]"

definition pca_eigvecs :: "real list list" where
  "pca_eigvecs = [[-0.5675, 0.7192, 0.4009], [-0.5808, -0.0045, -0.8140], [-0.5836, -0.6948, 0.4203]]"

definition dot :: "real list \<Rightarrow> real list \<Rightarrow> real" where
  "dot xs ys = sum_list (map2 (*) xs ys)"

text \<open>\<open>noise\<close> are the three normal draws; the image has \<open>channels\<close> channels.\<close>

definition pca_lighting :: "real \<Rightarrow> real list \<Rightarrow> nat \<Rightarrow> tensor_image \<Rightarrow> tensor_image" where
  "pca_lighting alpha_std noise channels img =
     (if alpha_std = 0 then img
      else if channels \<noteq> 3 then img
      else
        (let alpha = map (\<lambda>z. z * alpha_std) noise;
             offset = map (\<lambda>row. dot row (map2 (*) alpha pca_eigvals)) pca_eigvecs
         in (\<lambda>ch y x. max 0 (min 1 (img ch y x + offset ! ch)))))"

section \<open>MixUp and CutMix\<close>

record mixer =
  mx_num_classes :: nat
  mx_mixup_alpha :: real
  mx_cutmix_alpha :: real
  mx_prob :: real
  mx_label_smoothing :: real

definition make_mixer :: "mixer \<Rightarrow> mixer result" where
  "make_mixer m =
     (if mx_num_classes m < 2
      then Inl (PyExc ''ValueError'' (''num_classes must be at least 2, got '' @ show_nat (mx_num_classes m)))
      else if \<not> (0 \<le> mx_prob m \<and> mx_prob m \<le> 1) then Inl (PyExc ''ValueError'' ''prob must be in [0, 1]'')
      else if \<not> (0 \<le> mx_label_smoothing m \<and> mx_label_smoothing m < 1)
      then Inl (PyExc ''ValueError'' ''label_smoothing must be in [0, 1)'')
      else Inr m)"

text \<open>The random draws of one call: the uniform one against \<open>prob\<close>, the choice of method, the Beta
  sample and the centre of the patch.\<close>

record mix_draws =
  md_apply :: real
  md_method :: real
  md_lam :: real
  md_cy :: int
  md_cx :: int

definition smooth :: "mixer \<Rightarrow> nat list \<Rightarrow> real list list result" where
  "smooth m targets =
     (let off = mx_label_smoothing m / real (mx_num_classes m);
          on = 1 - mx_label_smoothing m + off
      in map_res (\<lambda>t. if t < mx_num_classes m then Inr ((replicate (mx_num_classes m) off)[t := on])
                      else Inl (PyExc ''RuntimeError'' ''index out of bounds'')) targets)"

definition cutmix_box :: "int \<Rightarrow> int \<Rightarrow> real \<Rightarrow> int \<Rightarrow> int \<Rightarrow> int \<times> int \<times> int \<times> int" where
  "cutmix_box height width lam cy cx =
     (let ratio = sqrt (1 - lam);
          cut_h = \<lfloor>of_int height * ratio\<rfloor>; cut_w = \<lfloor>of_int width * ratio\<rfloor>;
          y1 = max (cy - cut_h div 2) 0; y2 = min (cy + cut_h div 2) height;
          x1 = max (cx - cut_w div 2) 0; x2 = min (cx + cut_w div 2) width
      in (y1, y2, x1, x2))"

definition in_box :: "int \<times> int \<times> int \<times> int \<Rightarrow> nat \<Rightarrow> nat \<Rightarrow> bool" where
  "in_box b y x = (case b of (y1, y2, x1, x2) \<Rightarrow> y1 \<le> int y \<and> int y < y2 \<and> x1 \<le> int x \<and> int x < x2)"

definition paste :: "int \<times> int \<times> int \<times> int \<Rightarrow> tensor_image \<Rightarrow> tensor_image \<Rightarrow> tensor_image" where
  "paste b img other = (\<lambda>ch y x. if in_box b y x then other ch y x else img ch y x)"

definition blend :: "real \<Rightarrow> tensor_image \<Rightarrow> tensor_image \<Rightarrow> tensor_image" where
  "blend lam img other = (\<lambda>ch y x. img ch y x * lam + other ch y x * (1 - lam))"

definition mix_rows :: "real \<Rightarrow> real list \<Rightarrow> real list \<Rightarrow> real list" where
  "mix_rows lam = map2 (\<lambda>p q. p * lam + q * (1 - lam))"

definition box_share :: "int \<Rightarrow> int \<Rightarrow> int \<times> int \<times> int \<times> int \<Rightarrow> real" where
  "box_share height width b =
     (case b of (y1, y2, x1, x2) \<Rightarrow> of_int ((y2 - y1) * (x2 - x1)) / of_int (height * width))"

definition use_cutmix :: "mixer \<Rightarrow> mix_draws \<Rightarrow> bool" where
  "use_cutmix m d \<longleftrightarrow> 0 < mx_cutmix_alpha m \<and> (mx_mixup_alpha m \<le> 0 \<or> md_method d < 1/2)"

text \<open>\<open>MixUpCutMix.__call__\<close> on images of the given height and width.\<close>

definition mix_batch ::
  "mixer \<Rightarrow> mix_draws \<Rightarrow> int \<Rightarrow> int \<Rightarrow> tensor_image list \<Rightarrow> nat list \<Rightarrow> (tensor_image list \<times> real list list) result"
where
  "mix_batch m d height width images targets =
     res_bind (smooth m targets) (\<lambda>soft.
     if mx_prob m \<le> md_apply d then Inr (images, soft)
     else if use_cutmix m d
     then (let b = cutmix_box height width (md_lam d) (md_cy d) (md_cx d);
               lam = 1 - box_share height width b
           in Inr (map2 (paste b) images (rev images), map2 (mix_rows lam) soft (rev soft)))
     else Inr (map2 (blend (md_lam d)) images (rev images), map2 (mix_rows (md_lam d)) soft (rev soft)))"

section \<open>Targets stay distributions\<close>

definition distribution :: "nat \<Rightarrow> real list \<Rightarrow> bool" where
  "distribution n p \<longleftrightarrow> length p = n \<and> (\<forall>x \<in> set p. 0 \<le> x) \<and> sum_list p = 1"

lemma sum_list_update_real: "k < length xs \<Longrightarrow> sum_list (xs[k := x]) = sum_list xs + x - (xs ! k :: real)"
  by (induction xs arbitrary: k) (auto split: nat.splits)

lemma smoothed_distribution:
  assumes "t < n" "0 \<le> s" "s < 1"
  shows "distribution n ((replicate n (s / real n))[t := 1 - s + s / real n])"
proof -
  have "sum_list ((replicate n (s / real n))[t := 1 - s + s / real n])
      = real n * (s / real n) + (1 - s + s / real n) - s / real n"
    using assms(1) by (simp add: sum_list_update_real sum_list_replicate del: times_divide_eq_right)
  also have "real n * (s / real n) = s" using assms(1) by simp
  finally have "sum_list ((replicate n (s / real n))[t := 1 - s + s / real n]) = 1" by simp
  then show ?thesis using assms
    by (auto simp: distribution_def dest!: set_update_subset_insert [THEN subsetD])
qed

lemma sum_mix_rows:
  "length p = length q \<Longrightarrow> sum_list (mix_rows lam p q) = sum_list p * lam + sum_list q * (1 - lam)"
  unfolding mix_rows_def by (induction p q rule: list_induct2) (auto simp: algebra_simps)

lemma mix_rows_distribution:
  assumes "distribution n p" "distribution n q" "0 \<le> lam" "lam \<le> 1"
  shows "distribution n (mix_rows lam p q)"
proof -
  have "0 \<le> x" if "x \<in> set (mix_rows lam p q)" for x
    using that assms
    by (auto simp: mix_rows_def distribution_def intro!: add_nonneg_nonneg mult_nonneg_nonneg
        dest: set_zip_leftD set_zip_rightD)
  then show ?thesis using assms sum_mix_rows [of p q lam] by (auto simp: distribution_def mix_rows_def)
qed

section \<open>The patch\<close>

definition realised :: "mixer \<Rightarrow> mix_draws \<Rightarrow> int \<Rightarrow> int \<Rightarrow> real" where
  "realised m d height width =
     (if mx_prob m \<le> md_apply d then 1
      else if use_cutmix m d then 1 - box_share height width (cutmix_box height width (md_lam d) (md_cy d) (md_cx d))
      else md_lam d)"

text \<open>What the code relies on of the draws: a Beta sample lies in the unit interval, and the centre is
  a pixel of the image.\<close>

definition draws_ok :: "mix_draws \<Rightarrow> int \<Rightarrow> int \<Rightarrow> bool" where
  "draws_ok d height width \<longleftrightarrow>
     0 \<le> md_lam d \<and> md_lam d \<le> 1 \<and> 0 \<le> md_cy d \<and> md_cy d < height \<and> 0 \<le> md_cx d \<and> md_cx d < width"

lemma cut_bounds:
  assumes "0 < n" "0 \<le> r" "r \<le> (1 :: real)" "0 \<le> c" "c < n"
  shows "let cut = \<lfloor>of_int n * r\<rfloor>; lo = max (c - cut div 2) 0; hi = min (c + cut div 2) n
    in 0 \<le> lo \<and> lo \<le> hi \<and> hi \<le> n \<and> hi - lo \<le> cut"
proof -
  define k where "k = \<lfloor>of_int n * r\<rfloor>"
  have "0 \<le> k" using assms by (simp add: k_def)
  then have "0 \<le> k div 2" "2 * (k div 2) \<le> k" by simp_all
  then show ?thesis using assms unfolding Let_def k_def [symmetric] by auto
qed

lemma cutmix_box_inside:
  assumes "0 < height" "0 < width" "draws_ok d height width"
    and "cutmix_box height width (md_lam d) (md_cy d) (md_cx d) = (y1, y2, x1, x2)"
  shows "0 \<le> y1 \<and> y1 \<le> y2 \<and> y2 \<le> height \<and> 0 \<le> x1 \<and> x1 \<le> x2 \<and> x2 \<le> width"
    and "of_int ((y2 - y1) * (x2 - x1)) \<le> (1 - md_lam d) * of_int (height * width)"
proof -
  let ?r = "sqrt (1 - md_lam d)"
  have r: "0 \<le> ?r" "?r \<le> 1" using assms(3) by (auto simp: draws_ok_def)
  have c: "0 \<le> md_cy d" "md_cy d < height" "0 \<le> md_cx d" "md_cx d < width" using assms(3) by (simp_all add: draws_ok_def)
  have b: "y1 = max (md_cy d - \<lfloor>of_int height * ?r\<rfloor> div 2) 0" "y2 = min (md_cy d + \<lfloor>of_int height * ?r\<rfloor> div 2) height"
    "x1 = max (md_cx d - \<lfloor>of_int width * ?r\<rfloor> div 2) 0" "x2 = min (md_cx d + \<lfloor>of_int width * ?r\<rfloor> div 2) width"
    using assms(4) unfolding cutmix_box_def Let_def prod.inject by blast+
  have y: "0 \<le> y1 \<and> y1 \<le> y2 \<and> y2 \<le> height \<and> y2 - y1 \<le> \<lfloor>of_int height * ?r\<rfloor>"
    using cut_bounds [OF assms(1) r c(1,2)] unfolding Let_def b .
  have x: "0 \<le> x1 \<and> x1 \<le> x2 \<and> x2 \<le> width \<and> x2 - x1 \<le> \<lfloor>of_int width * ?r\<rfloor>"
    using cut_bounds [OF assms(2) r c(3,4)] unfolding Let_def b .
  from y x show "0 \<le> y1 \<and> y1 \<le> y2 \<and> y2 \<le> height \<and> 0 \<le> x1 \<and> x1 \<le> x2 \<and> x2 \<le> width" by simp
  have "of_int (y2 - y1) \<le> of_int height * ?r" "of_int (x2 - x1) \<le> of_int width * ?r"
    using y x by (meson le_floor_iff)+
  then have "of_int (y2 - y1) * of_int (x2 - x1) \<le> (of_int height * ?r) * (of_int width * ?r)"
    using y x r assms(1,2) by (intro mult_mono) auto
  also have "\<dots> = (?r * ?r) * of_int (height * width)" by (simp add: algebra_simps)
  also have "?r * ?r = 1 - md_lam d" using assms(3) by (simp add: draws_ok_def)
  finally show "of_int ((y2 - y1) * (x2 - x1)) \<le> (1 - md_lam d) * of_int (height * width)" by simp
qed

lemma pasted_pixels:
  assumes "0 \<le> y1" "y2 \<le> height" "0 \<le> x1" "x2 \<le> width" "y1 \<le> y2" "x1 \<le> x2"
  shows "int (card {(y, x). int y < height \<and> int x < width \<and> in_box (y1, y2, x1, x2) y x}) = (y2 - y1) * (x2 - x1)"
proof -
  have "{(y, x). int y < height \<and> int x < width \<and> in_box (y1, y2, x1, x2) y x}
      = {nat y1..<nat y2} \<times> {nat x1..<nat x2}"
    using assms by (auto simp: in_box_def)
  then show ?thesis using assms by (simp add: card_cartesian_product)
qed

lemma box_share_bounds:
  assumes "0 < height" "0 < width" "draws_ok d height width"
  shows "0 \<le> box_share height width (cutmix_box height width (md_lam d) (md_cy d) (md_cx d))"
    and "box_share height width (cutmix_box height width (md_lam d) (md_cy d) (md_cx d)) \<le> 1 - md_lam d"
proof -
  obtain y1 y2 x1 x2 where b: "cutmix_box height width (md_lam d) (md_cy d) (md_cx d) = (y1, y2, x1, x2)"
    by (metis prod_cases4)
  note i = cutmix_box_inside [OF assms b]
  have pos: "0 < (of_int (height * width) :: real)" using assms(1,2) by simp
  show "0 \<le> box_share height width (cutmix_box height width (md_lam d) (md_cy d) (md_cx d))"
    using i(1) assms(1,2) by (simp add: b box_share_def)
  show "box_share height width (cutmix_box height width (md_lam d) (md_cy d) (md_cx d)) \<le> 1 - md_lam d"
    unfolding b box_share_def prod.case using i(2) pos by (simp only: pos_divide_le_eq)
qed

lemma realised_unit:
  assumes "0 < height" "0 < width" "draws_ok d height width"
  shows "0 \<le> realised m d height width \<and> realised m d height width \<le> 1"
  using box_share_bounds [OF assms] assms(3) by (auto simp: realised_def draws_ok_def)

section \<open>What a mixed batch is\<close>

lemma smooth_distribution:
  assumes "make_mixer m = Inr m" "smooth m targets = Inr soft" "p \<in> set soft"
  shows "distribution (mx_num_classes m) p"
proof -
  have s: "0 \<le> mx_label_smoothing m" "mx_label_smoothing m < 1"
    using assms(1) by (auto simp: make_mixer_def split: if_splits)
  from map_res_Inr_set [OF assms(2) [unfolded smooth_def Let_def] assms(3)]
  obtain t where "t < mx_num_classes m"
    "p = (replicate (mx_num_classes m) (mx_label_smoothing m / real (mx_num_classes m)))
           [t := 1 - mx_label_smoothing m + mx_label_smoothing m / real (mx_num_classes m)]"
    by (auto split: if_splits)
  then show ?thesis using smoothed_distribution s by simp
qed

lemma smooth_length: "smooth m targets = Inr soft \<Longrightarrow> length soft = length targets"
  unfolding smooth_def Let_def by (rule map_res_Inr_length)

lemma mix_batch_Inr:
  assumes "mix_batch m d height width images targets = Inr (images', soft')"
  obtains soft where "smooth m targets = Inr soft"
    "soft' = (if mx_prob m \<le> md_apply d then soft else map2 (mix_rows (realised m d height width)) soft (rev soft))"
    "images' = (if mx_prob m \<le> md_apply d then images
       else if use_cutmix m d
       then map2 (paste (cutmix_box height width (md_lam d) (md_cy d) (md_cx d))) images (rev images)
       else map2 (blend (md_lam d)) images (rev images))"
  using assms that by (auto simp: mix_batch_def res_bind_Inr_iff realised_def Let_def split: if_splits)


definition demo_mixer :: mixer where
  "demo_mixer = \<lparr>mx_num_classes = 2, mx_mixup_alpha = 0, mx_cutmix_alpha = 1, mx_prob = 1, mx_label_smoothing = 1/10\<rparr>"

definition demo_draws :: mix_draws where
  "demo_draws = \<lparr>md_apply = 0, md_method = 0, md_lam = 0, md_cy = 2, md_cx = 2\<rparr>"

lemma demo_mix:
  "\<exists>images' soft'. mix_batch demo_mixer demo_draws 4 4 [\<lambda>ch y x. 0, \<lambda>ch y x. 1] [0, 1] = Inr (images', soft')
     \<and> images' = map2 (paste (0, 4, 0, 4)) [\<lambda>ch y x. 0, \<lambda>ch y x. 1] (rev [\<lambda>ch y x. 0, \<lambda>ch y x. 1])"
  by (simp add: mix_batch_def smooth_def demo_mixer_def demo_draws_def use_cutmix_def cutmix_box_def Let_def)


text \<open>
  CutMix labels are exact. In a batch mixed by CutMix, pixel by pixel an image is its own outside
  the patch and its partner's inside, the partner being the image at the mirrored position; and
  the weight the partner's label gets is exactly the share of pixels taken from it, which is never
  more than was drawn. So clipping at the border is accounted for.
\<close>

theorem cutmix_labels_exact:
  assumes "0 < height" "0 < width" "draws_ok d height width" "md_apply d < mx_prob m" "use_cutmix m d"
    and "mix_batch m d height width images targets = Inr (images', soft')" "i < length images"
    and "length targets = length images"
  shows "let b = cutmix_box height width (md_lam d) (md_cy d) (md_cx d); j = length images - 1 - i
     in (\<forall>ch y x. (images' ! i) ch y x = (if in_box b y x then (images ! j) ch y x else (images ! i) ch y x))
        \<and> (\<exists>w soft. smooth m targets = Inr soft \<and> soft' ! i = mix_rows (1 - w) (soft ! i) (soft ! j)
             \<and> w * real_of_int (height * width)
                 = real (card {(y, x). int y < height \<and> int x < width \<and> in_box b y x})
             \<and> 0 \<le> w \<and> w \<le> 1 - md_lam d)"
proof -
  obtain y1 y2 x1 x2 where b: "cutmix_box height width (md_lam d) (md_cy d) (md_cx d) = (y1, y2, x1, x2)"
    by (metis prod_cases4)
  obtain soft where soft: "smooth m targets = Inr soft"
    "soft' = map2 (mix_rows (realised m d height width)) soft (rev soft)"
    "images' = map2 (paste (y1, y2, x1, x2)) images (rev images)"
    using mix_batch_Inr [OF assms(6)] assms(4,5) b by (metis linorder_not_le)
  define w where "w = box_share height width (y1, y2, x1, x2)"
  have w: "realised m d height width = 1 - w" using assms(4,5) by (simp add: realised_def w_def b)
  have len: "length soft = length images" using smooth_length [OF soft(1)] assms(8) by simp
  have "images' ! i = paste (y1, y2, x1, x2) (images ! i) (images ! (length images - 1 - i))"
    using assms(7) by (simp add: soft(3) rev_nth)
  moreover have "soft' ! i = mix_rows (1 - w) (soft ! i) (soft ! (length images - 1 - i))"
    using assms(7) len by (simp add: soft(2) w rev_nth)
  moreover have "w * real_of_int (height * width)
      = real (card {(y, x). int y < height \<and> int x < width \<and> in_box (y1, y2, x1, x2) y x})"
  proof -
    have "w * real_of_int (height * width) = real_of_int ((y2 - y1) * (x2 - x1))"
      using assms(1,2) by (simp add: w_def box_share_def)
    also have "\<dots> = real_of_int (int (card {(y, x). int y < height \<and> int x < width \<and> in_box (y1, y2, x1, x2) y x}))"
      using pasted_pixels [of y1 y2 height x1 x2 width] cutmix_box_inside(1) [OF assms(1-3) b] by presburger
    finally show ?thesis by simp
  qed
  moreover have "0 \<le> w" "w \<le> 1 - md_lam d"
    using box_share_bounds [OF assms(1-3)] by (simp_all add: w_def b)
  ultimately show ?thesis using soft(1) unfolding Let_def b by (auto simp: paste_def)
qed

theorem cutmix_labels_exact_witness:
  "\<exists>images' soft'. mix_batch demo_mixer demo_draws 4 4 [\<lambda>ch y x. 0, \<lambda>ch y x. 1] [0, 1] = Inr (images', soft')
     \<and> (images' ! 0) 0 0 0 = 1"
proof -
  obtain i s where r: "mix_batch demo_mixer demo_draws 4 4 [\<lambda>ch y x. 0, \<lambda>ch y x. 1] [0, 1] = Inr (i, s)"
    using demo_mix by blast
  have h: "draws_ok demo_draws 4 4" "md_apply demo_draws < mx_prob demo_mixer" "use_cutmix demo_mixer demo_draws"
    by (simp_all add: draws_ok_def demo_draws_def demo_mixer_def use_cutmix_def)
  have "cutmix_box 4 4 (md_lam demo_draws) (md_cy demo_draws) (md_cx demo_draws) = (0, 4, 0, 4)"
    by (simp add: cutmix_box_def demo_draws_def Let_def)
  with cutmix_labels_exact [OF _ _ h r, of 0] have "(i ! 0) 0 0 0 = 1" by (simp add: in_box_def Let_def)
  with r show ?thesis by blast
qed

text \<open>In a batch of odd size the middle image is its own partner.\<close>

lemma odd_batch_self_partner: "length images = 2 * k + 1 \<Longrightarrow> rev images ! k = images ! k"
  by (simp add: rev_nth)

text \<open>Whatever is enabled, lighting comes before normalisation and erasing after it.\<close>

lemma train_transform_order:
  assumes "build_train_transform c = xs @ Normalize mu sd # ys"
  shows "PCA_Lighting a \<notin> set ys" "Random_Erasing p \<notin> set xs"
  using assms by (auto simp: build_train_transform_def append_eq_Cons_conv append_eq_append_conv2 Cons_eq_append_conv split: if_splits)

lemma pca_lighting_range:
  "channels = 3 \<Longrightarrow> alpha_std \<noteq> 0 \<Longrightarrow> 0 \<le> pca_lighting alpha_std z channels img ch y x \<and> pca_lighting alpha_std z channels img ch y x \<le> 1"
  by (simp add: pca_lighting_def Let_def)

end
