(* ===== verification/Datasets.thy ===== *)
theory Datasets
  imports Detection_Service Uploads
begin

text \<open>
  The datasets and the detection evaluation: the COCO subset and its split (\<open>models/data/coco.py\<close>),
  the Tiny-ImageNet layout checks and labels (\<open>models/data/tiny_imagenet.py\<close>), and the conversion of
  detections into COCO results (\<open>scripts/evaluate_detector.py\<close>). The file system, the annotation file,
  torch's permutation and the session are parameters.
\<close>

section \<open>COCO categories and targets\<close>

definition layout_error :: "string \<Rightarrow> string \<Rightarrow> exn" where
  "layout_error kind m = PyExc kind m"

definition missing_category :: "int \<Rightarrow> exn" where
  "missing_category k = PyExc ''KeyError'' (show_int k)"

text \<open>\<open>_contiguous_category_map\<close> and the inverse the evaluation builds.\<close>

definition contiguous_category_map :: "int list \<Rightarrow> (int, nat) dict" where
  "contiguous_category_map cat_ids =
     foldl (\<lambda>d (i, c). dict_set c i d) [] (enumerate 0 (sort cat_ids))"

definition index_to_category :: "int list \<Rightarrow> (nat, int) dict" where
  "index_to_category cat_ids = enumerate 0 (sort cat_ids)"

definition num_coco_classes :: nat where
  "num_coco_classes = 80"

record annotation =
  an_bbox :: "real \<times> real \<times> real \<times> real"
  an_category_id :: int
  an_iscrowd :: bool

definition usable :: "annotation \<Rightarrow> bool" where
  "usable a = (case an_bbox a of (x, y, w, h) \<Rightarrow> \<not> an_iscrowd a \<and> \<not> (w \<le> 1 \<or> h \<le> 1))"

definition normalised_box :: "int \<Rightarrow> int \<Rightarrow> real \<times> real \<times> real \<times> real \<Rightarrow> real \<times> real \<times> real \<times> real" where
  "normalised_box W H b =
     (case b of (x, y, w, h) \<Rightarrow>
       ((x + w / 2) / of_int W, (y + h / 2) / of_int H, w / of_int W, h / of_int H))"

text \<open>The target of \<open>CocoDetectionSubset.__getitem__\<close> for an image of the given size.\<close>

definition coco_target ::
  "(int, nat) dict \<Rightarrow> int \<Rightarrow> int \<Rightarrow> annotation list \<Rightarrow> ((real \<times> real \<times> real \<times> real) \<times> nat) list result" where
  "coco_target cat_to_label W H annotations =
     map_res (\<lambda>a. case dict_get cat_to_label (an_category_id a) of
         None \<Rightarrow> Inl (missing_category (an_category_id a))
       | Some label \<Rightarrow> Inr (normalised_box W H (an_bbox a), label)) (filter usable annotations)"

definition make_coco_subset :: "int list \<Rightarrow> (int, nat) dict result" where
  "make_coco_subset cat_ids =
     (let cat_to_label = contiguous_category_map cat_ids
      in if length cat_to_label \<noteq> num_coco_classes
         then Inl (layout_error ''CocoLayoutError'' (''Expected '' @ show_nat num_coco_classes
                @ '' COCO categories, found '' @ show_nat (length cat_to_label)))
         else Inr cat_to_label)"

section \<open>The split\<close>

record coco_info =
  ci_id :: int
  ci_file_name :: string
  ci_present :: bool

text \<open>\<open>build_coco_dataloaders\<close> up to the identifiers of the two sets; \<open>permutation n\<close> is what
  \<open>randperm\<close> returns under the seed.\<close>

definition coco_split ::
  "(nat \<Rightarrow> nat list) \<Rightarrow> string \<Rightarrow> coco_info list \<Rightarrow> real \<Rightarrow> (int list \<times> int list) result" where
  "coco_split permutation base infos train_fraction =
     (let image_ids = sort (map ci_id (filter ci_present infos))
      in if length image_ids < 4
         then Inl (layout_error ''CocoLayoutError'' (''COCO subset at '' @ base @ '' has only ''
                @ show_nat (length image_ids) @ '' images''))
         else
           (let n = int (length image_ids);
                p = permutation (length image_ids);
                split_at = nat (max 1 (min (n - 1) \<lfloor>of_int n * train_fraction\<rfloor>))
            in Inr (map (nth image_ids) (take split_at p), map (nth image_ids) (drop split_at p))))"

section \<open>Detections as COCO results\<close>

record coco_result =
  cr_image_id :: int
  cr_category_id :: int
  cr_bbox :: "real \<times> real \<times> real \<times> real"
  cr_score :: real

text \<open>What the loop over the images of a chunk does with one image.\<close>

definition image_results ::
  "(nat, int) dict \<Rightarrow> real \<Rightarrow> int \<Rightarrow> int \<Rightarrow> int \<Rightarrow> real list list \<times> (real \<times> real \<times> real \<times> real) list
   \<Rightarrow> coco_result list result" where
  "image_results to_category threshold image_id W H out =
     (case out of (scores, boxes) \<Rightarrow>
      let keep = filter (\<lambda>q. threshold \<le> list_max (scores ! q)) [0..<length scores]
      in if list_ex (\<lambda>q. length boxes \<le> q) keep then Inl index_error
         else
           map_res (\<lambda>(q, b).
             case dict_get to_category (argmax (scores ! q)) of
               None \<Rightarrow> Inl (missing_category (int (argmax (scores ! q))))
             | Some c \<Rightarrow>
                 Inr \<lparr>cr_image_id = image_id, cr_category_id = c,
                      cr_bbox = (py_round 2 (box_x0 b), py_round 2 (box_y0 b),
                                 py_round 2 (box_x1 b - box_x0 b), py_round 2 (box_y1 b - box_y0 b)),
                      cr_score = py_round 5 (list_max (scores ! q))\<rparr>)
             (zip keep (boxes_to_absolute (map (nth boxes) keep) W H)))"

type_synonym detector_out = "real list list \<times> (real \<times> real \<times> real \<times> real) list"

text \<open>The environment: reading and preprocessing a file (absent files are skipped), and the session
  on a stacked batch, one output per image.\<close>

record eval_env =
  ev_load :: "string \<Rightarrow> (chw \<times> int \<times> int) result option"
  ev_session :: "chw list \<Rightarrow> detector_out list result"

definition load_present :: "eval_env \<Rightarrow> (int \<times> string) list \<Rightarrow> (int \<times> chw \<times> int \<times> int) list result" where
  "load_present E chunk =
     map_res (\<lambda>(i, f). case ev_load E f of None \<Rightarrow> Inl index_error | Some r \<Rightarrow> res_bind r (\<lambda>x. Inr (i, x)))
       (filter (\<lambda>(i, f). ev_load E f \<noteq> None) chunk)"

definition chunk_results ::
  "eval_env \<Rightarrow> (nat, int) dict \<Rightarrow> real \<Rightarrow> (int \<times> string) list \<Rightarrow> coco_result list result" where
  "chunk_results E to_category threshold chunk =
     res_bind (load_present E chunk) (\<lambda>loaded.
     if loaded = [] then Inr []
     else
       res_bind (ev_session E (map (\<lambda>(i, a, W, H). a) loaded)) (\<lambda>outs.
       res_bind (map_res (\<lambda>((i, a, W, H), out). image_results to_category threshold i W H out) (zip loaded outs)) (\<lambda>rs.
       Inr (concat rs))))"

definition run_detections ::
  "eval_env \<Rightarrow> (nat, int) dict \<Rightarrow> real \<Rightarrow> nat \<Rightarrow> (int \<times> string) list \<Rightarrow> coco_result list result" where
  "run_detections E to_category threshold batch_size records =
     (if batch_size = 0 then Inl (PyExc ''ValueError'' ''range() arg 3 must not be zero'')
      else res_bind (map_res (chunk_results E to_category threshold) (slices batch_size records)) (\<lambda>rs. Inr (concat rs)))"

section \<open>Tiny-ImageNet\<close>

text \<open>The directories the checks look at. \<open>tf_classes\<close> is what torchvision's \<open>ImageFolder\<close> finds: the
  class directories of a split in sorted order.\<close>

record tiny_fs =
  tf_is_dir :: "string list \<Rightarrow> bool"
  tf_entries :: "string list \<Rightarrow> (string \<times> bool) list"
  tf_classes :: "string list \<Rightarrow> string list"
  tf_words :: "string list \<Rightarrow> string list option"

definition tiny_num_classes :: nat where
  "tiny_num_classes = 200"

definition assert_val_is_restructured :: "tiny_fs \<Rightarrow> string list \<Rightarrow> unit result" where
  "assert_val_is_restructured F base =
     (let val_dir = base @ [''val''] in
      if \<not> tf_is_dir F val_dir then Inl (layout_error ''DatasetLayoutError'' ''No validation directory'')
      else if tf_is_dir F (val_dir @ [''images''])
      then Inl (layout_error ''DatasetLayoutError'' ''still in its distributed layout'')
      else
        (let class_dirs = filter snd (tf_entries F val_dir)
         in if length class_dirs \<noteq> tiny_num_classes
            then Inl (layout_error ''DatasetLayoutError'' (''Expected '' @ show_nat tiny_num_classes
                   @ '' class directories, found '' @ show_nat (length class_dirs)))
            else Inr ()))"

definition resolve_root :: "tiny_fs \<Rightarrow> string list \<Rightarrow> string list result" where
  "resolve_root F data_dir =
     (let candidates = [data_dir @ [''tiny-imagenet-200''],
                        data_dir @ [''tiny-imagenet-200'', ''tiny-imagenet-200''], data_dir]
      in case filter (\<lambda>c. tf_is_dir F (c @ [''train'']) \<and> tf_is_dir F (c @ [''val''])) candidates of
           [] \<Rightarrow> Inl (layout_error ''DatasetLayoutError'' ''Could not find Tiny-ImageNet'')
         | c # _ \<Rightarrow> Inr c)"

text \<open>\<open>line.partition(c)\<close>: what precedes the first separator and what follows it.\<close>

definition partition_at :: "char \<Rightarrow> string \<Rightarrow> string \<times> string" where
  "partition_at c s = (takeWhile (\<lambda>x. x \<noteq> c) s, tl (dropWhile (\<lambda>x. x \<noteq> c) s))"

fun read_words :: "string list \<Rightarrow> (string, string) dict \<Rightarrow> (string, string) dict" where
  "read_words [] mapping = mapping"
| "read_words (line # rest) mapping =
     (case partition_at (CHR 0x09) line of (wnid, names) \<Rightarrow>
        read_words rest (if names \<noteq> [] then dict_set (strip wnid) (strip (fst (partition_at (CHR '','') names))) mapping
                         else mapping))"

definition load_class_names :: "tiny_fs \<Rightarrow> string list \<Rightarrow> (string, string) dict" where
  "load_class_names F base =
     (case tf_words F (base @ [''words.txt'']) of None \<Rightarrow> [] | Some lines \<Rightarrow> read_words lines [])"

record tiny_imagenet =
  ti_train_classes :: "string list"
  ti_val_classes :: "string list"
  ti_class_names :: "string list"
  ti_wnids :: "string list"

definition class_to_idx :: "string list \<Rightarrow> (string \<times> nat) list" where
  "class_to_idx classes = map (\<lambda>(i, c). (c, i)) (enumerate 0 classes)"

definition build_datasets :: "tiny_fs \<Rightarrow> string list \<Rightarrow> tiny_imagenet result" where
  "build_datasets F data_dir =
     res_bind (resolve_root F data_dir) (\<lambda>base.
     res_bind (assert_val_is_restructured F base) (\<lambda>_.
     let train = tf_classes F (base @ [''train'']); val = tf_classes F (base @ [''val'']) in
     if set (class_to_idx train) \<noteq> set (class_to_idx val)
     then Inl (layout_error ''DatasetLayoutError'' ''Train and validation class indices disagree'')
     else
       (let names = load_class_names F base
        in Inr \<lparr>ti_train_classes = train, ti_val_classes = val,
                ti_class_names = map (\<lambda>w. case dict_get names w of Some n \<Rightarrow> n | None \<Rightarrow> w) train,
                ti_wnids = train\<rparr>)))"

section \<open>Categories\<close>

lemma dict_get_enumerate: "dict_get (enumerate n xs) i = (if n \<le> i \<and> i < n + length xs then Some (xs ! (i - n)) else None)"
  by (induction xs arbitrary: n) (auto simp: nth_Cons' Suc_diff_le)

lemma foldl_dict_set_fresh:
  "distinct (map snd es) \<Longrightarrow> set (map fst d) \<inter> set (map snd es) = {}
   \<Longrightarrow> foldl (\<lambda>d (i, c). dict_set c i d) d es = d @ map (\<lambda>(i, c). (c, i)) es"
proof (induction es arbitrary: d)
  case (Cons e es)
  obtain i c where e: "e = (i, c)" by fastforce
  have "dict_set c i d = d @ [(c, i)]" using Cons.prems e by (intro dict_set_new) (auto simp: map_of_eq_None_iff)
  then show ?case using Cons.IH [of "d @ [(c, i)]"] Cons.prems e by auto
qed simp

lemma contiguous_category_map_eq:
  "distinct cat_ids \<Longrightarrow> contiguous_category_map cat_ids = map (\<lambda>(i, c). (c, i)) (enumerate 0 (sort cat_ids))"
  unfolding contiguous_category_map_def by (subst foldl_dict_set_fresh) simp_all

lemma category_index:
  assumes "distinct cat_ids"
  shows "dict_get (contiguous_category_map cat_ids) c = Some i \<longleftrightarrow> dict_get (index_to_category cat_ids) i = Some c"
proof -
  have "distinct (map fst (contiguous_category_map cat_ids))"
    unfolding contiguous_category_map_eq [OF assms] by (simp add: comp_def case_prod_unfold assms)
  then have "dict_get (contiguous_category_map cat_ids) c = Some i \<longleftrightarrow> (c, i) \<in> set (contiguous_category_map cat_ids)"
    by simp
  also have "\<dots> \<longleftrightarrow> (i, c) \<in> set (enumerate 0 (sort cat_ids))"
    unfolding contiguous_category_map_eq [OF assms] by auto
  also have "\<dots> \<longleftrightarrow> dict_get (index_to_category cat_ids) i = Some c"
    unfolding index_to_category_def by (subst map_of_eq_Some_iff) simp_all
  finally show ?thesis .
qed

lemma category_index_total:
  "c \<in> set cat_ids \<Longrightarrow> \<exists>i < length cat_ids. dict_get (index_to_category cat_ids) i = Some c"
proof -
  assume "c \<in> set cat_ids"
  then have "c \<in> set (sort cat_ids)" by simp
  then obtain i where "i < length (sort cat_ids)" "sort cat_ids ! i = c" by (metis in_set_conv_nth)
  then show ?thesis by (auto simp: index_to_category_def dict_get_enumerate)
qed

section \<open>Targets and evaluation agree\<close>

definition inside :: "int \<Rightarrow> int \<Rightarrow> annotation \<Rightarrow> bool" where
  "inside W H a = (case an_bbox a of (x, y, w, h) \<Rightarrow> 0 \<le> x \<and> x + w \<le> of_int W \<and> 0 \<le> y \<and> y + h \<le> of_int H)"

lemma normalised_box_inverse:
  assumes "0 < W" "0 < H" "inside W H a" "usable a" "an_bbox a = (x, y, w, h)"
  shows "box_to_absolute W H (normalised_box W H (an_bbox a)) = \<lparr>box_x0 = x, box_y0 = y, box_x1 = x + w, box_y1 = y + h\<rparr>"
proof -
  have c: "0 \<le> x" "x + w \<le> of_int W" "0 \<le> y" "y + h \<le> of_int H" "1 < w" "1 < h"
    using assms(3-5) by (auto simp: inside_def usable_def)
  have m: "((x + w / 2) / of_int W - w / of_int W / 2) * of_int W = x"
    "((y + h / 2) / of_int H - h / of_int H / 2) * of_int H = y"
    "((x + w / 2) / of_int W + w / of_int W / 2) * of_int W = x + w"
    "((y + h / 2) / of_int H + h / of_int H / 2) * of_int H = y + h"
    using assms(1,2) by (auto simp: field_simps)
  show ?thesis unfolding assms(5) normalised_box_def prod.case box_to_absolute.simps m
    using c by (simp add: np_clip_def)
qed

text \<open>A detector that answers the target itself: one query for each annotation, whose best class is
  its label, with a score that passes the threshold.\<close>

definition answers :: "real \<Rightarrow> ((real \<times> real \<times> real \<times> real) \<times> nat) list \<Rightarrow> detector_out \<Rightarrow> bool" where
  "answers threshold target out \<longleftrightarrow>
     snd out = map fst target \<and> length (fst out) = length target
     \<and> list_all2 (\<lambda>s t. argmax s = snd t \<and> threshold \<le> list_max s) (fst out) target"

lemma coco_target_Inr:
  assumes "coco_target (contiguous_category_map cat_ids) W H anns = Inr target" "i < length target"
  shows "i < length (filter usable anns)"
    and "fst (target ! i) = normalised_box W H (an_bbox (filter usable anns ! i))"
    and "dict_get (contiguous_category_map cat_ids) (an_category_id (filter usable anns ! i)) = Some (snd (target ! i))"
proof -
  show l: "i < length (filter usable anns)"
    using map_res_Inr_length [OF assms(1) [unfolded coco_target_def]] assms(2) by simp
  from map_res_Inr_nth [OF assms(1) [unfolded coco_target_def] l]
  show "fst (target ! i) = normalised_box W H (an_bbox (filter usable anns ! i))"
    and "dict_get (contiguous_category_map cat_ids) (an_category_id (filter usable anns ! i)) = Some (snd (target ! i))"
    by (auto split: option.splits simp: prod_eq_iff)
qed

text \<open>
  Training targets and evaluation speak of the same boxes and categories. Targets are built for
  exactly the annotations that are neither crowds nor degenerate, with labels below the number of
  categories; and a detector that returns the training target of an image is scored, detection by
  detection, on the annotated category and on the annotated box rounded to two decimals.
\<close>

theorem coco_target_roundtrip:
  assumes "distinct cat_ids" "0 < W" "0 < H" "\<And>a. a \<in> set anns \<Longrightarrow> inside W H a"
    and "coco_target (contiguous_category_map cat_ids) W H anns = Inr target" "answers threshold target out"
  shows "length target = length (filter usable anns) \<and> list_all (\<lambda>t. snd t < length cat_ids) target
    \<and> (\<exists>rs. image_results (index_to_category cat_ids) threshold image_id W H out = Inr rs
         \<and> map (\<lambda>r. (cr_category_id r, cr_bbox r)) rs
           = map (\<lambda>a. (an_category_id a,
                (case an_bbox a of (x, y, w, h) \<Rightarrow> (py_round 2 x, py_round 2 y, py_round 2 w, py_round 2 h))))
               (filter usable anns))"
proof -
  obtain scores boxes where out: "out = (scores, boxes)" by fastforce
  have len: "length target = length (filter usable anns)"
    using map_res_Inr_length [OF assms(5) [unfolded coco_target_def]] .
  have lens: "length scores = length target" "boxes = map fst target"
    using assms(6) by (auto simp: answers_def out)
  have score: "argmax (scores ! i) = snd (target ! i)" "threshold \<le> list_max (scores ! i)" if "i < length target" for i
    using assms(6) that by (auto simp: answers_def out list_all2_conv_all_nth)
  have keep: "filter (\<lambda>q. threshold \<le> list_max (scores ! q)) [0..<length scores] = [0..<length target]"
    using score(2) lens(1) by (auto simp: filter_id_conv)
  note t = coco_target_Inr [OF assms(5)]
  have cat: "dict_get (index_to_category cat_ids) (snd (target ! i)) = Some (an_category_id (filter usable anns ! i))"
    if "i < length target" for i
    using t(3) [OF that] category_index [OF assms(1)] by simp
  have "snd (target ! i) < length cat_ids" if "i < length target" for i
    using cat [OF that] by (auto simp: index_to_category_def dict_get_enumerate split: if_splits)
  then have small: "list_all (\<lambda>t. snd t < length cat_ids) target" by (auto simp: list_all_length)
  define res where "res = (\<lambda>i. let a = filter usable anns ! i; b = box_to_absolute W H (fst (target ! i)) in
     \<lparr>cr_image_id = image_id, cr_category_id = an_category_id a,
      cr_bbox = (py_round 2 (box_x0 b), py_round 2 (box_y0 b), py_round 2 (box_x1 b - box_x0 b), py_round 2 (box_y1 b - box_y0 b)),
      cr_score = py_round 5 (list_max (scores ! i))\<rparr>)"
  have bx: "boxes_to_absolute (map ((!) boxes) [0..<length target]) W H = map (\<lambda>i. box_to_absolute W H (fst (target ! i))) [0..<length target]"
    by (simp add: boxes_to_absolute_def lens(2))
  have z: "zip [0..<length target] (map (\<lambda>i. box_to_absolute W H (fst (target ! i))) [0..<length target])
      = map (\<lambda>i. (i, box_to_absolute W H (fst (target ! i)))) [0..<length target]"
    by (rule nth_equalityI) auto
  have small_q: "\<not> list_ex (\<lambda>q. length boxes \<le> q) [0..<length target]" by (simp add: list_ex_iff lens(2))
  have "image_results (index_to_category cat_ids) threshold image_id W H out
     = map_res (\<lambda>(q, b). case dict_get (index_to_category cat_ids) (argmax (scores ! q)) of
               None \<Rightarrow> Inl (missing_category (int (argmax (scores ! q))))
             | Some c \<Rightarrow> Inr \<lparr>cr_image_id = image_id, cr_category_id = c,
                      cr_bbox = (py_round 2 (box_x0 b), py_round 2 (box_y0 b),
                                 py_round 2 (box_x1 b - box_x0 b), py_round 2 (box_y1 b - box_y0 b)),
                      cr_score = py_round 5 (list_max (scores ! q))\<rparr>)
         (map (\<lambda>i. (i, box_to_absolute W H (fst (target ! i)))) [0..<length target])"
    unfolding image_results_def out prod.case Let_def keep bx z using small_q by simp
  also have "\<dots> = Inr (map (\<lambda>(i, b). res i) (map (\<lambda>i. (i, box_to_absolute W H (fst (target ! i)))) [0..<length target]))"
    by (rule map_res_all_Inr) (auto simp: score(1) cat res_def Let_def)
  finally have run: "image_results (index_to_category cat_ids) threshold image_id W H out = Inr (map res [0..<length target])"
    by (simp add: comp_def)
  have "(cr_category_id (res i), cr_bbox (res i)) = (\<lambda>a. (an_category_id a,
                (case an_bbox a of (x, y, w, h) \<Rightarrow> (py_round 2 x, py_round 2 y, py_round 2 w, py_round 2 h)))) (filter usable anns ! i)"
    if i: "i < length target" for i
  proof -
    obtain x y w h where b: "an_bbox (filter usable anns ! i) = (x, y, w, h)" by (metis prod_cases4)
    have "filter usable anns ! i \<in> set (filter usable anns)" using t(1) [OF i] nth_mem by blast
    then have "inside W H (filter usable anns ! i)" "usable (filter usable anns ! i)" using assms(4) by auto
    from normalised_box_inverse [OF assms(2,3) this b] show ?thesis
      unfolding res_def Let_def t(2) [OF i] by (simp add: b)
  qed
  then have "map (\<lambda>r. (cr_category_id r, cr_bbox r)) (map res [0..<length target])
     = map (\<lambda>a. (an_category_id a,
                (case an_bbox a of (x, y, w, h) \<Rightarrow> (py_round 2 x, py_round 2 y, py_round 2 w, py_round 2 h))))
               (filter usable anns)"
    by (intro nth_equalityI) (simp_all add: len)
  then show ?thesis using len small run by blast
qed

definition demo_ann :: "int \<Rightarrow> bool \<Rightarrow> annotation" where
  "demo_ann c crowd = \<lparr>an_bbox = (1, 2, 4, 5), an_category_id = c, an_iscrowd = crowd\<rparr>"

theorem coco_target_roundtrip_witness:
  "\<exists>rs. image_results (index_to_category [90, 1, 17]) (1/2) 7 10 10 ([[0, 1, 0]], [normalised_box 10 10 (1, 2, 4, 5)]) = Inr rs
     \<and> map cr_category_id rs = [17]"
proof -
  have d: "distinct [90, 1, 17 :: int]" by simp
  have s: "sort [90, 1, 17 :: int] = [1, 17, 90]" by simp
  have t: "coco_target (contiguous_category_map [90, 1, 17]) 10 10 [demo_ann 17 False, demo_ann 1 True]
      = Inr [(normalised_box 10 10 (1, 2, 4, 5), 1)]"
    unfolding coco_target_def contiguous_category_map_eq [OF d] s by (simp add: demo_ann_def usable_def)
  have a: "answers (1/2) [(normalised_box 10 10 (1, 2, 4, 5), 1)] ([[0, 1, 0]], [normalised_box 10 10 (1, 2, 4, 5)])"
    by (simp add: answers_def argmax_def)
  have i: "inside 10 10 x" if "x \<in> set [demo_ann 17 False, demo_ann 1 True]" for x
    using that by (auto simp: demo_ann_def inside_def)
  have p: "0 < (10 :: int)" by simp
  obtain rs where e: "image_results (index_to_category [90, 1, 17]) (1/2) 7 10 10 ([[0, 1, 0]], [normalised_box 10 10 (1, 2, 4, 5)]) = Inr rs"
    and r: "map (\<lambda>r. (cr_category_id r, cr_bbox r)) rs = map (\<lambda>a. (an_category_id a,
                (case an_bbox a of (x, y, w, h) \<Rightarrow> (py_round 2 x, py_round 2 y, py_round 2 w, py_round 2 h))))
               (filter usable [demo_ann 17 False, demo_ann 1 True])"
    using coco_target_roundtrip [OF d p p i t a, of 7] by blast
  have "map fst (map (\<lambda>r. (cr_category_id r, cr_bbox r)) rs) = [17]" unfolding r by (simp add: demo_ann_def usable_def)
  then have "map cr_category_id rs = [17]" by (simp add: comp_def)
  with e show ?thesis by (intro exI [of _ rs] conjI)
qed

text \<open>
  The evaluation split leaks nothing. Whatever permutation is drawn and whatever fraction is asked
  for, the two sets are disjoint and together hold each image on disk exactly once; both are
  non-empty, and the split is refused below four images. For a fraction between zero and one the
  training share is the fraction rounded down, up to that adjustment.
\<close>

theorem coco_split_disjoint:
  assumes "coco_split permutation base infos f = Inr (train, val)" "distinct (map ci_id infos)"
    and "\<And>n. distinct (permutation n)" "\<And>n. set (permutation n) = {..<n}"
  shows "set train \<inter> set val = {} \<and> distinct (train @ val)
    \<and> set train \<union> set val = ci_id ` {i. i \<in> set infos \<and> ci_present i}
    \<and> train \<noteq> [] \<and> val \<noteq> []
    \<and> (0 \<le> f \<and> f \<le> 1 \<longrightarrow> int (length train)
         = max 1 (min (int (length (filter ci_present infos)) - 1) \<lfloor>real (length (filter ci_present infos)) * f\<rfloor>))"
proof -
  define ids where "ids = sort (map ci_id (filter ci_present infos))"
  define k where "k = nat (max 1 (min (int (length ids) - 1) \<lfloor>of_int (int (length ids)) * f\<rfloor>))"
  let ?p = "permutation (length ids)"
  have n: "4 \<le> length ids" "train = map (nth ids) (take k ?p)" "val = map (nth ids) (drop k ?p)"
    using assms(1) unfolding coco_split_def ids_def [symmetric] Let_def k_def by (auto split: if_splits)
  have len: "length ?p = length ids" using assms(3,4) [of "length ids"] distinct_card [of ?p] by simp
  have k: "1 \<le> k" "k < length ids" using n(1) by (auto simp: k_def)
  have all: "train @ val = map (nth ids) ?p" by (simp add: n(2,3) flip: map_append)
  have "distinct ids" using assms(2) by (simp add: ids_def distinct_map_filter)
  then have dist: "distinct (train @ val)" unfolding all
    using assms(3,4) [of "length ids"] by (auto simp: distinct_map inj_on_def nth_eq_iff_index_eq)
  moreover have "set train \<union> set val = set ids"
  proof -
    have "set (train @ val) = nth ids ` {..<length ids}" unfolding all using assms(4) by simp
    also have "\<dots> = set ids" by (auto simp: in_set_conv_nth)
    finally show ?thesis by simp
  qed
  moreover have "set ids = ci_id ` {i. i \<in> set infos \<and> ci_present i}" by (auto simp: ids_def)
  moreover have "length train = k" "length val = length ids - k" using k len by (simp_all add: n(2,3))
  moreover have "int k = max 1 (min (int (length (filter ci_present infos)) - 1) \<lfloor>real (length (filter ci_present infos)) * f\<rfloor>)"
    by (simp add: k_def ids_def)
  ultimately show ?thesis using k by auto
qed

theorem coco_split_disjoint_witness:
  "\<exists>train val. coco_split (\<lambda>n. [0..<n]) ''r'' (map (\<lambda>i. \<lparr>ci_id = i, ci_file_name = [], ci_present = True\<rparr>) [1, 2, 3, 4, 5]) (8/10)
     = Inr (train, val) \<and> set train \<inter> set val = {} \<and> length train = 4"
proof -
  let ?infos = "map (\<lambda>i. \<lparr>ci_id = i, ci_file_name = [], ci_present = True\<rparr>) [1, 2, 3, 4, 5]"
  have f: "\<lfloor>5 * (8 / 10 :: real)\<rfloor> = 4" by simp
  have "\<exists>train val. coco_split (\<lambda>n. [0..<n]) ''r'' ?infos (8/10) = Inr (train, val)"
    by (simp add: coco_split_def Let_def)
  then obtain train val where r: "coco_split (\<lambda>n. [0..<n]) ''r'' ?infos (8/10) = Inr (train, val)" by blast
  have d: "distinct (map ci_id ?infos)" by simp
  have p: "distinct [0..<n]" "set [0..<n] = {..<n}" for n by auto
  from coco_split_disjoint [OF r d p] have "set train \<inter> set val = {}" "int (length train) = 4" by (auto simp: f)
  with r show ?thesis by (intro exI [of _ train] exI [of _ val]) simp
qed

section \<open>The batch size of the evaluation\<close>

lemma load_present_Inr:
  "load_present E chunk = Inr loaded \<Longrightarrow> length loaded = length (filter (\<lambda>(i, f). ev_load E f \<noteq> None) chunk)"
  unfolding load_present_def by (rule map_res_Inr_length)

lemma map_res_append: "map_res f (xs @ ys) = res_bind (map_res f xs) (\<lambda>a. res_bind (map_res f ys) (\<lambda>b. Inr (a @ b)))"
  by (cases "map_res f ys"; induction xs) (auto split: sum.splits)

lemma load_present_append:
  "load_present E (xs @ ys) = res_bind (load_present E xs) (\<lambda>a. res_bind (load_present E ys) (\<lambda>b. Inr (a @ b)))"
  by (simp add: load_present_def map_res_append)

text \<open>What the code relies on of the session: an image's outputs do not depend on its batch.\<close>

definition pointwise :: "(chw list \<Rightarrow> detector_out list result) \<Rightarrow> (chw \<Rightarrow> detector_out) \<Rightarrow> bool" where
  "pointwise session one \<longleftrightarrow> (\<forall>arrays. session arrays = Inr (map one arrays))"

definition one_result ::
  "(chw \<Rightarrow> detector_out) \<Rightarrow> (nat, int) dict \<Rightarrow> real \<Rightarrow> int \<times> chw \<times> int \<times> int \<Rightarrow> coco_result list result" where
  "one_result one to_category threshold x =
     (case x of (i, a, W, H) \<Rightarrow> image_results to_category threshold i W H (one a))"

lemma map_res_map: "map_res f (map g xs) = map_res (f \<circ> g) xs"
  by (induction xs) (auto split: sum.splits)

lemma zip_map_same: "zip xs (map f xs) = map (\<lambda>x. (x, f x)) xs"
  by (induction xs) auto

lemma chunk_results_pointwise:
  assumes "pointwise (ev_session E) one"
  shows "chunk_results E tc th chunk =
    res_bind (load_present E chunk) (\<lambda>loaded. res_bind (map_res (one_result one tc th) loaded) (\<lambda>rs. Inr (concat rs)))"
proof (cases "load_present E chunk")
  case (Inr loaded)
  have z: "zip loaded (map one (map (\<lambda>(i, a, W, H). a) loaded)) = map (\<lambda>x. (x, one (fst (snd x)))) loaded"
    by (induction loaded) auto
  have m: "map_res (\<lambda>((i, a, W, H), out). image_results tc th i W H out) (map (\<lambda>x. (x, one (fst (snd x)))) loaded)
      = map_res (one_result one tc th) loaded"
    by (simp add: map_res_map comp_def one_result_def [abs_def] case_prod_unfold)
  show ?thesis
    using assms Inr unfolding chunk_results_def pointwise_def
    by (cases "loaded = []") (simp_all only: Inr res_bind.simps if_True if_False map_res.simps concat.simps z m, simp)
qed (simp add: chunk_results_def)

lemma run_detections_Inr:
  assumes "pointwise (ev_session E) one" "0 < n"
  shows "run_detections E tc th n records = Inr rs \<longleftrightarrow>
    (\<exists>loaded rss. load_present E records = Inr loaded \<and> map_res (one_result one tc th) loaded = Inr rss \<and> rs = concat rss)"
proof -
  have "(\<exists>cs. map_res (chunk_results E tc th) chunks = Inr cs \<and> rs = concat cs)
    \<longleftrightarrow> (\<exists>loaded rss. load_present E (concat chunks) = Inr loaded \<and> map_res (one_result one tc th) loaded = Inr rss \<and> rs = concat rss)"
    for chunks rs
  proof (induction chunks arbitrary: rs)
    case Nil
    show ?case by (auto simp: load_present_def)
  next
    case (Cons c chunks)
    have "(\<exists>cs. map_res (chunk_results E tc th) (c # chunks) = Inr cs \<and> rs = concat cs)
      \<longleftrightarrow> (\<exists>r rs'. chunk_results E tc th c = Inr r \<and> (\<exists>cs. map_res (chunk_results E tc th) chunks = Inr cs \<and> rs' = concat cs)
            \<and> rs = r @ rs')"
      by (auto split: sum.splits)
    also have "\<dots> \<longleftrightarrow> (\<exists>l1 r1 l2 r2. load_present E c = Inr l1 \<and> map_res (one_result one tc th) l1 = Inr r1
        \<and> load_present E (concat chunks) = Inr l2 \<and> map_res (one_result one tc th) l2 = Inr r2
        \<and> rs = concat r1 @ concat r2)"
      unfolding chunk_results_pointwise [OF assms(1)] Cons.IH res_bind_Inr_iff by blast
    also have "\<dots> \<longleftrightarrow> (\<exists>l rss. load_present E (concat (c # chunks)) = Inr l \<and> map_res (one_result one tc th) l = Inr rss
        \<and> rs = concat rss)"
      (is "?l \<longleftrightarrow> ?r")
    proof
      assume ?l
      then obtain l1 r1 l2 r2 where "load_present E c = Inr l1" "map_res (one_result one tc th) l1 = Inr r1"
        "load_present E (concat chunks) = Inr l2" "map_res (one_result one tc th) l2 = Inr r2" "rs = concat r1 @ concat r2"
        by blast
      then show ?r
        by (intro exI [of _ "l1 @ l2"] exI [of _ "r1 @ r2"]) (simp add: load_present_append map_res_append)
    next
      assume ?r
      then obtain l rss where l: "load_present E (concat (c # chunks)) = Inr l" "map_res (one_result one tc th) l = Inr rss"
        "rs = concat rss" by blast
      from l(1) obtain l1 l2 where l12: "load_present E c = Inr l1" "load_present E (concat chunks) = Inr l2" "l = l1 @ l2"
        by (auto simp: load_present_append res_bind_Inr_iff)
      from l(2) obtain r1 r2 where "map_res (one_result one tc th) l1 = Inr r1" "map_res (one_result one tc th) l2 = Inr r2" "rss = r1 @ r2"
        unfolding l12(3) by (auto simp: map_res_append res_bind_Inr_iff)
      then have "load_present E c = Inr l1 \<and> map_res (one_result one tc th) l1 = Inr r1
        \<and> load_present E (concat chunks) = Inr l2 \<and> map_res (one_result one tc th) l2 = Inr r2
        \<and> rs = concat r1 @ concat r2" using l12 l(3) by simp
      then show ?l by blast
    qed
    finally show ?case .
  qed
  note chunked = this [of "slices n records" rs]
  have "run_detections E tc th n records = Inr rs \<longleftrightarrow>
      (\<exists>cs. map_res (chunk_results E tc th) (slices n records) = Inr cs \<and> rs = concat cs)"
    using assms(2) by (auto simp: run_detections_def res_bind_Inr_iff)
  then show ?thesis unfolding chunked concat_slices [OF assms(2)] .
qed

text \<open>
  The evaluation does not depend on the batch size. When the session treats the images of a
  batch independently, an evaluation that succeeds with one batch size succeeds with every other
  and returns the same detections in the same order, and these are the detections of each image
  present on disk, one image after the other.
\<close>

theorem evaluation_batch_independent:
  assumes "pointwise (ev_session E) one" "0 < n" "0 < m" "run_detections E tc th n records = Inr rs"
  shows "run_detections E tc th m records = Inr rs
    \<and> (\<exists>loaded rss. load_present E records = Inr loaded \<and> rs = concat rss
         \<and> list_all2 (\<lambda>(i, a, W, H) r. image_results tc th i W H (one a) = Inr r) loaded rss)"
proof -
  obtain loaded rss where r: "load_present E records = Inr loaded" "map_res (one_result one tc th) loaded = Inr rss" "rs = concat rss"
    using assms(4) run_detections_Inr [OF assms(1,2)] by blast
  have "list_all2 (\<lambda>x r. one_result one tc th x = Inr r) loaded rss"
    using map_res_Inr_nth [OF r(2)] map_res_Inr_length [OF r(2)] by (simp add: list_all2_conv_all_nth)
  then have "list_all2 (\<lambda>(i, a, W, H) r. image_results tc th i W H (one a) = Inr r) loaded rss"
    by (simp add: one_result_def case_prod_unfold)
  with r run_detections_Inr [OF assms(1,3)] show ?thesis by blast
qed

definition demo_eval :: eval_env where
  "demo_eval = \<lparr>ev_load = (\<lambda>f. if f = ''a.jpg'' then Some (Inr ([], 10, 10)) else None),
     ev_session = (\<lambda>arrays. Inr (map (\<lambda>a. ([[0, 1]], [(1/2, 1/2, 1, 1)])) arrays))\<rparr>"

theorem evaluation_batch_independent_witness:
  "\<exists>rs. run_detections demo_eval [(1, 17)] (1/2) 1 [(1, ''a.jpg''), (2, ''b.jpg''), (3, ''a.jpg'')] = Inr rs
     \<and> run_detections demo_eval [(1, 17)] (1/2) 2 [(1, ''a.jpg''), (2, ''b.jpg''), (3, ''a.jpg'')] = Inr rs"
proof -
  have p: "pointwise (ev_session demo_eval) (\<lambda>a. ([[0, 1]], [(1/2, 1/2, 1, 1)]))" by (simp add: pointwise_def demo_eval_def)
  have "\<exists>r. image_results [(1, 17)] (1/2) i 10 10 ([[0, 1]], [(1/2, 1/2, 1, 1)]) = Inr r" for i
    by (simp add: image_results_def boxes_to_absolute_def argmax_def)
  then obtain r where r: "\<And>i. image_results [(1, 17)] (1/2) i 10 10 ([[0, 1]], [(1/2, 1/2, 1, 1)]) = Inr (r i)" by metis
  have l: "load_present demo_eval [(1, ''a.jpg''), (2, ''b.jpg''), (3, ''a.jpg'')] = Inr [(1, [], 10, 10), (3, [], 10, 10)]"
    by (simp add: load_present_def demo_eval_def)
  have "map_res (one_result (\<lambda>a. ([[0, 1]], [(1/2, 1/2, 1, 1)])) [(1, 17)] (1/2)) [(1, [], 10, 10), (3, [], 10, 10)]
      = Inr [r 1, r 3]"
    by (simp only: map_res.simps one_result_def prod.case r sum.case)
  then have "run_detections demo_eval [(1, 17)] (1/2) 1 [(1, ''a.jpg''), (2, ''b.jpg''), (3, ''a.jpg'')] = Inr (r 1 @ r 3)"
    using run_detections_Inr [OF p, of 1 "[(1, 17)]" "1/2" "[(1, ''a.jpg''), (2, ''b.jpg''), (3, ''a.jpg'')]" "r 1 @ r 3"] l
    by auto
  from evaluation_batch_independent [OF p _ _ this, of 2] this show ?thesis by simp
qed

section \<open>Labels of Tiny-ImageNet\<close>

lemma class_to_idx_inject: "set (class_to_idx xs) = set (class_to_idx ys) \<Longrightarrow> length xs = length ys \<Longrightarrow> xs = ys"
proof (rule nth_equalityI)
  fix i assume e: "set (class_to_idx xs) = set (class_to_idx ys)" and i: "i < length xs" and l: "length xs = length ys"
  have "(xs ! i, i) \<in> set (class_to_idx xs)" using i by (force simp: class_to_idx_def in_set_enumerate_eq)
  then have "(xs ! i, i) \<in> set (class_to_idx ys)" using e by simp
  then show "xs ! i = ys ! i" using l by (auto simp: class_to_idx_def in_set_enumerate_eq)
qed

lemma class_to_idx_length: "length xs \<le> length ys" if "set (class_to_idx xs) \<subseteq> set (class_to_idx ys)"
proof (rule ccontr)
  assume "\<not> length xs \<le> length ys"
  then have "length ys < length xs" by simp
  then have "(xs ! length ys, length ys) \<in> set (class_to_idx xs)" by (force simp: class_to_idx_def in_set_enumerate_eq)
  then have "(xs ! length ys, length ys) \<in> set (class_to_idx ys)" using that by blast
  then show False by (auto simp: class_to_idx_def in_set_enumerate_eq)
qed

text \<open>
  Labels mean the same in both splits. When the datasets are built, the validation split is in
  its restructured layout, both splits number the classes identically, so a label read from either
  names the same class, and the list of human-readable names has one entry for each label, the
  WordNet identifier standing in where no name is known. With ImageFolder finding the class
  directories of the split, there are two hundred labels.
\<close>

theorem tiny_imagenet_labels:
  assumes "build_datasets F data_dir = Inr t"
    and "\<And>p. tf_classes F p = sort (map fst (filter snd (tf_entries F p)))"
  shows "ti_train_classes t = ti_val_classes t \<and> ti_wnids t = ti_val_classes t
    \<and> length (ti_wnids t) = tiny_num_classes \<and> length (ti_class_names t) = length (ti_wnids t)
    \<and> (\<exists>base. resolve_root F data_dir = Inr base \<and> \<not> tf_is_dir F (base @ [''val'', ''images''])
         \<and> (\<forall>i < length (ti_wnids t). ti_class_names t ! i
              = (case dict_get (load_class_names F base) (ti_wnids t ! i) of Some n \<Rightarrow> n | None \<Rightarrow> ti_wnids t ! i)))"
proof -
  obtain base where b: "resolve_root F data_dir = Inr base" "assert_val_is_restructured F base = Inr ()"
    "set (class_to_idx (tf_classes F (base @ [''train'']))) = set (class_to_idx (tf_classes F (base @ [''val''])))"
    "t = \<lparr>ti_train_classes = tf_classes F (base @ [''train'']), ti_val_classes = tf_classes F (base @ [''val'']),
          ti_class_names = map (\<lambda>w. case dict_get (load_class_names F base) w of Some n \<Rightarrow> n | None \<Rightarrow> w)
             (tf_classes F (base @ [''train''])), ti_wnids = tf_classes F (base @ [''train''])\<rparr>"
    using assms(1) by (auto simp: build_datasets_def res_bind_Inr_iff Let_def split: if_splits)
  have same: "tf_classes F (base @ [''train'']) = tf_classes F (base @ [''val''])"
    by (rule class_to_idx_inject [OF b(3)]) (use b(3) class_to_idx_length in \<open>simp add: le_antisym\<close>)
  have "length (tf_classes F (base @ [''val''])) = tiny_num_classes" "\<not> tf_is_dir F (base @ [''val'', ''images''])"
    using b(2) by (auto simp: assert_val_is_restructured_def assms(2) Let_def split: if_splits)
  moreover have f: "ti_train_classes t = tf_classes F (base @ [''train''])" "ti_val_classes t = tf_classes F (base @ [''val''])"
    "ti_class_names t = map (\<lambda>w. case dict_get (load_class_names F base) w of Some n \<Rightarrow> n | None \<Rightarrow> w)
       (tf_classes F (base @ [''train'']))" "ti_wnids t = tf_classes F (base @ [''train''])"
    by (simp_all add: b(4))
  ultimately show ?thesis using b(1) unfolding f same by simp
qed

definition demo_tiny :: tiny_fs where
  "demo_tiny =
     \<lparr>tf_is_dir = (\<lambda>p. p \<noteq> [] \<and> last p \<in> {''train'', ''val''}), tf_entries = (\<lambda>p. map (\<lambda>i. (show_nat i, True)) [0..<200]),
      tf_classes = (\<lambda>p. sort (map show_nat [0..<200])), tf_words = (\<lambda>p. None)\<rparr>"

theorem tiny_imagenet_labels_witness:
  "\<exists>t. build_datasets demo_tiny [''data''] = Inr t \<and> length (ti_wnids t) = tiny_num_classes"
proof -
  have "\<exists>t. build_datasets demo_tiny [''data''] = Inr t"
    by (simp add: build_datasets_def resolve_root_def assert_val_is_restructured_def demo_tiny_def tiny_num_classes_def)
      (simp add: Let_def)
  then obtain t where t: "build_datasets demo_tiny [''data''] = Inr t" by blast
  have c: "tf_classes demo_tiny p = sort (map fst (filter snd (tf_entries demo_tiny p)))" for p
  proof -
    have "filter snd (map (\<lambda>i. (show_nat i, True)) [0..<200]) = map (\<lambda>i. (show_nat i, True)) [0..<200]"
      by (rule filter_True) auto
    then show ?thesis by (simp add: demo_tiny_def comp_def del: upt_rec_numeral)
  qed
  from tiny_imagenet_labels [OF t c] t show ?thesis by blast
qed

end
