(* ===== verification/Training.thy ===== *)
theory Training
  imports Runtime
begin

text \<open>
  The arithmetic of a training run: precision, scheduler lengths and resumption, layer-wise learning
  rates, tracking and hyperparameters (\<open>models/training/utility.py\<close>), and the parameter groups of
  the classification pipeline (\<open>models/training/classification_pipeline.py\<close>). A model is its list of
  named parameters; what PyTorch reports of the device is a parameter.
\<close>

section \<open>Precision\<close>

definition parse_precision :: "string \<Rightarrow> string" where
  "parse_precision precision =
     (case dict_get [(''amp_bf16'', ''bf16''), (''amp_fp16'', ''fp16''), (''fp32'', ''no'')] precision of
        Some m \<Rightarrow> m | None \<Rightarrow> ''no'')"

definition resolve_precision :: "bool \<Rightarrow> bool \<Rightarrow> string \<Rightarrow> string" where
  "resolve_precision cuda_available bf16_supported precision =
     (if precision = ''amp_bf16'' \<and> cuda_available \<and> \<not> bf16_supported then ''fp16''
      else if precision \<in> {''amp_bf16'', ''amp_fp16''} \<and> \<not> cuda_available then ''no''
      else parse_precision precision)"

section \<open>Schedules\<close>

definition py_value_error :: "string \<Rightarrow> exn" where
  "py_value_error m = PyExc ''ValueError'' m"

definition calculate_steps_per_epoch :: "int \<Rightarrow> int \<Rightarrow> int \<Rightarrow> int result" where
  "calculate_steps_per_epoch dataset_length batch_size_train train_subset_num_batches =
     (if batch_size_train \<le> 0
      then Inl (py_value_error (''batch_size_train must be positive, got '' @ show_int batch_size_train))
      else if 0 < train_subset_num_batches then Inr train_subset_num_batches
      else Inr (max 1 (dataset_length div batch_size_train)))"

record scheduler_params =
  sc_num_warmup_steps :: int
  sc_num_training_steps :: int
  sc_steps_per_epoch :: int

definition create_scheduler_params :: "real \<Rightarrow> int \<Rightarrow> int \<Rightarrow> int \<Rightarrow> int \<Rightarrow> scheduler_params result" where
  "create_scheduler_params warmup_ratio batch_size_train dataset_length num_epochs train_subset_num_batches =
     (if num_epochs \<le> 0 then Inl (py_value_error (''num_epochs must be positive, got '' @ show_int num_epochs))
      else if \<not> (0 \<le> warmup_ratio \<and> warmup_ratio < 1) then Inl (py_value_error ''warmup_ratio must be in [0, 1)'')
      else
        res_bind (calculate_steps_per_epoch dataset_length batch_size_train train_subset_num_batches) (\<lambda>steps_per_epoch.
        let num_training_steps = steps_per_epoch * num_epochs
        in Inr \<lparr>sc_num_warmup_steps = \<lfloor>of_int num_training_steps * warmup_ratio\<rfloor>,
                sc_num_training_steps = num_training_steps, sc_steps_per_epoch = steps_per_epoch\<rparr>))"

text \<open>\<open>create_lr_scheduler\<close>: the lengths handed to the scheduler and its \<open>last_epoch\<close>.\<close>

definition create_lr_scheduler :: "scheduler_params \<Rightarrow> int \<Rightarrow> (int \<times> int \<times> int) result" where
  "create_lr_scheduler params start_epoch_at =
     (if start_epoch_at < 0
      then Inl (py_value_error (''start_epoch_at must be non-negative, got '' @ show_int start_epoch_at))
      else (let prior_completed_steps = start_epoch_at * sc_steps_per_epoch params
            in Inr (sc_num_warmup_steps params, sc_num_training_steps params, prior_completed_steps - 1)))"

section \<open>Layer-wise learning rates\<close>

text \<open>A pattern of \<open>_assign_layer_ids\<close> is a literal, a number and a dot. Digits are matched
  greedily, and no shorter match can be followed by the dot. The last pattern is anchored and takes
  one digit.\<close>

definition match_here :: "string \<Rightarrow> string \<Rightarrow> nat option" where
  "match_here literal s =
     (if starts_with s literal
      then (let r = drop (length literal) s; ds = takeWhile is_digit r; after = dropWhile is_digit r
            in if ds \<noteq> [] \<and> after \<noteq> [] \<and> hd after = CHR ''.'' then Some (read_nat ds) else None)
      else None)"

fun search_number :: "string \<Rightarrow> string \<Rightarrow> nat option" where
  "search_number literal [] = match_here literal []"
| "search_number literal (c # s) =
     (case match_here literal (c # s) of Some n \<Rightarrow> Some n | None \<Rightarrow> search_number literal s)"

definition match_layer :: "string \<Rightarrow> nat option" where
  "match_layer s =
     (case drop 5 s of
        d # dot # _ \<Rightarrow> if starts_with s ''layer'' \<and> is_digit d \<and> dot = CHR ''.'' then Some (digit_val d) else None
      | _ \<Rightarrow> None)"

definition block_of :: "string \<Rightarrow> nat option" where
  "block_of name =
     (case search_number ''blocks.'' name of Some n \<Rightarrow> Some (n + 1)
      | None \<Rightarrow> (case search_number ''encoder.layer.'' name of Some n \<Rightarrow> Some (n + 1)
      | None \<Rightarrow> (case search_number ''layers.'' name of Some n \<Rightarrow> Some (n + 1)
      | None \<Rightarrow> (case match_layer name of Some n \<Rightarrow> Some (n + 1) | None \<Rightarrow> None))))"

definition stem_prefixes :: "string list" where
  "stem_prefixes = [''patch_embed'', ''cls_token'', ''pos_embed'', ''conv1'', ''bn1'', ''embeddings'']"

fun number_layers :: "string list \<Rightarrow> (string, nat) dict \<times> nat \<Rightarrow> (string, nat) dict \<times> nat" where
  "number_layers [] st = st"
| "number_layers (name # names) (layer_ids, max_block) =
     (case block_of name of
        Some b \<Rightarrow> number_layers names (dict_set name b layer_ids, max max_block b)
      | None \<Rightarrow>
          if list_ex (starts_with name) stem_prefixes then number_layers names (dict_set name 0 layer_ids, max_block)
          else number_layers names (layer_ids, max_block))"

fun set_defaults :: "string list \<Rightarrow> nat \<Rightarrow> (string, nat) dict \<Rightarrow> (string, nat) dict" where
  "set_defaults [] v d = d"
| "set_defaults (k # ks) v d = set_defaults ks v (case dict_get d k of Some _ \<Rightarrow> d | None \<Rightarrow> dict_set k v d)"

definition assign_layer_ids :: "string list \<Rightarrow> (string, nat) dict" where
  "assign_layer_ids names =
     (case number_layers names ([], 0) of (layer_ids, max_block) \<Rightarrow> set_defaults names (max_block + 1) layer_ids)"

record param =
  pm_name :: string
  pm_requires_grad :: bool

record param_group =
  pg_params :: "param list"
  pg_lr :: real
  pg_weight_decay :: real

definition no_decay_patterns :: "string list" where
  "no_decay_patterns = [''bias'', ''norm'', ''LayerNorm'', ''cls_token'', ''pos_embed'']"

fun pattern_in :: "string \<Rightarrow> string \<Rightarrow> bool" where
  "pattern_in pat [] = (pat = [])"
| "pattern_in pat (c # s) = (starts_with (c # s) pat \<or> pattern_in pat s)"

definition decays :: "string \<Rightarrow> bool" where
  "decays name \<longleftrightarrow> \<not> list_ex (\<lambda>pat. pattern_in pat name) no_decay_patterns"

definition layer_rate :: "real \<Rightarrow> real \<Rightarrow> real \<Rightarrow> nat \<Rightarrow> nat \<Rightarrow> real" where
  "layer_rate encoder_lr head_lr layer_decay max_layer_id layer_id =
     max ((if layer_id = max_layer_id then head_lr else encoder_lr) * layer_decay ^ (max_layer_id - layer_id)) (1 / 10 ^ 8)"

definition group_key :: "nat \<Rightarrow> bool \<Rightarrow> string" where
  "group_key layer_id d = ''layer'' @ show_nat layer_id @ ''_'' @ (if d then ''decay'' else ''nodecay'')"

definition add_param :: "real \<Rightarrow> real \<Rightarrow> param \<Rightarrow> string \<Rightarrow> (string, param_group) dict \<Rightarrow> (string, param_group) dict" where
  "add_param scaled_lr wd p key groups =
     (let groups = (case dict_get groups key of
                      Some _ \<Rightarrow> groups
                    | None \<Rightarrow> dict_set key \<lparr>pg_params = [], pg_lr = scaled_lr, pg_weight_decay = wd\<rparr> groups)
      in case dict_get groups key of
           Some g \<Rightarrow> dict_set key (g\<lparr>pg_params := pg_params g @ [p]\<rparr>) groups
         | None \<Rightarrow> groups)"

fun llrd_loop ::
  "(string, nat) dict \<Rightarrow> nat \<Rightarrow> real \<Rightarrow> real \<Rightarrow> real \<Rightarrow> real \<Rightarrow> param list \<Rightarrow> (string, param_group) dict
   \<Rightarrow> (string, param_group) dict" where
  "llrd_loop layer_ids head_id encoder_lr head_lr layer_decay weight_decay [] groups = groups"
| "llrd_loop layer_ids head_id encoder_lr head_lr layer_decay weight_decay (p # ps) groups =
     (if \<not> pm_requires_grad p then llrd_loop layer_ids head_id encoder_lr head_lr layer_decay weight_decay ps groups
      else
        (let layer_id = (case dict_get layer_ids (pm_name p) of Some i \<Rightarrow> i | None \<Rightarrow> head_id);
             d = decays (pm_name p)
         in llrd_loop layer_ids head_id encoder_lr head_lr layer_decay weight_decay ps
              (add_param (layer_rate encoder_lr head_lr layer_decay head_id layer_id) (if d then weight_decay else 0) p
                 (group_key layer_id d) groups)))"

definition get_layerwise_lr_decay_params ::
  "param list \<Rightarrow> real \<Rightarrow> real \<Rightarrow> real \<Rightarrow> real \<Rightarrow> param_group list result" where
  "get_layerwise_lr_decay_params params encoder_lr head_lr layer_decay weight_decay =
     (if \<not> (0 < layer_decay \<and> layer_decay \<le> 1) then Inl (py_value_error ''layer_decay must be in (0, 1]'')
      else
        (let layer_ids = assign_layer_ids (map pm_name params);
             max_layer_id = foldr max (dict_values layer_ids) 0
         in Inr (dict_values (llrd_loop layer_ids max_layer_id encoder_lr head_lr layer_decay weight_decay params []))))"

section \<open>Parameter groups\<close>

datatype lr_strategy = LLRD | UNIFORM | FROZEN_BACKBONE

definition is_head_param :: "string \<Rightarrow> bool" where
  "is_head_param name \<longleftrightarrow> list_ex (starts_with name) [''head'', ''fc'', ''classifier'']"

text \<open>The groups and the parameters as they are left: freezing sets \<open>requires_grad\<close>.\<close>

definition build_param_groups ::
  "lr_strategy \<Rightarrow> param list \<Rightarrow> real \<Rightarrow> real \<Rightarrow> real \<Rightarrow> real \<Rightarrow> (param list \<times> param_group list) result" where
  "build_param_groups strategy params encoder_lr head_lr layer_decay weight_decay =
     (case strategy of
        LLRD \<Rightarrow> res_bind (get_layerwise_lr_decay_params params encoder_lr head_lr layer_decay weight_decay)
                  (\<lambda>groups. Inr (params, groups))
      | FROZEN_BACKBONE \<Rightarrow>
          (let params' = map (\<lambda>p. p\<lparr>pm_requires_grad := is_head_param (pm_name p)\<rparr>) params
           in Inr (params', [\<lparr>pg_params = filter pm_requires_grad params', pg_lr = head_lr,
                              pg_weight_decay = weight_decay\<rparr>]))
      | UNIFORM \<Rightarrow>
          Inr (params, [\<lparr>pg_params = filter pm_requires_grad params, pg_lr = encoder_lr,
                         pg_weight_decay = weight_decay\<rparr>]))"

section \<open>Tracking\<close>

definition supported_mlflow_schemes :: "string list" where
  "supported_mlflow_schemes =
     [''file'', ''http'', ''https'', ''postgresql'', ''mysql'', ''sqlite'', ''mssql'', ''databricks'']"

definition lower_char :: "char \<Rightarrow> char" where
  "lower_char c = (let n = of_char c :: nat in if 65 \<le> n \<and> n \<le> 90 then char_of (n + 32) else c)"

definition scheme_of :: "string \<Rightarrow> string" where
  "scheme_of uri = (if CHR '':'' \<in> set uri then map lower_char (takeWhile (\<lambda>c. c \<noteq> CHR '':'') uri) else ''file'')"

text \<open>\<open>env_uri\<close> is \<open>MLFLOW_TRACKING_URI\<close>, \<open>store\<close> the resolved path of the local store.\<close>

definition resolve_tracking_uri :: "bool \<Rightarrow> string option \<Rightarrow> bool \<Rightarrow> string option \<Rightarrow> string \<Rightarrow> string option" where
  "resolve_tracking_uri enabled configured_uri inherit_env_uri env_uri store =
     (if \<not> enabled then None
      else if py_or_str configured_uri None \<noteq> None then configured_uri
      else if inherit_env_uri \<and> py_or_str env_uri None \<noteq> None
              \<and> scheme_of (the env_uri) \<in> set supported_mlflow_schemes then env_uri
      else Some (''sqlite:///'' @ store))"

text \<open>\<open>flatten_dict\<close>: \<open>dict(items)\<close> keeps the last value of a repeated key.\<close>

fun flatten_items :: "string \<Rightarrow> string \<Rightarrow> (string \<times> pyval) list \<Rightarrow> (string \<times> pyval) list"
  and flatten_value :: "string \<Rightarrow> string \<Rightarrow> pyval \<Rightarrow> (string \<times> pyval) list" where
  "flatten_items sep parent [] = []"
| "flatten_items sep parent ((k, v) # kvs) =
     flatten_value sep (if parent \<noteq> [] then parent @ sep @ k else k) v @ flatten_items sep parent kvs"
| "flatten_value sep key (PDict d) = foldl (\<lambda>acc (k, v). dict_set k v acc) [] (flatten_items sep key d)"
| "flatten_value sep key v = [(key, v)]"

definition flatten_dict :: "string \<Rightarrow> (string \<times> pyval) list \<Rightarrow> (string, pyval) dict" where
  "flatten_dict sep d = foldl (\<lambda>acc (k, v). dict_set k v acc) [] (flatten_items sep [] d)"

section \<open>Every trainable parameter has its rate\<close>

lemma group_key_inject: "group_key i d = group_key j e \<longleftrightarrow> i = j \<and> d = e"
proof
  assume "group_key i d = group_key j e"
  then have eq: "show_nat i @ CHR ''_'' # (if d then ''decay'' else ''nodecay'')
      = show_nat j @ CHR ''_'' # (if e then ''decay'' else ''nodecay'')"
    by (simp add: group_key_def)
  have "sep_free (CHR ''_'') (show_nat n)" for n
    using show_nat_digits [of "CHR ''_''" n] by (auto simp: sep_free_def is_digit_def)
  from sep_split [OF this this eq] show "i = j \<and> d = e" by (auto split: if_splits)
qed simp

lemma dict_set_idem: "dict_set k v (dict_set k u d) = dict_set k v d"
  by (induction d) auto

lemma add_param_eq:
  "add_param rate wd p key groups =
     (case dict_get groups key of
        None \<Rightarrow> dict_set key \<lparr>pg_params = [p], pg_lr = rate, pg_weight_decay = wd\<rparr> groups
      | Some g \<Rightarrow> dict_set key (g\<lparr>pg_params := pg_params g @ [p]\<rparr>) groups)"
  by (cases "dict_get groups key") (simp_all add: add_param_def Let_def dict_get_set dict_set_idem)

lemma dict_set_concat:
  assumes "distinct (dict_keys d)" "dict_get d k = Some g" "pg_params g' = pg_params g @ [p]"
  shows "mset (concat (map pg_params (dict_values (dict_set k g' d)))) = add_mset p (mset (concat (map pg_params (dict_values d))))"
  using assms
proof (induction d)
  case (Cons e d)
  obtain k' v where e: "e = (k', v)" by fastforce
  show ?case
  proof (cases "k = k'")
    case True
    then show ?thesis using Cons.prems e by simp
  next
    case False
    then have "mset (concat (map pg_params (dict_values (dict_set k g' d)))) = add_mset p (mset (concat (map pg_params (dict_values d))))"
      using Cons e by (intro Cons.IH) auto
    then show ?thesis using False e by simp
  qed
qed simp

definition group_ok ::
  "(param \<Rightarrow> nat) \<Rightarrow> (nat \<Rightarrow> real) \<Rightarrow> real \<Rightarrow> string \<Rightarrow> param_group \<Rightarrow> bool" where
  "group_ok layer rate wd k g \<longleftrightarrow>
     pg_params g \<noteq> [] \<and> (\<exists>i d. k = group_key i d \<and> pg_lr g = rate i \<and> pg_weight_decay g = (if d then wd else 0)
        \<and> (\<forall>p \<in> set (pg_params g). layer p = i \<and> decays (pm_name p) = d))"

definition groups_ok ::
  "(param \<Rightarrow> nat) \<Rightarrow> (nat \<Rightarrow> real) \<Rightarrow> real \<Rightarrow> param list \<Rightarrow> (string, param_group) dict \<Rightarrow> bool" where
  "groups_ok layer rate wd done groups \<longleftrightarrow>
     distinct (dict_keys groups) \<and> mset (concat (map pg_params (dict_values groups))) = mset done
     \<and> (\<forall>(k, g) \<in> set groups. group_ok layer rate wd k g)"

lemma add_param_ok:
  assumes "groups_ok layer rate wd done groups" "i = layer p" "d = decays (pm_name p)"
  shows "groups_ok layer rate wd (done @ [p]) (add_param (rate i) (if d then wd else 0) p (group_key i d) groups)"
proof (cases "dict_get groups (group_key i d)")
  case None
  let ?g = "\<lparr>pg_params = [p], pg_lr = rate i, pg_weight_decay = (if d then wd else 0)\<rparr>"
  have "group_ok layer rate wd (group_key i d) ?g" using assms(2,3) by (auto simp: group_ok_def)
  moreover have "group_key i d \<notin> set (dict_keys groups)" using None by (simp add: dict_get_None_iff)
  ultimately show ?thesis using assms(1) None
    by (auto simp: add_param_eq groups_ok_def dict_set_new)
next
  case (Some g)
  let ?g = "g\<lparr>pg_params := pg_params g @ [p]\<rparr>"
  have g: "group_ok layer rate wd (group_key i d) g"
    using assms(1) Some by (auto simp: groups_ok_def dest!: map_of_SomeD)
  then have new: "group_ok layer rate wd (group_key i d) ?g"
    using assms(2,3) by (auto simp: group_ok_def group_key_inject)
  have "set (dict_set (group_key i d) ?g groups) \<subseteq> insert (group_key i d, ?g) (set groups)"
    by (induction groups) auto
  moreover have "distinct (dict_keys (dict_set (group_key i d) ?g groups))"
    using assms(1) by (simp add: groups_ok_def distinct_update)
  moreover have "mset (concat (map pg_params (dict_values (dict_set (group_key i d) ?g groups)))) = mset (done @ [p])"
    using dict_set_concat [OF _ Some, of ?g p] assms(1) by (simp add: groups_ok_def)
  ultimately show ?thesis using assms(1) new Some
    by (auto simp: add_param_eq groups_ok_def)
qed

lemma llrd_loop_ok:
  assumes "groups_ok layer (layer_rate e h ld head_id) wd done groups"
    and "\<And>p. p \<in> set ps \<Longrightarrow> dict_get ids (pm_name p) = Some (layer p)"
  shows "groups_ok layer (layer_rate e h ld head_id) wd (done @ filter pm_requires_grad ps)
    (llrd_loop ids head_id e h ld wd ps groups)"
  using assms
proof (induction ps arbitrary: "done" groups)
  case (Cons p ps)
  show ?case
  proof (cases "pm_requires_grad p")
    case True
    have "groups_ok layer (layer_rate e h ld head_id) wd (done @ [p])
        (add_param (layer_rate e h ld head_id (layer p)) (if decays (pm_name p) then wd else 0) p
           (group_key (layer p) (decays (pm_name p))) groups)"
      by (rule add_param_ok [OF Cons.prems(1) refl refl])
    from Cons.IH [OF this] Cons.prems(2) True show ?thesis by (simp add: Let_def)
  qed (use Cons in simp)
qed simp

lemma set_defaults_get:
  "dict_get (set_defaults ks v d) k = (case dict_get d k of Some x \<Rightarrow> Some x | None \<Rightarrow> if k \<in> set ks then Some v else None)"
  by (induction ks arbitrary: d) (auto simp: dict_get_set split: option.splits)

lemma assign_layer_ids_total: "n \<in> set names \<Longrightarrow> \<exists>i. dict_get (assign_layer_ids names) n = Some i"
  by (auto simp: assign_layer_ids_def set_defaults_get split: prod.splits option.splits)

lemma layer_rate_mono:
  assumes "0 < ld" "ld \<le> 1" "0 \<le> e" "e \<le> h" "i \<le> j" "j \<le> m"
  shows "layer_rate e h ld m i \<le> layer_rate e h ld m j"
proof -
  have p: "ld ^ (m - i) \<le> ld ^ (m - j)" using assms by (intro power_decreasing) auto
  have "(if i = m then h else e) * ld ^ (m - i) \<le> (if j = m then h else e) * ld ^ (m - j)"
    using assms p by (intro mult_mono) auto
  then show ?thesis unfolding layer_rate_def by (rule max.mono) simp
qed

text \<open>
  Layer-wise decay covers every parameter once. Each trainable parameter is in exactly one
  optimizer group and no frozen one is in any; the group's rate is the head's or the encoder's
  scaled by the decay to the distance from the head, never below the minimum, and its weight decay
  is zero exactly for biases, norms and embeddings of position or class. Rates never decrease from
  the stem to the head when the head's rate is the larger.
\<close>

theorem llrd_groups_cover:
  assumes "get_layerwise_lr_decay_params params e h ld wd = Inr groups" "0 \<le> e" "e \<le> h"
  shows "mset (concat (map pg_params groups)) = mset (filter pm_requires_grad params)
    \<and> (\<exists>m layer. (\<forall>p \<in> set params. dict_get (assign_layer_ids (map pm_name params)) (pm_name p) = Some (layer p) \<and> layer p \<le> m)
         \<and> (\<forall>g p. g \<in> set groups \<and> p \<in> set (pg_params g) \<longrightarrow>
              pg_lr g = max ((if layer p = m then h else e) * ld ^ (m - layer p)) (1 / 10 ^ 8)
              \<and> pg_weight_decay g = (if decays (pm_name p) then wd else 0))
         \<and> (\<forall>g1 g2 p q. g1 \<in> set groups \<and> g2 \<in> set groups \<and> p \<in> set (pg_params g1) \<and> q \<in> set (pg_params g2)
              \<and> layer p \<le> layer q \<longrightarrow> pg_lr g1 \<le> pg_lr g2))"
proof -
  define ids where "ids = assign_layer_ids (map pm_name params)"
  define m where "m = foldr max (dict_values ids) 0"
  define layer :: "param \<Rightarrow> nat" where "layer = (\<lambda>p. the (dict_get ids (pm_name p)))"
  have ld: "0 < ld" "ld \<le> 1" and groups: "groups = dict_values (llrd_loop ids m e h ld wd params [])"
    using assms(1) by (auto simp: get_layerwise_lr_decay_params_def ids_def m_def Let_def split: if_splits)
  have layer: "dict_get ids (pm_name p) = Some (layer p)" if "p \<in> set params" for p
    using assign_layer_ids_total [of "pm_name p" "map pm_name params"] that by (auto simp: layer_def ids_def)
  have "x \<le> foldr max xs 0" if "x \<in> set xs" for x :: nat and xs
    using that by (induction xs) auto
  then have le: "layer p \<le> m" if "p \<in> set params" for p
    using dict_get_in_values [OF layer [OF that]] by (simp add: m_def)
  have "groups_ok layer (layer_rate e h ld m) wd [] []" by (simp add: groups_ok_def)
  from llrd_loop_ok [OF this, of params ids] layer
  have ok: "groups_ok layer (layer_rate e h ld m) wd (filter pm_requires_grad params) (llrd_loop ids m e h ld wd params [])"
    by simp
  then have part: "mset (concat (map pg_params groups)) = mset (filter pm_requires_grad params)"
    by (simp add: groups_ok_def groups)
  have in_params: "p \<in> set params" if "g \<in> set groups" "p \<in> set (pg_params g)" for g p
  proof -
    have "p \<in># mset (concat (map pg_params groups))" using that by auto
    then show ?thesis unfolding part by simp
  qed
  have each: "pg_lr g = layer_rate e h ld m (layer p) \<and> pg_weight_decay g = (if decays (pm_name p) then wd else 0)"
    if gp: "g \<in> set groups" "p \<in> set (pg_params g)" for g p
  proof -
    obtain k where "(k, g) \<in> set (llrd_loop ids m e h ld wd params [])" using gp(1) by (auto simp: groups)
    then have "group_ok layer (layer_rate e h ld m) wd k g" using ok by (auto simp: groups_ok_def)
    then show ?thesis using gp(2) by (auto simp: group_ok_def)
  qed
  have mono: "pg_lr g1 \<le> pg_lr g2"
    if "g1 \<in> set groups" "g2 \<in> set groups" "p \<in> set (pg_params g1)" "q \<in> set (pg_params g2)" "layer p \<le> layer q" for g1 g2 p q
    using each [OF that(1,3)] each [OF that(2,4)] layer_rate_mono [OF ld assms(2,3) that(5) le [OF in_params [OF that(2,4)]]]
    by simp
  show ?thesis
    using part layer le each mono unfolding ids_def layer_rate_def
    by (intro conjI exI [of _ m] exI [of _ layer]) blast+
qed

definition vit_params :: "param list" where
  "vit_params = map (\<lambda>n. \<lparr>pm_name = n, pm_requires_grad = True\<rparr>)
     [''patch_embed.proj.weight'', ''blocks.0.attn.qkv.bias'', ''blocks.11.mlp.fc1.weight'', ''head.weight'']"

theorem llrd_groups_cover_witness:
  "\<exists>groups. get_layerwise_lr_decay_params vit_params (1 / 10 ^ 4) (1 / 10 ^ 3) (3/4) (5/100) = Inr groups
     \<and> length (concat (map pg_params groups)) = 4"
proof -
  have "\<exists>groups. get_layerwise_lr_decay_params vit_params (1 / 10 ^ 4) (1 / 10 ^ 3) (3/4) (5/100) = Inr groups"
    by (simp add: get_layerwise_lr_decay_params_def Let_def)
  then obtain groups where g: "get_layerwise_lr_decay_params vit_params (1 / 10 ^ 4) (1 / 10 ^ 3) (3/4) (5/100) = Inr groups" ..
  have "(0 :: real) \<le> 1 / 10 ^ 4" "(1 :: real) / 10 ^ 4 \<le> 1 / 10 ^ 3" by simp_all
  from llrd_groups_cover [OF g this]
  have "mset (concat (map pg_params groups)) = mset (filter pm_requires_grad vit_params)" by blast
  then have "length (concat (map pg_params groups)) = length (filter pm_requires_grad vit_params)" by (metis size_mset)
  then have "length (concat (map pg_params groups)) = 4" by (simp add: vit_params_def)
  with g show ?thesis by blast
qed

text \<open>In a vision transformer of the transformers library the embeddings carry the name of the model
  in front, so they are not recognised as the stem and train at the rate of the head.\<close>

lemma prefixed_stem_is_head:
  "map snd (assign_layer_ids [''vit.embeddings.cls_token'', ''vit.encoder.layer.0.attention.output.dense.weight'', ''classifier.weight''])
   = [1, 2, 2] \<and> dict_get (assign_layer_ids [''vit.embeddings.cls_token'', ''vit.encoder.layer.0.attention.output.dense.weight'', ''classifier.weight''])
       ''vit.embeddings.cls_token'' = dict_get (assign_layer_ids [''vit.embeddings.cls_token'',
         ''vit.encoder.layer.0.attention.output.dense.weight'', ''classifier.weight'']) ''classifier.weight''"
  by code_simp

section \<open>Scheduler lengths\<close>

lemma scheduler_params_Inr:
  assumes "create_scheduler_params wr bs n ep sub = Inr sp"
  shows "1 \<le> sc_steps_per_epoch sp \<and> sc_num_training_steps sp = sc_steps_per_epoch sp * ep
    \<and> 0 < ep \<and> 0 < bs \<and> 0 \<le> sc_num_warmup_steps sp \<and> sc_num_warmup_steps sp < sc_num_training_steps sp
    \<and> sc_steps_per_epoch sp = (if 0 < sub then sub else max 1 (n div bs))"
proof -
  from assms obtain spe where s: "0 < ep" "0 \<le> wr" "wr < 1" "calculate_steps_per_epoch n bs sub = Inr spe"
    "sp = \<lparr>sc_num_warmup_steps = \<lfloor>of_int (spe * ep) * wr\<rfloor>, sc_num_training_steps = spe * ep, sc_steps_per_epoch = spe\<rparr>"
    by (auto simp: create_scheduler_params_def res_bind_Inr_iff Let_def split: if_splits)
  have spe: "1 \<le> spe" "0 < bs" "spe = (if 0 < sub then sub else max 1 (n div bs))"
    using s(4) by (auto simp: calculate_steps_per_epoch_def split: if_splits)
  have pos: "0 < spe * ep" using s(1) spe(1) by simp
  then have "0 < (of_int (spe * ep) :: real)" by (simp only: of_int_0_less_iff)
  then have "of_int (spe * ep) * wr < of_int (spe * ep) * (1 :: real)" using s(3) by (intro mult_strict_left_mono)
  then have "\<lfloor>of_int (spe * ep) * wr\<rfloor> < spe * ep" by (simp add: floor_less_iff)
  moreover have "0 \<le> of_int (spe * ep) * wr" using pos s(2) by (intro mult_nonneg_nonneg) (simp_all only: of_int_0_le_iff less_imp_le)
  then have "0 \<le> \<lfloor>of_int (spe * ep) * wr\<rfloor>" by (simp only: zero_le_floor)
  ultimately show ?thesis using s spe by simp
qed

text \<open>
  Schedules have sound lengths and resume where they stopped. Accepted settings give at least one
  step per epoch and a warmup shorter than the whole run; a fresh run starts before the first
  step, and resuming after some epochs starts at the last step they completed, which is the
  last one of the schedule exactly when all epochs were completed.
\<close>

theorem schedule_resumes:
  assumes "create_scheduler_params wr bs n ep sub = Inr sp" "0 \<le> start"
  shows "\<exists>last. create_lr_scheduler sp start = Inr (sc_num_warmup_steps sp, sc_num_training_steps sp, last)
    \<and> (last = -1) = (start = 0)
    \<and> last + 1 = start * sc_steps_per_epoch sp
    \<and> (start \<le> ep \<longrightarrow> last < sc_num_training_steps sp)
    \<and> (last = sc_num_training_steps sp - 1) = (start = ep)
    \<and> 0 \<le> sc_num_warmup_steps sp \<and> sc_num_warmup_steps sp < sc_num_training_steps sp"
proof -
  have sp: "1 \<le> sc_steps_per_epoch sp" "sc_num_training_steps sp = sc_steps_per_epoch sp * ep"
    "0 \<le> sc_num_warmup_steps sp" "sc_num_warmup_steps sp < sc_num_training_steps sp"
    using scheduler_params_Inr [OF assms(1)] by blast+
  have le: "start * sc_steps_per_epoch sp \<le> ep * sc_steps_per_epoch sp" if "start \<le> ep"
    using that sp by (intro mult_right_mono) auto
  have "start \<le> ep \<longrightarrow> start * sc_steps_per_epoch sp - 1 < sc_num_training_steps sp"
  proof
    assume "start \<le> ep"
    moreover have "sc_num_training_steps sp = ep * sc_steps_per_epoch sp" using sp by (simp only: mult.commute)
    ultimately show "start * sc_steps_per_epoch sp - 1 < sc_num_training_steps sp" using le by linarith
  qed
  moreover have "(start * sc_steps_per_epoch sp = ep * sc_steps_per_epoch sp) = (start = ep)" using sp by auto
  moreover have "(start * sc_steps_per_epoch sp - 1 = sc_num_training_steps sp - 1) = (start = ep)"
    "(start * sc_steps_per_epoch sp - 1 = -1) = (start = 0)"
    using calculation(2) sp by (auto simp: mult.commute)
  moreover have "create_lr_scheduler sp start
      = Inr (sc_num_warmup_steps sp, sc_num_training_steps sp, start * sc_steps_per_epoch sp - 1)"
    using assms(2) by (simp add: create_lr_scheduler_def)
  ultimately show ?thesis using sp by (intro exI [of _ "start * sc_steps_per_epoch sp - 1"]) simp
qed

theorem schedule_resumes_witness:
  "\<exists>sp last. create_scheduler_params (5/100) 128 100000 10 0 = Inr sp
     \<and> create_lr_scheduler sp 3 = Inr (sc_num_warmup_steps sp, sc_num_training_steps sp, last) \<and> last = 2342"
proof -
  obtain sp where sp: "create_scheduler_params (5/100) 128 100000 10 0 = Inr sp" "sc_steps_per_epoch sp = 781"
    by (simp add: create_scheduler_params_def calculate_steps_per_epoch_def Let_def)
  from schedule_resumes [OF sp(1), of 3] sp show ?thesis by auto
qed

end
