(* ===== verification/Training_Loop.thy ===== *)
theory Training_Loop
  imports Training Regression
begin

text \<open>
  The training loop (\<open>models/training/pipeline.py\<close>): \<open>TrainingPipeline.run\<close> over the batches of each
  epoch, evaluation, checkpoints, divergence and SIGTERM. What PyTorch and Accelerate do is a trace
  of calls; for each batch the parameters say whether its loss was finite, whether Accelerate
  synchronises gradients after it, and whether a signal arrived. One process is modelled.
\<close>

section \<open>Names and intervals\<close>

definition max_consecutive_nan :: nat where
  "max_consecutive_nan = 10"

definition parse_eval_interval :: "int + string \<Rightarrow> (string \<times> int) result" where
  "parse_eval_interval eval_interval =
     (case eval_interval of
        Inl i \<Rightarrow> Inr (''ba'', i)
      | Inr s \<Rightarrow>
          (let s' = chop_newline s; ds = takeWhile is_digit s'; unit = dropWhile is_digit s'
           in if ds \<noteq> [] \<and> unit \<in> {''ep'', ''ba''} then Inr (unit, int (read_nat ds))
              else Inl (py_value_error (''Unsupported eval_interval format: '' @ py_repr s))))"

definition metric_char :: "char \<Rightarrow> bool" where
  "metric_char c \<longleftrightarrow>
     (let n = of_char c :: nat in
      65 \<le> n \<and> n \<le> 90 \<or> 97 \<le> n \<and> n \<le> 122 \<or> is_digit c \<or> c \<in> set ''_-. :/'')"

definition sanitise_metric_name :: "string \<Rightarrow> string" where
  "sanitise_metric_name name = map (\<lambda>c. if metric_char c then c else CHR ''_'') name"

section \<open>Evaluation\<close>

text \<open>\<open>_evaluate\<close> over the batches' mean losses and metrics: \<open>limit\<close> is \<open>eval_subset_num_batches\<close>.\<close>

definition add_metrics :: "(string, flt) dict \<Rightarrow> (string, flt) dict \<Rightarrow> (string, flt) dict" where
  "add_metrics totals metrics =
     foldl (\<lambda>d (name, value). dict_set name (flt_add (case dict_get d name of Some x \<Rightarrow> x | None \<Rightarrow> Fin 0) value) d)
       totals metrics"

definition evaluate_batches :: "nat \<Rightarrow> (flt \<times> (string, flt) dict) list \<Rightarrow> flt \<times> (string, flt) dict" where
  "evaluate_batches limit batches =
     (let used = (if 0 < limit then take limit batches else batches);
          total_loss = foldl (\<lambda>t b. flt_add t (fst b)) (Fin 0) used;
          totals = foldl (\<lambda>d b. add_metrics d (snd b)) [] used;
          n = Fin (real (length used))
      in if used = [] then (Inf False, [])
         else (flt_div total_loss n, map (\<lambda>(k, v). (k, flt_div v n)) totals))"

section \<open>The loop\<close>

datatype event =
    Backward | Optimizer_Step | Zero_Grad | Scheduler_Step nat | Evaluated nat | Train_Loss real nat | Saved nat

record loop_config =
  lc_num_epochs :: nat
  lc_start_epoch :: nat
  lc_train_subset :: nat
  lc_step_every_batch :: bool
  lc_eval_unit :: string
  lc_eval_value :: nat
  lc_save_interval :: nat
  lc_num_schedulers :: nat
  lc_higher_is_better :: bool
  lc_metric_name :: string

record batch_in =
  bi_loss :: "real option"
  bi_sync :: bool
  bi_sigterm :: bool

text \<open>An epoch's batches, and whether a signal arrives between its last batch and its end.\<close>

record epoch_in =
  ei_batches :: "batch_in list"
  ei_sigterm :: bool

text \<open>The \<open>n\<close>-th evaluation's loss, metrics and primary metric.\<close>

type_synonym evaluator = "nat \<Rightarrow> flt \<times> (string, flt) dict \<times> flt"

record loop_state =
  ls_trace :: "event list"
  ls_global_batch_idx :: nat
  ls_consecutive_nan :: nat
  ls_last_saved_epoch :: int
  ls_sigterm :: bool
  ls_evaluations :: nat
  ls_best_metrics :: "flt list"
  ls_final_eval_loss :: flt
  ls_final_metrics :: "(string, flt) dict"

record epoch_state =
  es_loss :: real
  es_num_steps :: nat
  es_batch_idx :: nat
  es_running_loss :: real
  es_accum_count :: nat

definition initial_loop :: loop_state where
  "initial_loop =
     \<lparr>ls_trace = [], ls_global_batch_idx = 0, ls_consecutive_nan = 0, ls_last_saved_epoch = -1, ls_sigterm = False,
      ls_evaluations = 0, ls_best_metrics = [], ls_final_eval_loss = Inf False, ls_final_metrics = []\<rparr>"

definition fresh_epoch :: epoch_state where
  "fresh_epoch = \<lparr>es_loss = 0, es_num_steps = 0, es_batch_idx = 0, es_running_loss = 0, es_accum_count = 0\<rparr>"

definition log_events :: "event list \<Rightarrow> loop_state \<Rightarrow> loop_state" where
  "log_events es st = st\<lparr>ls_trace := ls_trace st @ es\<rparr>"

definition step_schedulers :: "loop_config \<Rightarrow> loop_state \<Rightarrow> loop_state" where
  "step_schedulers cfg st = log_events (map Scheduler_Step [0..<lc_num_schedulers cfg]) st"

text \<open>\<open>_evaluate\<close> and \<open>_log_eval_metrics\<close>.\<close>

definition run_evaluation :: "evaluator \<Rightarrow> loop_state \<Rightarrow> loop_state" where
  "run_evaluation ev st =
     (case ev (ls_evaluations st) of (eval_loss, metrics, primary) \<Rightarrow>
      log_events [Evaluated (ls_global_batch_idx st)]
        (st\<lparr>ls_evaluations := ls_evaluations st + 1, ls_best_metrics := ls_best_metrics st @ [primary],
            ls_final_eval_loss := eval_loss, ls_final_metrics := metrics\<rparr>))"

text \<open>What a synchronised batch does after its optimizer step, up to the check of the signal.\<close>

definition finish_step :: "loop_config \<Rightarrow> evaluator \<Rightarrow> loop_state \<times> epoch_state \<Rightarrow> (loop_state \<times> epoch_state) result" where
  "finish_step cfg ev se =
     (case se of (st, es) \<Rightarrow>
      let step_loss = es_running_loss es / real (max (es_accum_count es) 1);
          es' = \<lparr>es_loss = es_loss es + step_loss, es_num_steps = es_num_steps es + 1,
                 es_batch_idx = es_batch_idx es + 1, es_running_loss = 0, es_accum_count = 0\<rparr>;
          st1 = st\<lparr>ls_global_batch_idx := ls_global_batch_idx st + 1\<rparr>;
          st2 = (if lc_step_every_batch cfg then step_schedulers cfg st1 else st1)
      in if lc_eval_unit cfg = ''ba''
         then (if lc_eval_value cfg = 0 then Inl (PyExc ''ZeroDivisionError'' ''integer modulo by zero'')
               else if ls_global_batch_idx st2 mod lc_eval_value cfg = 0 then Inr (run_evaluation ev st2, es')
               else Inr (st2, es'))
         else Inr (st2, es'))"

text \<open>One batch: the new state and whether the loop over the batches is left.\<close>

definition train_batch ::
  "loop_config \<Rightarrow> evaluator \<Rightarrow> batch_in \<Rightarrow> loop_state \<times> epoch_state \<Rightarrow> ((loop_state \<times> epoch_state) \<times> bool) result" where
  "train_batch cfg ev b se =
     (case se of (st0, es) \<Rightarrow>
      let st = st0\<lparr>ls_sigterm := ls_sigterm st0 \<or> bi_sigterm b\<rparr> in
      case bi_loss b of
        None \<Rightarrow>
          (let n = ls_consecutive_nan st + 1 in
           if max_consecutive_nan \<le> n
           then Inl (PyExc ''RuntimeError'' (show_nat max_consecutive_nan @ '' consecutive non-finite losses -- aborting training''))
           else Inr ((log_events [Zero_Grad] (st\<lparr>ls_consecutive_nan := n\<rparr>), es), False))
      | Some loss \<Rightarrow>
          (let st1 = log_events [Backward, Optimizer_Step, Zero_Grad] (st\<lparr>ls_consecutive_nan := 0\<rparr>);
               es1 = es\<lparr>es_running_loss := es_running_loss es + loss, es_accum_count := es_accum_count es + 1\<rparr>
           in if bi_sync b
              then res_bind (finish_step cfg ev (st1, es1)) (\<lambda>se'. Inr (se', ls_sigterm (fst se')))
              else Inr ((st1, es1), False)))"

fun train_batches ::
  "loop_config \<Rightarrow> evaluator \<Rightarrow> batch_in list \<Rightarrow> loop_state \<times> epoch_state \<Rightarrow> (loop_state \<times> epoch_state) result" where
  "train_batches cfg ev [] se = Inr se"
| "train_batches cfg ev (b # bs) se =
     (if 0 < lc_train_subset cfg \<and> lc_train_subset cfg \<le> es_batch_idx (snd se) then Inr se
      else
        res_bind (train_batch cfg ev b se) (\<lambda>(se', leave). if leave then Inr se' else train_batches cfg ev bs se'))"

definition save_checkpoint :: "nat \<Rightarrow> loop_state \<Rightarrow> loop_state" where
  "save_checkpoint epoch st = log_events [Saved epoch] st"

text \<open>The rest of an epoch after its batches; the flag says whether training ends.\<close>

definition end_epoch ::
  "loop_config \<Rightarrow> evaluator \<Rightarrow> nat \<Rightarrow> bool \<Rightarrow> loop_state \<times> epoch_state \<Rightarrow> (loop_state \<times> bool) result" where
  "end_epoch cfg ev epoch late_signal se =
     (case se of (st0, es) \<Rightarrow>
      let st = st0\<lparr>ls_sigterm := ls_sigterm st0 \<or> late_signal\<rparr>;
          st = (if \<not> lc_step_every_batch cfg then step_schedulers cfg st else st);
          st = (if es_num_steps es = 0 then st
                else log_events [Train_Loss (es_loss es / real (es_num_steps es)) (ls_global_batch_idx st)] st)
      in if lc_eval_unit cfg = ''ep'' \<and> lc_eval_value cfg = 0 \<or> lc_save_interval cfg = 0
         then Inl (PyExc ''ZeroDivisionError'' ''integer modulo by zero'')
         else
           (let st = (if lc_eval_unit cfg = ''ep'' \<and> (epoch + 1) mod lc_eval_value cfg = 0 then run_evaluation ev st else st);
                st = (if (epoch + 1) mod lc_save_interval cfg = 0
                      then (save_checkpoint epoch st)\<lparr>ls_last_saved_epoch := int epoch\<rparr> else st)
            in if ls_sigterm st
               then Inr (if ls_last_saved_epoch st \<noteq> int epoch then save_checkpoint epoch st else st, True)
               else Inr (st, False)))"

definition train_epoch :: "loop_config \<Rightarrow> evaluator \<Rightarrow> nat \<Rightarrow> epoch_in \<Rightarrow> loop_state \<Rightarrow> (loop_state \<times> bool) result" where
  "train_epoch cfg ev epoch inp st =
     res_bind (train_batches cfg ev (ei_batches inp) (st, fresh_epoch)) (end_epoch cfg ev epoch (ei_sigterm inp))"

fun train_epochs :: "loop_config \<Rightarrow> evaluator \<Rightarrow> nat \<Rightarrow> epoch_in list \<Rightarrow> loop_state \<Rightarrow> loop_state result" where
  "train_epochs cfg ev epoch [] st = Inr st"
| "train_epochs cfg ev epoch (inp # inps) st =
     res_bind (train_epoch cfg ev epoch inp st) (\<lambda>(st', stop).
       if stop then Inr st' else train_epochs cfg ev (epoch + 1) inps st')"

definition flt_finite :: "flt \<Rightarrow> bool" where
  "flt_finite x = (case x of Fin _ \<Rightarrow> True | _ \<Rightarrow> False)"

fun best_of :: "bool \<Rightarrow> real \<Rightarrow> flt list \<Rightarrow> real" where
  "best_of higher b [] = b"
| "best_of higher b (Fin x # xs) = best_of higher (if higher then max b x else min b x) xs"
| "best_of higher b (_ # xs) = best_of higher b xs"

definition training_summary :: "loop_config \<Rightarrow> loop_state \<Rightarrow> (string, flt) dict" where
  "training_summary cfg st =
     (let valid = filter flt_finite (ls_best_metrics st);
          base = foldl (\<lambda>d (k, v). dict_set (''final_'' @ k) v d) [(''final_eval_loss'', ls_final_eval_loss st)]
                   (ls_final_metrics st)
      in case valid of
           Fin x # rest \<Rightarrow> dict_set (''best_'' @ lc_metric_name cfg) (Fin (best_of (lc_higher_is_better cfg) x rest)) base
         | _ \<Rightarrow> base)"

text \<open>\<open>TrainingPipeline.run\<close> on the inputs of its epochs.\<close>

definition run_training ::
  "loop_config \<Rightarrow> evaluator \<Rightarrow> epoch_in list \<Rightarrow> (loop_state \<times> (string, flt) dict) result" where
  "run_training cfg ev inputs =
     res_bind (train_epochs cfg ev (lc_start_epoch cfg) (take (lc_num_epochs cfg) inputs) initial_loop) (\<lambda>st.
     Inr (st, training_summary cfg st))"

section \<open>Divergence\<close>

text \<open>The reference: some ten losses in a row are not finite, \<open>k\<close> such losses having come before.\<close>

fun diverges :: "nat \<Rightarrow> 'a option list \<Rightarrow> bool" where
  "diverges k [] = False"
| "diverges k (None # xs) = (max_consecutive_nan \<le> k + 1 \<or> diverges (k + 1) xs)"
| "diverges k (Some x # xs) = diverges 0 xs"

fun trailing :: "nat \<Rightarrow> 'a option list \<Rightarrow> nat" where
  "trailing k [] = k"
| "trailing k (None # xs) = trailing (k + 1) xs"
| "trailing k (Some x # xs) = trailing 0 xs"

lemma diverges_append: "diverges k (xs @ ys) \<longleftrightarrow> diverges k xs \<or> diverges (trailing k xs) ys"
  by (induction k xs rule: diverges.induct) auto

lemma replicate_None_past_Some:
  assumes "k < n"
  shows "sublist (replicate n None) (replicate k None @ Some x # xs) \<longleftrightarrow> sublist (replicate n None) xs"
proof
  assume "sublist (replicate n None) (replicate k None @ Some x # xs)"
  then consider "sublist (replicate n None) (replicate k (None :: 'a option))" | "sublist (replicate n None) (Some x # xs)"
    | xs1 xs2 where "replicate n None = xs1 @ xs2" "suffix xs1 (replicate k None)" "prefix xs2 (Some x # xs)"
    unfolding sublist_append by blast
  then show "sublist (replicate n None) xs"
  proof cases
    case 1
    then show ?thesis using assms by (auto dest!: sublist_length_le)
  next
    case 2
    then have "prefix (replicate n None) (Some x # xs) \<or> sublist (replicate n None) xs" by (simp add: sublist_Cons_right)
    then show ?thesis using assms by (cases n) auto
  next
    case 3
    have "xs2 = []"
    proof (rule ccontr)
      assume "xs2 \<noteq> []"
      then obtain ys where "xs2 = Some x # ys" using 3(3) by (cases xs2) auto
      then have "Some x \<in> set (replicate n (None :: 'a option))" using 3(1) by simp
      then show False by simp
    qed
    then have "length (replicate n (None :: 'a option)) \<le> length (replicate k (None :: 'a option))"
      using 3(1,2) by (metis append_Nil2 suffix_length_le)
    then show ?thesis using assms by simp
  qed
next
  assume "sublist (replicate n None) xs"
  moreover have "sublist xs (replicate k None @ Some x # xs)"
    unfolding sublist_def by (intro exI [of _ "replicate k None @ [Some x]"] exI [of _ "[]"]) simp
  ultimately show "sublist (replicate n None) (replicate k None @ Some x # xs)" by (rule sublist_order.order_trans)
qed

lemma diverges_run: "k < max_consecutive_nan \<Longrightarrow>
    diverges k xs \<longleftrightarrow> sublist (replicate max_consecutive_nan None) (replicate k None @ xs)"
proof (induction k xs rule: diverges.induct)
  case (1 k)
  then show ?case by (auto dest!: sublist_length_le)
next
  case (2 k xs)
  have shift: "replicate k None @ None # xs = replicate (k + 1) None @ xs"
    by (simp add: replicate_app_Cons_same)
  show ?case
  proof (cases "max_consecutive_nan \<le> k + 1")
    case True
    then have "k + 1 = max_consecutive_nan" using 2 by simp
    then show ?thesis using True unfolding shift by (auto intro: sublist_append_rightI)
  next
    case False
    then show ?thesis using 2 unfolding shift by simp
  qed
next
  case (3 k x xs)
  then show ?case using replicate_None_past_Some [OF 3(2), of x xs] by (simp add: max_consecutive_nan_def)
qed

text \<open>Settings under which no modulus is zero.\<close>

definition intervals_ok :: "loop_config \<Rightarrow> bool" where
  "intervals_ok cfg \<longleftrightarrow> 0 < lc_eval_value cfg \<and> 0 < lc_save_interval cfg"

lemma log_events_fields [simp]:
  "ls_consecutive_nan (log_events es st) = ls_consecutive_nan st" "ls_sigterm (log_events es st) = ls_sigterm st"
  "ls_trace (log_events es st) = ls_trace st @ es" "ls_last_saved_epoch (log_events es st) = ls_last_saved_epoch st"
  "ls_global_batch_idx (log_events es st) = ls_global_batch_idx st" "ls_evaluations (log_events es st) = ls_evaluations st"
  by (simp_all add: log_events_def)

lemma step_schedulers_fields [simp]:
  "ls_consecutive_nan (step_schedulers cfg st) = ls_consecutive_nan st" "ls_sigterm (step_schedulers cfg st) = ls_sigterm st"
  "ls_trace (step_schedulers cfg st) = ls_trace st @ map Scheduler_Step [0..<lc_num_schedulers cfg]"
  "ls_last_saved_epoch (step_schedulers cfg st) = ls_last_saved_epoch st"
  by (simp_all add: step_schedulers_def)

lemma run_evaluation_fields [simp]:
  "ls_consecutive_nan (run_evaluation ev st) = ls_consecutive_nan st" "ls_sigterm (run_evaluation ev st) = ls_sigterm st"
  "ls_trace (run_evaluation ev st) = ls_trace st @ [Evaluated (ls_global_batch_idx st)]"
  "ls_last_saved_epoch (run_evaluation ev st) = ls_last_saved_epoch st"
  by (simp_all add: run_evaluation_def split: prod.splits)

lemma save_checkpoint_fields [simp]:
  "ls_consecutive_nan (save_checkpoint e st) = ls_consecutive_nan st" "ls_sigterm (save_checkpoint e st) = ls_sigterm st"
  "ls_trace (save_checkpoint e st) = ls_trace st @ [Saved e]"
  "ls_last_saved_epoch (save_checkpoint e st) = ls_last_saved_epoch st"
  by (simp_all add: save_checkpoint_def)

text \<open>What one batch and the end of an epoch do to the counters and to the trace.\<close>

definition sched_events :: "loop_config \<Rightarrow> event list" where
  "sched_events cfg = map Scheduler_Step [0..<lc_num_schedulers cfg]"

lemma finish_step_cases:
  assumes "finish_step cfg ev (st, es) = r" "0 < lc_eval_value cfg"
  obtains st' es' evals where "r = Inr (st', es')" "ls_consecutive_nan st' = ls_consecutive_nan st"
    "ls_sigterm st' = ls_sigterm st" "ls_last_saved_epoch st' = ls_last_saved_epoch st"
    "ls_trace st' = ls_trace st @ (if lc_step_every_batch cfg then sched_events cfg else []) @ evals"
    "\<forall>e \<in> set evals. \<exists>i. e = Evaluated i" "es_num_steps es' = es_num_steps es + 1" "es_batch_idx es' = es_batch_idx es + 1"
proof -
  define st2 where "st2 = (if lc_step_every_batch cfg then step_schedulers cfg (st\<lparr>ls_global_batch_idx := ls_global_batch_idx st + 1\<rparr>)
      else st\<lparr>ls_global_batch_idx := ls_global_batch_idx st + 1\<rparr>)"
  have st2: "ls_consecutive_nan st2 = ls_consecutive_nan st" "ls_sigterm st2 = ls_sigterm st"
    "ls_last_saved_epoch st2 = ls_last_saved_epoch st"
    "ls_trace st2 = ls_trace st @ (if lc_step_every_batch cfg then sched_events cfg else [])"
    by (simp_all add: st2_def sched_events_def)
  define es' where "es' = \<lparr>es_loss = es_loss es + es_running_loss es / real (max (es_accum_count es) 1),
      es_num_steps = es_num_steps es + 1, es_batch_idx = es_batch_idx es + 1, es_running_loss = 0, es_accum_count = 0\<rparr>"
  have r: "r = Inr (if lc_eval_unit cfg = ''ba'' \<and> ls_global_batch_idx st2 mod lc_eval_value cfg = 0
      then run_evaluation ev st2 else st2, es')"
    using assms unfolding finish_step_def prod.case Let_def st2_def [symmetric] es'_def [symmetric] by (auto split: if_splits)
  show thesis
  proof (cases "lc_eval_unit cfg = ''ba'' \<and> ls_global_batch_idx st2 mod lc_eval_value cfg = 0")
    case True
    show ?thesis
      by (rule that [of "run_evaluation ev st2" es' "[Evaluated (ls_global_batch_idx st2)]"]) (use r True st2 in \<open>auto simp: es'_def\<close>)
  next
    case False
    show ?thesis by (rule that [of st2 es' "[]"]) (use r False st2 in \<open>auto simp: es'_def\<close>)
  qed
qed

fun saved :: "event list \<Rightarrow> nat list" where
  "saved [] = []"
| "saved (Saved e # es) = e # saved es"
| "saved (_ # es) = saved es"

fun scheduler_steps :: "event list \<Rightarrow> nat" where
  "scheduler_steps [] = 0"
| "scheduler_steps (Scheduler_Step i # es) = Suc (scheduler_steps es)"
| "scheduler_steps (_ # es) = scheduler_steps es"

lemma saved_append [simp]: "saved (xs @ ys) = saved xs @ saved ys"
  by (induction xs rule: saved.induct) auto

lemma scheduler_steps_append [simp]: "scheduler_steps (xs @ ys) = scheduler_steps xs + scheduler_steps ys"
  by (induction xs rule: scheduler_steps.induct) auto

lemma sched_events_counts [simp]: "saved (sched_events cfg) = []" "scheduler_steps (sched_events cfg) = lc_num_schedulers cfg"
proof -
  have "saved (map Scheduler_Step xs) = [] \<and> scheduler_steps (map Scheduler_Step xs) = length xs" for xs
    by (induction xs) auto
  then show "saved (sched_events cfg) = []" "scheduler_steps (sched_events cfg) = lc_num_schedulers cfg"
    by (simp_all add: sched_events_def)
qed

lemma evaluated_counts: "\<forall>e \<in> set es. \<exists>i. e = Evaluated i \<Longrightarrow> saved es = [] \<and> scheduler_steps es = 0"
  by (induction es) auto

text \<open>How the loop over batches relates two states: nothing is saved, and schedulers are stepped once
  for each optimizer step.\<close>

definition batches_frame :: "loop_config \<Rightarrow> loop_state \<times> epoch_state \<Rightarrow> loop_state \<times> epoch_state \<Rightarrow> bool" where
  "batches_frame cfg se se' \<longleftrightarrow>
     saved (ls_trace (fst se')) = saved (ls_trace (fst se))
     \<and> ls_last_saved_epoch (fst se') = ls_last_saved_epoch (fst se)
     \<and> es_num_steps (snd se) \<le> es_num_steps (snd se')
     \<and> scheduler_steps (ls_trace (fst se')) = scheduler_steps (ls_trace (fst se))
         + (if lc_step_every_batch cfg then lc_num_schedulers cfg * (es_num_steps (snd se') - es_num_steps (snd se)) else 0)
     \<and> (lc_train_subset cfg = 0 \<or> es_batch_idx (snd se') \<le> max (es_batch_idx (snd se)) (lc_train_subset cfg))"

lemma batches_frame_refl: "batches_frame cfg se se"
  by (simp add: batches_frame_def)

lemma batches_frame_trans:
  assumes "batches_frame cfg a b" "batches_frame cfg b c" shows "batches_frame cfg a c"
proof -
  have split: "es_num_steps (snd c) - es_num_steps (snd a)
      = (es_num_steps (snd b) - es_num_steps (snd a)) + (es_num_steps (snd c) - es_num_steps (snd b))"
    using assms by (simp add: batches_frame_def)
  have "lc_num_schedulers cfg * (es_num_steps (snd c) - es_num_steps (snd a))
      = lc_num_schedulers cfg * (es_num_steps (snd b) - es_num_steps (snd a))
        + lc_num_schedulers cfg * (es_num_steps (snd c) - es_num_steps (snd b))"
    unfolding split by (rule distrib_left)
  then show ?thesis using assms by (auto simp: batches_frame_def)
qed

lemma train_batch_cases:
  assumes "train_batch cfg ev b (st, es) = r" "0 < lc_eval_value cfg"
  obtains (abort) "bi_loss b = None" "max_consecutive_nan \<le> ls_consecutive_nan st + 1"
      "r = Inl (PyExc ''RuntimeError'' (show_nat max_consecutive_nan @ '' consecutive non-finite losses -- aborting training''))"
    | (skip) st' where "bi_loss b = None" "\<not> max_consecutive_nan \<le> ls_consecutive_nan st + 1" "r = Inr ((st', es), False)"
      "ls_consecutive_nan st' = ls_consecutive_nan st + 1" "ls_sigterm st' = (ls_sigterm st \<or> bi_sigterm b)"
      "batches_frame cfg (st, es) (st', es)"
    | (step) st' es' x where "bi_loss b = Some x"
      "r = Inr ((st', es'), bi_sync b \<and> (ls_sigterm st \<or> bi_sigterm b))"
      "ls_consecutive_nan st' = 0" "ls_sigterm st' = (ls_sigterm st \<or> bi_sigterm b)"
      "es_num_steps es' = es_num_steps es + (if bi_sync b then 1 else 0)"
      "es_batch_idx es' = es_batch_idx es + (if bi_sync b then 1 else 0)"
      "lc_train_subset cfg = 0 \<or> es_batch_idx es < lc_train_subset cfg \<Longrightarrow> batches_frame cfg (st, es) (st', es')"
proof (cases "bi_loss b")
  case None
  show thesis
  proof (cases "max_consecutive_nan \<le> ls_consecutive_nan st + 1")
    case True
    show thesis by (rule abort) (use assms(1) None True in \<open>simp_all add: train_batch_def Let_def\<close>)
  next
    case False
    show thesis
      by (rule skip [of "log_events [Zero_Grad] (st\<lparr>ls_sigterm := ls_sigterm st \<or> bi_sigterm b,
            ls_consecutive_nan := ls_consecutive_nan st + 1\<rparr>)"])
        (use assms(1) None False in \<open>auto simp: train_batch_def Let_def batches_frame_def\<close>)
  qed
next
  case (Some x)
  define st1 where "st1 = log_events [Backward, Optimizer_Step, Zero_Grad]
      (st\<lparr>ls_sigterm := ls_sigterm st \<or> bi_sigterm b, ls_consecutive_nan := 0\<rparr>)"
  define es1 where "es1 = es\<lparr>es_running_loss := es_running_loss es + x, es_accum_count := es_accum_count es + 1\<rparr>"
  have st1: "ls_consecutive_nan st1 = 0" "ls_sigterm st1 = (ls_sigterm st \<or> bi_sigterm b)"
    "ls_last_saved_epoch st1 = ls_last_saved_epoch st" "saved (ls_trace st1) = saved (ls_trace st)"
    "scheduler_steps (ls_trace st1) = scheduler_steps (ls_trace st)"
    by (simp_all add: st1_def)
  have es1: "es_num_steps es1 = es_num_steps es" "es_batch_idx es1 = es_batch_idx es" by (simp_all add: es1_def)
  show thesis
  proof (cases "bi_sync b")
    case False
    have "r = Inr ((st1, es1), False)" using assms(1) Some False by (simp add: train_batch_def st1_def es1_def Let_def)
    then show thesis using step [of x st1 es1] Some False st1 es1 by (simp add: batches_frame_def)
  next
    case True
    obtain st' es' evals where f: "finish_step cfg ev (st1, es1) = Inr (st', es')" "ls_consecutive_nan st' = ls_consecutive_nan st1"
      "ls_sigterm st' = ls_sigterm st1" "ls_last_saved_epoch st' = ls_last_saved_epoch st1"
      "ls_trace st' = ls_trace st1 @ (if lc_step_every_batch cfg then sched_events cfg else []) @ evals"
      "\<forall>e \<in> set evals. \<exists>i. e = Evaluated i" "es_num_steps es' = es_num_steps es1 + 1" "es_batch_idx es' = es_batch_idx es1 + 1"
      using finish_step_cases [OF refl assms(2), of ev st1 es1] by metis
    have "r = Inr ((st', es'), ls_sigterm st1)"
      using assms(1) Some True f(1,3) by (simp add: train_batch_def st1_def es1_def Let_def)
    moreover have "batches_frame cfg (st, es) (st', es')" if "lc_train_subset cfg = 0 \<or> es_batch_idx es < lc_train_subset cfg"
      using that f evaluated_counts [OF f(6)] st1 es1 by (auto simp: batches_frame_def)
    ultimately show thesis using step [of x st' es'] Some True f st1 es1 by simp
  qed
qed

lemma train_batches_frame:
  assumes "train_batches cfg ev bs (st, es) = Inr (st', es')" "0 < lc_eval_value cfg"
  shows "batches_frame cfg (st, es) (st', es')"
  using assms(1)
proof (induction bs arbitrary: st es)
  case Nil
  then show ?case by (simp add: batches_frame_refl)
next
  case (Cons b bs)
  show ?case
  proof (cases "0 < lc_train_subset cfg \<and> lc_train_subset cfg \<le> es_batch_idx es")
    case True
    then show ?thesis using Cons.prems by (simp add: batches_frame_refl)
  next
    case False
    then have room: "lc_train_subset cfg = 0 \<or> es_batch_idx es < lc_train_subset cfg" by auto
    have rest: "res_bind (train_batch cfg ev b (st, es)) (\<lambda>(se', leave). if leave then Inr se' else train_batches cfg ev bs se')
        = Inr (st', es')" using Cons.prems False by simp
    show ?thesis
    proof (cases rule: train_batch_cases [where cfg = cfg and ev = ev and b = b and st = st and es = es, OF refl assms(2)])
      case 1
      then show ?thesis using rest by simp
    next
      case (2 st1)
      then show ?thesis using rest Cons.IH [of st1 es] batches_frame_trans by fastforce
    next
      case (3 st1 es1 x)
      have "batches_frame cfg (st1, es1) (st', es')"
        using rest 3 Cons.IH [of st1 es1] by (auto simp: batches_frame_refl split: if_splits)
      then show ?thesis using 3(7) [OF room] batches_frame_trans by blast
    qed
  qed
qed

lemma train_batches_diverge:
  assumes "0 < lc_eval_value cfg" "lc_train_subset cfg = 0" "\<forall>b \<in> set bs. \<not> bi_sigterm b" "\<not> ls_sigterm st"
    and "ls_consecutive_nan st < max_consecutive_nan"
  shows "if diverges (ls_consecutive_nan st) (map bi_loss bs)
    then train_batches cfg ev bs (st, es) = Inl (PyExc ''RuntimeError''
           (show_nat max_consecutive_nan @ '' consecutive non-finite losses -- aborting training''))
    else \<exists>st' es'. train_batches cfg ev bs (st, es) = Inr (st', es') \<and> \<not> ls_sigterm st'
           \<and> ls_consecutive_nan st' = trailing (ls_consecutive_nan st) (map bi_loss bs)
           \<and> ls_consecutive_nan st' < max_consecutive_nan
           \<and> (None \<notin> set (map bi_loss bs) \<longrightarrow> es_num_steps es' = es_num_steps es + length (filter bi_sync bs))"
  using assms(3-5)
proof (induction bs arbitrary: st es)
  case (Cons b bs)
  show ?case
  proof (cases rule: train_batch_cases [where cfg = cfg and ev = ev and b = b and st = st and es = es, OF refl assms(1)])
    case 1
    then show ?thesis using assms(2) by simp
  next
    case (2 st1)
    have "\<not> ls_sigterm st1" "ls_consecutive_nan st1 < max_consecutive_nan" using 2 Cons.prems by auto
    from Cons.IH [OF _ this, of es] Cons.prems 2 assms(2) show ?thesis by (auto split: if_splits)
  next
    case (3 st1 es1 x)
    have "\<not> ls_sigterm st1" "ls_consecutive_nan st1 < max_consecutive_nan" using 3 Cons.prems by (auto simp: max_consecutive_nan_def)
    from Cons.IH [OF _ this, of es1] Cons.prems 3 assms(2) show ?thesis by (auto split: if_splits)
  qed
qed simp

section \<open>Epochs\<close>

lemma end_epoch_result:
  assumes "intervals_ok cfg" "ls_last_saved_epoch st < int epoch"
  obtains st' where "end_epoch cfg ev epoch late (st, es) = Inr (st', ls_sigterm st \<or> late)"
    "ls_sigterm st' = (ls_sigterm st \<or> late)" "ls_consecutive_nan st' = ls_consecutive_nan st"
    "ls_last_saved_epoch st' \<le> int epoch"
    "saved (ls_trace st') = saved (ls_trace st)
       @ (if (epoch + 1) mod lc_save_interval cfg = 0 \<or> ls_sigterm st \<or> late then [epoch] else [])"
    "scheduler_steps (ls_trace st') = scheduler_steps (ls_trace st) + (if lc_step_every_batch cfg then 0 else lc_num_schedulers cfg)"
    "ls_sigterm st \<or> late \<Longrightarrow> \<exists>es. ls_trace st' = es @ [Saved epoch]"
proof -
  have i: "0 < lc_eval_value cfg" "0 < lc_save_interval cfg" using assms(1) by (simp_all add: intervals_ok_def)
  define s1 where "s1 = (let s0 = st\<lparr>ls_sigterm := ls_sigterm st \<or> late\<rparr>;
      s0 = (if \<not> lc_step_every_batch cfg then step_schedulers cfg s0 else s0)
    in if es_num_steps es = 0 then s0
       else log_events [Train_Loss (es_loss es / real (es_num_steps es)) (ls_global_batch_idx s0)] s0)"
  define s2 where "s2 = (if lc_eval_unit cfg = ''ep'' \<and> (epoch + 1) mod lc_eval_value cfg = 0 then run_evaluation ev s1 else s1)"
  define due where "due = ((epoch + 1) mod lc_save_interval cfg = 0)"
  define s3 where "s3 = (if due then (save_checkpoint epoch s2)\<lparr>ls_last_saved_epoch := int epoch\<rparr> else s2)"
  have f1: "ls_sigterm s1 = (ls_sigterm st \<or> late)" "ls_consecutive_nan s1 = ls_consecutive_nan st"
    "ls_last_saved_epoch s1 = ls_last_saved_epoch st" "saved (ls_trace s1) = saved (ls_trace st)"
    "scheduler_steps (ls_trace s1) = scheduler_steps (ls_trace st) + (if lc_step_every_batch cfg then 0 else lc_num_schedulers cfg)"
    by (simp_all add: s1_def Let_def flip: sched_events_def)
  have f2: "ls_sigterm s2 = ls_sigterm s1" "ls_consecutive_nan s2 = ls_consecutive_nan s1"
    "ls_last_saved_epoch s2 = ls_last_saved_epoch s1" "saved (ls_trace s2) = saved (ls_trace s1)"
    "scheduler_steps (ls_trace s2) = scheduler_steps (ls_trace s1)"
    by (simp_all add: s2_def)
  have f3: "ls_sigterm s3 = ls_sigterm s2" "ls_consecutive_nan s3 = ls_consecutive_nan s2"
    "ls_last_saved_epoch s3 = (if due then int epoch else ls_last_saved_epoch s2)"
    "ls_trace s3 = ls_trace s2 @ (if due then [Saved epoch] else [])"
    by (simp_all add: s3_def)
  define s4 where "s4 = (if ls_sigterm s3 \<and> ls_last_saved_epoch s3 \<noteq> int epoch then save_checkpoint epoch s3 else s3)"
  have r: "end_epoch cfg ev epoch late (st, es) = Inr (s4, ls_sigterm s3)"
    using i unfolding end_epoch_def prod.case Let_def s1_def [unfolded Let_def, symmetric] s2_def [symmetric]
      due_def [symmetric] s3_def [symmetric] s4_def by simp
  have s3_sig: "ls_sigterm s3 = (ls_sigterm st \<or> late)" using f1 f2 f3 by simp
  show thesis
    by (rule that [of s4]) (use r s3_sig f1 f2 f3 assms(2) in \<open>auto simp: s4_def due_def split: if_splits\<close>)
qed

lemma train_epochs_saves:
  assumes "intervals_ok cfg" "train_epochs cfg ev e inps st = Inr st'" "ls_last_saved_epoch st < int e" "\<not> ls_sigterm st"
  shows "\<exists>k \<le> length inps.
    saved (ls_trace st') = saved (ls_trace st)
      @ filter (\<lambda>i. (i + 1) mod lc_save_interval cfg = 0 \<or> ls_sigterm st' \<and> i + 1 = e + k) [e..<e + k]
    \<and> (if ls_sigterm st' then 0 < k \<and> (\<exists>es. ls_trace st' = es @ [Saved (e + k - 1)]) else k = length inps)"
  using assms(2-4)
proof (induction inps arbitrary: e st)
  case Nil
  then show ?case by simp
next
  case (Cons inp inps)
  have v: "0 < lc_eval_value cfg" using assms(1) by (simp add: intervals_ok_def)
  obtain st1 es1 where b: "train_batches cfg ev (ei_batches inp) (st, fresh_epoch) = Inr (st1, es1)"
    using Cons.prems(1) by (cases "train_batches cfg ev (ei_batches inp) (st, fresh_epoch)") (auto simp: train_epoch_def)
  have fr: "saved (ls_trace st1) = saved (ls_trace st)" "ls_last_saved_epoch st1 = ls_last_saved_epoch st"
    using train_batches_frame [OF b v] by (simp_all add: batches_frame_def)
  have "ls_last_saved_epoch st1 < int e" using fr(2) Cons.prems(2) by simp
  then obtain st2 where n: "end_epoch cfg ev e (ei_sigterm inp) (st1, es1) = Inr (st2, ls_sigterm st1 \<or> ei_sigterm inp)"
    "ls_sigterm st2 = (ls_sigterm st1 \<or> ei_sigterm inp)" "ls_last_saved_epoch st2 \<le> int e"
    "saved (ls_trace st2) = saved (ls_trace st1)
       @ (if (e + 1) mod lc_save_interval cfg = 0 \<or> ls_sigterm st1 \<or> ei_sigterm inp then [e] else [])"
    "ls_sigterm st1 \<or> ei_sigterm inp \<Longrightarrow> \<exists>es. ls_trace st2 = es @ [Saved e]"
    using end_epoch_result [OF assms(1), of st1 e ev "ei_sigterm inp" es1] by metis
  show ?case
  proof (cases "ls_sigterm st2")
    case True
    then have "st' = st2" using Cons.prems(1) b n(1,2) by (simp add: train_epoch_def)
    then show ?thesis using True n fr(1) by (intro exI [of _ 1]) auto
  next
    case False
    then have "train_epochs cfg ev (e + 1) inps st2 = Inr st'" using Cons.prems(1) b n(1,2) by (simp add: train_epoch_def)
    from Cons.IH [OF this _ False] n(3) obtain k where k: "k \<le> length inps"
      "saved (ls_trace st') = saved (ls_trace st2)
        @ filter (\<lambda>i. (i + 1) mod lc_save_interval cfg = 0 \<or> ls_sigterm st' \<and> i + 1 = e + 1 + k) [e + 1..<e + 1 + k]"
      "if ls_sigterm st' then 0 < k \<and> (\<exists>es. ls_trace st' = es @ [Saved (e + 1 + k - 1)]) else k = length inps"
      by auto
    have up: "[e..<e + (k + 1)] = e # [e + 1..<e + 1 + k]" by (simp add: upt_conv_Cons)
    have first: "(ls_sigterm st' \<and> e + 1 = e + (k + 1)) = False" using k(3) by (auto split: if_splits)
    have "saved (ls_trace st') = saved (ls_trace st)
      @ filter (\<lambda>i. (i + 1) mod lc_save_interval cfg = 0 \<or> ls_sigterm st' \<and> i + 1 = e + (k + 1)) [e..<e + (k + 1)]"
      unfolding up filter.simps first using k(2) n(2,4) fr(1) False by (simp add: add.assoc add.commute)
    then show ?thesis using k(1,3) by (intro exI [of _ "k + 1"]) (auto split: if_splits)
  qed
qed

text \<open>
  C17. A stopped run loses no epoch. In a run that ends without an error, whenever signals arrive, some
  number of epochs was run; a checkpoint was saved for exactly the epochs the interval asks for,
  in order and once each, and, if a signal stopped the run, for the last epoch it was in, as the
  very last thing it did. Without a signal all epochs are run.
\<close>

theorem checkpoints_complete:
  assumes "intervals_ok cfg" "run_training cfg ev inputs = Inr (st, summary)"
  shows "\<exists>k \<le> min (lc_num_epochs cfg) (length inputs).
    saved (ls_trace st)
      = filter (\<lambda>i. (i + 1) mod lc_save_interval cfg = 0 \<or> ls_sigterm st \<and> i + 1 = lc_start_epoch cfg + k)
          [lc_start_epoch cfg..<lc_start_epoch cfg + k]
    \<and> (if ls_sigterm st then 0 < k \<and> (\<exists>es. ls_trace st = es @ [Saved (lc_start_epoch cfg + k - 1)])
       else k = min (lc_num_epochs cfg) (length inputs))"
proof -
  have r: "train_epochs cfg ev (lc_start_epoch cfg) (take (lc_num_epochs cfg) inputs) initial_loop = Inr st"
    using assms(2) by (auto simp: run_training_def res_bind_Inr_iff)
  have i: "ls_last_saved_epoch initial_loop < int (lc_start_epoch cfg)" "\<not> ls_sigterm initial_loop"
    "saved (ls_trace initial_loop) = []" by (simp_all add: initial_loop_def)
  have l: "length (take (lc_num_epochs cfg) inputs) = min (lc_num_epochs cfg) (length inputs)" by simp
  show ?thesis using train_epochs_saves [OF assms(1) r i(1,2)] unfolding i(3) l append_Nil .
qed

definition demo_loop :: loop_config where
  "demo_loop = \<lparr>lc_num_epochs = 3, lc_start_epoch = 0, lc_train_subset = 0, lc_step_every_batch = True,
     lc_eval_unit = ''ep'', lc_eval_value = 1, lc_save_interval = 5, lc_num_schedulers = 1, lc_higher_is_better = True,
     lc_metric_name = ''acc_top1''\<rparr>"

definition demo_batch :: "bool \<Rightarrow> batch_in" where
  "demo_batch signal = \<lparr>bi_loss = Some 1, bi_sync = True, bi_sigterm = signal\<rparr>"

definition demo_inputs :: "epoch_in list" where
  "demo_inputs = [\<lparr>ei_batches = [demo_batch False], ei_sigterm = False\<rparr>,
     \<lparr>ei_batches = [demo_batch True, demo_batch False], ei_sigterm = False\<rparr>, \<lparr>ei_batches = [], ei_sigterm = False\<rparr>]"

definition demo_evaluator :: evaluator where
  "demo_evaluator = (\<lambda>n. (Fin 1, [(''acc_top1'', Fin (1/2))], Fin (1/2)))"

lemma demo_run: "\<exists>st summary. run_training demo_loop demo_evaluator demo_inputs = Inr (st, summary) \<and> ls_sigterm st"
proof -
  have "train_epochs demo_loop demo_evaluator 0 demo_inputs initial_loop \<noteq> Inl e \<and>
     (case train_epochs demo_loop demo_evaluator 0 demo_inputs initial_loop of Inr st \<Rightarrow> ls_sigterm st | Inl e \<Rightarrow> False)" for e
    by (simp add: demo_inputs_def train_epoch_def train_batch_def finish_step_def end_epoch_def demo_loop_def demo_batch_def
        initial_loop_def fresh_epoch_def log_events_def step_schedulers_def run_evaluation_def save_checkpoint_def
        demo_evaluator_def Let_def)
  moreover have "take 3 demo_inputs = demo_inputs" by (simp add: demo_inputs_def)
  ultimately show ?thesis
    by (cases "train_epochs demo_loop demo_evaluator 0 demo_inputs initial_loop")
      (auto simp: run_training_def demo_loop_def)
qed

theorem checkpoints_complete_witness:
  "\<exists>st summary k. run_training demo_loop demo_evaluator demo_inputs = Inr (st, summary) \<and> 0 < k
     \<and> (\<exists>es. ls_trace st = es @ [Saved (k - 1)])"
proof -
  obtain st summary where r: "run_training demo_loop demo_evaluator demo_inputs = Inr (st, summary)" "ls_sigterm st"
    using demo_run by blast
  have "intervals_ok demo_loop" by (simp add: intervals_ok_def demo_loop_def)
  from checkpoints_complete [OF this r(1)] r(2) have "\<exists>k. 0 < k \<and> (\<exists>es. ls_trace st = es @ [Saved (k - 1)])"
    by (auto simp: demo_loop_def)
  with r(1) show ?thesis by blast
qed

definition run_losses :: "epoch_in list \<Rightarrow> real option list" where
  "run_losses inputs = concat (map (\<lambda>inp. map bi_loss (ei_batches inp)) inputs)"

definition quiet :: "epoch_in list \<Rightarrow> bool" where
  "quiet inputs \<longleftrightarrow> list_all (\<lambda>inp. \<not> ei_sigterm inp \<and> list_all (\<lambda>b. \<not> bi_sigterm b) (ei_batches inp)) inputs"

definition synced :: "epoch_in list \<Rightarrow> nat" where
  "synced inputs = sum_list (map (\<lambda>inp. length (filter bi_sync (ei_batches inp))) inputs)"

lemma train_epochs_diverge:
  assumes "intervals_ok cfg" "lc_train_subset cfg = 0" "quiet inps" "\<not> ls_sigterm st"
    and "ls_consecutive_nan st < max_consecutive_nan" "ls_last_saved_epoch st < int e"
  shows "if diverges (ls_consecutive_nan st) (run_losses inps)
    then train_epochs cfg ev e inps st = Inl (PyExc ''RuntimeError''
           (show_nat max_consecutive_nan @ '' consecutive non-finite losses -- aborting training''))
    else \<exists>st'. train_epochs cfg ev e inps st = Inr st'
           \<and> (None \<notin> set (run_losses inps) \<longrightarrow> scheduler_steps (ls_trace st') = scheduler_steps (ls_trace st)
                + lc_num_schedulers cfg * (if lc_step_every_batch cfg then synced inps else length inps))"
  using assms(3-6)
proof (induction inps arbitrary: e st)
  case Nil
  then show ?case by (simp add: run_losses_def synced_def)
next
  case (Cons inp inps)
  have v: "0 < lc_eval_value cfg" using assms(1) by (simp add: intervals_ok_def)
  have q: "\<forall>b \<in> set (ei_batches inp). \<not> bi_sigterm b" "\<not> ei_sigterm inp" "quiet inps"
    using Cons.prems(1) by (auto simp: quiet_def list_all_iff)
  have losses: "run_losses (inp # inps) = map bi_loss (ei_batches inp) @ run_losses inps" by (simp add: run_losses_def)
  note batches = train_batches_diverge [OF v assms(2) q(1) Cons.prems(2,3), of ev fresh_epoch]
  show ?case
  proof (cases "diverges (ls_consecutive_nan st) (map bi_loss (ei_batches inp))")
    case True
    then show ?thesis using batches unfolding losses diverges_append by (simp add: train_epoch_def)
  next
    case False
    then obtain st1 es1 where b: "train_batches cfg ev (ei_batches inp) (st, fresh_epoch) = Inr (st1, es1)" "\<not> ls_sigterm st1"
      "ls_consecutive_nan st1 = trailing (ls_consecutive_nan st) (map bi_loss (ei_batches inp))"
      "ls_consecutive_nan st1 < max_consecutive_nan"
      "None \<notin> set (map bi_loss (ei_batches inp)) \<longrightarrow> es_num_steps es1 = length (filter bi_sync (ei_batches inp))"
      using batches by (auto simp: fresh_epoch_def)
    have fr: "ls_last_saved_epoch st1 = ls_last_saved_epoch st" "scheduler_steps (ls_trace st1) = scheduler_steps (ls_trace st)
         + (if lc_step_every_batch cfg then lc_num_schedulers cfg * es_num_steps es1 else 0)"
      using train_batches_frame [OF b(1) v] by (simp_all add: batches_frame_def fresh_epoch_def)
    have "ls_last_saved_epoch st1 < int e" using fr(1) Cons.prems(4) by simp
    then obtain st2 where n: "end_epoch cfg ev e (ei_sigterm inp) (st1, es1) = Inr (st2, ls_sigterm st1 \<or> ei_sigterm inp)"
      "ls_sigterm st2 = (ls_sigterm st1 \<or> ei_sigterm inp)" "ls_consecutive_nan st2 = ls_consecutive_nan st1"
      "ls_last_saved_epoch st2 \<le> int e"
      "scheduler_steps (ls_trace st2) = scheduler_steps (ls_trace st1) + (if lc_step_every_batch cfg then 0 else lc_num_schedulers cfg)"
      using end_epoch_result [OF assms(1), of st1 e ev "ei_sigterm inp" es1] by metis
    have run: "train_epochs cfg ev e (inp # inps) st = train_epochs cfg ev (e + 1) inps st2"
      using b n(1) q(2) by (simp add: train_epoch_def)
    have "\<not> ls_sigterm st2" "ls_consecutive_nan st2 < max_consecutive_nan" "ls_last_saved_epoch st2 < int (e + 1)"
      using n b q(2) by auto
    note rest = Cons.IH [OF q(3) this]
    have div: "diverges (ls_consecutive_nan st) (run_losses (inp # inps)) = diverges (ls_consecutive_nan st2) (run_losses inps)"
      unfolding losses diverges_append using False b(3) n(3) by simp
    show ?thesis
    proof (cases "diverges (ls_consecutive_nan st2) (run_losses inps)")
      case True
      then show ?thesis using rest unfolding div run by simp
    next
      case False
      then obtain st' where st': "train_epochs cfg ev (e + 1) inps st2 = Inr st'"
        "None \<notin> set (run_losses inps) \<longrightarrow> scheduler_steps (ls_trace st') = scheduler_steps (ls_trace st2)
                + lc_num_schedulers cfg * (if lc_step_every_batch cfg then synced inps else length inps)"
        using rest by auto
      have "None \<notin> set (run_losses (inp # inps)) \<longrightarrow> scheduler_steps (ls_trace st') = scheduler_steps (ls_trace st)
                + lc_num_schedulers cfg * (if lc_step_every_batch cfg then synced (inp # inps) else length (inp # inps))"
        using st'(2) b(5) fr(2) n(5) unfolding losses by (simp add: synced_def distrib_left)
      then show ?thesis using False st'(1) unfolding div run by auto
    qed
  qed
qed

text \<open>
  C18. Divergence stops a run, and nothing else does. With intervals that are not zero, no cap on the
  batches and no signal, a run fails exactly when ten losses in a row are not finite, counted
  across the ends of epochs, and then with the error that says so; fewer in a row, however many in
  total, never stop it.
\<close>

theorem divergence_aborts:
  assumes "intervals_ok cfg" "lc_train_subset cfg = 0" "quiet inputs" "length inputs = lc_num_epochs cfg"
  shows "(case run_training cfg ev inputs of
      Inl e \<Rightarrow> sublist (replicate 10 None) (run_losses inputs)
        \<and> e = PyExc ''RuntimeError'' ''10 consecutive non-finite losses -- aborting training''
    | Inr _ \<Rightarrow> \<not> sublist (replicate 10 None) (run_losses inputs))"
proof -
  have i: "\<not> ls_sigterm initial_loop" "ls_consecutive_nan initial_loop = 0" "ls_last_saved_epoch initial_loop < int (lc_start_epoch cfg)"
    by (simp_all add: initial_loop_def)
  have ten: "show_nat 10 = ''10''" by code_simp
  have d: "diverges 0 (run_losses inputs) = sublist (replicate 10 None) (run_losses inputs)"
    using diverges_run [of 0 "run_losses inputs"] by (simp add: max_consecutive_nan_def)
  have z: "ls_consecutive_nan initial_loop < max_consecutive_nan" using i(2) by (simp add: max_consecutive_nan_def)
  from train_epochs_diverge [OF assms(1-3) i(1) z i(3), of ev]
  show ?thesis
    unfolding i(2) d by (auto simp: run_training_def assms(4) max_consecutive_nan_def ten split: if_splits)
qed

theorem divergence_aborts_witness:
  "\<exists>st. run_training (demo_loop\<lparr>lc_num_epochs := 2\<rparr>) demo_evaluator
     (replicate 2 \<lparr>ei_batches = replicate 4 \<lparr>bi_loss = None, bi_sync = True, bi_sigterm = False\<rparr>, ei_sigterm = False\<rparr>) = Inr st"
proof -
  let ?inputs = "replicate 2 \<lparr>ei_batches = replicate 4 \<lparr>bi_loss = None, bi_sync = True, bi_sigterm = False\<rparr>, ei_sigterm = False\<rparr>"
  have "length (replicate 10 (None :: real option)) \<le> length (run_losses ?inputs)" if "sublist (replicate 10 None) (run_losses ?inputs)"
    using that by (rule sublist_length_le)
  then have "\<not> sublist (replicate 10 None) (run_losses ?inputs)" by (auto simp: run_losses_def numeral_2_eq_2)
  moreover have "intervals_ok (demo_loop\<lparr>lc_num_epochs := 2\<rparr>)" "lc_train_subset (demo_loop\<lparr>lc_num_epochs := 2\<rparr>) = 0"
    "length ?inputs = lc_num_epochs (demo_loop\<lparr>lc_num_epochs := 2\<rparr>)" "quiet ?inputs"
    by (simp_all add: intervals_ok_def demo_loop_def quiet_def list_all_iff)
  ultimately show ?thesis
    using divergence_aborts [of "demo_loop\<lparr>lc_num_epochs := 2\<rparr>" ?inputs demo_evaluator] by (auto split: sum.splits)
qed

section \<open>Where a run leaves the schedule\<close>

text \<open>An epoch under Accelerate: gradients are synchronised after every \<open>g\<close>-th batch and after the last one.\<close>

definition accelerate_epoch :: "nat \<Rightarrow> real list \<Rightarrow> epoch_in" where
  "accelerate_epoch g losses =
     \<lparr>ei_batches = map (\<lambda>i. \<lparr>bi_loss = Some (losses ! i), bi_sync = (i + 1) mod g = 0 \<or> i + 1 = length losses,
                           bi_sigterm = False\<rparr>) [0..<length losses],
      ei_sigterm = False\<rparr>"

lemma multiples_below: "0 < g \<Longrightarrow> length (filter (\<lambda>i. (i + 1) mod g = 0) [0..<m]) = m div (g :: nat)"
  by (induction m) (auto simp: div_Suc)

lemma synced_epoch:
  assumes "0 < g" "losses \<noteq> []"
  shows "length (filter bi_sync (ei_batches (accelerate_epoch g losses))) = (length losses + g - 1) div g"
proof -
  obtain m where m: "length losses = Suc m" using assms(2) by (cases losses) auto
  have "filter (\<lambda>i. (i + 1) mod g = 0 \<or> i + 1 = Suc m) [0..<m] = filter (\<lambda>i. (i + 1) mod g = 0) [0..<m]"
    by (rule filter_cong) auto
  then have "length (filter (\<lambda>i. (i + 1) mod g = 0 \<or> i + 1 = Suc m) [0..<Suc m]) = m div g + 1"
    using multiples_below [OF assms(1), of m] by simp
  moreover have "(Suc m + g - 1) div g = m div g + 1" using assms(1) by simp
  ultimately show ?thesis by (simp add: accelerate_epoch_def filter_map comp_def m del: upt_Suc)
qed

lemma ceil_div_eq: assumes "0 < g" "0 < n" shows "(n + g - 1) div g = n \<longleftrightarrow> g = 1 \<or> n = (1 :: nat)"
proof -
  obtain m where n: "n = Suc m" using assms(2) by (cases n) auto
  have "(n + g - 1) div g = m div g + 1" using assms(1) by (simp add: n)
  moreover have "m div g = m \<longleftrightarrow> g = 1 \<or> m = 0" using assms(1) div_eq_dividend_iff [of m g] by auto
  ultimately show ?thesis by (simp add: n)
qed

lemma ceil_le: assumes "0 < g" "0 < n" shows "(n + g - 1) div g \<le> (n :: nat)"
proof -
  obtain m where n: "n = Suc m" using assms(2) by (cases n) auto
  have "(n + g - 1) div g = m div g + 1" using assms(1) by (simp add: n)
  also have "\<dots> \<le> m + 1" by simp
  finally show ?thesis by (simp add: n)
qed

lemma finite_run_losses:
  "inputs = map (accelerate_epoch g) losses \<Longrightarrow> None \<notin> set (run_losses inputs) \<and> quiet inputs"
  by (auto simp: run_losses_def quiet_def accelerate_epoch_def list_all_iff)

lemma no_None_no_divergence: "None \<notin> set xs \<Longrightarrow> \<not> diverges k xs"
  by (induction k xs rule: diverges.induct) auto

lemma synced_inputs:
  assumes "0 < g" "0 < n" "\<forall>l \<in> set losses. length l = n"
  shows "synced (map (accelerate_epoch g) losses) = length losses * ((n + g - 1) div g)"
  using assms(3) by (induction losses) (use assms(1,2) in \<open>auto simp: synced_def synced_epoch\<close>)

text \<open>
  C19. Where a run leaves its learning-rate schedule. With the loader's \<open>n div bs\<close> whole batches per
  epoch, finite losses, no signal and one scheduler stepped after each optimizer step, every run
  ends, having stepped the scheduler once for each \<open>g\<close> accumulated batches, the remainder of an
  epoch counting as one. Started afresh it reaches the end of the schedule exactly when gradients
  are not accumulated (or an epoch has one batch only); resumed without accumulation it runs past
  the end, because the epochs asked for are run again in full.
\<close>

theorem schedule_position:
  assumes "create_scheduler_params wr (int bs) (int n) (int ep) 0 = Inr sp" "bs \<le> n" "0 < g"
    and "intervals_ok cfg" "lc_train_subset cfg = 0" "lc_step_every_batch cfg" "lc_num_schedulers cfg = 1"
    and "lc_num_epochs cfg = ep" "length losses = ep" "\<forall>l \<in> set losses. length l = n div bs"
  shows "\<exists>st summary last_epoch position.
    run_training cfg ev (map (accelerate_epoch g) losses) = Inr (st, summary)
    \<and> create_lr_scheduler sp (int (lc_start_epoch cfg)) = Inr (sc_num_warmup_steps sp, sc_num_training_steps sp, last_epoch)
    \<and> scheduler_steps (ls_trace st) = ep * ((n div bs + g - 1) div g)
    \<and> position = last_epoch + 1 + int (scheduler_steps (ls_trace st))
    \<and> (lc_start_epoch cfg = 0 \<longrightarrow> position \<le> sc_num_training_steps sp
          \<and> (position = sc_num_training_steps sp \<longleftrightarrow> g = 1 \<or> n div bs = 1))
    \<and> (g = 1 \<longrightarrow> position = sc_num_training_steps sp + int (lc_start_epoch cfg) * sc_steps_per_epoch sp)"
proof -
  define inputs where "inputs = map (accelerate_epoch g) losses"
  define k where "k = n div bs"
  define c where "c = (k + g - 1) div g"
  note sp = scheduler_params_Inr [OF assms(1)]
  have bs: "0 < bs" "0 < ep" using sp by auto
  have k: "0 < k" using bs(1) assms(2) by (simp add: k_def div_greater_zero_iff)
  have spe: "sc_steps_per_epoch sp = int k" using sp k by (simp add: k_def zdiv_int [symmetric])
  have total: "sc_num_training_steps sp = int (ep * k)" using sp spe by (simp add: mult.commute)
  have fin: "None \<notin> set (run_losses inputs)" "quiet inputs" using finite_run_losses [OF inputs_def] by blast+
  have init: "\<not> ls_sigterm initial_loop" "ls_consecutive_nan initial_loop < max_consecutive_nan"
    "ls_last_saved_epoch initial_loop < int (lc_start_epoch cfg)" "scheduler_steps (ls_trace initial_loop) = 0"
    by (simp_all add: initial_loop_def max_consecutive_nan_def)
  have "synced inputs = ep * c"
    using synced_inputs [OF assms(3) k] assms(9,10) by (simp add: inputs_def k_def c_def)
  then obtain st where st: "train_epochs cfg ev (lc_start_epoch cfg) inputs initial_loop = Inr st"
    "scheduler_steps (ls_trace st) = ep * c"
    using train_epochs_diverge [OF assms(4,5) fin(2) init(1-3), of ev] no_None_no_divergence [OF fin(1)] fin(1) init(4) assms(6,7)
    by auto
  have run: "run_training cfg ev inputs = Inr (st, training_summary cfg st)"
    using st(1) assms(8,9) by (simp add: run_training_def inputs_def)
  have lr: "create_lr_scheduler sp (int (lc_start_epoch cfg))
      = Inr (sc_num_warmup_steps sp, sc_num_training_steps sp, int (lc_start_epoch cfg) * int k - 1)"
    by (simp add: create_lr_scheduler_def spe)
  have ceil: "c \<le> k" "c = k \<longleftrightarrow> g = 1 \<or> k = 1"
    using ceil_div_eq [OF assms(3) k] ceil_le [OF assms(3) k] by (simp_all add: c_def)
  have fresh: "int (ep * c) \<le> int (ep * k)" "int (ep * c) = int (ep * k) \<longleftrightarrow> g = 1 \<or> k = 1"
    using ceil bs(2) by auto
  have c1: "c = k" if "g = 1" using ceil(2) that by blast
  show ?thesis
    unfolding inputs_def [symmetric] k_def [symmetric]
  proof (intro exI conjI)
    show "run_training cfg ev inputs = Inr (st, training_summary cfg st)" by (rule run)
    show "create_lr_scheduler sp (int (lc_start_epoch cfg))
      = Inr (sc_num_warmup_steps sp, sc_num_training_steps sp, int (lc_start_epoch cfg) * int k - 1)" by (rule lr)
    show "scheduler_steps (ls_trace st) = ep * ((k + g - 1) div g)" using st(2) by (simp only: c_def)
  qed (use fresh c1 st(2) total spe in \<open>auto simp: algebra_simps\<close>)
qed

definition demo_losses :: "real list list" where
  "demo_losses = replicate 3 (replicate 7 (1/2))"

theorem schedule_position_witness:
  "\<exists>st summary. run_training (demo_loop\<lparr>lc_start_epoch := 0\<rparr>) demo_evaluator (map (accelerate_epoch 2) demo_losses) = Inr (st, summary)
     \<and> scheduler_steps (ls_trace st) = 12"
proof -
  obtain sp where sp: "create_scheduler_params (5/100) (int 128) (int 900) (int 3) 0 = Inr sp"
    by (simp add: create_scheduler_params_def calculate_steps_per_epoch_def Let_def)
  have "intervals_ok (demo_loop\<lparr>lc_start_epoch := 0\<rparr>)" by (simp add: intervals_ok_def demo_loop_def)
  from schedule_position [OF sp _ _ this, of 2 demo_losses demo_evaluator]
  show ?thesis by (auto simp: demo_loop_def demo_losses_def)
qed

end
