(* ===== verification/Checkpoints.thy ===== *)
theory Checkpoints
  imports Training_Loop
begin

text \<open>
  Checkpoints of a training run (\<open>TrainingPipeline._save_checkpoint\<close>, \<open>_save_weights\<close> and
  \<open>_get_checkpoint_load_path\<close>): a save is the list of the file-system calls it makes, so that a
  process killed at any point is a prefix of it. A file holds the number of the save that wrote it.
  The names of the files Accelerate writes are a parameter.
\<close>

section \<open>The file system\<close>

datatype entry = Directory "(string, nat) dict" | Link string

text \<open>The entries of \<open>accelerate_states/checkpoints\<close> and the directories of \<open>accelerate_states/weights\<close>.\<close>

record ckpt_fs =
  cf_entries :: "(string, entry) dict"
  cf_weights :: "(string, (string, nat) dict) dict"

datatype fs_op =
    Make_Dir string
  | Write_State string string nat
  | Make_Weights_Dir string
  | Write_Weights string string nat
  | Clear_Link string
  | Make_Link string string
  | Replace_Link string string

definition os_error :: "string \<Rightarrow> string \<Rightarrow> exn" where
  "os_error cls name = PyExc cls name"

fun apply_op :: "fs_op \<Rightarrow> ckpt_fs \<Rightarrow> ckpt_fs result" where
  "apply_op (Make_Dir d) fs =
     (case dict_get (cf_entries fs) d of
        None \<Rightarrow> Inr (fs\<lparr>cf_entries := dict_set d (Directory []) (cf_entries fs)\<rparr>)
      | Some (Directory _) \<Rightarrow> Inr fs
      | Some (Link _) \<Rightarrow> Inl (os_error ''FileExistsError'' d))"
| "apply_op (Write_State d f v) fs =
     (case dict_get (cf_entries fs) d of
        Some (Directory files) \<Rightarrow> Inr (fs\<lparr>cf_entries := dict_set d (Directory (dict_set f v files)) (cf_entries fs)\<rparr>)
      | _ \<Rightarrow> Inl (os_error ''FileNotFoundError'' d))"
| "apply_op (Make_Weights_Dir d) fs =
     (if dict_get (cf_weights fs) d = None then Inr (fs\<lparr>cf_weights := dict_set d [] (cf_weights fs)\<rparr>) else Inr fs)"
| "apply_op (Write_Weights d f v) fs =
     (case dict_get (cf_weights fs) d of
        Some files \<Rightarrow> Inr (fs\<lparr>cf_weights := dict_set d (dict_set f v files) (cf_weights fs)\<rparr>)
      | None \<Rightarrow> Inl (os_error ''FileNotFoundError'' d))"
| "apply_op (Clear_Link n) fs =
     (case dict_get (cf_entries fs) n of
        None \<Rightarrow> Inr fs
      | Some (Link _) \<Rightarrow> Inr (fs\<lparr>cf_entries := filter (\<lambda>(k, _). k \<noteq> n) (cf_entries fs)\<rparr>)
      | Some (Directory _) \<Rightarrow> Inl (os_error ''IsADirectoryError'' n))"
| "apply_op (Make_Link n t) fs =
     (if dict_get (cf_entries fs) n = None then Inr (fs\<lparr>cf_entries := dict_set n (Link t) (cf_entries fs)\<rparr>)
      else Inl (os_error ''FileExistsError'' n))"
| "apply_op (Replace_Link src dst) fs =
     (case (dict_get (cf_entries fs) src, dict_get (cf_entries fs) dst) of
        (None, _) \<Rightarrow> Inl (os_error ''FileNotFoundError'' src)
      | (Some (Link _), Some (Directory _)) \<Rightarrow> Inl (os_error ''IsADirectoryError'' dst)
      | (Some (Directory _), Some (Link _)) \<Rightarrow> Inl (os_error ''NotADirectoryError'' dst)
      | (Some x, _) \<Rightarrow> Inr (fs\<lparr>cf_entries := dict_set dst x (filter (\<lambda>(k, _). k \<noteq> src) (cf_entries fs))\<rparr>))"

fun run_ops :: "fs_op list \<Rightarrow> ckpt_fs \<Rightarrow> ckpt_fs result" where
  "run_ops [] fs = Inr fs"
| "run_ops (x # xs) fs = res_bind (apply_op x fs) (run_ops xs)"

definition epoch_name :: "nat \<Rightarrow> string" where
  "epoch_name e = ''epoch_'' @ show_nat e"

definition tmp_link :: "nat \<Rightarrow> string" where
  "tmp_link e = ''.latest-epoch-tmp-'' @ show_nat e"

definition latest_link :: string where
  "latest_link = ''latest-epoch''"

definition save_weights_ops :: "nat \<Rightarrow> nat \<Rightarrow> fs_op list" where
  "save_weights_ops e v = [Make_Weights_Dir (epoch_name e), Write_Weights (epoch_name e) ''model.safetensors'' v]"

text \<open>\<open>_save_checkpoint\<close> on the main process; \<open>v\<close> numbers the save.\<close>

definition save_checkpoint_ops :: "string list \<Rightarrow> nat \<Rightarrow> nat \<Rightarrow> fs_op list" where
  "save_checkpoint_ops state_files e v =
     [Make_Dir (epoch_name e)] @ map (\<lambda>f. Write_State (epoch_name e) f v) state_files
     @ save_weights_ops e v
     @ [Clear_Link (tmp_link e), Make_Link (tmp_link e) (epoch_name e), Replace_Link (tmp_link e) latest_link]"

text \<open>The directory a name stands for, a link being followed once.\<close>

definition resolve_entry :: "ckpt_fs \<Rightarrow> string \<Rightarrow> (string, nat) dict option" where
  "resolve_entry fs n =
     (case dict_get (cf_entries fs) n of
        None \<Rightarrow> None
      | Some (Directory files) \<Rightarrow> Some files
      | Some (Link t) \<Rightarrow> (case dict_get (cf_entries fs) t of Some (Directory files) \<Rightarrow> Some files | _ \<Rightarrow> None))"

definition get_checkpoint_load_path :: "string \<Rightarrow> bool \<Rightarrow> string option \<Rightarrow> ckpt_fs \<Rightarrow> string option result" where
  "get_checkpoint_load_path results_path continue_training continue_folder fs =
     (if \<not> continue_training then Inr None
      else
        (let folder = (case continue_folder of None \<Rightarrow> latest_link | Some f \<Rightarrow> if f = [] then latest_link else f);
             path = results_path @ ''/accelerate_states/checkpoints/'' @ folder
         in if resolve_entry fs folder = None
            then Inl (PyExc ''FileNotFoundError'' (''continue_training=True but no checkpoint at '' @ path
                   @ ''. Cannot resume without a valid checkpoint.''))
            else Inr (Some path)))"

section \<open>A save and its prefixes\<close>

lemma run_ops_append: "run_ops (xs @ ys) fs = res_bind (run_ops xs fs) (run_ops ys)"
proof (induction xs arbitrary: fs)
  case (Cons x xs)
  then show ?case by (cases "apply_op x fs") simp_all
qed simp

lemma names_distinct [simp]:
  "epoch_name e \<noteq> tmp_link e'" "tmp_link e \<noteq> epoch_name e'" "epoch_name e \<noteq> latest_link" "latest_link \<noteq> epoch_name e"
  "tmp_link e \<noteq> latest_link" "latest_link \<noteq> tmp_link e" "epoch_name e = epoch_name e' \<longleftrightarrow> e = e'"
  by (auto simp: epoch_name_def tmp_link_def latest_link_def)

lemma map_of_filter_other: "map_of (filter (\<lambda>(k, _). k \<noteq> n) d) m = (if m = n then None else map_of d m)"
  by (induction d) auto

text \<open>What the program's own saves leave behind: the names it uses stand for what it makes of them.\<close>

definition tidy :: "ckpt_fs \<Rightarrow> bool" where
  "tidy fs \<longleftrightarrow>
     (\<forall>e t. dict_get (cf_entries fs) (epoch_name e) \<noteq> Some (Link t))
     \<and> (\<forall>e d. dict_get (cf_entries fs) (tmp_link e) \<noteq> Some (Directory d))
     \<and> (\<forall>d. dict_get (cf_entries fs) latest_link \<noteq> Some (Directory d))"

text \<open>The state and the weights of epoch \<open>e\<close> were all written by the save \<open>v\<close>.\<close>

definition complete_save :: "string list \<Rightarrow> ckpt_fs \<Rightarrow> nat \<Rightarrow> nat \<Rightarrow> bool" where
  "complete_save state_files fs e v \<longleftrightarrow>
     (\<exists>d w. dict_get (cf_entries fs) (epoch_name e) = Some (Directory d) \<and> (\<forall>f \<in> set state_files. dict_get d f = Some v)
        \<and> dict_get (cf_weights fs) (epoch_name e) = Some w \<and> dict_get w ''model.safetensors'' = Some v)"

definition latest_is :: "string list \<Rightarrow> ckpt_fs \<Rightarrow> nat \<Rightarrow> nat \<Rightarrow> bool" where
  "latest_is state_files fs e v \<longleftrightarrow>
     dict_get (cf_entries fs) latest_link = Some (Link (epoch_name e)) \<and> complete_save state_files fs e v"

text \<open>Only the entries of epoch \<open>e\<close> and its temporary link may differ.\<close>

definition keeps :: "nat \<Rightarrow> ckpt_fs \<Rightarrow> ckpt_fs \<Rightarrow> bool" where
  "keeps e fs fs' \<longleftrightarrow>
     (\<forall>n. n \<noteq> epoch_name e \<longrightarrow> n \<noteq> tmp_link e \<longrightarrow> dict_get (cf_entries fs') n = dict_get (cf_entries fs) n)
     \<and> (\<forall>n. n \<noteq> epoch_name e \<longrightarrow> dict_get (cf_weights fs') n = dict_get (cf_weights fs) n)"

definition local_op :: "nat \<Rightarrow> fs_op \<Rightarrow> bool" where
  "local_op e x \<longleftrightarrow> (case x of
      Make_Dir d \<Rightarrow> d = epoch_name e | Write_State d _ _ \<Rightarrow> d = epoch_name e | Make_Weights_Dir d \<Rightarrow> d = epoch_name e
    | Write_Weights d _ _ \<Rightarrow> d = epoch_name e | Clear_Link n \<Rightarrow> n = tmp_link e | Make_Link n _ \<Rightarrow> n = tmp_link e
    | Replace_Link _ _ \<Rightarrow> False)"

lemma keeps_refl: "keeps e fs fs"
  by (simp add: keeps_def)

lemma keeps_trans: "keeps e a b \<Longrightarrow> keeps e b c \<Longrightarrow> keeps e a c"
  by (simp add: keeps_def)

lemma local_op_keeps: "local_op e x \<Longrightarrow> apply_op x fs = Inr fs' \<Longrightarrow> keeps e fs fs'"
  by (cases x) (auto simp: local_op_def keeps_def dict_simps map_of_filter_other split: option.splits entry.splits if_splits)

lemma local_ops_keep: "list_all (local_op e) xs \<Longrightarrow> run_ops xs fs = Inr fs' \<Longrightarrow> keeps e fs fs'"
proof (induction xs arbitrary: fs)
  case Nil
  then show ?case by (simp add: keeps_refl)
next
  case (Cons x xs)
  then obtain fs1 where "apply_op x fs = Inr fs1" "run_ops xs fs1 = Inr fs'" by (auto simp: res_bind_Inr_iff)
  then show ?case using Cons local_op_keeps keeps_trans by (metis list.pred_inject(2))
qed

lemma keeps_latest: "keeps e fs fs' \<Longrightarrow> latest_is files fs e' v \<Longrightarrow> e' \<noteq> e \<Longrightarrow> latest_is files fs' e' v"
  by (auto simp: keeps_def latest_is_def complete_save_def)

lemma save_ops_split:
  "save_checkpoint_ops files e v = butlast (save_checkpoint_ops files e v) @ [Replace_Link (tmp_link e) latest_link]"
  by (simp add: save_checkpoint_ops_def save_weights_ops_def butlast_append)

lemma save_ops_local: "list_all (local_op e) (butlast (save_checkpoint_ops files e v))"
  by (auto simp: save_checkpoint_ops_def save_weights_ops_def local_op_def list_all_iff butlast_append)

lemma length_save_ops: "length (save_checkpoint_ops files e v) = length files + 6"
  by (simp add: save_checkpoint_ops_def save_weights_ops_def)

lemma write_all_states:
  "dict_get (cf_entries fs) d = Some (Directory files) \<Longrightarrow>
   \<exists>fs' files'. run_ops (map (\<lambda>f. Write_State d f v) xs) fs = Inr fs'
     \<and> dict_get (cf_entries fs') d = Some (Directory files') \<and> cf_weights fs' = cf_weights fs
     \<and> (\<forall>f. dict_get files' f = (if f \<in> set xs then Some v else dict_get files f))"
proof (induction xs arbitrary: fs files)
  case (Cons x xs)
  let ?fs = "fs\<lparr>cf_entries := dict_set d (Directory (dict_set x v files)) (cf_entries fs)\<rparr>"
  have "dict_get (cf_entries ?fs) d = Some (Directory (dict_set x v files))" by (simp add: dict_simps)
  from Cons.IH [OF this] obtain fs' files' where
    "run_ops (map (\<lambda>f. Write_State d f v) xs) ?fs = Inr fs'" "dict_get (cf_entries fs') d = Some (Directory files')"
    "cf_weights fs' = cf_weights fs" "\<forall>f. dict_get files' f = (if f \<in> set xs then Some v else dict_get (dict_set x v files) f)"
    by auto
  then show ?case using Cons.prems by (intro exI [of _ fs'] exI [of _ files']) (auto simp: dict_simps)
qed simp

lemma run_ops_preserves:
  "\<forall>x \<in> set xs. \<forall>a b. apply_op x a = Inr b \<longrightarrow> f b = f a \<Longrightarrow> run_ops xs fs = Inr fs' \<Longrightarrow> f fs' = f fs"
proof (induction xs arbitrary: fs)
  case (Cons x xs)
  then obtain fs1 where "apply_op x fs = Inr fs1" "run_ops xs fs1 = Inr fs'" by (auto simp: res_bind_Inr_iff)
  moreover have "f fs1 = f fs" using Cons.prems(1) calculation(1) by simp
  moreover have "f fs' = f fs1" using Cons.IH [OF _ calculation(2)] Cons.prems(1) by simp
  ultimately show ?case by simp
qed simp

lemma save_body_runs:
  assumes "tidy fs"
  shows "\<exists>fs'. run_ops (butlast (save_checkpoint_ops files e v)) fs = Inr fs' \<and> complete_save files fs' e v \<and> keeps e fs fs'
    \<and> dict_get (cf_entries fs') (tmp_link e) = Some (Link (epoch_name e))"
proof -
  have no_link: "dict_get (cf_entries fs) (epoch_name e) \<noteq> Some (Link t)" for t using assms by (simp add: tidy_def)
  have "\<exists>fs1 d1. apply_op (Make_Dir (epoch_name e)) fs = Inr fs1 \<and> dict_get (cf_entries fs1) (epoch_name e) = Some (Directory d1)"
  proof (cases "dict_get (cf_entries fs) (epoch_name e)")
    case (Some x)
    then show ?thesis using no_link by (cases x) auto
  qed (simp add: dict_simps)
  then obtain fs1 d1 where 1: "apply_op (Make_Dir (epoch_name e)) fs = Inr fs1"
    "dict_get (cf_entries fs1) (epoch_name e) = Some (Directory d1)" by blast
  from write_all_states [OF 1(2), of v files] obtain fs2 d2 where 2:
    "run_ops (map (\<lambda>f. Write_State (epoch_name e) f v) files) fs1 = Inr fs2"
    "dict_get (cf_entries fs2) (epoch_name e) = Some (Directory d2)" "\<forall>f \<in> set files. dict_get d2 f = Some v" by auto
  obtain fs3 w3 where 3: "apply_op (Make_Weights_Dir (epoch_name e)) fs2 = Inr fs3"
    "dict_get (cf_weights fs3) (epoch_name e) = Some w3" "cf_entries fs3 = cf_entries fs2"
    by (cases "dict_get (cf_weights fs2) (epoch_name e)") (auto simp: dict_simps)
  define fs4 where "fs4 = fs3\<lparr>cf_weights := dict_set (epoch_name e) (dict_set ''model.safetensors'' v w3) (cf_weights fs3)\<rparr>"
  have 4: "apply_op (Write_Weights (epoch_name e) ''model.safetensors'' v) fs3 = Inr fs4" using 3(2) by (simp add: fs4_def)
  have early: "list_all (local_op e) ([Make_Dir (epoch_name e)] @ map (\<lambda>f. Write_State (epoch_name e) f v) files @ save_weights_ops e v)"
    by (auto simp: local_op_def save_weights_ops_def list_all_iff)
  have run4: "run_ops ([Make_Dir (epoch_name e)] @ map (\<lambda>f. Write_State (epoch_name e) f v) files @ save_weights_ops e v) fs = Inr fs4"
    using 1(1) 2(1) 3(1) 4 by (simp add: run_ops_append save_weights_ops_def)
  have tmp4: "dict_get (cf_entries fs4) (tmp_link e) \<noteq> Some (Directory d)" for d
  proof -
    have "\<forall>x \<in> set ([Make_Dir (epoch_name e)] @ map (\<lambda>f. Write_State (epoch_name e) f v) files @ save_weights_ops e v).
        \<forall>a b. apply_op x a = Inr b \<longrightarrow> dict_get (cf_entries b) (tmp_link e) = dict_get (cf_entries a) (tmp_link e)"
      by (auto simp: save_weights_ops_def dict_simps split: option.splits entry.splits if_splits)
    then have "dict_get (cf_entries fs4) (tmp_link e) = dict_get (cf_entries fs) (tmp_link e)"
      using run4 by (rule run_ops_preserves [where f = "\<lambda>s. dict_get (cf_entries s) (tmp_link e)"])
    then show ?thesis using assms by (simp add: tidy_def)
  qed
  have "\<exists>fs5. apply_op (Clear_Link (tmp_link e)) fs4 = Inr fs5 \<and> dict_get (cf_entries fs5) (tmp_link e) = None
      \<and> dict_get (cf_entries fs5) (epoch_name e) = dict_get (cf_entries fs4) (epoch_name e) \<and> cf_weights fs5 = cf_weights fs4"
  proof (cases "dict_get (cf_entries fs4) (tmp_link e)")
    case (Some x)
    then show ?thesis using tmp4 by (cases x) (simp_all add: map_of_filter_other)
  qed simp
  then obtain fs5 where 5: "apply_op (Clear_Link (tmp_link e)) fs4 = Inr fs5" "dict_get (cf_entries fs5) (tmp_link e) = None"
    "dict_get (cf_entries fs5) (epoch_name e) = dict_get (cf_entries fs4) (epoch_name e)" "cf_weights fs5 = cf_weights fs4"
    by blast
  define fs6 where "fs6 = fs5\<lparr>cf_entries := dict_set (tmp_link e) (Link (epoch_name e)) (cf_entries fs5)\<rparr>"
  have body: "butlast (save_checkpoint_ops files e v)
      = ([Make_Dir (epoch_name e)] @ map (\<lambda>f. Write_State (epoch_name e) f v) files @ save_weights_ops e v)
        @ [Clear_Link (tmp_link e), Make_Link (tmp_link e) (epoch_name e)]"
    by (simp add: save_checkpoint_ops_def butlast_append)
  have run: "run_ops (butlast (save_checkpoint_ops files e v)) fs = Inr fs6"
    unfolding body by (subst run_ops_append, subst run4) (use 5(1,2) in \<open>simp add: fs6_def\<close>)
  have "complete_save files fs6 e v"
    using 2(2,3) 3(3) 5(3,4) by (auto simp: complete_save_def fs6_def fs4_def dict_simps)
  then show ?thesis using run local_ops_keep [OF save_ops_local run] by (auto simp: fs6_def dict_simps)
qed

text \<open>A whole save makes its epoch the latest one; a save that is cut short leaves the latest one alone.\<close>

lemma save_runs:
  assumes "tidy fs"
  shows "\<exists>fs'. run_ops (save_checkpoint_ops files e v) fs = Inr fs' \<and> latest_is files fs' e v \<and> tidy fs'"
proof -
  obtain fs1 where 1: "run_ops (butlast (save_checkpoint_ops files e v)) fs = Inr fs1" "complete_save files fs1 e v" "keeps e fs fs1"
    "dict_get (cf_entries fs1) (tmp_link e) = Some (Link (epoch_name e))" using save_body_runs [OF assms] by blast
  define fs2 where "fs2 = fs1\<lparr>cf_entries := dict_set latest_link (Link (epoch_name e)) (filter (\<lambda>(k, _). k \<noteq> tmp_link e) (cf_entries fs1))\<rparr>"
  have "dict_get (cf_entries fs1) latest_link = dict_get (cf_entries fs) latest_link" using 1(3) by (simp add: keeps_def)
  then have "dict_get (cf_entries fs1) latest_link \<noteq> Some (Directory d)" for d using assms by (simp add: tidy_def)
  then have "apply_op (Replace_Link (tmp_link e) latest_link) fs1 = Inr fs2"
    using 1(4) by (auto simp: fs2_def split: option.splits entry.splits)
  then have run: "run_ops (save_checkpoint_ops files e v) fs = Inr fs2"
    by (subst save_ops_split) (simp add: run_ops_append 1(1))
  have same: "dict_get (cf_entries fs2) n = dict_get (cf_entries fs1) n" if "n \<noteq> latest_link" "n \<noteq> tmp_link e" for n
    using that by (simp add: fs2_def dict_simps map_of_filter_other)
  have tmp: "dict_get (cf_entries fs2) (tmp_link e) = None" by (simp add: fs2_def dict_simps map_of_filter_other)
  have latest: "dict_get (cf_entries fs2) latest_link = Some (Link (epoch_name e))" by (simp add: fs2_def dict_simps)
  have w: "cf_weights fs2 = cf_weights fs1" by (simp add: fs2_def)
  have "latest_is files fs2 e v" using 1(2) same [of "epoch_name e"] latest w by (simp add: latest_is_def complete_save_def)
  moreover have "tidy fs2"
    unfolding tidy_def
  proof (intro conjI allI)
    fix e' t d
    show "dict_get (cf_entries fs2) (epoch_name e') \<noteq> Some (Link t)"
      using 1(2,3) same [of "epoch_name e'"] assms by (cases "e' = e") (auto simp: complete_save_def keeps_def tidy_def)
    show "dict_get (cf_entries fs2) (tmp_link e') \<noteq> Some (Directory d)"
    proof (cases "tmp_link e' = tmp_link e")
      case False
      then show ?thesis using 1(3) same [of "tmp_link e'"] assms by (auto simp: keeps_def tidy_def)
    qed (use tmp in simp)
    show "dict_get (cf_entries fs2) latest_link \<noteq> Some (Directory d)" using latest by simp
  qed
  ultimately show ?thesis using run by blast
qed

lemma cut_save_keeps:
  assumes "tidy fs" "n < length (save_checkpoint_ops files e v)"
  shows "\<exists>fs'. run_ops (take n (save_checkpoint_ops files e v)) fs = Inr fs' \<and> keeps e fs fs'"
proof -
  have t: "take n (save_checkpoint_ops files e v) = take n (butlast (save_checkpoint_ops files e v))"
    using assms(2) by (simp add: take_butlast)
  obtain fs1 where "run_ops (take n (butlast (save_checkpoint_ops files e v)) @ drop n (butlast (save_checkpoint_ops files e v))) fs = Inr fs1"
    using save_body_runs [OF assms(1), of files e v] by auto
  then obtain fs' where run: "run_ops (take n (butlast (save_checkpoint_ops files e v))) fs = Inr fs'"
    unfolding run_ops_append by (auto simp: res_bind_Inr_iff)
  have "list_all (local_op e) (take n (butlast (save_checkpoint_ops files e v)))"
    using save_ops_local by (auto simp: list_all_iff dest: in_set_takeD)
  then show ?thesis using run local_ops_keep unfolding t by blast
qed

lemma local_op_tidy:
  assumes "local_op e x" "apply_op x fs = Inr fs'" "tidy fs"
  shows "tidy fs'"
proof -
  have "(\<forall>t. dict_get (cf_entries fs') (epoch_name e) \<noteq> Some (Link t)) \<and> (\<forall>d. dict_get (cf_entries fs') (tmp_link e) \<noteq> Some (Directory d))"
    using assms by (cases x)
      (auto simp: local_op_def tidy_def dict_simps map_of_filter_other split: option.splits entry.splits if_splits)
  moreover have "dict_get (cf_entries fs') n = dict_get (cf_entries fs) n" if "n \<noteq> epoch_name e" "n \<noteq> tmp_link e" for n
    using local_op_keeps [OF assms(1,2)] that by (simp add: keeps_def)
  ultimately show ?thesis
    using assms(3) unfolding tidy_def by (metis names_distinct(1,4,6))
qed

lemma local_ops_tidy: "list_all (local_op e) xs \<Longrightarrow> run_ops xs fs = Inr fs' \<Longrightarrow> tidy fs \<Longrightarrow> tidy fs'"
proof (induction xs arbitrary: fs)
  case (Cons x xs)
  then obtain fs1 where "apply_op x fs = Inr fs1" "run_ops xs fs1 = Inr fs'" by (auto simp: res_bind_Inr_iff)
  then show ?case using Cons local_op_tidy by (metis list.pred_inject(2))
qed simp

section \<open>Histories of saves and crashes\<close>

text \<open>Saves, some of them cut short by the end of the process, over any number of restarts. The last
  argument is the epoch and the number of the last save that ended. A save that is cut short is not
  one of the epoch that \<open>latest-epoch\<close> stands for.\<close>

inductive ckpt_history :: "string list \<Rightarrow> ckpt_fs \<Rightarrow> (nat \<times> nat) option \<Rightarrow> bool" for files where
  fresh: "ckpt_history files \<lparr>cf_entries = [], cf_weights = []\<rparr> None"
| saved_whole: "ckpt_history files fs l \<Longrightarrow> run_ops (save_checkpoint_ops files e v) fs = Inr fs'
    \<Longrightarrow> ckpt_history files fs' (Some (e, v))"
| saved_in_part: "ckpt_history files fs l \<Longrightarrow> \<forall>e' v'. l = Some (e', v') \<longrightarrow> e' \<noteq> e
    \<Longrightarrow> n < length (save_checkpoint_ops files e v) \<Longrightarrow> run_ops (take n (save_checkpoint_ops files e v)) fs = Inr fs'
    \<Longrightarrow> ckpt_history files fs' l"

definition latest_matches :: "string list \<Rightarrow> ckpt_fs \<Rightarrow> (nat \<times> nat) option \<Rightarrow> bool" where
  "latest_matches files fs l \<longleftrightarrow>
     (case l of None \<Rightarrow> dict_get (cf_entries fs) latest_link = None | Some (e, v) \<Rightarrow> latest_is files fs e v)"

lemma cut_ops_local: "n < length (save_checkpoint_ops files e v) \<Longrightarrow> list_all (local_op e) (take n (save_checkpoint_ops files e v))"
proof -
  assume "n < length (save_checkpoint_ops files e v)"
  then have "take n (save_checkpoint_ops files e v) = take n (butlast (save_checkpoint_ops files e v))" by (simp add: take_butlast)
  then show ?thesis using save_ops_local [of e files v] by (auto simp: list_all_iff dest: in_set_takeD)
qed

lemma history_invariant: "ckpt_history files fs l \<Longrightarrow> tidy fs \<and> latest_matches files fs l"
proof (induction rule: ckpt_history.induct)
  case fresh
  then show ?case by (simp add: tidy_def latest_matches_def)
next
  case (saved_whole fs l e v fs')
  then show ?case using save_runs [of fs files e v] by (auto simp: latest_matches_def)
next
  case (saved_in_part fs l e n v fs')
  note loc = cut_ops_local [OF saved_in_part.hyps(3)]
  have k: "keeps e fs fs'" "tidy fs'"
    using local_ops_keep [OF loc saved_in_part.hyps(4)] local_ops_tidy [OF loc saved_in_part.hyps(4)] saved_in_part.IH by blast+
  have "latest_matches files fs' l"
  proof (cases l)
    case None
    then show ?thesis using saved_in_part.IH k(1) by (simp add: latest_matches_def keeps_def)
  next
    case (Some ev)
    obtain e' v' where ev: "ev = (e', v')" by (cases ev)
    have "e' \<noteq> e" "latest_is files fs e' v'" using saved_in_part.hyps(2) saved_in_part.IH Some ev by (auto simp: latest_matches_def)
    then show ?thesis using keeps_latest [OF k(1)] by (simp add: latest_matches_def Some ev)
  qed
  then show ?case using k(2) by blast
qed

lemma load_path_latest:
  "latest_is files fs e v \<Longrightarrow> get_checkpoint_load_path base True None fs
     = Inr (Some (base @ ''/accelerate_states/checkpoints/latest-epoch''))"
  "dict_get (cf_entries fs) latest_link = None \<Longrightarrow> get_checkpoint_load_path base True None fs
     = Inl (PyExc ''FileNotFoundError'' (''continue_training=True but no checkpoint at '' @ base
          @ ''/accelerate_states/checkpoints/latest-epoch. Cannot resume without a valid checkpoint.''))"
  by (auto simp: get_checkpoint_load_path_def latest_is_def complete_save_def resolve_entry_def latest_link_def)



text \<open>Saving the latest epoch again, as a run resumed at the epoch it was stopped in does, writes into
  the directory \<open>latest-epoch\<close> stands for: a crash there leaves files of two saves.\<close>

lemma resave_tears:
  assumes "latest_is [f, g] fs e v" "f \<noteq> g" "v \<noteq> v'"
  shows "\<exists>fs' d. run_ops (take 2 (save_checkpoint_ops [f, g] e v')) fs = Inr fs' \<and> resolve_entry fs' latest_link = Some d
    \<and> dict_get d f = Some v' \<and> dict_get d g = Some v"
proof -
  obtain d where d: "dict_get (cf_entries fs) latest_link = Some (Link (epoch_name e))"
    "dict_get (cf_entries fs) (epoch_name e) = Some (Directory d)" "dict_get d g = Some v"
    using assms(1) by (auto simp: latest_is_def complete_save_def)
  let ?fs = "fs\<lparr>cf_entries := dict_set (epoch_name e) (Directory (dict_set f v' d)) (cf_entries fs)\<rparr>"
  have "run_ops (take 2 (save_checkpoint_ops [f, g] e v')) fs = Inr ?fs" using d(2) by (simp add: save_checkpoint_ops_def)
  then show ?thesis using d assms(2) by (intro exI [of _ ?fs]) (simp add: resolve_entry_def dict_simps)
qed

section \<open>The saves of a run\<close>

lemma saves_reach_last:
  "tidy fs \<Longrightarrow> es \<noteq> [] \<Longrightarrow>
   \<exists>fs'. run_ops (concat (map (\<lambda>e. save_checkpoint_ops files e e) es)) fs = Inr fs' \<and> latest_is files fs' (last es) (last es)"
proof (induction es arbitrary: fs)
  case (Cons e es)
  obtain fs1 where 1: "run_ops (save_checkpoint_ops files e e) fs = Inr fs1" "latest_is files fs1 e e" "tidy fs1"
    using save_runs [OF Cons.prems(1)] by blast
  show ?case
  proof (cases "es = []")
    case False
    obtain fs' where "run_ops (concat (map (\<lambda>e. save_checkpoint_ops files e e) es)) fs1 = Inr fs'"
      "latest_is files fs' (last es) (last es)" using Cons.IH [OF 1(3) False] by blast
    then show ?thesis using 1(1) False by (simp add: run_ops_append)
  qed (use 1 in \<open>simp add: run_ops_append\<close>)
qed simp

text \<open>
  A run stopped by a signal can be resumed from the epoch it was in. The saves of a run that ends
  after a signal, done on a fresh results directory or one that earlier runs left, make
  \<open>latest-epoch\<close> stand for the epoch the run was in, whole, and resuming loads it.
\<close>

theorem stopped_run_resumes:
  assumes "intervals_ok cfg" "run_training cfg ev inputs = Inr (st, summary)" "ls_sigterm st" "ckpt_history files fs l"
  shows "\<exists>k fs'. 0 < k \<and> k \<le> min (lc_num_epochs cfg) (length inputs)
    \<and> run_ops (concat (map (\<lambda>e. save_checkpoint_ops files e e) (saved (ls_trace st)))) fs = Inr fs'
    \<and> latest_is files fs' (lc_start_epoch cfg + k - 1) (lc_start_epoch cfg + k - 1)
    \<and> get_checkpoint_load_path base True None fs' = Inr (Some (base @ ''/accelerate_states/checkpoints/latest-epoch''))"
proof -
  have r: "train_epochs cfg ev (lc_start_epoch cfg) (take (lc_num_epochs cfg) inputs) initial_loop = Inr st"
    using assms(2) by (auto simp: run_training_def res_bind_Inr_iff)
  have i: "ls_last_saved_epoch initial_loop < int (lc_start_epoch cfg)" "\<not> ls_sigterm initial_loop"
    by (simp_all add: initial_loop_def)
  obtain k es where k: "k \<le> min (lc_num_epochs cfg) (length inputs)" "0 < k" "ls_trace st = es @ [Saved (lc_start_epoch cfg + k - 1)]"
    using train_epochs_saves [OF assms(1) r i] assms(3) by (auto simp: min.commute)
  have last: "saved (ls_trace st) \<noteq> []" "last (saved (ls_trace st)) = lc_start_epoch cfg + k - 1" using k(3) by simp_all
  have "tidy fs" using history_invariant [OF assms(4)] by blast
  from saves_reach_last [OF this last(1), of files] last(2) obtain fs' where
    "run_ops (concat (map (\<lambda>e. save_checkpoint_ops files e e) (saved (ls_trace st)))) fs = Inr fs'"
    "latest_is files fs' (lc_start_epoch cfg + k - 1) (lc_start_epoch cfg + k - 1)" by auto
  then show ?thesis using k(1,2) load_path_latest(1) by blast
qed

theorem stopped_run_resumes_witness:
  "\<exists>k fs'. 0 < k \<and> latest_is [''model.safetensors''] fs' (k - 1) (k - 1)"
proof -
  obtain st summary where r: "run_training demo_loop demo_evaluator demo_inputs = Inr (st, summary)" "ls_sigterm st"
    using demo_run by blast
  have "intervals_ok demo_loop" by (simp add: intervals_ok_def demo_loop_def)
  from stopped_run_resumes [OF this r fresh, of "[''model.safetensors'']" "''runs''"]
  show ?thesis by (auto simp: demo_loop_def)
qed

end
