(* ===== verification/Partitions.thy ===== *)
theory Partitions
  imports Api_Errors "HOL-Library.Multiset"
begin

text \<open>
  The monthly partitions of the audit table: the migration that makes them
  (\<open>migrations/versions/20260914_1800_partition_inference_logs.py\<close>, whose SQL functions are
  modelled from their text) and the job that maintains them (\<open>scripts/maintain_partitions.py\<close>).
  A month is a number, twelve times the year plus the months before it in the year; a row is its
  month and its other columns, the primary key left out. What PostgreSQL does is its documented
  behaviour: a row goes to the partition of its range, else to the default partition, and a
  partition cannot be made over another one or over rows of the default partition.
\<close>

section \<open>The partitioned table\<close>

record 'a month_part =
  mp_name :: string
  mp_from :: nat
  mp_to :: nat
  mp_rows :: "(nat \<times> 'a) list"

record 'a audit_table =
  at_parts :: "'a month_part list"
  at_default :: "(nat \<times> 'a) list"

definition pg_error :: "string \<Rightarrow> exn" where
  "pg_error m = PyExc ''IntegrityError'' m"

definition in_range :: "nat \<Rightarrow> 'a month_part \<Rightarrow> bool" where
  "in_range m p \<longleftrightarrow> mp_from p \<le> m \<and> m < mp_to p"

definition insert_row :: "nat \<times> 'a \<Rightarrow> 'a audit_table \<Rightarrow> 'a audit_table" where
  "insert_row r t =
     (if list_ex (in_range (fst r)) (at_parts t)
      then t\<lparr>at_parts := map (\<lambda>p. if in_range (fst r) p then p\<lparr>mp_rows := mp_rows p @ [r]\<rparr> else p) (at_parts t)\<rparr>
      else t\<lparr>at_default := at_default t @ [r]\<rparr>)"

definition insert_rows :: "(nat \<times> 'a) list \<Rightarrow> 'a audit_table \<Rightarrow> 'a audit_table" where
  "insert_rows rs t = foldl (\<lambda>t r. insert_row r t) t rs"

text \<open>\<open>CREATE TABLE name PARTITION OF inference_logs FOR VALUES FROM (lo) TO (hi)\<close>.\<close>

definition create_partition :: "string \<Rightarrow> nat \<Rightarrow> nat \<Rightarrow> 'a audit_table \<Rightarrow> 'a audit_table result" where
  "create_partition name lo hi t =
     (if list_ex (\<lambda>p. lo < mp_to p \<and> mp_from p < hi) (at_parts t)
      then Inl (pg_error (''partition '' @ name @ '' would overlap partition''))
      else if list_ex (\<lambda>r. lo \<le> fst r \<and> fst r < hi) (at_default t)
      then Inl (pg_error ''updated partition constraint for default partition inference_logs_default would be violated by some row'')
      else Inr (t\<lparr>at_parts := at_parts t @ [\<lparr>mp_name = name, mp_from = lo, mp_to = hi, mp_rows = []\<rparr>]\<rparr>))"

section \<open>The SQL functions\<close>

definition part_name :: "nat \<Rightarrow> string" where
  "part_name m = ''inference_logs_'' @ pad_zeros 4 (show_nat (m div 12)) @ ''_'' @ pad_zeros 2 (show_nat (m mod 12 + 1))"

text \<open>\<open>to_date(right(relname, 7), 'YYYY_MM')\<close>.\<close>

definition part_date :: "string \<Rightarrow> nat" where
  "part_date name =
     (let r = drop (length name - 7) name in 12 * read_nat (take 4 r) + (read_nat (drop 5 r) - 1))"

text \<open>The loop over the months from \<open>month_start\<close>; the names of what it made.\<close>

fun create_months :: "nat list \<Rightarrow> 'a audit_table \<Rightarrow> ('a audit_table \<times> string list) result" where
  "create_months [] t = Inr (t, [])"
| "create_months (m # ms) t =
     (if list_ex (\<lambda>p. mp_name p = part_name m) (at_parts t) then create_months ms t
      else
        res_bind (create_partition (part_name m) m (m + 1) t) (\<lambda>t'.
        res_bind (create_months ms t') (\<lambda>(t'', created). Inr (t'', part_name m # created))))"

definition create_inference_log_partitions :: "nat \<Rightarrow> nat \<Rightarrow> 'a audit_table \<Rightarrow> ('a audit_table \<times> string list) result" where
  "create_inference_log_partitions current_month months_ahead t =
     create_months [current_month..<current_month + months_ahead + 1] t"

definition drop_expired_inference_logs :: "nat \<Rightarrow> nat \<Rightarrow> 'a audit_table \<Rightarrow> 'a audit_table \<times> string list" where
  "drop_expired_inference_logs current_month retain_months t =
     (let expired = (\<lambda>p. int (part_date (mp_name p)) < int current_month - int retain_months)
      in (t\<lparr>at_parts := filter (\<lambda>p. \<not> expired p) (at_parts t)\<rparr>, map mp_name (filter expired (at_parts t))))"

definition retention_months :: nat where
  "retention_months = 6"

text \<open>\<open>upgrade\<close> and \<open>downgrade\<close> on the rows of the plain table.\<close>

definition upgrade :: "nat \<Rightarrow> (nat \<times> 'a) list \<Rightarrow> 'a audit_table result" where
  "upgrade current_month old_rows =
     res_bind (create_months [current_month - retention_months..<current_month + 3 + 1] \<lparr>at_parts = [], at_default = []\<rparr>)
       (\<lambda>(t, _). Inr (insert_rows old_rows t))"

definition downgrade :: "'a audit_table \<Rightarrow> (nat \<times> 'a) list" where
  "downgrade t = concat (map mp_rows (at_parts t)) @ at_default t"

section \<open>The maintenance job\<close>

record maintain_args =
  ma_months_ahead :: nat
  ma_retain_months :: nat
  ma_dry_run :: bool
  ma_push_metrics :: bool

record maintain_result =
  mr_created :: "string list"
  mr_dropped :: "string list"
  mr_default_rows :: nat

text \<open>One transaction: an error of a statement leaves the table as it was.\<close>

definition maintain :: "maintain_args \<Rightarrow> nat \<Rightarrow> 'a audit_table \<Rightarrow> ('a audit_table \<times> maintain_result) result" where
  "maintain args current_month t =
     (if ma_dry_run args
      then Inr (t, \<lparr>mr_created = [], mr_dropped = [], mr_default_rows = length (at_default t)\<rparr>)
      else
        res_bind (create_inference_log_partitions current_month (ma_months_ahead args) t) (\<lambda>(t1, created).
        let (t2, dropped) = drop_expired_inference_logs current_month (ma_retain_months args) t1
        in Inr (t2, \<lparr>mr_created = created, mr_dropped = dropped, mr_default_rows = length (at_default t2)\<rparr>)))"

text \<open>The gauges: rows in the default partition, partitions made, partitions dropped.\<close>

definition push_metrics :: "bool \<Rightarrow> maintain_result \<Rightarrow> (nat \<times> nat \<times> nat) option \<Rightarrow> (nat \<times> nat \<times> nat) option" where
  "push_metrics gateway_up r gauges =
     (if gateway_up then Some (mr_default_rows r, length (mr_created r), length (mr_dropped r)) else gauges)"

text \<open>\<open>main\<close>: the exit code, the table and the gauges. An exception ends the process with code 1.\<close>

definition maintenance_main ::
  "maintain_args \<Rightarrow> bool \<Rightarrow> nat \<Rightarrow> 'a audit_table \<times> (nat \<times> nat \<times> nat) option
   \<Rightarrow> nat \<times> ('a audit_table \<times> (nat \<times> nat \<times> nat) option)" where
  "maintenance_main args gateway_up current_month s =
     (case s of (t, gauges) \<Rightarrow>
      case maintain args current_month t of
        Inl _ \<Rightarrow> (1, (t, gauges))
      | Inr (t', r) \<Rightarrow> (0, (t', if ma_push_metrics args then push_metrics gateway_up r gauges else gauges)))"

section \<open>Names of partitions\<close>

lemma length_show_nat: "n < 10 ^ k \<Longrightarrow> 0 < k \<Longrightarrow> length (show_nat n) \<le> k"
proof (induction k arbitrary: n)
  case (Suc k)
  show ?case
  proof (cases "n < 10")
    case True
    then show ?thesis by (simp add: show_nat.simps [of n])
  next
    case False
    then have "0 < k" using Suc.prems by (cases k) auto
    moreover have "n div 10 < 10 ^ k" using Suc.prems(1) by (simp add: less_mult_imp_div_less mult.commute)
    ultimately have "length (show_nat (n div 10)) \<le> k" using Suc.IH by blast
    then show ?thesis using False by (simp add: show_nat.simps [of n])
  qed
qed simp

lemma read_pad_zeros [simp]: "read_nat (pad_zeros k s) = read_nat s"
proof -
  have "foldl (\<lambda>acc c. acc * 10 + digit_val c) 0 (replicate j (CHR ''0'') @ s)
      = foldl (\<lambda>acc c. acc * 10 + digit_val c) 0 s" for j
    by (induction j) (simp_all add: digit_val_def)
  then show ?thesis by (simp add: read_nat_def pad_zeros_def)
qed

lemma length_pad_zeros: "length s \<le> k \<Longrightarrow> length (pad_zeros k s) = k"
  by (simp add: pad_zeros_def)

text \<open>Retention reads the month back from the name: up to the year 9999 it is the month of the name.\<close>

lemma part_date_name: assumes "m < 120000" shows "part_date (part_name m) = m"
proof -
  have y: "length (pad_zeros 4 (show_nat (m div 12))) = 4"
    using assms by (intro length_pad_zeros length_show_nat) auto
  have mo: "length (pad_zeros 2 (show_nat (m mod 12 + 1))) = 2"
  proof (intro length_pad_zeros length_show_nat)
    have "m mod 12 < 12" by simp
    then show "m mod 12 + 1 < 10 ^ 2" by simp
  qed simp
  have d: "drop (length (part_name m) - 7) (part_name m)
      = pad_zeros 4 (show_nat (m div 12)) @ ''_'' @ pad_zeros 2 (show_nat (m mod 12 + 1))"
    using y mo by (simp add: part_name_def)
  show ?thesis unfolding part_date_def d Let_def using y by simp
qed

lemma part_name_inject: "m < 120000 \<Longrightarrow> n < 120000 \<Longrightarrow> part_name m = part_name n \<longleftrightarrow> m = n"
  by (metis part_date_name)

section \<open>Monthly tables\<close>

text \<open>Each partition is a month under its name and holds rows of that month; no month has two.\<close>

definition monthly :: "'a audit_table \<Rightarrow> bool" where
  "monthly t \<longleftrightarrow>
     (\<forall>p \<in> set (at_parts t). mp_name p = part_name (mp_from p) \<and> mp_to p = mp_from p + 1 \<and> mp_from p < 120000
        \<and> (\<forall>r \<in> set (mp_rows p). fst r = mp_from p))
     \<and> distinct (map mp_from (at_parts t))"

definition months :: "'a audit_table \<Rightarrow> nat set" where
  "months t = mp_from ` set (at_parts t)"

lemma monthly_in_range: "monthly t \<Longrightarrow> p \<in> set (at_parts t) \<Longrightarrow> in_range m p \<longleftrightarrow> mp_from p = m"
  by (auto simp: monthly_def in_range_def)

lemma monthly_has_range: "monthly t \<Longrightarrow> list_ex (in_range m) (at_parts t) \<longleftrightarrow> m \<in> months t"
  using monthly_in_range by (fastforce simp: list_ex_iff months_def)

lemma monthly_empty: "monthly \<lparr>at_parts = [], at_default = []\<rparr>" "months \<lparr>at_parts = [], at_default = []\<rparr> = {}"
  by (simp_all add: monthly_def months_def)

lemma downgrade_eq: "mset (downgrade t) = (\<Sum>p \<leftarrow> at_parts t. mset (mp_rows p)) + mset (at_default t)"
  by (simp add: downgrade_def mset_concat comp_def)

lemma insert_one_part:
  assumes "distinct (map mp_from ps)" "\<forall>p \<in> set ps. in_range (fst r) p \<longleftrightarrow> mp_from p = fst r" "\<exists>p \<in> set ps. mp_from p = fst r"
  shows "(\<Sum>p \<leftarrow> map (\<lambda>p. if in_range (fst r) p then p\<lparr>mp_rows := mp_rows p @ [r]\<rparr> else p) ps. mset (mp_rows p))
    = add_mset r (\<Sum>p \<leftarrow> ps. mset (mp_rows p))"
  using assms
proof (induction ps)
  case (Cons p ps)
  show ?case
  proof (cases "mp_from p = fst r")
    case True
    have "map (\<lambda>p. if in_range (fst r) p then p\<lparr>mp_rows := mp_rows p @ [r]\<rparr> else p) ps = ps"
    proof (rule map_idI)
      fix q assume "q \<in> set ps"
      then have "mp_from q \<noteq> fst r" using Cons.prems(1) True by (metis distinct.simps(2) image_eqI list.set_map list.simps(9))
      then show "(if in_range (fst r) q then q\<lparr>mp_rows := mp_rows q @ [r]\<rparr> else q) = q"
        using Cons.prems(2) \<open>q \<in> set ps\<close> by simp
    qed
    then show ?thesis using Cons.prems(2) True by simp
  next
    case False
    then have "\<exists>q \<in> set ps. mp_from q = fst r" using Cons.prems(3) by auto
    then show ?thesis using Cons False by simp
  qed
qed simp

lemma insert_row_monthly:
  assumes "monthly t"
  shows "monthly (insert_row r t)" "months (insert_row r t) = months t"
    "mset (downgrade (insert_row r t)) = add_mset r (mset (downgrade t))"
    "at_default (insert_row r t) = (if fst r \<in> months t then at_default t else at_default t @ [r])"
proof -
  define f where "f = (\<lambda>p :: 'a month_part. if in_range (fst r) p then p\<lparr>mp_rows := mp_rows p @ [r]\<rparr> else p)"
  have f: "mp_from (f p) = mp_from p" "mp_to (f p) = mp_to p" "mp_name (f p) = mp_name p" for p by (simp_all add: f_def)
  have ins: "insert_row r t = (if fst r \<in> months t then t\<lparr>at_parts := map f (at_parts t)\<rparr> else t\<lparr>at_default := at_default t @ [r]\<rparr>)"
    unfolding insert_row_def monthly_has_range [OF assms] f_def by simp
  have rows: "\<forall>q \<in> set (mp_rows (f p)). fst q = mp_from p" if "p \<in> set (at_parts t)" for p
    using that assms monthly_in_range [OF assms that] by (auto simp: f_def monthly_def)
  show "monthly (insert_row r t)" using assms rows by (auto simp: ins monthly_def f comp_def)
  show "months (insert_row r t) = months t" by (auto simp: ins months_def f image_image)
  show "at_default (insert_row r t) = (if fst r \<in> months t then at_default t else at_default t @ [r])" by (simp add: ins)
  show "mset (downgrade (insert_row r t)) = add_mset r (mset (downgrade t))"
  proof (cases "fst r \<in> months t")
    case True
    then have "\<exists>p \<in> set (at_parts t). mp_from p = fst r" by (auto simp: months_def)
    moreover have "distinct (map mp_from (at_parts t))" using assms by (simp add: monthly_def)
    ultimately have "(\<Sum>p \<leftarrow> map f (at_parts t). mset (mp_rows p)) = add_mset r (\<Sum>p \<leftarrow> at_parts t. mset (mp_rows p))"
      unfolding f_def using monthly_in_range [OF assms] by (intro insert_one_part) auto
    then show ?thesis using True by (simp add: downgrade_eq ins)
  qed (simp add: downgrade_eq ins)
qed

lemma insert_rows_monthly:
  "monthly t \<Longrightarrow> monthly (insert_rows rs t) \<and> months (insert_rows rs t) = months t
     \<and> mset (downgrade (insert_rows rs t)) = mset (downgrade t) + mset rs
     \<and> at_default (insert_rows rs t) = at_default t @ filter (\<lambda>r. fst r \<notin> months t) rs"
proof (induction rs arbitrary: t)
  case (Cons r rs)
  have step: "insert_rows (r # rs) t = insert_rows rs (insert_row r t)" by (simp add: insert_rows_def)
  note i = insert_row_monthly [OF Cons.prems, of r]
  show ?case unfolding step using Cons.IH [OF i(1)] i by auto
qed (simp add: insert_rows_def)

text \<open>Making a month: it succeeds exactly when the default partition has no row of it.\<close>

lemma create_month:
  assumes "monthly t" "m \<notin> months t" "m < 120000"
  shows "create_partition (part_name m) m (m + 1) t
      = (if \<exists>r \<in> set (at_default t). fst r = m
         then Inl (pg_error ''updated partition constraint for default partition inference_logs_default would be violated by some row'')
         else Inr (t\<lparr>at_parts := at_parts t @ [\<lparr>mp_name = part_name m, mp_from = m, mp_to = m + 1, mp_rows = []\<rparr>]\<rparr>))"
proof -
  have "\<not> list_ex (\<lambda>p. m < mp_to p \<and> mp_from p < m + 1) (at_parts t)"
    using monthly_has_range [OF assms(1), of m] assms(2) by (auto simp: list_ex_iff in_range_def)
  moreover have "list_ex (\<lambda>r. m \<le> fst r \<and> fst r < m + 1) (at_default t) \<longleftrightarrow> (\<exists>r \<in> set (at_default t). fst r = m)"
  proof -
    have "m \<le> k \<and> k < m + 1 \<longleftrightarrow> k = m" for k by auto
    then show ?thesis by (simp only: list_ex_iff)
  qed
  ultimately show ?thesis by (simp add: create_partition_def)
qed

lemma has_name: "monthly t \<Longrightarrow> m < 120000 \<Longrightarrow> list_ex (\<lambda>p. mp_name p = part_name m) (at_parts t) \<longleftrightarrow> m \<in> months t"
  by (auto simp: list_ex_iff months_def monthly_def part_name_inject image_iff)

lemma create_months_runs:
  assumes "monthly t" "\<forall>m \<in> set ms. m < 120000" "\<forall>r \<in> set (at_default t). fst r \<notin> set ms"
  shows "\<exists>t' created. create_months ms t = Inr (t', created) \<and> monthly t' \<and> months t' = months t \<union> set ms
    \<and> at_default t' = at_default t \<and> mset (downgrade t') = mset (downgrade t)"
  using assms
proof (induction ms arbitrary: t)
  case (Cons m ms)
  show ?case
  proof (cases "m \<in> months t")
    case True
    then have "create_months (m # ms) t = create_months ms t" using has_name [OF Cons.prems(1), of m] Cons.prems(2) by simp
    then show ?thesis using Cons True by (auto simp: insert_absorb)
  next
    case False
    let ?t = "t\<lparr>at_parts := at_parts t @ [\<lparr>mp_name = part_name m, mp_from = m, mp_to = m + 1, mp_rows = []\<rparr>]\<rparr>"
    have c: "create_partition (part_name m) m (m + 1) t = Inr ?t"
      using create_month [OF Cons.prems(1) False] Cons.prems(2,3) by auto
    have m: "monthly ?t" "months ?t = insert m (months t)" "at_default ?t = at_default t" "mset (downgrade ?t) = mset (downgrade t)"
      using Cons.prems(1,2) False by (auto simp: monthly_def months_def downgrade_eq)
    have "create_months (m # ms) t = res_bind (create_months ms ?t) (\<lambda>(t'', created). Inr (t'', part_name m # created))"
      using c False has_name [OF Cons.prems(1), of m] Cons.prems(2) by simp
    moreover obtain t' created where "create_months ms ?t = Inr (t', created)" "monthly t'" "months t' = months ?t \<union> set ms"
      "at_default t' = at_default ?t" "mset (downgrade t') = mset (downgrade ?t)"
      using Cons.IH [OF m(1)] Cons.prems(2,3) m(3) by auto
    ultimately show ?thesis using m by auto
  qed
qed simp

lemma create_months_blocked:
  assumes "monthly t" "m < 120000" "m \<notin> months t" "r \<in> set (at_default t)" "fst r = m"
  shows "create_months (m # ms) t
    = Inl (pg_error ''updated partition constraint for default partition inference_logs_default would be violated by some row'')"
proof -
  have "\<exists>r \<in> set (at_default t). fst r = m" using assms(4,5) by blast
  then show ?thesis using has_name [OF assms(1,2)] assms(3) create_month [OF assms(1,3,2)] by simp
qed

lemma drop_expired_monthly:
  assumes "monthly t" "drop_expired_inference_logs cur retain t = (t', dropped)"
  shows "monthly t'" "months t' = {m \<in> months t. int cur - int retain \<le> int m}" "at_default t' = at_default t"
    "mset (downgrade t') = mset (filter (\<lambda>r. int cur - int retain \<le> int (fst r)) (concat (map mp_rows (at_parts t)))) + mset (at_default t)"
    "dropped = map part_name (filter (\<lambda>m. int m < int cur - int retain) (map mp_from (at_parts t)))"
proof -
  define keep where "keep = (\<lambda>p :: 'a month_part. int cur - int retain \<le> int (mp_from p))"
  have date: "part_date (mp_name p) = mp_from p" if "p \<in> set (at_parts t)" for p
    using that assms(1) part_date_name [of "mp_from p"] by (simp add: monthly_def)
  have kept: "filter (\<lambda>p. \<not> int (part_date (mp_name p)) < int cur - int retain) (at_parts t) = filter keep (at_parts t)"
    by (rule filter_cong) (use date in \<open>auto simp: keep_def\<close>)
  have gone: "filter (\<lambda>p. int (part_date (mp_name p)) < int cur - int retain) (at_parts t) = filter (\<lambda>p. \<not> keep p) (at_parts t)"
    by (rule filter_cong) (use date in \<open>auto simp: keep_def\<close>)
  have t': "t' = t\<lparr>at_parts := filter keep (at_parts t)\<rparr>" "dropped = map mp_name (filter (\<lambda>p. \<not> keep p) (at_parts t))"
    using assms(2) by (auto simp: drop_expired_inference_logs_def kept gone)
  show "monthly t'" using assms(1) by (auto simp: t' monthly_def distinct_map_filter)
  show "months t' = {m \<in> months t. int cur - int retain \<le> int m}" by (auto simp: t' months_def keep_def)
  show "at_default t' = at_default t" by (simp add: t')
  have names: "map mp_name ps = map part_name (map mp_from ps)" if "set ps \<subseteq> set (at_parts t)" for ps
    using that assms(1) by (auto simp: monthly_def)
  have "map mp_from (filter (\<lambda>p. \<not> keep p) (at_parts t)) = filter (\<lambda>m. int m < int cur - int retain) (map mp_from (at_parts t))"
    by (auto simp: keep_def filter_map comp_def intro!: arg_cong [where f = "map mp_from"] filter_cong)
  then show "dropped = map part_name (filter (\<lambda>m. int m < int cur - int retain) (map mp_from (at_parts t)))"
    using names [of "filter (\<lambda>p. \<not> keep p) (at_parts t)"] by (auto simp: t')
  have "concat (map mp_rows (filter keep ps)) = filter (\<lambda>r. int cur - int retain \<le> int (fst r)) (concat (map mp_rows ps))"
    if "set ps \<subseteq> set (at_parts t)" for ps
    using that
  proof (induction ps)
    case (Cons p ps)
    have "\<forall>r \<in> set (mp_rows p). fst r = mp_from p" using Cons.prems assms(1) by (simp add: monthly_def)
    then have "filter (\<lambda>r. int cur - int retain \<le> int (fst r)) (mp_rows p) = (if keep p then mp_rows p else [])"
      by (auto simp: keep_def filter_id_conv filter_empty_conv)
    then show ?case using Cons by simp
  qed simp
  then show "mset (downgrade t') = mset (filter (\<lambda>r. int cur - int retain \<le> int (fst r)) (concat (map mp_rows (at_parts t)))) + mset (at_default t)"
    by (simp add: t' downgrade_def)
qed

lemma maintain_runs:
  assumes "monthly t" "\<not> ma_dry_run args" "cur + ma_months_ahead args < 120000"
    and "\<forall>r \<in> set (at_default t). fst r \<notin> {cur..cur + ma_months_ahead args}"
  shows "\<exists>t' r. maintain args cur t = Inr (t', r) \<and> monthly t'
    \<and> months t' = {m \<in> months t \<union> {cur..cur + ma_months_ahead args}. int cur - int (ma_retain_months args) \<le> int m}
    \<and> at_default t' = at_default t \<and> mr_default_rows r = length (at_default t)
    \<and> mset (downgrade t') = filter_mset (\<lambda>x. int cur - int (ma_retain_months args) \<le> int (fst x)) (mset (concat (map mp_rows (at_parts t)))) + mset (at_default t)"
proof -
  let ?ms = "[cur..<cur + ma_months_ahead args + 1]"
  have ms: "set ?ms = {cur..cur + ma_months_ahead args}" by auto
  have bound: "\<forall>m \<in> set ?ms. m < 120000" and free: "\<forall>r \<in> set (at_default t). fst r \<notin> set ?ms"
    unfolding ms using assms(3,4) by auto
  obtain t1 created where 1: "create_months ?ms t = Inr (t1, created)" "monthly t1" "months t1 = months t \<union> set ?ms"
    "at_default t1 = at_default t" "mset (downgrade t1) = mset (downgrade t)"
    using create_months_runs [OF assms(1) bound free] by blast
  obtain t2 dropped where 2: "drop_expired_inference_logs cur (ma_retain_months args) t1 = (t2, dropped)" by (metis surj_pair)
  note d = drop_expired_monthly [OF 1(2) 2]
  have parts: "mset (concat (map mp_rows (at_parts t1))) = mset (concat (map mp_rows (at_parts t)))"
    using 1(4,5) by (simp add: downgrade_def)
  have run: "maintain args cur t
      = Inr (t2, \<lparr>mr_created = created, mr_dropped = dropped, mr_default_rows = length (at_default t2)\<rparr>)"
    using assms(2) 1(1) 2 by (simp add: maintain_def create_inference_log_partitions_def)
  show ?thesis
    unfolding run using d(1,2,3,4) 1(3,4) parts unfolding ms
    by (intro exI [of _ t2] exI [of _ "\<lparr>mr_created = created, mr_dropped = dropped, mr_default_rows = length (at_default t2)\<rparr>"] conjI)
      (simp_all add: mset_filter)
qed

section \<open>The table over the months\<close>

text \<open>The world of the audit table: the month, the table, and, for the statements only, the last month
  with a partition that a run made or the migration left, every row ever inserted, and the first
  month no run asked to drop.\<close>

record 'a audit_world =
  aw_month :: nat
  aw_table :: "'a audit_table"
  aw_until :: nat
  aw_inserted :: "(nat \<times> 'a) multiset"
  aw_kept_from :: int

inductive audit_history :: "maintain_args \<Rightarrow> 'a audit_world \<Rightarrow> bool" for args where
  migrated: "retention_months \<le> cur \<Longrightarrow> cur + 3 < 120000 \<Longrightarrow> \<forall>r \<in> set old. fst r \<in> {cur - retention_months..cur}
    \<Longrightarrow> upgrade cur old = Inr t
    \<Longrightarrow> audit_history args \<lparr>aw_month = cur, aw_table = t, aw_until = cur + 3, aw_inserted = mset old,
          aw_kept_from = int cur - int retention_months\<rparr>"
| logged: "audit_history args w
    \<Longrightarrow> audit_history args (w\<lparr>aw_table := insert_row (aw_month w, x) (aw_table w), aw_inserted := add_mset (aw_month w, x) (aw_inserted w)\<rparr>)"
| month_ends: "audit_history args w \<Longrightarrow> aw_month w < aw_until w \<Longrightarrow> audit_history args (w\<lparr>aw_month := aw_month w + 1\<rparr>)"
| maintained: "audit_history args w \<Longrightarrow> aw_month w + ma_months_ahead args < 120000 \<Longrightarrow> maintain args (aw_month w) (aw_table w) = Inr (t', r)
    \<Longrightarrow> audit_history args (w\<lparr>aw_table := t', aw_until := max (aw_until w) (aw_month w + ma_months_ahead args),
          aw_kept_from := max (aw_kept_from w) (int (aw_month w) - int (ma_retain_months args))\<rparr>)"

definition world_ok :: "'a audit_world \<Rightarrow> bool" where
  "world_ok w \<longleftrightarrow>
     monthly (aw_table w) \<and> at_default (aw_table w) = [] \<and> {aw_month w..aw_until w} \<subseteq> months (aw_table w)
     \<and> aw_month w \<le> aw_until w \<and> aw_kept_from w \<le> int (aw_month w)
     \<and> mset (downgrade (aw_table w)) = filter_mset (\<lambda>r. aw_kept_from w \<le> int (fst r)) (aw_inserted w)"

lemma upgrade_ok:
  assumes "cur + 3 < 120000"
  shows "\<exists>t. upgrade cur old = Inr t \<and> monthly t \<and> months t = {cur - retention_months..cur + 3}
    \<and> at_default t = filter (\<lambda>r. fst r \<notin> months t) old \<and> mset (downgrade t) = mset old"
proof -
  let ?e = "\<lparr>at_parts = [], at_default = []\<rparr> :: 'a audit_table"
  let ?ms = "[cur - retention_months..<cur + 3 + 1]"
  obtain t created where t: "create_months ?ms ?e = Inr (t, created)" "monthly t" "months t = months ?e \<union> set ?ms"
    "at_default t = at_default ?e" "mset (downgrade t) = mset (downgrade ?e)"
    using create_months_runs [OF monthly_empty(1), of ?ms] assms by auto
  have m: "months t = {cur - retention_months..cur + 3}" using t(3) monthly_empty(2) by auto
  have "upgrade cur old = Inr (insert_rows old t)" using t(1) by (simp add: upgrade_def)
  then show ?thesis using insert_rows_monthly [OF t(2), of old] m t(4,5) by (auto simp: downgrade_def)
qed

lemma world_invariant:
  assumes "audit_history args w" "\<not> ma_dry_run args"
  shows "world_ok w"
  using assms
proof (induction rule: audit_history.induct)
  case (migrated cur old t)
  obtain t' where t': "upgrade cur old = Inr t'" "monthly t'" "months t' = {cur - retention_months..cur + 3}"
    "at_default t' = filter (\<lambda>r. fst r \<notin> months t') old" "mset (downgrade t') = mset old"
    using upgrade_ok [OF migrated.hyps(2), of old] by blast
  have "at_default t' = []" using t'(3,4) migrated.hyps(3) by (auto simp: filter_empty_conv)
  moreover have "filter_mset (\<lambda>r. int cur - int retention_months \<le> int (fst r)) (mset old) = mset old"
    using migrated.hyps(1,3) by (auto simp: filter_mset_eq_conv)
  ultimately show ?case using t' migrated.hyps(1,4) by (auto simp: world_ok_def)
next
  case (logged w x)
  then have ok: "world_ok w" by blast
  then have "aw_month w \<in> months (aw_table w)" by (auto simp: world_ok_def)
  then show ?case using ok insert_row_monthly [of "aw_table w" "(aw_month w, x)"] by (auto simp: world_ok_def)
next
  case (month_ends w)
  then show ?case by (auto simp: world_ok_def)
next
  case (maintained w t' r)
  have ok: "world_ok w" using maintained by blast
  let ?cut = "int (aw_month w) - int (ma_retain_months args)"
  have "\<forall>x \<in> set (at_default (aw_table w)). fst x \<notin> {aw_month w..aw_month w + ma_months_ahead args}"
    using ok by (simp add: world_ok_def)
  from maintain_runs [OF _ maintained.prems maintained.hyps(2) this] ok maintained.hyps(3)
  have t': "monthly t'" "months t' = {m \<in> months (aw_table w) \<union> {aw_month w..aw_month w + ma_months_ahead args}. ?cut \<le> int m}"
    "at_default t' = []" "mset (downgrade t') = filter_mset (\<lambda>x. ?cut \<le> int (fst x)) (mset (concat (map mp_rows (at_parts (aw_table w)))))"
    by (auto simp: world_ok_def)
  have rows: "mset (concat (map mp_rows (at_parts (aw_table w)))) = filter_mset (\<lambda>r. aw_kept_from w \<le> int (fst r)) (aw_inserted w)"
    using ok by (auto simp: world_ok_def downgrade_def)
  have "mset (downgrade t') = filter_mset (\<lambda>r. max (aw_kept_from w) ?cut \<le> int (fst r)) (aw_inserted w)"
    unfolding t'(4) rows by (simp add: filter_filter_mset conj_commute)
  moreover have "{aw_month w..max (aw_until w) (aw_month w + ma_months_ahead args)} \<subseteq> months t'"
  proof
    fix m assume m: "m \<in> {aw_month w..max (aw_until w) (aw_month w + ma_months_ahead args)}"
    have "m \<in> months (aw_table w) \<or> m \<le> aw_month w + ma_months_ahead args"
    proof (cases "m \<le> aw_until w")
      case True
      then have "m \<in> {aw_month w..aw_until w}" using m by simp
      then show ?thesis using ok unfolding world_ok_def by blast
    qed (use m in auto)
    then show "m \<in> months t'" unfolding t'(2) using m by simp
  qed
  ultimately show ?case using ok t'(1,3) by (auto simp: world_ok_def)
qed

text \<open>
  C7. Retention keeps exactly what it should. As long as a maintenance run happens before the months it
  last made run out, through any interleaving of rows, month ends and runs: no row is ever in the
  default partition, every run succeeds, and the table holds exactly the rows inserted in a month
  that no run asked to drop, each in the partition of its month.
\<close>

theorem retention_exact:
  assumes "audit_history args w" "\<not> ma_dry_run args"
  shows "at_default (aw_table w) = []
    \<and> mset (downgrade (aw_table w)) = filter_mset (\<lambda>r. aw_kept_from w \<le> int (fst r)) (aw_inserted w)
    \<and> (\<forall>p \<in> set (at_parts (aw_table w)). mp_name p = part_name (mp_from p) \<and> (\<forall>r \<in> set (mp_rows p). fst r = mp_from p))
    \<and> (aw_month w + ma_months_ahead args < 120000 \<longrightarrow>
        (\<exists>t' r. maintain args (aw_month w) (aw_table w) = Inr (t', r) \<and> mr_default_rows r = 0
           \<and> (\<forall>m. m \<in> months t' \<longrightarrow> int (aw_month w) - int (ma_retain_months args) \<le> int m)))"
proof -
  have ok: "world_ok w" using world_invariant [OF assms] .
  then have "\<forall>x \<in> set (at_default (aw_table w)). fst x \<notin> {aw_month w..aw_month w + ma_months_ahead args}"
    by (simp add: world_ok_def)
  then have "\<exists>t' r. maintain args (aw_month w) (aw_table w) = Inr (t', r) \<and> mr_default_rows r = 0
      \<and> (\<forall>m. m \<in> months t' \<longrightarrow> int (aw_month w) - int (ma_retain_months args) \<le> int m)"
    if "aw_month w + ma_months_ahead args < 120000"
    using maintain_runs [OF _ assms(2) that, of "aw_table w"] ok by (fastforce simp: world_ok_def)
  then show ?thesis using ok by (auto simp: world_ok_def monthly_def)
qed

definition default_maintenance :: maintain_args where
  "default_maintenance = \<lparr>ma_months_ahead = 3, ma_retain_months = 6, ma_dry_run = False, ma_push_metrics = True\<rparr>"

theorem retention_exact_witness:
  "\<exists>w :: string audit_world. audit_history default_maintenance w \<and> at_default (aw_table w) = [] \<and> aw_month w = 24297
     \<and> aw_inserted w = {#(24296, ''a'')#}"
proof -
  obtain t :: "string audit_table" where t: "upgrade 24296 [] = Inr t" using upgrade_ok [of 24296 "[] :: (nat \<times> string) list"] by auto
  let ?w = "\<lparr>aw_month = 24296, aw_table = t, aw_until = 24296 + 3, aw_inserted = mset [], aw_kept_from = int 24296 - int retention_months\<rparr>"
  have "audit_history default_maintenance ?w" by (rule migrated) (simp_all add: retention_months_def t)
  then have "audit_history default_maintenance (?w\<lparr>aw_table := insert_row (aw_month ?w, ''a'') (aw_table ?w),
      aw_inserted := add_mset (aw_month ?w, ''a'') (aw_inserted ?w)\<rparr>)" by (rule logged)
  then have w: "audit_history default_maintenance (?w\<lparr>aw_table := insert_row (aw_month ?w, ''a'') (aw_table ?w),
      aw_inserted := add_mset (aw_month ?w, ''a'') (aw_inserted ?w), aw_month := 24297\<rparr>)"
    by (auto dest: month_ends)
  have "\<not> ma_dry_run default_maintenance" by (simp add: default_maintenance_def)
  from retention_exact [OF w this] w show ?thesis by (intro exI conjI) (rule w, simp_all)
qed

section \<open>Falling behind\<close>

text \<open>A month in which a row arrives before the daily run of the job, and the run; then the next months.\<close>

fun lapsed_months ::
  "maintain_args \<Rightarrow> bool \<Rightarrow> nat \<Rightarrow> 'a list \<Rightarrow> 'a audit_table \<times> (nat \<times> nat \<times> nat) option
   \<Rightarrow> nat list \<times> ('a audit_table \<times> (nat \<times> nat \<times> nat) option)" where
  "lapsed_months args up m [] s = ([], s)"
| "lapsed_months args up m (x # xs) s =
     (let (code, s1) = maintenance_main args up m (insert_row (m, x) (fst s), snd s);
          (codes, s2) = lapsed_months args up (m + 1) xs s1
      in (code # codes, s2))"

lemma maintain_blocked:
  assumes "monthly t" "m < 120000" "m \<notin> months t" "\<exists>r \<in> set (at_default t). fst r = m" "\<not> ma_dry_run args"
  shows "maintain args m t
    = Inl (pg_error ''updated partition constraint for default partition inference_logs_default would be violated by some row'')"
proof -
  obtain r where r: "r \<in> set (at_default t)" "fst r = m" using assms(4) by blast
  have "[m..<m + ma_months_ahead args + 1] = m # [m + 1..<m + ma_months_ahead args + 1]" by (simp add: upt_conv_Cons)
  then have "create_inference_log_partitions m (ma_months_ahead args) t
      = Inl (pg_error ''updated partition constraint for default partition inference_logs_default would be violated by some row'')"
    unfolding create_inference_log_partitions_def using create_months_blocked [OF assms(1-3) r] by simp
  then show ?thesis using assms(5) by (simp add: maintain_def)
qed

text \<open>
  C8. A lapse of the maintenance job does not heal. Once the current month has no partition, and as long as
  some row is logged in each month before the job runs, every run fails from then on: it exits with
  1, makes and drops nothing, publishes nothing, so that the gauge the alert watches keeps its last
  value, and all rows stay in the default partition. This is so for any settings of the job.
\<close>

theorem lapse_never_heals:
  assumes "monthly t" "\<forall>k \<in> months t. k < m" "m + length xs \<le> 120000" "\<not> ma_dry_run args"
  shows "lapsed_months args up m xs (t, gauges)
    = (replicate (length xs) 1, (t\<lparr>at_default := at_default t @ zip [m..<m + length xs] xs\<rparr>, gauges))"
  using assms(1-3)
proof (induction xs arbitrary: m t)
  case (Cons x xs)
  let ?t = "t\<lparr>at_default := at_default t @ [(m, x)]\<rparr>"
  have absent: "m \<notin> months t" using Cons.prems(2) by blast
  have ins: "insert_row (m, x) t = ?t"
    using monthly_has_range [OF Cons.prems(1), of m] absent by (simp add: insert_row_def)
  have t: "monthly ?t" "months ?t = months t" using Cons.prems(1) by (simp_all add: monthly_def months_def)
  have "maintain args m ?t
      = Inl (pg_error ''updated partition constraint for default partition inference_logs_default would be violated by some row'')"
    by (rule maintain_blocked [OF t(1) _ _ _ assms(4)]) (use Cons.prems(3) absent t(2) in auto)
  then have main: "maintenance_main args up m (?t, gauges) = (1, (?t, gauges))" by (simp add: maintenance_main_def)
  have "lapsed_months args up (m + 1) xs (?t, gauges)
      = (replicate (length xs) 1, (?t\<lparr>at_default := at_default ?t @ zip [m + 1..<m + 1 + length xs] xs\<rparr>, gauges))"
    using Cons.prems t by (intro Cons.IH) auto
  then show ?case by (simp add: ins main upt_conv_Cons del: upt_Suc)
qed simp

theorem lapse_never_heals_witness:
  "\<exists>t. upgrade 24296 ([] :: (nat \<times> string) list) = Inr t
     \<and> lapsed_months default_maintenance True 24300 [''a'', ''b''] (t, Some (0, 0, 0))
       = ([1, 1], (t\<lparr>at_default := [(24300, ''a''), (24301, ''b'')]\<rparr>, Some (0, 0, 0)))"
proof -
  obtain t :: "string audit_table" where t: "upgrade 24296 [] = Inr t" "monthly t" "months t = {24296 - retention_months..24296 + 3}"
    "at_default t = []" using upgrade_ok [of 24296 "[] :: (nat \<times> string) list"] by auto
  have "\<forall>k \<in> months t. k < 24300" unfolding t(3) by simp
  moreover have "\<not> ma_dry_run default_maintenance" by (simp add: default_maintenance_def)
  ultimately have "lapsed_months default_maintenance True 24300 [''a'', ''b''] (t, Some (0, 0, 0))
      = (replicate (length [''a'', ''b'']) 1, (t\<lparr>at_default := at_default t @ zip [24300..<24300 + length [''a'', ''b'']] [''a'', ''b'']\<rparr>, Some (0, 0, 0)))"
    using t(2) by (intro lapse_never_heals) simp_all
  then show ?thesis using t(1,4) by (simp add: upt_conv_Cons)
qed

section \<open>The migration\<close>

text \<open>
  C9. The migration loses no row in either direction. Upgrading a table succeeds, whatever rows it has,
  and downgrading gives exactly its rows back; on the way each row is in the partition of its
  month, and in the default partition, which retention never drops, exactly when it is older than
  the retention or from beyond the months made ahead.
\<close>

theorem migration_roundtrip:
  assumes "cur + 3 < 120000"
  shows "\<exists>t. upgrade cur old = Inr t \<and> mset (downgrade t) = mset old
    \<and> (\<forall>p \<in> set (at_parts t). \<forall>r \<in> set (mp_rows p). fst r = mp_from p)
    \<and> at_default t = filter (\<lambda>r. fst r < cur - retention_months \<or> cur + 3 < fst r) old"
proof -
  obtain t where t: "upgrade cur old = Inr t" "monthly t" "months t = {cur - retention_months..cur + 3}"
    "at_default t = filter (\<lambda>r. fst r \<notin> months t) old" "mset (downgrade t) = mset old"
    using upgrade_ok [OF assms, of old] by blast
  have "at_default t = filter (\<lambda>r. fst r < cur - retention_months \<or> cur + 3 < fst r) old"
    unfolding t(4) t(3) by (rule filter_cong) auto
  then show ?thesis using t by (auto simp: monthly_def)
qed

theorem migration_roundtrip_witness:
  "\<exists>t. upgrade 24296 [(24296, ''a''), (24200, ''b'')] = Inr t \<and> at_default t = [(24200, ''b'')]"
proof -
  have "(24296 :: nat) + 3 < 120000" by simp
  from migration_roundtrip [OF this, of "[(24296, ''a''), (24200, ''b'')]"] show ?thesis
    by (auto simp: retention_months_def)
qed

end
