(* ===== verification/Similarity_Index.thy ===== *)
theory Similarity_Index
  imports Similarity_Service
begin

text \<open>
  The similarity index on disk (\<open>models/optimisation/export_embedding.py\<close>, \<open>scripts/build_similarity_index.py\<close>):
  building it, appending to it and relabelling its rows. An operation is the list of the files it
  writes, in order, with its result, so that a process killed in it is a prefix of that list.
  \<open>IndexFlatIP\<close> is the list of its vectors; its search stays a parameter.
\<close>

section \<open>The files\<close>

record matrix =
  mt_cols :: nat
  mt_rows :: "real list list"

record flat_index =
  fi_dim :: nat
  fi_vectors :: "real list list"

record index_metadata =
  xm_num_vectors :: int
  xm_embedding_dim :: int
  xm_metric :: string
  xm_source_model :: string
  xm_image_size :: int
  xm_index_type :: string

record index_dir =
  xd_index :: "flat_index option"
  xd_manifest :: "(int list \<times> string list) option"
  xd_metadata :: "index_metadata option"

datatype index_write =
    Write_Index flat_index
  | Write_Manifest "int list" "string list"
  | Write_Metadata index_metadata

fun apply_write :: "index_write \<Rightarrow> index_dir \<Rightarrow> index_dir" where
  "apply_write (Write_Index ix) d = d\<lparr>xd_index := Some ix\<rparr>"
| "apply_write (Write_Manifest ls ps) d = d\<lparr>xd_manifest := Some (ls, ps)\<rparr>"
| "apply_write (Write_Metadata m) d = d\<lparr>xd_metadata := Some m\<rparr>"

definition apply_writes :: "index_write list \<Rightarrow> index_dir \<Rightarrow> index_dir" where
  "apply_writes ws d = foldl (\<lambda>d w. apply_write w d) d ws"

text \<open>What \<open>SimilarityIndex.load\<close> finds in the directory \<open>art\<close>; \<open>search\<close> is FAISS on given vectors.\<close>

type_synonym searcher = "real list list \<Rightarrow> real list list \<Rightarrow> int \<Rightarrow> real list list \<times> int list list"

definition as_dict :: "index_metadata \<Rightarrow> pyval" where
  "as_dict m = PDict [(''num_vectors'', PInt (xm_num_vectors m)), (''embedding_dim'', PInt (xm_embedding_dim m)),
     (''metric'', PStr (xm_metric m)), (''source_model'', PStr (xm_source_model m)),
     (''image_size'', PInt (xm_image_size m)), (''index_type'', PStr (xm_index_type m))]"

definition missing_file :: "string \<Rightarrow> exn" where
  "missing_file what = PyExc ''FileNotFoundError'' what"

definition index_files_of :: "searcher \<Rightarrow> path \<Rightarrow> index_dir \<Rightarrow> index_files" where
  "index_files_of search art d =
     \<lparr>xf_exists = (\<lambda>p. p = art @ [''similarity.index''] \<and> xd_index d \<noteq> None
         \<or> p = art @ [''similarity_manifest.json''] \<and> xd_manifest d \<noteq> None
         \<or> p = art @ [''similarity_metadata.json''] \<and> xd_metadata d \<noteq> None),
      xf_index = (\<lambda>p. case xd_index d of
          Some ix \<Rightarrow> Inr \<lparr>fx_ntotal = int (length (fi_vectors ix)), fx_search = search (fi_vectors ix)\<rparr>
        | None \<Rightarrow> Inl (missing_file ''similarity.index'')),
      xf_manifest = (\<lambda>p. case xd_manifest d of
          Some (ls, ps) \<Rightarrow> Inr \<lparr>mf_labels = Some ls, mf_paths = Some ps\<rparr>
        | None \<Rightarrow> Inl (missing_file ''similarity_manifest.json'')),
      xf_metadata = (\<lambda>p. case xd_metadata d of
          Some m \<Rightarrow> Inr (as_dict m) | None \<Rightarrow> Inl (missing_file ''similarity_metadata.json''))\<rparr>"

section \<open>The operations\<close>

text \<open>\<open>np.allclose(norms, 1.0, atol=1e-3)\<close>, whose relative tolerance is \<open>1e-5\<close> by default.\<close>

definition norm_of :: "real list \<Rightarrow> real" where
  "norm_of v = sqrt (sum_list (map (\<lambda>x. x * x) v))"

definition unit_rows :: "real list list \<Rightarrow> bool" where
  "unit_rows rows = list_all (\<lambda>v. \<bar>norm_of v - 1\<bar> \<le> 1 / 10 ^ 3 + 1 / 10 ^ 5) rows"

definition py_value_err :: "string \<Rightarrow> exn" where
  "py_value_err m = PyExc ''ValueError'' m"

definition build_index ::
  "matrix \<Rightarrow> int list \<Rightarrow> string list \<Rightarrow> string \<Rightarrow> int \<Rightarrow> index_write list \<times> index_metadata result" where
  "build_index embeddings labels paths source_model image_size =
     (if \<not> unit_rows (mt_rows embeddings)
      then ([], Inl (py_value_err ''Embeddings are not unit-norm, so inner product will not equal cosine similarity.''))
      else
        (let index = \<lparr>fi_dim = mt_cols embeddings, fi_vectors = mt_rows embeddings\<rparr>;
             metadata = \<lparr>xm_num_vectors = int (length (mt_rows embeddings)), xm_embedding_dim = int (mt_cols embeddings),
                         xm_metric = ''cosine'', xm_source_model = source_model, xm_image_size = image_size,
                         xm_index_type = ''IndexFlatIP''\<rparr>
         in ([Write_Index index, Write_Manifest labels paths, Write_Metadata metadata], Inr metadata)))"

definition append_to_index ::
  "index_dir \<Rightarrow> matrix \<Rightarrow> int list \<Rightarrow> string list \<Rightarrow> index_write list \<times> index_metadata result" where
  "append_to_index d embeddings labels paths =
     (case xd_index d of
        None \<Rightarrow> ([], Inl (missing_file ''No index. Build one first with scripts/build_similarity_index.py.''))
      | Some index \<Rightarrow>
          if \<not> unit_rows (mt_rows embeddings)
          then ([], Inl (py_value_err (''New embeddings are not unit-norm; inner product would no longer equal cosine ''
                   @ ''similarity for these rows only, making their scores incomparable with the rest of the index.'')))
          else if fi_dim index \<noteq> mt_cols embeddings
          then ([], Inl (py_value_err (''Index has dimension '' @ show_nat (fi_dim index) @ '' but the new embeddings have ''
                   @ show_nat (mt_cols embeddings) @ ''. They come from a different model.'')))
          else
            (case xd_manifest d of
               None \<Rightarrow> ([], Inl (missing_file ''similarity_manifest.json''))
             | Some (ls, ps) \<Rightarrow>
                 (let index' = index\<lparr>fi_vectors := fi_vectors index @ mt_rows embeddings\<rparr>;
                      ls' = ls @ labels; ps' = ps @ paths
                  in if length (fi_vectors index') \<noteq> length ls'
                     then ([], Inl (PyExc ''RuntimeError'' (''Index and manifest diverged: ''
                            @ show_nat (length (fi_vectors index')) @ '' vectors against '' @ show_nat (length ls')
                            @ '' entries. Neither has been written.'')))
                     else
                       (case xd_metadata d of
                          None \<Rightarrow> ([Write_Index index', Write_Manifest ls' ps'], Inl (missing_file ''similarity_metadata.json''))
                        | Some m \<Rightarrow>
                            (let m' = m\<lparr>xm_num_vectors := int (length (fi_vectors index'))\<rparr>
                             in ([Write_Index index', Write_Manifest ls' ps', Write_Metadata m'],
                                 Inr (m'\<lparr>xm_embedding_dim := int (fi_dim index')\<rparr>)))))))"

text \<open>The loop over \<open>updates.items()\<close> and the one over the paths.\<close>

fun set_rows :: "(int, 'a) dict \<Rightarrow> 'a list \<Rightarrow> nat \<Rightarrow> ('a list \<times> nat) result" where
  "set_rows [] xs changed = Inr (xs, changed)"
| "set_rows ((row, x) # u) xs changed =
     res_bind (py_nth xs row) (\<lambda>old.
       if old \<noteq> x then set_rows u (xs[nat row := x]) (changed + 1) else set_rows u xs changed)"

definition update_index_labels ::
  "index_dir \<Rightarrow> (int, int) dict \<Rightarrow> (int, string) dict option \<Rightarrow> index_write list \<times> nat result" where
  "update_index_labels d updates path_updates =
     (case (xd_index d, xd_manifest d) of
        (Some index, Some (ls, ps)) \<Rightarrow>
          (let size = int (length (fi_vectors index));
               pu = (case path_updates of None \<Rightarrow> [] | Some p \<Rightarrow> p);
               rows = dict_keys updates @ filter (\<lambda>r. r \<notin> set (dict_keys updates)) (dict_keys pu);
               out_of_range = filter (\<lambda>row. \<not> (0 \<le> row \<and> row < size)) rows
           in if out_of_range \<noteq> []
              then ([], Inl (PyExc ''IndexError'' (''Row numbers outside the index (size '' @ show_int size @ ''): [''
                     @ join '', '' (map show_int (take 10 (sort out_of_range))) @ ''].'')))
              else
                (case res_bind (set_rows updates ls 0) (\<lambda>(ls', n). res_bind (set_rows pu ps n) (\<lambda>(ps', n'). Inr (ls', ps', n'))) of
                   Inl e \<Rightarrow> ([], Inl e)
                 | Inr (ls', ps', n) \<Rightarrow>
                     if int (length ls') \<noteq> size \<or> int (length ps') \<noteq> size
                     then ([], Inl (PyExc ''RuntimeError'' (''Manifest length ('' @ show_nat (length ls') @ '' labels, ''
                            @ show_nat (length ps') @ '' paths) does not match the index ('' @ show_int size
                            @ ''). Nothing has been written.'')))
                     else ([Write_Manifest ls' ps'], Inr n)))
      | _ \<Rightarrow> ([], Inl (missing_file ''No index or manifest'')))"

section \<open>The command line\<close>

text \<open>The files of each class directory, in order: an even sample and its labels.\<close>

definition sample_classes :: "int \<Rightarrow> string list list \<Rightarrow> (int \<times> string) list result" where
  "sample_classes num_images class_images =
     (if class_images = [] then Inl (PyExc ''ZeroDivisionError'' ''integer division or modulo by zero'')
      else
        (let per_class = nat (max 1 (num_images div int (length class_images)))
         in Inr (concat (map (\<lambda>(i, images). map (\<lambda>f. (int i, f)) (take per_class images)) (enumerate 0 class_images)))))"

text \<open>\<open>main\<close> after the embeddings: building anew from the sampled files, or appending with one label.\<close>

definition build_from_classes ::
  "(string list \<Rightarrow> matrix) \<Rightarrow> int \<Rightarrow> string list list \<Rightarrow> index_write list \<times> index_metadata result" where
  "build_from_classes embed_files num_images class_images =
     (case sample_classes num_images class_images of
        Inl e \<Rightarrow> ([], Inl e)
      | Inr files \<Rightarrow> build_index (embed_files (map snd files)) (map fst files) (map snd files) ''tiny-imagenet-embedder:v1'' 224)"

definition append_images ::
  "(string list \<Rightarrow> matrix) \<Rightarrow> int \<Rightarrow> string list \<Rightarrow> index_dir \<Rightarrow> index_write list \<times> index_metadata result" where
  "append_images embed_files append_label files d =
     (if files = [] then ([], Inl (PyExc ''SystemExit'' ''No images found''))
      else append_to_index d (embed_files files) (replicate (length files) append_label) files)"

section \<open>The index as a list of entries\<close>

text \<open>The abstract index: a vector, its label and its path for each row. The files stand for one
  exactly when they agree on their lengths.\<close>

type_synonym index_entry = "real list \<times> int \<times> string"

definition index_entries :: "index_dir \<Rightarrow> index_entry list option" where
  "index_entries d =
     (case (xd_index d, xd_manifest d, xd_metadata d) of
        (Some ix, Some (ls, ps), Some m) \<Rightarrow>
          (if length ls = length (fi_vectors ix) \<and> length ps = length (fi_vectors ix)
              \<and> xm_num_vectors m = int (length (fi_vectors ix))
           then Some (zip (fi_vectors ix) (zip ls ps)) else None)
      | _ \<Rightarrow> None)"

definition relabel :: "(int, int) dict \<Rightarrow> (int, string) dict \<Rightarrow> index_entry list \<Rightarrow> index_entry list" where
  "relabel updates path_updates es =
     map (\<lambda>(i, v, l, p). (v, case dict_get updates (int i) of Some l' \<Rightarrow> l' | None \<Rightarrow> l,
                            case dict_get path_updates (int i) of Some p' \<Rightarrow> p' | None \<Rightarrow> p)) (enumerate 0 es)"

lemma index_entries_Some:
  "index_entries d = Some es \<longleftrightarrow>
     (\<exists>ix ls ps m. xd_index d = Some ix \<and> xd_manifest d = Some (ls, ps) \<and> xd_metadata d = Some m
        \<and> length ls = length (fi_vectors ix) \<and> length ps = length (fi_vectors ix)
        \<and> xm_num_vectors m = int (length (fi_vectors ix)) \<and> es = zip (fi_vectors ix) (zip ls ps))"
  by (auto simp: index_entries_def split: option.splits)

lemma apply_writes_simps [simp]:
  "apply_writes [] d = d" "apply_writes (w # ws) d = apply_writes ws (apply_write w d)"
  by (simp_all add: apply_writes_def)

text \<open>The loop over a dictionary's rows against its map.\<close>

lemma set_rows_spec:
  assumes "dict_wf u" "\<forall>r \<in> set (dict_keys u). 0 \<le> r \<and> r < int (length xs)"
  shows "set_rows u xs n
    = Inr (map (\<lambda>i. case dict_get u (int i) of Some x \<Rightarrow> x | None \<Rightarrow> xs ! i) [0..<length xs],
           n + length (filter (\<lambda>(r, x). xs ! nat r \<noteq> x) u))"
  using assms
proof (induction u arbitrary: xs n)
  case Nil
  then show ?case by (simp add: map_nth)
next
  case (Cons rx u)
  obtain r x where rx: "rx = (r, x)" by (cases rx)
  have r: "0 \<le> r" "r < int (length xs)" "r \<notin> set (dict_keys u)" "dict_wf u" using Cons.prems by (auto simp: rx dict_wf_def)
  then have get: "py_nth xs r = Inr (xs ! nat r)" by (simp add: py_nth_in)
  have other: "nat r' \<noteq> nat r" if "(r', y) \<in> set u" for r' y
  proof -
    have "r' \<in> set (dict_keys u)" using that by (metis fst_conv image_eqI list.set_map)
    then have "r' \<noteq> r" "0 \<le> r'" using r(3) Cons.prems(2) by (auto simp: rx)
    then show ?thesis using r(1) by simp
  qed
  have same: "filter (\<lambda>(r', y). xs[nat r := x] ! nat r' \<noteq> y) u = filter (\<lambda>(r', y). xs ! nat r' \<noteq> y) u"
    by (rule filter_cong) (auto dest: other)
  have upd: "(case dict_get u (int i) of Some y \<Rightarrow> y | None \<Rightarrow> xs[nat r := x] ! i)
      = (case dict_get (rx # u) (int i) of Some y \<Rightarrow> y | None \<Rightarrow> xs ! i)" if "i < length xs" for i
  proof (cases "int i = r")
    case True
    then have "dict_get u (int i) = None" using r(3) by (simp add: map_of_eq_None_iff)
    moreover have "nat r = i" using True by auto
    ultimately show ?thesis using True that by (simp add: rx nth_list_update)
  next
    case False
    then have "i \<noteq> nat r" using r(1) by auto
    then show ?thesis using False by (simp add: rx split: option.split)
  qed
  have len: "\<forall>r' \<in> set (dict_keys u). 0 \<le> r' \<and> r' < int (length (xs[nat r := x]))" using Cons.prems(2) by simp
  have ys: "map (\<lambda>i. case dict_get u (int i) of Some y \<Rightarrow> y | None \<Rightarrow> xs[nat r := x] ! i) [0..<length xs]
      = map (\<lambda>i. case dict_get (rx # u) (int i) of Some y \<Rightarrow> y | None \<Rightarrow> xs ! i) [0..<length xs]"
    using upd by simp
  show ?case
  proof (cases "xs ! nat r = x")
    case True
    then have "xs[nat r := x] = xs" using r(1,2) by (metis list_update_id)
    then show ?thesis using Cons.IH [OF r(4), of "xs[nat r := x]" n] len ys True get by (simp add: rx)
  next
    case False
    then show ?thesis using Cons.IH [OF r(4), of "xs[nat r := x]" "n + 1"] len ys get same by (simp add: rx)
  qed
qed

lemma append_cases:
  assumes "append_to_index d emb labels paths = (ws, r)" "index_entries d = Some es" "length paths = length labels"
  shows "(\<exists>e. r = Inl e \<and> ws = []) \<or>
    (\<exists>ix ls ps m m' md. r = Inr md \<and> xd_index d = Some ix \<and> xd_manifest d = Some (ls, ps) \<and> xd_metadata d = Some m
       \<and> length ls = length (fi_vectors ix) \<and> length ps = length (fi_vectors ix)
       \<and> length labels = length (mt_rows emb) \<and> xm_num_vectors md = int (length (fi_vectors ix @ mt_rows emb)) \<and> es = zip (fi_vectors ix) (zip ls ps)
       \<and> m' = m\<lparr>xm_num_vectors := int (length (fi_vectors ix @ mt_rows emb))\<rparr>
       \<and> ws = [Write_Index (ix\<lparr>fi_vectors := fi_vectors ix @ mt_rows emb\<rparr>), Write_Manifest (ls @ labels) (ps @ paths), Write_Metadata m'])"
  using assms unfolding append_to_index_def index_entries_Some
  by (auto simp: Let_def split: if_splits option.splits prod.splits)

lemma update_cases:
  assumes "update_index_labels d updates path_updates = (ws, r)" "index_entries d = Some es"
    and "dict_wf updates" "\<forall>pu. path_updates = Some pu \<longrightarrow> dict_wf pu"
  defines "pu \<equiv> (case path_updates of None \<Rightarrow> [] | Some p \<Rightarrow> p)"
  shows "(\<exists>e. r = Inl e \<and> ws = []) \<or>
    (\<exists>ix ls ps m ls' ps'. r = Inr (length (filter (\<lambda>(r, x). ls ! nat r \<noteq> x) updates) + length (filter (\<lambda>(r, x). ps ! nat r \<noteq> x) pu))
       \<and> xd_index d = Some ix \<and> xd_manifest d = Some (ls, ps) \<and> xd_metadata d = Some m
       \<and> length ls = length (fi_vectors ix) \<and> length ps = length (fi_vectors ix)
       \<and> xm_num_vectors m = int (length (fi_vectors ix)) \<and> es = zip (fi_vectors ix) (zip ls ps)
       \<and> ls' = map (\<lambda>i. case dict_get updates (int i) of Some x \<Rightarrow> x | None \<Rightarrow> ls ! i) [0..<length ls]
       \<and> ps' = map (\<lambda>i. case dict_get pu (int i) of Some x \<Rightarrow> x | None \<Rightarrow> ps ! i) [0..<length ps]
       \<and> ws = [Write_Manifest ls' ps']
       \<and> (\<forall>row \<in> set (dict_keys updates) \<union> set (dict_keys pu). 0 \<le> row \<and> row < int (length es)))"
proof -
  from assms(2) obtain ix ls ps m where d: "xd_index d = Some ix" "xd_manifest d = Some (ls, ps)" "xd_metadata d = Some m"
    "length ls = length (fi_vectors ix)" "length ps = length (fi_vectors ix)" "xm_num_vectors m = int (length (fi_vectors ix))"
    "es = zip (fi_vectors ix) (zip ls ps)" unfolding index_entries_Some by blast
  have wf: "dict_wf pu" using assms(4) by (auto simp: pu_def split: option.split)
  let ?rows = "dict_keys updates @ filter (\<lambda>r. r \<notin> set (dict_keys updates)) (dict_keys pu)"
  let ?bad = "filter (\<lambda>row. \<not> (0 \<le> row \<and> row < int (length (fi_vectors ix)))) ?rows"
  show ?thesis
  proof (cases "?bad = []")
    case False
    then show ?thesis using assms(1) unfolding update_index_labels_def d(1,2) option.case prod.case Let_def pu_def [symmetric] by auto
  next
    case True
    have ok: "\<forall>row \<in> set (dict_keys updates) \<union> set (dict_keys pu). 0 \<le> row \<and> row < int (length (fi_vectors ix))"
    proof
      fix row assume "row \<in> set (dict_keys updates) \<union> set (dict_keys pu)"
      then have "row \<in> set ?rows" unfolding set_append set_filter by blast
      then show "0 \<le> row \<and> row < int (length (fi_vectors ix))" using True unfolding filter_empty_conv by blast
    qed
    have u: "set_rows updates ls 0 = Inr (map (\<lambda>i. case dict_get updates (int i) of Some x \<Rightarrow> x | None \<Rightarrow> ls ! i) [0..<length ls],
        0 + length (filter (\<lambda>(r, x). ls ! nat r \<noteq> x) updates))"
      using ok d(4) by (intro set_rows_spec assms(3)) auto
    have p: "set_rows pu ps n = Inr (map (\<lambda>i. case dict_get pu (int i) of Some x \<Rightarrow> x | None \<Rightarrow> ps ! i) [0..<length ps],
        n + length (filter (\<lambda>(r, x). ps ! nat r \<noteq> x) pu))" for n
      using ok d(5) by (intro set_rows_spec wf) auto
    have es: "length es = length (fi_vectors ix)" using d(4,5,7) by simp
    show ?thesis using assms(1) True d ok es
      unfolding update_index_labels_def d(1,2) option.case prod.case Let_def pu_def [symmetric] u p
      by auto
  qed
qed

lemma map_update_zip:
  assumes "length ls = n" "length ps = n" "length vs = n"
  shows "zip vs (zip (map (\<lambda>i. case dict_get u (int i) of Some x \<Rightarrow> x | None \<Rightarrow> ls ! i) [0..<n])
      (map (\<lambda>i. case dict_get pu (int i) of Some x \<Rightarrow> x | None \<Rightarrow> ps ! i) [0..<n]))
    = relabel u pu (zip vs (zip ls ps))"
  using assms by (intro nth_equalityI) (auto simp: relabel_def nth_enumerate_eq split: option.split)

lemma append_refines:
  assumes "append_to_index d emb labels paths = (ws, r)" "index_entries d = Some es" "length paths = length labels"
  shows "index_entries (apply_writes ws d) = Some (case r of Inl _ \<Rightarrow> es | Inr _ \<Rightarrow> es @ zip (mt_rows emb) (zip labels paths))
    \<and> (case r of Inl _ \<Rightarrow> ws = [] | Inr m \<Rightarrow> xm_num_vectors m = int (length es + length labels))"
  using append_cases [OF assms]
proof (elim disjE exE conjE)
  fix ix ls ps m m' md
  assume r: "r = Inr md" and "xd_index d = Some ix" "xd_manifest d = Some (ls, ps)" "xd_metadata d = Some m"
    and len: "length ls = length (fi_vectors ix)" "length ps = length (fi_vectors ix)" "length labels = length (mt_rows emb)"
    "xm_num_vectors md = int (length (fi_vectors ix @ mt_rows emb))"
    and es: "es = zip (fi_vectors ix) (zip ls ps)"
    and m': "m' = m\<lparr>xm_num_vectors := int (length (fi_vectors ix @ mt_rows emb))\<rparr>"
    and ws: "ws = [Write_Index (ix\<lparr>fi_vectors := fi_vectors ix @ mt_rows emb\<rparr>), Write_Manifest (ls @ labels) (ps @ paths), Write_Metadata m']"
  have "index_entries (apply_writes ws d) = Some (es @ zip (mt_rows emb) (zip labels paths))"
    using len assms(3) by (simp add: ws m' es index_entries_Some zip_append)
  then show ?thesis using len es by (simp add: r)
qed (use assms(2) in simp)

lemma update_refines:
  assumes "update_index_labels d updates (Some path_updates) = (ws, r)" "index_entries d = Some es"
    and "dict_wf updates" "dict_wf path_updates"
  shows "index_entries (apply_writes ws d) = Some (case r of Inl _ \<Rightarrow> es | Inr _ \<Rightarrow> relabel updates path_updates es)
    \<and> (case r of Inl _ \<Rightarrow> ws = []
       | Inr n \<Rightarrow> n = length (filter (\<lambda>(i, l). fst (snd (es ! nat i)) \<noteq> l) updates)
                    + length (filter (\<lambda>(i, p). snd (snd (es ! nat i)) \<noteq> p) path_updates))"
proof -
  have wf: "\<forall>pu. Some path_updates = Some pu \<longrightarrow> dict_wf pu" using assms(4) by simp
  from update_cases [OF assms(1,2,3) wf] show ?thesis
  proof (elim disjE exE conjE, goal_cases)
    case (1 e)
    then show ?thesis using assms(2) by simp
  next
    case (2 ix ls ps m ls' ps')
    have ids: "index_entries (apply_writes ws d) = Some (relabel updates path_updates es)"
      using 2(5-12) map_update_zip [OF 2(5,6) refl, of updates path_updates] 2(2-4) by (simp add: index_entries_Some)
    have in_range: "0 \<le> i \<and> nat i < length (fi_vectors ix)" if "i \<in> set (dict_keys updates) \<union> set (dict_keys path_updates)" for i
    proof -
      have "0 \<le> i \<and> i < int (length es)" using bspec [OF 2(12), of i] that by simp
      moreover have "length es = length (fi_vectors ix)" using 2(5,6,8) by simp
      ultimately show ?thesis by auto
    qed
    have l: "filter (\<lambda>(i, l). fst (snd (es ! nat i)) \<noteq> l) updates = filter (\<lambda>(r, x). ls ! nat r \<noteq> x) updates"
    proof (rule filter_cong [OF refl])
      fix rx assume rx: "rx \<in> set updates"
      have "nat (fst rx) < length (fi_vectors ix)" using in_range [of "fst rx"] rx by simp
      then show "(case rx of (i, l) \<Rightarrow> fst (snd (es ! nat i)) \<noteq> l) = (case rx of (r, x) \<Rightarrow> ls ! nat r \<noteq> x)"
        using 2(5,6,8) by (auto split: prod.split)
    qed
    have p: "filter (\<lambda>(i, p). snd (snd (es ! nat i)) \<noteq> p) path_updates = filter (\<lambda>(r, x). ps ! nat r \<noteq> x) path_updates"
    proof (rule filter_cong [OF refl])
      fix rx assume rx: "rx \<in> set path_updates"
      have "nat (fst rx) < length (fi_vectors ix)" using in_range [of "fst rx"] rx by simp
      then show "(case rx of (i, l) \<Rightarrow> snd (snd (es ! nat i)) \<noteq> l) = (case rx of (r, x) \<Rightarrow> ps ! nat r \<noteq> x)"
        using 2(5,6,8) by (auto split: prod.split)
    qed
    show ?thesis using ids 2(1) unfolding l p by simp
  qed
qed

lemma zip_columns:
  assumes "length ls = length vs" "length ps = length vs"
  shows "map (fst \<circ> snd) (zip vs (zip ls ps)) = ls" "map (snd \<circ> snd) (zip vs (zip ls ps)) = ps"
proof -
  have "map snd (zip vs (zip ls ps)) = zip ls ps" "map fst (zip ls ps) = ls" "map snd (zip ls ps) = ps" using assms by simp_all
  then show "map (fst \<circ> snd) (zip vs (zip ls ps)) = ls" "map (snd \<circ> snd) (zip vs (zip ls ps)) = ps"
    by (simp_all flip: map_map)
qed

lemma load_synced:
  assumes "xd_index d = Some ix" "xd_manifest d = Some (ls, ps)" "xd_metadata d = Some m" "length ls = length (fi_vectors ix)"
  shows "\<exists>sx. similarity_load (index_files_of search art d) art = Inr sx \<and> sx_labels sx = ls \<and> sx_paths sx = ps
    \<and> index_size sx = int (length (fi_vectors ix))"
  using assms by (simp add: similarity_load_def index_files_of_def required_def index_size_def)

lemma load_of_entries:
  assumes "index_entries d = Some es"
  shows "\<exists>ix. similarity_load (index_files_of search art d) art = Inr ix
    \<and> sx_labels ix = map (fst \<circ> snd) es \<and> sx_paths ix = map (snd \<circ> snd) es \<and> index_size ix = int (length es)"
proof -
  obtain ix ls ps m where d: "xd_index d = Some ix" "xd_manifest d = Some (ls, ps)" "xd_metadata d = Some m"
    "length ls = length (fi_vectors ix)" "length ps = length (fi_vectors ix)" "es = zip (fi_vectors ix) (zip ls ps)"
    using assms unfolding index_entries_Some by blast
  have "map (fst \<circ> snd) es = ls" "map (snd \<circ> snd) es = ps" using zip_columns [OF d(4,5)] d(6) by simp_all
  moreover have "length es = length (fi_vectors ix)" using d(4-6) by simp
  ultimately show ?thesis using load_synced [OF d(1-4), of search art] by simp
qed


definition demo_metadata :: index_metadata where
  "demo_metadata = \<lparr>xm_num_vectors = 1, xm_embedding_dim = 2, xm_metric = ''cosine'', xm_source_model = ''e:v1'',
     xm_image_size = 224, xm_index_type = ''IndexFlatIP''\<rparr>"

definition demo_dir :: index_dir where
  "demo_dir = \<lparr>xd_index = Some \<lparr>fi_dim = 2, fi_vectors = [[1, 0]]\<rparr>, xd_manifest = Some ([3], [''a.png'']),
     xd_metadata = Some demo_metadata\<rparr>"

definition demo_matrix :: matrix where
  "demo_matrix = \<lparr>mt_cols = 2, mt_rows = [[0, 1]]\<rparr>"

lemma demo_entries: "index_entries demo_dir = Some [([1, 0], 3, ''a.png'')]"
  by (simp add: index_entries_Some demo_dir_def demo_metadata_def)


section \<open>Crashes\<close>

text \<open>
  C15. A crash while appending is never served as an index with wrong labels. Whatever prefix of its
  writes an append of at least one row has made, the service either loads the old entries, or
  loads the new ones, or refuses to load because the files are out of sync.
\<close>

theorem append_crash_detected:
  assumes "index_entries d = Some es" "append_to_index d emb labels paths = (ws, r)" "length paths = length labels"
    and "mt_rows emb \<noteq> []" "n \<le> length ws"
  shows "(case similarity_load (index_files_of search art (apply_writes (take n ws) d)) art of
      Inr ix \<Rightarrow> \<exists>es' \<in> {es, es @ zip (mt_rows emb) (zip labels paths)}.
        sx_labels ix = map (fst \<circ> snd) es' \<and> sx_paths ix = map (snd \<circ> snd) es' \<and> index_size ix = int (length es')
    | Inl e \<Rightarrow> \<exists>m. e = ApiExc (api_error_init ModelUnavailableError (Some m) (Some []) None None))"
proof -
  have old: ?thesis if "apply_writes (take n ws) d = d"
    using load_of_entries [OF assms(1), of search art] that by auto
  from append_cases [OF assms(2,1,3)] show ?thesis
  proof (elim disjE exE conjE)
    fix e assume "ws = []"
    then show ?thesis using old by simp
  next
    fix ix ls ps m m' md
    assume r: "r = Inr md" and d: "xd_index d = Some ix" "xd_manifest d = Some (ls, ps)" "xd_metadata d = Some m"
      and len: "length ls = length (fi_vectors ix)" "length ps = length (fi_vectors ix)" "length labels = length (mt_rows emb)"
      and es: "es = zip (fi_vectors ix) (zip ls ps)"
      and ws: "ws = [Write_Index (ix\<lparr>fi_vectors := fi_vectors ix @ mt_rows emb\<rparr>), Write_Manifest (ls @ labels) (ps @ paths), Write_Metadata m']"
    have new: "es @ zip (mt_rows emb) (zip labels paths) = zip (fi_vectors ix @ mt_rows emb) (zip (ls @ labels) (ps @ paths))"
      using len assms(3) by (simp add: es zip_append)
    have cols: "map (fst \<circ> snd) (zip (fi_vectors ix @ mt_rows emb) (zip (ls @ labels) (ps @ paths))) = ls @ labels"
      "map (snd \<circ> snd) (zip (fi_vectors ix @ mt_rows emb) (zip (ls @ labels) (ps @ paths))) = ps @ paths"
      using len assms(3) by (intro zip_columns, simp, simp)+
    have loaded: ?thesis if "xd_index (apply_writes (take n ws) d) = Some (ix\<lparr>fi_vectors := fi_vectors ix @ mt_rows emb\<rparr>)"
      "xd_manifest (apply_writes (take n ws) d) = Some (ls @ labels, ps @ paths)" "xd_metadata (apply_writes (take n ws) d) = Some mm" for mm
    proof -
      let ?es' = "es @ zip (mt_rows emb) (zip labels paths)"
      have "length (ls @ labels) = length (fi_vectors (ix\<lparr>fi_vectors := fi_vectors ix @ mt_rows emb\<rparr>))" using len by simp
      from load_synced [OF that this, of search art] obtain sx where
        sx: "similarity_load (index_files_of search art (apply_writes (take n ws) d)) art = Inr sx"
        "sx_labels sx = ls @ labels" "sx_paths sx = ps @ paths" "index_size sx = int (length (fi_vectors ix @ mt_rows emb))" by auto
      have "sx_labels sx = map (fst \<circ> snd) ?es'" "sx_paths sx = map (snd \<circ> snd) ?es'"
        unfolding new sx(2,3) cols by (rule refl)+
      moreover have "index_size sx = int (length ?es')" using sx(4) len assms(3) by (simp add: es)
      ultimately show ?thesis unfolding sx(1) sum.case by blast
    qed
    consider "n = 0" | "n = 1" | "n = 2" | "n = 3" using assms(5) unfolding ws by fastforce
    then show ?thesis
    proof cases
      case 1
      then show ?thesis using old by simp
    next
      case 2
      have "length (fi_vectors ix @ mt_rows emb) \<noteq> length ls" using assms(4) len by simp
      then show ?thesis using d 2
        by (simp add: ws similarity_load_def index_files_of_def required_def) (rule exI, rule refl)
    next
      case 3
      show ?thesis by (rule loaded [of m]) (simp_all add: ws d 3)
    next
      case 4
      show ?thesis by (rule loaded [of m']) (simp_all add: ws 4)
    qed
  qed
qed

theorem append_crash_detected_witness:
  "\<exists>ws m. append_to_index demo_dir demo_matrix [5] [''b.png''] = (ws, Inr m)
     \<and> (\<exists>text. similarity_load (index_files_of (\<lambda>_ _ _. ([], [])) [] (apply_writes (take 1 ws) demo_dir)) []
          = Inl (ApiExc (api_error_init ModelUnavailableError (Some text) (Some []) None None)))"
proof -
  let ?ix = "\<lparr>fi_dim = 2, fi_vectors = [[1, 0], [0, 1]]\<rparr>"
  have "unit_rows [[0, 1]]" by (simp add: unit_rows_def norm_of_def)
  then obtain ws m where a: "append_to_index demo_dir demo_matrix [5] [''b.png''] = (ws, Inr m)" "length ws = 3"
    "take 1 ws = [Write_Index ?ix]"
    by (simp add: append_to_index_def demo_dir_def demo_matrix_def Let_def)
  have load: "\<exists>e. similarity_load (index_files_of (\<lambda>_ _ _. ([], [])) [] (apply_writes (take 1 ws) demo_dir)) [] = Inl e"
    unfolding a(3) by (simp add: similarity_load_def index_files_of_def required_def demo_dir_def)
  have "length [''b.png''] = length [5 :: int]" "mt_rows demo_matrix \<noteq> []" "1 \<le> length ws"
    using a(2) by (simp_all add: demo_matrix_def)
  from append_crash_detected [OF demo_entries a(1) this, of "\<lambda>_ _ _. ([], [])" "[]"] a(1) load show ?thesis
    by (auto split: sum.splits)
qed

text \<open>Rebuilding an index over one of the same size is not protected in this way: after a crash between
  the first two writes the new vectors are served with the old labels.\<close>

lemma rebuild_crash_undetected:
  assumes "index_entries d = Some es" "unit_rows (mt_rows emb)" "length (mt_rows emb) = length es"
    and "build_index emb labels paths model sz = (ws, r)"
  shows "\<exists>ix. similarity_load (index_files_of search art (apply_writes (take 1 ws) d)) art = Inr ix
    \<and> sx_labels ix = map (fst \<circ> snd) es \<and> fx_search (sx_index ix) = search (mt_rows emb)"
proof -
  obtain ix ls ps m where d: "xd_index d = Some ix" "xd_manifest d = Some (ls, ps)" "xd_metadata d = Some m"
    "length ls = length (fi_vectors ix)" "length ps = length (fi_vectors ix)" "es = zip (fi_vectors ix) (zip ls ps)"
    using assms(1) unfolding index_entries_Some by blast
  have ws: "take 1 ws = [Write_Index \<lparr>fi_dim = mt_cols emb, fi_vectors = mt_rows emb\<rparr>]"
    using assms(2,4) by (auto simp: build_index_def Let_def)
  have "map (fst \<circ> snd) es = ls" using zip_columns [OF d(4,5)] d(6) by simp
  moreover have "length (mt_rows emb) = length ls" using assms(3) d(4-6) by simp
  ultimately show ?thesis using d(1-3) unfolding ws
    by (simp add: similarity_load_def index_files_of_def required_def)
qed

section \<open>Unlabelled images\<close>

text \<open>
  An unlabelled image is served under the name of the last class. Images appended with the label the
  command line documents for unlabelled ones, \<open>-1\<close>, are appended with that label; when the
  search finds one, the response names it by the last class of the label list, since Python reads
  index \<open>-1\<close> as the last element, with class number \<open>-1\<close>.
\<close>

theorem unlabelled_named_last:
  assumes "index_entries d = Some es" "append_images embed_files (-1) files d = (ws, Inr m)"
    and "i < length files" "class_names \<noteq> []" "-1 \<le> score" "score \<le> 1" "t \<le> score"
  shows "\<exists>ix. similarity_load (index_files_of search art (apply_writes ws d)) art = Inr ix
    \<and> collect_similar ix class_names t [] [(score, int (length es + i))]
      = Inr [\<lparr>si_rank = 1, si_similarity = py_round 6 score, si_label = last class_names, si_class_id = -1,
              si_reference = files ! i\<rparr>]"
proof -
  have a: "append_to_index d (embed_files files) (replicate (length files) (-1)) files = (ws, Inr m)"
    using assms(2,3) by (auto simp: append_images_def split: if_splits)
  let ?new = "zip (mt_rows (embed_files files)) (zip (replicate (length files) (-1)) files)"
  have e: "index_entries (apply_writes ws d) = Some (es @ ?new)" using append_refines [OF a assms(1)] by simp
  have len: "length (mt_rows (embed_files files)) = length files"
    using append_cases [OF a assms(1)] by auto
  obtain ix where ix: "similarity_load (index_files_of search art (apply_writes ws d)) art = Inr ix"
    "sx_labels ix = map (fst \<circ> snd) (es @ ?new)" "sx_paths ix = map (snd \<circ> snd) (es @ ?new)"
    using load_of_entries [OF e, of search art] by blast
  have row: "sx_labels ix ! (length es + i) = -1" "sx_paths ix ! (length es + i) = files ! i"
    "length (sx_labels ix) = length es + length files" "length (sx_paths ix) = length es + length files"
    using assms(3) len by (simp_all add: ix(2,3) nth_append)
  have at: "py_nth (sx_labels ix) (int (length es + i)) = Inr (-1)" "py_nth (sx_paths ix) (int (length es + i)) = Inr (files ! i)"
    using assms(3) row by (subst py_nth_in; simp add: nat_int_add)+
  have "Suc 0 \<le> length class_names" using assms(4) by (simp add: Suc_le_eq)
  then have name: "class_name_of class_names (-1) = Inr (last class_names)"
    using assms(4) by (auto simp: class_name_of_def py_nth_def Let_def last_conv_nth nat_diff_distrib)
  have "similar_ok \<lparr>si_rank = 1, si_similarity = py_round 6 score, si_label = last class_names, si_class_id = -1,
      si_reference = files ! i\<rparr>"
    using py_round_between [of "-1" score 1 6] assms(5,6) by (simp add: similar_ok_def)
  then have "collect_similar ix class_names t [] [(score, int (length es + i))]
      = Inr [\<lparr>si_rank = 1, si_similarity = py_round 6 score, si_label = last class_names, si_class_id = -1,
              si_reference = files ! i\<rparr>]"
    using assms(7) at name by (simp add: make_similar_def)
  then show ?thesis using ix(1) by blast
qed

theorem unlabelled_named_last_witness:
  "\<exists>ix ws. similarity_load (index_files_of (\<lambda>_ _ _. ([], [])) [] (apply_writes ws demo_dir)) [] = Inr ix
     \<and> collect_similar ix [''cat'', ''dog''] 0 [] [(1/2, 1)]
       = Inr [\<lparr>si_rank = 1, si_similarity = py_round 6 (1/2), si_label = ''dog'', si_class_id = -1, si_reference = ''new.png''\<rparr>]"
proof -
  have "unit_rows [[0, 1]]" by (simp add: unit_rows_def norm_of_def)
  then obtain ws m where a: "append_images (\<lambda>_. demo_matrix) (-1) [''new.png''] demo_dir = (ws, Inr m)"
    by (simp add: append_images_def append_to_index_def demo_dir_def demo_matrix_def Let_def)
  from unlabelled_named_last [OF demo_entries a, of 0 "[''cat'', ''dog'']" "1/2" 0 "\<lambda>_ _ _. ([], [])" "[]"]
  show ?thesis by auto
qed

section \<open>The sample\<close>

text \<open>A build takes the same number of images from each class, as far as it has them, and gives each
  the number of its class directory.\<close>

lemma sample_even:
  assumes "sample_classes num_images class_images = Inr files" "i < length class_images"
  shows "length (filter (\<lambda>f. fst f = int i) files)
    = min (nat (max 1 (num_images div int (length class_images)))) (length (class_images ! i))"
proof -
  define k where "k = nat (max 1 (num_images div int (length class_images)))"
  have files: "files = concat (map (\<lambda>(i, images). map (\<lambda>f. (int i, f)) (take k images)) (enumerate 0 class_images))"
    using assms by (auto simp: sample_classes_def k_def Let_def split: if_splits)
  have "length (filter (\<lambda>f. fst f = int j) (concat (map (\<lambda>(i, images). map (\<lambda>f. (int i, f)) (take k images)) (enumerate n cs))))
      = (if n \<le> j \<and> j < n + length cs then min k (length (cs ! (j - n))) else 0)" for j n cs
  proof (induction cs arbitrary: n)
    case (Cons c cs)
    have "length (filter (\<lambda>f. fst f = int j) (map (\<lambda>f. (int n, f)) (take k c))) = (if j = n then min k (length c) else 0)"
      by (auto simp: filter_map comp_def filter_id_conv filter_empty_conv)
    then show ?case using Cons by (auto simp: nth_Cons' Suc_le_eq)
  qed simp
  from this [of i 0 class_images] assms(2) show ?thesis by (simp add: files k_def)
qed

end
