(* ===== verification/Benchmark.thy ===== *)
theory Benchmark
  imports Runtime "HOL-Library.Product_Lexorder"
begin

text \<open>
  The latency harness (\<open>models/optimisation/benchmark.py\<close>): timing a call after warmup, the summary of
  the timings, the PyTorch and ONNX Runtime measurements with the check of the provider that was
  selected, preloading of TensorRT, and the Markdown report with its speedups. The machine is a
  state that the measured calls change; its clock, the forward pass of the model, the
  synchronisation of CUDA and ONNX Runtime are parameters. Writing the JSON report and reading the
  versions of the environment are left out.
\<close>

section \<open>Results\<close>

definition default_warmup :: int where
  "default_warmup = 20"

definition default_iterations :: int where
  "default_iterations = 100"

record latency_result =
  lt_backend :: string
  lt_precision :: string
  lt_batch_size :: int
  lt_device :: string
  lt_mean_ms :: real
  lt_std_ms :: real
  lt_p50_ms :: real
  lt_p95_ms :: real
  lt_p99_ms :: real
  lt_min_ms :: real
  lt_max_ms :: real
  lt_throughput_ips :: real
  lt_iterations :: nat
  lt_warmup :: int
  lt_model :: string
  lt_model_size_mb :: "real option"
  lt_accuracy_top1 :: "real option"
  lt_notes :: string

definition per_image_ms :: "latency_result \<Rightarrow> real result" where
  "per_image_ms r =
     (if lt_batch_size r = 0 then Inl zero_division else Inr (lt_mean_ms r / of_int (lt_batch_size r)))"

record benchmark_report =
  bp_results :: "latency_result list"
  bp_environment :: "(string, pyval) dict"
  bp_generated_at :: string

section \<open>Summaries\<close>

text \<open>\<open>percentile\<close> inside \<open>_summarise\<close>; the list is not empty there.\<close>

definition rank_index :: "nat \<Rightarrow> real \<Rightarrow> nat" where
  "rank_index n p = nat (min (py_trunc (of_nat n * p)) (int n - 1))"

definition percentile :: "real list \<Rightarrow> real \<Rightarrow> real" where
  "percentile ordered p = ordered ! rank_index (length ordered) p"

definition fmean :: "real list \<Rightarrow> real" where
  "fmean xs = sum_list xs / of_nat (length xs)"

definition stdev :: "real list \<Rightarrow> real" where
  "stdev xs = sqrt (sum_list (map (\<lambda>x. (x - fmean xs)\<^sup>2) xs) / of_nat (length xs - 1))"

definition summarise ::
  "real list \<Rightarrow> string \<Rightarrow> string \<Rightarrow> int \<Rightarrow> string \<Rightarrow> int \<Rightarrow> real option \<Rightarrow> latency_result result" where
  "summarise timings_ms backend precision batch_size device warmup model_size_mb =
     (if timings_ms = [] then Inl (PyExc ''StatisticsError'' ''fmean requires at least one data point'')
      else
        (let ordered = sort timings_ms; mean_ms = fmean timings_ms
         in if mean_ms = 0 then Inl zero_division
            else Inr \<lparr>lt_backend = backend, lt_precision = precision, lt_batch_size = batch_size, lt_device = device,
                   lt_mean_ms = mean_ms, lt_std_ms = (if 1 < length timings_ms then stdev timings_ms else 0),
                   lt_p50_ms = percentile ordered (50 / 100), lt_p95_ms = percentile ordered (95 / 100),
                   lt_p99_ms = percentile ordered (99 / 100), lt_min_ms = hd ordered, lt_max_ms = last ordered,
                   lt_throughput_ips = of_int batch_size * 1000 / mean_ms, lt_iterations = length timings_ms,
                   lt_warmup = warmup, lt_model = ''classifier'', lt_model_size_mb = model_size_mb,
                   lt_accuracy_top1 = None, lt_notes = []\<rparr>))"

section \<open>Timing\<close>

text \<open>A call changes the state of the machine and may raise.\<close>

type_synonym 'w call = "'w \<Rightarrow> 'w \<times> unit result"

fun warm_up :: "'w call \<Rightarrow> nat \<Rightarrow> 'w \<Rightarrow> 'w \<times> unit result" where
  "warm_up fn 0 w = (w, Inr ())"
| "warm_up fn (Suc n) w = (case fn w of (w', Inl e) \<Rightarrow> (w', Inl e) | (w', Inr _) \<Rightarrow> warm_up fn n w')"

definition sync_with :: "('w \<Rightarrow> 'w) option \<Rightarrow> 'w \<Rightarrow> 'w" where
  "sync_with synchronise w = (case synchronise of None \<Rightarrow> w | Some s \<Rightarrow> s w)"

fun timed_runs ::
  "('w \<Rightarrow> real) \<Rightarrow> 'w call \<Rightarrow> ('w \<Rightarrow> 'w) option \<Rightarrow> nat \<Rightarrow> 'w \<Rightarrow> 'w \<times> real list result" where
  "timed_runs clock fn synchronise 0 w = (w, Inr [])"
| "timed_runs clock fn synchronise (Suc n) w =
     (case fn w of
        (w', Inl e) \<Rightarrow> (w', Inl e)
      | (w', Inr _) \<Rightarrow>
          (let w'' = sync_with synchronise w'; t = (clock w'' - clock w) * 1000
           in case timed_runs clock fn synchronise n w'' of
                (v, Inl e) \<Rightarrow> (v, Inl e)
              | (v, Inr ts) \<Rightarrow> (v, Inr (t # ts))))"

definition time_callable ::
  "('w \<Rightarrow> real) \<Rightarrow> 'w call \<Rightarrow> int \<Rightarrow> int \<Rightarrow> ('w \<Rightarrow> 'w) option \<Rightarrow> 'w \<Rightarrow> 'w \<times> real list result" where
  "time_callable clock fn warmup iterations synchronise w =
     (case warm_up fn (nat warmup) w of
        (w', Inl e) \<Rightarrow> (w', Inl e)
      | (w', Inr _) \<Rightarrow> timed_runs clock fn synchronise (nat iterations) (sync_with synchronise w'))"

section \<open>Measurements\<close>

text \<open>A session: the providers in use, the names of its inputs, and a run on random images of a
  batch and image size. What a machine offers: the clock, the forward pass of the model at hand
  (compiled or not, on a device, in a precision of autocast), the synchronisation, sessions for a
  list of providers with options, and sizes of files.\<close>

type_synonym provider = "string \<times> (string, pyval) dict"

record 'w onnx_session =
  os_providers :: "string list"
  os_inputs :: "string list"
  os_run :: "int \<Rightarrow> int \<Rightarrow> 'w call"

record 'w machine =
  mc_clock :: "'w \<Rightarrow> real"
  mc_torch :: "bool \<Rightarrow> string \<Rightarrow> string option \<Rightarrow> int \<Rightarrow> int \<Rightarrow> 'w call"
  mc_cuda_sync :: "'w \<Rightarrow> 'w"
  mc_session :: "path list \<Rightarrow> path \<Rightarrow> provider list \<Rightarrow> 'w onnx_session result"
  mc_size :: "path \<Rightarrow> int"
  mc_linker :: runtime_env

record 'w bench_state =
  bs_world :: 'w
  bs_libs :: "path list"

definition torch_backend :: "string \<Rightarrow> bool \<Rightarrow> string" where
  "torch_backend device compile_model =
     (let device_tag = (if starts_with device ''cuda'' then ''cuda'' else ''cpu'')
      in if compile_model then ''pytorch-'' @ device_tag @ ''-compiled'' else ''pytorch-'' @ device_tag)"

definition autocast_dtype :: "string \<Rightarrow> string option" where
  "autocast_dtype precision =
     (if precision = ''bf16'' then Some ''bfloat16'' else if precision = ''fp16'' then Some ''float16'' else None)"

definition benchmark_torch ::
  "'w machine \<Rightarrow> int \<Rightarrow> int \<Rightarrow> string \<Rightarrow> string \<Rightarrow> int \<Rightarrow> int \<Rightarrow> bool
   \<Rightarrow> 'w bench_state \<Rightarrow> 'w bench_state \<times> latency_result result" where
  "benchmark_torch M batch_size image_size device precision warmup iterations compile_model s =
     (let warmup = (if compile_model then max warmup 30 else warmup);
          run = mc_torch M compile_model device (autocast_dtype precision) batch_size image_size;
          synchronise = (if starts_with device ''cuda'' then Some (mc_cuda_sync M) else None)
      in case time_callable (mc_clock M) run warmup iterations synchronise (bs_world s) of
           (w, Inl e) \<Rightarrow> (s\<lparr>bs_world := w\<rparr>, Inl e)
         | (w, Inr timings) \<Rightarrow>
             (s\<lparr>bs_world := w\<rparr>, summarise timings (torch_backend device compile_model) precision batch_size device warmup None))"

text \<open>\<open>dict.setdefault\<close>, and the options of the TensorRT provider.\<close>

definition dict_setdefault :: "'k \<Rightarrow> 'v \<Rightarrow> ('k, 'v) dict \<Rightarrow> ('k, 'v) dict" where
  "dict_setdefault k v d = (if dict_get d k = None then dict_set k v d else d)"

definition tensorrt_options :: "string \<Rightarrow> path \<Rightarrow> (string, pyval) dict \<Rightarrow> (string, pyval) dict" where
  "tensorrt_options precision cache options =
     dict_setdefault ''trt_int8_enable'' (PBool (precision = ''int8''))
       (dict_setdefault ''trt_fp16_enable'' (PBool (precision = ''fp16''))
         (dict_setdefault ''trt_engine_cache_path'' (PStr (join ''/'' cache))
           (dict_setdefault ''trt_engine_cache_enable'' (PBool True) options)))"

definition onnx_backend :: "string \<Rightarrow> string" where
  "onnx_backend provider =
     (if provider = cpu_provider then ''onnxruntime-cpu''
      else if provider = cuda_provider then ''onnxruntime-cuda''
      else if provider = tensorrt_provider then ''onnxruntime-tensorrt''
      else provider)"

definition provider_list :: "string \<Rightarrow> (string, pyval) dict \<Rightarrow> provider list" where
  "provider_list provider options =
     (provider, options) # (if provider \<noteq> cpu_provider then [(cpu_provider, [])] else [])"

definition benchmark_onnx ::
  "'w machine \<Rightarrow> path \<Rightarrow> int \<Rightarrow> int \<Rightarrow> string \<Rightarrow> string \<Rightarrow> int \<Rightarrow> int \<Rightarrow> (string, pyval) dict \<Rightarrow> path option
   \<Rightarrow> 'w bench_state \<Rightarrow> 'w bench_state \<times> latency_result result" where
  "benchmark_onnx M model_path batch_size image_size provider precision warmup iterations provider_options trt_cache_dir s =
     (let trt = (provider = tensorrt_provider);
          cache = (case trt_cache_dir of Some c \<Rightarrow> c | None \<Rightarrow> butlast model_path @ [''trt_cache'']);
          options = (if trt then tensorrt_options precision cache provider_options else provider_options);
          warmup = (if trt then max warmup 5 else warmup);
          libs = (if trt then fst (preload_tensorrt_libraries (mc_linker M) (bs_libs s))
                  else if provider \<noteq> cpu_provider then fst (preload_cuda_libraries (mc_linker M) (bs_libs s))
                  else bs_libs s);
          s = s\<lparr>bs_libs := libs\<rparr>
      in case mc_session M libs model_path (provider_list provider options) of
           Inl e \<Rightarrow> (s, Inl e)
         | Inr session \<Rightarrow>
             (case os_providers session of
                [] \<Rightarrow> (s, Inl index_error)
              | actual # _ \<Rightarrow>
                  if actual \<noteq> provider
                  then (s, Inl (PyExc ''RuntimeError''
                         (''Requested provider '' @ provider @ '' but ONNX Runtime selected '' @ actual @ ''. Available: ''
                          @ repr_strs (os_providers session) @ ''. Benchmarking would silently measure the wrong backend.'')))
                  else if os_inputs session = [] then (s, Inl index_error)
                  else
                    (case time_callable (mc_clock M) (os_run session batch_size image_size) warmup iterations None (bs_world s) of
                       (w, Inl e) \<Rightarrow> (s\<lparr>bs_world := w\<rparr>, Inl e)
                     | (w, Inr timings) \<Rightarrow>
                         (s\<lparr>bs_world := w\<rparr>,
                          summarise timings (onnx_backend provider) precision batch_size
                            (if provider = cpu_provider then ''cpu'' else ''cuda'') warmup
                            (Some (py_round 1 (of_int (mc_size M model_path) / 1000000)))))))"

section \<open>TensorRT libraries\<close>

definition trt_search_dirs :: "(string \<Rightarrow> path option) \<Rightarrow> path list" where
  "trt_search_dirs package_dir =
     (case package_dir ''tensorrt_libs'' of Some d \<Rightarrow> [d] | None \<Rightarrow> [])
     @ (case package_dir ''nvidia'' of Some d \<Rightarrow> [d @ [''cudnn'', ''lib'']] | None \<Rightarrow> [])"

definition required_libraries :: "string list" where
  "required_libraries = [''libcudnn.so.9'', ''libnvinfer.so.10'', ''libnvonnxparser.so.10'']"

fun load_required :: "runtime_env \<Rightarrow> path list \<Rightarrow> string list \<Rightarrow> path list \<Rightarrow> path list \<times> bool" where
  "load_required env search_dirs [] libs = (libs, True)"
| "load_required env search_dirs (name # names) libs =
     (case find (env_path_exists env) (map (\<lambda>d. d @ [name]) search_dirs) of
        None \<Rightarrow> (libs, False)
      | Some path \<Rightarrow>
          if env_cdll env libs path then load_required env search_dirs names (libs @ [path]) else (libs, False))"

definition ensure_tensorrt_loadable :: "runtime_env \<Rightarrow> (string \<Rightarrow> path option) \<Rightarrow> path list \<Rightarrow> path list \<times> bool" where
  "ensure_tensorrt_loadable env package_dir libs =
     (let search_dirs = trt_search_dirs package_dir
      in if search_dirs = [] then (libs, False) else load_required env search_dirs required_libraries libs)"

section \<open>The Markdown report\<close>

text \<open>The mean of the baseline for a model and batch size; of several rows the last one counts.\<close>

definition effective_baseline :: "string \<Rightarrow> latency_result list \<Rightarrow> string" where
  "effective_baseline baseline_backend results =
     (if baseline_backend \<notin> set (map lt_backend results) then ''pytorch-cpu'' else baseline_backend)"

definition baselines_of :: "string \<Rightarrow> string \<Rightarrow> latency_result list \<Rightarrow> (string \<times> int, real) dict" where
  "baselines_of backend precision results =
     fold (\<lambda>r. dict_set (lt_model r, lt_batch_size r) (lt_mean_ms r))
       (filter (\<lambda>r. lt_backend r = backend \<and> lt_precision r = precision) results) []"

definition speedup_of :: "(string \<times> int, real) dict \<Rightarrow> latency_result \<Rightarrow> real option result" where
  "speedup_of baselines r =
     (case dict_get baselines (lt_model r, lt_batch_size r) of
        None \<Rightarrow> Inr None
      | Some base \<Rightarrow>
          if base = 0 then Inr None
          else if lt_mean_ms r = 0 then Inl zero_division
          else Inr (Some (base / lt_mean_ms r)))"

definition cells :: "string list \<Rightarrow> string" where
  "cells xs = ''| '' @ join '' | '' xs @ '' |''"

definition latency_row :: "(string \<times> int, real) dict \<Rightarrow> latency_result \<Rightarrow> string result" where
  "latency_row baselines r =
     res_bind (speedup_of baselines r) (\<lambda>speedup.
     res_bind (per_image_ms r) (\<lambda>per_image.
     Inr (cells [lt_model r, lt_backend r, lt_precision r, show_int (lt_batch_size r), fmt_fixed 2 (lt_mean_ms r),
       fmt_fixed 2 (lt_p50_ms r), fmt_fixed 2 (lt_p95_ms r), fmt_fixed 2 (lt_p99_ms r), fmt_fixed 2 (lt_std_ms r),
       fmt_fixed 1 (lt_throughput_ips r), fmt_fixed 2 per_image,
       (case speedup of None \<Rightarrow> ''-'' | Some x \<Rightarrow> fmt_fixed 2 x @ ''x''),
       (case lt_model_size_mb r of None \<Rightarrow> ''-'' | Some x \<Rightarrow> fmt_fixed 1 x)])))"

definition report_key :: "latency_result \<Rightarrow> bool \<times> string \<times> int \<times> real" where
  "report_key r = (lt_model r \<noteq> ''classifier'', lt_model r, lt_batch_size r, lt_mean_ms r)"

definition accuracy_lines :: "latency_result list \<Rightarrow> string list" where
  "accuracy_lines results =
     (let accuracy_rows = filter (\<lambda>r. lt_accuracy_top1 r \<noteq> None) results
      in if accuracy_rows = [] then []
         else [[], ''## Accuracy'', [], ''| Backend | Precision | Top-1 | Notes |'', ''| --- | --- | ---: | --- |'']
              @ map (\<lambda>r. cells [lt_backend r, lt_precision r,
                      fmt_fixed 2 ((case lt_accuracy_top1 r of Some x \<Rightarrow> x | None \<Rightarrow> 0) * 100) @ ''%'', lt_notes r]) accuracy_rows)"

definition format_markdown_report ::
  "(pyval \<Rightarrow> string) \<Rightarrow> benchmark_report \<Rightarrow> string \<Rightarrow> string \<Rightarrow> string result" where
  "format_markdown_report py_str report baseline_backend baseline_precision =
     (let results = bp_results report;
          value_text = (\<lambda>v. case v of PList vs \<Rightarrow> join '', '' (map py_str vs) | _ \<Rightarrow> py_str v);
          head_lines =
            [''# Inference Performance Benchmarks'', [], ''Generated: '' @ bp_generated_at report, [], ''## Environment'', [],
             ''| Property | Value |'', ''| --- | --- |'']
            @ map (\<lambda>(key, value). cells [key, value_text value]) (bp_environment report);
          backend = effective_baseline baseline_backend results;
          baselines = baselines_of backend baseline_precision results;
          latency_head =
            [[], ''## Latency'', [],
             ''All timings exclude warmup and synchronise the device before stopping the clock. Speedup is relative to `''
               @ backend @ ''` ('' @ baseline_precision @ '') at the same batch size.'', [],
             ''| Model | Backend | Precision | Batch | Mean (ms) | p50 | p95 | p99 | Std | ''
               @ ''Throughput (img/s) | Per-image (ms) | Speedup | Size (MB) |'',
             ''| --- | --- | --- | ---: | ---: | ---: | ---: | ---: | ---: | ---: | ---: | ---: | ---: |'']
      in res_bind (map_res (latency_row baselines) (sort_key report_key results)) (\<lambda>rows.
         Inr (join [CHR 0x0A] (head_lines @ latency_head @ rows @ accuracy_lines results) @ [CHR 0x0A])))"

section \<open>Facts on summaries\<close>

lemma rank_index_bounds:
  assumes "0 \<le> p" "p \<le> 1" "0 < n"
  shows "rank_index n p < n" "real (rank_index n p) \<le> of_nat n * p" "of_nat n * p \<le> real (rank_index n p) + 1"
proof -
  let ?x = "of_nat n * p :: real"
  have x: "0 \<le> ?x" "?x \<le> of_nat n" using assms by (simp_all add: mult_left_le)
  have i: "rank_index n p = nat (min \<lfloor>?x\<rfloor> (int n - 1))"
    using x(1) by (simp add: rank_index_def py_trunc_def)
  have r: "real (rank_index n p) = of_int (min \<lfloor>?x\<rfloor> (int n - 1))"
    using x(1) assms(3) by (simp add: i)
  have "min \<lfloor>?x\<rfloor> (int n - 1) < int n" by simp
  then show "rank_index n p < n" using assms(3) by (simp add: i)
  show "real (rank_index n p) \<le> ?x" unfolding r by linarith
  show "?x \<le> real (rank_index n p) + 1"
  proof (cases "\<lfloor>?x\<rfloor> \<le> int n - 1")
    case True
    then show ?thesis unfolding r by (simp add: min_absorb1)
  next
    case False
    then have "min \<lfloor>?x\<rfloor> (int n - 1) = int n - 1" by simp
    then show ?thesis unfolding r using x(2) by simp
  qed
qed

lemma rank_index_mono: "p \<le> q \<Longrightarrow> 0 \<le> p \<Longrightarrow> rank_index n p \<le> rank_index n q"
  unfolding rank_index_def py_trunc_def
  by (auto intro!: nat_mono min.mono floor_mono mult_left_mono simp: zero_le_mult_iff)

lemma rank_index_99:
  assumes "0 < n" "n \<le> 100" shows "rank_index n (99 / 100) = n - 1"
proof -
  have "int n - 1 \<le> \<lfloor>real n * (99 / 100)\<rfloor>" using assms by (intro le_floor_iff [THEN iffD2]) simp
  then show ?thesis using assms(1) by (simp add: rank_index_def py_trunc_def nat_diff_distrib)
qed

lemma sorted_above:
  assumes "sorted xs" "i < length xs" shows "length (filter (\<lambda>x. xs ! i < x) xs) \<le> length xs - 1 - i"
proof -
  have "filter (\<lambda>x. xs ! i < x) (take (Suc i) xs) = []"
    using assms by (auto simp: filter_empty_conv in_set_conv_nth not_less intro!: sorted_nth_mono)
  then have "filter (\<lambda>x. xs ! i < x) xs = filter (\<lambda>x. xs ! i < x) (drop (Suc i) xs)"
    by (metis append_self_conv2 append_take_drop_id filter_append)
  then show ?thesis by (metis length_drop length_filter_le diff_diff_left plus_1_eq_Suc)
qed

lemma sorted_below:
  assumes "sorted xs" "i < length xs" shows "length (filter (\<lambda>x. x < xs ! i) xs) \<le> i"
proof -
  have "filter (\<lambda>x. x < xs ! i) (drop i xs) = []"
    using assms by (auto simp: filter_empty_conv in_set_conv_nth not_less intro!: sorted_nth_mono)
  then have "filter (\<lambda>x. x < xs ! i) xs = filter (\<lambda>x. x < xs ! i) (take i xs)"
    by (metis append_Nil2 append_take_drop_id filter_append)
  then show ?thesis by (metis length_filter_le length_take min.cobounded2 order_trans)
qed

text \<open>A percentile is one of the timings, exceeded by at most the share \<open>1 - p\<close> of them and above at
  most the share \<open>p\<close>.\<close>

lemma percentile_counts:
  assumes "xs \<noteq> []" "0 \<le> p" "p \<le> 1"
  shows "percentile (sort xs) p \<in> set xs"
    "real (length (filter (\<lambda>x. percentile (sort xs) p < x) xs)) \<le> (1 - p) * of_nat (length xs)"
    "real (length (filter (\<lambda>x. x < percentile (sort xs) p) xs)) \<le> p * of_nat (length xs)"
proof -
  let ?i = "rank_index (length xs) p" and ?ys = "sort xs"
  have n: "0 < length xs" using assms(1) by simp
  note b = rank_index_bounds [OF assms(2,3) n]
  have f: "length (filter P ?ys) = length (filter P xs)" for P by (simp add: filter_sort)
  show "percentile ?ys p \<in> set xs" using b(1) by (metis length_sort nth_mem percentile_def set_sort)
  have "length (filter (\<lambda>x. ?ys ! ?i < x) xs) \<le> length xs - 1 - ?i"
    using sorted_above [of ?ys ?i] b(1) by (simp add: f)
  then have "real (length (filter (\<lambda>x. ?ys ! ?i < x) xs)) \<le> real (length xs) - 1 - real ?i"
    using b(1) by linarith
  then show "real (length (filter (\<lambda>x. percentile ?ys p < x) xs)) \<le> (1 - p) * of_nat (length xs)"
    using b(3) by (simp add: percentile_def algebra_simps)
  have "length (filter (\<lambda>x. x < ?ys ! ?i) xs) \<le> ?i"
    using sorted_below [of ?ys ?i] b(1) by (simp add: f)
  then show "real (length (filter (\<lambda>x. x < percentile ?ys p) xs)) \<le> p * of_nat (length xs)"
    using b(2) by (simp add: percentile_def algebra_simps)
qed

lemma percentile_mono:
  assumes "xs \<noteq> []" "0 \<le> p" "p \<le> q" "q \<le> 1" shows "percentile (sort xs) p \<le> percentile (sort xs) q"
  using rank_index_mono [OF assms(3,2), of "length xs"] rank_index_bounds(1) [of q "length xs"] assms
  by (auto simp: percentile_def intro!: sorted_nth_mono)

lemma hd_sort_Min: "xs \<noteq> [] \<Longrightarrow> hd (sort xs) = Min (set xs)"
  for xs :: "'a :: linorder list"
proof -
  assume "xs \<noteq> []"
  then have n: "sort xs \<noteq> []" by (metis length_0_conv length_sort)
  then obtain y ys where "sort xs = y # ys" by (cases "sort xs") auto
  moreover from this have "sorted (y # ys)" by (metis sorted_sort)
  ultimately show ?thesis by (metis Min_eqI List.finite_set list.sel(1) list.set_intros(1) set_sort sorted_simps(2) set_ConsD order_refl)
qed

lemma last_sort_Max: "xs \<noteq> [] \<Longrightarrow> last (sort xs) = Max (set xs)"
  for xs :: "'a :: linorder list"
proof -
  assume "xs \<noteq> []"
  then have n: "sort xs \<noteq> []" by (metis length_0_conv length_sort)
  have "y \<le> last (sort xs)" if "y \<in> set xs" for y
  proof -
    from that have "y \<in> set (sort xs)" by simp
    then obtain i where i: "i < length (sort xs)" "sort xs ! i = y" by (auto simp only: in_set_conv_nth)
    then have "i \<le> length (sort xs) - 1" "length (sort xs) - 1 < length (sort xs)" by simp_all
    then have "sort xs ! i \<le> sort xs ! (length (sort xs) - 1)" by (intro sorted_nth_mono) simp_all
    then show ?thesis using i(2) n by (metis last_conv_nth)
  qed
  moreover have "last (sort xs) \<in> set xs" using last_in_set [OF n] by simp
  ultimately show ?thesis by (metis List.finite_set Max_eqI)
qed

lemma fmean_between:
  assumes "xs \<noteq> []" shows "Min (set xs) \<le> fmean xs" "fmean xs \<le> Max (set xs)"
proof -
  have "sum_list (map (\<lambda>_. Min (set xs)) xs) \<le> sum_list (map (\<lambda>x. x) xs)" by (rule sum_list_mono) simp
  then show "Min (set xs) \<le> fmean xs" using assms by (simp add: fmean_def sum_list_triv field_simps)
  have "sum_list (map (\<lambda>x. x) xs) \<le> sum_list (map (\<lambda>_. Max (set xs)) xs)" by (rule sum_list_mono) simp
  then show "fmean xs \<le> Max (set xs)" using assms by (simp add: fmean_def sum_list_triv field_simps)
qed

lemma summarise_cases:
  "summarise ts b pr n dv wu sz = Inr r \<longleftrightarrow>
     ts \<noteq> [] \<and> fmean ts \<noteq> 0
     \<and> r = \<lparr>lt_backend = b, lt_precision = pr, lt_batch_size = n, lt_device = dv,
         lt_mean_ms = fmean ts, lt_std_ms = (if 1 < length ts then stdev ts else 0),
         lt_p50_ms = percentile (sort ts) (50 / 100), lt_p95_ms = percentile (sort ts) (95 / 100),
         lt_p99_ms = percentile (sort ts) (99 / 100), lt_min_ms = Min (set ts), lt_max_ms = Max (set ts),
         lt_throughput_ips = of_int n * 1000 / fmean ts, lt_iterations = length ts,
         lt_warmup = wu, lt_model = ''classifier'', lt_model_size_mb = sz, lt_accuracy_top1 = None, lt_notes = []\<rparr>"
  by (auto simp: summarise_def Let_def hd_sort_Min last_sort_Max)

text \<open>
  The statistics of a measurement are statistics of its timings: minimum and maximum are, the mean
  lies between them, p50, p95 and p99 are in this order, each is one of the timings, at most the
  share 50, 5 and 1 percent of the timings exceeds it and at most 50, 95 and 99 percent are below
  it; up to 100 timings p99 is the maximum; the throughput is the images of a batch in the mean
  time. A measurement fails exactly without timings or with a mean of zero.
\<close>

theorem latency_summary_sound:
  "(case summarise ts backend precision batch_size device warmup size_mb of
      Inl e \<Rightarrow> ts = [] \<or> fmean ts = 0
    | Inr r \<Rightarrow>
        (\<forall>(p, x) \<in> {(50 / 100, lt_p50_ms r), (95 / 100, lt_p95_ms r), (99 / 100, lt_p99_ms r)}.
           x \<in> set ts
           \<and> real (length (filter (\<lambda>t. x < t) ts)) \<le> (1 - p) * real (length ts)
           \<and> real (length (filter (\<lambda>t. t < x) ts)) \<le> p * real (length ts))
        \<and> lt_min_ms r = Min (set ts) \<and> lt_max_ms r = Max (set ts)
        \<and> lt_min_ms r \<le> lt_p50_ms r \<and> lt_p50_ms r \<le> lt_p95_ms r \<and> lt_p95_ms r \<le> lt_p99_ms r \<and> lt_p99_ms r \<le> lt_max_ms r
        \<and> lt_min_ms r \<le> lt_mean_ms r \<and> lt_mean_ms r \<le> lt_max_ms r
        \<and> (length ts \<le> 100 \<longrightarrow> lt_p99_ms r = lt_max_ms r)
        \<and> lt_throughput_ips r * lt_mean_ms r = of_int batch_size * 1000 \<and> lt_iterations r = length ts)"
proof (cases "summarise ts backend precision batch_size device warmup size_mb")
  case (Inl e)
  then show ?thesis by (auto simp: summarise_def Let_def split: if_splits)
next
  case (Inr r)
  then have ts: "ts \<noteq> []" and m: "fmean ts \<noteq> 0" by (simp_all add: summarise_cases)
  note c = percentile_counts [OF ts]
  have r: "lt_p50_ms r = percentile (sort ts) (50 / 100)" "lt_p95_ms r = percentile (sort ts) (95 / 100)"
    "lt_p99_ms r = percentile (sort ts) (99 / 100)" "lt_min_ms r = Min (set ts)" "lt_max_ms r = Max (set ts)"
    "lt_mean_ms r = fmean ts" "lt_throughput_ips r = of_int batch_size * 1000 / fmean ts" "lt_iterations r = length ts"
    using Inr by (simp_all add: summarise_cases)
  have p99: "percentile (sort ts) (99 / 100) = Max (set ts)" if "length ts \<le> 100"
  proof -
    have "sort ts \<noteq> []" using ts by (metis length_0_conv length_sort)
    then have "last (sort ts) = sort ts ! (length ts - 1)" by (simp add: last_conv_nth)
    then show ?thesis using that ts last_sort_Max [OF ts] rank_index_99 [of "length ts"] by (simp add: percentile_def)
  qed
  have all: "\<forall>(p, x) \<in> {(50 / 100, lt_p50_ms r), (95 / 100, lt_p95_ms r), (99 / 100, lt_p99_ms r)}.
       x \<in> set ts \<and> real (length (filter (\<lambda>t. x < t) ts)) \<le> (1 - p) * real (length ts)
       \<and> real (length (filter (\<lambda>t. t < x) ts)) \<le> p * real (length ts)"
    unfolding r using c [of "50 / 100"] c [of "95 / 100"] c [of "99 / 100"] by simp
  have "Min (set ts) \<le> percentile (sort ts) (50 / 100)" "percentile (sort ts) (99 / 100) \<le> Max (set ts)"
    using c(1) by simp_all
  moreover have "fmean ts * (of_int batch_size * 1000 / fmean ts) = of_int batch_size * 1000" using m by simp
  ultimately show ?thesis
    unfolding Inr sum.case
    using all p99 fmean_between [OF ts] percentile_mono [OF ts, of "50 / 100" "95 / 100"]
      percentile_mono [OF ts, of "95 / 100" "99 / 100"]
    by (intro conjI impI) (simp_all add: r mult.commute)
qed

theorem latency_summary_sound_witness:
  "\<exists>r. summarise [5, 2, 4, 3] ''onnxruntime-cuda'' ''fp32'' 1 ''cuda'' 20 None = Inr r \<and> lt_p99_ms r = lt_max_ms r \<and> lt_p50_ms r \<le> lt_p95_ms r
     \<and> length (filter (\<lambda>t. lt_p50_ms r < t) [5, 2, 4, 3]) \<le> 2"
proof -
  have f: "fmean [5, 2, 4, 3] = 7 / 2" by (simp add: fmean_def)
  then obtain r where "summarise [5, 2, 4, 3] ''onnxruntime-cuda'' ''fp32'' 1 ''cuda'' 20 None = Inr r" by (simp add: summarise_cases)
  then show ?thesis
    using latency_summary_sound [where ts = "[5, 2, 4, 3]" and backend = "''onnxruntime-cuda''" and precision = "''fp32''" and batch_size = 1
        and device = "''cuda''" and warmup = 20 and size_mb = None] by auto
qed

text \<open>The index is the nearest rank or one above it: above exactly when the share of the timings is a
  whole number, as 99 of the default 100 timings are.\<close>

lemma rank_index_nearest:
  assumes "0 < p" "p < 1" "0 < n"
  shows "int (rank_index n p) = (if of_int \<lfloor>of_nat n * p\<rfloor> = of_nat n * p then \<lceil>of_nat n * p\<rceil> else \<lceil>of_nat n * p\<rceil> - 1)"
proof -
  have x: "0 < of_nat n * p" "of_nat n * p < of_nat n" using assms by simp_all
  then have "\<lfloor>of_nat n * p\<rfloor> \<le> int n - 1" by linarith
  then have "int (rank_index n p) = \<lfloor>of_nat n * p\<rfloor>" using x(1) by (simp add: rank_index_def py_trunc_def)
  then show ?thesis by (auto simp: ceiling_altdef)
qed

section \<open>Facts on timing\<close>

lemma warm_up_ok:
  assumes "\<And>w. I w \<Longrightarrow> \<exists>w'. fn w = (w', Inr ()) \<and> I w'" "I w"
  shows "\<exists>w'. warm_up fn n w = (w', Inr ()) \<and> I w'"
  using assms(2)
proof (induction n arbitrary: w)
  case (Suc n)
  from assms(1) [OF Suc.prems] obtain w' where "fn w = (w', Inr ())" "I w'" by blast
  with Suc.IH show ?case by simp
qed simp

lemma timed_runs_const:
  assumes "\<And>w. I w \<Longrightarrow> \<exists>w'. fn w = (w', Inr ()) \<and> I (sync_with sync w') \<and> clock (sync_with sync w') = clock w + t" "I w"
  shows "\<exists>w'. timed_runs clock fn sync n w = (w', Inr (replicate n (t * 1000))) \<and> I w'"
  using assms(2)
proof (induction n arbitrary: w)
  case (Suc n)
  from assms(1) [OF Suc.prems] obtain w' where w': "fn w = (w', Inr ())" "I (sync_with sync w')"
    "clock (sync_with sync w') = clock w + t" by blast
  with Suc.IH show ?case by fastforce
qed simp

lemma fmean_replicate [simp]: "0 < n \<Longrightarrow> fmean (replicate n x) = x"
  by (simp add: fmean_def sum_list_replicate)

text \<open>
  A CUDA measurement times the execution of the model, not its launch. On a device where a forward
  pass takes \<open>launch\<close> seconds to submit \<open>work\<close> seconds of computation, and synchronising waits for what
  is pending, every timing is launch plus work, whatever was pending before and however long the
  warmup, so all the statistics say it; timing the same calls without synchronising would report
  the launch alone. The label of the row carries the device and the compilation.
\<close>

theorem cuda_timing_synchronised:
  assumes "\<And>w. \<exists>w'. mc_torch M compile ''cuda'' (autocast_dtype precision) batch_size image_size w = (w', Inr ())
      \<and> mc_clock M w' = mc_clock M w + launch \<and> pending w' = pending w + work"
    and "\<And>w. mc_clock M (mc_cuda_sync M w) = mc_clock M w + pending w \<and> pending (mc_cuda_sync M w) = 0"
    and "0 < iterations" "launch + work \<noteq> 0"
  shows "\<exists>s' r. benchmark_torch M batch_size image_size ''cuda'' precision warmup iterations compile s = (s', Inr r)
    \<and> lt_mean_ms r = (launch + work) * 1000 \<and> lt_min_ms r = (launch + work) * 1000 \<and> lt_max_ms r = (launch + work) * 1000
    \<and> lt_iterations r = nat iterations \<and> lt_warmup r = (if compile then max warmup 30 else warmup)
    \<and> lt_backend r = (if compile then ''pytorch-cuda-compiled'' else ''pytorch-cuda'')
    \<and> (\<exists>w'. time_callable (mc_clock M) (mc_torch M compile ''cuda'' (autocast_dtype precision) batch_size image_size)
              warmup iterations None (bs_world s) = (w', Inr (replicate (nat iterations) (launch * 1000))))"
proof -
  let ?fn = "mc_torch M compile ''cuda'' (autocast_dtype precision) batch_size image_size"
  let ?wu = "if compile then max warmup 30 else warmup"
  let ?sync = "Some (mc_cuda_sync M)"
  have fn: "\<exists>w'. ?fn w = (w', Inr ()) \<and> True" for w using assms(1) by blast
  obtain w1 where w1: "warm_up ?fn (nat ?wu) (bs_world s) = (w1, Inr ())"
    using warm_up_ok [of "\<lambda>_. True" ?fn, OF fn] by blast
  have step: "\<exists>w'. ?fn w = (w', Inr ()) \<and> pending (sync_with ?sync w') = 0
      \<and> mc_clock M (sync_with ?sync w') = mc_clock M w + (launch + work)" if "pending w = 0" for w
  proof -
    from assms(1) [of w] obtain w' where "?fn w = (w', Inr ())" "mc_clock M w' = mc_clock M w + launch" "pending w' = pending w + work"
      by blast
    then show ?thesis using assms(2) [of w'] that by (simp add: sync_with_def)
  qed
  have "pending (sync_with ?sync w1) = 0" using assms(2) by (simp add: sync_with_def)
  from timed_runs_const [of "\<lambda>w. pending w = 0" ?fn ?sync "mc_clock M" "launch + work", OF step this]
  obtain w2 where w2: "timed_runs (mc_clock M) ?fn ?sync (nat iterations) (sync_with ?sync w1)
      = (w2, Inr (replicate (nat iterations) ((launch + work) * 1000)))" by blast
  have n: "0 < nat iterations" using assms(3) by simp
  have k: "(launch + work) * 1000 \<noteq> 0" using assms(4) by simp
  have cuda: "starts_with ''cuda'' ''cuda''" by (simp add: starts_with_def)
  have t: "time_callable (mc_clock M) ?fn ?wu iterations ?sync (bs_world s)
      = (w2, Inr (replicate (nat iterations) ((launch + work) * 1000)))"
    by (simp add: time_callable_def w1 w2)
  obtain r where r: "summarise (replicate (nat iterations) ((launch + work) * 1000)) (torch_backend ''cuda'' compile) precision
      batch_size ''cuda'' ?wu None = Inr r"
    "lt_mean_ms r = (launch + work) * 1000" "lt_min_ms r = (launch + work) * 1000" "lt_max_ms r = (launch + work) * 1000"
    "lt_iterations r = nat iterations" "lt_warmup r = ?wu" "lt_backend r = torch_backend ''cuda'' compile"
    using n k by (simp add: summarise_cases)
  have b: "benchmark_torch M batch_size image_size ''cuda'' precision warmup iterations compile s = (s\<lparr>bs_world := w2\<rparr>, Inr r)"
    unfolding benchmark_torch_def Let_def if_P [OF cuda] t prod.case sum.case r(1) ..
  have bare: "\<exists>w'. ?fn w = (w', Inr ()) \<and> True \<and> mc_clock M (sync_with None w') = mc_clock M w + launch" for w
    using assms(1) [of w] by (auto simp: sync_with_def)
  obtain w3 where w3: "warm_up ?fn (nat warmup) (bs_world s) = (w3, Inr ())"
    using warm_up_ok [of "\<lambda>_. True" ?fn, OF fn] by blast
  obtain w4 where w4: "timed_runs (mc_clock M) ?fn None (nat iterations) (sync_with None w3)
      = (w4, Inr (replicate (nat iterations) (launch * 1000)))"
    using timed_runs_const [of "\<lambda>_. True" ?fn None "mc_clock M" launch, OF bare] by blast
  have u: "time_callable (mc_clock M) ?fn warmup iterations None (bs_world s)
      = (w4, Inr (replicate (nat iterations) (launch * 1000)))"
    by (simp add: time_callable_def w3 w4)
  have l: "torch_backend ''cuda'' compile = (if compile then ''pytorch-cuda-compiled'' else ''pytorch-cuda'')"
    by (simp add: torch_backend_def cuda)
  show ?thesis using b r(2-6) r(7) [unfolded l] u by blast
qed

text \<open>A device with a clock and pending work: a pass takes a millisecond to launch and nine to run.\<close>

definition demo_machine :: "(real \<times> real) machine" where
  "demo_machine =
     \<lparr>mc_clock = fst, mc_torch = (\<lambda>_ _ _ _ _ (t, q). ((t + 1 / 1000, q + 9 / 1000), Inr ())),
      mc_cuda_sync = (\<lambda>(t, q). (t + q, 0)),
      mc_session = (\<lambda>_ _ _. Inl (PyExc ''RuntimeError'' [])), mc_size = (\<lambda>_. 0), mc_linker = demo_env (\<lambda>_. Missing)\<rparr>"

theorem cuda_timing_synchronised_witness:
  "\<exists>s' r. benchmark_torch demo_machine 1 224 ''cuda'' ''fp32'' 20 100 False \<lparr>bs_world = (0, 5), bs_libs = []\<rparr> = (s', Inr r)
     \<and> lt_mean_ms r = 10 \<and> lt_backend r = ''pytorch-cuda''"
proof -
  have "\<exists>w'. mc_torch demo_machine False ''cuda'' (autocast_dtype ''fp32'') 1 224 w = (w', Inr ())
      \<and> mc_clock demo_machine w' = mc_clock demo_machine w + 1 / 1000 \<and> snd w' = snd w + 9 / 1000" for w
    by (cases w) (simp add: demo_machine_def)
  moreover have "mc_clock demo_machine (mc_cuda_sync demo_machine w) = mc_clock demo_machine w + snd w
      \<and> snd (mc_cuda_sync demo_machine w) = 0" for w
    by (cases w) (simp add: demo_machine_def)
  ultimately show ?thesis
    using cuda_timing_synchronised [of demo_machine False "''fp32''" 1 224 "1 / 1000" snd "9 / 1000" 100 20
        "\<lparr>bs_world = (0, 5), bs_libs = []\<rparr>"] by fastforce
qed

section \<open>Facts on measurements\<close>

text \<open>An ONNX measurement is of the provider asked for: it is first among those in use, and the row
  carries its label, its device and the size of the file.\<close>

lemma benchmark_onnx_row:
  assumes "benchmark_onnx M path n sz p pr wu it opts cache s = (s', Inr r)"
  shows "\<exists>libs providers session rest. mc_session M libs path providers = Inr session
      \<and> os_providers session = p # rest \<and> lt_backend r = onnx_backend p \<and> lt_precision r = pr \<and> lt_batch_size r = n
      \<and> lt_device r = (if p = cpu_provider then ''cpu'' else ''cuda'')
      \<and> lt_model_size_mb r = Some (py_round 1 (of_int (mc_size M path) / 1000000))"
  using assms by (auto simp: benchmark_onnx_def Let_def summarise_cases split: sum.splits list.splits if_splits prod.splits)

lemma benchmark_onnx_silent_fallback:
  assumes "\<And>libs providers. \<exists>session rest. mc_session M libs path providers = Inr session \<and> os_providers session = cpu_provider # rest"
    and "p \<noteq> cpu_provider"
  shows "\<exists>s' m. benchmark_onnx M path n sz p pr wu it opts cache s = (s', Inl (PyExc ''RuntimeError'' m))"
proof -
  let ?libs = "if p = tensorrt_provider then fst (preload_tensorrt_libraries (mc_linker M) (bs_libs s))
     else if p \<noteq> cpu_provider then fst (preload_cuda_libraries (mc_linker M) (bs_libs s)) else bs_libs s"
  let ?opts = "if p = tensorrt_provider
     then tensorrt_options pr (case cache of None \<Rightarrow> butlast path @ [''trt_cache''] | Some c \<Rightarrow> c) opts else opts"
  from assms(1) [of ?libs "provider_list p ?opts"] assms(2) show ?thesis
    unfolding benchmark_onnx_def Let_def by auto
qed

lemma summarise_fields:
  assumes "summarise ts b pr n dv wu sz = Inr r"
  shows "lt_backend r = b" "lt_precision r = pr" "lt_batch_size r = n" "lt_model r = ''classifier''"
    "lt_accuracy_top1 r = None" "lt_mean_ms r \<noteq> 0" "lt_warmup r = wu"
  using assms by (auto simp: summarise_cases)

lemma benchmark_torch_row:
  assumes "benchmark_torch M n sz dv pr wu it c s = (s', Inr r)"
  shows "lt_backend r = torch_backend dv c" "lt_precision r = pr" "lt_batch_size r = n" "lt_model r = ''classifier''"
    "lt_accuracy_top1 r = None" "lt_mean_ms r \<noteq> 0"
  using assms by (auto simp: benchmark_torch_def Let_def dest: summarise_fields split: sum.splits prod.splits)

lemma benchmark_onnx_model:
  assumes "benchmark_onnx M path n sz p pr wu it opts cache s = (s', Inr r)"
  shows "lt_model r = ''classifier''" "lt_accuracy_top1 r = None" "lt_mean_ms r \<noteq> 0"
  using assms
  by (auto simp: benchmark_onnx_def Let_def dest: summarise_fields split: sum.splits list.splits if_splits prod.splits)

text \<open>TensorRT is offered exactly when each of the three libraries was found and loaded, in the order of
  their dependencies; when it is not, the libraries after the one that failed are not loaded.\<close>

lemma load_required_loads:
  "load_required env dirs names libs = (libs', ok) \<Longrightarrow>
     \<exists>n paths. n \<le> length names \<and> libs' = libs @ paths \<and> map last paths = take n names
       \<and> (\<forall>p \<in> set paths. butlast p \<in> set dirs \<and> env_path_exists env p) \<and> (ok \<longleftrightarrow> n = length names)"
proof (induction names arbitrary: libs)
  case Nil
  then show ?case by simp
next
  case (Cons name names)
  show ?case
  proof (cases "find (env_path_exists env) (map (\<lambda>d. d @ [name]) dirs)")
    case None
    with Cons.prems show ?thesis by (auto intro: exI [of _ 0])
  next
    case (Some path)
    then have "path \<in> set (map (\<lambda>d. d @ [name]) dirs)" and ex: "env_path_exists env path"
      by (auto simp: find_Some_iff nth_mem)
    then obtain d where d: "path = d @ [name]" "d \<in> set dirs" "env_path_exists env path" by auto
    show ?thesis
    proof (cases "env_cdll env libs path")
      case True
      with Cons.prems Some have "load_required env dirs names (libs @ [path]) = (libs', ok)" by simp
      from Cons.IH [OF this] obtain n paths where "n \<le> length names" "libs' = (libs @ [path]) @ paths"
        "map last paths = take n names" "\<forall>p \<in> set paths. butlast p \<in> set dirs \<and> env_path_exists env p" "ok \<longleftrightarrow> n = length names"
        by blast
      with d show ?thesis by (intro exI [of _ "Suc n"] exI [of _ "path # paths"]) simp
    next
      case False
      with Cons.prems Some show ?thesis by (auto intro: exI [of _ 0])
    qed
  qed
qed

lemma ensure_tensorrt_all:
  assumes "ensure_tensorrt_loadable env package_dir libs = (libs', True)"
  shows "\<exists>paths. libs' = libs @ paths \<and> map last paths = required_libraries
    \<and> (\<forall>p \<in> set paths. env_path_exists env p \<and> butlast p \<in> set (trt_search_dirs package_dir))"
  using assms load_required_loads [of env "trt_search_dirs package_dir" required_libraries libs libs' True]
  by (auto simp: ensure_tensorrt_loadable_def Let_def split: if_splits)

section \<open>Facts on the report\<close>

lemma baselines_of_snoc:
  "baselines_of b p (rs @ [r]) =
     (if lt_backend r = b \<and> lt_precision r = p then dict_set (lt_model r, lt_batch_size r) (lt_mean_ms r) (baselines_of b p rs)
      else baselines_of b p rs)"
  by (simp add: baselines_of_def)

lemma baselines_of_get:
  "dict_get (baselines_of b p rs) (m, n) =
     (case filter (\<lambda>r. lt_backend r = b \<and> lt_precision r = p \<and> lt_model r = m \<and> lt_batch_size r = n) rs of
        [] \<Rightarrow> None | xs \<Rightarrow> Some (lt_mean_ms (last xs)))"
proof (induction rs rule: rev_induct)
  case Nil
  then show ?case by (simp add: baselines_of_def)
next
  case (snoc r rs)
  then show ?case by (auto simp: baselines_of_snoc dict_get_set split: list.splits)
qed

text \<open>A speedup is relative to a row of the baseline's backend and precision, for the same model and
  the same batch size; without one there is no figure.\<close>

lemma speedup_same_row:
  assumes "speedup_of (baselines_of b p rs) r = Inr (Some x)"
  shows "\<exists>r0 \<in> set rs. lt_backend r0 = b \<and> lt_precision r0 = p \<and> lt_model r0 = lt_model r \<and> lt_batch_size r0 = lt_batch_size r
    \<and> x * lt_mean_ms r = lt_mean_ms r0"
proof -
  let ?xs = "filter (\<lambda>r'. lt_backend r' = b \<and> lt_precision r' = p \<and> lt_model r' = lt_model r \<and> lt_batch_size r' = lt_batch_size r) rs"
  from assms have "?xs \<noteq> []" "lt_mean_ms r \<noteq> 0" "x = lt_mean_ms (last ?xs) / lt_mean_ms r"
    by (auto simp: speedup_of_def baselines_of_get split: list.splits if_splits option.splits)
  moreover have "last ?xs \<in> set ?xs" using last_in_set [OF \<open>?xs \<noteq> []\<close>] .
  ultimately show ?thesis by auto
qed

text \<open>A machine with a GPU on which only the reduced precision ran keeps its CUDA baseline and so reports
  no speedup, although the CPU row was measured.\<close>

lemma no_fallback_without_fp32:
  assumes "r \<in> set rs" "lt_backend r = ''pytorch-cuda''" "\<forall>r \<in> set rs. lt_backend r = ''pytorch-cuda'' \<longrightarrow> lt_precision r \<noteq> ''fp32''"
  shows "speedup_of (baselines_of (effective_baseline ''pytorch-cuda'' rs) ''fp32'' rs) x = Inr None"
proof -
  have "effective_baseline ''pytorch-cuda'' rs = ''pytorch-cuda''" using assms(1,2) by (force simp: effective_baseline_def)
  moreover have "filter (\<lambda>r'. lt_backend r' = ''pytorch-cuda'' \<and> lt_precision r' = ''fp32'' \<and> lt_model r' = lt_model x
      \<and> lt_batch_size r' = lt_batch_size x) rs = []"
    using assms(3) by (auto simp: filter_empty_conv)
  ultimately show ?thesis by (simp add: speedup_of_def baselines_of_get)
qed

end
