(* ===== verification/Quantize.thy ===== *)
theory Quantize
  imports Datasets Augmentation Regression "HOL-Library.Product_Lexorder"
begin

text \<open>
  INT8 quantisation and what is measured of it (\<open>models/optimisation/quantize.py\<close>): the two calibration
  readers as generators, pre-processing with its fallback, the scratch directory and the sweep of
  the working directory, \<open>quantize_int8\<close>, the accuracy of a graph on a prefix of a dataset, and the
  fidelity of an embedder. ONNX Runtime's tools and sessions, stacking of arrays and NumPy's
  \<open>argpartition\<close> are parameters. Division of a vector by a norm of zero, which NumPy turns into NaN,
  is outside the model.
\<close>

section \<open>Calibration readers\<close>

definition default_calibration_samples :: int where
  "default_calibration_samples = 256"

text \<open>A reader holds what its items evaluate to, in order, and the generator: not started, or the items
  it has not yet taken. A generator that has returned or raised has none left.\<close>

record ('a, 'b) reader =
  rd_items :: "'a result list"
  rd_input_name :: string
  rd_batch_size :: int
  rd_stack :: "'a list \<Rightarrow> 'b result"
  rd_iterator :: "'a result list option"

text \<open>\<open>paths[:n]\<close> for any integer.\<close>

definition py_prefix :: "int \<Rightarrow> 'a list \<Rightarrow> 'a list" where
  "py_prefix n xs = take (nat (if n < 0 then int (length xs) + n else n)) xs"

definition tensor_dataset_reader ::
  "('a list \<Rightarrow> 'b result) \<Rightarrow> ('a \<times> nat) result list \<Rightarrow> string \<Rightarrow> int \<Rightarrow> int \<Rightarrow> ('a, 'b) reader" where
  "tensor_dataset_reader stack dataset input_name num_samples batch_size =
     \<lparr>rd_items = map (map_sum id fst) (take (nat (min num_samples (int (length dataset)))) dataset),
      rd_input_name = input_name, rd_batch_size = batch_size, rd_stack = stack, rd_iterator = None\<rparr>"

definition image_file_reader ::
  "('a list \<Rightarrow> 'b result) \<Rightarrow> (path \<Rightarrow> bytes result) \<Rightarrow> (bytes \<Rightarrow> 'a result) \<Rightarrow> path list \<Rightarrow> string \<Rightarrow> int \<Rightarrow> int
   \<Rightarrow> ('a, 'b) reader" where
  "image_file_reader stack read_bytes preprocess paths input_name num_samples batch_size =
     \<lparr>rd_items = map (\<lambda>p. res_bind (read_bytes p) preprocess) (py_prefix num_samples paths),
      rd_input_name = input_name, rd_batch_size = batch_size, rd_stack = stack, rd_iterator = None\<rparr>"

text \<open>The loop of \<open>_batches\<close> up to its next \<open>yield\<close>, or to its end with what is left in the buffer.\<close>

fun gather :: "int \<Rightarrow> 'a result list \<Rightarrow> 'a list \<Rightarrow> ('a list \<times> 'a result list) result" where
  "gather batch_size [] buffer = Inr (buffer, [])"
| "gather batch_size (x # xs) buffer =
     (case x of
        Inl e \<Rightarrow> Inl e
      | Inr a \<Rightarrow>
          if int (length (buffer @ [a])) = batch_size then Inr (buffer @ [a], xs)
          else gather batch_size xs (buffer @ [a]))"

definition get_next :: "('a, 'b) reader \<Rightarrow> ('a, 'b) reader \<times> (string \<times> 'b) option result" where
  "get_next r =
     (let left = (case rd_iterator r of None \<Rightarrow> rd_items r | Some xs \<Rightarrow> xs)
      in case gather (rd_batch_size r) left [] of
           Inl e \<Rightarrow> (r\<lparr>rd_iterator := Some []\<rparr>, Inl e)
         | Inr (buffer, rest) \<Rightarrow>
             if buffer = [] then (r\<lparr>rd_iterator := Some []\<rparr>, Inr None)
             else
               (case rd_stack r buffer of
                  Inl e \<Rightarrow> (r\<lparr>rd_iterator := Some []\<rparr>, Inl e)
                | Inr batch \<Rightarrow> (r\<lparr>rd_iterator := Some rest\<rparr>, Inr (Some (rd_input_name r, batch)))))"

definition rewind :: "('a, 'b) reader \<Rightarrow> ('a, 'b) reader" where
  "rewind r = r\<lparr>rd_iterator := None\<rparr>"

section \<open>Quantisation\<close>

text \<open>The working directory as its files by name; the graph at the output path, with its size. The
  tools of ONNX Runtime may write any files there.\<close>

record 'c workdir =
  wk_files :: "(string, 'c) dict"
  wk_output :: "(string \<times> int) option"

text \<open>What the tools do: pre-processing with or without symbolic shapes gives a graph in the scratch
  directory, static quantisation writes the output, drawing on the reader.\<close>

record ('a, 'b, 'c) quant_tools =
  qt_pre_process :: "bool \<Rightarrow> 'c workdir \<Rightarrow> 'c workdir \<times> string result"
  qt_static :: "string \<Rightarrow> ('a, 'b) reader \<Rightarrow> 'c workdir \<Rightarrow> 'c workdir \<times> unit result"
  qt_model_size :: int

definition quantization_error :: "string \<Rightarrow> exn" where
  "quantization_error m = PyExc ''QuantizationError'' m"

definition run_pre_process :: "('a, 'b, 'c) quant_tools \<Rightarrow> 'c workdir \<Rightarrow> 'c workdir \<times> string result" where
  "run_pre_process T W =
     (case qt_pre_process T False W of
        (W1, Inr g) \<Rightarrow> (W1, Inr g)
      | (W1, Inl _) \<Rightarrow>
          (case qt_pre_process T True W1 of
             (W2, Inr g) \<Rightarrow> (W2, Inr g)
           | (W2, Inl e) \<Rightarrow>
               (W2, Inl (quantization_error
                 (''Quantization pre-processing failed under both symbolic and static shape inference: '' @ exn_str e)))))"

text \<open>\<open>_STRAY_TEMP_PATTERNS\<close>, and the context manager around the body: what was not there before and
  matches is removed, however the body ended.\<close>

definition stray_file :: "string \<Rightarrow> bool" where
  "stray_file name \<longleftrightarrow> name = ''sym_shape_infer_temp.onnx'' \<or> ends_with name ''.data''"

definition clean_workspace :: "('c workdir \<Rightarrow> 'c workdir \<times> 'r) \<Rightarrow> 'c workdir \<Rightarrow> 'c workdir \<times> 'r" where
  "clean_workspace body W =
     (let before = map fst (wk_files W)
      in case body W of
           (W', r) \<Rightarrow> (W'\<lparr>wk_files := filter (\<lambda>(name, c). \<not> (stray_file name \<and> name \<notin> set before)) (wk_files W')\<rparr>, r))"

definition quantize_int8 ::
  "('a, 'b, 'c) quant_tools \<Rightarrow> ('a, 'b) reader \<Rightarrow> 'c workdir \<Rightarrow> 'c workdir \<times> unit result" where
  "quantize_int8 T reader W =
     (case clean_workspace
         (\<lambda>W. case run_pre_process T W of
                (W1, Inl e) \<Rightarrow> (W1, Inl e)
              | (W1, Inr preprocessed) \<Rightarrow>
                  (case qt_static T preprocessed reader W1 of
                     (W2, Inr _) \<Rightarrow> (W2, Inr ())
                   | (W2, Inl e) \<Rightarrow> (W2, Inl (quantization_error (''INT8 quantization failed: '' @ exn_str e))))) W of
        (W', Inl e) \<Rightarrow> (W', Inl e)
      | (W', Inr _) \<Rightarrow>
          (case wk_output W' of
             None \<Rightarrow> (W', Inl (PyExc ''FileNotFoundError'' ''No such file or directory''))
           | Some (_, after_bytes) \<Rightarrow> if after_bytes = 0 then (W', Inl zero_division) else (W', Inr ())))"

section \<open>Accuracy\<close>

text \<open>\<open>session\<close> gives a row of logits for each image of a batch; \<open>topk k\<close> the indices of the \<open>k\<close> largest of
  a row, largest first.\<close>

record accuracy =
  ac_top1 :: real
  ac_top5 :: real
  ac_num_samples :: real

definition batch_hits ::
  "('a list \<Rightarrow> real list list result) \<Rightarrow> (nat \<Rightarrow> real list \<Rightarrow> nat list) \<Rightarrow> ('a \<times> nat) result list \<Rightarrow> (nat \<times> nat \<times> nat) result" where
  "batch_hits session topk chunk =
     res_bind (map_res id chunk) (\<lambda>rows.
     res_bind (session (map fst rows)) (\<lambda>logits.
     let top5 = map (\<lambda>l. topk (min 5 (length l)) l) logits; hits = zip top5 (map snd rows)
     in Inr (length (filter (\<lambda>(idx, target). hd idx = target) hits),
             length (filter (\<lambda>(idx, target). target \<in> set idx) hits), length rows)))"

definition evaluate_onnx_accuracy ::
  "('a list \<Rightarrow> real list list result) \<Rightarrow> (nat \<Rightarrow> real list \<Rightarrow> nat list) \<Rightarrow> ('a \<times> nat) result list \<Rightarrow> int \<Rightarrow> nat \<Rightarrow> accuracy result" where
  "evaluate_onnx_accuracy session topk dataset num_samples batch_size =
     (if batch_size = 0 then Inl (PyExc ''ValueError'' ''range() arg 3 must not be zero'')
      else
        (let limit = nat (min num_samples (int (length dataset)))
         in res_bind (map_res (batch_hits session topk) (slices batch_size (take limit dataset))) (\<lambda>counts.
            let correct_top1 = sum_list (map fst counts); correct_top5 = sum_list (map (fst \<circ> snd) counts);
                total = sum_list (map (snd \<circ> snd) counts)
            in if total = 0 then Inl zero_division
               else Inr \<lparr>ac_top1 = real correct_top1 / real total, ac_top5 = real correct_top5 / real total,
                         ac_num_samples = real total\<rparr>)))"

section \<open>Fidelity of an embedder\<close>

record fidelity =
  fd_mean_cosine :: real
  fd_recall_at_k :: real
  fd_top_k :: real
  fd_num_samples :: real

definition embed_all ::
  "('a list \<Rightarrow> real list list result) \<Rightarrow> 'a result list \<Rightarrow> int \<Rightarrow> nat \<Rightarrow> real list list result" where
  "embed_all session images num_samples batch_size =
     (if batch_size = 0 then Inl (PyExc ''ValueError'' ''range() arg 3 must not be zero'')
      else
        (let limit = nat (min num_samples (int (length images)))
         in res_bind (map_res (\<lambda>chunk. res_bind (map_res id chunk) session) (slices batch_size (take limit images))) (\<lambda>chunks.
            if chunks = [] then Inl (PyExc ''ValueError'' ''need at least one array to concatenate'') else Inr (concat chunks))))"

definition row_norm :: "real list \<Rightarrow> real" where
  "row_norm v = sqrt (dot v v)"

definition unit_row :: "real list \<Rightarrow> real list" where
  "unit_row v = map (\<lambda>x. x / row_norm v) v"

text \<open>\<open>np.argpartition\<close> on a row that may hold infinities, and what is relied on of it.\<close>

type_synonym partition_fn = "flt list \<Rightarrow> nat \<Rightarrow> nat list"

definition partition_ok :: "partition_fn \<Rightarrow> bool" where
  "partition_ok f \<longleftrightarrow>
     (\<forall>xs k. k < length xs \<longrightarrow>
        mset (f xs k) = mset [0..<length xs]
        \<and> (\<forall>a \<in> set (take k (f xs k)). \<forall>b \<in> set (drop k (f xs k)). \<not> flt_less (xs ! b) (xs ! a)))"

definition neighbours :: "partition_fn \<Rightarrow> nat \<Rightarrow> real list list \<Rightarrow> real list list \<Rightarrow> nat list list" where
  "neighbours argpartition kk fp32 queries =
     map (\<lambda>(i, q).
            let scores = (map (\<lambda>v. Fin (dot q v)) fp32)[i := Inf True]
            in sort (take kk (argpartition (map flt_neg scores) kk)))
       (enumerate 0 queries)"

definition evaluate_embedding_fidelity ::
  "partition_fn \<Rightarrow> ('a list \<Rightarrow> real list list result) \<Rightarrow> ('a list \<Rightarrow> real list list result) \<Rightarrow> 'a result list
   \<Rightarrow> int \<Rightarrow> nat \<Rightarrow> nat \<Rightarrow> fidelity result" where
  "evaluate_embedding_fidelity argpartition fp32_session int8_session images num_samples batch_size kk =
     res_bind (embed_all fp32_session images num_samples batch_size) (\<lambda>fp32.
     res_bind (embed_all int8_session images num_samples batch_size) (\<lambda>int8.
     if length fp32 \<le> kk
     then Inl (PyExc ''ValueError'' (''recall@'' @ show_nat kk @ '' needs more than '' @ show_nat kk
            @ '' samples to rank against; got '' @ show_nat (length fp32) @ ''. Raise --accuracy-samples.''))
     else if length int8 \<noteq> length fp32 then Inl (PyExc ''ValueError'' ''operands could not be broadcast together'')
     else
       (let fp32 = map unit_row fp32; int8 = map unit_row int8;
            cosines = map2 dot fp32 int8;
            overlap = map2 (\<lambda>a b. card (set a \<inter> set b)) (neighbours argpartition kk fp32 fp32)
                        (neighbours argpartition kk fp32 int8)
        in Inr \<lparr>fd_mean_cosine = sum_list cosines / real (length cosines),
                fd_recall_at_k = real (sum_list overlap) / real (length overlap) / real kk,
                fd_top_k = real kk, fd_num_samples = real (length fp32)\<rparr>)))"

section \<open>Facts on the readers\<close>

lemma gather_all:
  assumes "0 < n" "length buffer < n"
  shows "gather (int n) (map Inr xs) buffer
    = Inr (buffer @ take (n - length buffer) xs, map Inr (drop (n - length buffer) xs))"
  using assms
proof (induction xs arbitrary: buffer)
  case (Cons x xs)
  show ?case
  proof (cases "Suc (length buffer) = n")
    case True
    then have "n - length buffer = 1" by simp
    with True show ?thesis by simp
  next
    case False
    with Cons.prems have "length (buffer @ [x]) < n" "n - length buffer = Suc (n - length (buffer @ [x]))" by simp_all
    with False Cons.IH [of "buffer @ [x]"] Cons.prems show ?thesis by simp
  qed
qed simp

text \<open>\<open>n\<close> calls of \<open>get_next\<close> in a row.\<close>

fun calls :: "nat \<Rightarrow> ('a, 'b) reader \<Rightarrow> ('a, 'b) reader \<times> (string \<times> 'b) option result list" where
  "calls 0 r = (r, [])"
| "calls (Suc n) r = (case get_next r of (r', x) \<Rightarrow> (case calls n r' of (r'', xs) \<Rightarrow> (r'', x # xs)))"

definition unread :: "('a, 'b) reader \<Rightarrow> 'a result list" where
  "unread r = (case rd_iterator r of None \<Rightarrow> rd_items r | Some xs \<Rightarrow> xs)"

lemma calls_pending:
  assumes "0 < m" "rd_batch_size r = int m" "\<And>buf. buf \<noteq> [] \<Longrightarrow> rd_stack r buf = Inr (st buf)" "unread r = map Inr xs"
  shows "snd (calls n r) = take n (map (\<lambda>b. Inr (Some (rd_input_name r, st b))) (slices m xs)) @ replicate (n - length (slices m xs)) (Inr None)
    \<and> (\<exists>it. fst (calls n r) = r\<lparr>rd_iterator := it\<rparr>)"
  using assms
proof (induction n arbitrary: r xs)
  case 0
  have "r = r\<lparr>rd_iterator := rd_iterator r\<rparr>" by simp
  then show ?case by (metis append_Nil calls.simps(1) diff_0_eq_0 fst_conv replicate_empty snd_conv take0)
next
  case (Suc n)
  note g = gather_all [OF Suc.prems(1), of "[]" xs, simplified]
  show ?case
  proof (cases "xs = []")
    case True
    let ?r = "r\<lparr>rd_iterator := Some []\<rparr>"
    have nx: "get_next r = (?r, Inr None)"
      using Suc.prems g True by (simp add: get_next_def unread_def Let_def)
    have e: "slices m [] = ([] :: 'a list list)" by (simp add: slices.simps)
    from Suc.IH [of ?r "[]"] Suc.prems(1-3) show ?thesis by (auto simp: nx True e unread_def split: prod.splits)
  next
    case False
    let ?r = "r\<lparr>rd_iterator := Some (map Inr (drop m xs))\<rparr>"
    have t: "take m xs \<noteq> []" using False Suc.prems(1) by simp
    have nx: "get_next r = (?r, Inr (Some (rd_input_name r, st (take m xs))))"
      using Suc.prems g t False by (simp add: get_next_def unread_def Let_def)
    have e: "slices m xs = take m xs # slices m (drop m xs)" using False Suc.prems(1) by (subst slices.simps) simp
    from Suc.IH [of ?r "drop m xs"] Suc.prems(1-3) show ?thesis by (auto simp: nx e unread_def split: prod.splits)
  qed
qed

lemma slices_sizes:
  "0 < m \<Longrightarrow> (\<forall>b \<in> set (slices m xs). b \<noteq> [] \<and> length b \<le> m) \<and> (\<forall>b \<in> set (butlast (slices m xs)). length b = m)"
proof (induction m xs rule: slices.induct)
  case (1 m xs)
  have nil: "slices m [] = []" by (subst slices.simps) simp
  show ?case
  proof (cases "xs = []")
    case False
    then have e: "slices m xs = take m xs # slices m (drop m xs)" using "1.prems" by (subst slices.simps) simp
    have h: "take m xs \<noteq> []" "length (take m xs) \<le> m" using False "1.prems" by simp_all
    have t: "(\<forall>b \<in> set (slices m (drop m xs)). b \<noteq> [] \<and> length b \<le> m) \<and> (\<forall>b \<in> set (butlast (slices m (drop m xs))). length b = m)"
      using "1.IH" "1.prems" False by blast
    have full: "length (take m xs) = m" if "slices m (drop m xs) \<noteq> []"
    proof -
      from that nil have "drop m xs \<noteq> []" by metis
      then show ?thesis by simp
    qed
    have "b = take m xs \<or> b \<in> set (slices m (drop m xs))" if "b \<in> set (slices m xs)" for b
      using that [unfolded e] unfolding set_simps(2) insert_iff .
    then have "\<forall>b \<in> set (slices m xs). b \<noteq> [] \<and> length b \<le> m" using h t by metis
    moreover have "b \<in> set (butlast (slices m (drop m xs))) \<or> (b = take m xs \<and> slices m (drop m xs) \<noteq> [])"
      if "b \<in> set (butlast (slices m xs))" for b
      using that unfolding e butlast.simps by (cases "slices m (drop m xs) = []") (auto simp only: if_True if_False list.set insert_iff empty_iff HOL.simp_thms)
    then have "\<forall>b \<in> set (butlast (slices m xs)). length b = m" using full t by metis
    ultimately show ?thesis ..
  qed (simp add: nil)
qed

text \<open>
  The calibrator sees every sample once. For a reader over samples that can be read, successive calls
  return the samples in order in batches of the batch size, the last with what is left, and then
  nothing; the batches together are exactly the samples, at most as many as asked for; after a
  rewind the same sequence comes again.
\<close>

theorem calibration_feeds_all:
  assumes "0 < m" "length dataset = n" "\<forall>i < n. dataset ! i = Inr (img i, target i)" "\<And>buf. buf \<noteq> [] \<Longrightarrow> stack buf = Inr (st buf)"
    and "r = tensor_dataset_reader stack dataset name num_samples (int m)"
  shows "\<exists>bs. concat bs = map img [0..<min (nat num_samples) n]
    \<and> (\<forall>b \<in> set bs. b \<noteq> [] \<and> length b \<le> m) \<and> (\<forall>b \<in> set (butlast bs). length b = m)
    \<and> (\<forall>k. snd (calls k r) = take k (map (\<lambda>b. Inr (Some (name, st b))) bs) @ replicate (k - length bs) (Inr None)
          \<and> snd (calls k (rewind (fst (calls k r)))) = snd (calls k r))"
proof -
  let ?xs = "map img [0..<min (nat num_samples) n]"
  have len: "nat (min num_samples (int (length dataset))) = min (nat num_samples) n" using assms(2) by (simp add: min_def nat_le_iff)
  have items: "rd_items r = map Inr ?xs"
    unfolding assms(5) tensor_dataset_reader_def reader.simps len using assms(2,3) by (intro nth_equalityI) simp_all
  have r: "rd_batch_size r = int m" "rd_stack r = stack" "rd_input_name r = name" "rd_iterator r = None"
    unfolding assms(5) tensor_dataset_reader_def by simp_all
  have seq: "snd (calls k s) = take k (map (\<lambda>b. Inr (Some (name, st b))) (slices m ?xs)) @ replicate (k - length (slices m ?xs)) (Inr None)
      \<and> (\<exists>it. fst (calls k s) = s\<lparr>rd_iterator := it\<rparr>)"
    if "s = r\<lparr>rd_iterator := None\<rparr>" for s k
    using calls_pending [of m s st ?xs k] assms(1,4) r items that by (simp add: unread_def)
  have r': "r = r\<lparr>rd_iterator := None\<rparr>" using r(4) by simp
  have again: "rewind (fst (calls k r)) = r\<lparr>rd_iterator := None\<rparr>" for k
    using seq [OF r', of k] by (auto simp: rewind_def)
  show ?thesis
  proof (rule exI [of _ "slices m ?xs"], intro conjI allI)
    show "concat (slices m ?xs) = ?xs" by (rule concat_slices [OF assms(1)])
    show "\<forall>b \<in> set (slices m ?xs). b \<noteq> [] \<and> length b \<le> m" "\<forall>b \<in> set (butlast (slices m ?xs)). length b = m"
      using slices_sizes [OF assms(1), of ?xs] by blast+
    fix k
    show "snd (calls k r) = take k (map (\<lambda>b. Inr (Some (name, st b))) (slices m ?xs)) @ replicate (k - length (slices m ?xs)) (Inr None)"
      using seq [OF r'] by blast
    then show "snd (calls k (rewind (fst (calls k r)))) = snd (calls k r)"
      unfolding again using seq [OF refl] by simp
  qed
qed

theorem calibration_feeds_all_witness:
  "\<exists>bs. concat bs = [0..<3] \<and> (\<forall>k. snd (calls k (tensor_dataset_reader Inr (map (\<lambda>i. Inr (i, 0)) [0..<5]) ''images'' 3 2))
      = take k (map (\<lambda>b. Inr (Some (''images'', b))) bs) @ replicate (k - length bs) (Inr None))"
proof -
  have "\<exists>bs. concat bs = map id [0..<min (nat 3) 5]
    \<and> (\<forall>b \<in> set bs. b \<noteq> [] \<and> length b \<le> 2) \<and> (\<forall>b \<in> set (butlast bs). length b = 2)
    \<and> (\<forall>k. snd (calls k (tensor_dataset_reader Inr (map (\<lambda>i. Inr (i, 0)) [0..<5]) ''images'' 3 (int 2)))
            = take k (map (\<lambda>b. Inr (Some (''images'', id b))) bs) @ replicate (k - length bs) (Inr None)
          \<and> snd (calls k (rewind (fst (calls k (tensor_dataset_reader Inr (map (\<lambda>i. Inr (i, 0)) [0..<5]) ''images'' 3 (int 2))))))
            = snd (calls k (tensor_dataset_reader Inr (map (\<lambda>i. Inr (i, 0)) [0..<5]) ''images'' 3 (int 2))))"
    by (rule calibration_feeds_all [where target = "\<lambda>_. 0" and num_samples = 3]) simp_all
  then show ?thesis by (simp del: upt_conv_Cons) blast
qed

section \<open>Facts on the working directory\<close>

lemma clean_workspace_eq:
  "clean_workspace body W = (W', r) \<longleftrightarrow>
     (\<exists>V. body W = (V, r)
        \<and> W' = V\<lparr>wk_files := filter (\<lambda>(n, c). \<not> (stray_file n \<and> n \<notin> set (map fst (wk_files W)))) (wk_files V)\<rparr>)"
  by (auto simp: clean_workspace_def Let_def split: prod.splits)

lemma dict_get_filter_key: "dict_get (filter (\<lambda>(n, c). P n) d) k = (if P k then dict_get d k else None)"
  by (induction d) auto

text \<open>A tool that leaves the files it finds as they are and adds only files of the stray patterns.\<close>

definition only_strays :: "'c workdir \<Rightarrow> 'c workdir \<Rightarrow> bool" where
  "only_strays W V \<longleftrightarrow>
     (\<forall>n. dict_get (wk_files V) n = dict_get (wk_files W) n
        \<or> (dict_get (wk_files W) n = None \<and> stray_file n))"

lemma only_strays_trans: "only_strays U V \<Longrightarrow> only_strays V W \<Longrightarrow> only_strays U W"
  unfolding only_strays_def by metis

lemma quantize_body:
  assumes "quantize_int8 T reader W = (W', r)"
  shows "\<exists>V r0. (\<exists>W1 r1. run_pre_process T W = (W1, r1)
        \<and> (case r1 of Inl e \<Rightarrow> V = W1 \<and> r0 = Inl e
           | Inr g \<Rightarrow> (\<exists>r2. qt_static T g reader W1 = (V, r2)
               \<and> r0 = (case r2 of Inl e \<Rightarrow> Inl (quantization_error (''INT8 quantization failed: '' @ exn_str e)) | Inr _ \<Rightarrow> Inr ()))))
      \<and> W' = V\<lparr>wk_files := filter (\<lambda>(n, c). \<not> (stray_file n \<and> n \<notin> set (map fst (wk_files W)))) (wk_files V)\<rparr>
      \<and> (case r0 of Inl e \<Rightarrow> r = Inl e
         | Inr _ \<Rightarrow> r = (case wk_output V of None \<Rightarrow> Inl (PyExc ''FileNotFoundError'' ''No such file or directory'')
                         | Some (_, b) \<Rightarrow> if b = 0 then Inl zero_division else Inr ()))"
proof -
  define body where "body W = (case run_pre_process T W of
      (W1, Inl e) \<Rightarrow> (W1, Inl e)
    | (W1, Inr g) \<Rightarrow> (case qt_static T g reader W1 of (W2, Inr _) \<Rightarrow> (W2, Inr ())
                     | (W2, Inl e) \<Rightarrow> (W2, Inl (quantization_error (''INT8 quantization failed: '' @ exn_str e)))))" for W
  obtain U r0 where u: "clean_workspace body W = (U, r0)" by (cases "clean_workspace body W")
  from u obtain V where v: "body W = (V, r0)"
    "U = V\<lparr>wk_files := filter (\<lambda>(n, c). \<not> (stray_file n \<and> n \<notin> set (map fst (wk_files W)))) (wk_files V)\<rparr>"
    unfolding clean_workspace_eq by blast
  have b: "\<exists>W1 r1. run_pre_process T W = (W1, r1)
      \<and> (case r1 of Inl e \<Rightarrow> V = W1 \<and> r0 = Inl e
         | Inr g \<Rightarrow> (\<exists>r2. qt_static T g reader W1 = (V, r2)
             \<and> r0 = (case r2 of Inl e \<Rightarrow> Inl (quantization_error (''INT8 quantization failed: '' @ exn_str e)) | Inr _ \<Rightarrow> Inr ())))"
    using v(1) unfolding body_def by (auto split: prod.splits sum.splits)
  have "quantize_int8 T reader W = (case r0 of Inl e \<Rightarrow> (U, Inl e)
      | Inr _ \<Rightarrow> (case wk_output U of None \<Rightarrow> (U, Inl (PyExc ''FileNotFoundError'' ''No such file or directory''))
                 | Some (_, n) \<Rightarrow> if n = 0 then (U, Inl zero_division) else (U, Inr ())))"
    using u unfolding quantize_int8_def body_def [abs_def] by (simp split: sum.split)
  then have "W' = U \<and> (case r0 of Inl e \<Rightarrow> r = Inl e
      | Inr _ \<Rightarrow> r = (case wk_output V of None \<Rightarrow> Inl (PyExc ''FileNotFoundError'' ''No such file or directory'')
                      | Some (_, n) \<Rightarrow> if n = 0 then Inl zero_division else Inr ()))"
    using assms v(2) by (auto split: sum.splits option.splits if_splits)
  with b v(2) show ?thesis by blast
qed

text \<open>
  Quantisation cleans up after the toolchain, whatever happens. No file that was there before is
  removed by the sweep, every other file is as the tools left it except that the new temporary
  files are gone, and when the tools add only temporary files the directory is as before. The
  errors of both passes arrive as one kind of error; the output is the tool's.
\<close>

theorem quantize_sweeps:
  assumes "quantize_int8 T reader W = (W', r)"
  shows "\<exists>V. (\<forall>n. dict_get (wk_files W') n =
        (if stray_file n \<and> n \<notin> set (map fst (wk_files W)) then None else dict_get (wk_files V) n))
    \<and> wk_output W' = wk_output V
    \<and> ((\<exists>g W1. run_pre_process T W = (W1, Inr g) \<and> V = fst (qt_static T g reader W1)) \<or> V = fst (run_pre_process T W))
    \<and> ((\<forall>b U. only_strays U (fst (qt_pre_process T b U))) \<and> (\<forall>g U. only_strays U (fst (qt_static T g reader U)))
        \<longrightarrow> (\<forall>n. dict_get (wk_files W') n = dict_get (wk_files W) n))
    \<and> (case r of Inr _ \<Rightarrow> wk_output W' \<noteq> None
       | Inl e \<Rightarrow> (\<exists>m. e = quantization_error m) \<or> e = zero_division \<or> wk_output W' = None)"
proof -
  from quantize_body [OF assms] obtain V r0 W1 r1 where p: "run_pre_process T W = (W1, r1)"
    and b: "case r1 of Inl e \<Rightarrow> V = W1 \<and> r0 = Inl e
         | Inr g \<Rightarrow> (\<exists>r2. qt_static T g reader W1 = (V, r2)
             \<and> r0 = (case r2 of Inl e \<Rightarrow> Inl (quantization_error (''INT8 quantization failed: '' @ exn_str e)) | Inr _ \<Rightarrow> Inr ()))"
    and W': "W' = V\<lparr>wk_files := filter (\<lambda>(n, c). \<not> (stray_file n \<and> n \<notin> set (map fst (wk_files W)))) (wk_files V)\<rparr>"
    and r: "case r0 of Inl e \<Rightarrow> r = Inl e
         | Inr _ \<Rightarrow> r = (case wk_output V of None \<Rightarrow> Inl (PyExc ''FileNotFoundError'' ''No such file or directory'')
                         | Some (_, b) \<Rightarrow> if b = 0 then Inl zero_division else Inr ())" by blast
  have files: "dict_get (wk_files W') n = (if stray_file n \<and> n \<notin> set (map fst (wk_files W)) then None else dict_get (wk_files V) n)" for n
    unfolding W' using dict_get_filter_key [of "\<lambda>n. \<not> (stray_file n \<and> n \<notin> set (map fst (wk_files W)))" "wk_files V" n] by simp
  have src: "(\<exists>g W1. run_pre_process T W = (W1, Inr g) \<and> V = fst (qt_static T g reader W1)) \<or> V = fst (run_pre_process T W)"
  proof (cases r1)
    case (Inl e)
    with b p show ?thesis by simp
  next
    case (Inr g)
    with b obtain r2 where "qt_static T g reader W1 = (V, r2)" by auto
    with p Inr show ?thesis by (metis fst_conv)
  qed
  have same: "dict_get (wk_files W') n = dict_get (wk_files W) n"
    if o: "\<forall>b U. only_strays U (fst (qt_pre_process T b U))" "\<forall>g U. only_strays U (fst (qt_static T g reader U))" for n
  proof -
    have pp: "only_strays W W1"
    proof -
      let ?A = "fst (qt_pre_process T False W)"
      have a: "only_strays W ?A" "only_strays ?A (fst (qt_pre_process T True ?A))" using o(1) by blast+
      have "W1 = ?A \<or> W1 = fst (qt_pre_process T True ?A)"
        using p unfolding run_pre_process_def by (auto split: prod.splits sum.splits)
      then show ?thesis using a only_strays_trans [OF a] by blast
    qed
    have "only_strays W V" using src pp p o(2) only_strays_trans by (metis fst_conv prod.inject)
    then show ?thesis
      unfolding files by (metis (no_types, lifting) dict_get_None_iff only_strays_def)
  qed
  have err: "\<exists>m. e = quantization_error m" if "r1 = Inl e" for e
    using p that unfolding run_pre_process_def by (auto split: prod.splits sum.splits)
  have out: "wk_output W' = wk_output V" by (simp add: W')
  have res: "case r of Inr _ \<Rightarrow> wk_output W' \<noteq> None
       | Inl e \<Rightarrow> (\<exists>m. e = quantization_error m) \<or> e = zero_division \<or> wk_output W' = None"
  proof (cases r0)
    case (Inl e)
    then have "r = Inl e" using r by simp
    moreover have "\<exists>m. e = quantization_error m"
    proof (cases r1)
      case (Inl d)
      with b \<open>r0 = Inl e\<close> have "r1 = Inl e" by simp
      then show ?thesis by (rule err)
    next
      case (Inr g)
      obtain r2 :: "unit result" where "r0 = (case r2 of Inl e \<Rightarrow> Inl (quantization_error (''INT8 quantization failed: '' @ exn_str e)) | Inr _ \<Rightarrow> Inr ())"
        using b unfolding Inr sum.case by blast
      with \<open>r0 = Inl e\<close> show ?thesis by (cases r2) auto
    qed
    ultimately show ?thesis by simp
  next
    case (Inr u)
    with r out show ?thesis by (auto split: option.splits if_splits)
  qed
  show ?thesis using files out src same res by blast
qed

text \<open>Tools whose symbolic pass fails after leaving its temporary file, and whose quantisation leaves a
  sidecar.\<close>

definition demo_tools :: "(nat, nat, nat) quant_tools" where
  "demo_tools =
     \<lparr>qt_pre_process = (\<lambda>skip W. (W\<lparr>wk_files := dict_set ''sym_shape_infer_temp.onnx'' 0 (wk_files W)\<rparr>,
        if skip then Inr ''g'' else Inl (PyExc ''IndexError'' []))),
      qt_static = (\<lambda>g r W. (W\<lparr>wk_files := dict_set ''a1.data'' 1 (wk_files W), wk_output := Some (''q'', 9)\<rparr>, Inr ())), qt_model_size = 36\<rparr>"

theorem quantize_sweeps_witness:
  "\<exists>W'. quantize_int8 demo_tools (tensor_dataset_reader (\<lambda>_. Inr 0) [] ''images'' 256 8)
       \<lparr>wk_files = [(''mine.data'', 7)], wk_output = None\<rparr> = (W', Inr ())
     \<and> dict_get (wk_files W') ''mine.data'' = Some 7 \<and> dict_get (wk_files W') ''a1.data'' = None"
proof -
  let ?W = "\<lparr>wk_files = [(''mine.data'', 7 :: nat)], wk_output = None\<rparr>"
  let ?rd = "tensor_dataset_reader (\<lambda>_. Inr 0) [] ''images'' 256 8"
  obtain W' r where q: "quantize_int8 demo_tools ?rd ?W = (W', r)" by (cases "quantize_int8 demo_tools ?rd ?W")
  have pre: "run_pre_process demo_tools ?W = (?W\<lparr>wk_files := [(''mine.data'', 7), (''sym_shape_infer_temp.onnx'', 0)]\<rparr>, Inr ''g'')"
    by (simp add: run_pre_process_def demo_tools_def)
  from quantize_body [OF q] have "r = Inr ()" unfolding pre by (auto simp: demo_tools_def)
  moreover from quantize_sweeps [OF q] obtain V where
    v: "\<forall>n. dict_get (wk_files W') n = (if stray_file n \<and> n \<notin> set (map fst (wk_files ?W)) then None else dict_get (wk_files V) n)"
       "(\<exists>g W1. run_pre_process demo_tools ?W = (W1, Inr g) \<and> V = fst (qt_static demo_tools g ?rd W1)) \<or> V = fst (run_pre_process demo_tools ?W)"
    by blast
  from v(2) have "dict_get (wk_files V) ''mine.data'' = Some 7" unfolding pre by (auto simp: demo_tools_def)
  with v(1) have "dict_get (wk_files W') ''mine.data'' = Some 7" "dict_get (wk_files W') ''a1.data'' = None"
    by (simp_all add: stray_file_def ends_with_def)
  ultimately show ?thesis using q by blast
qed

section \<open>Facts on accuracy\<close>

definition top5_of :: "(nat \<Rightarrow> real list \<Rightarrow> nat list) \<Rightarrow> ('a \<Rightarrow> real list) \<Rightarrow> 'a \<Rightarrow> nat list" where
  "top5_of topk one a = topk (min 5 (length (one a))) (one a)"

lemma map_res_id_Inr [simp]: "map_res id (map Inr xs) = Inr xs"
  by (induction xs) simp_all

lemma batch_hits_pointwise:
  assumes "\<And>arrays. session arrays = Inr (map one arrays)"
  shows "batch_hits session topk (map Inr rows) =
    Inr (length (filter (\<lambda>(a, t). hd (top5_of topk one a) = t) rows),
         length (filter (\<lambda>(a, t). t \<in> set (top5_of topk one a)) rows), length rows)"
proof -
  have z: "zip (map (\<lambda>l. topk (min 5 (length l)) l) (map one (map fst rows))) (map snd rows)
      = map (\<lambda>(a, t). (top5_of topk one a, t)) rows"
    by (induction rows) (auto simp: top5_of_def)
  show ?thesis
    unfolding batch_hits_def map_res_id_Inr res_bind.simps assms Let_def z
    by (auto simp: filter_map o_def case_prod_unfold)
qed

lemma slices_nil [simp]: "slices m [] = []"
  by (subst slices.simps) simp

lemma slices_step: "0 < m \<Longrightarrow> xs \<noteq> [] \<Longrightarrow> slices m xs = take m xs # slices m (drop m xs)"
  by (subst slices.simps) simp

lemma slices_map: "0 < m \<Longrightarrow> slices m (map f xs) = map (map f) (slices m xs)"
proof (induction m xs rule: slices.induct)
  case (1 m xs)
  show ?case
  proof (cases "xs = []")
    case False
    then have "map f xs \<noteq> []" by simp
    then have "slices m (map f xs) = map f (take m xs) # slices m (map f (drop m xs))"
      by (simp only: slices_step [OF "1.prems"] take_map drop_map not_False_eq_True)
    then show ?thesis using slices_step [OF "1.prems" False] "1.IH" "1.prems" False by simp
  qed simp
qed

lemma length_filter_concat: "length (filter P (concat xss)) = sum_list (map (\<lambda>xs. length (filter P xs)) xss)"
  by (induction xss) simp_all

text \<open>
  Measured accuracy is the accuracy on the first samples, whatever the batch size. For a graph that
  treats images separately, the measurement over \<open>n\<close> requested samples is, over the first \<open>n\<close> of the
  dataset or all of them, the share whose first prediction is the target and the share whose five
  first predictions hold it; the former is at most the latter; the count is of the samples seen.
\<close>

theorem accuracy_is_prefix_share:
  assumes "\<And>arrays. session arrays = Inr (map one arrays)" "0 < batch_size" "dataset = map Inr rows"
    and "0 < num_samples" "rows \<noteq> []" "\<And>a. one a \<noteq> []" "\<And>k l. length (topk k l) = k"
    and "seen = take (nat num_samples) rows"
  shows "\<exists>m. evaluate_onnx_accuracy session topk dataset num_samples batch_size = Inr m
    \<and> ac_num_samples m = real (length seen) \<and> length seen = min (nat num_samples) (length rows)
    \<and> ac_top1 m = real (length (filter (\<lambda>(a, t). hd (top5_of topk one a) = t) seen)) / real (length seen)
    \<and> ac_top5 m = real (length (filter (\<lambda>(a, t). t \<in> set (top5_of topk one a)) seen)) / real (length seen)
    \<and> ac_top1 m \<le> ac_top5 m \<and> ac_top5 m \<le> 1"
proof -
  let ?P1 = "\<lambda>(a, t). hd (top5_of topk one a) = t" and ?P5 = "\<lambda>(a, t). t \<in> set (top5_of topk one a)"
  have tk: "take (nat (min num_samples (int (length dataset)))) dataset = map Inr seen"
    unfolding assms(3,8) take_map by (simp add: min_def)
  have len: "length seen = min (nat num_samples) (length rows)" by (simp add: assms(8) min.commute)
  have pos: "0 < length seen" using assms(4,5) len by simp
  let ?c = "\<lambda>xs. (length (filter ?P1 xs), length (filter ?P5 xs), length xs)"
  have "map_res (batch_hits session topk) (map (map Inr) xss) = Inr (map ?c xss)" for xss
    by (induction xss) (simp_all add: batch_hits_pointwise [OF assms(1)])
  then have mr: "map_res (batch_hits session topk) (slices batch_size (map Inr seen)) = Inr (map ?c (slices batch_size seen))"
    unfolding slices_map [OF assms(2)] .
  have cc: "concat (slices batch_size seen) = seen" by (rule concat_slices [OF assms(2)])
  have s: "sum_list (map (\<lambda>xs. length (filter P xs)) (slices batch_size seen)) = length (filter P seen)" for P
    using length_filter_concat [of P "slices batch_size seen"] cc by simp
  have s3: "sum_list (map length (slices batch_size seen)) = length seen"
    using s [of "\<lambda>_. True"] by simp
  let ?m = "\<lparr>ac_top1 = real (length (filter ?P1 seen)) / real (length seen),
      ac_top5 = real (length (filter ?P5 seen)) / real (length seen), ac_num_samples = real (length seen)\<rparr>"
  have ev: "evaluate_onnx_accuracy session topk dataset num_samples batch_size = Inr ?m"
    using assms(2) pos unfolding evaluate_onnx_accuracy_def tk Let_def mr res_bind.simps map_map
    by (simp add: o_def s [unfolded case_prod_unfold] s3 case_prod_unfold)
  have "top5_of topk one a \<noteq> []" for a
    using assms(6) [of a] assms(7) unfolding top5_of_def by (metis length_greater_0_conv min_less_iff_conj zero_less_numeral)
  then have "?P1 x \<Longrightarrow> ?P5 x" for x by (cases x) auto
  then have "length (filter ?P1 xs) \<le> length (filter ?P5 xs)" for xs by (induction xs) auto
  then have le: "length (filter ?P1 seen) \<le> length (filter ?P5 seen)" .
  have "length (filter ?P5 seen) \<le> length seen" by simp
  then show ?thesis using ev len le pos by (intro exI [of _ ?m]) (simp add: divide_right_mono)
qed

theorem accuracy_is_prefix_share_witness:
  "\<exists>m. evaluate_onnx_accuracy (\<lambda>xs. Inr (map (\<lambda>a. [a, 0]) xs)) (\<lambda>k l. if hd l > 0 then [0..<k] else rev [0..<k])
     (map Inr [(1, 0), (2, 1), (- 1, 1), (3, 0)]) 3 2 = Inr m \<and> ac_top1 m = 2 / 3 \<and> ac_num_samples m = 3"
proof -
  let ?k = "\<lambda>k l. if hd l > (0 :: real) then [0..<k] else rev [0..<k]"
  let ?rows = "[(1, 0), (2, 1), (- 1, 1), (3, 0)]"
  have k: "length (?k k l) = k" for k l by simp
  have s: "(\<lambda>xs. Inr (map (\<lambda>a. [a, 0 :: real]) xs)) arrays = Inr (map (\<lambda>a. [a, 0]) arrays)" for arrays by simp
  from accuracy_is_prefix_share [where one = "\<lambda>a. [a, 0 :: real]" and batch_size = 2 and rows = ?rows and num_samples = 3 and topk = ?k
      and dataset = "map Inr ?rows" and seen = "take (nat 3) ?rows", OF s _ refl _ _ _ k refl]
  show ?thesis by (auto simp: top5_of_def upt_rec)
qed

section \<open>Facts on fidelity\<close>

lemma neighbours_row:
  assumes "partition_ok f" "kk < length fp32" "length queries = length fp32" "i < length queries"
  shows "length (neighbours f kk fp32 queries ! i) = kk" "distinct (neighbours f kk fp32 queries ! i)"
    "i \<notin> set (neighbours f kk fp32 queries ! i)" "set (neighbours f kk fp32 queries ! i) \<subseteq> {..<length fp32}"
proof -
  let ?s = "map flt_neg ((map (\<lambda>v. Fin (dot (queries ! i) v)) fp32)[i := Inf True])"
  let ?p = "f ?s kk"
  have l: "length ?s = length fp32" by simp
  have m: "mset ?p = mset [0..<length fp32]"
    and part: "\<forall>a \<in> set (take kk ?p). \<forall>b \<in> set (drop kk ?p). \<not> flt_less (?s ! b) (?s ! a)"
    using assms(1,2) unfolding partition_ok_def by (metis l)+
  have d: "distinct ?p" and st: "set ?p = {..<length fp32}" and len: "length ?p = length fp32"
    using m by (metis distinct_upt mset_eq_imp_distinct_iff, metis atLeast_upt mset_eq_setD, metis length_upt minus_nat.diff_0 mset_eq_length)
  have row: "neighbours f kk fp32 queries ! i = sort (take kk ?p)"
    using assms(4) by (simp add: neighbours_def nth_enumerate_eq)
  show "length (neighbours f kk fp32 queries ! i) = kk" using assms(2) len by (simp add: row)
  show "distinct (neighbours f kk fp32 queries ! i)" using d by (simp add: row)
  show "set (neighbours f kk fp32 queries ! i) \<subseteq> {..<length fp32}" using st set_take_subset [of kk ?p] by (simp add: row)
  show "i \<notin> set (neighbours f kk fp32 queries ! i)"
  proof
    assume "i \<in> set (neighbours f kk fp32 queries ! i)"
    then have i: "i \<in> set (take kk ?p)" by (simp add: row)
    have "drop kk ?p \<noteq> []" using assms(2) len by simp
    then obtain b where b: "b \<in> set (drop kk ?p)" by (meson list.set_sel(1))
    have "set (take kk ?p) \<inter> set (drop kk ?p) = {}" using d by (metis append_take_drop_id distinct_append)
    with i b have "b \<noteq> i" by blast
    moreover have "b < length fp32" using b st set_drop_subset [of kk ?p] by auto
    ultimately have "?s ! b = Fin (- dot (queries ! i) (fp32 ! b))" by (simp add: flt_neg_def)
    moreover have "?s ! i = Inf False" using assms(3,4) by (simp add: flt_neg_def)
    ultimately show False using part i b by fastforce
  qed
qed

lemma unit_row_scaled:
  assumes "0 < c" shows "unit_row (map ((*) c) v) = unit_row v"
proof -
  have "dot (map ((*) c) v) (map ((*) c) v) = c\<^sup>2 * dot v v"
    by (simp add: dot_def map2_map_map power2_eq_square flip: sum_list_const_mult) (simp add: zip_same_conv_map o_def algebra_simps)
  then have "row_norm (map ((*) c) v) = c * row_norm v"
    using assms by (simp add: row_norm_def real_sqrt_mult)
  then show ?thesis using assms by (simp add: unit_row_def)
qed

lemma dot_unit_row:
  assumes "row_norm v \<noteq> 0" shows "dot (unit_row v) (unit_row v) = 1"
proof -
  have nn: "0 \<le> dot v v" unfolding dot_def by (rule sum_list_nonneg) (auto simp: in_set_zip)
  have "dot (unit_row v) (unit_row v) = dot v v / (row_norm v)\<^sup>2"
    unfolding unit_row_def dot_def
    by (simp add: map2_map_map power2_eq_square zip_same_conv_map o_def divide_inverse flip: sum_list_mult_const) (simp add: algebra_simps)
  also have "\<dots> = 1" using assms nn by (simp add: row_norm_def)
  finally show ?thesis .
qed

lemma card_overlap_le:
  assumes "length a = k" "distinct a" shows "card (set a \<inter> set b) \<le> k"
  using assms by (metis card_mono distinct_card inf_le1 List.finite_set)

lemma sum_list_le: "(\<And>x. x \<in> set xs \<Longrightarrow> x \<le> c) \<Longrightarrow> sum_list xs \<le> length xs * (c :: nat)"
  by (induction xs) (auto intro: add_mono)

lemma share_le_1: "a \<le> n * k \<Longrightarrow> 0 \<le> real a / real n / real k \<and> real a / real n / real k \<le> 1"
  by (cases "n = 0 \<or> k = 0") (auto simp: divide_simps simp flip: of_nat_mult)

lemma sum_list_const: "(\<And>x. x \<in> set xs \<Longrightarrow> x = c) \<Longrightarrow> sum_list xs = of_nat (length xs) * (c :: 'a :: semiring_1)"
  by (induction xs) (auto simp: algebra_simps)

text \<open>
  The fidelity of an embedder measures directions, not lengths. When both graphs give one vector for
  each image and there are more than \<open>k\<close>, every image has \<open>k\<close> distinct neighbours, never itself, and
  the recall is between 0 and 1; if every quantised vector is a positive multiple of the exact
  one, recall and mean similarity are exactly 1. With at most \<open>k\<close> images the measurement is refused.
\<close>

theorem fidelity_ignores_length:
  assumes "partition_ok f" "0 < kk"
    and "embed_all fp32_session images num_samples batch_size = Inr A"
    and "embed_all int8_session images num_samples batch_size = Inr B" "length B = length A"
  shows "case evaluate_embedding_fidelity f fp32_session int8_session images num_samples batch_size kk of
      Inl e \<Rightarrow> length A \<le> kk
    | Inr m \<Rightarrow> kk < length A \<and> fd_num_samples m = real (length A) \<and> 0 \<le> fd_recall_at_k m \<and> fd_recall_at_k m \<le> 1
        \<and> (\<forall>i < length A. i \<notin> set (neighbours f kk (map unit_row A) (map unit_row B) ! i)
              \<and> card (set (neighbours f kk (map unit_row A) (map unit_row B) ! i)) = kk)
        \<and> ((\<forall>i < length A. row_norm (A ! i) \<noteq> 0 \<and> (\<exists>c > 0. B ! i = map ((*) c) (A ! i)))
              \<longrightarrow> fd_recall_at_k m = 1 \<and> fd_mean_cosine m = 1)"
proof (cases "length A \<le> kk")
  case True
  then show ?thesis using assms by (simp add: evaluate_embedding_fidelity_def)
next
  case False
  let ?A = "map unit_row A" and ?B = "map unit_row B"
  let ?na = "neighbours f kk ?A ?A" and ?nb = "neighbours f kk ?A ?B"
  let ?ov = "map2 (\<lambda>a b. card (set a \<inter> set b)) ?na ?nb" and ?cos = "map2 dot ?A ?B"
  let ?n = "length A"
  have k: "kk < length ?A" using False by simp
  let ?m = "\<lparr>fd_mean_cosine = sum_list ?cos / real (length ?cos), fd_recall_at_k = real (sum_list ?ov) / real (length ?ov) / real kk,
      fd_top_k = real kk, fd_num_samples = real (length ?A)\<rparr>"
  have ev: "evaluate_embedding_fidelity f fp32_session int8_session images num_samples batch_size kk = Inr ?m"
    using assms False by (simp add: evaluate_embedding_fidelity_def Let_def)
  have len: "length ?na = ?n" "length ?nb = ?n" "length ?ov = ?n" "length ?cos = ?n"
    using assms(5) by (simp_all add: neighbours_def)
  note row = neighbours_row [OF assms(1) k]
  have le: "x \<le> kk" if "x \<in> set ?ov" for x
  proof -
    from that obtain i where i: "i < ?n" "x = card (set (?na ! i) \<inter> set (?nb ! i))"
      using len by (auto simp: in_set_conv_nth)
    then show ?thesis using card_overlap_le [of "?na ! i" kk "?nb ! i"] row(1,2) [of ?A i] by simp
  qed
  have "sum_list ?ov \<le> length ?ov * kk"
    using le by (rule sum_list_le)
  then have bounds: "0 \<le> fd_recall_at_k ?m" "fd_recall_at_k ?m \<le> 1"
    using share_le_1 [of "sum_list ?ov" "length ?ov" kk] len(3) k assms(2) unfolding fidelity.simps by (linarith, linarith)
  have others: "i \<notin> set (?nb ! i) \<and> card (set (?nb ! i)) = kk" if "i < ?n" for i
    using row [of ?B i] that assms(5) by (simp add: distinct_card)
  have exact: "fd_recall_at_k ?m = 1 \<and> fd_mean_cosine ?m = 1"
    if h: "\<forall>i < ?n. row_norm (A ! i) \<noteq> 0 \<and> (\<exists>c > 0. B ! i = map ((*) c) (A ! i))"
  proof -
    have AB: "?B = ?A" using h assms(5) unit_row_scaled by (intro nth_equalityI) auto
    have "x = kk" if "x \<in> set ?ov" for x
    proof -
      from that obtain i where i: "i < ?n" "x = card (set (?na ! i))"
        unfolding AB using len(1) by (auto simp: in_set_conv_nth)
      then show ?thesis using row(1,2) [of ?A i] by (simp add: distinct_card)
    qed
    then have "sum_list ?ov = of_nat (length ?ov) * kk" by (rule sum_list_const)
    then have "real (sum_list ?ov) = real (length ?ov) * real kk" by (simp only: of_nat_id of_nat_mult)
    moreover have "sum_list ?cos = real (length ?cos) * 1"
    proof (rule sum_list_const)
      fix x assume "x \<in> set ?cos"
      then obtain i where "i < ?n" "x = dot (unit_row (A ! i)) (unit_row (A ! i))"
        unfolding AB by (auto simp: in_set_conv_nth)
      then show "x = 1" using h dot_unit_row by simp
    qed
    moreover have "A \<noteq> []" using k by auto
    ultimately show ?thesis using len(3,4) assms(2) by simp
  qed
  have "kk < ?n" "fd_num_samples ?m = real ?n" using False by simp_all
  with bounds others exact show ?thesis unfolding ev sum.case by blast
qed

text \<open>A full sort of the indices is such an \<open>argpartition\<close>.\<close>

fun flt_key :: "flt \<Rightarrow> nat \<times> real" where
  "flt_key (Inf True) = (0, 0)"
| "flt_key (Fin x) = (1, x)"
| "flt_key (Inf False) = (2, 0)"
| "flt_key NaN = (3, 0)"

definition sort_partition :: partition_fn where
  "sort_partition xs k = sort_key (\<lambda>i. flt_key (xs ! i)) [0..<length xs]"

lemma flt_less_key: "flt_less x y \<Longrightarrow> flt_key x < flt_key y"
  by (cases "(x, y)" rule: flt_less.cases) (auto elim!: flt_key.elims)

lemma sort_partition_ok: "partition_ok sort_partition"
  unfolding partition_ok_def
proof (intro allI impI conjI ballI)
  fix xs :: "flt list" and k a b
  let ?p = "sort_partition xs k"
  show "mset ?p = mset [0..<length xs]" by (simp add: sort_partition_def)
  assume a: "a \<in> set (take k ?p)" and b: "b \<in> set (drop k ?p)"
  have "sorted (map (\<lambda>i. flt_key (xs ! i)) ?p)" by (simp add: sort_partition_def)
  then have "sorted (map (\<lambda>i. flt_key (xs ! i)) (take k ?p) @ map (\<lambda>i. flt_key (xs ! i)) (drop k ?p))"
    by (simp flip: map_append)
  then have "flt_key (xs ! a) \<le> flt_key (xs ! b)" using a b by (auto simp: sorted_append)
  then show "\<not> flt_less (xs ! b) (xs ! a)" using flt_less_key leD by blast
qed

text \<open>An embedder whose quantised vectors are twice as long.\<close>

theorem fidelity_ignores_length_witness:
  "\<exists>m. evaluate_embedding_fidelity sort_partition (\<lambda>as. Inr (map (\<lambda>a. [a, 1]) as)) (\<lambda>as. Inr (map (\<lambda>a. [2 * a, 2]) as))
       [Inr 1, Inr 2, Inr 5] 10 2 1 = Inr m \<and> fd_recall_at_k m = 1 \<and> fd_mean_cosine m = 1"
proof -
  let ?A = "[[1, 1], [2, 1], [5, 1 :: real]]" and ?B = "[[2, 2], [4, 2], [10, 2 :: real]]"
  let ?im = "[Inr 1, Inr 2, Inr 5] :: real result list"
  have sl: "slices 2 ?im = [[Inr 1, Inr 2], [Inr 5]]" by (simp add: slices_step)
  have A: "embed_all (\<lambda>as. Inr (map (\<lambda>a. [a, 1]) as)) ?im 10 2 = Inr ?A" by (simp add: embed_all_def sl)
  have B: "embed_all (\<lambda>as. Inr (map (\<lambda>a. [2 * a, 2]) as)) ?im 10 2 = Inr ?B" by (simp add: embed_all_def sl)
  have "\<forall>i < length ?A. row_norm (?A ! i) \<noteq> 0 \<and> (\<exists>c > 0. ?B ! i = map ((*) c) (?A ! i))"
    by (auto simp: less_Suc_eq row_norm_def dot_def intro!: exI [of _ 2])
  with fidelity_ignores_length [OF sort_partition_ok zero_less_one A B]
  show ?thesis
    by (cases "evaluate_embedding_fidelity sort_partition (\<lambda>as. Inr (map (\<lambda>a. [a, 1]) as)) (\<lambda>as. Inr (map (\<lambda>a. [2 * a, 2]) as)) ?im 10 2 1")
      simp_all
qed

text \<open>A rotation keeps the neighbours of a space but not the similarity to the vectors before it: turned by
  a right angle every vector is orthogonal to the one it was.\<close>

lemma rotation_lowers_cosine: "dot [x, y] [- y, x] = 0"
  by (simp add: dot_def)

end
