(* ===== verification/Publishing.thy ===== *)
theory Publishing
  imports Model_Service Drift Checkpoints
begin

text \<open>
  From a training run to what the service loads: the ONNX exporters
  (\<open>models/optimisation/export.py\<close>, \<open>export_detection.py\<close>, \<open>export_embedding.py\<close>), their
  verification, and \<open>scripts/prepare_artifacts.py\<close>, which lays out the artefact directory. The
  directory is a store of files that every step reads and writes; \<open>fs_of\<close> is what the model service
  sees of it. Tracing, the ONNX checker, the comparison of one batch and quantisation are
  parameters; a graph is named by a string.
\<close>

section \<open>The artefact directory\<close>

type_synonym graph = string

datatype artefact =
    Labels_Json labels_file string string
  | Metrics_Json "(string, pyval) dict"
  | Onnx_File graph
  | Det_Labels_Json det_labels_file

record store =
  sr_files :: "(path, artefact) dict"
  sr_dirs :: "path list"

definition write_file :: "path \<Rightarrow> artefact \<Rightarrow> store \<Rightarrow> store" where
  "write_file p x S = S\<lparr>sr_files := dict_set p x (sr_files S)\<rparr>"

definition file_exists :: "store \<Rightarrow> path \<Rightarrow> bool" where
  "file_exists S p \<longleftrightarrow> dict_get (sr_files S) p \<noteq> None \<or> p \<in> set (sr_dirs S)"

text \<open>\<open>mkdir(parents=True, exist_ok=True)\<close>.\<close>

definition make_dirs :: "path \<Rightarrow> store \<Rightarrow> store" where
  "make_dirs d S = S\<lparr>sr_dirs := remdups (sr_dirs S @ map (\<lambda>n. take n d) [1..<length d + 1])\<rparr>"

definition decode_error :: "path \<Rightarrow> exn" where
  "decode_error p = PyExc ''JSONDecodeError'' (path_str p)"

text \<open>What the model service sees.\<close>

definition fs_of :: "store \<Rightarrow> fs" where
  "fs_of S =
     \<lparr>fs_exists = file_exists S,
      fs_entries = (\<lambda>d. map (\<lambda>p. (last p, False)) (filter (\<lambda>p. p \<noteq> [] \<and> butlast p = d) (map fst (sr_files S)))
                      @ map (\<lambda>p. (last p, True)) (filter (\<lambda>p. p \<noteq> [] \<and> butlast p = d) (sr_dirs S))),
      fs_labels = (\<lambda>p. case dict_get (sr_files S) p of Some (Labels_Json lf _ _) \<Rightarrow> Inr lf | _ \<Rightarrow> Inl (decode_error p)),
      fs_metrics = (\<lambda>p. case dict_get (sr_files S) p of Some (Metrics_Json d) \<Rightarrow> Inr d | _ \<Rightarrow> Inl (decode_error p)),
      fs_det_labels = (\<lambda>p. case dict_get (sr_files S) p of Some (Det_Labels_Json d) \<Rightarrow> Inr d | _ \<Rightarrow> Inl (decode_error p)),
      fs_size = (\<lambda>_. 0)\<rparr>"

section \<open>Exporting a graph\<close>

text \<open>Steps on the store that may raise, the store staying as it is at that point.\<close>

type_synonym 'a step_on = "store \<Rightarrow> store \<times> 'a result"

definition then_do :: "'a step_on \<Rightarrow> ('a \<Rightarrow> 'b step_on) \<Rightarrow> 'b step_on" where
  "then_do f g S = (case f S of (S', Inl e) \<Rightarrow> (S', Inl e) | (S', Inr x) \<Rightarrow> g x S')"

definition pure_step :: "'a result \<Rightarrow> 'a step_on" where
  "pure_step r S = (S, r)"

definition do_write :: "path \<Rightarrow> artefact \<Rightarrow> unit step_on" where
  "do_write p x S = (write_file p x S, Inr ())"

text \<open>A model to export: what \<open>torch.onnx.export\<close> gives, the checker's verdict on a graph, and the
  largest difference between the two runtimes on a batch of a size.\<close>

record tracer =
  tc_export :: "graph result"
  tc_check :: "graph \<Rightarrow> unit result"
  tc_difference :: "graph \<Rightarrow> nat \<Rightarrow> real result"

definition atol :: real where
  "atol = 1 / 10 ^ 4"

definition detection_atol :: real where
  "detection_atol = 1 / 10 ^ 2"

definition export_error :: "string \<Rightarrow> exn" where
  "export_error m = PyExc ''ExportError'' m"

fun max_difference :: "(nat \<Rightarrow> real result) \<Rightarrow> nat list \<Rightarrow> real \<Rightarrow> real result" where
  "max_difference f [] d = Inr d"
| "max_difference f (n # ns) d = res_bind (f n) (\<lambda>x. max_difference f ns (max d x))"

text \<open>\<open>verify_onnx_equivalence\<close>, \<open>_verify_embeddings\<close> and \<open>_verify\<close>: batches of one and of three.\<close>

definition verify_onnx_equivalence :: "tracer \<Rightarrow> graph \<Rightarrow> real result" where
  "verify_onnx_equivalence tc g = max_difference (tc_difference tc g) [1, 3] 0"

text \<open>The body the three exporters share: trace to the output path, check, compare. The texts of the
  two errors differ.\<close>

definition export_graph :: "string \<Rightarrow> real \<Rightarrow> (real \<Rightarrow> string) \<Rightarrow> tracer \<Rightarrow> path \<Rightarrow> real step_on" where
  "export_graph failed tolerance diverges_text tc output_path =
     then_do (pure_step (case tc_export tc of Inl e \<Rightarrow> Inl (export_error (failed @ exn_str e)) | Inr g \<Rightarrow> Inr g)) (\<lambda>g.
     then_do (do_write output_path (Onnx_File g)) (\<lambda>_.
     then_do (pure_step (tc_check tc g)) (\<lambda>_.
     then_do (pure_step (verify_onnx_equivalence tc g)) (\<lambda>max_diff.
     pure_step (if tolerance < max_diff then Inl (export_error (diverges_text max_diff)) else Inr max_diff)))))"

definition export_onnx :: "tracer \<Rightarrow> path \<Rightarrow> real step_on" where
  "export_onnx = export_graph ''ONNX export failed: '' atol
     (\<lambda>d. ''Exported ONNX graph diverges from the PyTorch model (max |diff| = '' @ fmt_sci 3 d
        @ '' > 1e-04). The export is not numerically equivalent and must not be deployed.'')"

definition export_embedding_onnx :: "tracer \<Rightarrow> path \<Rightarrow> real step_on" where
  "export_embedding_onnx = export_graph ''Embedding ONNX export failed: '' atol
     (\<lambda>d. ''Embedding export diverges from PyTorch (max |diff| = '' @ fmt_sci 3 d @ '')'')"

definition export_detection_onnx :: "tracer \<Rightarrow> det_labels_file result \<Rightarrow> path \<Rightarrow> det_labels_file step_on" where
  "export_detection_onnx tc metadata output_path =
     then_do (export_graph ''Detection ONNX export failed: '' detection_atol
       (\<lambda>d. ''Exported detection graph diverges from PyTorch (max |diff| = '' @ fmt_sci 3 d @ '' > 1e-02).'') tc output_path)
       (\<lambda>_. pure_step metadata)"

text \<open>\<open>load_classifier_from_run\<close>: the newest weights by epoch number among the names of the weight
  directories.\<close>

definition epoch_number :: "string \<Rightarrow> nat result" where
  "epoch_number name =
     (let n = takeWhile (\<lambda>c. c \<noteq> CHR ''_'') (drop 6 name)
      in if n \<noteq> [] \<and> list_all is_digit n then Inr (read_nat n)
         else Inl (PyExc ''ValueError'' (''invalid literal for int() with base 10: '' @ py_repr n)))"

definition latest_weights :: "string list \<Rightarrow> string result" where
  "latest_weights names =
     (let candidates = filter (\<lambda>n. starts_with n ''epoch_'') names
      in res_bind (map_res (\<lambda>n. map_sum id (\<lambda>k. (k, n)) (epoch_number n)) candidates) (\<lambda>keyed.
         if keyed = [] then Inl (export_error ''No weight directories'')
         else Inr (snd (last (sort_key fst keyed)))))"

section \<open>Publishing a run\<close>

text \<open>A training run: its task, the fields of \<open>config.json\<close> that are used, its sidecar files, and the
  classifier and embedder that are rebuilt from its weights (or why they cannot be).\<close>

record train_run =
  tr_task :: string
  tr_image_size :: int
  tr_model_name :: string
  tr_labels :: "labels_file option"
  tr_metrics :: "(string, pyval) dict option"
  tr_classifier :: "tracer result"
  tr_embedder :: "tracer result"

record publish_args =
  pa_version :: string
  pa_skip_int8 :: bool
  pa_with_detection :: bool
  pa_with_similarity :: bool
  pa_all_models :: bool
  pa_force :: bool

text \<open>The detector of a detection run, or the pretrained one, with its metadata; and what quantisation
  leaves at its output path, the task saying which calibration data it uses. An exception of
  quantisation is swallowed by its caller, whatever it has written.\<close>

record publish_env =
  pe_detector :: "train_run option \<Rightarrow> (tracer \<times> det_labels_file result) result"
  pe_quantize :: "string \<Rightarrow> graph \<Rightarrow> graph option"

definition export_int8 :: "publish_env \<Rightarrow> string \<Rightarrow> path \<Rightarrow> path \<Rightarrow> unit step_on" where
  "export_int8 env task fp32_path int8_path S =
     (case dict_get (sr_files S) fp32_path of
        Some (Onnx_File g) \<Rightarrow>
          (case pe_quantize env task g of
             Some q \<Rightarrow> (write_file int8_path (Onnx_File q) S, Inr ())
           | None \<Rightarrow> (S, Inr ()))
      | _ \<Rightarrow> (S, Inr ()))"

definition onnx_dir_for :: "path \<Rightarrow> string \<Rightarrow> path" where
  "onnx_dir_for art version = (if version = default_version then art @ [''onnx''] else art @ [''onnx'', version])"

definition labels_dir_for :: "path \<Rightarrow> string \<Rightarrow> path" where
  "labels_dir_for art version = (if version = default_version then art else onnx_dir_for art version)"

definition publish_labels :: "string \<Rightarrow> path \<Rightarrow> train_run \<Rightarrow> unit step_on" where
  "publish_labels version labels_dir run =
     (let shared = (tr_task run = ''classification'' \<or> version \<noteq> default_version)
      in then_do
        (case tr_labels run of
           Some lf \<Rightarrow>
             (if shared
              then do_write (labels_dir @ [''labels.json''])
                     (Labels_Json (lf\<lparr>lf_image_size := Some (tr_image_size run)\<rparr>) (tr_model_name run) version)
              else pure_step (Inr ()))
         | None \<Rightarrow> pure_step (Inr ()))
        (\<lambda>_. case tr_metrics run of
           Some d \<Rightarrow> (if shared then do_write (labels_dir @ [''metrics.json'']) (Metrics_Json d) else pure_step (Inr ()))
         | None \<Rightarrow> pure_step (Inr ())))"

definition publish_classifier :: "publish_env \<Rightarrow> publish_args \<Rightarrow> path \<Rightarrow> train_run \<Rightarrow> unit step_on" where
  "publish_classifier env args onnx_dir run =
     (let fp32_path = onnx_dir @ [''classifier_fp32.onnx'']; int8_path = onnx_dir @ [''classifier_int8.onnx'']
      in then_do
        (\<lambda>S. if tr_task run \<noteq> ''classification'' then (S, Inr ())
             else if file_exists S fp32_path \<and> \<not> pa_force args then (S, Inr ())
             else then_do (pure_step (tr_classifier run)) (\<lambda>model.
                  then_do (export_onnx model fp32_path) (\<lambda>_. pure_step (Inr ()))) S)
        (\<lambda>_ S. if tr_task run \<noteq> ''classification'' \<or> pa_skip_int8 args then (S, Inr ())
             else if file_exists S int8_path \<and> \<not> pa_force args then (S, Inr ())
             else export_int8 env ''classification'' fp32_path int8_path S))"

definition publish_detector ::
  "publish_env \<Rightarrow> publish_args \<Rightarrow> path \<Rightarrow> path \<Rightarrow> train_run \<Rightarrow> unit step_on" where
  "publish_detector env args onnx_dir labels_dir run =
     (let detector_path = onnx_dir @ [''detector_fp32.onnx'']; int8_path = onnx_dir @ [''detector_int8.onnx''];
          want = (pa_with_detection args \<or> pa_all_models args)
      in then_do
        (\<lambda>S. if want \<and> (\<not> file_exists S detector_path \<or> pa_force args)
             then then_do (pure_step (pe_detector env (if tr_task run = ''detection'' then Some run else None))) (\<lambda>(model, metadata).
                  then_do (export_detection_onnx model metadata detector_path) (\<lambda>d.
                  do_write (labels_dir @ [''detection_labels.json'']) (Det_Labels_Json d))) S
             else (S, Inr ()))
        (\<lambda>_ S. if \<not> want \<or> pa_skip_int8 args then (S, Inr ())
             else if file_exists S int8_path \<and> \<not> pa_force args then (S, Inr ())
             else if \<not> file_exists S detector_path then (S, Inr ())
             else export_int8 env ''detection'' detector_path int8_path S))"

definition publish_embedder :: "publish_env \<Rightarrow> publish_args \<Rightarrow> path \<Rightarrow> train_run \<Rightarrow> unit step_on" where
  "publish_embedder env args onnx_dir run =
     (let embedder_path = onnx_dir @ [''embedder_fp32.onnx'']; int8_path = onnx_dir @ [''embedder_int8.onnx''];
          want = (pa_with_similarity args \<or> pa_all_models args)
      in then_do
        (\<lambda>S. if want \<and> (\<not> file_exists S embedder_path \<or> pa_force args)
             then then_do (pure_step (tr_embedder run)) (\<lambda>model.
                  then_do (export_embedding_onnx model embedder_path) (\<lambda>_. pure_step (Inr ()))) S
             else (S, Inr ()))
        (\<lambda>_ S. if \<not> want \<or> pa_skip_int8 args then (S, Inr ())
             else if file_exists S int8_path \<and> \<not> pa_force args then (S, Inr ())
             else if \<not> file_exists S embedder_path then (S, Inr ())
             else export_int8 env ''embedding'' embedder_path int8_path S))"

text \<open>\<open>main\<close> of \<open>prepare_artifacts.py\<close>.\<close>

definition prepare_artifacts :: "publish_env \<Rightarrow> publish_args \<Rightarrow> path \<Rightarrow> train_run \<Rightarrow> unit step_on" where
  "prepare_artifacts env args art run S =
     (let version = pa_version args; onnx_dir = onnx_dir_for art version; labels_dir = labels_dir_for art version
      in then_do (publish_labels version labels_dir run) (\<lambda>_.
         then_do (publish_classifier env args onnx_dir run) (\<lambda>_.
         then_do (publish_detector env args onnx_dir labels_dir run) (\<lambda>_.
         publish_embedder env args onnx_dir run))) (make_dirs onnx_dir S))"

section \<open>What publishing touches\<close>

text \<open>A step on the store that writes no file outside \<open>ps\<close> and makes no directory.\<close>

definition writes_in :: "path set \<Rightarrow> 'a step_on \<Rightarrow> bool" where
  "writes_in ps f \<longleftrightarrow>
     (\<forall>S. sr_dirs (fst (f S)) = sr_dirs S
        \<and> (\<forall>p. p \<notin> ps \<longrightarrow> dict_get (sr_files (fst (f S))) p = dict_get (sr_files S) p))"

lemma writes_in_then:
  assumes "writes_in ps f" "\<And>x. writes_in ps (g x)"
  shows "writes_in ps (then_do f g)"
  unfolding writes_in_def
proof (intro allI conjI impI)
  fix S p
  obtain S' r where f: "f S = (S', r)" by (metis surj_pair)
  have S': "sr_dirs S' = sr_dirs S" "p \<notin> ps \<Longrightarrow> dict_get (sr_files S') p = dict_get (sr_files S) p" for p
    using assms(1) f by (auto simp: writes_in_def dest: spec [of _ S])
  show "sr_dirs (fst (then_do f g S)) = sr_dirs S"
    using assms(2) f S' by (auto simp: then_do_def writes_in_def split: sum.splits)
  show "dict_get (sr_files (fst (then_do f g S))) p = dict_get (sr_files S) p" if "p \<notin> ps"
    using assms(2) f S' that by (auto simp: then_do_def writes_in_def split: sum.splits)
qed

lemma writes_in_simps:
  "writes_in ps (pure_step r)" "writes_in ps (\<lambda>S. (S, r))" "p \<in> ps \<Longrightarrow> writes_in ps (do_write p x)"
  "p \<in> ps \<Longrightarrow> writes_in ps (export_int8 env task q p)"
  by (auto simp: writes_in_def pure_step_def do_write_def export_int8_def write_file_def dict_simps
      split: option.splits artefact.splits)

lemma writes_in_if: "writes_in ps f \<Longrightarrow> writes_in ps g \<Longrightarrow> writes_in ps (\<lambda>S. if P S then f S else g S)"
  by (simp add: writes_in_def)

lemma writes_in_mono: "writes_in ps f \<Longrightarrow> ps \<subseteq> qs \<Longrightarrow> writes_in qs f"
  by (auto simp: writes_in_def)

lemma writes_in_export: "p \<in> ps \<Longrightarrow> writes_in ps (export_graph failed tolerance t tc p)"
  unfolding export_graph_def by (intro writes_in_then writes_in_simps)

lemmas writes_in_intros = writes_in_then writes_in_if writes_in_simps writes_in_export

lemma writes_in_publish_labels:
  "writes_in {d @ [''labels.json''], d @ [''metrics.json'']} (publish_labels version d run)"
  unfolding publish_labels_def Let_def
  by (intro writes_in_then) (auto intro!: writes_in_simps split: option.splits)

lemma writes_in_publish_classifier:
  "writes_in {d @ [''classifier_fp32.onnx''], d @ [''classifier_int8.onnx'']} (publish_classifier env args d run)"
  unfolding publish_classifier_def Let_def export_onnx_def by (intro writes_in_intros) simp_all

lemma writes_in_publish_detector:
  "writes_in {d @ [''detector_fp32.onnx''], d @ [''detector_int8.onnx''], l @ [''detection_labels.json'']}
     (publish_detector env args d l run)"
  unfolding publish_detector_def Let_def export_detection_onnx_def
  by (intro writes_in_then writes_in_if writes_in_simps) (auto intro!: writes_in_intros)

lemma writes_in_publish_embedder:
  "writes_in {d @ [''embedder_fp32.onnx''], d @ [''embedder_int8.onnx'']} (publish_embedder env args d run)"
  unfolding publish_embedder_def Let_def export_embedding_onnx_def by (intro writes_in_intros) simp_all

definition graph_files :: "string list" where
  "graph_files = [''classifier_fp32.onnx'', ''classifier_int8.onnx'', ''detector_fp32.onnx'', ''detector_int8.onnx'',
     ''embedder_fp32.onnx'', ''embedder_int8.onnx'']"

definition sidecar_files :: "string list" where
  "sidecar_files = [''labels.json'', ''metrics.json'', ''detection_labels.json'']"

definition published_paths :: "path \<Rightarrow> string \<Rightarrow> path set" where
  "published_paths art v =
     {onnx_dir_for art v @ [n] | n. n \<in> set graph_files} \<union> {labels_dir_for art v @ [n] | n. n \<in> set sidecar_files}"

lemma prepare_frame:
  assumes "prepare_artifacts env args art run S = (S', r)" "p \<notin> published_paths art (pa_version args)"
  shows "dict_get (sr_files S') p = dict_get (sr_files S) p"
    "\<not> prefix p (onnx_dir_for art (pa_version args)) \<Longrightarrow> file_exists S' p = file_exists S p"
proof -
  let ?v = "pa_version args" and ?o = "onnx_dir_for art (pa_version args)" and ?l = "labels_dir_for art (pa_version args)"
  have w: "writes_in (published_paths art ?v) (then_do (publish_labels ?v ?l run) (\<lambda>_.
       then_do (publish_classifier env args ?o run) (\<lambda>_.
       then_do (publish_detector env args ?o ?l run) (\<lambda>_. publish_embedder env args ?o run))))"
    by (intro writes_in_then writes_in_mono [OF writes_in_publish_labels] writes_in_mono [OF writes_in_publish_classifier]
        writes_in_mono [OF writes_in_publish_detector] writes_in_mono [OF writes_in_publish_embedder])
      (auto simp: published_paths_def graph_files_def sidecar_files_def)
  have run: "prepare_artifacts env args art run S = then_do (publish_labels ?v ?l run) (\<lambda>_.
       then_do (publish_classifier env args ?o run) (\<lambda>_.
       then_do (publish_detector env args ?o ?l run) (\<lambda>_. publish_embedder env args ?o run))) (make_dirs ?o S)"
    by (simp add: prepare_artifacts_def Let_def)
  have files: "dict_get (sr_files S') p = dict_get (sr_files S) p"
    using w assms unfolding run by (auto simp: writes_in_def make_dirs_def dest!: spec [of _ "make_dirs ?o S"])
  then show "dict_get (sr_files S') p = dict_get (sr_files S) p" .
  have "sr_dirs S' = sr_dirs (make_dirs ?o S)"
    using w assms(1) unfolding run by (auto simp: writes_in_def dest!: spec [of _ "make_dirs ?o S"])
  moreover have "p \<in> set (sr_dirs (make_dirs ?o S)) \<longleftrightarrow> p \<in> set (sr_dirs S)" if "\<not> prefix p ?o"
    using that by (auto simp: make_dirs_def take_is_prefix)
  ultimately show "file_exists S' p = file_exists S p" if "\<not> prefix p ?o"
    using files that by (simp add: file_exists_def)
qed

section \<open>Versions do not disturb each other\<close>

lemma is_version_head: "is_version v \<Longrightarrow> \<exists>rest. v = CHR ''v'' # rest"
  by (cases v) (auto simp: is_version_def chop_newline_def split: list.splits if_splits)

lemma not_published:
  assumes "is_version v" "w \<noteq> v"
  shows "n \<in> set graph_files \<union> set sidecar_files \<Longrightarrow> art @ [''onnx'', w, n] \<notin> published_paths art v"
    "n \<in> set graph_files \<union> set sidecar_files \<Longrightarrow> \<not> prefix (art @ [''onnx'', w, n]) (onnx_dir_for art v)"
    "v \<noteq> default_version \<Longrightarrow> n \<in> set graph_files \<union> set sidecar_files \<Longrightarrow> art @ [n] \<notin> published_paths art v"
    "v \<noteq> default_version \<Longrightarrow> n \<in> set graph_files \<union> set sidecar_files \<Longrightarrow> \<not> prefix (art @ [n]) (onnx_dir_for art v)"
    "v \<noteq> default_version \<Longrightarrow> n \<in> set graph_files \<Longrightarrow> art @ [''onnx'', n] \<notin> published_paths art v"
    "v \<noteq> default_version \<Longrightarrow> n \<in> set graph_files \<Longrightarrow> \<not> prefix (art @ [''onnx'', n]) (onnx_dir_for art v)"
  using assms is_version_head [OF assms(1)]
  by (auto simp: published_paths_def onnx_dir_for_def labels_dir_for_def graph_files_def sidecar_files_def default_version_def)

lemma fs_of_simps [simp]:
  "fs_exists (fs_of S) = file_exists S"
  "fs_labels (fs_of S) p = (case dict_get (sr_files S) p of Some (Labels_Json lf _ _) \<Rightarrow> Inr lf | _ \<Rightarrow> Inl (decode_error p))"
  "fs_metrics (fs_of S) p = (case dict_get (sr_files S) p of Some (Metrics_Json d) \<Rightarrow> Inr d | _ \<Rightarrow> Inl (decode_error p))"
  "fs_det_labels (fs_of S) p = (case dict_get (sr_files S) p of Some (Det_Labels_Json d) \<Rightarrow> Inr d | _ \<Rightarrow> Inl (decode_error p))"
  by (simp_all add: fs_of_def)

lemma metadata_cong:
  assumes "\<And>n. n \<in> set sidecar_files \<Longrightarrow> file_exists S' (art @ [''onnx'', w, n]) = file_exists S (art @ [''onnx'', w, n])"
    and "\<And>n. w = default_version \<Longrightarrow> n \<in> set sidecar_files \<Longrightarrow> file_exists S' (art @ [n]) = file_exists S (art @ [n])"
  shows "n \<in> set sidecar_files \<Longrightarrow> resolve_versioned_metadata (fs_of S') art n w = resolve_versioned_metadata (fs_of S) art n w"
  using assms(1) [of n] assms(2) [of n] by (auto simp: resolve_versioned_metadata_def Let_def)

lemma resolved_metadata:
  "resolve_versioned_metadata F art n w = Some p \<Longrightarrow> p = art @ [''onnx'', w, n] \<or> w = default_version \<and> p = art @ [n]"
  by (auto simp: resolve_versioned_metadata_def Let_def split: if_splits)

text \<open>What the service reads beside the graphs depends on the sidecar files alone.\<close>

lemma metadata_unchanged:
  assumes "\<And>n. n \<in> set sidecar_files \<Longrightarrow> dict_get (sr_files S') (art @ [''onnx'', w, n]) = dict_get (sr_files S) (art @ [''onnx'', w, n])"
    and "\<And>n. n \<in> set sidecar_files \<Longrightarrow> file_exists S' (art @ [''onnx'', w, n]) = file_exists S (art @ [''onnx'', w, n])"
    and "\<And>n. w = default_version \<Longrightarrow> n \<in> set sidecar_files \<Longrightarrow> dict_get (sr_files S') (art @ [n]) = dict_get (sr_files S) (art @ [n])"
    and "\<And>n. w = default_version \<Longrightarrow> n \<in> set sidecar_files \<Longrightarrow> file_exists S' (art @ [n]) = file_exists S (art @ [n])"
  shows "read_classifier_metadata (fs_of S') art w = read_classifier_metadata (fs_of S) art w"
    "read_detector_metadata (fs_of S') art w = read_detector_metadata (fs_of S) art w"
proof -
  have res: "resolve_versioned_metadata (fs_of S') art n w = resolve_versioned_metadata (fs_of S) art n w"
    if "n \<in> set sidecar_files" for n
    by (rule metadata_cong [OF _ _ that]) (use assms(2,4) in blast)+
  have content: "dict_get (sr_files S') p = dict_get (sr_files S) p"
    if "resolve_versioned_metadata (fs_of S) art n w = Some p" "n \<in> set sidecar_files" for n p
    using resolved_metadata [OF that(1)] assms(1,3) that(2) by blast
  have side: "''labels.json'' \<in> set sidecar_files" "''metrics.json'' \<in> set sidecar_files" "''detection_labels.json'' \<in> set sidecar_files"
    by (simp_all add: sidecar_files_def)
  have metrics: "(case resolve_versioned_metadata (fs_of S) art ''metrics.json'' w of None \<Rightarrow> a
        | Some q \<Rightarrow> res_bind (fs_metrics (fs_of S') q) f)
      = (case resolve_versioned_metadata (fs_of S) art ''metrics.json'' w of None \<Rightarrow> a
        | Some q \<Rightarrow> res_bind (fs_metrics (fs_of S) q) f)" for a :: "model_metadata result" and f
    using content [OF _ side(2)] by (auto split: option.splits)
  show "read_classifier_metadata (fs_of S') art w = read_classifier_metadata (fs_of S) art w"
  proof (cases "resolve_versioned_metadata (fs_of S) art ''labels.json'' w")
    case None
    then show ?thesis by (simp add: read_classifier_metadata_def res [OF side(1)])
  next
    case (Some p)
    have "fs_labels (fs_of S') p = fs_labels (fs_of S) p" using content [OF Some side(1)] by simp
    then show ?thesis
      unfolding read_classifier_metadata_def res [OF side(1)] res [OF side(2)] Some option.case(2) Let_def metrics by (simp only:)
  qed
  show "read_detector_metadata (fs_of S') art w = read_detector_metadata (fs_of S) art w"
  proof (cases "resolve_versioned_metadata (fs_of S) art ''detection_labels.json'' w")
    case None
    then show ?thesis by (simp add: read_detector_metadata_def res [OF side(3)])
  next
    case (Some p)
    have "fs_det_labels (fs_of S') p = fs_det_labels (fs_of S) p" using content [OF Some side(3)] by simp
    then show ?thesis unfolding read_detector_metadata_def res [OF side(3)] Some option.case(2) by (simp only:)
  qed
qed

text \<open>
  C11. Publishing a version leaves every other version as it was. Whatever the run, the options and the
  state of the directory, and whether publishing succeeds or fails part of the way, for every
  version other than the one published the service finds the same labels, metrics, detector
  metadata and graph files as before, with the same content.
\<close>

theorem publish_isolated:
  assumes "prepare_artifacts env args art run S = (S', r)" "is_version (pa_version args)" "w \<noteq> pa_version args"
  shows "read_classifier_metadata (fs_of S') art w = read_classifier_metadata (fs_of S) art w
    \<and> read_detector_metadata (fs_of S') art w = read_detector_metadata (fs_of S) art w
    \<and> (\<forall>n \<in> set graph_files.
         resolve_versioned_artifact (fs_of S') (art @ [''onnx'']) n w = resolve_versioned_artifact (fs_of S) (art @ [''onnx'']) n w
         \<and> dict_get (sr_files S') (resolve_versioned_artifact (fs_of S) (art @ [''onnx'']) n w)
             = dict_get (sr_files S) (resolve_versioned_artifact (fs_of S) (art @ [''onnx'']) n w))"
proof -
  let ?v = "pa_version args"
  have other: "w = default_version \<Longrightarrow> ?v \<noteq> default_version" using assms(3) by auto
  have keeps: "dict_get (sr_files S') p = dict_get (sr_files S) p" "file_exists S' p = file_exists S p"
    if "p \<notin> published_paths art ?v" "\<not> prefix p (onnx_dir_for art ?v)" for p
    using prepare_frame [OF assms(1) that(1)] that(2) by blast+
  note free = not_published [OF assms(2,3)]
  have versioned: "dict_get (sr_files S') (art @ [''onnx'', w, n]) = dict_get (sr_files S) (art @ [''onnx'', w, n])"
    "file_exists S' (art @ [''onnx'', w, n]) = file_exists S (art @ [''onnx'', w, n])"
    if "n \<in> set graph_files \<union> set sidecar_files" for n
    using keeps [OF free(1,2) [OF that]] by blast+
  have flat: "dict_get (sr_files S') (art @ [n]) = dict_get (sr_files S) (art @ [n])"
    "file_exists S' (art @ [n]) = file_exists S (art @ [n])" if "w = default_version" "n \<in> set sidecar_files" for n
    using keeps [OF free(3,4) [OF other [OF that(1)]]] that(2) by blast+
  have graph: "dict_get (sr_files S') (art @ [''onnx'', n]) = dict_get (sr_files S) (art @ [''onnx'', n])"
    if "w = default_version" "n \<in> set graph_files" for n
    using keeps(1) [OF free(5,6) [OF other [OF that(1)]]] that(2) by blast
  have side: "read_classifier_metadata (fs_of S') art w = read_classifier_metadata (fs_of S) art w"
    "read_detector_metadata (fs_of S') art w = read_detector_metadata (fs_of S) art w"
    by (rule metadata_unchanged; use versioned flat in blast)+
  have art: "resolve_versioned_artifact (fs_of S') (art @ [''onnx'']) n w = resolve_versioned_artifact (fs_of S) (art @ [''onnx'']) n w
      \<and> dict_get (sr_files S') (resolve_versioned_artifact (fs_of S) (art @ [''onnx'']) n w)
          = dict_get (sr_files S) (resolve_versioned_artifact (fs_of S) (art @ [''onnx'']) n w)"
    if "n \<in> set graph_files" for n
    using versioned [of n] graph [of n] that by (auto simp: resolve_versioned_artifact_def Let_def)
  show ?thesis using side art by blast
qed

section \<open>What is published is what is served\<close>

lemma entry_of_file: "dict_get (sr_files S) (d @ [n]) = Some x \<Longrightarrow> (n, False) \<in> set (fs_entries (fs_of S) d)"
proof -
  assume "dict_get (sr_files S) (d @ [n]) = Some x"
  then have "(d @ [n], x) \<in> set (sr_files S)" by (rule map_of_SomeD)
  then have "d @ [n] \<in> set (map fst (sr_files S))" by (metis fst_conv image_eqI list.set_map)
  then have "d @ [n] \<in> set (filter (\<lambda>p. p \<noteq> [] \<and> butlast p = d) (map fst (sr_files S)))" by simp
  then have "(last (d @ [n]), False) \<in> (\<lambda>p. (last p, False)) ` set (filter (\<lambda>p. p \<noteq> [] \<and> butlast p = d) (map fst (sr_files S)))"
    by (rule imageI)
  then show ?thesis by (simp add: fs_of_def)
qed

lemma entry_of_dir: "d @ [n] \<in> set (sr_dirs S) \<Longrightarrow> (n, True) \<in> set (fs_entries (fs_of S) d)"
proof -
  assume "d @ [n] \<in> set (sr_dirs S)"
  then have "d @ [n] \<in> set (filter (\<lambda>p. p \<noteq> [] \<and> butlast p = d) (sr_dirs S))" by simp
  then have "(last (d @ [n]), True) \<in> (\<lambda>p. (last p, True)) ` set (filter (\<lambda>p. p \<noteq> [] \<and> butlast p = d) (sr_dirs S))"
    by (rule imageI)
  then show ?thesis by (simp add: fs_of_def)
qed

lemma then_do_Inr: "then_do f g S = (S', Inr y) \<longleftrightarrow> (\<exists>S1 x. f S = (S1, Inr x) \<and> g x S1 = (S', Inr y))"
  by (auto simp: then_do_def split: prod.splits sum.splits)

lemma pure_step_eq: "pure_step r S = (S', x) \<longleftrightarrow> S' = S \<and> x = r"
  by (auto simp: pure_step_def)

lemma export_graph_Inr:
  assumes "export_graph failed tolerance t tc p S = (S', Inr diff)"
  shows "\<exists>g. tc_export tc = Inr g \<and> S' = write_file p (Onnx_File g) S \<and> tc_check tc g = Inr ()
    \<and> verify_onnx_equivalence tc g = Inr diff \<and> diff \<le> tolerance"
  using assms by (auto simp: export_graph_def then_do_Inr pure_step_eq do_write_def split: sum.splits if_splits)

lemma prepare_steps:
  assumes "prepare_artifacts env args art run S = (S', Inr ())"
  defines "v \<equiv> pa_version args"
  obtains S1 S2 where "publish_labels v (labels_dir_for art v) run (make_dirs (onnx_dir_for art v) S) = (S1, Inr ())"
    "publish_classifier env args (onnx_dir_for art v) run S1 = (S2, Inr ())"
    "sr_dirs S1 = sr_dirs (make_dirs (onnx_dir_for art v) S)" "sr_dirs S2 = sr_dirs S1" "sr_dirs S' = sr_dirs S2"
    "\<forall>n \<in> {''labels.json'', ''metrics.json''}.
       dict_get (sr_files S') (labels_dir_for art v @ [n]) = dict_get (sr_files S1) (labels_dir_for art v @ [n])"
    "dict_get (sr_files S') (onnx_dir_for art v @ [''classifier_fp32.onnx''])
       = dict_get (sr_files S2) (onnx_dir_for art v @ [''classifier_fp32.onnx''])"
    "dict_get (sr_files S1) (onnx_dir_for art v @ [''classifier_fp32.onnx''])
       = dict_get (sr_files S) (onnx_dir_for art v @ [''classifier_fp32.onnx''])"
proof -
  let ?o = "onnx_dir_for art v" and ?l = "labels_dir_for art v"
  obtain S1 S2 S3 where s: "publish_labels v ?l run (make_dirs ?o S) = (S1, Inr ())"
    "publish_classifier env args ?o run S1 = (S2, Inr ())" "publish_detector env args ?o ?l run S2 = (S3, Inr ())"
    "publish_embedder env args ?o run S3 = (S', Inr ())"
    using assms(1) by (auto simp: prepare_artifacts_def Let_def then_do_Inr v_def [symmetric])
  have w1: "sr_dirs S1 = sr_dirs (make_dirs ?o S)"
    "p \<notin> {?l @ [''labels.json''], ?l @ [''metrics.json'']} \<Longrightarrow> dict_get (sr_files S1) p = dict_get (sr_files S) p" for p
    using writes_in_publish_labels [of ?l v run] s(1) by (auto simp: writes_in_def make_dirs_def dest!: spec [of _ "make_dirs ?o S"])
  have w2: "sr_dirs S2 = sr_dirs S1"
    "p \<notin> {?o @ [''classifier_fp32.onnx''], ?o @ [''classifier_int8.onnx'']} \<Longrightarrow> dict_get (sr_files S2) p = dict_get (sr_files S1) p" for p
    using writes_in_publish_classifier [of ?o env args run] s(2) by (auto simp: writes_in_def dest!: spec [of _ S1])
  have w3: "sr_dirs S3 = sr_dirs S2"
    "p \<notin> {?o @ [''detector_fp32.onnx''], ?o @ [''detector_int8.onnx''], ?l @ [''detection_labels.json'']}
       \<Longrightarrow> dict_get (sr_files S3) p = dict_get (sr_files S2) p" for p
    using writes_in_publish_detector [of ?o ?l env args run] s(3) by (auto simp: writes_in_def dest!: spec [of _ S2])
  have w4: "sr_dirs S' = sr_dirs S3"
    "p \<notin> {?o @ [''embedder_fp32.onnx''], ?o @ [''embedder_int8.onnx'']} \<Longrightarrow> dict_get (sr_files S') p = dict_get (sr_files S3) p" for p
    using writes_in_publish_embedder [of ?o env args run] s(4) by (auto simp: writes_in_def dest!: spec [of _ S3])
  have names: "?l @ [n] \<notin> {?o @ [''classifier_fp32.onnx''], ?o @ [''classifier_int8.onnx'']}"
    "?l @ [n] \<notin> {?o @ [''detector_fp32.onnx''], ?o @ [''detector_int8.onnx''], ?l @ [''detection_labels.json'']}"
    "?l @ [n] \<notin> {?o @ [''embedder_fp32.onnx''], ?o @ [''embedder_int8.onnx'']}"
    if "n \<in> {''labels.json'', ''metrics.json''}" for n using that by auto
  have graph: "?o @ [''classifier_fp32.onnx''] \<notin> {?o @ [''detector_fp32.onnx''], ?o @ [''detector_int8.onnx''], ?l @ [''detection_labels.json'']}"
    "?o @ [''classifier_fp32.onnx''] \<notin> {?o @ [''embedder_fp32.onnx''], ?o @ [''embedder_int8.onnx'']}"
    "?o @ [''classifier_fp32.onnx''] \<notin> {?l @ [''labels.json''], ?l @ [''metrics.json'']}" by auto
  show thesis
  proof (rule that [OF s(1,2) w1(1) w2(1)])
    show "sr_dirs S' = sr_dirs S2" using w3(1) w4(1) by simp
    show "\<forall>n \<in> {''labels.json'', ''metrics.json''}. dict_get (sr_files S') (?l @ [n]) = dict_get (sr_files S1) (?l @ [n])"
    proof
      fix n assume n: "n \<in> {''labels.json'', ''metrics.json''}"
      show "dict_get (sr_files S') (?l @ [n]) = dict_get (sr_files S1) (?l @ [n])"
        using w2(2) [OF names(1) [OF n]] w3(2) [OF names(2) [OF n]] w4(2) [OF names(3) [OF n]] by simp
    qed
    show "dict_get (sr_files S') (?o @ [''classifier_fp32.onnx'']) = dict_get (sr_files S2) (?o @ [''classifier_fp32.onnx''])"
      using w3(2) [OF graph(1)] w4(2) [OF graph(2)] by simp
    show "dict_get (sr_files S1) (?o @ [''classifier_fp32.onnx'']) = dict_get (sr_files S) (?o @ [''classifier_fp32.onnx''])"
      using w1(2) [OF graph(3)] .
  qed
qed

lemma published_labels:
  assumes "publish_labels v l run S = (S', Inr ())" "tr_labels run = Some lf" "tr_metrics run = Some d"
    and "tr_task run = ''classification'' \<or> v \<noteq> default_version"
  shows "dict_get (sr_files S') (l @ [''labels.json''])
      = Some (Labels_Json (lf\<lparr>lf_image_size := Some (tr_image_size run)\<rparr>) (tr_model_name run) v)"
    "dict_get (sr_files S') (l @ [''metrics.json'']) = Some (Metrics_Json d)"
  using assms by (auto simp: publish_labels_def then_do_Inr do_write_def write_file_def dict_simps)

lemma published_classifier:
  assumes "publish_classifier env args o' run S = (S', Inr ())" "tr_task run = ''classification''"
    and "pa_force args \<or> \<not> file_exists S (o' @ [''classifier_fp32.onnx''])"
  shows "\<exists>tc g diff. tr_classifier run = Inr tc \<and> tc_export tc = Inr g \<and> verify_onnx_equivalence tc g = Inr diff \<and> diff \<le> atol
    \<and> dict_get (sr_files S') (o' @ [''classifier_fp32.onnx'']) = Some (Onnx_File g)"
proof -
  let ?p = "o' @ [''classifier_fp32.onnx'']" and ?q = "o' @ [''classifier_int8.onnx'']"
  obtain S1 where 1: "then_do (pure_step (tr_classifier run)) (\<lambda>model.
      then_do (export_onnx model ?p) (\<lambda>_. pure_step (Inr ()))) S = (S1, Inr ())"
    and 2: "(if pa_skip_int8 args then (S1, Inr ())
             else if file_exists S1 ?q \<and> \<not> pa_force args then (S1, Inr ())
             else export_int8 env ''classification'' ?p ?q S1) = (S', Inr ())"
    using assms by (auto simp: publish_classifier_def then_do_Inr Let_def)
  from 1 obtain tc diff where tc: "tr_classifier run = Inr tc" "export_onnx tc ?p S = (S1, Inr diff)"
    by (auto simp: then_do_Inr pure_step_eq dest: sym)
  from export_graph_Inr [OF tc(2) [unfolded export_onnx_def]] obtain g where g: "tc_export tc = Inr g"
    "S1 = write_file ?p (Onnx_File g) S" "verify_onnx_equivalence tc g = Inr diff" "diff \<le> atol" by blast
  have "dict_get (sr_files S1) ?p = Some (Onnx_File g)" by (simp add: g(2) write_file_def dict_simps)
  moreover have "writes_in {?q} (\<lambda>S. if pa_skip_int8 args then (S, Inr ())
             else if file_exists S ?q \<and> \<not> pa_force args then (S, Inr ())
             else export_int8 env ''classification'' ?p ?q S)" by (intro writes_in_intros) simp
  then have "dict_get (sr_files S') ?p = dict_get (sr_files S1) ?p"
    using 2 by (auto simp: writes_in_def dest!: spec [of _ S1])
  ultimately show ?thesis using tc(1) g by (auto intro!: exI)
qed

text \<open>
  C10. What is published is what is served. When a classification run is published as a version whose
  graph is new or forced, and publishing succeeds, then on the resulting directory the service
  discovers that version, reads the class names, image size and metrics of that run, and resolves
  the graph traced from that run's weights, which agreed with the model to the tolerance on every
  batch size compared.
\<close>

theorem publish_serves:
  assumes "prepare_artifacts env args art run S = (S', Inr ())" "is_version (pa_version args)"
    and "tr_task run = ''classification''" "tr_labels run = Some lf" "lf_class_names lf = Some names" "tr_metrics run = Some d"
    and "pa_force args \<or> \<not> file_exists S (onnx_dir_for art (pa_version args) @ [''classifier_fp32.onnx''])"
    and "pa_version args = default_version \<longrightarrow> (\<forall>n. \<not> file_exists S (art @ [''onnx'', default_version, n]))"
  shows "pa_version args \<in> set (discover_versions (fs_of S') (art @ [''onnx'']))
    \<and> read_classifier_metadata (fs_of S') art (pa_version args)
        = Inr \<lparr>md_class_names = names, md_wnids = (case lf_wnids lf of Some w \<Rightarrow> w | None \<Rightarrow> []),
               md_image_size = tr_image_size run, md_metrics = numeric_metrics d\<rparr>
    \<and> (\<exists>tc g diff p. tr_classifier run = Inr tc \<and> tc_export tc = Inr g \<and> verify_onnx_equivalence tc g = Inr diff \<and> diff \<le> atol
        \<and> artifact_for (fs_of S') art ONNX (pa_version args) = Some p \<and> dict_get (sr_files S') p = Some (Onnx_File g))"
proof -
  define v where "v = pa_version args"
  let ?o = "onnx_dir_for art v" and ?l = "labels_dir_for art v"
  let ?g = "?o @ [''classifier_fp32.onnx'']"
  obtain S1 S2 where s:
    "publish_labels v ?l run (make_dirs ?o S) = (S1, Inr ())" "publish_classifier env args ?o run S1 = (S2, Inr ())"
    "sr_dirs S1 = sr_dirs (make_dirs ?o S)" "sr_dirs S2 = sr_dirs S1" "sr_dirs S' = sr_dirs S2"
    "\<forall>n \<in> {''labels.json'', ''metrics.json''}. dict_get (sr_files S') (?l @ [n]) = dict_get (sr_files S1) (?l @ [n])"
    "dict_get (sr_files S') ?g = dict_get (sr_files S2) ?g" "dict_get (sr_files S1) ?g = dict_get (sr_files S) ?g"
    by (rule prepare_steps [OF assms(1), folded v_def]) blast
  have "?g \<in> set (sr_dirs S1) \<longleftrightarrow> ?g \<in> set (sr_dirs S)"
  proof -
    have "?g \<noteq> take n ?o" for n
    proof
      assume "?g = take n ?o"
      then have "length ?g = length (take n ?o)" by (rule arg_cong)
      then show False by simp
    qed
    then show ?thesis unfolding s(3) by (auto simp: make_dirs_def)
  qed
  then have "pa_force args \<or> \<not> file_exists S1 ?g" using assms(7) s(8) by (simp add: file_exists_def v_def)
  from published_classifier [OF s(2) assms(3) this] obtain tc g diff where tc: "tr_classifier run = Inr tc" "tc_export tc = Inr g"
    "verify_onnx_equivalence tc g = Inr diff" "diff \<le> atol" "dict_get (sr_files S') ?g = Some (Onnx_File g)"
    using s(7) by auto
  have lab: "dict_get (sr_files S') (?l @ [''labels.json''])
      = Some (Labels_Json (lf\<lparr>lf_image_size := Some (tr_image_size run)\<rparr>) (tr_model_name run) v)"
    "dict_get (sr_files S') (?l @ [''metrics.json'']) = Some (Metrics_Json d)"
    using published_labels [OF s(1) assms(4,6)] assms(3) s(6) by simp_all
  have shadow: "\<not> file_exists S' (art @ [''onnx'', default_version, n])" if "v = default_version" for n
  proof -
    have "art @ [''onnx'', default_version, n] \<notin> published_paths art v" "\<not> prefix (art @ [''onnx'', default_version, n]) ?o"
      using that by (auto simp: published_paths_def onnx_dir_for_def labels_dir_for_def)
    then show ?thesis using prepare_frame(2) [OF assms(1)] assms(8) that by (simp add: v_def)
  qed
  have files: "file_exists S' (?l @ [''labels.json''])" "file_exists S' (?l @ [''metrics.json''])" "file_exists S' ?g"
    using lab tc(5) by (simp_all add: file_exists_def)
  have res: "resolve_versioned_metadata (fs_of S') art n v = Some (?l @ [n])" if "file_exists S' (?l @ [n])" for n
    using that shadow by (auto simp: resolve_versioned_metadata_def labels_dir_for_def onnx_dir_for_def)
  have meta: "read_classifier_metadata (fs_of S') art v
      = Inr \<lparr>md_class_names = names, md_wnids = (case lf_wnids lf of Some w \<Rightarrow> w | None \<Rightarrow> []),
             md_image_size = tr_image_size run, md_metrics = numeric_metrics d\<rparr>"
    unfolding read_classifier_metadata_def res [OF files(1)] res [OF files(2)] using lab assms(5) by simp
  have art: "artifact_for (fs_of S') art ONNX v = Some ?g"
    using files(3) shadow by (auto simp: artifact_for_def resolve_versioned_artifact_def onnx_dir_for_def Let_def)
  have disc: "v \<in> set (discover_versions (fs_of S') (art @ [''onnx'']))"
  proof (cases "v = default_version")
    case True
    have "?o = art @ [''onnx'']" using True by (simp add: onnx_dir_for_def)
    then have "(''classifier_fp32.onnx'', False) \<in> set (fs_entries (fs_of S') (art @ [''onnx'']))"
      using entry_of_file [OF tc(5)] by (simp only:)
    moreover have "ends_with ''classifier_fp32.onnx'' ''.onnx''" by (simp add: ends_with_def)
    ultimately show ?thesis using True unfolding discover_versions_set by blast
  next
    case False
    then have o: "?o = art @ [''onnx'', v]" by (simp add: onnx_dir_for_def)
    have "?o \<in> set (sr_dirs (make_dirs ?o S))"
      by (auto simp: make_dirs_def o image_iff intro!: bexI [of _ "length (art @ [''onnx'', v])"])
    then have "(art @ [''onnx'']) @ [v] \<in> set (sr_dirs S')" unfolding s(3-5) o by simp
    then have "(v, True) \<in> set (fs_entries (fs_of S') (art @ [''onnx'']))" by (rule entry_of_dir)
    then show ?thesis using assms(2) unfolding discover_versions_set v_def by blast
  qed
  have "\<exists>tc g diff p. tr_classifier run = Inr tc \<and> tc_export tc = Inr g \<and> verify_onnx_equivalence tc g = Inr diff \<and> diff \<le> atol
        \<and> artifact_for (fs_of S') art ONNX v = Some p \<and> dict_get (sr_files S') p = Some (Onnx_File g)"
  proof (intro exI conjI)
    show "tr_classifier run = Inr tc" "tc_export tc = Inr g" "verify_onnx_equivalence tc g = Inr diff" "diff \<le> atol"
      by (rule tc)+
    show "artifact_for (fs_of S') art ONNX v = Some ?g" by (rule art)
    show "dict_get (sr_files S') ?g = Some (Onnx_File g)" by (rule tc(5))
  qed
  with disc meta show ?thesis unfolding v_def by (intro conjI)
qed

definition demo_tracer :: "real \<Rightarrow> tracer" where
  "demo_tracer diff = \<lparr>tc_export = Inr ''weights of run 7'', tc_check = (\<lambda>_. Inr ()), tc_difference = (\<lambda>_ _. Inr diff)\<rparr>"

definition demo_run_with :: "real \<Rightarrow> train_run" where
  "demo_run_with diff = \<lparr>tr_task = ''classification'', tr_image_size = 224, tr_model_name = ''vit'',
     tr_labels = Some \<lparr>lf_class_names = Some [''cat'', ''dog''], lf_wnids = None, lf_image_size = None\<rparr>,
     tr_metrics = Some [(''acc_top1'', PFloat (8/10))], tr_classifier = Inr (demo_tracer diff), tr_embedder = Inr (demo_tracer diff)\<rparr>"

definition demo_publish :: publish_args where
  "demo_publish = \<lparr>pa_version = ''v2'', pa_skip_int8 = False, pa_with_detection = False, pa_with_similarity = False,
     pa_all_models = False, pa_force = False\<rparr>"

definition demo_publish_env :: publish_env where
  "demo_publish_env = \<lparr>pe_detector = (\<lambda>_. Inl (export_error ''no detector'')), pe_quantize = (\<lambda>_ _. None)\<rparr>"

definition empty_store :: store where
  "empty_store = \<lparr>sr_files = [], sr_dirs = []\<rparr>"

definition v1_store :: store where
  "v1_store = \<lparr>sr_files = [([''art'', ''labels.json''],
       Labels_Json \<lparr>lf_class_names = Some [''owl''], lf_wnids = None, lf_image_size = Some 64\<rparr> ''cnn'' ''v1'')], sr_dirs = [[''art'']]\<rparr>"

text \<open>The steps whose result does not depend on the store.\<close>

lemma publish_labels_ok: "\<exists>S'. publish_labels v l run S = (S', Inr ())"
  by (auto simp: publish_labels_def then_do_def do_write_def pure_step_def Let_def split: option.splits)

lemma export_int8_ok: "\<exists>S'. export_int8 env task p q S = (S', Inr ())"
  by (auto simp: export_int8_def split: option.splits artefact.splits)

lemma export_graph_eq:
  assumes "tc_export tc = Inr g" "tc_check tc g = Inr ()" "verify_onnx_equivalence tc g = Inr diff"
  shows "export_graph failed tolerance t tc p S
    = (write_file p (Onnx_File g) S, if tolerance < diff then Inl (export_error (t diff)) else Inr diff)"
  using assms by (simp add: export_graph_def then_do_def pure_step_def do_write_def)

lemma detector_unwanted:
  "\<not> pa_with_detection args \<Longrightarrow> \<not> pa_all_models args \<Longrightarrow> publish_detector env args d l run S = (S, Inr ())"
  by (simp add: publish_detector_def then_do_def Let_def)

lemma embedder_unwanted:
  "\<not> pa_with_similarity args \<Longrightarrow> \<not> pa_all_models args \<Longrightarrow> publish_embedder env args d run S = (S, Inr ())"
  by (simp add: publish_embedder_def then_do_def Let_def)

lemma prepare_classifier_only:
  assumes "\<not> pa_with_detection args" "\<not> pa_with_similarity args" "\<not> pa_all_models args"
    and "publish_labels (pa_version args) (labels_dir_for art (pa_version args)) run
           (make_dirs (onnx_dir_for art (pa_version args)) S) = (S1, Inr ())"
  shows "prepare_artifacts env args art run S = publish_classifier env args (onnx_dir_for art (pa_version args)) run S1"
  using assms(1-3) unfolding prepare_artifacts_def Let_def then_do_def assms(4) prod.case sum.case
  by (simp add: detector_unwanted embedder_unwanted split: prod.splits sum.splits)

text \<open>The classifier step once its graph is there and when it is traced.\<close>

lemma classifier_step_kept:
  assumes "tr_task run = ''classification''" "file_exists S (d @ [''classifier_fp32.onnx''])" "\<not> pa_force args"
  shows "\<exists>S'. publish_classifier env args d run S = (S', Inr ())
    \<and> dict_get (sr_files S') (d @ [''classifier_fp32.onnx'']) = dict_get (sr_files S) (d @ [''classifier_fp32.onnx''])"
proof -
  let ?p = "d @ [''classifier_fp32.onnx'']" and ?q = "d @ [''classifier_int8.onnx'']"
  have step: "publish_classifier env args d run S = (if pa_skip_int8 args then (S, Inr ())
      else if file_exists S ?q then (S, Inr ()) else export_int8 env ''classification'' ?p ?q S)"
    using assms by (simp add: publish_classifier_def then_do_def Let_def)
  obtain S8 where 8: "export_int8 env ''classification'' ?p ?q S = (S8, Inr ())" using export_int8_ok by blast
  have "writes_in {?q} (export_int8 env ''classification'' ?p ?q)" by (rule writes_in_simps) simp
  then have "dict_get (sr_files S8) ?p = dict_get (sr_files S) ?p" using 8 by (auto simp: writes_in_def dest!: spec [of _ S])
  then show ?thesis unfolding step 8 by simp
qed

lemma classifier_step_traced:
  assumes "tr_task run = ''classification''" "\<not> file_exists S (d @ [''classifier_fp32.onnx'']) \<or> pa_force args"
    and "tr_classifier run = Inr tc" "tc_export tc = Inr g" "tc_check tc g = Inr ()" "verify_onnx_equivalence tc g = Inr diff"
  shows "\<exists>S' e. publish_classifier env args d run S = (S', if atol < diff then Inl (export_error e) else Inr ())
    \<and> (atol < diff \<longrightarrow> S' = write_file (d @ [''classifier_fp32.onnx'']) (Onnx_File g) S)"
proof -
  let ?p = "d @ [''classifier_fp32.onnx'']" and ?q = "d @ [''classifier_int8.onnx'']"
  let ?S = "write_file ?p (Onnx_File g) S"
  obtain S8 where 8: "export_int8 env ''classification'' ?p ?q ?S = (S8, Inr ())" using export_int8_ok by blast
  obtain e where export: "export_onnx tc ?p S = (?S, if atol < diff then Inl (export_error e) else Inr diff)"
    unfolding export_onnx_def export_graph_eq [OF assms(4-6)] by blast
  have "publish_classifier env args d run S
      = then_do (\<lambda>S. then_do (pure_step (tr_classifier run)) (\<lambda>model. then_do (export_onnx model ?p) (\<lambda>_. pure_step (Inr ()))) S)
        (\<lambda>_ S. if pa_skip_int8 args then (S, Inr ())
             else if file_exists S ?q \<and> \<not> pa_force args then (S, Inr ())
             else export_int8 env ''classification'' ?p ?q S) S"
    using assms(1,2) by (auto simp: publish_classifier_def then_do_def Let_def)
  also have "\<dots> = (if atol < diff then (?S, Inl (export_error e))
      else if pa_skip_int8 args \<or> file_exists ?S ?q \<and> \<not> pa_force args then (?S, Inr ()) else (S8, Inr ()))"
    using export 8 by (auto simp: then_do_def pure_step_def assms(3))
  finally show ?thesis by auto
qed

lemmas publish_demo = demo_tracer_def demo_run_with_def demo_publish_def

lemma demo_prepare:
  "\<exists>S. prepare_artifacts demo_publish_env demo_publish [''art''] (demo_run_with 0) S0 = (S, Inr ())"
proof -
  let ?v = "pa_version demo_publish" and ?run = "demo_run_with 0"
  obtain S1 where 1: "publish_labels ?v (labels_dir_for [''art''] ?v) ?run (make_dirs (onnx_dir_for [''art''] ?v) S0) = (S1, Inr ())"
    using publish_labels_ok by blast
  have run: "prepare_artifacts demo_publish_env demo_publish [''art''] ?run S0
      = publish_classifier demo_publish_env demo_publish (onnx_dir_for [''art''] ?v) ?run S1"
    by (rule prepare_classifier_only [OF _ _ _ 1]) (simp_all add: demo_publish_def)
  let ?p = "onnx_dir_for [''art''] ?v @ [''classifier_fp32.onnx'']"
  have tc: "tr_task ?run = ''classification''" "tr_classifier ?run = Inr (demo_tracer 0)" "tc_export (demo_tracer 0) = Inr ''weights of run 7''"
    "tc_check (demo_tracer 0) ''weights of run 7'' = Inr ()" "verify_onnx_equivalence (demo_tracer 0) ''weights of run 7'' = Inr 0"
    by (simp_all add: publish_demo verify_onnx_equivalence_def)
  show ?thesis
  proof (cases "file_exists S1 ?p")
    case True
    moreover have "\<not> pa_force demo_publish" by (simp add: demo_publish_def)
    ultimately show ?thesis unfolding run using classifier_step_kept [OF tc(1)] by blast
  next
    case False
    then have "\<not> file_exists S1 ?p \<or> pa_force demo_publish" ..
    from classifier_step_traced [OF tc(1) this tc(2-5), of demo_publish_env] show ?thesis unfolding run by (auto simp: atol_def)
  qed
qed

lemma v2_is_version: "is_version ''v2''"
  by (simp add: is_version_def chop_newline_def is_digit_def)

theorem publish_isolated_witness:
  "\<exists>S. prepare_artifacts demo_publish_env demo_publish [''art''] (demo_run_with 0) v1_store = (S, Inr ())
     \<and> read_classifier_metadata (fs_of S) [''art''] ''v1''
        = Inr \<lparr>md_class_names = [''owl''], md_wnids = [], md_image_size = 64, md_metrics = []\<rparr>"
proof -
  obtain S where S: "prepare_artifacts demo_publish_env demo_publish [''art''] (demo_run_with 0) v1_store = (S, Inr ())"
    using demo_prepare by blast
  have "pa_version demo_publish = ''v2''" by (simp add: demo_publish_def)
  then have "read_classifier_metadata (fs_of S) [''art''] ''v1'' = read_classifier_metadata (fs_of v1_store) [''art''] ''v1''"
    using publish_isolated [OF S, of "''v1''"] v2_is_version by simp
  also have "\<dots> = Inr \<lparr>md_class_names = [''owl''], md_wnids = [], md_image_size = 64, md_metrics = []\<rparr>"
    by (simp add: read_classifier_metadata_def resolve_versioned_metadata_def v1_store_def file_exists_def default_version_def)
  finally show ?thesis using S by blast
qed

theorem publish_serves_witness:
  "\<exists>S. prepare_artifacts demo_publish_env demo_publish [''art''] (demo_run_with 0) empty_store = (S, Inr ())
     \<and> ''v2'' \<in> set (discover_versions (fs_of S) [''art'', ''onnx''])
     \<and> (\<exists>p. artifact_for (fs_of S) [''art''] ONNX ''v2'' = Some p \<and> dict_get (sr_files S) p = Some (Onnx_File ''weights of run 7''))"
proof -
  obtain S where S: "prepare_artifacts demo_publish_env demo_publish [''art''] (demo_run_with 0) empty_store = (S, Inr ())"
    using demo_prepare by blast
  have v: "pa_version demo_publish = ''v2''" by (simp add: demo_publish_def)
  have r: "tr_task (demo_run_with 0) = ''classification''"
    "tr_labels (demo_run_with 0) = Some \<lparr>lf_class_names = Some [''cat'', ''dog''], lf_wnids = None, lf_image_size = None\<rparr>"
    "tr_metrics (demo_run_with 0) = Some [(''acc_top1'', PFloat (8/10))]" "tr_classifier (demo_run_with 0) = Inr (demo_tracer 0)"
    "tc_export (demo_tracer 0) = Inr ''weights of run 7''"
    by (simp_all add: demo_run_with_def demo_tracer_def)
  have "\<not> file_exists empty_store (onnx_dir_for [''art''] (pa_version demo_publish) @ [''classifier_fp32.onnx''])"
    by (simp add: empty_store_def file_exists_def)
  then have fresh: "pa_force demo_publish \<or> \<not> file_exists empty_store (onnx_dir_for [''art''] (pa_version demo_publish) @ [''classifier_fp32.onnx''])"
    by blast
  from publish_serves [OF S _ r(1,2) _ r(3) fresh] v v2_is_version r(4,5) S show ?thesis
    by (auto simp: default_version_def)
qed

section \<open>The weights a run is exported from\<close>

lemma epoch_number_name: "epoch_number (epoch_name e) = Inr e"
proof -
  have d: "c \<noteq> CHR ''_''" if "c \<in> set (show_nat e)" for c
    using show_nat_digits [OF that] by (auto simp: is_digit_def)
  then have "takeWhile (\<lambda>c. c \<noteq> CHR ''_'') (show_nat e) = show_nat e" by (simp add: takeWhile_eq_all_conv)
  moreover have "drop 6 (epoch_name e) = show_nat e" by (simp add: epoch_name_def)
  moreover have "list_all is_digit (show_nat e)" using show_nat_digits by (simp add: list_all_iff)
  ultimately show ?thesis by (simp only: epoch_number_def Let_def simp_thms if_True show_nat_nonempty read_show_nat)
qed

lemma last_sort_key_max: "xs \<noteq> [] \<Longrightarrow> last (sort_key f xs) \<in> set xs \<and> (\<forall>x \<in> set xs. f x \<le> f (last (sort_key f xs)))"
proof -
  assume "xs \<noteq> []"
  then have n: "sort_key f xs \<noteq> []" by (metis length_0_conv length_sort)
  then have "last (sort_key f xs) \<in> set xs" using last_in_set [OF n] by simp
  moreover have "f x \<le> f (last (sort_key f xs))" if "x \<in> set xs" for x
  proof -
    have "x \<in> set (sort_key f xs)" using that by simp
    then obtain i where i: "i < length (sort_key f xs)" "sort_key f xs ! i = x" unfolding in_set_conv_nth by blast
    have "sorted (map f (sort_key f xs))" by simp
    then have "map f (sort_key f xs) ! i \<le> map f (sort_key f xs) ! (length (sort_key f xs) - 1)"
      using i(1) by (intro sorted_nth_mono) auto
    then show ?thesis using i n by (simp add: last_conv_nth)
  qed
  ultimately show ?thesis by blast
qed

text \<open>The newest weights are those of the greatest epoch number, not of the name last in the
  dictionary: with epochs 9 and 10 there, those of epoch 10.\<close>

lemma latest_weights_newest:
  assumes "es \<noteq> []"
  shows "latest_weights (map epoch_name es) = Inr (epoch_name (Max (set es)))"
proof -
  let ?keyed = "map (\<lambda>e. (e, epoch_name e)) es"
  have all: "filter (\<lambda>n. starts_with n ''epoch_'') (map epoch_name es) = map epoch_name es"
    by (simp add: filter_id_conv starts_with_def epoch_name_def)
  have keyed: "map_res (\<lambda>n. map_sum id (\<lambda>k. (k, n)) (epoch_number n)) (map epoch_name es) = Inr ?keyed"
    by (induction es) (simp_all add: epoch_number_name)
  have "?keyed \<noteq> []" using assms by simp
  from last_sort_key_max [OF this, of fst] obtain e where e: "e \<in> set es" "last (sort_key fst ?keyed) = (e, epoch_name e)"
    "\<forall>x \<in> set es. x \<le> e" by auto
  then have "e = Max (set es)" by (intro Max_eqI [symmetric]) auto
  then show ?thesis using assms e(2) by (simp add: latest_weights_def all keyed)
qed

section \<open>Two ways to serve the wrong graph\<close>

text \<open>Publishing a new run as a version that is there already, without \<open>--force\<close>: the labels and
  metrics become those of the new run, the graph stays that of the old one.\<close>

lemma republish_keeps_graph:
  assumes "prepare_artifacts env args art run S = (S', Inr ())" "tr_task run = ''classification''"
    and "tr_labels run = Some lf" "tr_metrics run = Some d" "\<not> pa_force args"
    and "dict_get (sr_files S) (onnx_dir_for art (pa_version args) @ [''classifier_fp32.onnx'']) = Some (Onnx_File old)"
  shows "dict_get (sr_files S') (labels_dir_for art (pa_version args) @ [''labels.json''])
      = Some (Labels_Json (lf\<lparr>lf_image_size := Some (tr_image_size run)\<rparr>) (tr_model_name run) (pa_version args))
    \<and> dict_get (sr_files S') (onnx_dir_for art (pa_version args) @ [''classifier_fp32.onnx'']) = Some (Onnx_File old)"
proof -
  define v where "v = pa_version args"
  let ?o = "onnx_dir_for art v" and ?l = "labels_dir_for art v"
  let ?g = "?o @ [''classifier_fp32.onnx'']"
  obtain S1 S2 where s:
    "publish_labels v ?l run (make_dirs ?o S) = (S1, Inr ())" "publish_classifier env args ?o run S1 = (S2, Inr ())"
    "\<forall>n \<in> {''labels.json'', ''metrics.json''}. dict_get (sr_files S') (?l @ [n]) = dict_get (sr_files S1) (?l @ [n])"
    "dict_get (sr_files S') ?g = dict_get (sr_files S2) ?g" "dict_get (sr_files S1) ?g = dict_get (sr_files S) ?g"
    by (rule prepare_steps [OF assms(1), folded v_def]) blast
  have old: "dict_get (sr_files S1) ?g = Some (Onnx_File old)" using s(5) assms(6) by (simp add: v_def)
  then have "file_exists S1 ?g" by (simp add: file_exists_def)
  from classifier_step_kept [OF assms(2) this assms(5), of env] have "dict_get (sr_files S2) ?g = Some (Onnx_File old)"
    using s(2) old by auto
  then show ?thesis using published_labels(1) [OF s(1) assms(3,4)] assms(2) s(3,4) unfolding v_def by simp
qed



end
