(* ===== verification/Sweep.thy ===== *)
theory Sweep
  imports Benchmark Quantize Publishing
begin

text \<open>
  The benchmarking sweep (\<open>models/optimisation/run_benchmarks.py\<close>): export, quantisation, the measured
  cost of INT8, the measurements of every backend for each batch size and model, their annotation
  with accuracies, and the report. It works on the artefact directory of Publishing, the machine of
  Benchmark and the measurements of Quantize, whose results on a graph are parameters here.
\<close>

section \<open>Arguments and environment\<close>

record sweep_args =
  sa_artifacts_dir :: path
  sa_batch_sizes :: "int list"
  sa_iterations :: int
  sa_warmup :: int
  sa_quantize_only :: bool
  sa_accuracy_samples :: int
  sa_skip_export :: bool
  sa_skip_int8 :: bool
  sa_skip_tensorrt :: bool
  sa_skip_compile :: bool
  sa_models :: "string list"

text \<open>The machine reads the graphs of the store it is given.\<close>

record 'w sweep_env =
  se_machine :: "store \<Rightarrow> 'w machine"
  se_package_dir :: "string \<Rightarrow> path option"
  se_publish :: publish_env
  se_accuracy :: "store \<Rightarrow> path \<Rightarrow> int \<Rightarrow> accuracy result"
  se_fidelity :: "store \<Rightarrow> path \<Rightarrow> path \<Rightarrow> int \<Rightarrow> fidelity result"
  se_environment :: "(string, pyval) dict"
  se_now :: string
  se_detector_report :: bool
  se_py_str :: "pyval \<Rightarrow> string"

definition has_cuda :: "(string, pyval) dict \<Rightarrow> bool" where
  "has_cuda environment = (dict_get environment ''cuda_available'' = Some (PBool True))"

definition selected_models :: "sweep_args \<Rightarrow> string list" where
  "selected_models args =
     (if ''all'' \<in> set (sa_models args) then [''classifier'', ''detector'', ''embedder''] else sa_models args)"

section \<open>Running cases\<close>

type_synonym 'w bench = "'w bench_state \<Rightarrow> 'w bench_state \<times> latency_result result"

text \<open>\<open>_try\<close>: a failing measurement costs its row.\<close>

definition try_case :: "string \<Rightarrow> 'w bench \<Rightarrow> 'w bench_state \<times> latency_result list \<Rightarrow> 'w bench_state \<times> latency_result list" where
  "try_case model fn st =
     (case fn (fst st) of
        (s, Inr r) \<Rightarrow> (s, snd st @ [r\<lparr>lt_model := model\<rparr>])
      | (s, Inl e) \<Rightarrow> (s, snd st))"

definition run_cases :: "string \<Rightarrow> (string \<times> 'w bench) list \<Rightarrow> 'w bench_state \<times> latency_result list \<Rightarrow> 'w bench_state \<times> latency_result list" where
  "run_cases model cases st = fold (\<lambda>(label, fn). try_case model fn) cases st"

definition onnx_case :: "'w machine \<Rightarrow> sweep_args \<Rightarrow> int \<Rightarrow> int \<Rightarrow> path \<Rightarrow> string \<Rightarrow> string \<Rightarrow> 'w bench" where
  "onnx_case M args batch_size image_size path provider precision =
     benchmark_onnx M path batch_size image_size provider precision (sa_warmup args) (sa_iterations args) [] None"

definition torch_case :: "'w machine \<Rightarrow> sweep_args \<Rightarrow> int \<Rightarrow> int \<Rightarrow> string \<Rightarrow> string \<Rightarrow> bool \<Rightarrow> 'w bench" where
  "torch_case M args batch_size image_size device precision compile_model =
     benchmark_torch M batch_size image_size device precision (sa_warmup args) (sa_iterations args) compile_model"

definition classifier_cases ::
  "'w machine \<Rightarrow> sweep_args \<Rightarrow> int \<Rightarrow> bool \<Rightarrow> bool \<Rightarrow> bool \<Rightarrow> path \<Rightarrow> path \<Rightarrow> int \<Rightarrow> (string \<times> 'w bench) list" where
  "classifier_cases M args image_size cuda trt_available int8_exists fp32_path int8_path batch_size =
     (let torch = torch_case M args batch_size image_size; onnx = onnx_case M args batch_size image_size
      in [(''pytorch cpu'', torch ''cpu'' ''fp32'' False)]
         @ (if cuda then
              [(''pytorch cuda'', torch ''cuda'' ''fp32'' False), (''pytorch cuda bf16'', torch ''cuda'' ''bf16'' False)]
              @ (if \<not> sa_skip_compile args then [(''pytorch compiled'', torch ''cuda'' ''fp32'' True)] else [])
            else [])
         @ [(''onnx cpu fp32'', onnx fp32_path cpu_provider ''fp32'')]
         @ (if int8_exists then [(''onnx cpu int8'', onnx int8_path cpu_provider ''int8'')] else [])
         @ (if cuda then
              [(''onnx cuda fp32'', onnx fp32_path cuda_provider ''fp32'')]
              @ (if trt_available then [(''onnx tensorrt fp16'', onnx fp32_path tensorrt_provider ''fp16'')] else [])
            else []))"

definition extra_cases ::
  "'w machine \<Rightarrow> sweep_args \<Rightarrow> int \<Rightarrow> bool \<Rightarrow> bool \<Rightarrow> bool \<Rightarrow> string \<Rightarrow> path \<Rightarrow> path \<Rightarrow> int \<Rightarrow> (string \<times> 'w bench) list" where
  "extra_cases M args image_size cuda trt_available int8_exists name fp32_path int8_path batch_size =
     (let onnx = onnx_case M args batch_size image_size
      in [(name @ '' onnx cpu'', onnx fp32_path cpu_provider ''fp32'')]
         @ (if int8_exists then [(name @ '' onnx cpu int8'', onnx int8_path cpu_provider ''int8'')] else [])
         @ (if cuda then
              [(name @ '' onnx cuda'', onnx fp32_path cuda_provider ''fp32'')]
              @ (if trt_available then [(name @ '' tensorrt fp16'', onnx fp32_path tensorrt_provider ''fp16'')] else [])
            else []))"

section \<open>Accuracy in the report\<close>

definition accuracy_note :: "real option \<Rightarrow> accuracy \<Rightarrow> string \<Rightarrow> int \<Rightarrow> string" where
  "accuracy_note baseline metrics precision num_samples =
     ''top-5 '' @ fmt_fixed 2 (ac_top5 metrics * 100) @ ''%, n='' @ show_int num_samples
     @ (case baseline of
          Some b \<Rightarrow> if precision \<noteq> ''fp32'' then '', '' @ fmt_signed 2 ((ac_top1 metrics - b) * 100) @ ''pp vs FP32'' else []
        | None \<Rightarrow> [])"

text \<open>The loop of \<open>_annotate_accuracy\<close> with the keys it has seen; without accuracies the rows stay.\<close>

fun annotate_rows ::
  "(string, accuracy) dict \<Rightarrow> real option \<Rightarrow> int \<Rightarrow> string list \<Rightarrow> latency_result list \<Rightarrow> latency_result list" where
  "annotate_rows accuracies baseline num_samples seen [] = []"
| "annotate_rows accuracies baseline num_samples seen (r # rs) =
     (let key = lt_backend r @ '':'' @ lt_precision r
      in case dict_get accuracies (lt_precision r) of
           None \<Rightarrow> r # annotate_rows accuracies baseline num_samples seen rs
         | Some metrics \<Rightarrow>
             if \<not> starts_with (lt_backend r) ''onnxruntime'' \<or> key \<in> set seen
             then r # annotate_rows accuracies baseline num_samples seen rs
             else r\<lparr>lt_accuracy_top1 := Some (ac_top1 metrics),
                    lt_notes := accuracy_note baseline metrics (lt_precision r) num_samples\<rparr>
                  # annotate_rows accuracies baseline num_samples (key # seen) rs)"

definition annotate_accuracy :: "(string, accuracy) dict \<Rightarrow> int \<Rightarrow> latency_result list \<Rightarrow> latency_result list" where
  "annotate_accuracy accuracies num_samples results =
     (if accuracies = [] then results
      else annotate_rows accuracies (map_option ac_top1 (dict_get accuracies ''fp32'')) num_samples [] results)"

text \<open>\<open>_quantization_summary\<close>.\<close>

definition opt_float :: "real option \<Rightarrow> pyval" where
  "opt_float x = (case x of Some r \<Rightarrow> PFloat r | None \<Rightarrow> PNone)"

definition quantization_summary ::
  "path \<Rightarrow> bool \<Rightarrow> (string, accuracy) dict \<Rightarrow> (string, fidelity) dict \<Rightarrow> (string, pyval) dict" where
  "quantization_summary detector_report found accuracies fidelity =
     (if accuracies \<noteq> [] then
        [(''classifier'', PDict
           [(''metric'', PStr ''top-1 accuracy''),
            (''fp32'', opt_float (map_option ac_top1 (dict_get accuracies ''fp32''))),
            (''int8'', opt_float (map_option ac_top1 (dict_get accuracies ''int8''))),
            (''num_samples'', opt_float (map_option ac_num_samples (dict_get accuracies ''fp32'')))])]
      else [])
     @ (case dict_get fidelity ''embedder'' of
          Some m \<Rightarrow>
            [(''embedder'', PDict
               [(''metric'', PStr ''recall@k against the FP32 index''), (''mean_cosine_similarity'', PFloat (fd_mean_cosine m)),
                (''recall_at_k'', PFloat (fd_recall_at_k m)), (''top_k'', PFloat (fd_top_k m)),
                (''num_samples'', PFloat (fd_num_samples m))])]
        | None \<Rightarrow> [])
     @ [(''detector'', PDict
          [(''metric'', PStr ''COCO mAP@[.5:.95]''), (''source'', PStr (join ''/'' detector_report)),
           (''note'', PStr (''Produced by scripts/evaluate_detector.py --model detector_int8.onnx; ''
              @ ''mAP requires annotations and pycocotools, so it is not computed here.'')),
           (''measured'', PBool found)])]"

section \<open>The sweep\<close>

text \<open>Export and quantisation; a failing quantisation is recorded and passed over.\<close>

definition quantize_auxiliary :: "publish_env \<Rightarrow> sweep_args \<Rightarrow> string \<Rightarrow> unit step_on" where
  "quantize_auxiliary env args name S =
     (let aux_fp32 = sa_artifacts_dir args @ [name @ ''_fp32.onnx'']; aux_int8 = sa_artifacts_dir args @ [name @ ''_int8.onnx'']
      in if name \<notin> set (selected_models args) then (S, Inr ())
         else if \<not> file_exists S aux_fp32 \<or> (sa_skip_export args \<and> file_exists S aux_int8) then (S, Inr ())
         else export_int8 env (if name = ''detector'' then ''detection'' else ''embedding'') aux_fp32 aux_int8 S)"

definition prepare_graphs :: "publish_env \<Rightarrow> sweep_args \<Rightarrow> train_run \<Rightarrow> unit step_on" where
  "prepare_graphs env args run =
     (let fp32_path = sa_artifacts_dir args @ [''classifier_fp32.onnx'']; int8_path = sa_artifacts_dir args @ [''classifier_int8.onnx'']
      in then_do (pure_step (tr_classifier run)) (\<lambda>model.
         then_do (\<lambda>S. if \<not> sa_skip_export args \<or> \<not> file_exists S fp32_path
                      then then_do (export_onnx model fp32_path) (\<lambda>_. pure_step (Inr ())) (make_dirs (sa_artifacts_dir args) S)
                      else (S, Inr ())) (\<lambda>_.
         then_do (\<lambda>S. if \<not> sa_skip_int8 args \<and> (\<not> sa_skip_export args \<or> \<not> file_exists S int8_path)
                      then export_int8 env ''classification'' fp32_path int8_path S else (S, Inr ())) (\<lambda>_.
         then_do (\<lambda>S. if sa_skip_int8 args then (S, Inr ()) else quantize_auxiliary env args ''detector'' S) (\<lambda>_.
                  (\<lambda>S. if sa_skip_int8 args then (S, Inr ()) else quantize_auxiliary env args ''embedder'' S))))))"

text \<open>What INT8 costs: both accuracies or none.\<close>

definition measure_accuracy :: "'w sweep_env \<Rightarrow> sweep_args \<Rightarrow> store \<Rightarrow> (string, accuracy) dict" where
  "measure_accuracy E args S =
     (let fp32_path = sa_artifacts_dir args @ [''classifier_fp32.onnx'']; int8_path = sa_artifacts_dir args @ [''classifier_int8.onnx'']
      in if 0 < sa_accuracy_samples args \<and> file_exists S int8_path
         then (case (se_accuracy E S fp32_path (sa_accuracy_samples args), se_accuracy E S int8_path (sa_accuracy_samples args)) of
                 (Inr a, Inr b) \<Rightarrow> [(''fp32'', a), (''int8'', b)]
               | _ \<Rightarrow> [])
         else [])"

definition measure_fidelity :: "'w sweep_env \<Rightarrow> sweep_args \<Rightarrow> store \<Rightarrow> (string, fidelity) dict" where
  "measure_fidelity E args S =
     (let fp32_path = sa_artifacts_dir args @ [''embedder_fp32.onnx'']; int8_path = sa_artifacts_dir args @ [''embedder_int8.onnx'']
      in if 0 < sa_accuracy_samples args \<and> ''embedder'' \<in> set (selected_models args) \<and> file_exists S fp32_path \<and> file_exists S int8_path
         then (case se_fidelity E S fp32_path int8_path (sa_accuracy_samples args) of Inr m \<Rightarrow> [(''embedder'', m)] | Inl _ \<Rightarrow> [])
         else [])"

definition sweep_classifier ::
  "'w machine \<Rightarrow> sweep_args \<Rightarrow> int \<Rightarrow> bool \<Rightarrow> bool \<Rightarrow> store \<Rightarrow> 'w bench_state \<times> latency_result list \<Rightarrow> 'w bench_state \<times> latency_result list" where
  "sweep_classifier M args image_size cuda trt S =
     (let fp32_path = sa_artifacts_dir args @ [''classifier_fp32.onnx'']; int8_path = sa_artifacts_dir args @ [''classifier_int8.onnx'']
      in fold (\<lambda>n. run_cases ''classifier'' (classifier_cases M args image_size cuda trt (file_exists S int8_path) fp32_path int8_path n))
           (sa_batch_sizes args))"

definition sweep_extra ::
  "'w machine \<Rightarrow> sweep_args \<Rightarrow> bool \<Rightarrow> bool \<Rightarrow> store \<Rightarrow> string \<times> int \<Rightarrow> 'w bench_state \<times> latency_result list \<Rightarrow> 'w bench_state \<times> latency_result list" where
  "sweep_extra M args cuda trt S ni st =
     (case ni of (name, image_size) \<Rightarrow>
        (let path = sa_artifacts_dir args @ [name @ ''_fp32.onnx'']; aux_int8 = sa_artifacts_dir args @ [name @ ''_int8.onnx'']
         in if name \<notin> set (selected_models args) \<or> \<not> file_exists S path then st
            else fold (\<lambda>n. run_cases name (extra_cases M args image_size cuda trt (file_exists S aux_int8) name path aux_int8 n))
                   (filter (\<lambda>n. \<not> (name = ''detector'' \<and> 8 < n)) (sa_batch_sizes args)) st))"

text \<open>The result of \<open>main\<close>: nothing after \<open>--quantize-only\<close>, else the report, its Markdown and the
  summary that is written when INT8 was measured.\<close>

definition run_benchmarks ::
  "'w sweep_env \<Rightarrow> sweep_args \<Rightarrow> path \<Rightarrow> train_run \<Rightarrow> store \<times> 'w bench_state
   \<Rightarrow> (store \<times> 'w bench_state) \<times> (benchmark_report \<times> string \<times> (string, pyval) dict option) option result" where
  "run_benchmarks E args output_dir run st =
     (case prepare_graphs (se_publish E) args run (fst st) of
        (S, Inl e) \<Rightarrow> ((S, snd st), Inl e)
      | (S, Inr _) \<Rightarrow>
          if sa_quantize_only args then ((S, snd st), Inr None)
          else
            (let M = se_machine E S; cuda = has_cuda (se_environment E);
                 accuracies = measure_accuracy E args S; fidelity = measure_fidelity E args S;
                 libs1 = fst (preload_cuda_libraries (mc_linker M) (bs_libs (snd st)));
                 (libs, trt) = (if sa_skip_tensorrt args then (libs1, False)
                                else ensure_tensorrt_loadable (mc_linker M) (se_package_dir E) libs1);
                 (b1, rows) = sweep_classifier M args (tr_image_size run) cuda trt S ((snd st)\<lparr>bs_libs := libs\<rparr>, []);
                 annotated = annotate_accuracy accuracies (sa_accuracy_samples args) rows;
                 (b2, results) = fold (sweep_extra M args cuda trt S) [(''detector'', 640), (''embedder'', 224)] (b1, annotated);
                 report = \<lparr>bp_results = results, bp_environment = se_environment E, bp_generated_at = se_now E\<rparr>;
                 summary = (if fidelity \<noteq> [] \<or> accuracies \<noteq> []
                            then Some (quantization_summary (output_dir @ [''detection_eval_int8.json'']) (se_detector_report E) accuracies fidelity)
                            else None)
             in ((S, b2), res_bind (format_markdown_report (se_py_str E) report ''pytorch-cuda'' ''fp32'') (\<lambda>text.
                    Inr (Some (report, text, summary))))))"

section \<open>Which rows a sweep has\<close>

text \<open>What a row is of, and the rows a sweep sets out to measure, in order.\<close>

type_synonym row_of = "string \<times> string \<times> string \<times> int"

definition row_of :: "latency_result \<Rightarrow> row_of" where
  "row_of r = (lt_model r, lt_backend r, lt_precision r, lt_batch_size r)"

definition classifier_plan :: "sweep_args \<Rightarrow> bool \<Rightarrow> bool \<Rightarrow> bool \<Rightarrow> int \<Rightarrow> row_of list" where
  "classifier_plan args cuda trt int8 n =
     map (\<lambda>(b, p). (''classifier'', b, p, n))
       ([(''pytorch-cpu'', ''fp32'')]
        @ (if cuda then [(''pytorch-cuda'', ''fp32''), (''pytorch-cuda'', ''bf16'')]
             @ (if \<not> sa_skip_compile args then [(''pytorch-cuda-compiled'', ''fp32'')] else []) else [])
        @ [(''onnxruntime-cpu'', ''fp32'')] @ (if int8 then [(''onnxruntime-cpu'', ''int8'')] else [])
        @ (if cuda then (''onnxruntime-cuda'', ''fp32'') # (if trt then [(''onnxruntime-tensorrt'', ''fp16'')] else []) else []))"

definition extra_plan :: "bool \<Rightarrow> bool \<Rightarrow> bool \<Rightarrow> string \<Rightarrow> int \<Rightarrow> row_of list" where
  "extra_plan cuda trt int8 name n =
     map (\<lambda>(b, p). (name, b, p, n))
       ([(''onnxruntime-cpu'', ''fp32'')] @ (if int8 then [(''onnxruntime-cpu'', ''int8'')] else [])
        @ (if cuda then (''onnxruntime-cuda'', ''fp32'') # (if trt then [(''onnxruntime-tensorrt'', ''fp16'')] else []) else []))"

definition extra_rows :: "sweep_args \<Rightarrow> bool \<Rightarrow> bool \<Rightarrow> store \<Rightarrow> string \<Rightarrow> row_of list" where
  "extra_rows args cuda trt S name =
     (if name \<in> set (selected_models args) \<and> file_exists S (sa_artifacts_dir args @ [name @ ''_fp32.onnx''])
      then concat (map (extra_plan cuda trt (file_exists S (sa_artifacts_dir args @ [name @ ''_int8.onnx''])) name)
                     (filter (\<lambda>n. \<not> (name = ''detector'' \<and> 8 < n)) (sa_batch_sizes args)))
      else [])"

definition classifier_rows :: "sweep_args \<Rightarrow> bool \<Rightarrow> bool \<Rightarrow> store \<Rightarrow> row_of list" where
  "classifier_rows args cuda trt S =
     concat (map (classifier_plan args cuda trt (file_exists S (sa_artifacts_dir args @ [''classifier_int8.onnx'']))) (sa_batch_sizes args))"

text \<open>A measurement that can only yield rows of a label; a computation that appends rows of a plan.\<close>

definition yields :: "'w bench \<Rightarrow> string \<times> string \<times> int \<Rightarrow> bool" where
  "yields fn q \<longleftrightarrow> (\<forall>s s' r. fn s = (s', Inr r) \<longrightarrow> (lt_backend r, lt_precision r, lt_batch_size r) = q \<and> lt_accuracy_top1 r = None)"

definition appends :: "('w bench_state \<times> latency_result list \<Rightarrow> 'w bench_state \<times> latency_result list) \<Rightarrow> row_of list \<Rightarrow> bool" where
  "appends f plan \<longleftrightarrow>
     (\<forall>st. \<exists>new. snd (f st) = snd st @ new \<and> subseq (map row_of new) plan \<and> (\<forall>r \<in> set new. lt_accuracy_top1 r = None))"

lemma appends_id: "appends (\<lambda>st. st) []"
  by (auto simp: appends_def)

lemma appends_comp:
  assumes "appends f p" "appends g q" shows "appends (\<lambda>st. g (f st)) (p @ q)"
  unfolding appends_def
proof
  fix st
  obtain new1 where 1: "snd (f st) = snd st @ new1" "subseq (map row_of new1) p" "\<forall>r \<in> set new1. lt_accuracy_top1 r = None"
    using assms(1) unfolding appends_def by blast
  obtain new2 where 2: "snd (g (f st)) = snd (f st) @ new2" "subseq (map row_of new2) q" "\<forall>r \<in> set new2. lt_accuracy_top1 r = None"
    using assms(2) unfolding appends_def by blast
  have "subseq (map row_of (new1 @ new2)) (p @ q)" using 1(2) 2(2) by (simp add: list_emb_append_mono)
  with 1 2 show "\<exists>new. snd (g (f st)) = snd st @ new \<and> subseq (map row_of new) (p @ q) \<and> (\<forall>r \<in> set new. lt_accuracy_top1 r = None)"
    by (intro exI [of _ "new1 @ new2"]) auto
qed

lemma appends_fold: "(\<And>x. appends (f x) (p x)) \<Longrightarrow> appends (fold f xs) (concat (map p xs))"
proof (induction xs)
  case Nil
  then show ?case by (simp add: appends_def)
next
  case (Cons x xs)
  then show ?case using appends_comp [of "f x" "p x" "fold f xs"] by (simp add: o_def)
qed

lemma appends_try:
  assumes "yields (fn :: 'w bench) (b, p, n)" shows "appends (try_case model fn) [(model, b, p, n)]"
  unfolding appends_def
proof
  fix st :: "'w bench_state \<times> latency_result list"
  obtain s x where fn: "fn (fst st) = (s, x)" by (metis surj_pair)
  show "\<exists>new. snd (try_case model fn st) = snd st @ new \<and> subseq (map row_of new) [(model, b, p, n)]
      \<and> (\<forall>r \<in> set new. lt_accuracy_top1 r = None)"
  proof (cases x)
    case (Inl e)
    then show ?thesis by (intro exI [of _ "[]"]) (simp add: try_case_def fn)
  next
    case (Inr r)
    with assms fn have "lt_backend r = b" "lt_precision r = p" "lt_batch_size r = n" "lt_accuracy_top1 r = None"
      by (auto simp: yields_def)
    with Inr show ?thesis by (intro exI [of _ "[r\<lparr>lt_model := model\<rparr>]"]) (simp add: try_case_def fn row_of_def)
  qed
qed

lemma appends_cases:
  assumes "list_all2 (\<lambda>(label, fn) (b, p). yields fn (b, p, n)) cases plan"
  shows "appends (run_cases model cases) (map (\<lambda>(b, p). (model, b, p, n)) plan)"
  using assms
proof (induction cases plan rule: list_all2_induct)
  case Nil
  then show ?case by (simp add: run_cases_def appends_def)
next
  case (Cons c cs q qs)
  obtain label fn b p where c: "c = (label, fn)" "q = (b, p)" by (metis surj_pair)
  with Cons appends_comp [OF appends_try [of fn b p n model]] show ?case by (simp add: run_cases_def o_def)
qed

lemma yields_torch: "torch_backend device c = b \<Longrightarrow> yields (torch_case M args n sz device p c) (b, p, n)"
  by (auto simp: yields_def torch_case_def dest: benchmark_torch_row)

lemma yields_onnx: "onnx_backend provider = b \<Longrightarrow> yields (onnx_case M args n sz path provider p) (b, p, n)"
  using benchmark_onnx_row benchmark_onnx_model by (fastforce simp: yields_def onnx_case_def)

lemma backend_labels:
  "torch_backend ''cpu'' False = ''pytorch-cpu''" "torch_backend ''cuda'' False = ''pytorch-cuda''"
  "torch_backend ''cuda'' True = ''pytorch-cuda-compiled''"
  "onnx_backend cpu_provider = ''onnxruntime-cpu''" "onnx_backend cuda_provider = ''onnxruntime-cuda''"
  "onnx_backend tensorrt_provider = ''onnxruntime-tensorrt''"
  by (simp_all add: torch_backend_def onnx_backend_def starts_with_def cpu_provider_def cuda_provider_def tensorrt_provider_def)

lemmas yields_label = yields_torch [OF backend_labels(1)] yields_torch [OF backend_labels(2)] yields_torch [OF backend_labels(3)]
  yields_onnx [OF backend_labels(4)] yields_onnx [OF backend_labels(5)] yields_onnx [OF backend_labels(6)]

lemma appends_classifier: "appends (sweep_classifier M args sz cuda trt S) (classifier_rows args cuda trt S)"
  unfolding sweep_classifier_def classifier_rows_def Let_def classifier_plan_def classifier_cases_def
  by (intro appends_fold appends_cases) (auto simp: yields_label list_all2_append)

lemma appends_extra: "appends (sweep_extra M args cuda trt S (name, sz)) (extra_rows args cuda trt S name)"
proof (cases "name \<in> set (selected_models args) \<and> file_exists S (sa_artifacts_dir args @ [name @ ''_fp32.onnx''])")
  case False
  then show ?thesis by (auto simp: appends_def sweep_extra_def extra_rows_def Let_def)
next
  case True
  let ?e = "file_exists S (sa_artifacts_dir args @ [name @ ''_int8.onnx''])"
  have "appends (run_cases name (extra_cases M args sz cuda trt ?e name path p8 n)) (extra_plan cuda trt ?e name n)" for path p8 n
    unfolding extra_plan_def extra_cases_def Let_def by (intro appends_cases) (auto simp: yields_label)
  then have "appends (fold (\<lambda>n. run_cases name (extra_cases M args sz cuda trt ?e name path p8 n)) xs)
      (concat (map (extra_plan cuda trt ?e name) xs))" for path p8 xs
    by (rule appends_fold)
  moreover have "sweep_extra M args cuda trt S (name, sz) = fold (\<lambda>n. run_cases name (extra_cases M args sz cuda trt ?e name
      (sa_artifacts_dir args @ [name @ ''_fp32.onnx'']) (sa_artifacts_dir args @ [name @ ''_int8.onnx'']) n))
      (filter (\<lambda>n. \<not> (name = ''detector'' \<and> 8 < n)) (sa_batch_sizes args))"
    using True by (intro ext) (simp add: sweep_extra_def Let_def)
  moreover have "extra_rows args cuda trt S name
      = concat (map (extra_plan cuda trt ?e name) (filter (\<lambda>n. \<not> (name = ''detector'' \<and> 8 < n)) (sa_batch_sizes args)))"
    using True by (simp add: extra_rows_def)
  ultimately show ?thesis by metis
qed

section \<open>Which rows carry an accuracy\<close>

definition row_key :: "latency_result \<Rightarrow> string" where
  "row_key r = lt_backend r @ '':'' @ lt_precision r"

definition eligible :: "(string, accuracy) dict \<Rightarrow> latency_result \<Rightarrow> bool" where
  "eligible accuracies r \<longleftrightarrow> dict_get accuracies (lt_precision r) \<noteq> None \<and> starts_with (lt_backend r) ''onnxruntime''"

lemma annotate_rows_row_of [simp]: "map row_of (annotate_rows acc base n seen rs) = map row_of rs"
  by (induction rs arbitrary: seen) (auto simp: Let_def row_of_def split: option.splits)

lemma length_annotate_rows [simp]: "length (annotate_rows acc base n seen rs) = length rs"
  by (induction rs arbitrary: seen) (auto simp: Let_def split: option.splits)

lemma annotate_rows_nth:
  "i < length rs \<Longrightarrow> lt_accuracy_top1 (annotate_rows acc base n seen rs ! i) =
     (if eligible acc (rs ! i) \<and> row_key (rs ! i) \<notin> set seen \<and> (\<forall>j < i. \<not> (eligible acc (rs ! j) \<and> row_key (rs ! j) = row_key (rs ! i)))
      then map_option ac_top1 (dict_get acc (lt_precision (rs ! i))) else lt_accuracy_top1 (rs ! i))"
proof (induction rs arbitrary: i seen)
  case (Cons r rs)
  let ?new = "eligible acc r \<and> row_key r \<notin> set seen"
  have step: "annotate_rows acc base n seen (r # rs) =
      (if ?new then r\<lparr>lt_accuracy_top1 := map_option ac_top1 (dict_get acc (lt_precision r)),
             lt_notes := (case dict_get acc (lt_precision r) of Some m \<Rightarrow> accuracy_note base m (lt_precision r) n | None \<Rightarrow> [])\<rparr>
           # annotate_rows acc base n (row_key r # seen) rs
       else r # annotate_rows acc base n seen rs)"
    by (auto simp: Let_def eligible_def row_key_def split: option.splits)
  show ?case
  proof (cases i)
    case 0
    then show ?thesis unfolding step by simp
  next
    case (Suc k)
    then have k: "k < length rs" using Cons.prems by simp
    have all: "(\<forall>j < Suc k. \<not> (eligible acc ((r # rs) ! j) \<and> row_key ((r # rs) ! j) = row_key (rs ! k)))
        \<longleftrightarrow> \<not> (eligible acc r \<and> row_key r = row_key (rs ! k)) \<and> (\<forall>j < k. \<not> (eligible acc (rs ! j) \<and> row_key (rs ! j) = row_key (rs ! k)))"
      by (auto simp: All_less_Suc2)
    show ?thesis unfolding Suc nth_Cons_Suc all step
      using Cons.IH [OF k, of seen] Cons.IH [OF k, of "row_key r # seen"] by auto
  qed
qed simp

lemma dict_get_measured:
  assumes "dict_get (measure_accuracy E args S) p \<noteq> None" shows "p = ''fp32'' \<or> p = ''int8''"
proof -
  let ?a = "se_accuracy E S (sa_artifacts_dir args @ [''classifier_fp32.onnx'']) (sa_accuracy_samples args)"
  let ?b = "se_accuracy E S (sa_artifacts_dir args @ [''classifier_int8.onnx'']) (sa_accuracy_samples args)"
  have "measure_accuracy E args S = [] \<or> (\<exists>x y. measure_accuracy E args S = [(''fp32'', x), (''int8'', y)])"
    unfolding measure_accuracy_def Let_def by (cases ?a; cases ?b) simp_all
  with assms show ?thesis by (auto split: if_splits)
qed

definition onnx_labels :: "string list" where
  "onnx_labels = [''onnxruntime-cpu'', ''onnxruntime-cuda'', ''onnxruntime-tensorrt'']"

definition backend_label :: "string \<Rightarrow> bool" where
  "backend_label b \<longleftrightarrow> b \<in> set (onnx_labels @ [''pytorch-cpu'', ''pytorch-cuda'', ''pytorch-cuda-compiled''])"

definition planned_row :: "string \<Rightarrow> int \<Rightarrow> row_of \<Rightarrow> bool" where
  "planned_row name n q \<longleftrightarrow> (case q of (m, b, p, k) \<Rightarrow> m = name \<and> k = n \<and> backend_label b \<and> (b = ''onnxruntime-cuda'' \<longrightarrow> p = ''fp32''))"

lemma planned_row_map:
  "q \<in> set (map (\<lambda>(b, p). (name, b, p, n)) bps)
    \<Longrightarrow> \<forall>(b, p) \<in> set bps. backend_label b \<and> (b = ''onnxruntime-cuda'' \<longrightarrow> p = ''fp32'') \<Longrightarrow> planned_row name n q"
  by (auto simp: planned_row_def)

lemma classifier_plan_rows: "q \<in> set (classifier_plan args cuda trt int8 n) \<Longrightarrow> planned_row ''classifier'' n q"
  unfolding classifier_plan_def
  by (erule planned_row_map) (auto simp: backend_label_def onnx_labels_def)

lemma extra_plan_rows: "q \<in> set (extra_plan cuda trt int8 name n) \<Longrightarrow> planned_row name n q"
  unfolding extra_plan_def
  by (erule planned_row_map) (auto simp: backend_label_def onnx_labels_def)

lemma classifier_rows_parts:
  "q \<in> set (classifier_rows args cuda trt S) \<Longrightarrow> \<exists>n \<in> set (sa_batch_sizes args). planned_row ''classifier'' n q"
  unfolding classifier_rows_def by (auto dest: classifier_plan_rows)

lemma extra_rows_parts:
  assumes "q \<in> set (extra_rows args cuda trt S name)"
  shows "\<exists>n \<in> set (sa_batch_sizes args). planned_row name n q \<and> (name = ''detector'' \<longrightarrow> n \<le> 8)"
proof -
  from assms obtain int8 n where "n \<in> set (sa_batch_sizes args)" "\<not> (name = ''detector'' \<and> 8 < n)" "q \<in> set (extra_plan cuda trt int8 name n)"
    unfolding extra_rows_def by (auto split: if_splits)
  with extra_plan_rows show ?thesis by (metis not_le)
qed

lemma subseq_member: "subseq xs ys \<Longrightarrow> x \<in> set xs \<Longrightarrow> x \<in> set ys"
  by (auto elim: list_emb_set)

lemma label_no_colon: "backend_label b \<Longrightarrow> sep_free CHR '':'' b"
  by (auto simp: backend_label_def onnx_labels_def sep_free_def)

lemma sweep_parts:
  assumes "run_benchmarks E args out run (S0, b0) = ((S, b), Inr (Some (report, text, summary)))"
  obtains rows extra cuda trt where "prepare_graphs (se_publish E) args run S0 = (S, Inr ())" "cuda = has_cuda (se_environment E)"
    "bp_results report = annotate_accuracy (measure_accuracy E args S) (sa_accuracy_samples args) rows @ extra"
    "subseq (map row_of rows) (classifier_rows args cuda trt S)"
    "subseq (map row_of extra) (extra_rows args cuda trt S ''detector'' @ extra_rows args cuda trt S ''embedder'')"
    "\<forall>r \<in> set rows \<union> set extra. lt_accuracy_top1 r = None"
proof -
  obtain u where p: "prepare_graphs (se_publish E) args run S0 = (S, Inr u)"
    using assms by (cases "prepare_graphs (se_publish E) args run S0")
      (auto simp: run_benchmarks_def Let_def split: sum.splits if_splits prod.splits)
  define M where "M = se_machine E S"
  define cuda where "cuda = has_cuda (se_environment E)"
  define libs1 where "libs1 = fst (preload_cuda_libraries (mc_linker M) (bs_libs b0))"
  obtain libs trt where l: "(if sa_skip_tensorrt args then (libs1, False)
      else ensure_tensorrt_loadable (mc_linker M) (se_package_dir E) libs1) = (libs, trt)" by (metis surj_pair)
  obtain b1 rows where r: "sweep_classifier M args (tr_image_size run) cuda trt S (b0\<lparr>bs_libs := libs\<rparr>, []) = (b1, rows)"
    by (metis surj_pair)
  define ann where "ann = annotate_accuracy (measure_accuracy E args S) (sa_accuracy_samples args) rows"
  obtain b2 results where e: "sweep_extra M args cuda trt S (''embedder'', 224) (sweep_extra M args cuda trt S (''detector'', 640) (b1, ann)) = (b2, results)"
    by (metis surj_pair)
  have res: "bp_results report = results"
    using assms unfolding run_benchmarks_def fst_conv snd_conv p prod.case sum.case Let_def M_def [symmetric] cuda_def [symmetric]
      libs1_def [symmetric] l r ann_def [symmetric] fold.simps o_apply id_apply e
    by (auto simp: res_bind_Inr_iff split: if_splits)
  from appends_classifier [of M args "tr_image_size run" cuda trt S]
  have rows: "subseq (map row_of rows) (classifier_rows args cuda trt S)" "\<forall>x \<in> set rows. lt_accuracy_top1 x = None"
    unfolding appends_def using r by (metis append_Nil snd_conv)+
  from appends_comp [OF appends_extra [of M args cuda trt S "''detector''" 640] appends_extra [of M args cuda trt S "''embedder''" 224]]
  obtain extra where x: "results = ann @ extra"
    "subseq (map row_of extra) (extra_rows args cuda trt S ''detector'' @ extra_rows args cuda trt S ''embedder'')"
    "\<forall>x \<in> set extra. lt_accuracy_top1 x = None"
    unfolding appends_def using e by (metis snd_conv)
  show thesis
    using that [of cuda rows extra trt] p cuda_def res x(1) ann_def rows x(2,3) by auto
qed


section \<open>What the release gate reads of a report\<close>

definition gate_row :: "latency_result \<Rightarrow> benchmark_row" where
  "gate_row r = \<lparr>br_backend = lt_backend r, br_batch_size = lt_batch_size r, br_p50_ms = Fin (lt_p50_ms r), br_p95_ms = Fin (lt_p95_ms r)\<rparr>"

definition serving_row :: "latency_result \<Rightarrow> bool" where
  "serving_row r \<longleftrightarrow> lt_backend r = ''onnxruntime-cuda'' \<and> lt_batch_size r = 1"

lemma serving_rows_gate: "serving_rows (map gate_row rs) = map gate_row (filter serving_row rs)"
  by (simp add: serving_rows_def gate_row_def serving_row_def [abs_def] filter_map o_def)

text \<open>
  The latency that the release gate compares is that of a measured row of this report, on CUDA in
  fp32 for single images. It is the classifier's exactly when that measurement of the classifier succeeded;
  when it failed, the row of another model takes its place. Without such a row the gate gets no
  latency from the report.
\<close>

theorem gate_reads_sweep:
  assumes "run_benchmarks E args out run (S0, b0) = ((S, b), Inr (Some (report, text, summary)))"
  defines "rs \<equiv> bp_results report"
  shows "(filter serving_row rs = [] \<and> add_latency (Some (map gate_row rs)) metrics = metrics)
    \<or> (\<exists>r \<in> set rs. serving_row r \<and> lt_precision r = ''fp32''
         \<and> (lt_model r = ''classifier'' \<longleftrightarrow> (\<exists>r' \<in> set rs. serving_row r' \<and> lt_model r' = ''classifier''))
         \<and> dict_get (add_latency (Some (map gate_row rs)) metrics) ''latency_p50_ms'' = Some (Fin (py_round 2 (lt_p50_ms r)))
         \<and> dict_get (add_latency (Some (map gate_row rs)) metrics) ''latency_p95_ms'' = Some (Fin (py_round 2 (lt_p95_ms r))))"
proof (cases "filter serving_row rs")
  case Nil
  then show ?thesis by (simp add: add_latency_def serving_rows_gate)
next
  case (Cons r rest)
  from sweep_parts [OF assms(1)] obtain rows extra cuda trt where p:
    "rs = annotate_accuracy (measure_accuracy E args S) (sa_accuracy_samples args) rows @ extra"
    "subseq (map row_of rows) (classifier_rows args cuda trt S)"
    "subseq (map row_of extra) (extra_rows args cuda trt S ''detector'' @ extra_rows args cuda trt S ''embedder'')"
    unfolding rs_def by metis
  let ?ann = "annotate_accuracy (measure_accuracy E args S) (sa_accuracy_samples args) rows"
  have ro: "map row_of ?ann = map row_of rows" by (simp add: annotate_accuracy_def)
  have cls: "lt_model x = ''classifier'' \<and> (serving_row x \<longrightarrow> lt_precision x = ''fp32'')" if "x \<in> set ?ann" for x
  proof -
    have "row_of x \<in> set (map row_of rows)" unfolding ro [symmetric] using that by simp
    from subseq_member [OF p(2) this] have "row_of x \<in> set (classifier_rows args cuda trt S)" .
    then show ?thesis by (auto dest!: classifier_rows_parts simp: row_of_def planned_row_def serving_row_def)
  qed
  have ext: "lt_model x \<noteq> ''classifier'' \<and> (serving_row x \<longrightarrow> lt_precision x = ''fp32'')" if "x \<in> set extra" for x
  proof -
    have "row_of x \<in> set (extra_rows args cuda trt S ''detector'' @ extra_rows args cuda trt S ''embedder'')"
      using that by (intro subseq_member [OF p(3)]) simp
    then show ?thesis by (auto dest!: extra_rows_parts simp: row_of_def planned_row_def serving_row_def)
  qed
  have r: "r \<in> set rs" "serving_row r" using Cons by (metis filter_eq_ConsD in_set_conv_decomp, metis filter_eq_ConsD)
  have "lt_model r = ''classifier'' \<longleftrightarrow> (\<exists>r' \<in> set rs. serving_row r' \<and> lt_model r' = ''classifier'')"
  proof
    assume "\<exists>r' \<in> set rs. serving_row r' \<and> lt_model r' = ''classifier''"
    then have "filter serving_row ?ann \<noteq> []" using ext unfolding p(1) by (auto simp: filter_empty_conv)
    then have "r \<in> set ?ann" using Cons unfolding p(1) filter_append
      by (metis filter_is_subset hd_append2 list.sel(1) list.set_sel(1) subsetD)
    then show "lt_model r = ''classifier''" using cls by blast
  qed (use r in blast)
  moreover have "lt_precision r = ''fp32''" using r cls ext unfolding p(1) by auto
  moreover have "dict_get (add_latency (Some (map gate_row rs)) metrics) ''latency_p50_ms'' = Some (Fin (py_round 2 (lt_p50_ms r)))"
    "dict_get (add_latency (Some (map gate_row rs)) metrics) ''latency_p95_ms'' = Some (Fin (py_round 2 (lt_p95_ms r)))"
    by (simp_all add: add_latency_def serving_rows_gate Cons dict_simps flt_round_def gate_row_def)
  ultimately show ?thesis using r by blast
qed

section \<open>What a sweep does to the artefacts\<close>

text \<open>A step that changes files of \<open>ps\<close> only and makes directories up to \<open>d\<close> only; one that keeps what is there.\<close>

definition touches :: "path set \<Rightarrow> path \<Rightarrow> 'a step_on \<Rightarrow> bool" where
  "touches ps d f \<longleftrightarrow>
     (\<forall>S p. (p \<notin> ps \<longrightarrow> dict_get (sr_files (fst (f S))) p = dict_get (sr_files S) p)
        \<and> (p \<notin> ps \<and> \<not> prefix p d \<longrightarrow> file_exists (fst (f S)) p = file_exists S p))"

definition keeps_files :: "'a step_on \<Rightarrow> bool" where
  "keeps_files f \<longleftrightarrow> (\<forall>S p. dict_get (sr_files S) p \<noteq> None \<longrightarrow> dict_get (sr_files (fst (f S))) p = dict_get (sr_files S) p)"

lemma touches_writes: "writes_in ps f \<Longrightarrow> touches ps d f"
  by (simp add: touches_def writes_in_def file_exists_def)

lemma touches_then: "touches ps d f \<Longrightarrow> (\<And>x. touches ps d (g x)) \<Longrightarrow> touches ps d (then_do f g)"
  unfolding touches_def then_do_def by (auto split: prod.splits sum.splits) (metis fst_conv)+

lemma touches_if: "touches ps d f \<Longrightarrow> touches ps d g \<Longrightarrow> touches ps d (\<lambda>S. if P S then f S else g S)"
  by (simp add: touches_def)

lemma touches_dirs: "touches ps d f \<Longrightarrow> touches ps d (\<lambda>S. f (make_dirs d S))"
proof -
  assume f: "touches ps d f"
  have dir: "p \<in> set (sr_dirs (make_dirs d S)) \<longleftrightarrow> p \<in> set (sr_dirs S)" if "\<not> prefix p d" for p S
    using that by (auto simp: make_dirs_def take_is_prefix)
  have "dict_get (sr_files (make_dirs d S)) p = dict_get (sr_files S) p" for p S by (simp add: make_dirs_def)
  with dir have "file_exists (make_dirs d S) p = file_exists S p" if "\<not> prefix p d" for p S
    using that by (simp add: file_exists_def)
  with f show ?thesis by (simp add: touches_def make_dirs_def)
qed

lemma keeps_then: "keeps_files f \<Longrightarrow> (\<And>x. keeps_files (g x)) \<Longrightarrow> keeps_files (then_do f g)"
  unfolding keeps_files_def then_do_def by (auto split: prod.splits sum.splits) (metis fst_conv option.distinct(1))+

lemma keeps_unless:
  assumes "writes_in {p} f" "\<And>S. P S \<Longrightarrow> \<not> file_exists S p"
  shows "keeps_files (\<lambda>S. if P S then f S else (S, r))"
  using assms by (auto simp: keeps_files_def writes_in_def file_exists_def) (metis option.distinct(1))

definition sweep_graphs :: "path \<Rightarrow> path set" where
  "sweep_graphs d = {d @ [n] | n. n \<in> set graph_files}"

lemma aux_names: "name \<in> {''detector'', ''embedder''} \<Longrightarrow> d @ [name @ ''_int8.onnx''] \<in> sweep_graphs d"
  by (auto simp: sweep_graphs_def graph_files_def)

lemma touches_auxiliary: "name \<in> {''detector'', ''embedder''} \<Longrightarrow> touches (sweep_graphs (sa_artifacts_dir args)) d (quantize_auxiliary env args name)"
  unfolding quantize_auxiliary_def Let_def
  by (intro touches_if touches_writes writes_in_simps) (rule aux_names)

lemma touches_prepare: "touches (sweep_graphs (sa_artifacts_dir args)) (sa_artifacts_dir args) (prepare_graphs env args run)"
  unfolding prepare_graphs_def Let_def export_onnx_def
  by (intro touches_then touches_if touches_dirs touches_auxiliary touches_writes writes_in_intros)
    (auto simp: sweep_graphs_def graph_files_def)

lemma keeps_auxiliary:
  assumes "sa_skip_export args" shows "keeps_files (quantize_auxiliary env args name)"
proof -
  let ?p = "sa_artifacts_dir args @ [name @ ''_fp32.onnx'']" and ?q = "sa_artifacts_dir args @ [name @ ''_int8.onnx'']"
  let ?task = "if name = ''detector'' then ''detection'' else ''embedding''"
  have "quantize_auxiliary env args name = (\<lambda>S. if name \<in> set (selected_models args) \<and> file_exists S ?p \<and> \<not> file_exists S ?q
      then export_int8 env ?task ?p ?q S else (S, Inr ()))"
    using assms by (intro ext) (simp add: quantize_auxiliary_def Let_def)
  then show ?thesis
    using keeps_unless [OF writes_in_simps(4) [of ?q "{?q}" env ?task ?p],
        of "\<lambda>S. name \<in> set (selected_models args) \<and> file_exists S ?p \<and> \<not> file_exists S ?q" "Inr ()"] by simp
qed

lemma keeps_simps: "keeps_files (pure_step r)" "keeps_files (\<lambda>S. (S, r))"
  by (simp_all add: keeps_files_def pure_step_def)

lemma keeps_if: "keeps_files f \<Longrightarrow> keeps_files g \<Longrightarrow> keeps_files (\<lambda>S. if P S then f S else g S)"
  by (simp add: keeps_files_def)

lemma keeps_prepare:
  assumes "sa_skip_export args" shows "keeps_files (prepare_graphs env args run)"
proof -
  let ?p = "sa_artifacts_dir args @ [''classifier_fp32.onnx'']" and ?q = "sa_artifacts_dir args @ [''classifier_int8.onnx'']"
  have export: "keeps_files (\<lambda>S. if \<not> sa_skip_export args \<or> \<not> file_exists S ?p
      then then_do (export_onnx model ?p) (\<lambda>_. pure_step (Inr ())) (make_dirs (sa_artifacts_dir args) S) else (S, Inr ()))" for model
  proof -
    have w: "writes_in {?p} (then_do (export_onnx model ?p) (\<lambda>_. pure_step (Inr ())))"
      unfolding export_onnx_def by (intro writes_in_intros) simp
    have "dict_get (sr_files (fst (then_do (export_onnx model ?p) (\<lambda>_. pure_step (Inr ())) (make_dirs d S)))) q = dict_get (sr_files S) q"
      if "\<not> file_exists S ?p" "dict_get (sr_files S) q \<noteq> None" for S q d
    proof -
      have "q \<noteq> ?p" using that by (auto simp: file_exists_def)
      then have "dict_get (sr_files (fst (then_do (export_onnx model ?p) (\<lambda>_. pure_step (Inr ())) (make_dirs d S)))) q
          = dict_get (sr_files (make_dirs d S)) q" using w unfolding writes_in_def by blast
      then show ?thesis by (simp add: make_dirs_def)
    qed
    then show ?thesis using assms unfolding keeps_files_def by (auto simp del: not_None_eq)
  qed
  have int8: "keeps_files (\<lambda>S. if \<not> sa_skip_int8 args \<and> (\<not> sa_skip_export args \<or> \<not> file_exists S ?q)
      then export_int8 env ''classification'' ?p ?q S else (S, Inr ()))"
    using assms by (intro keeps_unless [OF writes_in_simps(4)]) auto
  show ?thesis
    unfolding prepare_graphs_def Let_def
    by (intro keeps_then keeps_if keeps_simps export int8 keeps_auxiliary [OF assms])
qed

lemma run_benchmarks_store: "fst (fst (run_benchmarks E args out run (S, b))) = fst (prepare_graphs (se_publish E) args run S)"
  unfolding run_benchmarks_def by (auto simp: Let_def split: prod.split sum.split)

lemma then_do_step: "f S = (S1, Inr x) \<Longrightarrow> then_do f g S = g x S1"
  by (simp add: then_do_def)

lemma prepare_classifier_graph:
  assumes "\<not> sa_skip_export args" "tr_classifier run = Inr tc" "tc_export tc = Inr g" "tc_check tc g = Inr ()"
    and "verify_onnx_equivalence tc g = Inr diff" "diff \<le> atol"
  shows "dict_get (sr_files (fst (prepare_graphs env args run S))) (sa_artifacts_dir args @ [''classifier_fp32.onnx'']) = Some (Onnx_File g)"
proof -
  let ?d = "sa_artifacts_dir args" let ?p = "?d @ [''classifier_fp32.onnx'']" and ?q = "?d @ [''classifier_int8.onnx'']"
  let ?rest = "then_do (\<lambda>S. if \<not> sa_skip_int8 args \<and> (\<not> sa_skip_export args \<or> \<not> file_exists S ?q)
                      then export_int8 env ''classification'' ?p ?q S else (S, Inr ())) (\<lambda>_.
         then_do (\<lambda>S. if sa_skip_int8 args then (S, Inr ()) else quantize_auxiliary env args ''detector'' S) (\<lambda>_.
                  (\<lambda>S. if sa_skip_int8 args then (S, Inr ()) else quantize_auxiliary env args ''embedder'' S)))"
  have aux: "writes_in (sweep_graphs ?d - {?p}) (quantize_auxiliary env args name)" if "name \<in> {''detector'', ''embedder''}" for name
    unfolding quantize_auxiliary_def Let_def
    using that by (intro writes_in_if writes_in_simps) (auto simp: sweep_graphs_def graph_files_def)
  have "writes_in (sweep_graphs ?d - {?p}) ?rest"
    by (intro writes_in_then writes_in_if aux writes_in_simps) (auto simp: sweep_graphs_def graph_files_def)
  then have keep: "dict_get (sr_files (fst (?rest S'))) ?p = dict_get (sr_files S') ?p" for S' by (simp add: writes_in_def)
  have ex: "export_onnx tc ?p (make_dirs ?d S) = (write_file ?p (Onnx_File g) (make_dirs ?d S), Inr diff)"
    unfolding export_onnx_def using assms(3-6) by (simp add: export_graph_def then_do_def pure_step_def do_write_def)
  have "prepare_graphs env args run S = ?rest (write_file ?p (Onnx_File g) (make_dirs ?d S))"
    unfolding prepare_graphs_def Let_def
  proof (rule trans [OF then_do_step [of "pure_step (tr_classifier run)" S S tc]])
    show "pure_step (tr_classifier run) S = (S, Inr tc)" by (simp add: pure_step_def assms(2))
    show "then_do (\<lambda>S. if \<not> sa_skip_export args \<or> \<not> file_exists S ?p
          then then_do (export_onnx tc ?p) (\<lambda>_. pure_step (Inr ())) (make_dirs ?d S) else (S, Inr ())) (\<lambda>_. ?rest) S
        = ?rest (write_file ?p (Onnx_File g) (make_dirs ?d S))"
      by (rule then_do_step) (use assms(1) ex in \<open>simp add: then_do_step [of "export_onnx tc ?p"] pure_step_def\<close>)
  qed
  then have "dict_get (sr_files (fst (prepare_graphs env args run S))) ?p
      = dict_get (sr_files (write_file ?p (Onnx_File g) (make_dirs ?d S))) ?p" by (simp only: keep)
  then show ?thesis by (simp add: write_file_def dict_simps)
qed

text \<open>
  A sweep replaces what is served unless it is told to skip the export. Whatever it does and however
  it ends, it leaves the labels, metrics and detector metadata the service finds for every version
  as they were; with \<open>--skip-export\<close> it changes no file that is there; without it, a sweep in the
  artefact directory of the service puts the graph of the benchmarked run in the place of the
  served classifier, beside the labels of the run published before.
\<close>

theorem sweep_replaces_served:
  assumes "sa_artifacts_dir args = art @ [''onnx'']" "fst (fst (run_benchmarks E args out run (S, b))) = S'"
  shows "read_classifier_metadata (fs_of S') art w = read_classifier_metadata (fs_of S) art w
    \<and> read_detector_metadata (fs_of S') art w = read_detector_metadata (fs_of S) art w
    \<and> (sa_skip_export args \<longrightarrow> (\<forall>p. dict_get (sr_files S) p \<noteq> None \<longrightarrow> dict_get (sr_files S') p = dict_get (sr_files S) p))
    \<and> (\<not> sa_skip_export args \<longrightarrow>
        (\<forall>tc g diff. tr_classifier run = Inr tc \<and> tc_export tc = Inr g \<and> tc_check tc g = Inr ()
            \<and> verify_onnx_equivalence tc g = Inr diff \<and> diff \<le> atol
          \<longrightarrow> dict_get (sr_files S') (art @ [''onnx'', ''classifier_fp32.onnx'']) = Some (Onnx_File g)))"
proof (intro conjI impI allI)
  have S': "S' = fst (prepare_graphs (se_publish E) args run S)" using assms(2) by (simp add: run_benchmarks_store)
  have t: "p \<notin> sweep_graphs (art @ [''onnx'']) \<Longrightarrow> dict_get (sr_files S') p = dict_get (sr_files S) p"
    "p \<notin> sweep_graphs (art @ [''onnx'']) \<Longrightarrow> \<not> prefix p (art @ [''onnx'']) \<Longrightarrow> file_exists S' p = file_exists S p" for p
    using touches_prepare [of args "se_publish E" run] unfolding touches_def assms(1) S' by blast+
  have v: "art @ [''onnx'', w, n] \<notin> sweep_graphs (art @ [''onnx''])" "\<not> prefix (art @ [''onnx'', w, n]) (art @ [''onnx''])" for n
    by (auto simp: sweep_graphs_def)
  have f: "art @ [n] \<notin> sweep_graphs (art @ [''onnx''])" for n by (auto simp: sweep_graphs_def)
  have f': "\<not> prefix (art @ [n]) (art @ [''onnx''])" if "n \<in> set sidecar_files" for n using that by (auto simp: sidecar_files_def)
  show "read_classifier_metadata (fs_of S') art w = read_classifier_metadata (fs_of S) art w"
    "read_detector_metadata (fs_of S') art w = read_detector_metadata (fs_of S) art w"
    by (rule metadata_unchanged; use t v f f' in blast)+
next
  fix p assume "sa_skip_export args" "dict_get (sr_files S) p \<noteq> None"
  then show "dict_get (sr_files S') p = dict_get (sr_files S) p"
    using keeps_prepare [of args "se_publish E" run] assms(2) unfolding run_benchmarks_store keeps_files_def by blast
next
  fix tc g diff
  assume "\<not> sa_skip_export args" "tr_classifier run = Inr tc \<and> tc_export tc = Inr g \<and> tc_check tc g = Inr ()
      \<and> verify_onnx_equivalence tc g = Inr diff \<and> diff \<le> atol"
  then show "dict_get (sr_files S') (art @ [''onnx'', ''classifier_fp32.onnx'']) = Some (Onnx_File g)"
    using prepare_classifier_graph [of args run tc g diff "se_publish E" S] assms by (simp add: run_benchmarks_store)
qed

section \<open>A sweep on a machine where only the embedder runs\<close>

lemma format_total:
  assumes "\<forall>r \<in> set (bp_results report). lt_batch_size r \<noteq> 0 \<and> lt_mean_ms r \<noteq> 0"
  shows "\<exists>text. format_markdown_report py_str report b p = Inr text"
proof -
  let ?bs = "baselines_of (effective_baseline b (bp_results report)) p (bp_results report)"
  have "\<exists>y. latency_row ?bs r = Inr y" if "r \<in> set (sort_key report_key (bp_results report))" for r
    using assms that by (auto simp: latency_row_def speedup_of_def per_image_ms_def split: option.splits)
  then obtain rows where "map_res (latency_row ?bs) (sort_key report_key (bp_results report)) = Inr rows"
    using map_res_total by blast
  then show ?thesis by (simp add: format_markdown_report_def Let_def)
qed

definition fails :: "'w bench \<Rightarrow> bool" where
  "fails fn \<longleftrightarrow> (\<forall>s. \<exists>s' e. fn s = (s', Inl e))"

lemma fails_try: "fails fn \<Longrightarrow> snd (try_case m fn st) = snd st"
  unfolding fails_def try_case_def by (auto dest!: spec [of _ "fst st"])

lemma fails_cases: "list_all (\<lambda>(l, fn). fails fn) cases \<Longrightarrow> snd (run_cases m cases st) = snd st"
proof (induction cases arbitrary: st)
  case (Cons c cs)
  then have f: "fails (snd c)" and rest: "list_all (\<lambda>(l, fn). fails fn) cs" by (auto simp: case_prod_unfold)
  have "run_cases m (c # cs) st = run_cases m cs (try_case m (snd c) st)"
    by (simp add: run_cases_def case_prod_unfold)
  then show ?case using Cons.IH [OF rest] fails_try [OF f] by simp
qed (simp add: run_cases_def)

definition no_driver :: exn where
  "no_driver = PyExc ''RuntimeError'' ''no driver''"

definition lone_machine :: "real machine" where
  "lone_machine =
     \<lparr>mc_clock = id, mc_torch = (\<lambda>_ _ _ _ _ t. (t, Inl no_driver)), mc_cuda_sync = id,
      mc_session = (\<lambda>_ path provs.
         if path = [''a'', ''embedder_fp32.onnx''] \<and> fst (hd provs) = cuda_provider
         then Inr \<lparr>os_providers = [cuda_provider, cpu_provider], os_inputs = [''images''], os_run = (\<lambda>_ _ t. (t + 1 / 200, Inr ()))\<rparr>
         else Inl no_driver),
      mc_size = (\<lambda>_. 86000000), mc_linker = demo_env (\<lambda>_. Missing)\<rparr>"

definition demo_graphs :: store where
  "demo_graphs = \<lparr>sr_files = [([''a'', ''classifier_fp32.onnx''], Onnx_File ''g''), ([''a'', ''embedder_fp32.onnx''], Onnx_File ''h'')],
     sr_dirs = [[''a'']]\<rparr>"

definition demo_sweep_args :: sweep_args where
  "demo_sweep_args =
     \<lparr>sa_artifacts_dir = [''a''], sa_batch_sizes = [1], sa_iterations = 1, sa_warmup = 0, sa_quantize_only = False,
      sa_accuracy_samples = 0, sa_skip_export = True, sa_skip_int8 = True, sa_skip_tensorrt = True, sa_skip_compile = True,
      sa_models = [''classifier'', ''embedder'']\<rparr>"

definition demo_sweep_env :: "real sweep_env" where
  "demo_sweep_env =
     \<lparr>se_machine = (\<lambda>_. lone_machine), se_package_dir = (\<lambda>_. None), se_publish = demo_publish_env,
      se_accuracy = (\<lambda>_ _ _. Inl no_driver), se_fidelity = (\<lambda>_ _ _ _. Inl no_driver),
      se_environment = [(''cuda_available'', PBool True)], se_now = ''2026-01-01'', se_detector_report = False, se_py_str = (\<lambda>_. [])\<rparr>"

lemma lone_torch_fails: "fails (torch_case lone_machine demo_sweep_args n sz device p c)"
proof -
  have "\<exists>s' e. benchmark_torch lone_machine n sz device p 0 1 c s = (s', Inl e)" for s
  proof (cases "nat (if c then max 0 30 else 0)")
    case 0
    then show ?thesis by (simp add: benchmark_torch_def time_callable_def lone_machine_def Let_def One_nat_def)
  next
    case (Suc k)
    then show ?thesis by (simp add: benchmark_torch_def time_callable_def lone_machine_def Let_def)
  qed
  then show ?thesis by (simp add: fails_def torch_case_def demo_sweep_args_def)
qed

lemma lone_onnx_fails:
  "path \<noteq> [''a'', ''embedder_fp32.onnx''] \<or> provider \<noteq> cuda_provider \<Longrightarrow> fails (onnx_case lone_machine args n sz path provider p)"
  unfolding fails_def onnx_case_def benchmark_onnx_def Let_def
  by (auto simp: lone_machine_def provider_list_def)

definition lone_row :: latency_result where
  "lone_row = \<lparr>lt_backend = ''onnxruntime-cuda'', lt_precision = ''fp32'', lt_batch_size = 1, lt_device = ''cuda'',
     lt_mean_ms = 5, lt_std_ms = 0, lt_p50_ms = 5, lt_p95_ms = 5, lt_p99_ms = 5, lt_min_ms = 5, lt_max_ms = 5,
     lt_throughput_ips = 200, lt_iterations = 1, lt_warmup = 0, lt_model = ''embedder'',
     lt_model_size_mb = Some (py_round 1 86), lt_accuracy_top1 = None, lt_notes = []\<rparr>"

lemma cuda_not_others: "cuda_provider \<noteq> cpu_provider" "cuda_provider \<noteq> tensorrt_provider"
  by (simp_all add: cpu_provider_def cuda_provider_def tensorrt_provider_def)

lemma lone_embedder_row:
  "\<exists>s' r. onnx_case lone_machine demo_sweep_args 1 224 [''a'', ''embedder_fp32.onnx''] cuda_provider ''fp32'' s = (s', Inr r)
     \<and> r\<lparr>lt_model := ''embedder''\<rparr> = lone_row"
proof -
  let ?run = "\<lambda>t :: real. (t + 1 / 200, Inr () :: unit result)"
  have t: "time_callable id ?run 0 1 None w = (w + 1 / 200, Inr [5])" for w
    by (simp add: time_callable_def One_nat_def sync_with_def)
  have s: "summarise [5] ''onnxruntime-cuda'' ''fp32'' 1 ''cuda'' 0 (Some (py_round 1 (of_int 86000000 / 1000000)))
      = Inr (lone_row\<lparr>lt_model := ''classifier''\<rparr>)"
    by (simp add: summarise_cases lone_row_def fmean_def percentile_def rank_index_def py_trunc_def)
  have m: "mc_session lone_machine libs [''a'', ''embedder_fp32.onnx''] (provider_list cuda_provider [])
      = Inr \<lparr>os_providers = [cuda_provider, cpu_provider], os_inputs = [''images''], os_run = (\<lambda>_ _. ?run)\<rparr>" for libs
    by (simp add: lone_machine_def provider_list_def)
  have "\<exists>s'. onnx_case lone_machine demo_sweep_args 1 224 [''a'', ''embedder_fp32.onnx''] cuda_provider ''fp32'' s
      = (s', Inr (lone_row\<lparr>lt_model := ''classifier''\<rparr>))"
    unfolding onnx_case_def benchmark_onnx_def Let_def if_not_P [OF cuda_not_others(2)] m sum.case
    using cuda_not_others s t by (simp add: backend_labels lone_machine_def demo_sweep_args_def)
  then show ?thesis by (auto simp: lone_row_def)
qed

lemma lone_cases_fail:
  "list_all (\<lambda>(l, fn). fails fn)
     (classifier_cases lone_machine demo_sweep_args sz True False int8 [''a'', ''classifier_fp32.onnx''] [''a'', ''classifier_int8.onnx''] n)"
proof -
  have p: "[''a'', ''classifier_fp32.onnx''] \<noteq> [''a'', ''embedder_fp32.onnx'']" "[''a'', ''classifier_int8.onnx''] \<noteq> [''a'', ''embedder_fp32.onnx'']"
    by simp_all
  note f = lone_onnx_fails [OF disjI1 [OF p(1)]] lone_onnx_fails [OF disjI1 [OF p(2)]] lone_torch_fails
  show ?thesis
    unfolding classifier_cases_def Let_def by (cases "sa_skip_compile demo_sweep_args"; cases int8) (simp_all only: list_all_append list.pred_inject f
        if_True if_False prod.case append_Nil append_Nil2 HOL.simp_thms)
qed

lemma lone_classifier_rows: "snd (sweep_classifier lone_machine demo_sweep_args sz True False demo_graphs (b, [])) = []"
proof -
  have a: "sa_batch_sizes demo_sweep_args = [1]" "sa_artifacts_dir demo_sweep_args = [''a'']" by (simp_all only: demo_sweep_args_def sweep_args.simps)
  show ?thesis
    unfolding sweep_classifier_def Let_def a append_Cons append_Nil fold.simps o_apply id_apply fails_cases [OF lone_cases_fail] by simp
qed

lemma lone_extra_rows: "snd (fold (sweep_extra lone_machine demo_sweep_args True False demo_graphs) [(''detector'', 640), (''embedder'', 224)] (b, []))
    = [lone_row]"
proof -
  have d: "sweep_extra lone_machine demo_sweep_args True False demo_graphs (''detector'', 640) (b, []) = (b, [])"
    by (simp add: sweep_extra_def Let_def selected_models_def demo_sweep_args_def)
  let ?p = "[''a'', ''embedder_fp32.onnx'']"
  have cases: "extra_cases lone_machine demo_sweep_args 224 True False False ''embedder'' ?p q 1
      = [(''embedder onnx cpu'', onnx_case lone_machine demo_sweep_args 1 224 ?p cpu_provider ''fp32''),
         (''embedder onnx cuda'', onnx_case lone_machine demo_sweep_args 1 224 ?p cuda_provider ''fp32'')]" for q
    by (simp add: extra_cases_def Let_def)
  have cpu: "snd (try_case ''embedder'' (onnx_case lone_machine demo_sweep_args 1 224 ?p cpu_provider ''fp32'') st) = snd st" for st
    by (rule fails_try) (use cuda_not_others(1) in \<open>auto intro: lone_onnx_fails\<close>)
  have cuda: "snd (try_case ''embedder'' (onnx_case lone_machine demo_sweep_args 1 224 ?p cuda_provider ''fp32'') st) = snd st @ [lone_row]" for st
    using lone_embedder_row [of "fst st"] by (auto simp: try_case_def)
  have "snd (run_cases ''embedder'' (extra_cases lone_machine demo_sweep_args 224 True False False ''embedder'' ?p q 1) st) = snd st @ [lone_row]" for q st
    unfolding cases run_cases_def by (simp add: cpu cuda)
  moreover have "sweep_extra lone_machine demo_sweep_args True False demo_graphs (''embedder'', 224) st
      = run_cases ''embedder'' (extra_cases lone_machine demo_sweep_args 224 True False False ''embedder'' ?p [''a'', ''embedder_int8.onnx''] 1) st" for st
    by (simp add: sweep_extra_def Let_def selected_models_def demo_sweep_args_def file_exists_def demo_graphs_def)
  ultimately show ?thesis by (simp add: d)
qed

lemma demo_prepare_graphs: "prepare_graphs demo_publish_env demo_sweep_args (demo_run_with 0) demo_graphs = (demo_graphs, Inr ())"
  by (simp add: prepare_graphs_def Let_def then_do_def pure_step_def demo_sweep_args_def demo_run_with_def demo_graphs_def file_exists_def)

lemma demo_sweep_runs:
  "\<exists>b' report text. run_benchmarks demo_sweep_env demo_sweep_args [''out''] (demo_run_with 0) (demo_graphs, \<lparr>bs_world = 0, bs_libs = []\<rparr>)
     = ((demo_graphs, b'), Inr (Some (report, text, None))) \<and> bp_results report = [lone_row]"
proof -
  let ?b = "\<lparr>bs_world = 0, bs_libs = []\<rparr> :: real bench_state"
  let ?libs = "fst (preload_cuda_libraries (mc_linker lone_machine) (bs_libs ?b))"
  obtain b1 where c: "sweep_classifier lone_machine demo_sweep_args (tr_image_size (demo_run_with 0)) True False demo_graphs (?b\<lparr>bs_libs := ?libs\<rparr>, [])
      = (b1, [])" using lone_classifier_rows by (metis prod.collapse)
  obtain b2 where x: "fold (sweep_extra lone_machine demo_sweep_args True False demo_graphs) [(''detector'', 640), (''embedder'', 224)] (b1, [])
      = (b2, [lone_row])" using lone_extra_rows by (metis prod.collapse)
  let ?report = "\<lparr>bp_results = [lone_row], bp_environment = se_environment demo_sweep_env, bp_generated_at = se_now demo_sweep_env\<rparr>"
  obtain md where t: "format_markdown_report (se_py_str demo_sweep_env) ?report ''pytorch-cuda'' ''fp32'' = Inr md"
    using format_total [of ?report "se_py_str demo_sweep_env" "''pytorch-cuda''" "''fp32''"] by (auto simp: lone_row_def)
  have e: "se_publish demo_sweep_env = demo_publish_env" "se_machine demo_sweep_env S = lone_machine"
    "has_cuda (se_environment demo_sweep_env) = True" for S
    by (simp_all add: demo_sweep_env_def has_cuda_def)
  have a: "sa_quantize_only demo_sweep_args = False" "sa_skip_tensorrt demo_sweep_args = True"
    "measure_accuracy demo_sweep_env demo_sweep_args S = []" "measure_fidelity demo_sweep_env demo_sweep_args S = []" for S
    by (simp_all add: demo_sweep_args_def measure_accuracy_def measure_fidelity_def Let_def)
  have "run_benchmarks demo_sweep_env demo_sweep_args [''out''] (demo_run_with 0) (demo_graphs, ?b)
      = ((demo_graphs, b2), Inr (Some (?report, md, None)))"
    unfolding run_benchmarks_def fst_conv snd_conv e demo_prepare_graphs prod.case sum.case a if_True if_False Let_def c
      annotate_accuracy_def HOL.simp_thms x t res_bind.simps by simp
  moreover have "bp_results ?report = [lone_row]" by (rule benchmark_report.select_convs(1))
  ultimately show ?thesis by blast
qed


text \<open>On that machine the gate takes the latency of the embedder for the classifier's.\<close>

theorem gate_reads_sweep_witness:
  "\<exists>b' report text. run_benchmarks demo_sweep_env demo_sweep_args [''out''] (demo_run_with 0) (demo_graphs, \<lparr>bs_world = 0, bs_libs = []\<rparr>)
     = ((demo_graphs, b'), Inr (Some (report, text, None)))
     \<and> (\<exists>r \<in> set (bp_results report). lt_model r = ''embedder''
         \<and> dict_get (add_latency (Some (map gate_row (bp_results report))) []) ''latency_p95_ms'' = Some (Fin (py_round 2 (lt_p95_ms r))))"
proof -
  obtain b' report md where r: "run_benchmarks demo_sweep_env demo_sweep_args [''out''] (demo_run_with 0) (demo_graphs, \<lparr>bs_world = 0, bs_libs = []\<rparr>)
     = ((demo_graphs, b'), Inr (Some (report, md, None)))" "bp_results report = [lone_row]" using demo_sweep_runs by blast
  have "filter serving_row (bp_results report) \<noteq> []" by (simp add: r(2) serving_row_def lone_row_def)
  with gate_reads_sweep [OF r(1), of "[]"] obtain x where x: "x \<in> set (bp_results report)"
    "dict_get (add_latency (Some (map gate_row (bp_results report))) []) ''latency_p95_ms'' = Some (Fin (py_round 2 (lt_p95_ms x)))" by blast
  then have "lt_model x = ''embedder''" by (simp add: r(2) lone_row_def)
  with x r(1) show ?thesis by blast
qed

theorem sweep_replaces_served_witness:
  "let S' = fst (fst (run_benchmarks demo_sweep_env (demo_sweep_args\<lparr>sa_artifacts_dir := [''art'', ''onnx''], sa_skip_export := False\<rparr>) [''out'']
       (demo_run_with 0) (v1_store, \<lparr>bs_world = 0, bs_libs = []\<rparr>)))
   in read_classifier_metadata (fs_of S') [''art''] ''v1'' = read_classifier_metadata (fs_of v1_store) [''art''] ''v1''
     \<and> dict_get (sr_files S') [''art'', ''onnx'', ''classifier_fp32.onnx''] = Some (Onnx_File ''weights of run 7'')"
proof -
  let ?args = "demo_sweep_args\<lparr>sa_artifacts_dir := [''art'', ''onnx''], sa_skip_export := False\<rparr>"
  have d: "sa_artifacts_dir ?args = [''art''] @ [''onnx'']" "\<not> sa_skip_export ?args" by simp_all
  have run: "tr_classifier (demo_run_with 0) = Inr (demo_tracer 0)" "tc_export (demo_tracer 0) = Inr ''weights of run 7''"
    "tc_check (demo_tracer 0) g = Inr ()" "verify_onnx_equivalence (demo_tracer 0) g = Inr 0" for g
    by (simp_all add: demo_run_with_def demo_tracer_def verify_onnx_equivalence_def)
  have "(0 :: real) \<le> atol" by (simp add: atol_def)
  with sweep_replaces_served [OF d(1) refl, where E = demo_sweep_env and out = "[''out'']" and run = "demo_run_with 0" and S = v1_store
      and b = "\<lparr>bs_world = 0, bs_libs = []\<rparr>" and w = "''v1''"] d(2) run
  show ?thesis unfolding Let_def append_Cons append_Nil by blast
qed

end
