(* ===== verification/Disk.thy ===== *)
theory Disk
  imports Model_Service
begin

text \<open>
  A file system without symbolic links as a dictionary of absolute paths, and the actions of
  \<open>pathlib\<close> and \<open>shutil\<close> that the data scripts perform on it. An action reads and changes the disk and
  may raise; \<open>confined\<close> says that it is confined to a directory.
\<close>

section \<open>The disk\<close>

datatype node = Folder | Blob bytes

type_synonym disk = "(path, node) dict"

type_synonym 'a act = "disk \<Rightarrow> disk \<times> 'a result"

definition act_return :: "'a \<Rightarrow> 'a act" where
  "act_return x d = (d, Inr x)"

definition act_raise :: "exn \<Rightarrow> 'a act" where
  "act_raise e d = (d, Inl e)"

definition act_then :: "'a act \<Rightarrow> ('a \<Rightarrow> 'b act) \<Rightarrow> 'b act" where
  "act_then m f d = (case m d of (d', Inl e) \<Rightarrow> (d', Inl e) | (d', Inr x) \<Rightarrow> f x d')"

text \<open>Run \<open>g\<close> whatever the first action does: the end of a \<open>with\<close> block.\<close>

definition act_finally :: "'a act \<Rightarrow> (disk \<Rightarrow> disk) \<Rightarrow> 'a act" where
  "act_finally m g d = (case m d of (d', r) \<Rightarrow> (g d', r))"

definition disk_error :: "string \<Rightarrow> path \<Rightarrow> exn" where
  "disk_error cls p = PyExc cls (path_str p)"

definition below :: "path \<Rightarrow> path \<Rightarrow> bool" where
  "below p q \<longleftrightarrow> take (length p) q = p"

definition is_folder :: "disk \<Rightarrow> path \<Rightarrow> bool" where
  "is_folder d p \<longleftrightarrow> dict_get d p = Some Folder"

definition is_blob :: "disk \<Rightarrow> path \<Rightarrow> bool" where
  "is_blob d p \<longleftrightarrow> dict_get d p \<noteq> None \<and> dict_get d p \<noteq> Some Folder"

text \<open>\<open>iterdir\<close>: the names in a directory.\<close>

definition entries_of :: "disk \<Rightarrow> path \<Rightarrow> string list" where
  "entries_of d p = map last (filter (\<lambda>q. q \<noteq> [] \<and> butlast q = p) (map fst d))"

definition subfolders :: "disk \<Rightarrow> path \<Rightarrow> string list" where
  "subfolders d p = filter (\<lambda>n. is_folder d (p @ [n])) (entries_of d p)"

text \<open>\<open>shutil.rmtree\<close> of a directory that is there, and \<open>unlink\<close>.\<close>

definition drop_tree :: "path \<Rightarrow> disk \<Rightarrow> disk" where
  "drop_tree p d = filter (\<lambda>kv. \<not> below p (fst kv)) d"

definition unlink :: "path \<Rightarrow> unit act" where
  "unlink p d =
     (case dict_get d p of
        None \<Rightarrow> (d, Inl (disk_error ''FileNotFoundError'' p))
      | Some Folder \<Rightarrow> (d, Inl (disk_error ''IsADirectoryError'' p))
      | Some (Blob _) \<Rightarrow> (filter (\<lambda>kv. fst kv \<noteq> p) d, Inr ()))"

text \<open>\<open>mkdir(exist_ok=True)\<close>, and with \<open>parents=True\<close>.\<close>

definition make_folder :: "path \<Rightarrow> unit act" where
  "make_folder p d =
     (case dict_get d p of
        Some Folder \<Rightarrow> (d, Inr ())
      | Some (Blob _) \<Rightarrow> (d, Inl (disk_error ''FileExistsError'' p))
      | None \<Rightarrow>
          (case dict_get d (butlast p) of
             Some Folder \<Rightarrow> (dict_set p Folder d, Inr ())
           | Some (Blob _) \<Rightarrow> (d, Inl (disk_error ''NotADirectoryError'' p))
           | None \<Rightarrow> (d, Inl (disk_error ''FileNotFoundError'' p))))"

fun make_each :: "path list \<Rightarrow> unit act" where
  "make_each [] = act_return ()"
| "make_each (p # ps) = act_then (make_folder p) (\<lambda>_. make_each ps)"

definition make_folders :: "path \<Rightarrow> unit act" where
  "make_folders p = make_each (map (\<lambda>n. take n p) [1..<length p + 1])"

text \<open>Opening a file for writing and writing it whole.\<close>

definition put_blob :: "path \<Rightarrow> bytes \<Rightarrow> unit act" where
  "put_blob p b d =
     (case dict_get d p of
        Some Folder \<Rightarrow> (d, Inl (disk_error ''IsADirectoryError'' p))
      | Some (Blob _) \<Rightarrow> (dict_set p (Blob b) d, Inr ())
      | None \<Rightarrow>
          (case dict_get d (butlast p) of
             Some Folder \<Rightarrow> (dict_set p (Blob b) d, Inr ())
           | Some (Blob _) \<Rightarrow> (d, Inl (disk_error ''NotADirectoryError'' p))
           | None \<Rightarrow> (d, Inl (disk_error ''FileNotFoundError'' p))))"

text \<open>\<open>rename\<close>: of a file over a file, or of a directory over an empty one or to a new name.\<close>

definition move_tree :: "path \<Rightarrow> path \<Rightarrow> disk \<Rightarrow> disk" where
  "move_tree p q d = map (\<lambda>(k, v). (if below p k then q @ drop (length p) k else k, v)) (drop_tree q d)"

definition rename_to :: "path \<Rightarrow> path \<Rightarrow> unit act" where
  "rename_to p q d =
     (case dict_get d p of
        None \<Rightarrow> (d, Inl (disk_error ''FileNotFoundError'' p))
      | Some n \<Rightarrow>
          if p = q then (d, Inr ())
          else if below p q then (d, Inl (disk_error ''OSError'' q))
          else
            (case dict_get d q of
               Some Folder \<Rightarrow>
                 if n \<noteq> Folder then (d, Inl (disk_error ''IsADirectoryError'' q))
                 else if list_ex (\<lambda>k. below q k \<and> k \<noteq> q) (map fst d) then (d, Inl (disk_error ''OSError'' q))
                 else (move_tree p q d, Inr ())
             | Some (Blob _) \<Rightarrow>
                 if n = Folder then (d, Inl (disk_error ''NotADirectoryError'' q)) else (move_tree p q d, Inr ())
             | None \<Rightarrow>
                 (case dict_get d (butlast q) of
                    Some Folder \<Rightarrow> (move_tree p q d, Inr ())
                  | Some (Blob _) \<Rightarrow> (d, Inl (disk_error ''NotADirectoryError'' q))
                  | None \<Rightarrow> (d, Inl (disk_error ''FileNotFoundError'' q)))))"

text \<open>\<open>shutil.move\<close> on one file system: into a directory that is there.\<close>

definition move_to :: "path \<Rightarrow> path \<Rightarrow> unit act" where
  "move_to p q d =
     (if is_folder d q then
        (if dict_get d (q @ [last p]) \<noteq> None then (d, Inl (disk_error ''Error'' (q @ [last p])))
         else rename_to p (q @ [last p]) d)
      else rename_to p q d)"

definition rmdir :: "path \<Rightarrow> unit act" where
  "rmdir p d =
     (case dict_get d p of
        None \<Rightarrow> (d, Inl (disk_error ''FileNotFoundError'' p))
      | Some (Blob _) \<Rightarrow> (d, Inl (disk_error ''NotADirectoryError'' p))
      | Some Folder \<Rightarrow>
          if list_ex (\<lambda>k. below p k \<and> k \<noteq> p) (map fst d) then (d, Inl (disk_error ''OSError'' p))
          else (filter (\<lambda>kv. fst kv \<noteq> p) d, Inr ()))"

definition read_blob :: "path \<Rightarrow> bytes act" where
  "read_blob p d =
     (d, case dict_get d p of
           None \<Rightarrow> Inl (disk_error ''FileNotFoundError'' p)
         | Some Folder \<Rightarrow> Inl (disk_error ''IsADirectoryError'' p)
         | Some (Blob b) \<Rightarrow> Inr b)"

fun act_each :: "('x \<Rightarrow> unit act) \<Rightarrow> 'x list \<Rightarrow> unit act" where
  "act_each f [] = act_return ()"
| "act_each f (x # xs) = act_then (f x) (\<lambda>_. act_each f xs)"

section \<open>Lookups\<close>

lemma below_refl [simp]: "below p p"
  by (simp add: below_def)

lemma below_append [simp]: "below p (p @ q)"
  by (simp add: below_def)

lemma below_iff: "below p q \<longleftrightarrow> (\<exists>r. q = p @ r)"
  unfolding below_def by (metis append_take_drop_id append_eq_conv_conj)

lemma below_trans: "below p q \<Longrightarrow> below q r \<Longrightarrow> below p r"
  by (auto simp: below_iff)

lemma below_Nil [simp]: "below [] p"
  by (simp add: below_def)

lemma below_length: "below p q \<Longrightarrow> length p \<le> length q"
  by (auto simp: below_iff)

lemma below_antisym: "below p q \<Longrightarrow> below q p \<Longrightarrow> p = q"
  by (auto simp: below_iff)

lemma below_snoc: "below p (q @ [x]) \<longleftrightarrow> p = q @ [x] \<or> below p q"
proof
  assume "below p (q @ [x])"
  then obtain r where "q @ [x] = p @ r" by (auto simp: below_iff)
  then show "p = q @ [x] \<or> below p q" by (cases r rule: rev_cases) (auto simp: below_iff)
qed (auto simp: below_iff)

lemma below_linear: "below p r \<Longrightarrow> below q r \<Longrightarrow> below p q \<or> below q p"
  by (auto simp: below_iff append_eq_append_conv2)

lemma butlast_below: "below (butlast p) p"
  by (cases p rule: rev_cases) auto

lemma below_butlast:
  assumes "below p q" "p \<noteq> q" shows "below p (butlast q)"
  using assms by (cases q rule: rev_cases) (simp add: below_def, simp add: below_snoc)

lemma get_filter [dict_simps]:
  "dict_get (filter (\<lambda>kv. P (fst kv)) d) k = (if P k then dict_get d k else None)"
  by (induction d) auto

lemma get_drop_tree [dict_simps]: "dict_get (drop_tree p d) k = (if below p k then None else dict_get d k)"
  unfolding drop_tree_def by (simp add: get_filter [where P = "\<lambda>k. \<not> below p k"])

lemma get_move_tree:
  assumes "\<not> below p q"
  shows "dict_get (move_tree p q d) k =
           (if below q k then (if below q (p @ drop (length q) k) then None else dict_get d (p @ drop (length q) k))
            else if below p k then None else dict_get d k)"
proof -
  let ?f = "\<lambda>j. if below p j then q @ drop (length p) j else j"
  have map_get: "dict_get (map (\<lambda>(j, v). (?f j, v)) e) k =
      (if below q k then dict_get e (p @ drop (length q) k) else if below p k then None else dict_get e k)"
    if "\<forall>j \<in> set (map fst e). \<not> below q j" for e :: disk
    using that
  proof (induction e)
    case (Cons a e)
    obtain j v where a: "a = (j, v)" by fastforce
    from Cons.prems a have j: "\<not> below q j" by simp
    consider r where "j = p @ r" | "\<not> below p j" by (auto simp: below_iff)
    then show ?case
    proof cases
      case 1
      have "below q k \<Longrightarrow> (q @ r = k) = (p @ r = p @ drop (length q) k)" by (auto simp: below_iff)
      have "\<not> below p k \<Longrightarrow> p @ x \<noteq> k" for x by auto
      with \<open>below q k \<Longrightarrow> (q @ r = k) = (p @ r = p @ drop (length q) k)\<close>
      show ?thesis using Cons.IH Cons.prems 1 a by (cases "below q k"; cases "below p k") auto
    next
      case 2
      then have n: "p @ drop (length q) k \<noteq> j" by auto
      have "k \<noteq> j" if "below p k" using that 2 by auto
      moreover have "k \<noteq> j" if "below q k" using that j by auto
      ultimately show ?thesis using Cons.IH Cons.prems 2 a n by auto
    qed
  qed simp
  have "\<forall>j \<in> set (map fst (drop_tree q d)). \<not> below q j" by (auto simp: drop_tree_def)
  note g = map_get [OF this]
  show ?thesis unfolding move_tree_def g by (auto simp: get_drop_tree)
qed

section \<open>What an action leaves alone\<close>

text \<open>\<open>leaves base P m\<close>: where \<open>base\<close> and its ancestors are directories, the action changes no path outside
  \<open>P\<close>; \<open>confined base m\<close>: it changes only what is strictly below \<open>base\<close>.\<close>

definition strictly_below :: "path \<Rightarrow> path \<Rightarrow> bool" where
  "strictly_below base k \<longleftrightarrow> below base k \<and> k \<noteq> base"

definition folders_to :: "path \<Rightarrow> disk \<Rightarrow> bool" where
  "folders_to base d \<longleftrightarrow> (\<forall>n. is_folder d (take n base))"

definition leaves :: "path \<Rightarrow> (path \<Rightarrow> bool) \<Rightarrow> 'a act \<Rightarrow> bool" where
  "leaves base P m \<longleftrightarrow> (\<forall>d k. folders_to base d \<longrightarrow> \<not> P k \<longrightarrow> dict_get (fst (m d)) k = dict_get d k)"

abbreviation confined :: "path \<Rightarrow> 'a act \<Rightarrow> bool" where
  "confined base \<equiv> leaves base (strictly_below base)"

lemma inside_take [simp]: "\<not> strictly_below base (take n base)"
proof
  assume i: "strictly_below base (take n base)"
  then have "length base \<le> length (take n base)" by (auto simp: strictly_below_def dest: below_length)
  then have "take n base = base" by simp
  with i show False by (simp add: strictly_below_def)
qed

lemma inside_below: "strictly_below base p \<Longrightarrow> below p q \<Longrightarrow> strictly_below base q"
  by (metis strictly_below_def below_trans below_antisym)

lemma leavesD: "leaves base P m \<Longrightarrow> folders_to base d \<Longrightarrow> \<not> P k \<Longrightarrow> dict_get (fst (m d)) k = dict_get d k"
  by (simp add: leaves_def)

lemma leaves_folders:
  "leaves base P m \<Longrightarrow> \<forall>n. \<not> P (take n base) \<Longrightarrow> folders_to base d \<Longrightarrow> folders_to base (fst (m d))"
  by (simp add: leavesD [of base P m] folders_to_def [of base "fst (m d)"] is_folder_def) (simp add: folders_to_def is_folder_def)

lemma fst_act_then: "fst (act_then m f d) = (case snd (m d) of Inl e \<Rightarrow> fst (m d) | Inr x \<Rightarrow> fst (f x (fst (m d))))"
  by (simp add: act_then_def split: prod.split sum.split)

lemma leaves_then:
  assumes m: "leaves base P m" and f: "\<And>x. leaves base P (f x)" and P: "\<forall>n. \<not> P (take n base)"
  shows "leaves base P (act_then m f)"
  unfolding leaves_def
proof (intro allI impI)
  fix d k assume d: "folders_to base d" and k: "\<not> P k"
  note m' = leavesD [OF m d k]
  note f' = leavesD [OF f leaves_folders [OF m P d] k]
  show "dict_get (fst (act_then m f d)) k = dict_get d k"
    unfolding fst_act_then by (cases "snd (m d)") (simp_all add: m' f')
qed

lemma leaves_mono: "leaves base P m \<Longrightarrow> (\<And>k. P k \<Longrightarrow> Q k) \<Longrightarrow> leaves base Q m"
  by (auto simp: leaves_def)

named_theorems confined_intros \<open>actions confined to a directory\<close>

lemma confined_then [confined_intros]: "confined base m \<Longrightarrow> (\<And>x. confined base (f x)) \<Longrightarrow> confined base (act_then m f)"
  by (rule leaves_then) simp_all

lemma confined_return [confined_intros]: "leaves base P (act_return x)" and confined_raise [confined_intros]: "leaves base P (act_raise e)"
  by (simp_all add: leaves_def act_return_def act_raise_def)

lemma confined_id: "(\<And>d. fst (m d) = d) \<Longrightarrow> leaves base P m"
  by (simp add: leaves_def)

lemma confined_cases:
  "(\<And>d k. folders_to base d \<Longrightarrow> \<not> P k \<Longrightarrow> dict_get (fst (m d)) k = dict_get d k) \<Longrightarrow> leaves base P m"
  by (simp add: leaves_def)

lemma confined_make_folder:
  assumes "strictly_below base p \<or> (\<exists>n. p = take n base)" shows "confined base (make_folder p)"
proof (rule confined_cases)
  fix d k assume d: "folders_to base d" "\<not> strictly_below base k"
  show "dict_get (fst (make_folder p d)) k = dict_get d k"
  proof (cases "strictly_below base p")
    case True
    then show ?thesis using d by (auto simp: make_folder_def dict_get_set split: option.split node.split)
  next
    case False
    with assms d have "dict_get d p = Some Folder" by (auto simp: folders_to_def is_folder_def)
    then show ?thesis by (simp add: make_folder_def)
  qed
qed

lemma confined_make_each [confined_intros]: "(\<And>p. p \<in> set ps \<Longrightarrow> confined base (make_folder p)) \<Longrightarrow> confined base (make_each ps)"
  by (induction ps) (auto intro!: confined_intros)

lemma confined_make_folders: "below base p \<Longrightarrow> confined base (make_folders p)"
  unfolding make_folders_def
proof (rule confined_make_each)
  fix q assume p: "below base p" and "q \<in> set (map (\<lambda>n. take n p) [1..<length p + 1])"
  then obtain n where "q = take n p" by auto
  moreover from p obtain r where "p = base @ r" by (auto simp: below_iff)
  ultimately have n: "q = take n p" "p = base @ r" .
  show "confined base (make_folder q)"
  proof (cases "n \<le> length base")
    case True
    then show ?thesis using n by (intro confined_make_folder) auto
  next
    case False
    then have "q = base @ take (n - length base) r" using n by simp
    then show ?thesis by (intro confined_make_folder) (cases "take (n - length base) r = []", auto simp: strictly_below_def intro: exI [of _ "length base"])
  qed
qed

lemma confined_put_blob: "below base p \<Longrightarrow> confined base (put_blob p b)"
proof (rule confined_cases)
  fix d k assume p: "below base p" and d: "folders_to base d" "\<not> strictly_below base k"
  show "dict_get (fst (put_blob p b d)) k = dict_get d k"
  proof (cases "p = base")
    case True
    with d have "dict_get d p = Some Folder" by (auto simp: folders_to_def is_folder_def dest: spec [where x = "length base"])
    then show ?thesis by (simp add: put_blob_def)
  next
    case False
    with p d show ?thesis by (auto simp: put_blob_def dict_get_set strictly_below_def split: option.split node.split)
  qed
qed

lemma get_rename:
  "\<not> below p k \<Longrightarrow> \<not> below q k \<Longrightarrow> dict_get (fst (rename_to p q d)) k = dict_get d k"
  by (auto simp: rename_to_def get_move_tree split: option.split node.split)

lemma confined_rename: "strictly_below base p \<Longrightarrow> strictly_below base q \<Longrightarrow> confined base (rename_to p q)"
  by (rule confined_cases, rule get_rename) (auto dest: inside_below)

lemma confined_unlink: "strictly_below base p \<Longrightarrow> confined base (unlink p)"
  by (rule confined_cases) (auto simp: unlink_def get_filter [where P = "\<lambda>k. k \<noteq> p"] split: option.split node.split)

lemma confined_rmdir: "strictly_below base p \<Longrightarrow> confined base (rmdir p)"
  by (rule confined_cases) (auto simp: rmdir_def get_filter [where P = "\<lambda>k. k \<noteq> p"] split: option.split node.split)

lemma confined_each [confined_intros]: "(\<And>x. x \<in> set xs \<Longrightarrow> confined base (f x)) \<Longrightarrow> confined base (act_each f xs)"
  by (induction xs) (auto intro!: confined_intros)

lemma confined_read_blob [confined_intros]: "confined base (read_blob p)"
  by (rule confined_id) (simp add: read_blob_def)

lemma inside_snoc: "below base p \<Longrightarrow> strictly_below base (p @ [x])"
  by (auto simp: strictly_below_def below_iff)

lemma confined_if [confined_intros]: "leaves base P m \<Longrightarrow> leaves base P n \<Longrightarrow> leaves base P (if c then m else n)"
  by simp

lemma confined_sum [confined_intros]:
  "(\<And>x. leaves base P (f x)) \<Longrightarrow> leaves base P (case r of Inl e \<Rightarrow> act_raise e | Inr x \<Rightarrow> f x)"
  by (auto split: sum.split intro: confined_intros)

end
