(* ===== verification/Download.thy ===== *)
theory Download
  imports Disk
begin

text \<open>
  Downloading and preparing datasets (\<open>scripts/setup/download_datasets.py\<close>): resumable transfers,
  checksums, extraction, the layout of Tiny-ImageNet's validation split, the COCO subset, and the
  commands composed of them, as actions on the disk of Disk. The HTTP client, the digest, the readers
  of ZIP and tar archives, the decoding of text and the names of temporary directories are
  parameters. Progress bars are left out.
\<close>

section \<open>Transfers\<close>

definition download_chunk :: nat where
  "download_chunk = 1024 * 1024"

text \<open>An answer to a request: the status, what \<open>int\<close> makes of the length header, the body in chunks,
  and the exception that ends a transfer that breaks.\<close>

record reply =
  rp_status :: nat
  rp_length :: "int result"
  rp_chunks :: "bytes list"
  rp_broken :: "exn option"

text \<open>A request for a URL; the number is the offset of the \<open>Range\<close> header, zero for none.\<close>

type_synonym fetch = "string \<Rightarrow> nat \<Rightarrow> reply result"

text \<open>\<open>calculate_md5\<close>: the digest object collects what it is fed; \<open>md5\<close> is its digest.\<close>

function read_chunks :: "nat \<Rightarrow> bytes \<Rightarrow> bytes list" where
  "read_chunks n b = (if b = [] \<or> n = 0 then [] else take n b # read_chunks n (drop n b))"
  by pat_completeness auto
termination by (relation "measure (\<lambda>(n, b). length b)") auto

declare read_chunks.simps [simp del]

definition calculate_md5 :: "(bytes \<Rightarrow> string) \<Rightarrow> nat \<Rightarrow> bytes \<Rightarrow> string" where
  "calculate_md5 md5 n b = md5 (foldl (@) [] (read_chunks n b))"

definition partial_of :: "path \<Rightarrow> path" where
  "partial_of p = butlast p @ [last p @ ''.part'']"

definition node_size :: "node \<Rightarrow> nat" where
  "node_size n = (case n of Folder \<Rightarrow> 4096 | Blob b \<Rightarrow> length b)"

definition raise_for_status :: "string \<Rightarrow> reply \<Rightarrow> unit result" where
  "raise_for_status url rp =
     (if 400 \<le> rp_status rp \<and> rp_status rp < 600
      then Inl (PyExc ''HTTPError'' (show_nat (rp_status rp) @ '' for url: '' @ url)) else Inr ())"

text \<open>The body is appended to the partial file or replaces it; an exception leaves what has arrived.\<close>

definition save_body :: "path \<Rightarrow> bool \<Rightarrow> reply \<Rightarrow> unit act" where
  "save_body p keep rp d =
     (let old = (case dict_get d p of Some (Blob b) \<Rightarrow> if keep then b else [] | _ \<Rightarrow> [])
      in act_then (put_blob p (old @ concat (filter (\<lambda>c. c \<noteq> []) (rp_chunks rp))))
           (\<lambda>_. case rp_broken rp of Some e \<Rightarrow> act_raise e | None \<Rightarrow> act_return ()) d)"

definition download :: "fetch \<Rightarrow> bool \<Rightarrow> string \<Rightarrow> path \<Rightarrow> unit act" where
  "download fetch resume url destination d =
     (let p = partial_of destination;
          existing = (case dict_get d p of Some n \<Rightarrow> if resume then node_size n else 0 | None \<Rightarrow> 0)
      in case fetch url existing of
           Inl e \<Rightarrow> (d, Inl e)
         | Inr rp \<Rightarrow>
             (let existing = (if existing \<noteq> 0 \<and> rp_status rp = 200 then 0 else existing)
              in case raise_for_status url rp of
                   Inl e \<Rightarrow> (d, Inl e)
                 | Inr _ \<Rightarrow>
                     (case rp_length rp of
                        Inl e \<Rightarrow> (d, Inl e)
                      | Inr _ \<Rightarrow>
                          act_then (save_body p (existing \<noteq> 0) rp) (\<lambda>_. rename_to p destination) d)))"

definition dataset_error :: "string \<Rightarrow> exn" where
  "dataset_error m = PyExc ''DatasetError'' m"

definition verify_md5 :: "(bytes \<Rightarrow> string) \<Rightarrow> path \<Rightarrow> string option \<Rightarrow> unit act" where
  "verify_md5 md5 p expected =
     (case expected of
        None \<Rightarrow> act_return ()
      | Some e \<Rightarrow>
          act_then (read_blob p) (\<lambda>b.
          let actual = calculate_md5 md5 download_chunk b
          in if actual \<noteq> e
             then act_raise (dataset_error (''Checksum mismatch for '' @ last p @ '': expected '' @ e @ '', got '' @ actual
                    @ ''. The download may be corrupt or the upstream file may have changed.''))
             else act_return ()))"

section \<open>Archives\<close>

text \<open>\<open>Path.resolve\<close> without links: a component after another, \<open>..\<close> to the parent. Joining a path with
  a string drops empty and \<open>.\<close> components, and starts at the root when the string is absolute.\<close>

fun resolve :: "path \<Rightarrow> string list \<Rightarrow> path" where
  "resolve p [] = p"
| "resolve p (c # cs) = resolve (if c = ''..'' then butlast p else p @ [c]) cs"

definition components :: "string \<Rightarrow> string list" where
  "components s = filter (\<lambda>c. c \<noteq> [] \<and> c \<noteq> ''.'') (split_on (CHR ''/'') [] s)"

definition join_path :: "path \<Rightarrow> string \<Rightarrow> path" where
  "join_path base s = resolve (if starts_with s ''/'' then [] else base) (components s)"

definition is_within :: "path \<Rightarrow> path \<Rightarrow> bool" where
  "is_within base target \<longleftrightarrow> below base target"

text \<open>Readers of archives: a ZIP file gives the names of its members with their contents, a tar file
  read with \<open>filter="data"\<close> the relative paths that filter lets through.\<close>

record archive_tools =
  at_unzip :: "bytes \<Rightarrow> (string \<times> bytes) list result"
  at_untar :: "bytes \<Rightarrow> (path \<times> node) list result"

text \<open>\<open>ZipFile.extractall\<close> drops the components \<open>..\<close> of a name itself; a name that ends with a slash
  is a directory.\<close>

definition zip_target :: "path \<Rightarrow> string \<Rightarrow> path" where
  "zip_target destination member = destination @ filter (\<lambda>c. c \<noteq> ''..'') (components member)"

definition put_zip_member :: "path \<Rightarrow> string \<times> bytes \<Rightarrow> unit act" where
  "put_zip_member destination m =
     (let t = zip_target destination (fst m)
      in act_then (make_folders (butlast t)) (\<lambda>_. if ends_with (fst m) ''/'' then make_folder t else put_blob t (snd m)))"

definition put_tar_member :: "path \<Rightarrow> path \<times> node \<Rightarrow> unit act" where
  "put_tar_member destination m =
     (let t = destination @ fst m
      in act_then (make_folders (butlast t)) (\<lambda>_. case snd m of Folder \<Rightarrow> make_folder t | Blob b \<Rightarrow> put_blob t b))"

definition check_members :: "string \<Rightarrow> path \<Rightarrow> string list \<Rightarrow> unit result" where
  "check_members archive_name destination names =
     (case filter (\<lambda>m. \<not> is_within destination (join_path destination m)) names of
        [] \<Rightarrow> Inr ()
      | m # _ \<Rightarrow> Inl (dataset_error (''Unsafe path in '' @ archive_name @ '': '' @ py_repr m)))"

definition extract_archive :: "archive_tools \<Rightarrow> path \<Rightarrow> path \<Rightarrow> unit act" where
  "extract_archive T archive destination =
     act_then (make_folders destination) (\<lambda>_.
     let name = last archive in
     if ends_with name ''.zip'' \<and> name \<noteq> ''.zip'' then
       act_then (read_blob archive) (\<lambda>b.
       case at_unzip T b of
         Inl e \<Rightarrow> act_raise e
       | Inr members \<Rightarrow>
           (case check_members name destination (map fst members) of
              Inl e \<Rightarrow> act_raise e
            | Inr _ \<Rightarrow> act_each (put_zip_member destination) members))
     else if ends_with name ''.tar.gz'' \<or> ends_with name ''.tgz'' then
       act_then (read_blob archive) (\<lambda>b.
       case at_untar T b of
         Inl e \<Rightarrow> act_raise e
       | Inr members \<Rightarrow> act_each (put_tar_member destination) members)
     else act_raise (dataset_error (''Unsupported archive format: '' @ name)))"

section \<open>Preparation\<close>

definition flatten_single_root :: "path \<Rightarrow> unit act" where
  "flatten_single_root staging d =
     (case entries_of d staging of
        [n] \<Rightarrow>
          if is_folder d (staging @ [n]) then
            (let holding = butlast staging @ [''.'' @ last staging @ ''-flatten'']
             in act_then (rename_to (staging @ [n]) holding) (\<lambda>_.
                act_then (rmdir staging) (\<lambda>_. rename_to holding staging)) d)
          else (d, Inr ())
      | _ \<Rightarrow> (d, Inr ()))"

text \<open>One line of the annotation file, and the loop over them with its count.\<close>

definition place_image :: "path \<Rightarrow> string \<Rightarrow> nat act" where
  "place_image val_dir line d =
     (case split_on (CHR 0x09) [] line of
        filename # wnid # _ \<Rightarrow>
          (let source = join_path (val_dir @ [''images'']) filename;
               class_dir = join_path val_dir wnid
           in if \<not> is_blob d source then (d, Inr 0)
              else act_then (make_folder class_dir) (\<lambda>_.
                   act_then (rename_to source (join_path class_dir filename)) (\<lambda>_. act_return 1)) d)
      | _ \<Rightarrow> (d, Inr 0))"

fun place_images :: "path \<Rightarrow> string list \<Rightarrow> nat \<Rightarrow> nat act" where
  "place_images val_dir [] moved = act_return moved"
| "place_images val_dir (l # ls) moved = act_then (place_image val_dir l) (\<lambda>n. place_images val_dir ls (moved + n))"

text \<open>\<open>lines\<close> is what iterating over the file opened as text gives, and what may end it early.\<close>

definition restructure_tiny_imagenet_val :: "(bytes \<Rightarrow> string list \<times> exn option) \<Rightarrow> path \<Rightarrow> nat act" where
  "restructure_tiny_imagenet_val lines base d =
     (let val_dir = base @ [''val'']; images_dir = val_dir @ [''images'']; annotations = val_dir @ [''val_annotations.txt'']
      in if \<not> is_folder d val_dir
         then (d, Inl (dataset_error (''Expected validation directory at '' @ path_str val_dir)))
         else if \<not> is_folder d images_dir then
           (if subfolders d val_dir \<noteq> [] then (d, Inr 0)
            else (d, Inl (dataset_error (''Validation split at '' @ path_str val_dir @ '' is empty or malformed''))))
         else
           (case dict_get d annotations of
              Some (Blob b) \<Rightarrow>
                (case lines b of (ls, broken) \<Rightarrow>
                   act_then (place_images val_dir ls 0) (\<lambda>moved d.
                     case broken of Some e \<Rightarrow> (d, Inl e) | None \<Rightarrow> (drop_tree images_dir d, Inr moved)) d)
            | _ \<Rightarrow> (d, Inl (dataset_error (''Missing annotation file: '' @ path_str annotations)))))"

text \<open>\<open>rglob\<close> in the order of the dictionary.\<close>

definition subsample_coco :: "path \<Rightarrow> nat \<Rightarrow> nat act" where
  "subsample_coco base sample_size d =
     (case filter (\<lambda>p. below base p \<and> p \<noteq> base \<and> last p = ''val2017'' \<and> is_folder d p) (map fst d) of
        [] \<Rightarrow> (d, Inr 0)
      | images_dir # _ \<Rightarrow>
          (let images = sort (filter (\<lambda>n. ends_with n ''.jpg'') (entries_of d images_dir))
           in if length images \<le> sample_size then (d, Inr (length images))
              else act_then (act_each (\<lambda>n. unlink (images_dir @ [n])) (drop sample_size images))
                     (\<lambda>_. act_return sample_size) d))"

section \<open>The commands\<close>

record dataset_spec =
  ds_name :: string
  ds_url :: string
  ds_filename :: string
  ds_extract_dir :: string
  ds_md5 :: "string option"
  ds_sample_size :: "nat option"
  ds_extra_urls :: "(string \<times> string) list"

definition dataset_catalogue :: "(string, dataset_spec) dict" where
  "dataset_catalogue =
     [(''tiny_imagenet'',
       \<lparr>ds_name = ''tiny_imagenet'', ds_url = ''https://cs231n.stanford.edu/tiny-imagenet-200.zip'',
        ds_filename = ''tiny-imagenet-200.zip'', ds_extract_dir = ''tiny-imagenet-200'',
        ds_md5 = Some ''90528d7ca1a48142e341f4ef8d21d0de'', ds_sample_size = None, ds_extra_urls = []\<rparr>),
      (''cifar100'',
       \<lparr>ds_name = ''cifar100'', ds_url = ''https://www.cs.toronto.edu/~kriz/cifar-100-python.tar.gz'',
        ds_filename = ''cifar-100-python.tar.gz'', ds_extract_dir = ''cifar-100-python'',
        ds_md5 = Some ''eb9058c3a382ffc7106e4002c42a8d85'', ds_sample_size = None, ds_extra_urls = []\<rparr>),
      (''coco_sample'',
       \<lparr>ds_name = ''coco_sample'', ds_url = ''http://images.cocodataset.org/zips/val2017.zip'',
        ds_filename = ''val2017.zip'', ds_extract_dir = ''coco_val2017'', ds_md5 = None, ds_sample_size = Some 1000,
        ds_extra_urls = [(''http://images.cocodataset.org/annotations/annotations_trainval2017.zip'',
                          ''annotations_trainval2017.zip'')]\<rparr>)]"

record download_env =
  de_fetch :: fetch
  de_md5 :: "bytes \<Rightarrow> string"
  de_tools :: archive_tools
  de_lines :: "bytes \<Rightarrow> string list \<times> exn option"
  de_tmp :: "string \<Rightarrow> string"

definition init_downloader :: "path \<Rightarrow> unit act" where
  "init_downloader data_dir = make_folders data_dir"

definition ignore_result :: "'a act \<Rightarrow> unit act" where
  "ignore_result m = act_then m (\<lambda>_. act_return ())"

definition prepare :: "download_env \<Rightarrow> dataset_spec \<Rightarrow> path \<Rightarrow> unit act" where
  "prepare E spec base =
     act_then (flatten_single_root base) (\<lambda>_.
     if ds_name spec = ''tiny_imagenet'' then ignore_result (restructure_tiny_imagenet_val (de_lines E) base)
     else
       (case ds_sample_size spec of
          Some n \<Rightarrow> if ds_name spec = ''coco_sample'' \<and> n \<noteq> 0 then ignore_result (subsample_coco base n) else act_return ()
        | None \<Rightarrow> act_return ()))"

text \<open>The \<open>with\<close> block of \<open>download_dataset\<close>: the archives, the staging tree, and the move into place.\<close>

definition fetch_archive :: "download_env \<Rightarrow> path \<Rightarrow> string \<Rightarrow> string \<Rightarrow> string option \<Rightarrow> path \<Rightarrow> unit act" where
  "fetch_archive E data_dir url filename md5 staging =
     (let archive = data_dir @ [filename]
      in act_then (download (de_fetch E) True url archive) (\<lambda>_.
         act_then (verify_md5 (de_md5 E) archive md5) (\<lambda>_.
         act_then (extract_archive (de_tools E) archive staging) (\<lambda>_. unlink archive))))"

definition stage_dataset :: "download_env \<Rightarrow> path \<Rightarrow> dataset_spec \<Rightarrow> path \<Rightarrow> unit act" where
  "stage_dataset E data_dir spec staging =
     act_then (fetch_archive E data_dir (ds_url spec) (ds_filename spec) (ds_md5 spec) staging) (\<lambda>_.
     act_then (act_each (\<lambda>(url, name). fetch_archive E data_dir url name None staging) (ds_extra_urls spec)) (\<lambda>_.
     prepare E spec staging))"

definition download_dataset :: "download_env \<Rightarrow> path \<Rightarrow> string \<Rightarrow> bool \<Rightarrow> path act" where
  "download_dataset E data_dir name force d =
     (case dict_get dataset_catalogue name of
        None \<Rightarrow> (d, Inl (dataset_error (''Unknown dataset '' @ py_repr name @ ''. Available: ''
                  @ join '', '' (sort (dict_keys dataset_catalogue)))))
      | Some spec \<Rightarrow>
          (let target = data_dir @ [ds_extract_dir spec]
           in if dict_get d target \<noteq> None \<and> \<not> force then (d, Inr target)
              else if force \<and> dict_get d target \<noteq> None \<and> \<not> is_folder d target
              then (d, Inl (disk_error ''NotADirectoryError'' target))
              else
                (let d = (if force \<and> dict_get d target \<noteq> None then drop_tree target d else d);
                     tmp = data_dir @ [de_tmp E name];
                     staging = tmp @ [ds_extract_dir spec]
                 in act_then (make_folder tmp) (\<lambda>_.
                    act_then (act_finally
                      (act_then (stage_dataset E data_dir spec staging) (\<lambda>_. move_to staging target))
                      (drop_tree tmp)) (\<lambda>_. act_return target)) d)))"

text \<open>The exceptions the commands report: \<open>DatasetError\<close>, \<open>RequestException\<close> and \<open>OSError\<close> with
  their subclasses.\<close>

definition requests_errors :: "string list" where
  "requests_errors =
     [''RequestException'', ''HTTPError'', ''ConnectionError'', ''ProxyError'', ''SSLError'', ''Timeout'', ''ConnectTimeout'',
      ''ReadTimeout'', ''URLRequired'', ''TooManyRedirects'', ''MissingSchema'', ''InvalidSchema'', ''InvalidURL'', ''InvalidHeader'',
      ''InvalidProxyURL'', ''ChunkedEncodingError'', ''ContentDecodingError'', ''StreamConsumedError'', ''RetryError'']"

definition os_errors :: "string list" where
  "os_errors =
     [''OSError'', ''Error'', ''FileNotFoundError'', ''FileExistsError'', ''IsADirectoryError'', ''NotADirectoryError'',
      ''PermissionError'', ''BlockingIOError'', ''InterruptedError'', ''TimeoutError'', ''ConnectionResetError'', ''BrokenPipeError'',
      ''BadGzipFile'']"

definition reported :: "exn \<Rightarrow> bool" where
  "reported e \<longleftrightarrow>
     (case e of
        PyExc cls _ \<Rightarrow> cls \<in> set ([''DatasetError''] @ requests_errors @ os_errors)
      | ApiExc _ \<Rightarrow> False)"

definition interrupted :: "exn \<Rightarrow> bool" where
  "interrupted e \<longleftrightarrow> (case e of PyExc cls _ \<Rightarrow> cls = ''KeyboardInterrupt'' | ApiExc _ \<Rightarrow> False)"

fun download_names :: "download_env \<Rightarrow> path \<Rightarrow> bool \<Rightarrow> string list \<Rightarrow> (string, path option) dict act" where
  "download_names E data_dir force [] = act_return []"
| "download_names E data_dir force (n # ns) =
     (\<lambda>d. case download_dataset E data_dir n force d of
        (d', r) \<Rightarrow>
          (case r of
             Inl e \<Rightarrow> if reported e then act_then (download_names E data_dir force ns) (\<lambda>rs. act_return ((n, None) # rs)) d'
                       else (d', Inl e)
           | Inr p \<Rightarrow> act_then (download_names E data_dir force ns) (\<lambda>rs. act_return ((n, Some p) # rs)) d'))"

definition download_all :: "download_env \<Rightarrow> path \<Rightarrow> bool \<Rightarrow> (string, path option) dict act" where
  "download_all E data_dir force = download_names E data_dir force (dict_keys dataset_catalogue)"

definition download_main :: "download_env \<Rightarrow> path \<Rightarrow> string \<Rightarrow> bool \<Rightarrow> int act" where
  "download_main E data_dir dataset force =
     act_then (init_downloader data_dir) (\<lambda>_ d.
     case (if dataset = ''all''
           then act_then (download_all E data_dir force)
                  (\<lambda>rs. act_return (if list_ex (\<lambda>(n, p). p = None) rs then 1 else 0)) d
           else act_then (download_dataset E data_dir dataset force) (\<lambda>_. act_return 0) d) of
       (d', Inr code) \<Rightarrow> (d', Inr code)
     | (d', Inl e) \<Rightarrow>
         if interrupted e then (d', Inr 130)
         else if reported e then (d', Inr 1) else (d', Inl e))"

section \<open>Extraction and preparation stay in their directory\<close>

lemma strictly_below_append: "strictly_below base p \<Longrightarrow> strictly_below base (p @ q)"
  by (rule inside_below) auto

lemma below_butlast_inside: "strictly_below base p \<Longrightarrow> below base (butlast p)"
  using below_butlast [of base p] by (auto simp: strictly_below_def)

lemma strictlyD: "strictly_below base p \<Longrightarrow> below base p"
  by (simp add: strictly_below_def)

lemma confined_put_zip: "strictly_below base p \<Longrightarrow> confined base (put_zip_member p m)"
  unfolding put_zip_member_def Let_def zip_target_def
  by (intro confined_intros confined_make_folders confined_make_folder confined_put_blob disjI1 below_butlast_inside strictlyD strictly_below_append)

lemma confined_put_tar: "strictly_below base p \<Longrightarrow> confined base (put_tar_member p m)"
  unfolding put_tar_member_def Let_def
  by (cases "snd m"; simp only: node.case;
      intro confined_intros confined_make_folders confined_make_folder confined_put_blob disjI1 below_butlast_inside strictlyD strictly_below_append)

lemma confined_extract: "strictly_below base p \<Longrightarrow> confined base (extract_archive T a p)"
  unfolding extract_archive_def Let_def
  by (intro confined_intros confined_make_folders confined_put_zip confined_put_tar strictlyD)

lemma confined_flatten: assumes p: "strictly_below base p" shows "confined base (flatten_single_root p)"
proof (rule confined_cases)
  fix d k assume d: "folders_to base d" "\<not> strictly_below base k"
  let ?h = "butlast p @ [''.'' @ last p @ ''-flatten'']"
  have "confined base (act_then (rename_to (p @ [n]) ?h) (\<lambda>_. act_then (rmdir p) (\<lambda>_. rename_to ?h p)))" for n
    by (intro confined_intros confined_rename confined_rmdir strictly_below_append p inside_snoc below_butlast_inside)
  from leavesD [OF this d] show "dict_get (fst (flatten_single_root p d)) k = dict_get d k"
    unfolding flatten_single_root_def by (simp add: Let_def split: list.split)
qed

text \<open>Annotations whose names are single components.\<close>

definition plain_name :: "string \<Rightarrow> bool" where
  "plain_name n \<longleftrightarrow> CHR ''/'' \<notin> set n \<and> n \<noteq> ''..''"

definition plain_line :: "string \<Rightarrow> bool" where
  "plain_line l \<longleftrightarrow> (case split_on (CHR 0x09) [] l of f # w # _ \<Rightarrow> plain_name f \<and> plain_name w | _ \<Rightarrow> True)"

lemma split_on_free: "sep \<notin> set s \<Longrightarrow> split_on sep acc s = [acc @ s]"
  by (induction s arbitrary: acc) auto

lemma join_path_plain: "plain_name n \<Longrightarrow> join_path p n = (if n = [] \<or> n = ''.'' then p else p @ [n])"
  by (cases n) (auto simp: plain_name_def join_path_def components_def split_on_free starts_with_def)

lemma strictly_join: "strictly_below base p \<Longrightarrow> plain_name n \<Longrightarrow> strictly_below base (join_path p n)"
  by (simp add: join_path_plain strictly_below_append)

lemma confined_place_image: assumes p: "strictly_below base p" and l: "plain_line l" shows "confined base (place_image p l)"
proof (cases "\<exists>f w r. split_on (CHR 0x09) [] l = f # w # r")
  case True
  then obtain f w r where s: "split_on (CHR 0x09) [] l = f # w # r" by blast
  with l have n: "plain_name f" "plain_name w" by (simp_all add: plain_line_def)
  let ?s = "join_path (p @ [''images'']) f" and ?c = "join_path p w"
  have k: "confined base (act_then (make_folder ?c) (\<lambda>_. act_then (rename_to ?s (join_path ?c f)) (\<lambda>_. act_return (1 :: nat))))"
    by (intro confined_intros confined_make_folder confined_rename disjI1 strictly_join strictly_below_append p n)
  show ?thesis
  proof (rule confined_cases)
    fix d k assume d: "folders_to base d" "\<not> strictly_below base k"
    from leavesD [OF k d] show "dict_get (fst (place_image p l d)) k = dict_get d k"
      unfolding place_image_def by (simp add: s Let_def del: One_nat_def)
  qed
next
  case False
  then show ?thesis by (intro confined_id) (auto simp: place_image_def split: list.split)
qed

lemma confined_place_images:
  "strictly_below base p \<Longrightarrow> list_all plain_line ls \<Longrightarrow> confined base (place_images p ls n)"
  by (induction ls arbitrary: n) (auto intro!: confined_intros confined_place_image)

lemma confined_restructure:
  assumes p: "strictly_below base p" and l: "\<And>b. list_all plain_line (fst (lines b))"
  shows "confined base (restructure_tiny_imagenet_val lines p)"
proof (rule confined_cases)
  fix d k assume d: "folders_to base d" "\<not> strictly_below base k"
  let ?v = "p @ [''val'']"
  have v: "strictly_below base ?v" "strictly_below base (?v @ [''images''])" using p by (simp_all add: strictly_below_append)
  have drop: "confined base (\<lambda>d. case broken of Some e \<Rightarrow> (d, Inl e) | None \<Rightarrow> (drop_tree (?v @ [''images'']) d, Inr moved))"
    for broken :: "exn option" and moved :: nat
    using v(2) by (intro confined_cases) (auto simp: get_drop_tree dest: inside_below split: option.split)
  have "confined base (act_then (place_images ?v (fst (lines b)) 0) (\<lambda>moved d.
         case snd (lines b) of Some e \<Rightarrow> (d, Inl e) | None \<Rightarrow> (drop_tree (?v @ [''images'']) d, Inr moved)))" for b
    by (intro confined_intros drop confined_place_images v l)
  from leavesD [OF this d] show "dict_get (fst (restructure_tiny_imagenet_val lines p d)) k = dict_get d k"
    unfolding restructure_tiny_imagenet_val_def by (simp add: Let_def case_prod_unfold split: option.split node.split)
qed

lemma confined_subsample: assumes p: "strictly_below base p" shows "confined base (subsample_coco p n)"
proof (rule confined_cases)
  fix d k assume d: "folders_to base d" "\<not> strictly_below base k"
  let ?dirs = "filter (\<lambda>q. below p q \<and> q \<noteq> p \<and> last q = ''val2017'' \<and> is_folder d q) (map fst d)"
  show "dict_get (fst (subsample_coco p n d)) k = dict_get d k"
  proof (cases ?dirs)
    case (Cons i r)
    then have "i \<in> set ?dirs" by simp
    then have i: "strictly_below base i" using p by (auto dest: inside_below)
    have "confined base (act_then (act_each (\<lambda>m. unlink (i @ [m])) xs) (\<lambda>_. act_return n))" for xs
      by (intro confined_intros confined_unlink strictly_below_append i)
    from leavesD [OF this d] Cons show ?thesis by (simp add: subsample_coco_def Let_def)
  qed (simp add: subsample_coco_def)
qed

lemma confined_prepare:
  assumes p: "strictly_below base p" and l: "ds_name spec = ''tiny_imagenet'' \<Longrightarrow> \<forall>b. list_all plain_line (fst (de_lines E b))"
  shows "confined base (prepare E spec p)"
  unfolding prepare_def ignore_result_def
  using l by (auto intro!: confined_intros confined_flatten confined_restructure confined_subsample p split: option.split)

section \<open>Transfers\<close>

lemma concat_filter_Nil: "concat (filter (\<lambda>c. c \<noteq> []) cs) = concat cs"
  by (induction cs) auto

lemma read_chunks_concat: "0 < n \<Longrightarrow> foldl (@) acc (read_chunks n b) = acc @ b"
  by (induction n b arbitrary: acc rule: read_chunks.induct) (subst read_chunks.simps, simp)

lemma calculate_md5_eq: "0 < n \<Longrightarrow> calculate_md5 md5 n b = md5 b"
  by (simp add: calculate_md5_def read_chunks_concat)

lemma partial_neq [simp]: "partial_of p \<noteq> p" "p \<noteq> partial_of p"
proof -
  have "last p @ ''.part'' \<noteq> last p" by simp
  then have "last (partial_of p) \<noteq> last p" by (simp add: partial_of_def)
  then show "partial_of p \<noteq> p" "p \<noteq> partial_of p" by auto
qed

lemma length_partial [simp]: "p \<noteq> [] \<Longrightarrow> length (partial_of p) = length p"
  by (simp add: partial_of_def)

lemma below_same_length: "length p = length q \<Longrightarrow> below p q \<longleftrightarrow> p = q"
  by (auto simp: below_iff)

text \<open>What HTTP promises for a resource with the given content: an error, the content or a part of it
  from the start, or the requested range or a part of it; all of it when the transfer is not cut.\<close>

definition http_serves :: "fetch \<Rightarrow> string \<Rightarrow> bytes \<Rightarrow> bool" where
  "http_serves fetch url c \<longleftrightarrow>
     (\<forall>n rp. fetch url n = Inr rp \<longrightarrow>
        400 \<le> rp_status rp \<and> rp_status rp < 600
        \<or> rp_status rp = 200 \<and> (\<exists>rest. c = concat (rp_chunks rp) @ rest \<and> (rp_broken rp = None \<longrightarrow> rest = []))
        \<or> rp_status rp = 206 \<and> 0 < n \<and> n < length c
          \<and> (\<exists>rest. drop n c = concat (rp_chunks rp) @ rest \<and> (rp_broken rp = None \<longrightarrow> rest = [])))"

text \<open>Runs of the command until one downloads the file, each against the server of its day.\<close>

fun attempts :: "fetch list \<Rightarrow> string \<Rightarrow> path \<Rightarrow> disk \<Rightarrow> disk \<times> bool" where
  "attempts [] url destination d = (d, False)"
| "attempts (f # fs) url destination d =
     (case download f True url destination d of
        (d', Inr _) \<Rightarrow> (d', True)
      | (d', Inl _) \<Rightarrow> attempts fs url destination d')"

definition part_of_content :: "bytes \<Rightarrow> path \<Rightarrow> disk \<Rightarrow> bool" where
  "part_of_content c p d \<longleftrightarrow> dict_get d p = None \<or> (\<exists>n \<le> length c. dict_get d p = Some (Blob (take n c)))"

lemma put_blob_cases:
  "put_blob p b d = (dict_set p (Blob b) d, Inr ()) \<and> dict_get d p \<noteq> Some Folder \<or> (\<exists>e. put_blob p b d = (d, Inl e))"
  by (auto simp: put_blob_def split: option.split node.split)

definition held_bytes :: "disk \<Rightarrow> path \<Rightarrow> bool \<Rightarrow> bytes" where
  "held_bytes d p keep = (case dict_get d p of Some (Blob b) \<Rightarrow> if keep then b else [] | _ \<Rightarrow> [])"

lemma save_body_cases:
  "(\<exists>e. save_body p keep rp d = (d, Inl e))
   \<or> save_body p keep rp d = (dict_set p (Blob (held_bytes d p keep @ concat (rp_chunks rp))) d,
        case rp_broken rp of Some e \<Rightarrow> Inl e | None \<Rightarrow> Inr ())"
  using put_blob_cases [of p "held_bytes d p keep @ concat (rp_chunks rp)" d]
  by (auto simp: save_body_def held_bytes_def [symmetric] act_then_def act_raise_def act_return_def concat_filter_Nil split: option.split)

lemma rename_file:
  assumes "dict_get d p = Some (Blob b)" "length p = length q" "p \<noteq> q"
  shows "(\<exists>d'. rename_to p q d = (d', Inr ()) \<and> dict_get d' q = Some (Blob b) \<and> dict_get d' p = None)
         \<or> (\<exists>e. rename_to p q d = (d, Inl e))"
proof -
  have n: "\<not> below p q" "\<not> below q p" using assms by (simp_all add: below_same_length)
  then have "dict_get (move_tree p q d) q = Some (Blob b)" "dict_get (move_tree p q d) p = None"
    using assms(1) by (simp_all add: get_move_tree)
  then show ?thesis using assms n by (auto simp: rename_to_def split: option.split node.split)
qed

definition offset :: "disk \<Rightarrow> path \<Rightarrow> nat" where
  "offset d p = (case dict_get d p of Some n \<Rightarrow> node_size n | None \<Rightarrow> 0)"

lemma download_cases:
  "(\<exists>e. download fetch True url dest d = (d, Inl e))
   \<or> (\<exists>rp. fetch url (offset d (partial_of dest)) = Inr rp \<and> \<not> (400 \<le> rp_status rp \<and> rp_status rp < 600)
        \<and> download fetch True url dest d =
            act_then (save_body (partial_of dest) (offset d (partial_of dest) \<noteq> 0 \<and> rp_status rp \<noteq> 200) rp)
              (\<lambda>_. rename_to (partial_of dest) dest) d)"
  by (cases "fetch url (offset d (partial_of dest))")
     (auto simp: download_def Let_def offset_def raise_for_status_def split: sum.split cong: option.case_cong)

text \<open>With an honest server the body continues what the partial file holds.\<close>

lemma body_continues:
  assumes serve: "http_serves fetch url c" and part: "part_of_content c p d"
    and rp: "fetch url (offset d p) = Inr rp" "\<not> (400 \<le> rp_status rp \<and> rp_status rp < 600)"
  shows "\<exists>rest. c = held_bytes d p (offset d p \<noteq> 0 \<and> rp_status rp \<noteq> 200) @ concat (rp_chunks rp) @ rest \<and> (rp_broken rp = None \<longrightarrow> rest = [])"
proof -
  have "rp_status rp = 200 \<and> (\<exists>rest. c = concat (rp_chunks rp) @ rest \<and> (rp_broken rp = None \<longrightarrow> rest = []))
    \<or> rp_status rp = 206 \<and> 0 < offset d p \<and> offset d p < length c
      \<and> (\<exists>rest. drop (offset d p) c = concat (rp_chunks rp) @ rest \<and> (rp_broken rp = None \<longrightarrow> rest = []))"
    using serve rp unfolding http_serves_def by blast
  then show ?thesis
  proof (elim disjE conjE exE)
    fix rest assume "rp_status rp = 200" "c = concat (rp_chunks rp) @ rest" "rp_broken rp = None \<longrightarrow> rest = []"
    then show ?thesis by (auto simp: held_bytes_def split: option.split node.split)
  next
    fix rest assume n: "rp_status rp = 206" "0 < offset d p" "offset d p < length c"
      and rest: "drop (offset d p) c = concat (rp_chunks rp) @ rest" "rp_broken rp = None \<longrightarrow> rest = []"
    from part n obtain k where k: "k \<le> length c" "dict_get d p = Some (Blob (take k c))"
      by (auto simp: part_of_content_def offset_def)
    then have "offset d p = k" by (simp add: offset_def node_size_def)
    with k n rest have "c = held_bytes d p True @ concat (rp_chunks rp) @ rest"
      by (simp add: held_bytes_def) (metis append_take_drop_id)
    with n rest show ?thesis by auto
  qed
qed

text \<open>One attempt confined the partial file a part of the content, and completes it or leaves the
  destination alone.\<close>

lemma download_step:
  assumes serve: "http_serves fetch url c" and part: "part_of_content c (partial_of dest) d" and dest: "dest \<noteq> []"
  shows "case download fetch True url dest d of
      (d', Inr _) \<Rightarrow> dict_get d' dest = Some (Blob c) \<and> dict_get d' (partial_of dest) = None
    | (d', Inl _) \<Rightarrow> dict_get d' dest = dict_get d dest \<and> part_of_content c (partial_of dest) d'"
  using download_cases [of fetch url dest d]
proof (elim disjE exE conjE)
  fix e assume "download fetch True url dest d = (d, Inl e)"
  then show ?thesis using part by simp
next
  let ?p = "partial_of dest"
  fix rp assume rp: "fetch url (offset d ?p) = Inr rp" "\<not> (400 \<le> rp_status rp \<and> rp_status rp < 600)"
    and dl: "download fetch True url dest d =
      act_then (save_body ?p (offset d ?p \<noteq> 0 \<and> rp_status rp \<noteq> 200) rp) (\<lambda>_. rename_to ?p dest) d"
  let ?keep = "offset d ?p \<noteq> 0 \<and> rp_status rp \<noteq> 200"
  let ?d = "dict_set ?p (Blob (held_bytes d ?p ?keep @ concat (rp_chunks rp))) d"
  obtain rest where body: "c = held_bytes d ?p ?keep @ concat (rp_chunks rp) @ rest" "rp_broken rp = None \<longrightarrow> rest = []"
    using body_continues [OF serve part rp] by (elim exE conjE) (rule that)
  define w where "w = held_bytes d ?p ?keep @ concat (rp_chunks rp)"
  have w: "c = w @ rest" using body by (simp add: w_def)
  have part': "part_of_content c ?p ?d" "dict_get ?d dest = dict_get d dest"
    unfolding w_def [symmetric] by (auto simp: part_of_content_def dict_get_set w intro!: exI [of _ "length w"])
  from save_body_cases [of ?p ?keep rp d] show ?thesis
  proof
    assume "\<exists>e. save_body ?p ?keep rp d = (d, Inl e)"
    then show ?thesis using part unfolding dl act_then_def by auto
  next
    assume s: "save_body ?p ?keep rp d = (?d, case rp_broken rp of Some e \<Rightarrow> Inl e | None \<Rightarrow> Inr ())"
    show ?thesis
    proof (cases "rp_broken rp")
      case (Some e)
      then show ?thesis using part' unfolding dl act_then_def s by simp
    next
      case None
      then have c: "dict_get ?d ?p = Some (Blob c)" using body by (simp add: dict_get_set)
      show ?thesis
        using rename_file [OF c, of dest] None dest part' unfolding dl act_then_def s by auto
    qed
  qed
qed

lemma attempts_sound:
  assumes "\<forall>f \<in> set fs. http_serves f url c" "part_of_content c (partial_of dest) d" "dest \<noteq> []"
  shows "case attempts fs url dest d of (d', finished) \<Rightarrow>
      if finished then dict_get d' dest = Some (Blob c) \<and> dict_get d' (partial_of dest) = None
      else dict_get d' dest = dict_get d dest \<and> part_of_content c (partial_of dest) d'"
  using assms
proof (induction fs arbitrary: d)
  case (Cons f fs)
  obtain d' r where dl: "download f True url dest d = (d', r)" by fastforce
  have step: "case r of Inr _ \<Rightarrow> dict_get d' dest = Some (Blob c) \<and> dict_get d' (partial_of dest) = None
      | Inl _ \<Rightarrow> dict_get d' dest = dict_get d dest \<and> part_of_content c (partial_of dest) d'"
    using download_step [of f url c dest d] Cons.prems dl by (simp split: sum.splits)
  show ?case
  proof (cases r)
    case (Inl e)
    with step have d': "dict_get d' dest = dict_get d dest" "part_of_content c (partial_of dest) d'" by simp_all
    have "\<forall>f \<in> set fs. http_serves f url c" using Cons.prems by simp
    from Cons.IH [OF this d'(2) Cons.prems(3)] show ?thesis by (simp add: dl Inl d'(1) case_prod_unfold)
  next
    case (Inr u)
    with step show ?thesis by (simp add: dl)
  qed
qed simp

text \<open>C22. However often a transfer is interrupted, and whether or not the server honours range requests
  on the day, a finished download is exactly the file the server has, with no partial file left; an
  unfinished one leaves the destination as it was and beside it a part of the file from its start.\<close>

theorem resumed_download_exact:
  assumes serve: "\<forall>f \<in> set fs. http_serves f url c" and start: "dict_get d (partial_of dest) = None" and dest: "dest \<noteq> []"
  shows "case attempts fs url dest d of (d', finished) \<Rightarrow>
      (finished \<longrightarrow> dict_get d' dest = Some (Blob c) \<and> dict_get d' (partial_of dest) = None)
      \<and> (\<not> finished \<longrightarrow> dict_get d' dest = dict_get d dest
          \<and> (dict_get d' (partial_of dest) = None
             \<or> (\<exists>n \<le> length c. dict_get d' (partial_of dest) = Some (Blob (take n c)))))"
proof -
  have "part_of_content c (partial_of dest) d" using start by (simp add: part_of_content_def)
  from attempts_sound [OF serve this dest] show ?thesis
    by (simp add: case_prod_unfold part_of_content_def split: if_splits)
qed

text \<open>A server of two bytes that is cut after the first, and one that honours ranges.\<close>

definition cut_fetch :: fetch where
  "cut_fetch url n = Inr \<lparr>rp_status = 200, rp_length = Inr 2, rp_chunks = [[7]], rp_broken = Some (PyExc ''ConnectionError'' [])\<rparr>"

definition range_fetch :: fetch where
  "range_fetch url n =
     (if n = 0 then Inr \<lparr>rp_status = 200, rp_length = Inr 2, rp_chunks = [[7], [8]], rp_broken = None\<rparr>
      else if n < 2 then Inr \<lparr>rp_status = 206, rp_length = Inr 1, rp_chunks = [drop n [7, 8]], rp_broken = None\<rparr>
      else Inr \<lparr>rp_status = 416, rp_length = Inr 0, rp_chunks = [], rp_broken = None\<rparr>)"

definition demo_disk :: disk where
  "demo_disk = [([], Folder), ([''data''], Folder)]"

theorem resumed_download_exact_witness:
  "snd (attempts [cut_fetch, range_fetch] ''http://a/b.zip'' [''data'', ''b.zip''] demo_disk)
   \<and> dict_get (fst (attempts [cut_fetch, range_fetch] ''http://a/b.zip'' [''data'', ''b.zip''] demo_disk)) [''data'', ''b.zip'']
       = Some (Blob [7, 8])"
proof -
  let ?r = "attempts [cut_fetch, range_fetch] ''http://a/b.zip'' [''data'', ''b.zip''] demo_disk"
  have finished: "snd ?r" by code_simp
  have serve: "\<forall>f \<in> set [cut_fetch, range_fetch]. http_serves f ''http://a/b.zip'' [7, 8]"
    by (auto simp: http_serves_def cut_fetch_def range_fetch_def split: if_splits)
  have start: "dict_get demo_disk (partial_of [''data'', ''b.zip'']) = None" by code_simp
  from resumed_download_exact [OF serve start] finished show ?thesis by (simp add: case_prod_unfold)
qed

text \<open>A transfer cut after the last byte: the partial file is complete, the next request asks for the
  bytes after it, a server answers 416, and so does every later run.\<close>

lemma complete_part_raises:
  assumes "dict_get d (partial_of dest) = Some (Blob c)" "fetch url (length c) = Inr rp" "rp_status rp = 416"
  shows "\<exists>e. download fetch True url dest d = (d, Inl e)"
  using assms by (simp add: download_def Let_def raise_for_status_def node_size_def)

theorem complete_part_stuck:
  assumes "dict_get d (partial_of dest) = Some (Blob c)" "fetch url (length c) = Inr rp" "rp_status rp = 416"
  shows "attempts (replicate n fetch) url dest d = (d, False)"
proof (induction n)
  case (Suc n)
  obtain e where "download fetch True url dest d = (d, Inl e)" using complete_part_raises [of d dest c fetch url rp] assms by blast
  then show ?case using Suc by simp
qed simp

theorem complete_part_stuck_witness:
  "attempts (replicate 3 range_fetch) ''http://a/b.zip'' [''data'', ''b.zip''] (dict_set [''data'', ''b.zip.part''] (Blob [7, 8]) demo_disk)
   = (dict_set [''data'', ''b.zip.part''] (Blob [7, 8]) demo_disk, False)"
  by (rule complete_part_stuck [where c = "[7, 8]"
        and rp = "\<lparr>rp_status = 416, rp_length = Inr 0, rp_chunks = [], rp_broken = None\<rparr>"])
     (simp_all add: dict_get_set partial_of_def range_fetch_def)

section \<open>Atomic datasets\<close>

definition archive_names :: "dataset_spec \<Rightarrow> string list" where
  "archive_names spec = concat (map (\<lambda>n. [n, n @ ''.part'']) (ds_filename spec # map snd (ds_extra_urls spec)))"

text \<open>The paths a download may change besides its target: its archives and its temporary directory.\<close>

definition scratch_path :: "path \<Rightarrow> string \<Rightarrow> dataset_spec \<Rightarrow> path \<Rightarrow> bool" where
  "scratch_path data_dir tmp spec k \<longleftrightarrow>
     strictly_below (data_dir @ [tmp]) k \<or> (\<exists>n \<in> set (archive_names spec). below (data_dir @ [n]) k)"

lemma siblings: "below (p @ [x]) k \<Longrightarrow> below (p @ [y]) k \<Longrightarrow> x = y"
  by (auto simp: below_iff)

lemma not_below_short: "\<not> below (p @ [x]) (take n p)"
  using below_length [of "p @ [x]" "take n p"] by auto

lemma catalogue_names:
  assumes "dict_get dataset_catalogue name = Some spec"
  shows "ds_extract_dir spec \<notin> set (archive_names spec)"
    "n \<in> set (ds_extract_dir spec # archive_names spec) \<Longrightarrow> n \<noteq> [] \<and> hd n \<noteq> CHR ''.''"
  using assms
  by (auto simp: dataset_catalogue_def archive_names_def split: if_splits)

lemma leaves_download:
  assumes P: "\<And>k. below dest k \<Longrightarrow> P k" "\<And>k. below (partial_of dest) k \<Longrightarrow> P k" "\<forall>n. \<not> P (take n base)"
  shows "leaves base P (download fetch True url dest)"
proof (rule confined_cases)
  fix d k assume d: "folders_to base d" "\<not> P k"
  have k: "k \<noteq> partial_of dest" "\<not> below dest k" "\<not> below (partial_of dest) k" using P d by auto
  have save: "leaves base P (save_body (partial_of dest) keep rp)" for keep rp
  proof (rule confined_cases)
    fix e j assume "\<not> P j"
    then have "j \<noteq> partial_of dest" using P by auto
    then show "dict_get (fst (save_body (partial_of dest) keep rp e)) j = dict_get e j"
      using save_body_cases [of "partial_of dest" keep rp e] by (auto simp: dict_get_set)
  qed
  have ren: "leaves base P (rename_to (partial_of dest) dest)"
    using P by (intro confined_cases get_rename) auto
  from download_cases [of fetch url dest d] leavesD [OF leaves_then [OF save ren P(3)] d]
  show "dict_get (fst (download fetch True url dest d)) k = dict_get d k" by auto
qed

lemma scratch_prefix: "\<forall>n. \<not> scratch_path data_dir tmp spec (take n (data_dir @ [tmp]))"
  if "tmp \<notin> set (archive_names spec)"
proof (intro allI notI)
  fix n assume "scratch_path data_dir tmp spec (take n (data_dir @ [tmp]))"
  then obtain a where a: "a \<in> set (archive_names spec)" "below (data_dir @ [a]) (take n (data_dir @ [tmp]))"
    unfolding scratch_path_def using inside_take by blast
  show False
  proof (cases "n \<le> length data_dir")
    case True
    then show False using a not_below_short [of data_dir a n] by simp
  next
    case False
    then have "take n (data_dir @ [tmp]) = data_dir @ [tmp]" by simp
    then have "a = tmp" using a siblings [of data_dir a "data_dir @ [tmp]" tmp] by simp
    with a that show False by simp
  qed
qed

lemma archive_name_in:
  "n \<in> set (ds_filename spec # map snd (ds_extra_urls spec)) \<Longrightarrow> n \<in> set (archive_names spec) \<and> n @ ''.part'' \<in> set (archive_names spec)"
  unfolding archive_names_def by (simp only: set_concat set_map) force

lemma leaves_fetch_archive:
  assumes tmp: "tmp \<notin> set (archive_names spec)" and n: "n \<in> set (ds_filename spec # map snd (ds_extra_urls spec))"
  shows "leaves (data_dir @ [tmp]) (scratch_path data_dir tmp spec) (fetch_archive E data_dir url n md5 (data_dir @ [tmp, x]))"
proof -
  let ?P = "scratch_path data_dir tmp spec"
  note names = archive_name_in [OF n]
  have P: "below (data_dir @ [n]) k \<Longrightarrow> ?P k" "below (partial_of (data_dir @ [n])) k \<Longrightarrow> ?P k" for k
    using names unfolding scratch_path_def partial_of_def by auto
  have un: "leaves (data_dir @ [tmp]) ?P (unlink (data_dir @ [n]))"
  proof (rule confined_cases)
    fix d k assume "\<not> ?P k"
    then have "k \<noteq> data_dir @ [n]" using P(1) by auto
    then show "dict_get (fst (unlink (data_dir @ [n]) d)) k = dict_get d k"
      by (auto simp: unlink_def get_filter [where P = "\<lambda>j. j \<noteq> data_dir @ [n]"] split: option.split node.split)
  qed
  have "strictly_below (data_dir @ [tmp]) (data_dir @ [tmp, x])" using inside_snoc [of "data_dir @ [tmp]" "data_dir @ [tmp]" x] by simp
  then have ex: "leaves (data_dir @ [tmp]) ?P (extract_archive (de_tools E) (data_dir @ [n]) (data_dir @ [tmp, x]))"
    by (rule leaves_mono [OF confined_extract]) (simp add: scratch_path_def)
  have ver: "leaves (data_dir @ [tmp]) ?P (verify_md5 (de_md5 E) (data_dir @ [n]) md5)"
    unfolding verify_md5_def
    by (cases md5) (auto intro!: confined_intros confined_id simp: act_then_def read_blob_def act_raise_def act_return_def Let_def split: option.split node.split)
  show ?thesis unfolding fetch_archive_def Let_def
    by (intro leaves_then leaves_download ver ex un P scratch_prefix tmp)
qed

lemma leaves_each:
  assumes "\<And>x. x \<in> set xs \<Longrightarrow> leaves base P (f x)" "\<forall>n. \<not> P (take n base)"
  shows "leaves base P (act_each f xs)"
  using assms by (induction xs) (auto intro!: confined_return leaves_then)

lemma leaves_stage:
  assumes tmp: "tmp \<notin> set (archive_names spec)"
    and plain: "ds_name spec = ''tiny_imagenet'' \<Longrightarrow> \<forall>b. list_all plain_line (fst (de_lines E b))"
  shows "leaves (data_dir @ [tmp]) (scratch_path data_dir tmp spec) (stage_dataset E data_dir spec (data_dir @ [tmp, x]))"
proof -
  have st: "strictly_below (data_dir @ [tmp]) (data_dir @ [tmp, x])" using inside_snoc [of "data_dir @ [tmp]" "data_dir @ [tmp]" x] by simp
  have prep: "leaves (data_dir @ [tmp]) (scratch_path data_dir tmp spec) (prepare E spec (data_dir @ [tmp, x]))"
    by (rule leaves_mono [OF confined_prepare [OF st plain]]) (simp_all add: scratch_path_def)
  have extra: "leaves (data_dir @ [tmp]) (scratch_path data_dir tmp spec)
      (act_each (\<lambda>(url, name). fetch_archive E data_dir url name None (data_dir @ [tmp, x])) (ds_extra_urls spec))"
  proof (rule leaves_each [OF _ scratch_prefix [OF tmp]])
    fix u assume "u \<in> set (ds_extra_urls spec)"
    then have "snd u \<in> set (ds_filename spec # map snd (ds_extra_urls spec))" by simp
    from leaves_fetch_archive [OF tmp this]
    show "leaves (data_dir @ [tmp]) (scratch_path data_dir tmp spec)
        (case u of (url, name) \<Rightarrow> fetch_archive E data_dir url name None (data_dir @ [tmp, x]))"
      by (simp add: case_prod_unfold)
  qed
  show ?thesis unfolding stage_dataset_def
    by (intro leaves_then prep extra scratch_prefix [OF tmp] leaves_fetch_archive [OF tmp]) simp
qed

text \<open>The \<open>with\<close> block: staging, the move and the clean-up, from a disk without the target.\<close>

definition install :: "download_env \<Rightarrow> path \<Rightarrow> dataset_spec \<Rightarrow> string \<Rightarrow> unit act" where
  "install E data_dir spec tmp =
     act_finally
       (act_then (stage_dataset E data_dir spec (data_dir @ [tmp, ds_extract_dir spec]))
         (\<lambda>_. move_to (data_dir @ [tmp, ds_extract_dir spec]) (data_dir @ [ds_extract_dir spec])))
       (drop_tree (data_dir @ [tmp]))"

lemma move_tree_simps:
  assumes "\<not> below p q" "\<not> below q p"
  shows "dict_get (move_tree p q d) (q @ r) = dict_get d (p @ r)"
    "\<not> below p k \<Longrightarrow> \<not> below q k \<Longrightarrow> dict_get (move_tree p q d) k = dict_get d k"
proof -
  have "\<not> below q (p @ r)"
  proof
    assume "below q (p @ r)"
    with below_linear [OF this below_append] assms show False by blast
  qed
  then show "dict_get (move_tree p q d) (q @ r) = dict_get d (p @ r)" using assms by (simp add: get_move_tree)
qed (simp add: get_move_tree assms)

lemma move_into_place:
  assumes "dict_get d q = None" "p \<noteq> q" "\<not> below p q"
  shows "(\<exists>v. move_to p q d = (move_tree p q d, Inr ()) \<and> dict_get d p = Some v) \<or> (\<exists>e. move_to p q d = (d, Inl e))"
  using assms by (auto simp: move_to_def is_folder_def rename_to_def split: option.split node.split)

lemma install_effect:
  assumes tmp: "tmp \<notin> set (ds_extract_dir spec # archive_names spec)" and x: "ds_extract_dir spec \<notin> set (archive_names spec)"
    and plain: "ds_name spec = ''tiny_imagenet'' \<Longrightarrow> \<forall>b. list_all plain_line (fst (de_lines E b))"
    and d: "folders_to (data_dir @ [tmp]) d" and absent: "dict_get d (data_dir @ [ds_extract_dir spec]) = None"
  shows "case install E data_dir spec tmp d of (d', r) \<Rightarrow>
      (\<forall>k. \<not> below (data_dir @ [tmp]) k \<longrightarrow> \<not> scratch_path data_dir tmp spec k \<longrightarrow> \<not> below (data_dir @ [ds_extract_dir spec]) k
           \<longrightarrow> dict_get d' k = dict_get d k)
      \<and> (\<forall>k. below (data_dir @ [tmp]) k \<longrightarrow> dict_get d' k = None)
      \<and> (case r of
           Inl _ \<Rightarrow> \<forall>k. below (data_dir @ [ds_extract_dir spec]) k \<longrightarrow> dict_get d' k = dict_get d k
         | Inr _ \<Rightarrow> dict_get d' (data_dir @ [ds_extract_dir spec]) \<noteq> None
             \<and> (\<exists>d2. stage_dataset E data_dir spec (data_dir @ [tmp, ds_extract_dir spec]) d = (d2, Inr ())
                \<and> (\<forall>r. dict_get d' (data_dir @ ds_extract_dir spec # r) = dict_get d2 (data_dir @ tmp # ds_extract_dir spec # r))))"
proof -
  let ?t = "data_dir @ [ds_extract_dir spec]" and ?m = "data_dir @ [tmp]" and ?s = "data_dir @ [tmp, ds_extract_dir spec]"
  obtain d2 r2 where st: "stage_dataset E data_dir spec ?s d = (d2, r2)" by fastforce
  have tmp': "tmp \<notin> set (archive_names spec)" using tmp by simp
  have same: "\<not> scratch_path data_dir tmp spec k \<Longrightarrow> dict_get d2 k = dict_get d k" for k
    using leavesD [OF leaves_stage [OF tmp' plain, where x = "ds_extract_dir spec"] d] st by simp
  have t: "\<not> scratch_path data_dir tmp spec k" "\<not> below ?m k" if "below ?t k" for k
  proof -
    note sib = siblings [OF that]
    show m: "\<not> below ?m k" using sib tmp by force
    have "\<not> below (data_dir @ [a]) k" if "a \<in> set (archive_names spec)" for a using sib that x by force
    with m show "\<not> scratch_path data_dir tmp spec k" unfolding scratch_path_def strictly_below_def by blast
  qed
  have n: "\<not> below ?s ?t" "\<not> below ?t ?s" "?s \<noteq> ?t" using tmp by (auto simp: below_iff)
  have m: "below ?s k \<Longrightarrow> below ?m k" for k by (auto simp: below_iff)
  show ?thesis
  proof (cases r2)
    case (Inl e)
    then have "install E data_dir spec tmp d = (drop_tree ?m d2, Inl e)" by (simp add: install_def act_finally_def act_then_def st)
    then show ?thesis using same t by (simp add: get_drop_tree)
  next
    case (Inr u)
    have "dict_get d2 ?t = None" using same t absent by simp
    from move_into_place [OF this n(3) n(1)] show ?thesis
    proof (elim disjE exE conjE)
      fix e assume "move_to ?s ?t d2 = (d2, Inl e)"
      then have "install E data_dir spec tmp d = (drop_tree ?m d2, Inl e)"
        by (simp add: install_def act_finally_def act_then_def st Inr)
      then show ?thesis using same t by (simp add: get_drop_tree)
    next
      fix v assume mv: "move_to ?s ?t d2 = (move_tree ?s ?t d2, Inr ())" "dict_get d2 ?s = Some v"
      then have i: "install E data_dir spec tmp d = (drop_tree ?m (move_tree ?s ?t d2), Inr ())"
        by (simp add: install_def act_finally_def act_then_def st Inr)
      have moved: "dict_get (drop_tree ?m (move_tree ?s ?t d2)) (?t @ r) = dict_get d2 (?s @ r)" for r
        unfolding get_drop_tree using t(2) [OF below_append] move_tree_simps(1) [OF n(1, 2)] by simp
      have "dict_get (drop_tree ?m (move_tree ?s ?t d2)) ?t \<noteq> None" using moved [of "[]"] mv(2) by simp
      moreover have "\<forall>r. dict_get (drop_tree ?m (move_tree ?s ?t d2)) (data_dir @ ds_extract_dir spec # r)
          = dict_get d2 (data_dir @ tmp # ds_extract_dir spec # r)" using moved by simp
      moreover have "dict_get (drop_tree ?m (move_tree ?s ?t d2)) k = dict_get d k"
        if "\<not> below ?m k" "\<not> scratch_path data_dir tmp spec k" "\<not> below ?t k" for k
        using that m [of k] move_tree_simps(2) [OF n(1, 2), of k d2] same [of k] by (auto simp: get_drop_tree)
      ultimately show ?thesis using Inr st unfolding i by (simp add: get_drop_tree)
    qed
  qed
qed

lemma download_dataset_cases:
  assumes spec: "dict_get dataset_catalogue name = Some spec" and tmp: "dict_get d (data_dir @ [de_tmp E name]) = None"
    "de_tmp E name \<noteq> ds_extract_dir spec" and dir: "is_folder d data_dir"
  shows "dict_get d (data_dir @ [ds_extract_dir spec]) \<noteq> None \<and> \<not> force
      \<and> download_dataset E data_dir name force d = (d, Inr (data_dir @ [ds_extract_dir spec]))
    \<or> force \<and> is_blob d (data_dir @ [ds_extract_dir spec]) \<and> (\<exists>e. download_dataset E data_dir name force d = (d, Inl e))
    \<or> (let d0 = (if force \<and> is_folder d (data_dir @ [ds_extract_dir spec]) then drop_tree (data_dir @ [ds_extract_dir spec]) d else d)
       in (force \<or> dict_get d (data_dir @ [ds_extract_dir spec]) = None) \<and> \<not> is_blob d (data_dir @ [ds_extract_dir spec])
        \<and> download_dataset E data_dir name force d =
            act_then (install E data_dir spec (de_tmp E name)) (\<lambda>_. act_return (data_dir @ [ds_extract_dir spec]))
              (dict_set (data_dir @ [de_tmp E name]) Folder d0))"
proof -
  let ?t = "data_dir @ [ds_extract_dir spec]" and ?m = "data_dir @ [de_tmp E name]"
  have n: "\<not> below ?t ?m" "\<not> below ?t data_dir" using tmp(2) below_length [of ?t data_dir] by (auto simp: below_iff)
  have mk: "make_folder ?m d0 = (dict_set ?m Folder d0, Inr ())" if "d0 = d \<or> d0 = drop_tree ?t d" for d0
    using that tmp dir n by (auto simp: make_folder_def get_drop_tree is_folder_def)
  have inst: "act_then (make_folder ?m) (\<lambda>_. act_then (act_finally
      (act_then (stage_dataset E data_dir spec (?m @ [ds_extract_dir spec])) (\<lambda>_. move_to (?m @ [ds_extract_dir spec]) ?t)) (drop_tree ?m)) (\<lambda>_. act_return ?t)) d0
    = act_then (install E data_dir spec (de_tmp E name)) (\<lambda>_. act_return ?t) (dict_set ?m Folder d0)"
    if "d0 = d \<or> d0 = drop_tree ?t d" for d0
    unfolding act_then_def [of "make_folder ?m"] mk [OF that] install_def by simp
  show ?thesis
    unfolding download_dataset_def spec option.case Let_def
    using inst [OF disjI1 [OF refl]] inst [OF disjI2 [OF refl]]
    by (cases "dict_get d ?t") (auto simp: is_folder_def is_blob_def)
qed


definition demo_archives :: archive_tools where
  "demo_archives =
     \<lparr>at_unzip = (\<lambda>b. if b = [1] then Inr [(''val2017/'', []), (''val2017/a.jpg'', [5])]
        else if b = [2] then Inr [(''annotations/instances.json'', [6])] else Inl (PyExc ''BadZipFile'' ''File is not a zip file'')),
      at_untar = (\<lambda>b. Inl (PyExc ''ReadError'' ''not a gzip file''))\<rparr>"

definition body_reply :: "bytes \<Rightarrow> reply" where
  "body_reply b = \<lparr>rp_status = 200, rp_length = Inr (int (length b)), rp_chunks = [b], rp_broken = None\<rparr>"

definition demo_download :: download_env where
  "demo_download =
     \<lparr>de_fetch = (\<lambda>url n. Inr (body_reply (if ends_with url ''/val2017.zip'' then [1] else [2]))), de_md5 = (\<lambda>_. []),
      de_tools = demo_archives, de_lines = (\<lambda>_. ([], None)), de_tmp = (\<lambda>name. ''.'' @ name @ ''-x1'')\<rparr>"

lemma coco_runs:
  "snd (download_dataset demo_download [''data''] ''coco_sample'' False demo_disk) = Inr [''data'', ''coco_val2017'']"
  by code_simp


section \<open>The validation split\<close>

definition annotation_of :: "string \<Rightarrow> (string \<times> string) option" where
  "annotation_of l = (case split_on (CHR 0x09) [] l of f # w # _ \<Rightarrow> Some (f, w) | _ \<Rightarrow> None)"

definition file_name :: "string \<Rightarrow> bool" where
  "file_name n \<longleftrightarrow> plain_name n \<and> n \<noteq> [] \<and> n \<noteq> ''.''"

text \<open>The layout the split should have: a directory for each annotated class with an image, in it the
  images annotated with it, the annotation file, and everything outside the split as before.\<close>

definition val_layout :: "disk \<Rightarrow> path \<Rightarrow> (string \<times> string) list \<Rightarrow> path \<Rightarrow> node option" where
  "val_layout d v as k =
     (if \<not> below v k \<or> k = v \<or> k = v @ [''val_annotations.txt''] then dict_get d k
      else
        (case drop (length v) k of
           [w] \<Rightarrow> if list_ex (\<lambda>(f, w'). w' = w \<and> is_blob d (v @ [''images'', f])) as then Some Folder else None
         | [w, f] \<Rightarrow> if (f, w) \<in> set as \<and> is_blob d (v @ [''images'', f]) then dict_get d (v @ [''images'', f]) else None
         | _ \<Rightarrow> None))"

text \<open>The disk while the lines \<open>as\<close> have been placed: the layout, and the images that remain.\<close>

definition mid_layout :: "disk \<Rightarrow> path \<Rightarrow> (string \<times> string) list \<Rightarrow> path \<Rightarrow> node option" where
  "mid_layout d v as k =
     (if below (v @ [''images'']) k then
        (if list_ex (\<lambda>(f, w). below (v @ [''images'', f]) k \<and> is_blob d (v @ [''images'', f])) as then None else dict_get d k)
      else val_layout d v as k)"

lemma join_file_name: "file_name n \<Longrightarrow> join_path p n = p @ [n]"
  by (simp add: file_name_def join_path_plain)

lemma place_image_moves:
  assumes l: "annotation_of l = Some (f, w)" and n: "file_name f" "file_name w" "w \<noteq> ''images''"
    and e: "dict_get e v = Some Folder" "dict_get e (v @ [w]) = None \<or> dict_get e (v @ [w]) = Some Folder"
      "dict_get e (v @ [''images'', f]) = Some (Blob x)" "dict_get e (v @ [w, f]) = None"
  shows "\<exists>e'. place_image v l e = (e', Inr 1) \<and> (\<forall>k. dict_get e' k =
      (if below (v @ [w, f]) k then dict_get e (v @ [''images'', f] @ drop (length v + 2) k)
       else if below (v @ [''images'', f]) k then None else if k = v @ [w] then Some Folder else dict_get e k))"
proof -
  let ?s = "v @ [''images'', f]" and ?t = "v @ [w, f]" and ?c = "v @ [w]"
  have neq: "?s \<noteq> ?t" "\<not> below ?s ?t" "\<not> below ?t ?s" "?c \<noteq> ?s" "?c \<noteq> ?t"
    using n(3) by (auto simp: below_same_length)
  obtain e1 where e1: "make_folder ?c e = (e1, Inr ())" "\<And>k. dict_get e1 k = (if k = ?c then Some Folder else dict_get e k)"
    using e(1, 2) by (fastforce simp: make_folder_def dict_get_set)
  have s: "dict_get e1 ?s = Some (Blob x)" "dict_get e1 ?t = None" "dict_get e1 (butlast ?t) = Some Folder"
    using e neq by (simp_all add: e1(2) butlast_append)
  have mv: "rename_to ?s ?t e1 = (move_tree ?s ?t e1, Inr ())"
    using s neq unfolding rename_to_def by (simp add: butlast_append)
  have get: "dict_get (move_tree ?s ?t e1) k =
      (if below ?t k then dict_get e1 (?s @ drop (length ?t) k) else if below ?s k then None else dict_get e1 k)" for k
    using get_move_tree [OF neq(2), of e1 k] siblings [of v w "v @ ''images'' # f # drop (length ?t) k" "''images''"] n(3)
      below_trans [of ?c ?t] by (auto simp: below_def)
  have "place_image v l e = act_then (make_folder ?c) (\<lambda>_. act_then (rename_to ?s ?t) (\<lambda>_. act_return 1)) e"
  proof -
    obtain r where "split_on (CHR 0x09) [] l = f # w # r" using l by (auto simp: annotation_of_def split: list.splits)
    moreover have "is_blob e ?s" using e(3) by (simp add: is_blob_def)
    ultimately show ?thesis unfolding place_image_def using n by (simp add: Let_def join_file_name del: One_nat_def)
  qed
  also have "\<dots> = (move_tree ?s ?t e1, Inr 1)" by (simp add: act_then_def e1(1) mv act_return_def)
  finally have "place_image v l e = (move_tree ?s ?t e1, Inr 1)" .
  moreover have "?s @ drop (length ?t) k \<noteq> ?c" for k by simp
  then have "dict_get (move_tree ?s ?t e1) k = (if below ?t k then dict_get e (v @ [''images'', f] @ drop (length v + 2) k)
       else if below ?s k then None else if k = ?c then Some Folder else dict_get e k)" for k
    unfolding get e1(2) by simp
  ultimately show ?thesis by blast
qed

lemma place_image_skips:
  assumes "annotation_of l = Some (f, w)" "file_name f" "\<not> is_blob e (v @ [''images'', f])"
  shows "place_image v l e = (e, Inr 0)"
proof -
  obtain r where "split_on (CHR 0x09) [] l = f # w # r" using assms(1) by (auto simp: annotation_of_def split: list.splits)
  then show ?thesis unfolding place_image_def using assms by (simp add: Let_def join_file_name)
qed

lemma below_images: "below (v @ [''images'']) k \<longleftrightarrow> (\<exists>r. k = v @ ''images'' # r)"
  by (auto simp: below_iff)

lemma layout_step:
  assumes n: "file_name f" "w \<noteq> ''images''" "w \<noteq> ''val_annotations.txt''" and new: "f \<notin> set (map fst as)"
    and img: "dict_get d (v @ [''images'', f]) = Some (Blob x)" and flat: "\<And>r. r \<noteq> [] \<Longrightarrow> dict_get d (v @ ''images'' # f # r) = None"
  shows "mid_layout d v (as @ [(f, w)]) k =
      (if below (v @ [w, f]) k then mid_layout d v as (v @ [''images'', f] @ drop (length v + 2) k)
       else if below (v @ [''images'', f]) k then None else if k = v @ [w] then Some Folder else mid_layout d v as k)"
proof -
  have blob: "is_blob d (v @ [''images'', f])" using img by (simp add: is_blob_def)
  have rest: "mid_layout d v as (v @ ''images'' # f # r) = dict_get d (v @ ''images'' # f # r)" for r
  proof -
    have "\<not> list_ex (\<lambda>(f', w). below (v @ [''images'', f']) (v @ ''images'' # f # r) \<and> is_blob d (v @ [''images'', f'])) as"
      using new by (force simp: list_ex_iff below_iff)
    then show ?thesis unfolding mid_layout_def by (simp add: below_iff)
  qed
  consider r where "k = v @ w # f # r" | r where "k = v @ ''images'' # f # r" | "k = v @ [w]"
    | "\<not> below (v @ [w, f]) k" "\<not> below (v @ [''images'', f]) k" "k \<noteq> v @ [w]"
    by (auto simp: below_iff)
  then show ?thesis
  proof cases
    case (1 r)
    have "mid_layout d v (as @ [(f, w)]) k = (if r = [] then dict_get d (v @ [''images'', f]) else None)"
      unfolding 1 mid_layout_def val_layout_def using n blob by (cases r) (auto simp: below_iff)
    moreover have "mid_layout d v as (v @ [''images'', f] @ drop (length v + 2) k) = dict_get d (v @ ''images'' # f # r)"
      using rest [of r] by (simp add: 1)
    ultimately show ?thesis using flat [of r] by (simp add: 1 below_iff)
  next
    case (2 r)
    have "\<not> below (v @ [w, f]) k" using n(2) by (simp add: 2 below_iff)
    moreover have "mid_layout d v (as @ [(f, w)]) k = None" unfolding mid_layout_def using blob by (simp add: 2 below_iff)
    ultimately show ?thesis by (simp add: 2 below_iff)
  next
    case 3
    have "mid_layout d v (as @ [(f, w)]) k = Some Folder"
      unfolding 3 mid_layout_def val_layout_def using n blob by (auto simp: below_iff)
    then show ?thesis by (auto simp: 3 below_iff)
  next
    case 4
    have "val_layout d v (as @ [(f, w)]) k = val_layout d v as k"
    proof (cases "below v k \<and> k \<noteq> v \<and> k \<noteq> v @ [''val_annotations.txt'']")
      case True
      then obtain r where r: "k = v @ r" by (auto simp: below_iff)
      show ?thesis using 4 True unfolding val_layout_def r
        by (auto simp: below_iff split: list.split)
    qed (simp add: val_layout_def)
    then show ?thesis using 4 by (simp add: mid_layout_def)
  qed
qed

lemma place_images_layout:
  assumes good: "\<forall>(f, w) \<in> set (List.map_filter annotation_of ls). file_name f \<and> file_name w \<and> w \<noteq> ''images'' \<and> w \<noteq> ''val_annotations.txt''"
    and dist: "distinct (map fst (as @ List.map_filter annotation_of ls))"
    and v: "dict_get d v = Some Folder"
    and flat: "\<And>f r. is_blob d (v @ [''images'', f]) \<Longrightarrow> r \<noteq> [] \<Longrightarrow> dict_get d (v @ ''images'' # f # r) = None"
    and e: "\<forall>k. dict_get e k = mid_layout d v as k"
  shows "\<exists>e'. place_images v ls n e =
      (e', Inr (n + length (filter (\<lambda>(f, w). is_blob d (v @ [''images'', f])) (List.map_filter annotation_of ls))))
    \<and> (\<forall>k. dict_get e' k = mid_layout d v (as @ List.map_filter annotation_of ls) k)"
  using good dist e
proof (induction ls arbitrary: as n e)
  case Nil
  then show ?case by (simp add: map_filter_simps act_return_def)
next
  case (Cons l ls)
  show ?case
  proof (cases "annotation_of l")
    case None
    then have "place_image v l e = (e, Inr 0)"
      by (auto simp: annotation_of_def place_image_def split: list.splits)
    then have "place_images v (l # ls) n e = place_images v ls n e" by (simp add: act_then_def)
    then show ?thesis using Cons None by (simp add: map_filter_simps)
  next
    case (Some a)
    obtain f w where a: "a = (f, w)" by fastforce
    note l = Some [unfolded a]
    have fw: "file_name f" "file_name w" "w \<noteq> ''images''" "w \<noteq> ''val_annotations.txt''" and new: "f \<notin> set (map fst as)"
      using Cons.prems l by (auto simp: map_filter_simps)
    have d1: "distinct (map fst ((as @ [(f, w)]) @ List.map_filter annotation_of ls))"
      and g1: "\<forall>(f, w) \<in> set (List.map_filter annotation_of ls). file_name f \<and> file_name w \<and> w \<noteq> ''images'' \<and> w \<noteq> ''val_annotations.txt''"
      using Cons.prems l by (auto simp: map_filter_simps)
    have e_img: "dict_get e (v @ [''images'', f]) = dict_get d (v @ [''images'', f])"
      using Cons.prems(3) new by (force simp: mid_layout_def list_ex_iff below_iff)
    show ?thesis
    proof (cases "is_blob d (v @ [''images'', f])")
      case True
      then obtain x where x: "dict_get d (v @ [''images'', f]) = Some (Blob x)"
        unfolding is_blob_def by (metis node.exhaust not_None_eq)
      have "dict_get e v = Some Folder" using Cons.prems(3) v by (simp add: mid_layout_def val_layout_def below_iff)
      moreover have "dict_get e (v @ [w]) = None \<or> dict_get e (v @ [w]) = Some Folder"
        using Cons.prems(3) fw by (simp add: mid_layout_def val_layout_def below_iff)
      moreover have "dict_get e (v @ [w, f]) = None"
        using Cons.prems(3) fw new by (force simp: mid_layout_def val_layout_def below_iff)
      ultimately obtain e' where e': "place_image v l e = (e', Inr 1)"
        "\<forall>k. dict_get e' k = (if below (v @ [w, f]) k then dict_get e (v @ [''images'', f] @ drop (length v + 2) k)
           else if below (v @ [''images'', f]) k then None else if k = v @ [w] then Some Folder else dict_get e k)"
        using place_image_moves [OF l fw(1-3), of e v x] e_img x by auto
      have "\<forall>k. dict_get e' k = mid_layout d v (as @ [(f, w)]) k"
      proof
        fix k
        have blank: "dict_get d (v @ ''images'' # f # r) = None" if "r \<noteq> []" for r using flat [OF True that] .
        show "dict_get e' k = mid_layout d v (as @ [(f, w)]) k"
          unfolding e'(2) [rule_format] Cons.prems(3) [rule_format]
          by (rule layout_step [OF fw(1, 3, 4) new x, symmetric]) (rule blank)
      qed
      from Cons.IH [OF g1 d1 this, of "n + 1"] show ?thesis
        using True by (simp add: l map_filter_simps act_then_def e'(1))
    next
      case False
      then have "place_image v l e = (e, Inr 0)"
        using place_image_skips [OF l fw(1)] e_img by (simp add: is_blob_def)
      moreover have "mid_layout d v (as @ [(f, w)]) k = mid_layout d v as k" for k
        using False by (auto simp: mid_layout_def val_layout_def split: list.split)
      ultimately show ?thesis
        using Cons.IH [OF g1 d1, of e n] Cons.prems(3) False by (simp add: l map_filter_simps act_then_def)
    qed
  qed
qed

lemma subfolder_in: "is_folder d (p @ [n]) \<Longrightarrow> n \<in> set (subfolders d p)"
proof -
  assume f: "is_folder d (p @ [n])"
  then have "p @ [n] \<in> set (map fst d)" by (force simp: is_folder_def dest: map_of_SomeD)
  then have "n \<in> set (entries_of d p)" unfolding entries_of_def by force
  with f show "n \<in> set (subfolders d p)" by (simp add: subfolders_def)
qed

text \<open>C23. Restructuring the validation split: when the split is as distributed (the images, the annotation
  file and nothing else, names that are file names, one annotation for a file), every annotated image
  that is there ends up in the directory of its class with its content, the flat directory is gone,
  nothing else on the disk changes, the count is that of the images moved, and a second run changes
  nothing.\<close>

theorem val_restructured:
  assumes v: "dict_get d (base @ [''val'']) = Some Folder" "dict_get d (base @ [''val'', ''images'']) = Some Folder"
      "dict_get d (base @ [''val'', ''val_annotations.txt'']) = Some (Blob b)"
    and ls: "lines b = (ls, None)"
    and only: "\<And>k. strictly_below (base @ [''val'']) k \<Longrightarrow> \<not> below (base @ [''val'', ''images'']) k
        \<Longrightarrow> k \<noteq> base @ [''val'', ''val_annotations.txt''] \<Longrightarrow> dict_get d k = None"
    and flat: "\<And>f r. is_blob d (base @ [''val'', ''images'', f]) \<Longrightarrow> r \<noteq> [] \<Longrightarrow> dict_get d (base @ ''val'' # ''images'' # f # r) = None"
    and good: "\<forall>(f, w) \<in> set (List.map_filter annotation_of ls). file_name f \<and> file_name w \<and> w \<noteq> ''images'' \<and> w \<noteq> ''val_annotations.txt''"
    and dist: "distinct (map fst (List.map_filter annotation_of ls))"
  shows "\<exists>d'. restructure_tiny_imagenet_val lines base d =
        (d', Inr (length (filter (\<lambda>(f, w). is_blob d (base @ [''val'', ''images'', f])) (List.map_filter annotation_of ls))))
      \<and> (\<forall>k. dict_get d' k = val_layout d (base @ [''val'']) (List.map_filter annotation_of ls) k)
      \<and> (list_ex (\<lambda>(f, w). is_blob d (base @ [''val'', ''images'', f])) (List.map_filter annotation_of ls)
          \<longrightarrow> (\<forall>any. restructure_tiny_imagenet_val any base d' = (d', Inr 0)))"
proof -
  let ?v = "base @ [''val'']" and ?as = "List.map_filter annotation_of ls"
  have start: "\<forall>k. dict_get d k = mid_layout d ?v [] k"
  proof
    fix k
    have none: "dict_get d k = None" if "below ?v k" "k \<noteq> ?v" "k \<noteq> ?v @ [''val_annotations.txt'']" "\<not> below (?v @ [''images'']) k"
      using only [of k] that by (simp add: strictly_below_def)
    then show "dict_get d k = mid_layout d ?v [] k"
      by (auto simp: mid_layout_def val_layout_def split: list.split)
  qed
  have dist': "distinct (map fst ([] @ ?as))" using dist by simp
  have flat': "\<And>f r. is_blob d (?v @ [''images'', f]) \<Longrightarrow> r \<noteq> [] \<Longrightarrow> dict_get d (?v @ ''images'' # f # r) = None"
    using flat by simp
  from place_images_layout [OF good dist' v(1) flat' start, of 0] obtain e where e:
    "place_images ?v ls 0 d = (e, Inr (length (filter (\<lambda>(f, w). is_blob d (?v @ [''images'', f])) ?as)))"
    "\<forall>k. dict_get e k = mid_layout d ?v ?as k" by auto
  let ?d = "drop_tree (?v @ [''images'']) e"
  have run: "restructure_tiny_imagenet_val lines base d = (?d, Inr (length (filter (\<lambda>(f, w). is_blob d (base @ [''val'', ''images'', f])) ?as)))"
    unfolding restructure_tiny_imagenet_val_def using v ls e(1) by (simp add: Let_def is_folder_def act_then_def)
  have get: "dict_get ?d k = val_layout d ?v ?as k" for k
  proof (cases "below (?v @ [''images'']) k")
    case True
    then obtain r where r: "k = ?v @ ''images'' # r" by (auto simp: below_iff)
    have "val_layout d ?v ?as k = None"
      unfolding val_layout_def r using good by (auto simp: list_ex_iff below_iff split: list.split)
    then show ?thesis using True by (simp add: get_drop_tree)
  next
    case False
    then show ?thesis using e(2) by (simp add: get_drop_tree mid_layout_def)
  qed
  have again: "restructure_tiny_imagenet_val any base ?d = (?d, Inr 0)"
    if ex: "list_ex (\<lambda>(f, w). is_blob d (base @ [''val'', ''images'', f])) ?as" for any
  proof -
    from ex obtain f w where fw: "(f, w) \<in> set ?as" "is_blob d (base @ [''val'', ''images'', f])" by (auto simp: list_ex_iff)
    then have "w \<noteq> ''val_annotations.txt''" using good by auto
    then have "is_folder ?d (?v @ [w])"
      unfolding is_folder_def get using fw by (auto simp: val_layout_def below_iff list_ex_iff)
    then have "w \<in> set (subfolders ?d ?v)" by (rule subfolder_in)
    then have "subfolders ?d ?v \<noteq> []" by auto
    moreover have "is_folder ?d ?v" unfolding is_folder_def get using v by (simp add: val_layout_def)
    moreover have "\<not> is_folder ?d (?v @ [''images''])" by (simp add: is_folder_def get_drop_tree)
    ultimately show ?thesis unfolding restructure_tiny_imagenet_val_def by (simp add: Let_def)
  qed
  show ?thesis using run get again by blast
qed

definition demo_split :: disk where
  "demo_split =
     [([''t''], Folder), ([''t'', ''val''], Folder), ([''t'', ''val'', ''images''], Folder),
      ([''t'', ''val'', ''val_annotations.txt''], Blob [1]), ([''t'', ''val'', ''images'', ''val_0.JPEG''], Blob [7])]"

theorem val_restructured_witness:
  "\<exists>d'. restructure_tiny_imagenet_val (\<lambda>_. ([''val_0.JPEG'' @ [CHR 0x09] @ ''n01'' @ [CHR 0x09], ''broken''], None)) [''t''] demo_split
       = (d', Inr 1)
     \<and> dict_get d' [''t'', ''val'', ''n01'', ''val_0.JPEG''] = Some (Blob [7]) \<and> dict_get d' [''t'', ''val'', ''images''] = None"
proof -
  let ?ls = "[''val_0.JPEG'' @ [CHR 0x09] @ ''n01'' @ [CHR 0x09], ''broken'']"
  let ?lines = "\<lambda>_. (?ls, None) :: string list \<times> exn option"
  have as: "List.map_filter annotation_of ?ls = [(''val_0.JPEG'', ''n01'')]" by code_simp
  have names: "file_name ''val_0.JPEG''" "file_name ''n01''" by code_simp+
  have v: "dict_get demo_split ([''t''] @ [''val'']) = Some Folder" "dict_get demo_split ([''t''] @ [''val'', ''images'']) = Some Folder"
    "dict_get demo_split ([''t''] @ [''val'', ''val_annotations.txt'']) = Some (Blob [1])" by code_simp+
  have only: "dict_get demo_split k = None" if "strictly_below ([''t''] @ [''val'']) k" "\<not> below ([''t''] @ [''val'', ''images'']) k"
    "k \<noteq> [''t''] @ [''val'', ''val_annotations.txt'']" for k
    using that by (auto simp: demo_split_def strictly_below_def below_def)
  have flat: "dict_get demo_split ([''t''] @ ''val'' # ''images'' # f # r) = None" if "r \<noteq> []" for f r
    using that by (auto simp: demo_split_def)
  have blob: "is_blob demo_split ([''t''] @ [''val'', ''images'', ''val_0.JPEG''])" by code_simp
  from val_restructured [OF v, of ?lines ?ls, unfolded as] only flat names
  obtain d' where "restructure_tiny_imagenet_val ?lines [''t''] demo_split
        = (d', Inr (length (filter (\<lambda>(f, w). is_blob demo_split ([''t''] @ [''val'', ''images'', f])) [(''val_0.JPEG'', ''n01'')])))"
    "\<forall>k. dict_get d' k = val_layout demo_split ([''t''] @ [''val'']) [(''val_0.JPEG'', ''n01'')] k" by auto
  moreover have "val_layout demo_split ([''t''] @ [''val'']) [(''val_0.JPEG'', ''n01'')] [''t'', ''val'', ''n01'', ''val_0.JPEG''] = Some (Blob [7])"
    "val_layout demo_split ([''t''] @ [''val'']) [(''val_0.JPEG'', ''n01'')] [''t'', ''val'', ''images''] = None" by code_simp+
  ultimately show ?thesis using blob by (intro exI [of _ d']) simp
qed

text \<open>Names in the annotation file are joined unchecked, unlike those of an archive: a class named
  \<open>../..\<close> takes its images out of the dataset.\<close>

lemma annotation_escapes:
  "let d' = fst (place_image [''p'', ''t'', ''val''] (''a.jpg'' @ [CHR 0x09] @ ''../..'')
      [([], Folder), ([''p''], Folder), ([''p'', ''t''], Folder), ([''p'', ''t'', ''val''], Folder),
       ([''p'', ''t'', ''val'', ''images''], Folder), ([''p'', ''t'', ''val'', ''images'', ''a.jpg''], Blob [7])])
   in dict_get d' [''p'', ''a.jpg''] = Some (Blob [7])"
  by code_simp

section \<open>The COCO subset\<close>

lemma unlink_each:
  assumes "\<forall>n \<in> set ns. is_blob d (p @ [n])" "distinct ns"
  shows "\<exists>d'. act_each (\<lambda>n. unlink (p @ [n])) ns d = (d', Inr ())
    \<and> (\<forall>k. dict_get d' k = (if \<exists>n \<in> set ns. k = p @ [n] then None else dict_get d k))"
  using assms
proof (induction ns arbitrary: d)
  case (Cons n ns)
  then obtain x where x: "dict_get d (p @ [n]) = Some (Blob x)"
    unfolding is_blob_def by (metis list.set_intros(1) node.exhaust not_None_eq)
  let ?d = "filter (\<lambda>kv. fst kv \<noteq> p @ [n]) d"
  have u: "unlink (p @ [n]) d = (?d, Inr ())" by (simp add: unlink_def x)
  have get: "dict_get ?d k = (if k \<noteq> p @ [n] then dict_get d k else None)" for k
    by (rule get_filter [where P = "\<lambda>k. k \<noteq> p @ [n]"])
  have "\<forall>m \<in> set ns. is_blob ?d (p @ [m])" "distinct ns" using Cons.prems by (auto simp: is_blob_def get)
  from Cons.IH [OF this] obtain d' where "act_each (\<lambda>n. unlink (p @ [n])) ns ?d = (d', Inr ())"
    "\<forall>k. dict_get d' k = (if \<exists>n \<in> set ns. k = p @ [n] then None else dict_get ?d k)" by blast
  then show ?case by (auto simp: act_then_def u get)
qed (simp add: act_return_def)

text \<open>The COCO subset confined the first images by name, at most as many as asked for, deletes the other
  images of the directory and nothing else.\<close>

theorem subsample_keeps_first:
  assumes dir: "filter (\<lambda>p. below base p \<and> p \<noteq> base \<and> last p = ''val2017'' \<and> is_folder d p) (map fst d) = p # others"
    and images: "images = sort (filter (\<lambda>n. ends_with n ''.jpg'') (entries_of d p))" "distinct images"
      "\<forall>n \<in> set images. is_blob d (p @ [n])"
  shows "\<exists>d'. subsample_coco base keep d = (d', Inr (min (length images) keep))
    \<and> (\<forall>k. dict_get d' k = (if \<exists>n \<in> set (drop keep images). k = p @ [n] then None else dict_get d k))
    \<and> length (filter (\<lambda>n. dict_get d' (p @ [n]) \<noteq> None) images) = min (length images) keep
    \<and> (\<forall>n \<in> set images. dict_get d' (p @ [n]) \<noteq> None \<longleftrightarrow> n \<in> set (take keep images))"
proof -
  have kept: "n \<notin> set (drop keep images) \<longleftrightarrow> n \<in> set (take keep images)" if "n \<in> set images" for n
  proof -
    have "set (take keep images) \<inter> set (drop keep images) = {}" by (rule set_take_disj_set_drop_if_distinct [OF images(2)]) simp
    moreover have "set images = set (take keep images) \<union> set (drop keep images)" by (metis append_take_drop_id set_append)
    ultimately show ?thesis using that by blast
  qed
  have blobs: "\<forall>n \<in> set (drop keep images). is_blob d (p @ [n])" using images(3) by (meson in_set_dropD)
  obtain d' where d': "act_each (\<lambda>n. unlink (p @ [n])) (drop keep images) d = (d', Inr ())"
    "\<forall>k. dict_get d' k = (if \<exists>n \<in> set (drop keep images). k = p @ [n] then None else dict_get d k)"
    using unlink_each [OF blobs] images(2) by auto
  have run: "subsample_coco base keep d = (d', Inr (min (length images) keep))"
  proof (cases "length images \<le> keep")
    case True
    then show ?thesis
      using d'(1) unfolding subsample_coco_def dir list.case Let_def images(1) [symmetric] by (simp add: act_return_def)
  next
    case False
    then show ?thesis
      using d'(1) unfolding subsample_coco_def dir list.case Let_def images(1) [symmetric] by (simp add: act_then_def act_return_def)
  qed
  have there: "dict_get d' (p @ [n]) \<noteq> None \<longleftrightarrow> n \<in> set (take keep images)" if "n \<in> set images" for n
    using d'(2) kept [OF that] images(3) that by (auto simp: is_blob_def)
  have "filter (\<lambda>n. dict_get d' (p @ [n]) \<noteq> None) images = filter (\<lambda>n. n \<in> set (take keep images)) images"
    by (rule filter_cong [OF refl there])
  also have "\<dots> = filter (\<lambda>n. n \<in> set (take keep images)) (take keep images @ drop keep images)"
    by (simp only: append_take_drop_id)
  also have "\<dots> = take keep images"
  proof -
    have "filter (\<lambda>n. n \<in> set (take keep images)) (take keep images) = take keep images" by (simp add: filter_id_conv)
    moreover have "filter (\<lambda>n. n \<in> set (take keep images)) (drop keep images) = []"
      using set_take_disj_set_drop_if_distinct [OF images(2), of keep keep] by (auto simp: filter_empty_conv disjoint_iff)
    ultimately show ?thesis unfolding filter_append by simp
  qed
  finally have "length (filter (\<lambda>n. dict_get d' (p @ [n]) \<noteq> None) images) = min (length images) keep" by simp
  then show ?thesis using run d'(2) there by blast
qed

definition demo_coco :: disk where
  "demo_coco =
     [([''c'', ''val2017''], Folder), ([''c'', ''val2017'', ''b.jpg''], Blob [2]), ([''c'', ''val2017'', ''a.jpg''], Blob [1]),
      ([''c'', ''val2017'', ''notes''], Blob [3])]"

theorem subsample_keeps_first_witness:
  "\<exists>d'. subsample_coco [''c''] 1 demo_coco = (d', Inr 1) \<and> dict_get d' [''c'', ''val2017'', ''a.jpg''] \<noteq> None
     \<and> dict_get d' [''c'', ''val2017'', ''b.jpg''] = None"
proof -
  have dir: "filter (\<lambda>p. below [''c''] p \<and> p \<noteq> [''c''] \<and> last p = ''val2017'' \<and> is_folder demo_coco p) (map fst demo_coco)
    = [''c'', ''val2017''] # []" by code_simp
  have im: "[''a.jpg'', ''b.jpg''] = sort (filter (\<lambda>n. ends_with n ''.jpg'') (entries_of demo_coco [''c'', ''val2017'']))" by code_simp
  have rest: "distinct [''a.jpg'', ''b.jpg'']" "\<forall>n \<in> set [''a.jpg'', ''b.jpg'']. is_blob demo_coco ([''c'', ''val2017''] @ [n])"
    by code_simp+
  from subsample_keeps_first [OF dir im rest, of 1] obtain d' where "subsample_coco [''c''] 1 demo_coco = (d', Inr 1)"
    "\<forall>n \<in> set [''a.jpg'', ''b.jpg'']. dict_get d' ([''c'', ''val2017''] @ [n]) \<noteq> None \<longleftrightarrow> n \<in> {''a.jpg''}" by auto
  then show ?thesis by (intro exI [of _ d']) simp
qed

section \<open>Exit codes\<close>

lemma download_names_cases:
  "(\<exists>d' rs. download_names E data_dir force ns d = (d', Inr rs) \<and> map fst rs = ns)
   \<or> (\<exists>d' e. download_names E data_dir force ns d = (d', Inl e) \<and> \<not> reported e)"
proof (induction ns arbitrary: d)
  case (Cons n ns)
  obtain d1 r where r: "download_dataset E data_dir n force d = (d1, r)" by fastforce
  show ?case
    using Cons.IH [of d1] by (cases r) (auto simp: r act_then_def act_return_def)
qed (simp add: act_return_def)

text \<open>What the command exits with, once the data directory is there; an exception that is none of the
  three kinds ends it with a traceback.\<close>

lemma download_main_exit:
  assumes "init_downloader data_dir d = (d0, Inr ())"
  shows "case download_main E data_dir dataset force d of
      (d', Inr code) \<Rightarrow> code \<in> {0, 1, 130} \<and> (code = 0 \<and> dataset \<noteq> ''all'' \<longrightarrow> (\<exists>p. download_dataset E data_dir dataset force d0 = (d', Inr p)))
    | (d', Inl e) \<Rightarrow> \<not> reported e \<and> \<not> interrupted e"
proof -
  have main: "download_main E data_dir dataset force d =
      (case (if dataset = ''all''
             then act_then (download_all E data_dir force) (\<lambda>rs. act_return (if list_ex (\<lambda>(n, p). p = None) rs then 1 else 0)) d0
             else act_then (download_dataset E data_dir dataset force) (\<lambda>_. act_return 0) d0) of
         (d', Inr code) \<Rightarrow> (d', Inr code)
       | (d', Inl e) \<Rightarrow> if interrupted e then (d', Inr 130) else if reported e then (d', Inr 1) else (d', Inl e))"
    by (simp add: download_main_def act_then_def [of "init_downloader data_dir"] assms)
  show ?thesis
  proof (cases "dataset = ''all''")
    case True
    obtain d' r where "download_all E data_dir force d0 = (d', r)" by fastforce
    then show ?thesis unfolding main using True by (cases r) (auto simp: act_then_def act_return_def)
  next
    case False
    obtain d' r where "download_dataset E data_dir dataset force d0 = (d', r)" by fastforce
    then show ?thesis unfolding main using False by (cases r) (auto simp: act_then_def act_return_def)
  qed
qed

text \<open>An archive that is no ZIP file, where no checksum guards it: the exception is of none of the
  kinds the commands catch, so \<open>download_all\<close> does not go on and the command does not exit with one.\<close>

definition corrupt_env :: download_env where
  "corrupt_env = demo_download\<lparr>de_fetch := (\<lambda>url n. Inr (body_reply [9]))\<rparr>"

lemma bad_archive_escapes:
  "snd (download_main corrupt_env [''data''] ''coco_sample'' False demo_disk) = Inl (PyExc ''BadZipFile'' ''File is not a zip file'')"
  "\<not> reported (PyExc ''BadZipFile'' ''File is not a zip file'')"
  by code_simp+

text \<open>With \<open>--force\<close> the dataset at hand is deleted before the new one is fetched.\<close>

definition offline_env :: download_env where
  "offline_env = demo_download\<lparr>de_fetch := (\<lambda>url n. Inl (PyExc ''ConnectionError'' ''Network is unreachable''))\<rparr>"

lemma force_loses_dataset:
  "let d' = fst (download_main offline_env [''data''] ''coco_sample'' True
       (demo_disk @ [([''data'', ''coco_val2017''], Folder), ([''data'', ''coco_val2017'', ''a.jpg''], Blob [1])]))
   in dict_get d' [''data'', ''coco_val2017''] = None"
  by code_simp

end
