(* ===== verification/Model_Evaluation.thy ===== *)
theory Model_Evaluation
  imports Datasets Publishing
begin

text \<open>
  Evaluation of the published models: accuracy per class, calibration and retrieval precision
  (\<open>scripts/evaluate_models.py\<close>), and the comparison of exported graphs with their sources
  (\<open>scripts/verify_exports.py\<close>). Reading and preprocessing a file, the sessions, FAISS, NumPy's index
  routines and random choice, and the contents of the report at hand are parameters. The summary
  printed on the console is left out.
\<close>

section \<open>Calibration\<close>

definition np_mean :: "real list \<Rightarrow> real" where
  "np_mean xs = sum_list xs / real (length xs)"

definition np_std :: "real list \<Rightarrow> real" where
  "np_std xs = sqrt (np_mean (map (\<lambda>x. (x - np_mean xs)\<^sup>2) xs))"

definition calibration_bins :: nat where
  "calibration_bins = 10"

record reliability_row =
  rr_range :: string
  rr_count :: nat
  rr_mean_confidence :: real
  rr_accuracy :: real
  rr_gap :: real

record calibration =
  cb_error :: real
  cb_mean_confidence :: real
  cb_mean_accuracy :: real
  cb_overconfidence :: real
  cb_bins :: "reliability_row list"

text \<open>A prediction: its confidence, and whether it is right. Bin \<open>i\<close> is open below and closed above;
  the last one also holds its lower edge.\<close>

type_synonym confident = "real \<times> bool"

definition bin_edge :: "nat \<Rightarrow> nat \<Rightarrow> real" where
  "bin_edge bins i = real i / real bins"

definition in_bin :: "nat \<Rightarrow> nat \<Rightarrow> confident \<Rightarrow> bool" where
  "in_bin bins i x \<longleftrightarrow>
     bin_edge bins i < fst x \<and> fst x \<le> bin_edge bins (Suc i) \<or> Suc i = bins \<and> fst x = bin_edge bins i"

definition confidence_of :: "confident list \<Rightarrow> real" where
  "confidence_of xs = np_mean (map fst xs)"

definition accuracy_of :: "confident list \<Rightarrow> real" where
  "accuracy_of xs = np_mean (map (\<lambda>x. of_bool (snd x)) xs)"

definition reliability :: "nat \<Rightarrow> nat \<Rightarrow> confident list \<Rightarrow> reliability_row" where
  "reliability bins i xs =
     \<lparr>rr_range = fmt_fixed 1 (bin_edge bins i) @ ''-'' @ fmt_fixed 1 (bin_edge bins (Suc i)), rr_count = length xs,
      rr_mean_confidence = py_round 4 (confidence_of xs), rr_accuracy = py_round 4 (accuracy_of xs),
      rr_gap = py_round 4 (accuracy_of xs - confidence_of xs)\<rparr>"

text \<open>The bins that are not empty, with what is in them.\<close>

definition filled_bins :: "nat \<Rightarrow> confident list \<Rightarrow> (nat \<times> confident list) list" where
  "filled_bins bins xs = filter (\<lambda>(i, ys). ys \<noteq> []) (map (\<lambda>i. (i, filter (in_bin bins i) xs)) [0..<bins])"

definition calibration_error :: "nat \<Rightarrow> confident list \<Rightarrow> real" where
  "calibration_error bins xs =
     sum_list (map (\<lambda>(i, ys). real (length ys) / real (length xs) * \<bar>confidence_of ys - accuracy_of ys\<bar>) (filled_bins bins xs))"

definition compute_calibration :: "confident list \<Rightarrow> nat \<Rightarrow> calibration" where
  "compute_calibration xs bins =
     \<lparr>cb_error = py_round 4 (calibration_error bins xs), cb_mean_confidence = py_round 4 (confidence_of xs),
      cb_mean_accuracy = py_round 4 (accuracy_of xs), cb_overconfidence = py_round 4 (confidence_of xs - accuracy_of xs),
      cb_bins = map (\<lambda>(i, ys). reliability bins i ys) (filled_bins bins xs)\<rparr>"

section \<open>Accuracy per class\<close>

record image_row =
  ir_label :: nat
  ir_correct :: bool
  ir_confidence :: real
  ir_in_top5 :: bool

definition score_image :: "argsort_fn \<Rightarrow> nat \<Rightarrow> real list \<Rightarrow> image_row" where
  "score_image argsort label p =
     \<lparr>ir_label = label, ir_correct = (argmax p = label), ir_confidence = p ! argmax p,
      ir_in_top5 = (label \<in> set (take 5 (argsort (map uminus p))))\<rparr>"

definition class_index :: "string list \<Rightarrow> (string, nat) dict" where
  "class_index wnids = foldl (\<lambda>d (i, w). dict_set w i d) [] (enumerate 0 wnids)"

text \<open>A validation image: the directory it is in, and what reading and preprocessing it gives. The
  session gives a row of logits for each image of a batch.\<close>

type_synonym val_image = "string \<times> chw result"

definition true_label :: "(string, nat) dict \<Rightarrow> val_image \<Rightarrow> nat result" where
  "true_label idx x = (case dict_get idx (fst x) of None \<Rightarrow> Inl (key_error (fst x)) | Some label \<Rightarrow> Inr label)"

definition score_chunk ::
  "(chw list \<Rightarrow> real list list result) \<Rightarrow> argsort_fn \<Rightarrow> (string, nat) dict \<Rightarrow> val_image list \<Rightarrow> image_row list result" where
  "score_chunk session argsort idx chunk =
     res_bind (map_res snd chunk) (\<lambda>arrays.
     res_bind (stack_batch arrays) (\<lambda>batch.
     res_bind (session batch) (\<lambda>logits.
     res_bind (map_res (true_label idx) chunk) (\<lambda>truth.
     Inr (map (\<lambda>(label, l). score_image argsort label (softmax l)) (zip truth logits))))))"

text \<open>\<open>defaultdict(list)\<close> with \<open>append\<close>, and the dictionary of means keyed by class name.\<close>

definition dict_append :: "'k \<Rightarrow> 'v \<Rightarrow> ('k, 'v list) dict \<Rightarrow> ('k, 'v list) dict" where
  "dict_append k v d = dict_set k ((case dict_get d k of Some vs \<Rightarrow> vs | None \<Rightarrow> []) @ [v]) d"

definition group_by :: "('k \<times> 'v) list \<Rightarrow> ('k, 'v list) dict" where
  "group_by kvs = foldl (\<lambda>d (k, v). dict_append k v d) [] kvs"

definition means_by_name :: "string list \<Rightarrow> (nat, real list) dict \<Rightarrow> (string, real) dict result" where
  "means_by_name class_names groups =
     res_bind (map_res (\<lambda>(c, xs). if c < length class_names then Inr (class_names ! c, np_mean xs) else Inl index_error) groups)
       (\<lambda>kvs. Inr (foldl (\<lambda>d (k, v). dict_set k v d) [] kvs))"

record class_spread =
  cs_num_classes :: nat
  cs_mean :: real
  cs_std :: real
  cs_min :: real
  cs_max :: real
  cs_worst :: "(string \<times> real) list"
  cs_best :: "(string \<times> real) list"
  cs_below_half :: "string list"

definition rounded :: "(string \<times> real) list \<Rightarrow> (string \<times> real) list" where
  "rounded = map (\<lambda>(n, a). (n, py_round 4 a))"

text \<open>The weakest ten, the strongest ten, and the ends; the dictionary is not empty.\<close>

definition spread_of :: "(string, real) dict \<Rightarrow> class_spread" where
  "spread_of accs =
     (let ranked = sort_key snd accs; values = map snd accs
      in \<lparr>cs_num_classes = length accs, cs_mean = py_round 4 (np_mean values), cs_std = py_round 4 (np_std values),
          cs_min = py_round 4 (snd (hd ranked)), cs_max = py_round 4 (snd (last ranked)),
          cs_worst = rounded (take 10 ranked), cs_best = rounded (rev (drop (length ranked - 10) ranked)),
          cs_below_half = map fst (filter (\<lambda>(n, a). a < 1 / 2) ranked)\<rparr>)"

record classifier_eval =
  ce_num_samples :: nat
  ce_acc_top1 :: real
  ce_acc_top5 :: real
  ce_per_class :: class_spread
  ce_calibration :: calibration

text \<open>\<open>xs[:n]\<close> and \<open>range(0, n, step)\<close> with any integer.\<close>

definition py_head :: "int \<Rightarrow> 'a list \<Rightarrow> 'a list" where
  "py_head n xs = take (if 0 \<le> n then nat n else length xs - nat (- n)) xs"

definition py_chunks :: "int \<Rightarrow> 'a list \<Rightarrow> 'a list list result" where
  "py_chunks n xs =
     (if n = 0 then Inl (PyExc ''ValueError'' ''range() arg 3 must not be zero'')
      else Inr (if n < 0 then [] else slices (nat n) xs))"

definition share :: "('a \<Rightarrow> bool) \<Rightarrow> 'a list \<Rightarrow> nat \<Rightarrow> real" where
  "share P xs n = real (length (filter P xs)) / real n"

definition evaluate_classifier ::
  "string list \<Rightarrow> string list \<Rightarrow> (chw list \<Rightarrow> real list list result) \<Rightarrow> argsort_fn \<Rightarrow> val_image list \<Rightarrow> int \<Rightarrow> int
   \<Rightarrow> classifier_eval result" where
  "evaluate_classifier class_names wnids session argsort all_files samples batch_size =
     (let files = py_head samples all_files
      in res_bind (py_chunks batch_size files) (\<lambda>chunks.
         res_bind (map_res (score_chunk session argsort (class_index wnids)) chunks) (\<lambda>scored.
         let rows = concat scored
         in res_bind (means_by_name class_names (group_by (map (\<lambda>r. (ir_label r, of_bool (ir_correct r))) rows))) (\<lambda>accs.
            if files = [] then Inl zero_division
            else if accs = [] then Inl index_error
            else Inr \<lparr>ce_num_samples = length files, ce_acc_top1 = py_round 4 (share ir_correct rows (length rows)),
                     ce_acc_top5 = py_round 4 (share ir_in_top5 rows (length files)), ce_per_class = spread_of accs,
                     ce_calibration = compute_calibration (map (\<lambda>r. (ir_confidence r, ir_correct r)) rows) calibration_bins\<rparr>))))"

section \<open>Retrieval\<close>

text \<open>Indexing a NumPy array: negative indices count from the end.\<close>

definition np_index :: "'a list \<Rightarrow> int \<Rightarrow> 'a result" where
  "np_index xs i =
     (if 0 \<le> i \<and> i < int (length xs) then Inr (xs ! nat i)
      else if i < 0 \<and> - int (length xs) \<le> i then Inr (xs ! nat (int (length xs) + i))
      else Inl index_error)"

definition hits_at :: "nat \<Rightarrow> int \<Rightarrow> int list \<Rightarrow> real" where
  "hits_at k truth retrieved = real (length (filter (\<lambda>l. l = truth) (take k retrieved))) / real k"

text \<open>A query: its class, and the labels of its ten neighbours. \<open>search\<close> gives the neighbours of each
  embedding.\<close>

definition query_chunk ::
  "(chw list \<Rightarrow> real list list result) \<Rightarrow> (real list list \<Rightarrow> nat \<Rightarrow> int list list) \<Rightarrow> (string, nat) dict \<Rightarrow> int list
   \<Rightarrow> val_image list \<Rightarrow> (nat \<times> int list) list result" where
  "query_chunk session search idx index_labels chunk =
     res_bind (map_res snd chunk) (\<lambda>arrays.
     res_bind (stack_batch arrays) (\<lambda>batch.
     res_bind (session batch) (\<lambda>embeddings.
     map_res (\<lambda>(x, neighbours).
       res_bind (true_label idx x) (\<lambda>truth.
       res_bind (map_res (np_index index_labels) neighbours) (\<lambda>retrieved. Inr (truth, retrieved))))
       (zip chunk (search embeddings 10)))))"

record similarity_eval =
  se_num_queries :: nat
  se_index_size :: int
  se_precision_at_1 :: real
  se_precision_at_5 :: real
  se_precision_at_10 :: real
  se_classes_evaluated :: nat
  se_mean :: real
  se_std :: real
  se_worst :: "(string \<times> real) list"
  se_best :: "(string \<times> real) list"

definition precision_at :: "nat \<Rightarrow> (nat \<times> int list) list \<Rightarrow> nat \<Rightarrow> real" where
  "precision_at k rows n = sum_list (map (\<lambda>(t, ls). hits_at k (int t) ls) rows) / real n"

text \<open>\<open>chosen\<close> is what the generator chooses without replacement.\<close>

definition evaluate_similarity ::
  "string list \<Rightarrow> string list \<Rightarrow> (chw list \<Rightarrow> real list list result) \<Rightarrow> (real list list \<Rightarrow> nat \<Rightarrow> int list list) \<Rightarrow> int list \<Rightarrow> int
   \<Rightarrow> (nat \<Rightarrow> int \<Rightarrow> nat list result) \<Rightarrow> val_image list \<Rightarrow> int \<Rightarrow> int \<Rightarrow> similarity_eval result" where
  "evaluate_similarity class_names wnids session search index_labels ntotal choice all_files queries batch_size =
     res_bind (choice (length all_files) (min queries (int (length all_files)))) (\<lambda>chosen.
     let files = map (nth all_files) (sort chosen)
     in res_bind (py_chunks batch_size files) (\<lambda>chunks.
        res_bind (map_res (query_chunk session search (class_index wnids) index_labels) chunks) (\<lambda>scored.
        let rows = concat scored
        in res_bind (means_by_name class_names (group_by (map (\<lambda>(t, ls). (t, hits_at 5 (int t) ls)) rows))) (\<lambda>per_class.
           let ranked = sort_key snd per_class; values = map snd per_class; n = length files
           in if files = [] then Inl zero_division
              else Inr \<lparr>se_num_queries = n, se_index_size = ntotal,
                       se_precision_at_1 = py_round 4 (precision_at 1 rows n), se_precision_at_5 = py_round 4 (precision_at 5 rows n),
                       se_precision_at_10 = py_round 4 (precision_at 10 rows n), se_classes_evaluated = length per_class,
                       se_mean = py_round 4 (np_mean values), se_std = py_round 4 (np_std values),
                       se_worst = rounded (take 10 ranked), se_best = rounded (rev (drop (length ranked - 10) ranked))\<rparr>))))"

section \<open>The report\<close>

datatype eval_section = Classifier_Section classifier_eval | Similarity_Section similarity_eval | Other_Section pyval

text \<open>\<open>main\<close>: \<open>existing\<close> is the report on disk, if there is one, or why it cannot be read; without an index
  there is no similarity section to add. The result is the report written.\<close>

definition evaluate_main ::
  "(string, eval_section) dict result option \<Rightarrow> bool \<Rightarrow> bool \<Rightarrow> classifier_eval result \<Rightarrow> similarity_eval option result
   \<Rightarrow> (string, eval_section) dict result" where
  "evaluate_main existing skip_classifier skip_similarity classified retrieved =
     res_bind (case existing of
         None \<Rightarrow> Inr []
       | Some (Inr report) \<Rightarrow> Inr report
       | Some (Inl (PyExc cls m)) \<Rightarrow> if cls = ''JSONDecodeError'' then Inr [] else Inl (PyExc cls m)
       | Some (Inl (ApiExc e)) \<Rightarrow> Inl (ApiExc e)) (\<lambda>report.
     res_bind (if \<not> skip_classifier then map_sum id (\<lambda>c. dict_set ''classifier'' (Classifier_Section c) report) classified
               else if dict_get report ''classifier'' = None
               then Inl (PyExc ''SystemExit'' ''No classifier section in the existing report. Re-run without --skip-classifier.'')
               else Inr report) (\<lambda>report.
     if skip_similarity then Inr report
     else res_bind retrieved (\<lambda>similarity.
       Inr (case similarity of Some s \<Rightarrow> dict_set ''similarity'' (Similarity_Section s) report | None \<Rightarrow> report))))"

section \<open>Fidelity of exports\<close>

definition tolerances :: "(string, real) dict" where
  "tolerances = [(''classifier'', 1 / 10 ^ 4), (''embedder'', 1 / 10 ^ 4), (''detector'', 1 / 10 ^ 3)]"

text \<open>The newest run directory with a configuration: name, modification time, whether it has one, and
  the run.\<close>

definition newest_run :: "string \<Rightarrow> (int \<times> bool \<times> train_run) list \<Rightarrow> train_run result" where
  "newest_run runs_dir runs =
     (case filter (\<lambda>(t, config, run). config) runs of
        [] \<Rightarrow> Inl (PyExc ''SystemExit'' (''No training runs under '' @ runs_dir @ ''. Train a model first:'' @ [CHR 0x0A]
               @ ''  uv run python -m models.training.train''))
      | c # cs \<Rightarrow> Inr (snd (snd (foldl (\<lambda>best r. if fst best < fst r then r else best) c cs))))"

datatype export_check = Check_Error string | Check_Done real real bool

fun within_tolerance :: "export_check \<Rightarrow> bool" where
  "within_tolerance (Check_Error m) = False"
| "within_tolerance (Check_Done d tolerance ok) = ok"

text \<open>What ONNX Runtime makes of a path: the graph there, or why it cannot be loaded.\<close>

type_synonym loader = "store \<Rightarrow> path \<Rightarrow> graph result"

definition compare_with :: "tracer result \<Rightarrow> graph result \<Rightarrow> real result" where
  "compare_with source g = res_bind source (\<lambda>tc. res_bind g (verify_onnx_equivalence tc))"

definition export_sources :: "publish_env \<Rightarrow> train_run \<Rightarrow> (string \<times> tracer result) list" where
  "export_sources env run =
     [(''classifier'', tr_classifier run), (''embedder'', tr_embedder run),
      (''detector'', map_sum id fst (pe_detector env None))]"

fun exc_class_name :: "exc_class \<Rightarrow> string" where
  "exc_class_name APIError = ''APIError''"
| "exc_class_name ValidationError = ''ValidationError''"
| "exc_class_name InvalidImageError = ''InvalidImageError''"
| "exc_class_name UnsupportedFormatError = ''UnsupportedFormatError''"
| "exc_class_name PayloadTooLargeError = ''PayloadTooLargeError''"
| "exc_class_name BatchTooLargeError = ''BatchTooLargeError''"
| "exc_class_name AuthenticationError = ''AuthenticationError''"
| "exc_class_name AuthorizationError = ''AuthorizationError''"
| "exc_class_name RateLimitExceededError = ''RateLimitExceededError''"
| "exc_class_name ModelNotFoundError = ''ModelNotFoundError''"
| "exc_class_name JobNotFoundError = ''JobNotFoundError''"
| "exc_class_name InferenceError = ''InferenceError''"
| "exc_class_name ModelUnavailableError = ''ModelUnavailableError''"
| "exc_class_name ServiceUnavailableError = ''ServiceUnavailableError''"

fun exn_class_name :: "exn \<Rightarrow> string" where
  "exn_class_name (PyExc cls m) = cls"
| "exn_class_name (ApiExc e) = exc_class_name (err_class e)"

definition check_export :: "loader \<Rightarrow> store \<Rightarrow> path \<Rightarrow> string \<times> tracer result \<Rightarrow> (string \<times> export_check) list" where
  "check_export load S onnx_dir src =
     (let path = onnx_dir @ [fst src @ ''_fp32.onnx'']
      in if \<not> file_exists S path then []
         else
           (case compare_with (snd src) (load S path) of
              Inl e \<Rightarrow> [(fst src, Check_Error (take 200 (exn_class_name e @ '': '' @ exn_str e)))]
            | Inr d \<Rightarrow> (let tolerance = the (dict_get tolerances (fst src)) in [(fst src, Check_Done d tolerance (d \<le> tolerance))])))"

definition verify_exports ::
  "publish_env \<Rightarrow> loader \<Rightarrow> store \<Rightarrow> path \<Rightarrow> string \<Rightarrow> (int \<times> bool \<times> train_run) list \<Rightarrow> bool
   \<Rightarrow> ((string \<times> export_check) list \<times> int) result" where
  "verify_exports env load S art runs_dir runs check =
     (let onnx_dir = art @ [''onnx'']
      in if onnx_dir \<notin> set (sr_dirs S)
         then Inl (PyExc ''SystemExit'' (''No artefacts under '' @ path_str onnx_dir @ ''. Build them with:'' @ [CHR 0x0A]
                @ ''  uv run python scripts/prepare_artifacts.py --all-models''))
         else res_bind (newest_run runs_dir runs) (\<lambda>run.
           let checks = concat (map (check_export load S onnx_dir) (export_sources env run));
               failed = filter (\<lambda>(n, c). \<not> within_tolerance c) checks
           in Inr (checks, if checks = [] then (if check then 1 else 0) else if failed \<noteq> [] then (if check then 1 else 0) else 0)))"

section \<open>Bins\<close>

lemma filter_upt_card: "length (filter P [0..<n]) = card {i. i < n \<and> P i}"
proof -
  have "length (filter P [0..<n]) = card (set (filter P [0..<n]))" by (rule distinct_card [symmetric]) simp
  also have "set (filter P [0..<n]) = {i. i < n \<and> P i}" by auto
  finally show ?thesis .
qed

lemma bin_index:
  assumes "0 < bins" shows "bin_edge bins i < c \<and> c \<le> bin_edge bins (Suc i) \<longleftrightarrow> int i = \<lceil>c * real bins\<rceil> - 1"
proof -
  have "bin_edge bins i < c \<longleftrightarrow> real i < c * real bins" "c \<le> bin_edge bins (Suc i) \<longleftrightarrow> c * real bins \<le> real i + 1"
    using assms by (simp_all add: bin_edge_def field_simps)
  then show ?thesis by linarith
qed

text \<open>A confidence above zero is in one bin, and in a second one when it is the lower edge of the last.\<close>

lemma bins_of:
  assumes "0 < bins" "0 \<le> fst x" "fst x \<le> 1"
  shows "length (filter (\<lambda>i. in_bin bins i x) [0..<bins]) = of_bool (fst x \<noteq> 0) + of_bool (fst x = bin_edge bins (bins - 1))"
proof -
  define c where "c = fst x"
  define k where "k = \<lceil>c * real bins\<rceil> - 1"
  define e where "e \<longleftrightarrow> c = bin_edge bins (bins - 1)"
  have c: "0 \<le> c" "c \<le> 1" using assms by (simp_all add: c_def)
  have "c * real bins \<le> real bins" using mult_right_mono [OF c(2), of "real bins"] by simp
  then have range: "k < int bins" unfolding k_def by linarith
  have "c = 0 \<longleftrightarrow> c * real bins \<le> 0" using c assms(1) by (simp add: mult_le_0_iff)
  then have zero: "c = 0 \<longleftrightarrow> k < 0" unfolding k_def by linarith
  have last: "int (bins - 1) \<noteq> k" if e
  proof -
    have "c * real bins = real (bins - 1)" using that assms(1) by (simp add: bin_edge_def e_def)
    then show ?thesis unfolding k_def by linarith
  qed
  have "in_bin bins i x \<longleftrightarrow> int i = k \<or> i = bins - 1 \<and> e" if "i < bins" for i
  proof -
    have "Suc i = bins \<longleftrightarrow> i = bins - 1" using assms(1) by linarith
    moreover have "i = bins - 1 \<Longrightarrow> fst x = bin_edge bins i \<longleftrightarrow> e" by (simp add: e_def c_def)
    ultimately show ?thesis unfolding in_bin_def bin_index [OF assms(1)] k_def c_def by blast
  qed
  then have "{i. i < bins \<and> in_bin bins i x} = {i. i < bins \<and> int i = k} \<union> (if e then {bins - 1} else {})"
    using assms(1) by auto
  also have "{i. i < bins \<and> int i = k} = (if k < 0 then {} else {nat k})" using range by auto
  finally have "card {i. i < bins \<and> in_bin bins i x} = of_bool (\<not> k < 0) + of_bool e"
    using last by (cases "k < 0"; cases e) (auto simp: card_insert_if)
  then show ?thesis unfolding filter_upt_card zero [symmetric] e_def c_def by simp
qed

lemma sum_exchange:
  "sum_list (map (\<lambda>i. sum_list (map f (filter (P i) xs))) js)
   = sum_list (map (\<lambda>x. f x * real (length (filter (\<lambda>i. P i x) js))) xs)"
proof (induction xs)
  case (Cons x xs)
  have "sum_list (map (\<lambda>i. sum_list (map f (filter (P i) (x # xs)))) js)
      = sum_list (map (\<lambda>i. (if P i x then f x else 0) + sum_list (map f (filter (P i) xs))) js)"
    by (rule arg_cong [where f = sum_list], rule map_cong) auto
  also have "\<dots> = sum_list (map (\<lambda>i. if P i x then f x else 0) js) + sum_list (map (\<lambda>i. sum_list (map f (filter (P i) xs))) js)"
    by (rule sum_list_addf)
  also have "sum_list (map (\<lambda>i. if P i x then f x else 0) js) = f x * real (length (filter (\<lambda>i. P i x) js))"
    by (induction js) (auto simp: algebra_simps)
  finally show ?case using Cons by simp
qed simp

lemma sum_filled:
  assumes "\<And>i. g i [] = (0 :: real)"
  shows "sum_list (map (\<lambda>(i, ys). g i ys) (filled_bins bins xs)) = sum_list (map (\<lambda>i. g i (filter (in_bin bins i) xs)) [0..<bins])"
proof -
  have "sum_list (map (\<lambda>(i, ys). g i ys) (filter (\<lambda>(i, ys). ys \<noteq> []) zs)) = sum_list (map (\<lambda>(i, ys). g i ys) zs)" for zs
    using assms by (induction zs) auto
  then show ?thesis unfolding filled_bins_def by (simp add: comp_def)
qed

definition misfit :: "confident \<Rightarrow> real" where
  "misfit x = fst x - of_bool (snd x)"

lemma mean_misfit: "confidence_of ys - accuracy_of ys = sum_list (map misfit ys) / real (length ys)"
proof -
  have "sum_list (map misfit ys) = sum_list (map fst ys) - sum_list (map (\<lambda>x. of_bool (snd x)) ys)"
    unfolding misfit_def by (induction ys) simp_all
  then show ?thesis by (simp add: confidence_of_def accuracy_of_def np_mean_def diff_divide_distrib)
qed

lemma sum_map_divide: "sum_list (map (\<lambda>i. f i / c) js) = sum_list (map f js) / (c :: real)"
  by (induction js) (simp_all add: add_divide_distrib)

lemma calibration_error_misfit:
  "calibration_error bins xs = sum_list (map (\<lambda>i. \<bar>sum_list (map misfit (filter (in_bin bins i) xs))\<bar>) [0..<bins]) / real (length xs)"
proof -
  have "real (length ys) / n * \<bar>confidence_of ys - accuracy_of ys\<bar> = \<bar>sum_list (map misfit ys)\<bar> / n" for ys n
    unfolding mean_misfit by (cases ys) (simp_all add: abs_divide)
  then have "calibration_error bins xs = sum_list (map (\<lambda>(i, ys). \<bar>sum_list (map misfit ys)\<bar> / real (length xs)) (filled_bins bins xs))"
    unfolding calibration_error_def by (simp only: case_prod_unfold)
  also have "\<dots> = sum_list (map (\<lambda>i. \<bar>sum_list (map misfit (filter (in_bin bins i) xs))\<bar> / real (length xs)) [0..<bins])"
    by (rule sum_filled) simp
  also have "\<dots> = sum_list (map (\<lambda>i. \<bar>sum_list (map misfit (filter (in_bin bins i) xs))\<bar>) [0..<bins]) / real (length xs)"
    by (rule sum_map_divide)
  finally show ?thesis .
qed

lemma sum_list_abs_real: "\<bar>sum_list zs\<bar> \<le> sum_list (map abs (zs :: real list))"
  by (induction zs) auto

lemma round_half_even_minus: "round_half_even (- x) = - round_half_even x"
proof (cases "x = of_int \<lfloor>x\<rfloor>")
  case True
  then show ?thesis by (metis of_int_minus round_half_even_of_int)
next
  case False
  then have "\<lceil>x\<rceil> = \<lfloor>x\<rfloor> + 1" by (simp add: ceiling_altdef)
  then have f: "\<lfloor>- x\<rfloor> = - \<lfloor>x\<rfloor> - 1" by (simp add: floor_minus)
  show ?thesis unfolding round_half_even_def Let_def f by auto
qed

lemma py_round_minus: "py_round n (- x) = - py_round n x"
  by (simp add: py_round_def round_half_even_minus)

lemma py_round_abs_le: "\<bar>x\<bar> \<le> y \<Longrightarrow> \<bar>py_round n x\<bar> \<le> py_round n y"
  using py_round_mono [of x y n] py_round_mono [of "- x" y n] by (auto simp: py_round_minus abs_le_iff)

lemma partition_sum:
  fixes f :: "confident \<Rightarrow> real"
  assumes "0 < bins" "\<forall>x \<in> set xs. 0 < fst x \<and> fst x \<le> 1 \<and> fst x \<noteq> bin_edge bins (bins - 1)"
  shows "sum_list (map (\<lambda>i. sum_list (map f (filter (in_bin bins i) xs))) [0..<bins]) = sum_list (map f xs)"
proof -
  have "length (filter (\<lambda>i. in_bin bins i x) [0..<bins]) = 1" if "x \<in> set xs" for x
    using bins_of [OF assms(1), of x] assms(2) that by fastforce
  then have "map (\<lambda>x. f x * real (length (filter (\<lambda>i. in_bin bins i x) [0..<bins]))) xs = map f xs" by simp
  then show ?thesis unfolding sum_exchange by (rule arg_cong)
qed

lemma calibration_error_bounds:
  assumes bins: "0 < bins" and xs: "xs \<noteq> []"
    and inner: "\<forall>x \<in> set xs. 0 < fst x \<and> fst x \<le> 1 \<and> fst x \<noteq> bin_edge bins (bins - 1)"
  shows "\<bar>confidence_of xs - accuracy_of xs\<bar> \<le> calibration_error bins xs" "calibration_error bins xs \<le> 1"
proof -
  let ?b = "\<lambda>i. filter (in_bin bins i) xs"
  have n: "0 < real (length xs)" using xs by simp
  have "\<bar>sum_list (map misfit xs)\<bar> = \<bar>sum_list (map (\<lambda>i. sum_list (map misfit (?b i))) [0..<bins])\<bar>"
    by (simp add: partition_sum [OF bins inner])
  also have "\<dots> \<le> sum_list (map (\<lambda>i. \<bar>sum_list (map misfit (?b i))\<bar>) [0..<bins])"
    using sum_list_abs_real [of "map (\<lambda>i. sum_list (map misfit (?b i))) [0..<bins]"] by (simp add: comp_def)
  finally show "\<bar>confidence_of xs - accuracy_of xs\<bar> \<le> calibration_error bins xs"
    unfolding calibration_error_misfit mean_misfit abs_divide using n by (simp add: divide_right_mono)
  have one: "\<bar>misfit x\<bar> \<le> 1" if "x \<in> set xs" for x using inner that by (fastforce simp: misfit_def)
  have "\<bar>sum_list (map misfit ys)\<bar> \<le> sum_list (map (\<lambda>_. 1) ys)" if "set ys \<subseteq> set xs" for ys
    using that by (induction ys) (use one in fastforce)+
  then have "sum_list (map (\<lambda>i. \<bar>sum_list (map misfit (?b i))\<bar>) [0..<bins]) \<le> sum_list (map (\<lambda>i. sum_list (map (\<lambda>_. 1) (?b i))) [0..<bins])"
    by (intro sum_list_mono) auto
  also have "\<dots> = sum_list (map (\<lambda>_. 1) xs)" by (rule partition_sum [OF bins inner])
  also have "\<dots> = real (length xs)" by (induction xs) simp_all
  finally show "calibration_error bins xs \<le> 1" unfolding calibration_error_misfit using n by simp
qed

lemma bin_counts:
  assumes "0 < bins" "\<forall>x \<in> set xs. 0 \<le> fst x \<and> fst x \<le> 1"
  shows "sum_list (map (\<lambda>(i, ys). length ys) (filled_bins bins xs)) + length (filter (\<lambda>x. fst x = 0) xs)
    = length xs + length (filter (\<lambda>x. fst x = bin_edge bins (bins - 1)) xs)"
proof -
  have "real (sum_list (map (\<lambda>(i, ys). length ys) zs)) = sum_list (map (\<lambda>(i, ys). real (length ys)) zs)" for zs :: "(nat \<times> confident list) list"
    by (induction zs) auto
  then have "real (sum_list (map (\<lambda>(i, ys). length ys) (filled_bins bins xs)))
      = sum_list (map (\<lambda>i. real (length (filter (in_bin bins i) xs))) [0..<bins])"
    using sum_filled [of "\<lambda>i ys. real (length ys)" bins xs] by simp
  also have "\<dots> = sum_list (map (\<lambda>i. sum_list (map (\<lambda>_. 1) (filter (in_bin bins i) xs))) [0..<bins])"
    by (simp add: sum_list_triv)
  also have "\<dots> = sum_list (map (\<lambda>x. of_bool (fst x \<noteq> 0) + of_bool (fst x = bin_edge bins (bins - 1))) xs)"
    unfolding sum_exchange using bins_of [OF assms(1)] assms(2) by (intro arg_cong [where f = sum_list] map_cong) auto
  also have "\<dots> + real (length (filter (\<lambda>x. fst x = 0) xs)) = real (length xs) + real (length (filter (\<lambda>x. fst x = bin_edge bins (bins - 1)) xs))"
    by (induction xs) auto
  finally show ?thesis by linarith
qed

text \<open>C24. The calibration table accounts for the predictions, and the error bounds the overconfidence.
  The counts of the bins add up to the number of predictions, except that a confidence of zero is in
  no bin and one at the lower edge of the last bin is in two. When there are none of these, the
  calibration error is between zero and one and at least the size of the overconfidence.\<close>

theorem calibration_sound:
  assumes "0 < bins" "xs \<noteq> []" "\<forall>x \<in> set xs. 0 \<le> fst x \<and> fst x \<le> 1"
  shows "sum_list (map rr_count (cb_bins (compute_calibration xs bins))) + length (filter (\<lambda>x. fst x = 0) xs)
      = length xs + length (filter (\<lambda>x. fst x = bin_edge bins (bins - 1)) xs)
    \<and> ((\<forall>x \<in> set xs. fst x \<noteq> 0 \<and> fst x \<noteq> bin_edge bins (bins - 1)) \<longrightarrow>
        0 \<le> cb_error (compute_calibration xs bins) \<and> cb_error (compute_calibration xs bins) \<le> 1
        \<and> \<bar>cb_overconfidence (compute_calibration xs bins)\<bar> \<le> cb_error (compute_calibration xs bins))"
proof (intro conjI impI)
  have "map rr_count (cb_bins (compute_calibration xs bins)) = map (\<lambda>(i, ys). length ys) (filled_bins bins xs)"
    by (simp add: compute_calibration_def reliability_def comp_def case_prod_unfold)
  then show "sum_list (map rr_count (cb_bins (compute_calibration xs bins))) + length (filter (\<lambda>x. fst x = 0) xs)
      = length xs + length (filter (\<lambda>x. fst x = bin_edge bins (bins - 1)) xs)"
    using bin_counts [OF assms(1, 3)] by simp
next
  assume "\<forall>x \<in> set xs. fst x \<noteq> 0 \<and> fst x \<noteq> bin_edge bins (bins - 1)"
  with assms(3) have "\<forall>x \<in> set xs. 0 < fst x \<and> fst x \<le> 1 \<and> fst x \<noteq> bin_edge bins (bins - 1)" by fastforce
  note b = calibration_error_bounds [OF assms(1, 2) this]
  show "\<bar>cb_overconfidence (compute_calibration xs bins)\<bar> \<le> cb_error (compute_calibration xs bins)"
    using py_round_abs_le [OF b(1)] by (simp add: compute_calibration_def)
  then show "0 \<le> cb_error (compute_calibration xs bins)" by linarith
  show "cb_error (compute_calibration xs bins) \<le> 1"
    using py_round_mono [OF b(2), of 4] by (simp add: compute_calibration_def)
qed

theorem calibration_sound_witness:
  "\<bar>cb_overconfidence (compute_calibration [(95 / 100, True), (3 / 10, False)] 10)\<bar>
     \<le> cb_error (compute_calibration [(95 / 100, True), (3 / 10, False)] 10)
   \<and> sum_list (map rr_count (cb_bins (compute_calibration [(95 / 100, True), (3 / 10, False)] 10))) = 2"
  using calibration_sound [of 10 "[(95 / 100, True), (3 / 10, False)]"] by (simp add: bin_edge_def)

text \<open>One prediction at the lower edge of the last bin: it is counted twice, and the error exceeds one.\<close>

lemma edge_counted_twice:
  "sum_list (map rr_count (cb_bins (compute_calibration [(9 / 10, False)] 10))) = 2"
  "calibration_error 10 [(9 / 10, False)] = 18 / 10"
proof -
  have u: "[0..<10] = [0, 1, 2, 3, 4, 5, 6, 7, 8, 9 :: nat]" by (simp add: upt_rec)
  have f: "filled_bins 10 [(9 / 10, False)] = [(8, [(9 / 10, False)]), (9, [(9 / 10, False)])]"
    by (simp add: filled_bins_def u in_bin_def bin_edge_def)
  show "sum_list (map rr_count (cb_bins (compute_calibration [(9 / 10, False)] 10))) = 2"
    by (simp add: compute_calibration_def f reliability_def)
  show "calibration_error 10 [(9 / 10, False)] = 18 / 10"
    by (simp add: calibration_error_def f confidence_of_def accuracy_of_def np_mean_def)
qed

section \<open>The classifier section\<close>

text \<open>What the evaluation makes of one image whose preprocessing succeeds, with a session that gives
  \<open>one a\<close> for each image of a batch.\<close>

definition score_one :: "argsort_fn \<Rightarrow> (string, nat) dict \<Rightarrow> (chw \<Rightarrow> real list) \<Rightarrow> val_image \<Rightarrow> image_row" where
  "score_one argsort idx one x =
     score_image argsort (the (dict_get idx (fst x))) (softmax (one (projr (snd x))))"

definition readable :: "(string, nat) dict \<Rightarrow> nat list list \<Rightarrow> val_image \<Rightarrow> bool" where
  "readable idx sh x \<longleftrightarrow> (\<exists>a. snd x = Inr a \<and> chw_shape a = sh) \<and> dict_get idx (fst x) \<noteq> None"

lemma score_chunk_rows:
  assumes session: "\<And>as. session as = Inr (map one as)" and ok: "\<forall>x \<in> set chunk. readable idx sh x" and ne: "chunk \<noteq> []"
  shows "score_chunk session argsort idx chunk = Inr (map (score_one argsort idx one) chunk)"
proof -
  have arrays: "map_res snd chunk = Inr (map (projr \<circ> snd) chunk)"
    using ok by (intro map_res_all_Inr) (auto simp: readable_def)
  have truth: "map_res (true_label idx) chunk = Inr (map (\<lambda>x. the (dict_get idx (fst x))) chunk)"
    using ok by (intro map_res_all_Inr) (auto simp: readable_def true_label_def)
  have "chw_shape (projr (snd x)) = sh" if "x \<in> set chunk" for x using ok that by (auto simp: readable_def)
  then have stack: "stack_batch (map (projr \<circ> snd) chunk) = Inr (map (projr \<circ> snd) chunk)"
    using ne by (cases chunk) (auto simp: stack_batch_def list_all_iff)
  show ?thesis
    unfolding score_chunk_def arrays res_bind.simps stack session truth
    by (simp add: zip_map_map comp_def score_one_def) (induction chunk; simp add: score_one_def)
qed

lemma map_res_slices:
  assumes "\<And>c. set c \<subseteq> set xs \<Longrightarrow> c \<noteq> [] \<Longrightarrow> f c = Inr (map g c)"
  shows "map_res f (slices n xs) = Inr (map (map g) (slices n xs))"
  using assms
proof (induction n xs rule: slices.induct)
  case (1 n xs)
  show ?case
  proof (cases "n = 0 \<or> xs = []")
    case True
    then show ?thesis by (simp add: slices.simps)
  next
    case False
    have "f (take n xs) = Inr (map g (take n xs))" using False by (intro 1(2)) (auto dest: in_set_takeD)
    moreover have "map_res f (slices n (drop n xs)) = Inr (map (map g) (slices n (drop n xs)))"
      using False by (intro 1(1)) (auto intro!: 1(2) dest: in_set_dropD)
    ultimately show ?thesis using False by (simp add: slices.simps [of n xs])
  qed
qed

lemma scored_rows:
  assumes session: "\<And>as. session as = Inr (map one as)" and ok: "\<forall>x \<in> set files. readable idx sh x" and n: "0 < n"
  shows "\<exists>chunks scored. py_chunks n files = Inr chunks \<and> map_res (score_chunk session argsort idx) chunks = Inr scored
    \<and> concat scored = map (score_one argsort idx one) files"
proof -
  have "score_chunk session argsort idx c = Inr (map (score_one argsort idx one) c)" if "set c \<subseteq> set files" "c \<noteq> []" for c
    using score_chunk_rows [OF session, of c idx sh argsort] ok that by blast
  from map_res_slices [OF this]
  have "map_res (score_chunk session argsort idx) (slices (nat n) files) = Inr (map (map (score_one argsort idx one)) (slices (nat n) files))" .
  moreover have "concat (map (map (score_one argsort idx one)) (slices (nat n) files)) = map (score_one argsort idx one) files"
    using concat_slices [of "nat n" files] n by (simp add: map_concat [symmetric])
  ultimately show ?thesis using n by (simp add: py_chunks_def)
qed

lemma guarded_Inr:
  "res_bind r (\<lambda>xs. if c then Inl e else if xs = [] then Inl e' else Inr (f xs)) = Inr y
   \<Longrightarrow> \<exists>xs. \<not> c \<and> xs \<noteq> [] \<and> y = f xs"
  by (cases r) (auto split: if_splits)

text \<open>The classifier section describes the images and not the batching: for readable images of one
  shape whose classes are known, every positive batch size gives the same section, whose accuracies
  are the rounded shares of the first \<open>samples\<close> images that the model gets right, first and among its
  five best, and whose calibration is that of the same predictions.\<close>

theorem classifier_eval_exact:
  assumes session: "\<And>as. session as = Inr (map one as)"
    and ok: "\<forall>x \<in> set (py_head samples all_files). readable (class_index wnids) sh x" and n: "0 < batch_size"
    and run: "evaluate_classifier class_names wnids session argsort all_files samples batch_size = Inr ev"
  shows "let files = py_head samples all_files; rows = map (score_one argsort (class_index wnids) one) files
    in ce_num_samples ev = length files \<and> files \<noteq> []
      \<and> ce_acc_top1 ev = py_round 4 (share ir_correct rows (length files))
      \<and> ce_acc_top5 ev = py_round 4 (share ir_in_top5 rows (length files))
      \<and> ce_calibration ev = compute_calibration (map (\<lambda>r. (ir_confidence r, ir_correct r)) rows) calibration_bins
      \<and> (\<forall>m > 0. evaluate_classifier class_names wnids session argsort all_files samples m = Inr ev)"
proof -
  let ?files = "py_head samples all_files" and ?idx = "class_index wnids"
  let ?rows = "map (score_one argsort ?idx one) ?files"
  let ?groups = "means_by_name class_names (group_by (map (\<lambda>r. (ir_label r, of_bool (ir_correct r))) ?rows))"
  have eval: "evaluate_classifier class_names wnids session argsort all_files samples m =
      res_bind ?groups (\<lambda>accs.
        if ?files = [] then Inl zero_division else if accs = [] then Inl index_error
        else Inr \<lparr>ce_num_samples = length ?files, ce_acc_top1 = py_round 4 (share ir_correct ?rows (length ?rows)),
                 ce_acc_top5 = py_round 4 (share ir_in_top5 ?rows (length ?files)), ce_per_class = spread_of accs,
                 ce_calibration = compute_calibration (map (\<lambda>r. (ir_confidence r, ir_correct r)) ?rows) calibration_bins\<rparr>)"
    if m: "0 < m" for m
  proof -
    obtain chunks scored where c: "py_chunks m ?files = Inr chunks" "map_res (score_chunk session argsort ?idx) chunks = Inr scored"
      "concat scored = ?rows"
      using scored_rows [OF session ok m, of argsort] by blast
    show ?thesis unfolding evaluate_classifier_def Let_def c res_bind.simps ..
  qed
  obtain accs where ev: "?files \<noteq> []" "accs \<noteq> []"
    "ev = \<lparr>ce_num_samples = length ?files, ce_acc_top1 = py_round 4 (share ir_correct ?rows (length ?rows)),
       ce_acc_top5 = py_round 4 (share ir_in_top5 ?rows (length ?files)), ce_per_class = spread_of accs,
       ce_calibration = compute_calibration (map (\<lambda>r. (ir_confidence r, ir_correct r)) ?rows) calibration_bins\<rparr>"
    using guarded_Inr [OF run [unfolded eval [OF n]]] by (elim exE conjE) (rule that)
  have "\<forall>m > 0. evaluate_classifier class_names wnids session argsort all_files samples m = Inr ev"
  proof (intro allI impI)
    fix m :: int assume m: "0 < m"
    from run show "evaluate_classifier class_names wnids session argsort all_files samples m = Inr ev"
      unfolding eval [OF n] eval [OF m] .
  qed
  then show ?thesis unfolding Let_def ev(3) using ev(1) by (simp only: classifier_eval.simps length_map) simp
qed

text \<open>Classes with the same display name are one entry of the table, with the accuracy of the later one.\<close>

lemma equal_names_merge:
  "means_by_name [''crane'', ''crane''] [(0, [0, 0]), (1, [1])] = Inr [(''crane'', 1)]"
  by (simp add: means_by_name_def np_mean_def)

section \<open>Retrieval figures\<close>

lemma hits_bounds: "0 < k \<Longrightarrow> 0 \<le> hits_at k t ls \<and> hits_at k t ls \<le> 1"
proof -
  assume "0 < k"
  have "length (filter (\<lambda>l. l = t) (take k ls)) \<le> length (take k ls)" by (rule length_filter_le)
  also have "\<dots> \<le> k" by simp
  finally show ?thesis using \<open>0 < k\<close> by (simp add: hits_at_def)
qed

lemma precision_bounds:
  assumes "0 < k" "length rows = n" shows "0 \<le> precision_at k rows n \<and> precision_at k rows n \<le> 1"
proof -
  have "0 \<le> sum_list (map (\<lambda>(t, ls). hits_at k (int t) ls) rows) \<and> sum_list (map (\<lambda>(t, ls). hits_at k (int t) ls) rows) \<le> real (length rows)"
    using hits_bounds [OF assms(1)] by (induction rows) (auto intro: add_mono add_nonneg_nonneg simp: add.commute)
  then show ?thesis using assms(2) by (cases "n = 0") (auto simp: precision_at_def divide_le_eq_1)
qed

text \<open>FAISS pads the neighbours of an index with fewer than ten vectors with \<open>-1\<close>, which NumPy reads as the
  last entry: a hit for every place it fills.\<close>

lemma padding_counts_last: "labels \<noteq> [] \<Longrightarrow> np_index labels (- 1) = Inr (last labels)"
  by (cases labels) (auto simp: np_index_def last_conv_nth nat_diff_distrib)

lemma padding_inflates:
  "map_res (np_index [7, 3]) (1 # 0 # replicate 8 (- 1)) = Inr (3 # 7 # replicate 8 3)"
  "hits_at 10 3 (3 # 7 # replicate 8 3) = 9 / 10"
  by (simp_all add: np_index_def hits_at_def numeral_eq_Suc)

section \<open>The report at hand\<close>

text \<open>Re-measuring keeps what is not measured. A report that is written always has a classifier
  section: the one just measured, or with \<open>--skip-classifier\<close> the one the report already had. The
  similarity section changes only when retrieval was measured, and no other section changes.\<close>

theorem report_keeps_sections:
  assumes "evaluate_main (Some (Inr report)) skip_classifier skip_similarity classified retrieved = Inr written"
  shows "(if skip_classifier then dict_get written ''classifier'' = dict_get report ''classifier''
        else \<exists>c. classified = Inr c \<and> dict_get written ''classifier'' = Some (Classifier_Section c))
    \<and> dict_get written ''classifier'' \<noteq> None
    \<and> (dict_get written ''similarity'' = dict_get report ''similarity''
        \<or> (\<exists>s. \<not> skip_similarity \<and> retrieved = Inr (Some s) \<and> dict_get written ''similarity'' = Some (Similarity_Section s)))
    \<and> (\<forall>k. k \<noteq> ''classifier'' \<and> k \<noteq> ''similarity'' \<longrightarrow> dict_get written k = dict_get report k)"
proof -
  obtain mid where mid: "(if \<not> skip_classifier then map_sum id (\<lambda>c. dict_set ''classifier'' (Classifier_Section c) report) classified
      else if dict_get report ''classifier'' = None
      then Inl (PyExc ''SystemExit'' ''No classifier section in the existing report. Re-run without --skip-classifier.'')
      else Inr report) = Inr mid"
    and last: "(if skip_similarity then Inr mid else res_bind retrieved (\<lambda>similarity.
       Inr (case similarity of Some s \<Rightarrow> dict_set ''similarity'' (Similarity_Section s) mid | None \<Rightarrow> mid))) = Inr written"
    using assms unfolding evaluate_main_def by (auto simp: res_bind_Inr_iff)
  have m: "if skip_classifier then mid = report \<and> dict_get report ''classifier'' \<noteq> None
      else \<exists>c. classified = Inr c \<and> mid = dict_set ''classifier'' (Classifier_Section c) report"
    using mid by (cases classified) (auto split: if_splits)
  have w: "written = mid \<or> (\<exists>s. \<not> skip_similarity \<and> retrieved = Inr (Some s) \<and> written = dict_set ''similarity'' (Similarity_Section s) mid)"
    using last by (cases retrieved) (auto split: if_splits option.splits)
  show ?thesis using m w by (auto simp: dict_get_set split: if_splits)
qed

theorem report_keeps_sections_witness:
  "\<exists>written. evaluate_main (Some (Inr [(''classifier'', Other_Section PNone), (''notes'', Other_Section (PStr ''v1''))])) True False
        (Inl zero_division) (Inr None) = Inr written
     \<and> dict_get written ''classifier'' = Some (Other_Section PNone) \<and> dict_get written ''notes'' = Some (Other_Section (PStr ''v1''))"
proof -
  let ?r = "[(''classifier'', Other_Section PNone), (''notes'', Other_Section (PStr ''v1''))]"
  have run: "evaluate_main (Some (Inr ?r)) True False (Inl zero_division) (Inr None) = Inr ?r" by (simp add: evaluate_main_def)
  from report_keeps_sections [OF this] show ?thesis using run by simp
qed

section \<open>The guard on exports\<close>

lemma check_export_within:
  assumes "(n, c) \<in> set (check_export load S d src)"
  shows "n = fst src \<and> (within_tolerance c \<longleftrightarrow>
    (\<exists>x. c = Check_Done x (the (dict_get tolerances (fst src))) True \<and> x \<le> the (dict_get tolerances (fst src))))"
  using assms by (auto simp: check_export_def Let_def split: if_splits sum.splits)

lemma tolerance_known: "src \<in> set (export_sources env run) \<Longrightarrow> dict_get tolerances (fst src) \<noteq> None"
  unfolding dict_get_None_iff by (auto simp: export_sources_def tolerances_def)

lemma check_export_names:
  "map fst (check_export load S d src) = (if file_exists S (d @ [fst src @ ''_fp32.onnx'']) then [fst src] else [])"
  by (simp add: check_export_def Let_def split: sum.split)

text \<open>The guard on exports passes only when it has verified something: with \<open>--check\<close> it exits with zero
  exactly when at least one graph is there and every graph that is there was compared with its source
  and is within its tolerance; without it, always. Which graphs are reported is decided by the
  artefact directory alone.\<close>

theorem export_guard_exit:
  assumes "verify_exports env load S art runs_dir runs check = Inr (checks, code)"
  shows "(check \<longrightarrow> (code = 0 \<longleftrightarrow> checks \<noteq> [] \<and> (\<forall>(n, c) \<in> set checks. \<exists>d t. c = Check_Done d t True \<and> dict_get tolerances n = Some t \<and> d \<le> t)))
    \<and> (\<not> check \<longrightarrow> code = 0)
    \<and> map fst checks = filter (\<lambda>n. file_exists S (art @ [''onnx'', n @ ''_fp32.onnx''])) [''classifier'', ''embedder'', ''detector'']"
proof -
  obtain run where run: "newest_run runs_dir runs = Inr run"
    using assms by (cases "newest_run runs_dir runs") (auto simp: verify_exports_def Let_def split: if_splits)
  have dir: "art @ [''onnx''] \<in> set (sr_dirs S)"
    using assms by (auto simp: verify_exports_def Let_def split: if_splits)
  define all_checks where "all_checks = concat (map (check_export load S (art @ [''onnx''])) (export_sources env run))"
  have eq: "verify_exports env load S art runs_dir runs check = Inr (all_checks, (if all_checks = [] then (if check then 1 else 0)
       else if filter (\<lambda>(n, c). \<not> within_tolerance c) all_checks \<noteq> [] then (if check then 1 else 0) else 0))"
    unfolding verify_exports_def Let_def run all_checks_def using dir by simp
  have eqs: "all_checks = checks \<and> (if all_checks = [] then (if check then 1 else 0)
       else if filter (\<lambda>(n, c). \<not> within_tolerance c) all_checks \<noteq> [] then (if check then 1 else 0) else 0) = code"
    using assms unfolding eq sum.inject prod.inject .
  note both = eqs [THEN conjunct1] eqs [THEN conjunct2]
  note checks = both(1) [symmetric, unfolded all_checks_def] and code = both(2) [symmetric, unfolded both(1)]
  have within: "within_tolerance c \<longleftrightarrow> (\<exists>d t. c = Check_Done d t True \<and> dict_get tolerances n = Some t \<and> d \<le> t)"
    if "(n, c) \<in> set checks" for n c
  proof -
    from that obtain src where src: "src \<in> set (export_sources env run)" "(n, c) \<in> set (check_export load S (art @ [''onnx'']) src)"
      unfolding checks by auto
    obtain t where t: "dict_get tolerances (fst src) = Some t" using tolerance_known [OF src(1)] by blast
    show ?thesis using check_export_within [OF src(2)] t by auto
  qed
  have "filter (\<lambda>(n, c). \<not> within_tolerance c) checks = [] \<longleftrightarrow>
      (\<forall>(n, c) \<in> set checks. \<exists>d t. c = Check_Done d t True \<and> dict_get tolerances n = Some t \<and> d \<le> t)"
    unfolding filter_empty_conv using within by fast
  moreover have "map fst checks = filter (\<lambda>n. file_exists S (art @ [''onnx'', n @ ''_fp32.onnx''])) [''classifier'', ''embedder'', ''detector'']"
    unfolding checks map_concat by (simp add: comp_def check_export_names export_sources_def)
  ultimately show ?thesis unfolding code by auto
qed

text \<open>A detector whose difference is between the two tolerances: the exporter accepts it, the guard does not.\<close>

lemma detector_tolerance_gap:
  assumes "export_detection_onnx tc metadata p S = (S', Inr labels)" "verify_onnx_equivalence tc g = Inr d" "tc_export tc = Inr g"
    "1 / 10 ^ 3 < d"
  shows "d \<le> detection_atol"
    "file_exists S' p \<Longrightarrow> load S' p = Inr g \<Longrightarrow> p = onnx_dir @ [''detector_fp32.onnx'']
     \<Longrightarrow> check_export load S' onnx_dir (''detector'', Inr tc) = [(''detector'', Check_Done d (1 / 10 ^ 3) False)]"
proof -
  show "d \<le> detection_atol"
    using assms by (auto simp: export_detection_onnx_def export_graph_def then_do_def pure_step_def do_write_def split: sum.splits if_splits)
  show "file_exists S' p \<Longrightarrow> load S' p = Inr g \<Longrightarrow> p = onnx_dir @ [''detector_fp32.onnx'']
     \<Longrightarrow> check_export load S' onnx_dir (''detector'', Inr tc) = [(''detector'', Check_Done d (1 / 10 ^ 3) False)]"
    using assms by (simp add: check_export_def Let_def compare_with_def tolerances_def)
qed

end
