(* ===== verification/Doc_Sync.thy ===== *)
theory Doc_Sync
  imports Benchmark
begin

text \<open>
  The figures quoted in the documentation (\<open>scripts/sync_docs.py\<close>): the table rendered from the rows of
  a benchmark report, its place between two markers of a document, and the command that rewrites the
  documents or checks them. Documents are a dictionary of texts.
\<close>

section \<open>The table\<close>

definition block_begin :: string where
  "block_begin = ''<!-- BEGIN:headline-latency -->''"

definition block_end :: string where
  "block_end = ''<!-- END:headline-latency -->''"

definition doc_targets :: "string list" where
  "doc_targets = [''README.md'', ''docs/README.md'', ''docs/technical-writeup.md'', ''benchmarks/ANALYSIS.md'']"

definition table_rows :: "(string \<times> string \<times> string) list" where
  "table_rows =
     [(''pytorch-cuda'', ''fp32'', ''PyTorch eager FP32''), (''pytorch-cuda'', ''bf16'', ''PyTorch eager bf16''),
      (''onnxruntime-tensorrt'', ''fp16'', ''**TensorRT FP16**''), (''onnxruntime-cuda'', ''fp32'', ''ONNX Runtime CUDA FP32''),
      (''onnxruntime-cpu'', ''int8'', ''ONNX Runtime CPU INT8'')]"

definition table_batch_size :: int where
  "table_batch_size = 32"

text \<open>\<open>f"{x:,.0f}"\<close>: a comma before every third digit from the right.\<close>

fun commas :: "string \<Rightarrow> string" where
  "commas [] = []"
| "commas (c # s) = (if s \<noteq> [] \<and> length s mod 3 = 0 then c # CHR '','' # commas s else c # commas s)"

definition fmt_thousands :: "real \<Rightarrow> string" where
  "fmt_thousands x = (if x < 0 then ''-'' else []) @ commas (show_nat (nat (round_half_even \<bar>x\<bar>)))"

text \<open>The classifier's rows of the batch size, later ones in the place of earlier ones.\<close>

definition indexed_rows :: "latency_result list \<Rightarrow> (string \<times> string, latency_result) dict" where
  "indexed_rows results =
     foldl (\<lambda>d r. dict_set (lt_backend r, lt_precision r) r d) []
       (filter (\<lambda>r. lt_model r = ''classifier'' \<and> lt_batch_size r = table_batch_size) results)"

definition table_line :: "string \<Rightarrow> latency_result \<Rightarrow> real \<Rightarrow> string" where
  "table_line label r speedup =
     (let bold = (if starts_with label ''**'' then (\<lambda>s. ''**'' @ s @ ''**'') else (\<lambda>s. s))
      in ''| '' @ label @ '' | '' @ bold (fmt_fixed 2 (lt_mean_ms r) @ '' ms'') @ '' | ''
         @ bold (fmt_thousands (lt_throughput_ips r) @ '' img/s'') @ '' | '' @ bold (fmt_fixed 2 speedup @ ''x'') @ '' |'')"

definition render_rows :: "(string \<times> string, latency_result) dict \<Rightarrow> latency_result \<Rightarrow> string list result" where
  "render_rows indexed baseline =
     map_res (\<lambda>(backend, precision, label).
         case dict_get indexed (backend, precision) of
           None \<Rightarrow> Inl index_error
         | Some r \<Rightarrow> if lt_mean_ms r = 0 then Inl zero_division else Inr (table_line label r (lt_mean_ms baseline / lt_mean_ms r)))
       (filter (\<lambda>(backend, precision, label). dict_get indexed (backend, precision) \<noteq> None) table_rows)"

definition newline :: string where
  "newline = [CHR 0x0A]"

definition render_table :: "latency_result list \<Rightarrow> string result" where
  "render_table results =
     (let indexed = indexed_rows results
      in case dict_get indexed (''pytorch-cuda'', ''fp32'') of
           None \<Rightarrow> Inl (PyExc ''SystemExit'' ''benchmarks/results.json has no pytorch-cuda fp32 row at batch 32; the speedup column has no baseline to divide by.'')
         | Some baseline \<Rightarrow>
             res_bind (render_rows indexed baseline) (\<lambda>rows.
             Inr (join newline ([''| Backend | Latency | Throughput | Speedup |'', ''| --- | ---: | ---: | ---: |''] @ rows))))"

section \<open>The block\<close>

text \<open>\<open>str.find\<close>.\<close>

fun find_sub :: "string \<Rightarrow> string \<Rightarrow> nat option" where
  "find_sub p [] = (if p = [] then Some 0 else None)"
| "find_sub p (c # s) = (if take (length p) (c # s) = p then Some 0 else map_option Suc (find_sub p s))"

definition block_notice :: string where
  "block_notice = ''<!-- Generated by scripts/sync_docs.py; edits here are overwritten. -->''"

definition apply_block :: "string \<Rightarrow> string \<Rightarrow> string \<Rightarrow> string result" where
  "apply_block doc block path =
     (case (find_sub block_begin doc, find_sub block_end doc) of
        (Some start, Some stop) \<Rightarrow>
          if stop < start then Inl (PyExc ''SystemExit'' (path @ '' has '' @ block_end @ '' before '' @ block_begin))
          else Inr (take (start + length block_begin) doc @ newline @ block_notice @ newline @ newline @ block @ newline @ newline
                 @ drop stop doc)
      | _ \<Rightarrow> Inl (PyExc ''SystemExit'' (path @ '' has no '' @ block_begin @ '' / '' @ block_end @ '' block'')))"

section \<open>The command\<close>

type_synonym docs = "(string, string) dict"

fun sync_targets :: "string \<Rightarrow> bool \<Rightarrow> string list \<Rightarrow> docs \<Rightarrow> docs \<times> string list result" where
  "sync_targets block check [] docs = (docs, Inr [])"
| "sync_targets block check (path # paths) docs =
     (case dict_get docs path of
        None \<Rightarrow> (docs, Inl (PyExc ''FileNotFoundError'' path))
      | Some current \<Rightarrow>
          (case apply_block current block path of
             Inl e \<Rightarrow> (docs, Inl e)
           | Inr updated \<Rightarrow>
               if current = updated then sync_targets block check paths docs
               else
                 (case sync_targets block check paths (if check then docs else dict_set path updated docs) of
                    (docs', Inl e) \<Rightarrow> (docs', Inl e)
                  | (docs', Inr stale) \<Rightarrow> (docs', Inr (path # stale)))))"

text \<open>\<open>results\<close> is the report on disk, if there is one.\<close>

definition sync_docs :: "latency_result list option \<Rightarrow> bool \<Rightarrow> docs \<Rightarrow> docs \<times> int result" where
  "sync_docs results check docs =
     (case results of
        None \<Rightarrow> (docs, Inl (PyExc ''SystemExit'' ''benchmarks/results.json not found''))
      | Some rows \<Rightarrow>
          (case render_table rows of
             Inl e \<Rightarrow> (docs, Inl e)
           | Inr block \<Rightarrow>
               (case sync_targets block check doc_targets docs of
                  (docs', Inl e) \<Rightarrow> (docs', Inl e)
                | (docs', Inr stale) \<Rightarrow> (docs', Inr (if check \<and> stale \<noteq> [] then 1 else 0)))))"

section \<open>Finding the markers\<close>

definition occurs_at :: "string \<Rightarrow> string \<Rightarrow> nat \<Rightarrow> bool" where
  "occurs_at p s i \<longleftrightarrow> i + length p \<le> length s \<and> take (length p) (drop i s) = p"

lemma occurs_at_0: "occurs_at p s 0 \<longleftrightarrow> take (length p) s = p"
  unfolding occurs_at_def by (metis add_0 drop0 length_take min.absorb_iff2 nat_le_linear take_all_iff)

lemma occurs_at_Cons: "occurs_at p (c # s) (Suc i) \<longleftrightarrow> occurs_at p s i"
  by (simp add: occurs_at_def)

lemma find_sub_iff: "find_sub p s = Some i \<longleftrightarrow> occurs_at p s i \<and> (\<forall>j < i. \<not> occurs_at p s j)"
proof (induction s arbitrary: i)
  case Nil
  then show ?case by (auto simp: occurs_at_def)
next
  case (Cons c s)
  show ?case
  proof (cases "occurs_at p (c # s) 0")
    case True
    then have "find_sub p (c # s) = Some 0" by (simp add: occurs_at_0)
    then show ?thesis using True by (cases i) auto
  next
    case False
    then have "find_sub p (c # s) = map_option Suc (find_sub p s)" by (simp add: occurs_at_0)
    then show ?thesis using False Cons by (cases i) (auto simp: occurs_at_Cons less_Suc_eq_0_disj)
  qed
qed

lemma occurs_append1: "occurs_at p s i \<Longrightarrow> occurs_at p (s @ t) i"
  by (simp add: occurs_at_def)

lemma occurs_prefix: "occurs_at p (s @ t) i \<Longrightarrow> i + length p \<le> length s \<Longrightarrow> occurs_at p s i"
  by (simp add: occurs_at_def)

lemma occurs_shift: "occurs_at p (s @ t) (length s + i) \<longleftrightarrow> occurs_at p t i"
  by (simp add: occurs_at_def)

text \<open>A pattern without a line break does not run over one.\<close>

lemma occurs_newline:
  assumes "occurs_at p (s @ CHR 0x0A # t) i" "CHR 0x0A \<notin> set p" "p \<noteq> []"
  shows "occurs_at p s i \<or> (\<exists>j. i = length s + 1 + j \<and> occurs_at p t j)"
proof (cases "i + length p \<le> length s")
  case True
  then show ?thesis using assms(1) occurs_prefix by blast
next
  case False
  show ?thesis
  proof (cases "length s < i")
    case True
    then obtain j where "i = length (s @ [CHR 0x0A]) + j" by (metis Suc_leI add.commute le_iff_add length_append_singleton)
    moreover from this have "occurs_at p t j" using assms(1) occurs_shift [of p "s @ [CHR 0x0A]" t j] by simp
    ultimately show ?thesis by auto
  next
    case le: False
    let ?k = "length s - i"
    have "?k < length p" using False le by linarith
    have eq: "take (length p) (drop i (s @ CHR 0x0A # t)) = p" using assms(1) by (simp add: occurs_at_def)
    have "p ! ?k = take (length p) (drop i (s @ CHR 0x0A # t)) ! ?k" unfolding eq ..
    also have "\<dots> = drop i (s @ CHR 0x0A # t) ! ?k" using \<open>?k < length p\<close> by (rule nth_take)
    also have "\<dots> = (s @ CHR 0x0A # t) ! (i + ?k)" using le by (intro nth_drop) simp
    also have "i + ?k = length s" using le by simp
    also have "(s @ CHR 0x0A # t) ! length s = CHR 0x0A" by simp
    finally show ?thesis using assms(2) \<open>?k < length p\<close> by (metis nth_mem)
  qed
qed

lemma markers_plain [simp]:
  "CHR 0x0A \<notin> set block_begin" "CHR 0x0A \<notin> set block_end" "block_begin \<noteq> []" "block_end \<noteq> []"
  by (simp_all add: block_begin_def block_end_def)

lemma no_occurrence: "c \<in> set p \<Longrightarrow> c \<notin> set s \<Longrightarrow> \<not> occurs_at p s i"
  unfolding occurs_at_def by (metis in_set_dropD in_set_takeD)

section \<open>Writing a block\<close>

lemma end_not_in_begin: "\<not> occurs_at block_end block_begin r"
proof
  assume o: "occurs_at block_end block_begin r"
  then have "r \<le> 2" by (simp add: occurs_at_def block_end_def block_begin_def)
  then have "r = 0 \<or> r = 1 \<or> r = 2" by linarith
  then show False using o by (auto simp: occurs_at_def block_end_def block_begin_def numeral_eq_Suc)
qed

lemma end_not_in_notice: "\<not> occurs_at block_end block_notice r"
  by (rule no_occurrence [where c = "CHR '':''"]) (simp_all add: block_end_def block_notice_def)

lemma occurs_nth: "occurs_at p s i \<Longrightarrow> k < length p \<Longrightarrow> s ! (i + k) = p ! k"
proof -
  assume o: "occurs_at p s i" and k: "k < length p"
  have "s ! (i + k) = drop i s ! k" using o k by (intro nth_drop [symmetric]) (simp add: occurs_at_def)
  also have "\<dots> = take (length p) (drop i s) ! k" using k by (rule nth_take [symmetric])
  also have "take (length p) (drop i s) = p" using o by (simp add: occurs_at_def)
  finally show ?thesis .
qed

text \<open>An end marker that is not before the begin marker is behind it.\<close>

lemma end_behind_begin:
  assumes "occurs_at block_begin s start" "occurs_at block_end s stop" "start \<le> stop"
  shows "start + length block_begin \<le> stop"
proof (rule ccontr)
  let ?r = "stop - start"
  assume "\<not> ?thesis"
  then have r: "?r < length block_begin" "start + ?r = stop" using assms(3) by linarith+
  have "block_begin ! ?r = CHR ''<''"
    using occurs_nth [OF assms(1) r(1)] occurs_nth [OF assms(2), of 0] r(2) by (simp add: block_end_def)
  moreover have "list_all (\<lambda>r. block_begin ! r = CHR ''<'' \<longrightarrow> r = 0) [0..<length block_begin]" by code_simp
  ultimately have "?r = 0" using r(1) by (auto simp: list_all_iff)
  then have "stop = start" using assms(3) by simp
  then show False
    using occurs_nth [OF assms(1), of 5] occurs_nth [OF assms(2), of 5] by (simp add: block_begin_def block_end_def)
qed

definition new_text :: "string \<Rightarrow> string" where
  "new_text block = newline @ block_notice @ newline @ newline @ block @ newline @ newline"

lemma apply_block_shape:
  assumes "apply_block doc block path = Inr doc'"
  obtains pre mid post where "doc = pre @ block_begin @ mid @ block_end @ post"
    "doc' = pre @ block_begin @ new_text block @ block_end @ post"
    "find_sub block_begin doc = Some (length pre)"
    "\<And>j. j < length pre + length block_begin \<Longrightarrow> \<not> occurs_at block_end doc j"
proof -
  obtain start stop where f: "find_sub block_begin doc = Some start" "find_sub block_end doc = Some stop" "start \<le> stop"
    using assms by (auto simp: apply_block_def split: option.splits if_splits)
  then have o: "occurs_at block_begin doc start" "occurs_at block_end doc stop" "\<And>j. j < stop \<Longrightarrow> \<not> occurs_at block_end doc j"
    by (auto simp: find_sub_iff)
  have le: "start + length block_begin \<le> stop" using end_behind_begin o f by blast
  let ?h = "start + length block_begin"
  have head: "take ?h doc = take start doc @ block_begin" using o(1) by (simp add: occurs_at_def take_add)
  have tail: "drop stop doc = block_end @ drop (stop + length block_end) doc"
    using o(2) by (metis append_take_drop_id drop_drop add.commute occurs_at_def)
  have "doc = take ?h doc @ take (stop - ?h) (drop ?h doc) @ drop stop doc"
    using le by (metis append_take_drop_id drop_drop le_add_diff_inverse2)
  then have d1: "doc = take start doc @ block_begin @ take (stop - ?h) (drop ?h doc) @ block_end @ drop (stop + length block_end) doc"
    unfolding head tail by simp
  have d2: "doc' = take start doc @ block_begin @ new_text block @ block_end @ drop (stop + length block_end) doc"
    using assms f head tail by (simp add: apply_block_def new_text_def)
  have len: "length (take start doc) = start" using o(1) by (simp add: occurs_at_def)
  have "\<not> occurs_at block_end doc j" if "j < length (take start doc) + length block_begin" for j
    using that le len by (intro o(3)) linarith
  from that [OF d1 d2 _ this] show ?thesis using f(1) len by simp
qed

text \<open>Rewriting a document changes nothing but the text between its markers, and rewriting it again
  with the same table changes nothing: a table without the character that opens a marker cannot be
  taken for one.\<close>

lemma block_rewrite:
  assumes ap: "apply_block doc block path = Inr doc'" and plain: "CHR ''<'' \<notin> set block"
  shows "(\<exists>pre mid post. doc = pre @ block_begin @ mid @ block_end @ post \<and> doc' = pre @ block_begin @ new_text block @ block_end @ post)
    \<and> apply_block doc' block path = Inr doc'"
proof -
  obtain pre mid post where d: "doc = pre @ block_begin @ mid @ block_end @ post"
    "doc' = pre @ block_begin @ new_text block @ block_end @ post" "find_sub block_begin doc = Some (length pre)"
    "\<And>j. j < length pre + length block_begin \<Longrightarrow> \<not> occurs_at block_end doc j"
    using apply_block_shape [OF ap] by metis
  let ?head = "pre @ block_begin" and ?tail = "block_end @ post"
  have doc': "doc' = ?head @ CHR 0x0A # block_notice @ CHR 0x0A # [] @ CHR 0x0A # block @ CHR 0x0A # [] @ CHR 0x0A # ?tail"
    unfolding d(2) new_text_def newline_def by simp
  have no_end: "\<not> occurs_at block_end ?head j" for j
  proof
    assume o: "occurs_at block_end ?head j"
    then have "j < length ?head" by (auto simp: occurs_at_def block_end_def)
    moreover have "occurs_at block_end doc j" using occurs_append1 [OF o, of "mid @ block_end @ post"] d(1) by simp
    ultimately show False using d(4) by simp
  qed
  have no_begin: "\<not> occurs_at block_begin doc' j" if "j < length pre" for j
  proof
    assume "occurs_at block_begin doc' j"
    then have "occurs_at block_begin ?head j"
      using that occurs_prefix [of block_begin ?head _ j] unfolding doc' by simp
    then have "occurs_at block_begin doc j" using occurs_append1 [of block_begin ?head j "mid @ block_end @ post"] d(1) by simp
    then show False using d(3) that by (simp add: find_sub_iff)
  qed
  have "occurs_at block_begin doc' (length pre)" unfolding d(2) by (simp add: occurs_at_def)
  then have f1: "find_sub block_begin doc' = Some (length pre)" using no_begin by (simp add: find_sub_iff)
  let ?stop = "length (?head @ new_text block)"
  have end_at: "occurs_at block_end doc' ?stop" unfolding d(2) by (simp add: occurs_at_def)
  have "\<not> occurs_at block_end doc' j" if "j < ?stop" for j
  proof
    assume o: "occurs_at block_end doc' j"
    have empty: "\<not> occurs_at block_end [] k" for k by (simp add: occurs_at_def)
    have body: "\<not> occurs_at block_end block k" for k
      using plain by (intro no_occurrence [where c = "CHR ''<''"]) (simp_all add: block_end_def)
    note nl = occurs_newline [OF _ markers_plain(2, 4)]
    obtain j1 where j1: "j = length ?head + 1 + j1" "occurs_at block_end (block_notice @ CHR 0x0A # [] @ CHR 0x0A # block @ CHR 0x0A # [] @ CHR 0x0A # ?tail) j1"
      using nl [OF o [unfolded doc']] no_end by blast
    obtain j2 where j2: "j1 = length block_notice + 1 + j2" "occurs_at block_end ([] @ CHR 0x0A # block @ CHR 0x0A # [] @ CHR 0x0A # ?tail) j2"
      using nl [OF j1(2)] end_not_in_notice by blast
    obtain j3 where j3: "j2 = length ([] :: string) + 1 + j3" "occurs_at block_end (block @ CHR 0x0A # [] @ CHR 0x0A # ?tail) j3"
      using nl [OF j2(2)] empty by blast
    obtain j4 where j4: "j3 = length block + 1 + j4" "occurs_at block_end ([] @ CHR 0x0A # ?tail) j4"
      using nl [OF j3(2)] body by blast
    obtain j5 where j5: "j4 = length ([] :: string) + 1 + j5" using nl [OF j4(2)] empty by blast
    have "j = ?stop + j5" using j1(1) j2(1) j3(1) j4(1) j5 by (simp add: new_text_def newline_def)
    with that show False by simp
  qed
  then have f2: "find_sub block_end doc' = Some ?stop" using end_at by (simp add: find_sub_iff)
  have "apply_block doc' block path = Inr (take (length ?head) doc' @ new_text block @ drop ?stop doc')"
    unfolding apply_block_def f1 f2 by (simp add: new_text_def)
  also have "take (length ?head) doc' = ?head" unfolding d(2) by simp
  also have "drop ?stop doc' = ?tail" unfolding d(2) by simp
  finally have "apply_block doc' block path = Inr doc'" unfolding d(2) by simp
  then show ?thesis using d by blast
qed

lemmas block_rewrite_again = block_rewrite [THEN conjunct2]

lemma block_rewrite_example:
  "\<exists>doc'. apply_block (''# T '' @ block_begin @ ''old'' @ block_end @ '' end'') ''| 1 |'' ''README.md'' = Inr doc'
     \<and> apply_block doc' ''| 1 |'' ''README.md'' = Inr doc'"
proof -
  have "apply_block (''# T '' @ block_begin @ ''old'' @ block_end @ '' end'') ''| 1 |'' ''README.md''
      = Inr (''# T '' @ block_begin @ new_text ''| 1 |'' @ block_end @ '' end'')" by code_simp
  from block_rewrite [OF this] this show ?thesis by auto
qed

section \<open>The table has no markers\<close>

lemma digit_not_lt: "is_digit c \<Longrightarrow> c \<noteq> CHR ''<''"
  by (auto simp: is_digit_def)

lemma lt_show_nat [simp]: "CHR ''<'' \<notin> set (show_nat n)"
  using show_nat_digits [of "CHR ''<''" n] by (auto simp: is_digit_def)

lemma lt_fmt_fixed [simp]: "CHR ''<'' \<notin> set (fmt_fixed n x)"
  by (simp add: fmt_fixed_def Let_def pad_zeros_def)

lemma set_commas: "set (commas s) \<subseteq> insert (CHR '','') (set s)"
  by (induction s rule: commas.induct) auto

lemma lt_fmt_thousands [simp]: "CHR ''<'' \<notin> set (fmt_thousands x)"
  using set_commas [of "show_nat (nat (round_half_even \<bar>x\<bar>))"] by (auto simp: fmt_thousands_def)

lemma lt_table_line: "CHR ''<'' \<notin> set label \<Longrightarrow> CHR ''<'' \<notin> set (table_line label r s)"
  by (simp add: table_line_def Let_def)

lemma set_join: "set (join sep ss) \<subseteq> set sep \<union> (\<Union>s \<in> set ss. set s)"
  by (induction sep ss rule: join.induct) auto

lemma render_no_marker: "render_table results = Inr block \<Longrightarrow> CHR ''<'' \<notin> set block"
proof -
  assume r: "render_table results = Inr block"
  then obtain baseline rows where rows: "render_rows (indexed_rows results) baseline = Inr rows"
    "block = join newline ([''| Backend | Latency | Throughput | Speedup |'', ''| --- | ---: | ---: | ---: |''] @ rows)"
    by (auto simp: render_table_def Let_def res_bind_Inr_iff split: option.splits)
  have "CHR ''<'' \<notin> set s" if "s \<in> set rows" for s
  proof -
    from map_res_Inr_set [OF rows(1) [unfolded render_rows_def] that] obtain b p l where
      row: "(b, p, l) \<in> set table_rows" "(case dict_get (indexed_rows results) (b, p) of
           None \<Rightarrow> Inl index_error
         | Some r \<Rightarrow> if lt_mean_ms r = 0 then Inl zero_division else Inr (table_line l r (lt_mean_ms baseline / lt_mean_ms r))) = Inr s"
      by auto
    have "CHR ''<'' \<notin> set l" using row(1) by (auto simp: table_rows_def)
    then show ?thesis using row(2) lt_table_line by (auto split: option.splits if_splits)
  qed
  then show ?thesis
    unfolding rows(2) using set_join [of newline "[''| Backend | Latency | Throughput | Speedup |'', ''| --- | ---: | ---: | ---: |''] @ rows"]
    by (auto simp: newline_def)
qed

section \<open>Synchronising\<close>

lemma sync_frame: "p \<notin> set paths \<Longrightarrow> dict_get (fst (sync_targets block check paths docs)) p = dict_get docs p"
proof (induction paths arbitrary: docs)
  case (Cons a paths)
  then have IH: "dict_get (fst (sync_targets block check paths e)) p = dict_get e p" and a: "p \<noteq> a" for e by auto
  show ?case
  proof (cases "dict_get docs a")
    case (Some c)
    show ?thesis
    proof (cases "apply_block c block a")
      case (Inr u)
      let ?e = "if check then docs else dict_set a u docs"
      obtain e r where "sync_targets block check paths ?e = (e, r)" by fastforce
      then show ?thesis using Some Inr IH [of ?e] IH [of docs] a by (cases r) (auto simp: dict_get_set)
    qed (simp add: Some)
  qed simp
qed simp

definition current :: "string \<Rightarrow> docs \<Rightarrow> string \<Rightarrow> bool" where
  "current block docs path \<longleftrightarrow> (\<exists>u. dict_get docs path = Some u \<and> apply_block u block path = Inr u)"

lemma sync_current: "\<forall>p \<in> set paths. current block docs p \<Longrightarrow> sync_targets block check paths docs = (docs, Inr [])"
  by (induction paths) (auto simp: current_def)

lemma sync_makes_current:
  assumes "CHR ''<'' \<notin> set block" "distinct paths" "sync_targets block False paths docs = (docs', Inr stale)" "p \<in> set paths"
  shows "current block docs' p"
  using assms(2-)
proof (induction paths arbitrary: docs stale)
  case (Cons a paths)
  obtain c u where c: "dict_get docs a = Some c" "apply_block c block a = Inr u"
    using Cons.prems(2) by (auto split: option.splits sum.splits)
  have u: "apply_block u block a = Inr u" using block_rewrite_again [OF c(2) assms(1)] .
  define e where "e = (if c = u then docs else dict_set a u docs)"
  obtain stale' where e: "sync_targets block False paths e = (docs', Inr stale')"
    using Cons.prems(2) c by (auto simp: e_def split: if_splits prod.splits sum.splits)
  show ?case
  proof (cases "p = a")
    case True
    have "dict_get docs' a = dict_get e a" using sync_frame [of a paths block False e] Cons.prems(1) e by simp
    also have "\<dots> = Some u" using c(1) by (simp add: e_def dict_get_set)
    finally show ?thesis using u True by (simp add: current_def)
  next
    case False
    then show ?thesis using Cons.IH [OF _ e] Cons.prems by simp
  qed
qed simp

lemma sync_check_same: "sync_targets block True paths docs = (docs', r) \<Longrightarrow> docs' = docs"
  by (induction paths arbitrary: r) (auto split: option.splits sum.splits if_splits prod.splits)

lemma sync_check:
  assumes "distinct paths" "sync_targets block False paths docs = (docs', Inr stale)"
    and "\<forall>p \<in> set paths. dict_get old p = dict_get docs p"
  shows "\<exists>stale. sync_targets block True paths old = (old, Inr stale)
    \<and> (stale = [] \<longleftrightarrow> (\<forall>p \<in> set paths. dict_get docs' p = dict_get docs p))"
  using assms
proof (induction paths arbitrary: docs stale)
  case (Cons a paths)
  obtain c u where c: "dict_get docs a = Some c" "apply_block c block a = Inr u"
    using Cons.prems(2) by (auto split: option.splits sum.splits)
  define e where "e = (if c = u then docs else dict_set a u docs)"
  obtain stale' where e: "sync_targets block False paths e = (docs', Inr stale')"
    using Cons.prems(2) c by (auto simp: e_def split: if_splits prod.splits sum.splits)
  have ea: "dict_get e p = dict_get docs p" if "p \<noteq> a" for p using that by (simp add: e_def dict_get_set)
  have "\<forall>p \<in> set paths. dict_get old p = dict_get e p" using Cons.prems(1, 3) ea by (metis distinct.simps(2) list.set_intros(2))
  from Cons.IH [OF _ e this] Cons.prems(1) obtain st where st: "sync_targets block True paths old = (old, Inr st)"
    "st = [] \<longleftrightarrow> (\<forall>p \<in> set paths. dict_get docs' p = dict_get e p)" by auto
  have "dict_get docs' a = dict_get e a" using sync_frame [of a paths block False e] Cons.prems(1) e by simp
  also have "\<dots> = Some u" using c(1) by (simp add: e_def dict_get_set)
  finally have a: "dict_get docs' a = Some u" .
  have "(\<forall>p \<in> set paths. dict_get docs' p = dict_get e p) \<longleftrightarrow> (\<forall>p \<in> set paths. dict_get docs' p = dict_get docs p)"
    using Cons.prems(1) ea by (metis distinct.simps(2))
  moreover have "dict_get old a = Some c" using Cons.prems(3) c(1) by simp
  ultimately show ?case using st a c by (cases "c = u") auto
qed simp

text \<open>The documents after a run are current: running the command again with the same report changes
  nothing and the check passes. The check never writes, and its exit code is one exactly when some
  document would be changed.\<close>

theorem sync_then_check:
  assumes "sync_docs (Some results) False docs = (docs', Inr code)"
  shows "code = 0 \<and> (\<forall>check. sync_docs (Some results) check docs' = (docs', Inr 0))
    \<and> (\<exists>c. sync_docs (Some results) True docs = (docs, Inr c) \<and> (c = 0 \<longleftrightarrow> (\<forall>p \<in> set doc_targets. dict_get docs' p = dict_get docs p)))"
proof -
  obtain block where block: "render_table results = Inr block"
    using assms by (auto simp: sync_docs_def split: sum.splits)
  obtain stale where run: "sync_targets block False doc_targets docs = (docs', Inr stale)" "code = 0"
    using assms by (auto simp: sync_docs_def block split: sum.splits prod.splits)
  have dist: "distinct doc_targets" by code_simp
  note plain = render_no_marker [OF block]
  have cur: "\<forall>p \<in> set doc_targets. current block docs' p" using sync_makes_current [OF plain dist run(1)] by blast
  have "sync_docs (Some results) check docs' = (docs', Inr 0)" for check
    using sync_current [OF cur] by (simp add: sync_docs_def block)
  moreover have "\<exists>stale. sync_targets block True doc_targets docs = (docs, Inr stale)
      \<and> (stale = [] \<longleftrightarrow> (\<forall>p \<in> set doc_targets. dict_get docs' p = dict_get docs p))"
    using sync_check [OF dist run(1)] by simp
  ultimately show ?thesis using run(2) by (auto simp: sync_docs_def block)
qed

end
