(* ===== verification/Objectives.thy ===== *)
theory Objectives
  imports Detection_Service
begin

text \<open>
  What the three trainings optimise and measure: cross-entropy against soft targets and top-k accuracy
  (\<open>models/training/classification_pipeline.py\<close>), the supervised contrastive loss and retrieval recall
  (\<open>embedding_pipeline.py\<close>), and the confidence figures of the detector (\<open>detection_pipeline.py\<close>).
  PyTorch's \<open>log_softmax\<close>, \<open>logsumexp\<close>, \<open>topk\<close> and \<open>argmax\<close> are parameters; what is relied on of
  them is the locales \<open>log_softmax_law\<close>, \<open>logsumexp_law\<close> and \<open>topk_law\<close>.
\<close>

section \<open>Losses and metrics\<close>

definition mean_of :: "real list \<Rightarrow> real" where
  "mean_of xs = sum_list xs / real (length xs)"

definition inner_product :: "real list \<Rightarrow> real list \<Rightarrow> real" where
  "inner_product xs ys = sum_list (map2 (*) xs ys)"

text \<open>\<open>soft_target_cross_entropy\<close>: a row of logits and a row of target probabilities for each image.\<close>

definition row_loss :: "(real list \<Rightarrow> real list) \<Rightarrow> real list \<Rightarrow> real list \<Rightarrow> real" where
  "row_loss log_softmax l t = sum_list (map2 (\<lambda>p lp. - p * lp) t (log_softmax l))"

definition soft_target_cross_entropy :: "(real list \<Rightarrow> real list) \<Rightarrow> real list list \<Rightarrow> real list list \<Rightarrow> real" where
  "soft_target_cross_entropy log_softmax logits targets =
     mean_of (map2 (row_loss log_softmax) logits targets)"

text \<open>Targets as a training batch (soft) or a validation batch (class indices) has them.\<close>

datatype batch_targets = Soft "real list list" | Hard "nat list"

definition one_hot :: "nat \<Rightarrow> nat \<Rightarrow> real list" where
  "one_hot n c = map (\<lambda>i. if i = c then 1 else 0) [0..<n]"

definition classification_loss :: "(real list \<Rightarrow> real list) \<Rightarrow> real list list \<Rightarrow> batch_targets \<Rightarrow> real" where
  "classification_loss log_softmax logits targets =
     soft_target_cross_entropy log_softmax logits
       (case targets of Soft ts \<Rightarrow> ts | Hard cs \<Rightarrow> map (one_hot (length (hd logits))) cs)"

definition target_classes :: "(real list \<Rightarrow> nat) \<Rightarrow> batch_targets \<Rightarrow> nat list" where
  "target_classes am targets = (case targets of Soft ts \<Rightarrow> map am ts | Hard cs \<Rightarrow> cs)"

text \<open>\<open>accuracy_topk\<close>: the names and values for each \<open>k\<close>; \<open>topk k row\<close> gives the indices of the \<open>k\<close> largest
  entries, largest first.\<close>

definition accuracy_topk ::
  "(nat \<Rightarrow> real list \<Rightarrow> nat list) \<Rightarrow> (real list \<Rightarrow> nat) \<Rightarrow> real list list \<Rightarrow> batch_targets \<Rightarrow> nat list \<Rightarrow> (string \<times> real) list" where
  "accuracy_topk topk am logits targets ks =
     (let max_k = min (Max (set ks)) (length (hd logits));
          predicted = map (topk max_k) logits; classes = target_classes am targets
      in map (\<lambda>k. (''acc_top'' @ show_nat k,
            mean_of (map2 (\<lambda>p c. of_bool (c \<in> set (take (min k max_k) p))) predicted classes))) ks)"

text \<open>\<open>supervised_contrastive_loss\<close>: the diagonal, masked to minus infinity, is left out of the sums.\<close>

definition others :: "nat \<Rightarrow> nat \<Rightarrow> nat list" where
  "others n i = filter (\<lambda>j. j \<noteq> i) [0..<n]"

definition positives_of :: "nat list \<Rightarrow> nat \<Rightarrow> nat list" where
  "positives_of labels i = filter (\<lambda>j. labels ! j = labels ! i) (others (length labels) i)"

definition log_prob :: "(real list \<Rightarrow> real) \<Rightarrow> real list list \<Rightarrow> real \<Rightarrow> nat \<Rightarrow> nat \<Rightarrow> real" where
  "log_prob logsumexp embeddings temperature i j =
     (let similarity = (\<lambda>m. inner_product (embeddings ! i) (embeddings ! m) / temperature)
      in similarity j - logsumexp (map similarity (others (length embeddings) i)))"

definition supervised_contrastive_loss :: "(real list \<Rightarrow> real) \<Rightarrow> real list list \<Rightarrow> nat list \<Rightarrow> real \<Rightarrow> real" where
  "supervised_contrastive_loss logsumexp embeddings labels temperature =
     (let anchors = filter (\<lambda>i. positives_of labels i \<noteq> []) [0..<length labels]
      in if anchors = [] then 0
         else - mean_of (map (\<lambda>i. sum_list (map (log_prob logsumexp embeddings temperature i) (positives_of labels i))
                                 / max 1 (real (length (positives_of labels i)))) anchors))"

text \<open>\<open>retrieval_recall_at_k\<close>\<close>

definition masked_row :: "real list list \<Rightarrow> nat \<Rightarrow> real list" where
  "masked_row embeddings i = map (\<lambda>j. if j = i then - 1 else inner_product (embeddings ! i) (embeddings ! j)) [0..<length embeddings]"

definition retrieval_recall_at_k :: "(nat \<Rightarrow> real list \<Rightarrow> nat list) \<Rightarrow> real list list \<Rightarrow> nat list \<Rightarrow> nat \<Rightarrow> (string \<times> real) list" where
  "retrieval_recall_at_k topk embeddings labels k =
     (let n = length embeddings
      in if n < 2 then [(''recall_at'' @ show_nat k, 0)]
         else [(''recall_at'' @ show_nat k,
                mean_of (map (\<lambda>i. of_bool (\<exists>j \<in> set (topk (min k (n - 1)) (masked_row embeddings i)). labels ! j = labels ! i)) [0..<n]))])"

text \<open>The detector: \<open>scores\<close> is a table of queries by classes for each image.\<close>

definition peak_of :: "real list list \<Rightarrow> real" where
  "peak_of scores = list_max (map list_max scores)"

definition detection_metrics :: "real list list list \<Rightarrow> (string \<times> real) list" where
  "detection_metrics logits =
     (let peak = map peak_of logits
      in [(''mean_peak_confidence'', mean_of peak), (''frac_confident'', mean_of (map (\<lambda>p. of_bool (1 / 2 < p)) peak))])"

section \<open>What is relied on of PyTorch\<close>

locale log_softmax_law =
  fixes log_softmax :: "real list \<Rightarrow> real list"
  assumes length_log_softmax: "length (log_softmax xs) = length xs"
    and normalised: "xs \<noteq> [] \<Longrightarrow> sum_list (map exp (log_softmax xs)) = 1"

locale logsumexp_law =
  fixes logsumexp :: "real list \<Rightarrow> real"
  assumes exp_logsumexp: "xs \<noteq> [] \<Longrightarrow> exp (logsumexp xs) = sum_list (map exp xs)"

locale topk_law =
  fixes topk :: "nat \<Rightarrow> real list \<Rightarrow> nat list"
  assumes topk_length: "k \<le> length xs \<Longrightarrow> length (topk k xs) = k"
    and topk_distinct: "k \<le> length xs \<Longrightarrow> distinct (topk k xs) \<and> set (topk k xs) \<subseteq> {..<length xs}"
    and topk_largest: "k \<le> length xs \<Longrightarrow> i \<in> set (topk k xs) \<Longrightarrow> j < length xs \<Longrightarrow> j \<notin> set (topk k xs) \<Longrightarrow> xs ! j \<le> xs ! i"

section \<open>Means\<close>

lemma mean_nonneg: "\<forall>x \<in> set xs. 0 \<le> x \<Longrightarrow> 0 \<le> mean_of xs"
  by (simp add: mean_of_def sum_list_nonneg)

lemma sum_le_length: "\<forall>x \<in> set xs. x \<le> (b :: real) \<Longrightarrow> sum_list xs \<le> real (length xs) * b"
  by (induction xs) (auto simp: algebra_simps)

lemma mean_le: "xs \<noteq> [] \<Longrightarrow> \<forall>x \<in> set xs. x \<le> b \<Longrightarrow> mean_of xs \<le> b"
  using sum_le_length [of xs b] by (simp add: mean_of_def pos_divide_le_eq mult.commute)

lemma mean_le_one: "\<forall>x \<in> set xs. x \<le> 1 \<Longrightarrow> mean_of xs \<le> 1"
  by (cases "xs = []") (simp add: mean_of_def, rule mean_le)

lemma mean_mono: "list_all2 (\<le>) xs ys \<Longrightarrow> mean_of xs \<le> mean_of ys"
proof -
  assume l: "list_all2 (\<le>) xs ys"
  then have "sum_list xs \<le> sum_list ys" by (induction rule: list_all2_induct) auto
  then show ?thesis using list_all2_lengthD [OF l] by (simp add: mean_of_def divide_right_mono)
qed

lemma list_all2_maps: "\<forall>z \<in> set zs. f z \<le> g z \<Longrightarrow> list_all2 (\<le>) (map f zs) (map g zs)"
  by (induction zs) auto

section \<open>Cross-entropy\<close>

definition is_distribution :: "real list \<Rightarrow> bool" where
  "is_distribution t \<longleftrightarrow> (\<forall>p \<in> set t. 0 \<le> p) \<and> sum_list t = 1"

definition entropy :: "real list \<Rightarrow> real" where
  "entropy t = sum_list (map (\<lambda>p. - p * ln p) t)"

lemma gibbs_term: "0 \<le> (p :: real) \<Longrightarrow> p - exp q \<le> p * ln p - p * q"
proof (cases "p = 0")
  case False
  assume "0 \<le> p"
  with False have p: "0 < p" by simp
  have "ln (exp q / p) \<le> exp q / p - 1" using p by (intro ln_le_minus_one) simp
  then have "p * (q - ln p) \<le> p * (exp q / p - 1)" using p by (intro mult_left_mono) (simp_all add: ln_div)
  then show ?thesis using p by (simp add: algebra_simps)
qed simp

context log_softmax_law
begin

lemma cross_entropy_row:
  assumes t: "is_distribution t" and l: "length t = length l" "l \<noteq> []"
  shows "entropy t \<le> row_loss log_softmax l t"
proof -
  have "\<forall>p \<in> set t. 0 \<le> p \<Longrightarrow> length t = length q
      \<Longrightarrow> sum_list t - sum_list (map exp q) \<le> sum_list (map2 (\<lambda>p lp. - p * lp) t q) - entropy t" for q
  proof (induction t q rule: list_induct2')
    case (4 p t x q)
    then show ?case using gibbs_term [of p x] by (simp add: entropy_def)
  qed (simp_all add: entropy_def)
  from this [of "log_softmax l"] show ?thesis
    using t l normalised [OF l(2)] by (simp add: is_distribution_def length_log_softmax row_loss_def)
qed

end

text \<open>The entropy of a distribution is not negative, so the loss of a batch of distributions is at least the
  mean entropy of its targets, which is what a model that reproduces them reaches.\<close>

lemma entropy_nonneg: "is_distribution t \<Longrightarrow> 0 \<le> entropy t"
proof -
  assume t: "is_distribution t"
  have "p \<le> 1" if "p \<in> set t" for p
    using t that member_le_sum_list [of p t] by (simp add: is_distribution_def)
  then have "0 \<le> - p * ln p" if "p \<in> set t" for p
    using t that by (cases "p = 0") (auto simp: is_distribution_def mult_le_0_iff less_le)
  then show ?thesis unfolding entropy_def by (intro sum_list_nonneg) auto
qed

context log_softmax_law
begin

lemma soft_loss_bound:
  assumes "length logits = length targets" "\<forall>(l, t) \<in> set (zip logits targets). is_distribution t \<and> length t = length l \<and> l \<noteq> []"
  shows "mean_of (map entropy targets) \<le> soft_target_cross_entropy log_softmax logits targets"
    "0 \<le> soft_target_cross_entropy log_softmax logits targets"
proof -
  have row: "entropy t \<le> row_loss log_softmax l t \<and> 0 \<le> entropy t" if "(l, t) \<in> set (zip logits targets)" for l t
    using assms(2) that cross_entropy_row [of t l] entropy_nonneg [of t] by auto
  have "map entropy targets = map2 (\<lambda>l t. entropy t) logits targets"
    using assms(1) by (simp add: list_eq_iff_nth_eq)
  moreover have "list_all2 (\<le>) (map2 (\<lambda>l t. entropy t) logits targets)
      (map2 (row_loss log_softmax) logits targets)"
    using row by (intro list_all2_maps) auto
  ultimately show b: "mean_of (map entropy targets) \<le> soft_target_cross_entropy log_softmax logits targets"
    unfolding soft_target_cross_entropy_def using mean_mono by metis
  have "0 \<le> mean_of (map entropy targets)"
  proof (intro mean_nonneg ballI)
    fix x assume "x \<in> set (map entropy targets)"
    then obtain i where "i < length targets" "x = entropy (targets ! i)" by (auto simp: in_set_conv_nth)
    moreover from this have "(logits ! i, targets ! i) \<in> set (zip logits targets)" using assms(1) by (auto simp: set_zip)
    ultimately show "0 \<le> x" using row by blast
  qed
  with b show "0 \<le> soft_target_cross_entropy log_softmax logits targets" by linarith
qed

end

text \<open>The loss is linear in the targets: on the target MixUp makes of two it is the same mixture of the
  losses of the two.\<close>

lemma row_loss_mixed:
  assumes "length s = length (log_softmax l)" "length t = length (log_softmax l)"
  shows "row_loss log_softmax l (map2 (\<lambda>x y. lam * x + (1 - lam) * y) s t)
    = lam * row_loss log_softmax l s + (1 - lam) * row_loss log_softmax l t"
proof -
  have "length s = length q \<Longrightarrow> length t = length q \<Longrightarrow>
      sum_list (map2 (\<lambda>p lp. - p * lp) (map2 (\<lambda>x y. lam * x + (1 - lam) * y) s t) q)
      = lam * sum_list (map2 (\<lambda>p lp. - p * lp) s q) + (1 - lam) * sum_list (map2 (\<lambda>p lp. - p * lp) t q)" for q
  proof (induction q arbitrary: s t)
    case (Cons x q)
    then show ?case by (cases s; cases t) (auto simp: algebra_simps)
  qed simp
  with assms show ?thesis by (simp add: row_loss_def)
qed

lemma sum_single: "sum_list (map (\<lambda>i. if i = c then v else (0 :: real)) [0..<n]) = (if c < n then v else 0)"
  by (induction n) auto

lemma row_loss_one_hot:
  assumes "c < length (log_softmax l)" "length (log_softmax l) = n"
  shows "row_loss log_softmax l (one_hot n c) = - (log_softmax l ! c)"
proof -
  have "row_loss log_softmax l (one_hot n c) = sum_list (map (\<lambda>i. if i = c then - (log_softmax l ! c) else 0) [0..<n])"
    unfolding row_loss_def by (rule arg_cong [where f = sum_list]) (auto simp: list_eq_iff_nth_eq assms(2) one_hot_def)
  also have "\<dots> = - (log_softmax l ! c)"
    using assms by (simp add: sum_single)
  finally show ?thesis .
qed

section \<open>Accuracies\<close>

text \<open>Accuracies of a batch are shares and grow with \<open>k\<close>; the top-1 accuracy is the share of rows whose
  first index is the class of the target.\<close>

lemma accuracy_monotone:
  assumes "k \<le> m" "k \<in> set ks" "m \<in> set ks" "distinct ks"
    and "accuracy_topk topk am logits targets ks = res"
    and "dict_get res (''acc_top'' @ show_nat k) = Some a" "dict_get res (''acc_top'' @ show_nat m) = Some b"
  shows "0 \<le> a \<and> a \<le> b \<and> b \<le> 1"
proof -
  define max_k where "max_k = min (Max (set ks)) (length (hd logits))"
  define f where "f k = mean_of (map2 (\<lambda>p c. of_bool (c \<in> set (take (min k max_k) p))) (map (topk max_k) logits) (target_classes am targets))" for k
  have "res = map (\<lambda>k. (''acc_top'' @ show_nat k, f k)) ks"
    using assms(5) by (simp add: accuracy_topk_def Let_def f_def max_k_def)
  then have "dict_get res (''acc_top'' @ show_nat j) = (if j \<in> set ks then Some (f j) else None)" for j
    by (induction ks arbitrary: res) auto
  then have ab: "a = f k" "b = f m" using assms by simp_all
  have "list_all2 (\<le>) (map2 (\<lambda>p c. of_bool (c \<in> set (take (min k max_k) p)) :: real) ps cs)
      (map2 (\<lambda>p c. of_bool (c \<in> set (take (min m max_k) p))) ps cs)" for ps :: "nat list list" and cs
  proof (rule list_all2_maps, clarify)
    fix p c
    have "min k max_k \<le> min m max_k" using assms(1) by simp
    then have "set (take (min k max_k) p) \<subseteq> set (take (min m max_k) p)" by (rule set_take_subset_set_take)
    then show "(of_bool (c \<in> set (take (min k max_k) p)) :: real) \<le> of_bool (c \<in> set (take (min m max_k) p))" by auto
  qed
  then have "a \<le> b" unfolding ab f_def by (rule mean_mono)
  moreover have "0 \<le> a" "b \<le> 1" unfolding ab f_def by (auto intro!: mean_nonneg mean_le_one)
  ultimately show ?thesis by simp
qed

section \<open>Retrieval\<close>

lemma recall_bounds: "retrieval_recall_at_k topk embeddings labels k = [(n, r)] \<Longrightarrow> 0 \<le> r \<and> r \<le> 1"
  by (auto simp: retrieval_recall_at_k_def Let_def split: if_splits intro!: mean_nonneg mean_le_one)

context topk_law
begin

text \<open>With every similarity above \<open>-1\<close> no image retrieves itself.\<close>

lemma never_itself:
  assumes i: "i < length embeddings" and k: "k \<le> length embeddings - 1"
    and above: "\<forall>j < length embeddings. j \<noteq> i \<longrightarrow> - 1 < inner_product (embeddings ! i) (embeddings ! j)"
  shows "i \<notin> set (topk k (masked_row embeddings i))"
proof
  let ?row = "masked_row embeddings i" and ?n = "length embeddings"
  assume self: "i \<in> set (topk k ?row)"
  have len: "length ?row = ?n" by (simp add: masked_row_def)
  then have le: "k \<le> length ?row" using k by simp
  have "card (set (topk k ?row)) = k" using topk_length [OF le] topk_distinct [OF le] by (simp add: distinct_card)
  moreover have "k < ?n" using i k by linarith
  ultimately have "\<not> {..<?n} \<subseteq> set (topk k ?row)" by (metis card_lessThan card_mono finite_set linorder_not_less)
  then obtain j where j: "j < ?n" "j \<notin> set (topk k ?row)" by auto
  then have "j \<noteq> i" using self by auto
  have "?row ! j \<le> ?row ! i" using topk_largest [OF le self _ j(2)] j(1) len by simp
  then show False using above i j(1) \<open>j \<noteq> i\<close> by (auto simp: masked_row_def)
qed

end

section \<open>The contrastive loss\<close>

lemma positives_others: "set (positives_of labels i) \<subseteq> set (others (length labels) i)" "distinct (positives_of labels i)"
  by (auto simp: positives_of_def others_def)

context logsumexp_law
begin

lemma log_probs_sum:
  assumes "others (length embeddings) i \<noteq> []"
  shows "sum_list (map (\<lambda>j. exp (log_prob logsumexp embeddings temperature i j)) (others (length embeddings) i)) = 1"
proof -
  let ?f = "\<lambda>m. inner_product (embeddings ! i) (embeddings ! m) / temperature"
  let ?l = "logsumexp (map ?f (others (length embeddings) i))"
  have a: "exp ?l = sum_list (map (\<lambda>j. exp (?f j)) (others (length embeddings) i))"
    using exp_logsumexp [of "map ?f (others (length embeddings) i)"] assms by (simp add: comp_def)
  have b: "sum_list (map (\<lambda>j. exp (log_prob logsumexp embeddings temperature i j)) js)
      = sum_list (map (\<lambda>j. exp (?f j)) js) / exp ?l" for js
    by (induction js) (simp_all add: log_prob_def Let_def exp_diff add_divide_distrib)
  show ?thesis unfolding b a [symmetric] by simp
qed

lemma positive_mean:
  assumes m: "length (positives_of labels i) = m" "0 < m" and n: "length embeddings = length labels"
  shows "sum_list (map (log_prob logsumexp embeddings temperature i) (positives_of labels i)) / real m \<le> - ln (real m)"
proof -
  let ?p = "log_prob logsumexp embeddings temperature i" and ?js = "positives_of labels i" and ?os = "others (length embeddings) i"
  have sub: "set ?js \<subseteq> set ?os" "distinct ?js" using positives_others [of labels i] n by simp_all
  have "?os \<noteq> []" using sub m by auto
  then have one: "sum_list (map (\<lambda>j. exp (?p j)) ?os) = 1" by (rule log_probs_sum)
  have "sum_list (map (\<lambda>j. exp (?p j)) ?js) = (\<Sum>j \<in> set ?js. exp (?p j))" using sub(2) by (simp add: sum_list_distinct_conv_sum_set)
  also have "\<dots> \<le> (\<Sum>j \<in> set ?os. exp (?p j))" using sub(1) by (intro sum_mono2) auto
  also have "\<dots> = sum_list (map (\<lambda>j. exp (?p j)) ?os)" by (simp add: sum_list_distinct_conv_sum_set others_def)
  finally have le1: "sum_list (map (\<lambda>j. exp (?p j)) ?js) \<le> 1" using one by simp
  have "sum_list (map ?p js) + real (length js) * ln (real m) \<le> real m * sum_list (map (\<lambda>j. exp (?p j)) js) - real (length js)" for js
  proof (induction js)
    case (Cons j js)
    have "ln (real m * exp (?p j)) \<le> real m * exp (?p j) - 1" using m(2) by (intro ln_le_minus_one) simp
    then have "?p j + ln (real m) \<le> real m * exp (?p j) - 1" using m(2) by (simp add: ln_mult)
    then show ?case using Cons by (simp add: algebra_simps)
  qed simp
  from this [of ?js] have "sum_list (map ?p ?js) + real m * ln (real m) \<le> real m * sum_list (map (\<lambda>j. exp (?p j)) ?js) - real m"
    by (simp add: m(1))
  also have "\<dots> \<le> 0" using le1 m(2) by (simp add: mult_le_cancel_left1)
  finally have "sum_list (map ?p ?js) \<le> real m * (- ln (real m))" by simp
  then show ?thesis using m(2) by (simp add: pos_divide_le_eq mult.commute)
qed

text \<open>A batch in which every anchor that has a positive has at least \<open>m\<close> of them has a loss of at least
  \<open>ln m\<close>; in particular the loss is never negative, and without a pair of one class it is zero.\<close>

lemma contrastive_bound:
  assumes n: "length embeddings = length labels"
    and m: "\<forall>i < length labels. positives_of labels i \<noteq> [] \<longrightarrow> m \<le> length (positives_of labels i)" "0 < m"
    and pair: "\<exists>i < length labels. positives_of labels i \<noteq> []"
  shows "ln (real m) \<le> supervised_contrastive_loss logsumexp embeddings labels temperature"
proof -
  let ?as = "filter (\<lambda>i. positives_of labels i \<noteq> []) [0..<length labels]"
  let ?v = "\<lambda>i. sum_list (map (log_prob logsumexp embeddings temperature i) (positives_of labels i)) / max 1 (real (length (positives_of labels i)))"
  have ne: "?as \<noteq> []" using pair by (auto simp: filter_empty_conv)
  have "?v i \<le> - ln (real m)" if "i \<in> set ?as" for i
  proof -
    let ?c = "length (positives_of labels i)"
    have c: "0 < ?c" "m \<le> ?c" using that m by auto
    then have "max 1 (real ?c) = real ?c" by linarith
    then have "?v i \<le> - ln (real ?c)" using positive_mean [OF refl c(1) n] by simp
    also have "\<dots> \<le> - ln (real m)" using c m(2) by simp
    finally show ?thesis .
  qed
  then have "mean_of (map ?v ?as) \<le> - ln (real m)" using ne by (intro mean_le) auto
  then show ?thesis using ne by (simp add: supervised_contrastive_loss_def Let_def)
qed

lemma contrastive_nonneg:
  assumes "length embeddings = length labels" shows "0 \<le> supervised_contrastive_loss logsumexp embeddings labels temperature"
proof (cases "\<exists>i < length labels. positives_of labels i \<noteq> []")
  case True
  then show ?thesis using contrastive_bound [OF assms, of 1] by (auto simp: Suc_le_eq)
next
  case False
  then have "filter (\<lambda>i. positives_of labels i \<noteq> []) [0..<length labels] = []" by (auto simp: filter_empty_conv)
  then show ?thesis by (simp add: supervised_contrastive_loss_def)
qed

end

lemma contrastive_without_pairs:
  "distinct labels \<Longrightarrow> supervised_contrastive_loss logsumexp embeddings labels temperature = 0"
proof -
  assume "distinct labels"
  then have "positives_of labels i = []" if "i < length labels" for i
    using that by (auto simp: positives_of_def others_def filter_empty_conv nth_eq_iff_index_eq)
  then have "filter (\<lambda>i. positives_of labels i \<noteq> []) [0..<length labels] = []" by (auto simp: filter_empty_conv)
  then show ?thesis by (simp add: supervised_contrastive_loss_def)
qed

section \<open>The functions of PyTorch as they are documented\<close>

definition reference_log_softmax :: "real list \<Rightarrow> real list" where
  "reference_log_softmax xs = map (\<lambda>x. x - ln (sum_list (map exp xs))) xs"

definition reference_logsumexp :: "real list \<Rightarrow> real" where
  "reference_logsumexp xs = ln (sum_list (map exp xs))"

lemma sum_exp_pos: "xs \<noteq> [] \<Longrightarrow> 0 < sum_list (map exp (xs :: real list))"
  by (cases xs) (auto intro!: add_pos_nonneg sum_list_nonneg)

interpretation reference_softmax: log_softmax_law reference_log_softmax
proof
  fix xs :: "real list" assume "xs \<noteq> []"
  then have z: "0 < sum_list (map exp xs)" by (rule sum_exp_pos)
  have "sum_list (map (\<lambda>x. exp (x - ln z)) ys) = sum_list (map exp ys) / z" if "0 < z" for ys and z :: real
    using that by (induction ys) (simp_all add: exp_diff add_divide_distrib)
  from this [OF z] show "sum_list (map exp (reference_log_softmax xs)) = 1"
    using z by (simp add: reference_log_softmax_def comp_def)
qed (simp add: reference_log_softmax_def)

interpretation reference_lse: logsumexp_law reference_logsumexp
  by unfold_locales (simp add: reference_logsumexp_def sum_exp_pos)

definition reference_topk :: "nat \<Rightarrow> real list \<Rightarrow> nat list" where
  "reference_topk k xs = take k (sort_key (\<lambda>i. - xs ! i) [0..<length xs])"

interpretation reference_order: topk_law reference_topk
proof
  fix k i j and xs :: "real list"
  let ?s = "sort_key (\<lambda>i. - xs ! i) [0..<length xs]"
  assume k: "k \<le> length xs" and i: "i \<in> set (reference_topk k xs)" and j: "j < length xs" "j \<notin> set (reference_topk k xs)"
  have "set ?s = set (take k ?s) \<union> set (drop k ?s)" by (metis append_take_drop_id set_append)
  then have "j \<in> set (drop k ?s)" using j by (auto simp: reference_topk_def)
  moreover have "sorted (map (\<lambda>i. - xs ! i) (take k ?s @ drop k ?s))" by simp
  then have "\<forall>a \<in> set (take k ?s). \<forall>b \<in> set (drop k ?s). - xs ! a \<le> - xs ! b"
    unfolding map_append sorted_append by auto
  ultimately show "xs ! j \<le> xs ! i" using i by (simp add: reference_topk_def)
qed (auto simp: reference_topk_def dest: in_set_takeD)

lemma training_losses_nonneg:
  assumes "length logits = length targets" "\<forall>(l, t) \<in> set (zip logits targets). is_distribution t \<and> length t = length l \<and> l \<noteq> []"
    and "length embeddings = length labels"
  shows "0 \<le> soft_target_cross_entropy reference_log_softmax logits targets"
    "0 \<le> supervised_contrastive_loss reference_logsumexp embeddings labels temperature"
  by (rule reference_softmax.soft_loss_bound(2) [OF assms(1, 2)], rule reference_lse.contrastive_nonneg [OF assms(3)])

end
