(* ===== verification/Spec2Isabelle.thy ===== *)
theory Spec2Isabelle
  imports Application Batch Regression Drift Augmentation Datasets Checkpoints Partitions Similarity_Index Sweep
    Download Model_Evaluation Doc_Sync Objectives
begin

text \<open>
  A model of a multi-model computer-vision API, of the jobs around it and of the pipeline that trains,
  exports, publishes and evaluates its models, with the theorems that make its components correct.

  The program. \<open>api/main.py\<close> starts the process: it connects Redis and PostgreSQL, loads the models
  (\<open>api/services/model_service.py\<close>, \<open>runtime.py\<close>), the similarity index and the experiments, and seeds
  the API keys. A request passes the correlation and metrics middleware (\<open>api/middleware\<close>), is
  authenticated and rate limited, and its image is read, validated and inferred by a service, which
  uses the response cache and writes an audit record through a bounded queue. Batches go through
  Celery to \<open>worker/tasks.py\<close>. Models come from \<open>models/training\<close>, are exported, quantised and measured by
  \<open>models/optimisation\<close>, published by \<open>scripts/prepare_artifacts.py\<close>, and promoted on the evidence of
  \<open>models/validation\<close> and the scripts that apply it.

  Theories of the service, in the order of their imports:
  \<^item> Prelude: results, Python dictionaries as association lists, Python values, decimal rendering,
    rounding, collections of simplification rules, and generic lemmas on lists, runs of a step
    relation and invariants.
  \<^item> Api_Errors (\<open>api/exceptions.py\<close>), Config (\<open>api/config.py\<close>), Schemas and Responses
    (\<open>api/models\<close>), Validators and Image_Processing (\<open>api/utils\<close>).
  \<^item> Runtime (\<open>api/services/runtime.py\<close>) and Model_Service: sessions, versioned artefacts, backend
    fallback, the registry as a step relation (\<open>registry_step\<close>) with its invariant.
  \<^item> Cache_Service, Audit_Service, Inference_Service, Detection_Service, Similarity_Service,
    Experiment_Service: one theory for each module of \<open>api/services\<close>. The audit queue is a step
    relation (\<open>audit_step\<close>) whose steps are the parts of the event loop between two suspensions.
  \<^item> Rate_Limit, Auth, Monitoring (\<open>api/middleware\<close>, \<open>api/routers/auth.py\<close>).
  \<^item> Uploads, Endpoints, Batch, Worker: the routers and the Celery task, composed of the above.
  \<^item> Application: start-up, shutdown, exception handlers, health (\<open>api/main.py\<close>,
    \<open>api/routers/health.py\<close>).

  Theories of the pipeline and the jobs:
  \<^item> AB_Testing, Regression, Drift (\<open>models/validation\<close> with \<open>scripts/check_regression.py\<close> and
    \<open>analyse_drift.py\<close>): experiment reports, the release gate, the drift job.
  \<^item> Augmentation, Datasets (\<open>models/data\<close>, \<open>scripts/evaluate_detector.py\<close>): mixing of batches, the COCO
    and Tiny-ImageNet data sets, detections as COCO results.
  \<^item> Training, Training_Loop, Checkpoints, Objectives (\<open>models/training\<close>): schedules and parameter groups,
    the loop with its signals, checkpoints as sequences of file-system calls that may be cut
    anywhere, losses and metrics.
  \<^item> Publishing (\<open>models/optimisation/export*.py\<close>, \<open>scripts/prepare_artifacts.py\<close>) and Similarity_Index
    (\<open>export_embedding.py\<close>, \<open>scripts/build_similarity_index.py\<close>): what is written for the service to load.
  \<^item> Benchmark, Quantize, Sweep (\<open>models/optimisation/benchmark.py\<close>, \<open>quantize.py\<close>, \<open>run_benchmarks.py\<close>):
    measuring latency, INT8 and its cost, the sweep over both. Doc_Sync (\<open>scripts/sync_docs.py\<close>): the
    figures of the sweep in the documentation.
  \<^item> Model_Evaluation (\<open>scripts/evaluate_models.py\<close>, \<open>verify_exports.py\<close>): calibration, accuracy per class,
    retrieval precision, the guard on exports.
  \<^item> Partitions (\<open>migrations/versions/20260914_1800_partition_inference_logs.py\<close>,
    \<open>scripts/maintain_partitions.py\<close>): the partitions of the audit table and their upkeep.
  \<^item> Disk and Download (\<open>scripts/setup/download_datasets.py\<close>): actions on a file system, and the command
    that downloads and prepares the data sets.

  Conventions. A Python function is a definition of its name; state it changes is passed in and
  returned; an exception is the left side of a result, as a class of the hierarchy (\<open>ApiExc\<close>) or as
  a Python class name with its text (\<open>PyExc\<close>). Floating point numbers are reals, so rounding errors
  are not modelled, except where not-a-number and infinities matter (\<open>flt\<close> in Regression, Training_Loop
  and Quantize); integers of the program are unbounded as in Python. What is not in the
  repository is a parameter: ONNX Runtime, PyTorch, Pillow, NumPy's index routines, FAISS, Redis, the
  database, the file system of the service, JWT and digest functions, HTTP clients, Celery results,
  clocks and random draws. Where a theorem relies on the behaviour of one of them, its contract is a
  hypothesis or an assumption of a locale, and a witness meets it with a concrete function. Logging
  is left out.

  What the lemmas show. For the model service: loading is honest about backend and provider, and
  every reachable registry serves each loaded name. For classification: the cache is transparent,
  the key determines the request, every branch writes the audit row it should. For the queue: every
  record is accounted for in every interleaving, and a stop ends. For the limiter: never more than
  the limit in any window. For experiments: every user has exactly one arm, and it is loaded. For
  tokens: they authenticate their owner until they expire. For batches: items are isolated and the
  status endpoint reports what the worker computed. For start-up: what is served afterwards. For
  training: which checkpoints a run leaves, that resuming never loads a torn one, when a run is
  aborted, where the schedule ends, that targets stay distributions and losses are not negative. For
  publishing: a published version is what the service finds, other versions are untouched, and what an
  export that fails leaves behind. For the index: it refines a list of entries, and crashes are
  detected. For measurements: reports contain what was measured under truthful labels, statistics are
  ordered, the gate passes exactly on complete evidence, the calibration error bounds the
  overconfidence. For partitions: retention is exact while the job runs in time, and a lapse never
  heals. For downloads: a data set is installed completely or not at all, resumed transfers are exact,
  and the validation split is restructured without loss. Lemmas that exhibit a defect of the code are
  stated like the others, on the model of that code.

  Bounds and termination. Loops are structural recursions or have a measure (\<open>read_upload_loop\<close>:
  the bytes not yet read; \<open>slices\<close> and \<open>read_chunks\<close>: the length of the rest); no fuel is used. The step
  relations are unbounded.

  Not modelled. \<open>api/logging_config.py\<close> (configuration of a library); the Alembic set-up and the two
  migrations that only create a table and add a column; \<open>models/training/train.py\<close> and the constructors
  of the pipelines, which assemble objects of Hydra, timm, Transformers and Accelerate;
  \<open>scripts/prepare_synthetic_artifacts.py\<close> (random models for continuous integration) and
  \<open>scripts/profile_memory.py\<close> (measurements of the process), which have no logic apart from the libraries
  they call; \<open>docker/webhook\<close> (a sink for alerts in development); command-line parsers and console output
  throughout.
\<close>

end
